(* ===== verification/Agent_Base.thy ===== *)
theory Agent_Base
  imports Main "HOL-Library.Multiset"
begin

text \<open>
  The shared prelude of the development: the conventions by which TypeScript values are
  represented, and the list, option and map lemmas that the component theories use.

  \<^item> An optional property \<open>p?: T\<close> is a value of \<open>T option\<close>; an absent property and the value
    \<open>undefined\<close> are both \<open>None\<close>.
  \<^item> \<open>truthy\<close> is the JavaScript test \<open>if (s)\<close> on an optional string: neither absent nor empty.
  \<^item> \<open>nullish a b\<close> is \<open>a ?? b\<close>.
  \<^item> A time stamp string is represented by what \<open>Date.parse\<close> makes of it (type \<open>iso_time\<close>).
  \<^item> A call that may throw has a sum type, \<open>Inl\<close> being the thrown error.
  \<^item> An object used as a dictionary, and a \<open>Map\<close> whose iteration order cannot be observed, is a
    partial function.
\<close>

section \<open>Optional strings\<close>

definition truthy :: "string option \<Rightarrow> bool" where
  "truthy s = (case s of None \<Rightarrow> False | Some x \<Rightarrow> x \<noteq> [])"

definition nullish :: "'a option \<Rightarrow> 'a option \<Rightarrow> 'a option" where
  "nullish a b = (case a of None \<Rightarrow> b | Some x \<Rightarrow> Some x)"

text \<open>\<open>or_str a b\<close> is \<open>a || b\<close> on optional strings.\<close>

definition or_str :: "string option \<Rightarrow> string option \<Rightarrow> string option" where
  "or_str a b = (if truthy a then a else b)"

lemma truthy_None [simp]: "\<not> truthy None"
  by (simp add: truthy_def)

lemma truthy_Some [simp]: "truthy (Some s) \<longleftrightarrow> s \<noteq> []"
  by (simp add: truthy_def)

lemma truthyE:
  assumes "truthy s"
  obtains x where "s = Some x" and "x \<noteq> []"
  using assms by (cases s) auto

lemma nullish_simps [simp]:
  "nullish None b = b"
  "nullish (Some x) b = Some x"
  "nullish a None = a"
  by (simp_all add: nullish_def split: option.splits)

lemma nullish_same [simp]: "nullish a a = a"
  by (cases a) simp_all

lemma nullish_eq_None [simp]: "nullish a b = None \<longleftrightarrow> a = None \<and> b = None"
  by (simp add: nullish_def split: option.splits)

section \<open>Time stamps\<close>

text \<open>
  \<open>Iso t\<close> is a string that \<open>Date.parse\<close> reads as \<open>t\<close> milliseconds; \<open>Unparsable s\<close> is any other
  string, on which \<open>Date.parse\<close> returns \<open>NaN\<close> (the empty string is one of them).
\<close>

datatype iso_time = Iso int | Unparsable string

fun date_parse :: "iso_time \<Rightarrow> int option" where
  "date_parse (Iso t) = Some t"
| "date_parse (Unparsable s) = None"

fun iso_nonempty :: "iso_time \<Rightarrow> bool" where
  "iso_nonempty (Iso t) = True"
| "iso_nonempty (Unparsable s) = (s \<noteq> [])"

definition truthy_iso :: "iso_time option \<Rightarrow> bool" where
  "truthy_iso s = (case s of None \<Rightarrow> False | Some x \<Rightarrow> iso_nonempty x)"

lemma truthy_iso_simps [simp]:
  "\<not> truthy_iso None"
  "truthy_iso (Some (Iso t))"
  "truthy_iso (Some (Unparsable s)) \<longleftrightarrow> s \<noteq> []"
  by (simp_all add: truthy_iso_def)

section \<open>Dynamically typed values\<close>

text \<open>
  A value of type \<open>unknown\<close> that arrived as JSON. A number is either an integer or one of the
  doubles that are not integers (fractions, infinities, \<open>NaN\<close>), which every check of the source
  rejects alike.
\<close>

datatype js_number = IntNum int | NonInteger

datatype json =
    JUndefined
  | JNull
  | JBool bool
  | JNum js_number
  | JStr string
  | JArr "json list"
  | JObj "(string \<times> json) list"

text \<open>\<open>js_prop o k\<close> is \<open>o[k]\<close>: the last binding of the key wins, as in \<open>JSON.parse\<close>.\<close>

definition js_prop :: "(string \<times> json) list \<Rightarrow> string \<Rightarrow> json" where
  "js_prop fields k = (case map_of (rev fields) k of None \<Rightarrow> JUndefined | Some v \<Rightarrow> v)"

section \<open>Trimming\<close>

text \<open>The white space of \<open>String.prototype.trim\<close> among the first 256 code points.\<close>

definition js_space :: "char \<Rightarrow> bool" where
  "js_space c = ((of_char c :: nat) \<in> {9, 10, 11, 12, 13, 32, 160})"

definition js_trim :: "string \<Rightarrow> string" where
  "js_trim s = rev (dropWhile js_space (rev (dropWhile js_space s)))"

section \<open>Keeping the first occurrence of every element\<close>

text \<open>
  \<open>keep_first xs\<close> is both \<open>[...new Set(xs)]\<close> and
  \<open>xs.filter((x, i) => xs.indexOf(x) === i)\<close>.
\<close>

fun keep_first :: "'a list \<Rightarrow> 'a list" where
  "keep_first [] = []"
| "keep_first (x # xs) = x # filter (\<lambda>y. y \<noteq> x) (keep_first xs)"

lemma set_keep_first [simp]: "set (keep_first xs) = set xs"
  by (induction xs) auto

lemma distinct_keep_first [simp]: "distinct (keep_first xs)"
  by (induction xs) auto

lemma keep_first_distinct [simp]: "distinct xs \<Longrightarrow> keep_first xs = xs"
  by (induction xs) (auto simp: filter_id_conv)

section \<open>Lists\<close>

lemma find_SomeD: "List.find P xs = Some x \<Longrightarrow> x \<in> set xs \<and> P x"
  by (auto simp: find_Some_iff)

lemma find_None_iff_all: "List.find P xs = None \<longleftrightarrow> (\<forall>x\<in>set xs. \<not> P x)"
  by (auto simp: find_None_iff)

lemma find_isSome: "(\<exists>x. List.find P xs = Some x) \<longleftrightarrow> (\<exists>x\<in>set xs. P x)"
  using find_None_iff_all [of P xs] by (cases "List.find P xs") (auto dest: find_SomeD)

lemma find_same_first:
  assumes "List.find P xs = Some k" and "Q k" and "\<And>x. x \<noteq> k \<Longrightarrow> Q x = P x"
  shows "List.find Q xs = Some k"
  using assms by (induction xs) (auto split: if_splits)

text \<open>Filling a dictionary from a list.\<close>

lemma fold_put_other:
  "k \<notin> f ` set xs \<Longrightarrow> fold (\<lambda>x m. m(f x \<mapsto> g x)) xs m k = m k"
  by (induction xs arbitrary: m) auto

lemma fold_put_member:
  "distinct (map f xs) \<Longrightarrow> x \<in> set xs \<Longrightarrow> fold (\<lambda>x m. m(f x \<mapsto> g x)) xs m (f x) = Some (g x)"
  by (induction xs arbitrary: m) (auto simp: fold_put_other)

lemma dom_fold_put: "dom (fold (\<lambda>x m. m(f x \<mapsto> g x)) xs m) = f ` set xs \<union> dom m"
  by (induction xs arbitrary: m) auto

text \<open>Renaming one element of a duplicate-free list to an element it does not hold.\<close>

definition rename_elem :: "'a \<Rightarrow> 'a \<Rightarrow> 'a list \<Rightarrow> 'a list" where
  "rename_elem a b xs = map (\<lambda>x. if x = a then b else x) xs"

lemma set_rename_elem: "a \<in> set xs \<Longrightarrow> set (rename_elem a b xs) = insert b (set xs - {a})"
  by (auto simp: rename_elem_def)

lemma distinct_rename_elem:
  "distinct xs \<Longrightarrow> b \<notin> set xs - {a} \<Longrightarrow> distinct (rename_elem a b xs)"
  by (induction xs) (auto simp: rename_elem_def)

lemma rename_elem_id [simp]: "rename_elem a a xs = xs"
  by (induction xs) (auto simp: rename_elem_def)

text \<open>\<open>split_on c s\<close> is \<open>s.split(c)\<close> for a one-character separator, \<open>join_with c ps\<close> is \<open>ps.join(c)\<close>.\<close>

fun split_on :: "'a \<Rightarrow> 'a list \<Rightarrow> 'a list list" where
  "split_on c [] = [[]]"
| "split_on c (x # xs) =
     (if x = c then [] # split_on c xs
      else (case split_on c xs of [] \<Rightarrow> [[x]] | p # ps \<Rightarrow> (x # p) # ps))"

fun join_with :: "'a list \<Rightarrow> 'a list list \<Rightarrow> 'a list" where
  "join_with sep [] = []"
| "join_with sep [p] = p"
| "join_with sep (p # q # ps) = p @ sep @ join_with sep (q # ps)"

lemma split_on_nonempty [simp]: "split_on c s \<noteq> []"
  by (induction s) (auto split: list.splits)

lemma join_split [simp]: "join_with [c] (split_on c s) = s"
proof (induction s)
  case Nil
  then show ?case by simp
next
  case (Cons x s)
  obtain p ps where ps: "split_on c s = p # ps"
    using split_on_nonempty [of c s] by (cases "split_on c s") auto
  show ?case using Cons ps by (cases ps) auto
qed

lemma split_on_parts: "p \<in> set (split_on c s) \<Longrightarrow> c \<notin> set p"
  by (induction s arbitrary: p) (auto split: list.splits if_splits)

lemma split_on_append: "split_on c (a @ c # t) = split_on c a @ split_on c t"
proof (induction a)
  case (Cons x a)
  then show ?case using split_on_nonempty [of c a] by (cases "split_on c a") auto
qed simp

lemma split_on_single: "c \<notin> set p \<Longrightarrow> split_on c p = [p]"
  by (induction p) auto

lemma split_join:
  "ps \<noteq> [] \<Longrightarrow> (\<And>p. p \<in> set ps \<Longrightarrow> c \<notin> set p) \<Longrightarrow> split_on c (join_with [c] ps) = ps"
  by (induction "[c]" ps rule: join_with.induct) (auto simp: split_on_single split_on_append)

section \<open>Results that may be errors\<close>

definition bind_res :: "'e + 'a \<Rightarrow> ('a \<Rightarrow> 'e + 'b) \<Rightarrow> 'e + 'b" where
  "bind_res r f = (case r of Inl e \<Rightarrow> Inl e | Inr x \<Rightarrow> f x)"

lemma bind_res_simps [simp]:
  "bind_res (Inl e) f = Inl e"
  "bind_res (Inr x) f = f x"
  by (simp_all add: bind_res_def)

lemma bind_res_Inr_iff: "bind_res r f = Inr y \<longleftrightarrow> (\<exists>x. r = Inr x \<and> f x = Inr y)"
  by (cases r) auto

text \<open>\<open>check b e\<close> is the guard \<open>if (!b) throw e\<close>.\<close>

definition check :: "bool \<Rightarrow> 'e \<Rightarrow> 'e + unit" where
  "check b e = (if b then Inr () else Inl e)"

lemma check_Inr [simp]: "check b e = Inr u \<longleftrightarrow> b"
  by (simp add: check_def)

lemma check_Inl [simp]: "check b e = Inl e' \<longleftrightarrow> \<not> b \<and> e = e'"
  by (auto simp: check_def)

lemma bind_check [simp]: "bind_res (check b e) f = (if b then f () else Inl e)"
  by (simp add: check_def)

section \<open>Projections that never move backwards\<close>

text \<open>
  A client projection absorbs a stream of server observations; its rank is how far the observed
  object has got. The interface asks that one step keeps the projection's invariant and does not
  lower the rank, and gives both for every stream.
\<close>

locale monotone_projection =
  fixes inv :: "'s \<Rightarrow> bool"
    and rank :: "'s \<Rightarrow> nat"
    and absorb :: "'s \<Rightarrow> 'i \<Rightarrow> 's"
  assumes absorb_inv: "inv s \<Longrightarrow> inv (absorb s i)"
    and absorb_mono: "inv s \<Longrightarrow> rank s \<le> rank (absorb s i)"
begin

lemma stream_inv: "inv s \<Longrightarrow> inv (foldl absorb s obs)"
  by (induction obs arbitrary: s) (simp_all add: absorb_inv)

lemma stream_mono: "inv s \<Longrightarrow> rank s \<le> rank (foldl absorb s obs)"
proof (induction obs arbitrary: s)
  case Nil
  then show ?case by simp
next
  case (Cons i obs)
  have "rank s \<le> rank (absorb s i)" using Cons.prems by (rule absorb_mono)
  also have "\<dots> \<le> rank (foldl absorb (absorb s i) obs)"
    using absorb_inv [OF Cons.prems] by (rule Cons.IH)
  finally show ?case by simp
qed

lemma stream_mono_prefix: "inv s \<Longrightarrow> rank (foldl absorb s obs) \<le> rank (foldl absorb s (obs @ more))"
  by (simp add: stream_inv stream_mono)

end

section \<open>Facts that are decided once\<close>

text \<open>
  A store decides a fact per key at most once: whatever operation runs afterwards, the decided value
  stays. The operations of a run are those the provider admits.
\<close>

locale write_once =
  fixes inv :: "'s \<Rightarrow> bool"
    and admissible :: "'op \<Rightarrow> bool"
    and decided :: "'s \<Rightarrow> 'k \<Rightarrow> 'v option"
    and step :: "'s \<Rightarrow> 'op \<Rightarrow> 's"
  assumes step_inv: "inv s \<Longrightarrow> admissible op \<Longrightarrow> inv (step s op)"
    and step_keeps: "inv s \<Longrightarrow> admissible op \<Longrightarrow> decided s k = Some v \<Longrightarrow> decided (step s op) k = Some v"
begin

lemma run_inv: "inv s \<Longrightarrow> list_all admissible ops \<Longrightarrow> inv (foldl step s ops)"
  by (induction ops arbitrary: s) (simp_all add: step_inv)

lemma run_keeps:
  "inv s \<Longrightarrow> list_all admissible ops \<Longrightarrow> decided s k = Some v \<Longrightarrow> decided (foldl step s ops) k = Some v"
  by (induction ops arbitrary: s) (simp_all add: step_inv step_keeps)

lemma observations_agree:
  assumes "inv s" and "list_all admissible (early @ late)"
    and "decided (foldl step s early) k = Some v" and "decided (foldl step s (early @ late)) k = Some w"
  shows "v = w"
  using run_keeps [OF run_inv [OF assms(1)], of early late k v] assms by simp

end

section \<open>Stable sorting by a comparator\<close>

text \<open>
  \<open>Array.prototype.sort\<close> with a comparator: the comparator's result is read as ``not after''.
  The sort is stable, which determines the result whenever the comparator is a total preorder.
\<close>

fun js_insert :: "('a \<Rightarrow> 'a \<Rightarrow> bool) \<Rightarrow> 'a \<Rightarrow> 'a list \<Rightarrow> 'a list" where
  "js_insert le x [] = [x]"
| "js_insert le x (y # ys) = (if le x y then x # y # ys else y # js_insert le x ys)"

definition js_sort :: "('a \<Rightarrow> 'a \<Rightarrow> bool) \<Rightarrow> 'a list \<Rightarrow> 'a list" where
  "js_sort le xs = foldr (js_insert le) xs []"

lemma mset_js_insert [simp]: "mset (js_insert le x ys) = add_mset x (mset ys)"
  by (induction ys) auto

lemma mset_js_sort [simp]: "mset (js_sort le xs) = mset xs"
  unfolding js_sort_def by (induction xs) auto

lemma set_js_sort [simp]: "set (js_sort le xs) = set xs"
  by (metis mset_js_sort set_mset_mset)

lemma distinct_js_sort [simp]: "distinct (js_sort le xs) = distinct xs"
  by (metis mset_js_sort mset_eq_imp_distinct_iff)

lemma sorted_js_insert:
  assumes tot: "\<And>a b. a \<in> S \<Longrightarrow> b \<in> S \<Longrightarrow> le a b \<or> le b a"
    and tr: "\<And>a b c. a \<in> S \<Longrightarrow> b \<in> S \<Longrightarrow> c \<in> S \<Longrightarrow> le a b \<Longrightarrow> le b c \<Longrightarrow> le a c"
    and x: "x \<in> S"
  shows "set ys \<subseteq> S \<Longrightarrow> sorted_wrt le ys \<Longrightarrow> sorted_wrt le (js_insert le x ys)"
proof (induction ys)
  case Nil
  then show ?case by simp
next
  case (Cons y ys)
  have set_ins: "set (js_insert le x ys) = insert x (set ys)"
    by (metis mset_js_insert set_mset_add_mset_insert set_mset_mset)
  show ?case
  proof (cases "le x y")
    case True
    have "le x z" if "z \<in> set ys" for z
      using tr [of x y z] x Cons.prems True that by auto
    with True Cons.prems show ?thesis by simp
  next
    case False
    then have "le y x" using tot [of x y] x Cons.prems by auto
    moreover have "sorted_wrt le (js_insert le x ys)"
      using Cons by simp
    ultimately show ?thesis using False Cons.prems set_ins by simp
  qed
qed

lemma sorted_js_sort:
  assumes tot: "\<And>a b. a \<in> S \<Longrightarrow> b \<in> S \<Longrightarrow> le a b \<or> le b a"
    and tr: "\<And>a b c. a \<in> S \<Longrightarrow> b \<in> S \<Longrightarrow> c \<in> S \<Longrightarrow> le a b \<Longrightarrow> le b c \<Longrightarrow> le a c"
  shows "set xs \<subseteq> S \<Longrightarrow> sorted_wrt le (js_sort le xs)"
proof (induction xs)
  case Nil
  then show ?case by (simp add: js_sort_def)
next
  case (Cons x xs)
  then have srt: "sorted_wrt le (js_sort le xs)" and x: "x \<in> S" and sub: "set (js_sort le xs) \<subseteq> S"
    by simp_all
  have "sorted_wrt le (js_insert le x (js_sort le xs))"
    by (rule sorted_js_insert [OF tot tr x sub srt])
  then show ?case by (simp add: js_sort_def)
qed

lemma js_sort_sorted: "sorted_wrt le xs \<Longrightarrow> js_sort le xs = xs"
proof (induction xs)
  case (Cons x xs)
  then have "js_sort le (x # xs) = js_insert le x xs" by (simp add: js_sort_def)
  with Cons.prems show ?case by (cases xs) auto
qed (simp add: js_sort_def)

end
