(* ===== verification/Governance_Access.thy ===== *)
theory Governance_Access
  imports Agent_Base
begin

text \<open>
  The layered access decision of \<^verbatim>\<open>server/src/governance\<close>: the subject resolver, the action
  catalogue, the seven policy providers, the evaluator that combines them, the execution
  readiness check and the authorizer for credential use.

  The database readers the policies consult (\<^verbatim>\<open>getEntitlementSet\<close>, \<^verbatim>\<open>listResourceScopes\<close>,
  \<^verbatim>\<open>getPolicies\<close>, \<^verbatim>\<open>getAssignmentSet\<close>, \<^verbatim>\<open>getMembership\<close>, \<^verbatim>\<open>getPlatformAdmin\<close>) are SQL queries; they are
  arguments of the definitions, and every theorem holds for all of them. The clock and the
  decision id (\<^verbatim>\<open>randomUUID\<close>) are arguments too. A provider is modelled as returning a result;
  a rejected database call rejects the whole evaluation and yields no decision.
\<close>

section \<open>Data\<close>

datatype policy_layer =
    PlatformInvariant
  | EntitlementLayer
  | PersonaLayer
  | TenantPolicyLayer
  | AssignmentLayer
  | LongTermGrantLayer
  | RuntimeApprovalLayer

definition POLICY_LAYERS :: "policy_layer list" where
  "POLICY_LAYERS =
     [PlatformInvariant, EntitlementLayer, PersonaLayer, TenantPolicyLayer, AssignmentLayer,
      LongTermGrantLayer, RuntimeApprovalLayer]"

datatype policy_result = Pass | Deny | Condition | NotApplicable

datatype access_state =
    Allowed | Denied | NeedsAssignment | NeedsUserAuthorization | NeedsRuntimeApproval

datatype assignment_resource =
    OrgAgent | Skill | Credential | EnvironmentTemplate | OrgKnowledge | OrgMemory | Connector
  | DwsDelegation | SystemInstallation

datatype resource_type =
    AssignmentResource assignment_resource | Membership | Tenant | Platform | PersonalAgent

datatype entitlement_resource =
    EntModel | EntTool | EntConnector | EntAgentTemplate | EntSkill | EntEnvironmentTemplate
  | EntIntegratedSystem

datatype tenant_status = TenantActive | TenantDisabled | TenantSuspended

record access_resource =
  res_type :: resource_type
  res_id :: string
  res_tenantId :: "string option"
  res_ownerUserId :: "string option"
  res_enabled :: "bool option"
  res_tenantStatus :: "tenant_status option"

datatype human_persona = PlatformAdminPersona | OrgAdminPersona | MemberPersona | PlatformDemoPersona

datatype account_status = AccountActive | AccountDisabled

record human_subject =
  hs_subjectId :: string
  hs_tenantId :: string
  hs_persona :: human_persona
  hs_isOwner :: bool
  hs_accountStatus :: account_status
  hs_membershipVersion :: int

datatype service_id =
    RuntimeWorker | CredentialBroker | MemoryConsolidator | RetentionWorker | MigrationWorker

record service_subject =
  ss_serviceId :: service_id
  ss_tenantId :: "string option"
  ss_delegatedUserId :: "string option"
  ss_purpose :: string

datatype subject = Human human_subject | Service service_subject

record entitlement_ctx =
  ec_resourceType :: entitlement_resource
  ec_resourceId :: "string option"

record assignment_ctx =
  ac_required :: bool
  ac_resourceType :: assignment_resource
  ac_resourceId :: string
  ac_username :: "string option"
  ac_directoryGroupIds :: "string list option"
  ac_agentIds :: "string list option"

record grant_ctx =
  gc_required :: bool
  gc_generation :: "int option"
  gc_active :: "bool option"

record approval_ctx =
  pc_required :: bool
  pc_approved :: "bool option"

record evaluation_ctx =
  ctx_entitlement :: "entitlement_ctx option"
  ctx_tenantPolicyKey :: "string option"
  ctx_assignment :: "assignment_ctx option"
  ctx_longTermGrant :: "grant_ctx option"
  ctx_runtimeApproval :: "approval_ctx option"

record access_request =
  req_subject :: subject
  req_action :: string
  req_resource :: access_resource
  req_context :: "evaluation_ctx option"
  req_evaluatedAt :: "int option"

record policy_snapshot =
  snap_membership :: "int option"
  snap_entitlement :: "int option"
  snap_tenantPolicy :: "int option"
  snap_assignment :: "int option"
  snap_grant :: "int option"

definition empty_snapshot :: policy_snapshot where
  "empty_snapshot =
     \<lparr>snap_membership = None, snap_entitlement = None, snap_tenantPolicy = None,
      snap_assignment = None, snap_grant = None\<rparr>"

record provider_result =
  pr_layer :: policy_layer
  pr_result :: policy_result
  pr_reasonCode :: string
  pr_sourceVersion :: "int option"
  pr_snapshot :: "policy_snapshot option"
  pr_nextAction :: "string option"

record policy_provider =
  pp_layer :: policy_layer
  pp_evaluate :: "access_request \<Rightarrow> provider_result"

datatype verdict = Allow | DenyVerdict | Conditional

record access_decision =
  ad_id :: string
  ad_verdict :: verdict
  ad_action :: string
  ad_resourceType :: resource_type
  ad_resourceId :: string
  ad_tenantId :: "string option"
  ad_subjectIsHuman :: bool
  ad_subjectId :: string
  ad_accessState :: access_state
  ad_reasonCode :: string
  ad_decisiveLayer :: policy_layer
  ad_chain :: "provider_result list"
  ad_policySnapshot :: policy_snapshot
  ad_nextActions :: "string list"
  ad_evaluatedAt :: int

section \<open>The action catalogue\<close>

datatype action_authority =
    PlatformAuthority | TenantAuthority | OwnerAuthority | PersonalAuthority | UseAuthority

record action_definition =
  act_action :: string
  act_authority :: action_authority
  act_highRisk :: bool
  act_managementOnly :: bool

definition std_def :: "string \<Rightarrow> action_authority \<Rightarrow> bool \<Rightarrow> action_definition" where
  "std_def a auth risk =
     \<lparr>act_action = a, act_authority = auth, act_highRisk = risk, act_managementOnly = False\<rparr>"

definition standardDefinitions :: "action_definition list" where
  "standardDefinitions =
   [std_def ''platform_admin.manage'' PlatformAuthority True,
    std_def ''tenant.create'' PlatformAuthority True,
    std_def ''tenant.disable'' PlatformAuthority True,
    std_def ''tenant.delete'' PlatformAuthority True,
    std_def ''tenant.entitlement.update'' PlatformAuthority True,
    std_def ''membership.owner.grant'' OwnerAuthority True,
    std_def ''membership.owner.revoke'' OwnerAuthority True,
    std_def ''membership.admin.grant'' OwnerAuthority True,
    std_def ''membership.admin.revoke'' OwnerAuthority True,
    std_def ''membership.member.manage'' TenantAuthority False,
    std_def ''tenant.policy.update'' TenantAuthority False,
    std_def ''org_agent.create'' TenantAuthority False,
    std_def ''org_agent.update'' TenantAuthority False,
    std_def ''org_agent.assign'' TenantAuthority False,
    std_def ''org_agent.run'' UseAuthority False,
    std_def ''skill.manage'' TenantAuthority False,
    std_def ''skill.use'' UseAuthority False,
    std_def ''connector.manage'' TenantAuthority False,
    std_def ''connector.use'' UseAuthority False,
    std_def ''credential.manage'' TenantAuthority True,
    std_def ''credential.use'' UseAuthority False,
    std_def ''environment.manage'' TenantAuthority False,
    std_def ''environment.use'' UseAuthority False,
    std_def ''org_knowledge.manage'' TenantAuthority False,
    std_def ''org_knowledge.use'' UseAuthority False,
    std_def ''personal_agent.run'' PersonalAuthority False,
    std_def ''personal_agent.update'' PersonalAuthority False,
    std_def ''personal_memory.manage'' PersonalAuthority False,
    std_def ''personal_persona.manage'' PersonalAuthority False,
    std_def ''personal_skill.manage'' PersonalAuthority False]"

definition MANAGEMENT_ACTIONS_V1 :: "string list" where
  "MANAGEMENT_ACTIONS_V1 =
     [''settings.personal.view'', ''settings.tenant.view'', ''settings.platform.view'']"

definition managementAuthority :: "string \<Rightarrow> string + action_authority" where
  "managementAuthority action =
     (case split_on CHR ''.'' action of
        _ # a # _ \<Rightarrow>
          (if a = ''personal'' then Inr PersonalAuthority
           else if a = ''tenant'' then Inr TenantAuthority
           else if a = ''platform'' then Inr PlatformAuthority
           else Inl (''Invalid management action authority: '' @ action))
      | _ \<Rightarrow> Inl (''Invalid management action authority: '' @ action))"

fun managementDefinitions :: "string list \<Rightarrow> string + action_definition list" where
  "managementDefinitions [] = Inr []"
| "managementDefinitions (a # as) =
     bind_res (managementAuthority a) (\<lambda>auth.
     bind_res (managementDefinitions as) (\<lambda>ds.
       Inr (\<lparr>act_action = a, act_authority = auth, act_highRisk = False,
             act_managementOnly = True\<rparr> # ds)))"

text \<open>The module fails to load when a management action is malformed; otherwise the catalogue is a \<open>Map\<close>
  built from both lists, a later entry replacing an earlier one.\<close>

definition ACTION_CATALOG :: "string + (string \<Rightarrow> action_definition option)" where
  "ACTION_CATALOG =
     bind_res (managementDefinitions MANAGEMENT_ACTIONS_V1) (\<lambda>ds.
       Inr (map_of (rev (map (\<lambda>d. (act_action d, d)) (standardDefinitions @ ds)))))"

definition catalog_get :: "string \<Rightarrow> action_definition option" where
  "catalog_get action = (case ACTION_CATALOG of Inl e \<Rightarrow> None | Inr m \<Rightarrow> m action)"

definition getActionDefinition :: "string \<Rightarrow> action_definition option" where
  "getActionDefinition action =
     (case catalog_get action of
        None \<Rightarrow> None
      | Some d \<Rightarrow> (if act_managementOnly d then None else Some d))"

definition getManagementActionDefinition :: "string \<Rightarrow> action_definition option" where
  "getManagementActionDefinition action =
     (case catalog_get action of
        None \<Rightarrow> None
      | Some d \<Rightarrow> (if act_managementOnly d then Some d else None))"

section \<open>Records read by the policies\<close>

datatype assignee_type = Everyone | UserAssignee | DirectoryGroupAssignee | AgentAssignee

datatype assignment_effect = AllowEffect | DenyEffect

record resource_assignment =
  ra_assigneeType :: assignee_type
  ra_assigneeId :: "string option"
  ra_effect :: assignment_effect

record assignment_set =
  as_version :: int
  as_assignments :: "resource_assignment list"

record assignment_subject =
  asub_userId :: string
  asub_directoryGroupIds :: "string list option"
  asub_agentId :: "string option"

datatype assignment_resolution = Assigned | AssignmentDenied | AssignmentNeeded

datatype entitlement_status = EntTrial | EntActive | EntSuspended | EntExpired

record entitlement_set =
  es_status :: entitlement_status
  es_effectiveFrom :: "iso_time option"
  es_effectiveTo :: "iso_time option"
  es_version :: int

datatype scope_mode = ScopeAll | ScopeSelected

record resource_scope =
  rs_resourceType :: entitlement_resource
  rs_mode :: scope_mode
  rs_resourceIds :: "string list"
  rs_version :: int

record tenant_policy_record =
  tp_policyKey :: string
  tp_value :: json
  tp_version :: int

record governance_stores =
  getEntitlementSet :: "string \<Rightarrow> entitlement_set option"
  listResourceScopes :: "string \<Rightarrow> resource_scope list"
  getPolicies :: "string \<Rightarrow> tenant_policy_record list"
  getAssignmentSet :: "string \<Rightarrow> assignment_resource \<Rightarrow> string \<Rightarrow> assignment_set option"

definition assignmentMatches :: "resource_assignment \<Rightarrow> assignment_subject \<Rightarrow> bool" where
  "assignmentMatches a s =
     (case ra_assigneeType a of
        Everyone \<Rightarrow> True
      | UserAssignee \<Rightarrow> ra_assigneeId a = Some (asub_userId s)
      | DirectoryGroupAssignee \<Rightarrow>
          (case asub_directoryGroupIds s of
             None \<Rightarrow> False
           | Some ids \<Rightarrow> (case ra_assigneeId a of None \<Rightarrow> [] | Some i \<Rightarrow> i) \<in> set ids)
      | AgentAssignee \<Rightarrow> ra_assigneeId a = asub_agentId s)"

definition resolveAssignment ::
  "resource_assignment list \<Rightarrow> assignment_subject \<Rightarrow> assignment_resolution" where
  "resolveAssignment assignments s =
     (let matches = filter (\<lambda>a. assignmentMatches a s) assignments in
      if list_ex (\<lambda>a. ra_effect a = DenyEffect) matches then AssignmentDenied
      else if list_ex (\<lambda>a. ra_effect a = AllowEffect) matches then Assigned
      else AssignmentNeeded)"

section \<open>The seven policies\<close>

definition result_plain :: "policy_layer \<Rightarrow> policy_result \<Rightarrow> string \<Rightarrow> provider_result" where
  "result_plain l r reason =
     \<lparr>pr_layer = l, pr_result = r, pr_reasonCode = reason, pr_sourceVersion = None,
      pr_snapshot = None, pr_nextAction = None\<rparr>"

subsection \<open>Platform invariants\<close>

definition effective_user :: "subject \<Rightarrow> string option" where
  "effective_user s =
     (case s of Human h \<Rightarrow> Some (hs_subjectId h) | Service v \<Rightarrow> ss_delegatedUserId v)"

definition subject_tenant :: "subject \<Rightarrow> string option" where
  "subject_tenant s =
     (case s of Human h \<Rightarrow> Some (hs_tenantId h) | Service v \<Rightarrow> ss_tenantId v)"

definition PlatformInvariantPolicy :: "access_request \<Rightarrow> provider_result" where
  "PlatformInvariantPolicy r =
     (let s = req_subject r; x = req_resource r; deny = result_plain PlatformInvariant Deny in
      if (case s of Human h \<Rightarrow> hs_accountStatus h \<noteq> AccountActive | Service _ \<Rightarrow> False)
      then deny ''SUBJECT_DISABLED''
      else if (case res_tenantStatus x of None \<Rightarrow> False | Some t \<Rightarrow> t \<noteq> TenantActive)
      then deny ''TENANT_NOT_ACTIVE''
      else if truthy (res_tenantId x) \<and> subject_tenant s \<noteq> res_tenantId x
      then deny (case s of Human _ \<Rightarrow> ''CROSS_TENANT_ACCESS_DENIED''
                         | Service _ \<Rightarrow> ''SERVICE_TENANT_SCOPE_MISMATCH'')
      else if truthy (res_ownerUserId x) \<and> effective_user s \<noteq> res_ownerUserId x
      then deny ''PERSONAL_RESOURCE_OWNER_MISMATCH''
      else (case s of
              Human h \<Rightarrow>
                (result_plain PlatformInvariant Pass ''PLATFORM_INVARIANTS_SATISFIED'')
                  \<lparr>pr_sourceVersion := Some (hs_membershipVersion h),
                   pr_snapshot := Some (empty_snapshot\<lparr>snap_membership := Some (hs_membershipVersion h)\<rparr>)\<rparr>
            | Service _ \<Rightarrow>
                result_plain PlatformInvariant Pass ''PLATFORM_INVARIANTS_SATISFIED''))"

subsection \<open>Entitlements\<close>

definition ent_deny :: "string \<Rightarrow> int option \<Rightarrow> provider_result" where
  "ent_deny reason v =
     (result_plain EntitlementLayer Deny reason)
       \<lparr>pr_sourceVersion := v,
        pr_snapshot := map_option (\<lambda>n. empty_snapshot\<lparr>snap_entitlement := Some n\<rparr>) v\<rparr>"

definition EntitlementPolicy ::
  "governance_stores \<Rightarrow> int \<Rightarrow> access_request \<Rightarrow> provider_result" where
  "EntitlementPolicy st clock r =
     (case Option.bind (req_context r) ctx_entitlement of
        None \<Rightarrow> result_plain EntitlementLayer NotApplicable ''ENTITLEMENT_NOT_REQUIRED''
      | Some required \<Rightarrow>
          if \<not> truthy (res_tenantId (req_resource r)) then ent_deny ''ENTITLEMENT_TENANT_REQUIRED'' None
          else let tenantId = the (res_tenantId (req_resource r)) in
          (case getEntitlementSet st tenantId of
             None \<Rightarrow> ent_deny ''ENTITLEMENT_NOT_FOUND'' None
           | Some e \<Rightarrow>
               let now = (case req_evaluatedAt r of None \<Rightarrow> clock | Some t \<Rightarrow> t) in
               if es_status e \<notin> {EntActive, EntTrial}
               then ent_deny ''ENTITLEMENT_NOT_ACTIVE'' (Some (es_version e))
               else if (case Option.bind (es_effectiveFrom e) date_parse of
                          None \<Rightarrow> False | Some t \<Rightarrow> t > now)
               then ent_deny ''ENTITLEMENT_NOT_EFFECTIVE'' (Some (es_version e))
               else if (case Option.bind (es_effectiveTo e) date_parse of
                          None \<Rightarrow> False | Some t \<Rightarrow> t \<le> now)
               then ent_deny ''ENTITLEMENT_EXPIRED'' (Some (es_version e))
               else
               (case List.find (\<lambda>c. rs_resourceType c = ec_resourceType required)
                       (listResourceScopes st tenantId) of
                  None \<Rightarrow> ent_deny ''ENTITLEMENT_SCOPE_NOT_FOUND'' (Some (es_version e))
                | Some scope \<Rightarrow>
                    let version = max (es_version e) (rs_version scope) in
                    if rs_mode scope = ScopeSelected
                       \<and> (\<not> truthy (ec_resourceId required)
                          \<or> the (ec_resourceId required) \<notin> set (rs_resourceIds scope))
                    then ent_deny ''RESOURCE_NOT_ENTITLED'' (Some version)
                    else (result_plain EntitlementLayer Pass ''ENTITLEMENT_ACTIVE'')
                           \<lparr>pr_sourceVersion := Some version,
                            pr_snapshot := Some (empty_snapshot\<lparr>snap_entitlement := Some version\<rparr>)\<rparr>)))"

subsection \<open>Personas\<close>

fun SERVICE_ACTIONS :: "service_id \<Rightarrow> string list" where
  "SERVICE_ACTIONS RuntimeWorker =
     [''org_agent.run'', ''personal_agent.run'', ''skill.use'', ''connector.use'', ''credential.use'',
      ''environment.use'', ''org_knowledge.use'']"
| "SERVICE_ACTIONS CredentialBroker = [''credential.use'']"
| "SERVICE_ACTIONS MemoryConsolidator = [''personal_memory.manage'']"
| "SERVICE_ACTIONS RetentionWorker = []"
| "SERVICE_ACTIONS MigrationWorker = []"

definition PersonaPolicy :: "access_request \<Rightarrow> provider_result" where
  "PersonaPolicy r =
     (let pass = result_plain PersonaLayer Pass; deny = result_plain PersonaLayer Deny in
      case getActionDefinition (req_action r) of
        None \<Rightarrow> deny ''ACTION_NOT_CATALOGED''
      | Some d \<Rightarrow>
          (case req_subject r of
             Service s \<Rightarrow>
               if req_action r \<notin> set (SERVICE_ACTIONS (ss_serviceId s))
               then deny ''SERVICE_ACTION_NOT_ALLOWED''
               else if \<not> truthy (ss_delegatedUserId s) \<and> act_authority d \<noteq> PlatformAuthority
               then deny ''SERVICE_DELEGATED_USER_REQUIRED''
               else pass ''SERVICE_PURPOSE_ALLOWED''
           | Human h \<Rightarrow>
               (case act_authority d of
                  PlatformAuthority \<Rightarrow>
                    if hs_persona h = PlatformAdminPersona then pass ''PLATFORM_ADMIN_ALLOWED''
                    else deny ''PLATFORM_ADMIN_REQUIRED''
                | OwnerAuthority \<Rightarrow>
                    if hs_isOwner h then pass ''OWNER_ALLOWED'' else deny ''OWNER_REQUIRED''
                | TenantAuthority \<Rightarrow>
                    if hs_persona h = OrgAdminPersona
                    then pass (if hs_isOwner h then ''OWNER_ALLOWED'' else ''ORG_ADMIN_ALLOWED'')
                    else deny ''ORG_ADMIN_REQUIRED''
                | PersonalAuthority \<Rightarrow>
                    if res_ownerUserId (req_resource r) = Some (hs_subjectId h)
                    then pass ''PERSONAL_OWNER_ALLOWED'' else deny ''PERSONAL_OWNER_REQUIRED''
                | UseAuthority \<Rightarrow> pass ''RESOURCE_USE_PERSONA_ALLOWED'')))"

subsection \<open>Tenant policies\<close>

definition tenant_deny :: "string \<Rightarrow> int option \<Rightarrow> provider_result" where
  "tenant_deny reason v =
     (result_plain TenantPolicyLayer Deny reason)
       \<lparr>pr_sourceVersion := v,
        pr_snapshot := map_option (\<lambda>n. empty_snapshot\<lparr>snap_tenantPolicy := Some n\<rparr>) v\<rparr>"

definition TenantPolicy :: "governance_stores \<Rightarrow> access_request \<Rightarrow> provider_result" where
  "TenantPolicy st r =
     (let policyKey = Option.bind (req_context r) ctx_tenantPolicyKey in
      if \<not> truthy policyKey
      then result_plain TenantPolicyLayer NotApplicable ''TENANT_POLICY_NOT_REQUIRED''
      else if \<not> truthy (res_tenantId (req_resource r))
      then tenant_deny ''TENANT_POLICY_TENANT_REQUIRED'' None
      else
      (case List.find (\<lambda>c. tp_policyKey c = the policyKey)
              (getPolicies st (the (res_tenantId (req_resource r)))) of
         None \<Rightarrow> tenant_deny ''TENANT_POLICY_NOT_FOUND'' None
       | Some p \<Rightarrow>
           if tp_value p \<noteq> JBool True
           then tenant_deny ''TENANT_POLICY_DISABLED'' (Some (tp_version p))
           else (result_plain TenantPolicyLayer Pass ''TENANT_POLICY_ALLOWED'')
                  \<lparr>pr_sourceVersion := Some (tp_version p),
                   pr_snapshot := Some (empty_snapshot\<lparr>snap_tenantPolicy := Some (tp_version p)\<rparr>)\<rparr>))"

subsection \<open>Assignments\<close>

definition assign_result ::
  "policy_result \<Rightarrow> string \<Rightarrow> string option \<Rightarrow> int option \<Rightarrow> provider_result" where
  "assign_result res reason next v =
     (result_plain AssignmentLayer res reason)
       \<lparr>pr_nextAction := next, pr_sourceVersion := v,
        pr_snapshot := map_option (\<lambda>n. empty_snapshot\<lparr>snap_assignment := Some n\<rparr>) v\<rparr>"

definition AssignmentPolicy :: "governance_stores \<Rightarrow> access_request \<Rightarrow> provider_result" where
  "AssignmentPolicy st r =
     (case Option.bind (req_context r) ctx_assignment of
        None \<Rightarrow> result_plain AssignmentLayer NotApplicable ''ASSIGNMENT_NOT_REQUIRED''
      | Some required \<Rightarrow>
          if \<not> ac_required required
          then result_plain AssignmentLayer NotApplicable ''ASSIGNMENT_NOT_REQUIRED''
          else if \<not> truthy (res_tenantId (req_resource r))
          then assign_result Deny ''ASSIGNMENT_TENANT_REQUIRED'' None None
          else if \<not> truthy (effective_user (req_subject r))
          then assign_result Deny ''ASSIGNMENT_SUBJECT_REQUIRED'' None None
          else
          (case getAssignmentSet st (the (res_tenantId (req_resource r)))
                  (ac_resourceType required) (ac_resourceId required) of
             None \<Rightarrow> assign_result Condition ''ASSIGNMENT_REQUIRED'' (Some ''request_assignment'') None
           | Some aset \<Rightarrow>
               if list_ex (\<lambda>i. ra_assigneeType i = DirectoryGroupAssignee) (as_assignments aset)
                  \<and> ac_directoryGroupIds required = None
               then assign_result Deny ''ASSIGNMENT_GROUP_SUBJECT_UNRESOLVED'' None (Some (as_version aset))
               else
               (case resolveAssignment (as_assignments aset)
                       \<lparr>asub_userId = the (effective_user (req_subject r)),
                        asub_directoryGroupIds = ac_directoryGroupIds required,
                        asub_agentId = (case ac_agentIds required of
                                          Some (a # _) \<Rightarrow> Some a | _ \<Rightarrow> None)\<rparr> of
                  AssignmentDenied \<Rightarrow>
                    assign_result Deny ''EXPLICIT_ASSIGNMENT_DENY'' None (Some (as_version aset))
                | AssignmentNeeded \<Rightarrow>
                    assign_result Condition ''ASSIGNMENT_REQUIRED'' (Some ''request_assignment'')
                      (Some (as_version aset))
                | Assigned \<Rightarrow>
                    assign_result Pass ''RESOURCE_ASSIGNED'' None (Some (as_version aset)))))"

subsection \<open>Long-term grants and runtime approval\<close>

definition LongTermGrantPolicy :: "access_request \<Rightarrow> provider_result" where
  "LongTermGrantPolicy r =
     (case Option.bind (req_context r) ctx_longTermGrant of
        None \<Rightarrow> result_plain LongTermGrantLayer NotApplicable ''LONG_TERM_GRANT_NOT_REQUIRED''
      | Some g \<Rightarrow>
          if \<not> gc_required g
          then result_plain LongTermGrantLayer NotApplicable ''LONG_TERM_GRANT_NOT_REQUIRED''
          else
          (let versioned = (\<lambda>p. p\<lparr>pr_sourceVersion := gc_generation g,
                 pr_snapshot := map_option (\<lambda>n. empty_snapshot\<lparr>snap_grant := Some n\<rparr>) (gc_generation g)\<rparr>) in
           if gc_active g \<noteq> Some True
           then versioned ((result_plain LongTermGrantLayer Condition ''USER_AUTHORIZATION_REQUIRED'')
                             \<lparr>pr_nextAction := Some ''authorize_resource''\<rparr>)
           else versioned (result_plain LongTermGrantLayer Pass ''LONG_TERM_GRANT_ACTIVE'')))"

definition RuntimeApprovalPolicy :: "access_request \<Rightarrow> provider_result" where
  "RuntimeApprovalPolicy r =
     (case Option.bind (req_context r) ctx_runtimeApproval of
        None \<Rightarrow> result_plain RuntimeApprovalLayer NotApplicable ''RUNTIME_APPROVAL_NOT_REQUIRED''
      | Some a \<Rightarrow>
          if \<not> pc_required a
          then result_plain RuntimeApprovalLayer NotApplicable ''RUNTIME_APPROVAL_NOT_REQUIRED''
          else if pc_approved a \<noteq> Some True
          then (result_plain RuntimeApprovalLayer Condition ''RUNTIME_APPROVAL_REQUIRED'')
                 \<lparr>pr_nextAction := Some ''request_runtime_approval''\<rparr>
          else result_plain RuntimeApprovalLayer Pass ''RUNTIME_APPROVAL_GRANTED'')"

section \<open>The evaluator\<close>

definition AccessEvaluator ::
  "policy_provider list \<Rightarrow> policy_layer list + policy_provider list" where
  "AccessEvaluator providers =
     (let actual = map pp_layer providers in
      if length actual \<noteq> length POLICY_LAYERS
         \<or> list_ex (\<lambda>(layer, expected). layer \<noteq> expected) (zip actual POLICY_LAYERS)
      then Inl actual else Inr providers)"

definition assign_snapshot :: "policy_snapshot \<Rightarrow> policy_snapshot option \<Rightarrow> policy_snapshot" where
  "assign_snapshot s p =
     (case p of
        None \<Rightarrow> s
      | Some q \<Rightarrow>
          \<lparr>snap_membership = nullish (snap_membership q) (snap_membership s),
           snap_entitlement = nullish (snap_entitlement q) (snap_entitlement s),
           snap_tenantPolicy = nullish (snap_tenantPolicy q) (snap_tenantPolicy s),
           snap_assignment = nullish (snap_assignment q) (snap_assignment s),
           snap_grant = nullish (snap_grant q) (snap_grant s)\<rparr>)"

fun service_name :: "service_id \<Rightarrow> string" where
  "service_name RuntimeWorker = ''runtime_worker''"
| "service_name CredentialBroker = ''credential_broker''"
| "service_name MemoryConsolidator = ''memory_consolidator''"
| "service_name RetentionWorker = ''retention_worker''"
| "service_name MigrationWorker = ''migration_worker''"

definition decision_subjectId :: "subject \<Rightarrow> string" where
  "decision_subjectId s =
     (case s of Human h \<Rightarrow> hs_subjectId h | Service v \<Rightarrow> service_name (ss_serviceId v))"

definition conditionalState :: "provider_result \<Rightarrow> access_state" where
  "conditionalState p =
     (if pr_layer p = AssignmentLayer then NeedsAssignment
      else if pr_layer p = LongTermGrantLayer then NeedsUserAuthorization
      else NeedsRuntimeApproval)"

definition chain_of :: "policy_provider list \<Rightarrow> access_request \<Rightarrow> provider_result list" where
  "chain_of providers r = map (\<lambda>p. pp_evaluate p r) providers"

definition denied_of :: "provider_result list \<Rightarrow> provider_result option" where
  "denied_of chain = List.find (\<lambda>p. pr_result p = Deny) chain"

definition conditional_of :: "provider_result list \<Rightarrow> provider_result option" where
  "conditional_of chain =
     (case denied_of chain of
        Some _ \<Rightarrow> None
      | None \<Rightarrow> List.find (\<lambda>p. pr_result p = Condition) chain)"

definition decisive_of :: "provider_result list \<Rightarrow> provider_result" where
  "decisive_of chain =
     (case denied_of chain of
        Some d \<Rightarrow> d
      | None \<Rightarrow>
          (case conditional_of chain of
             Some c \<Rightarrow> c
           | None \<Rightarrow>
               (case List.find (\<lambda>p. pr_result p = Pass) (rev chain) of
                  Some p \<Rightarrow> p
                | None \<Rightarrow> hd chain)))"

definition evaluate ::
  "policy_provider list \<Rightarrow> string \<Rightarrow> int \<Rightarrow> access_request \<Rightarrow> access_decision" where
  "evaluate providers uuid clock r =
     (let chain = chain_of providers r;
          snapshot = foldl (\<lambda>s p. assign_snapshot s (pr_snapshot p)) empty_snapshot chain;
          denied = denied_of chain;
          conditional = conditional_of chain;
          decisive = decisive_of chain;
          nextActions = concat (map (\<lambda>p. if truthy (pr_nextAction p)
                                         then [the (pr_nextAction p)] else []) chain)
      in
      \<lparr>ad_id = uuid,
       ad_verdict = (if denied \<noteq> None then DenyVerdict
                     else if conditional \<noteq> None then Conditional else Allow),
       ad_action = req_action r,
       ad_resourceType = res_type (req_resource r),
       ad_resourceId = res_id (req_resource r),
       ad_tenantId = (if truthy (res_tenantId (req_resource r))
                      then res_tenantId (req_resource r) else None),
       ad_subjectIsHuman = (case req_subject r of Human _ \<Rightarrow> True | Service _ \<Rightarrow> False),
       ad_subjectId = decision_subjectId (req_subject r),
       ad_accessState = (if denied \<noteq> None then Denied
                         else (case conditional of Some c \<Rightarrow> conditionalState c | None \<Rightarrow> Allowed)),
       ad_reasonCode = pr_reasonCode decisive,
       ad_decisiveLayer = pr_layer decisive,
       ad_chain = chain,
       ad_policySnapshot = snapshot,
       ad_nextActions = nextActions,
       ad_evaluatedAt = (case req_evaluatedAt r of None \<Rightarrow> clock | Some t \<Rightarrow> t)\<rparr>)"

text \<open>The provider list every caller of the constructor passes.\<close>

definition standard_providers :: "governance_stores \<Rightarrow> int \<Rightarrow> policy_provider list" where
  "standard_providers st clock =
     [\<lparr>pp_layer = PlatformInvariant, pp_evaluate = PlatformInvariantPolicy\<rparr>,
      \<lparr>pp_layer = EntitlementLayer, pp_evaluate = EntitlementPolicy st clock\<rparr>,
      \<lparr>pp_layer = PersonaLayer, pp_evaluate = PersonaPolicy\<rparr>,
      \<lparr>pp_layer = TenantPolicyLayer, pp_evaluate = TenantPolicy st\<rparr>,
      \<lparr>pp_layer = AssignmentLayer, pp_evaluate = AssignmentPolicy st\<rparr>,
      \<lparr>pp_layer = LongTermGrantLayer, pp_evaluate = LongTermGrantPolicy\<rparr>,
      \<lparr>pp_layer = RuntimeApprovalLayer, pp_evaluate = RuntimeApprovalPolicy\<rparr>]"

section \<open>The contract of a policy provider\<close>

text \<open>
  What the evaluator relies on: a provider reports under its own layer, names a next action
  exactly when its answer is a condition, and reports a snapshot exactly when it reports a
  source version.
\<close>

locale policy_contract =
  fixes layer :: policy_layer
    and ev :: "access_request \<Rightarrow> provider_result"
  assumes own_layer: "pr_layer (ev r) = layer"
    and next_iff_condition: "truthy (pr_nextAction (ev r)) \<longleftrightarrow> pr_result (ev r) = Condition"
    and snapshot_iff_version: "pr_snapshot (ev r) = None \<longleftrightarrow> pr_sourceVersion (ev r) = None"
begin

lemma answer_silent: "pr_result (ev r) \<noteq> Condition \<Longrightarrow> \<not> truthy (pr_nextAction (ev r))"
  by (simp add: next_iff_condition)

end

lemmas policy_result_defs =
  result_plain_def ent_deny_def tenant_deny_def assign_result_def

lemma result_plain_sel [simp]:
  "pr_layer (result_plain l x c) = l"
  "pr_result (result_plain l x c) = x"
  "pr_reasonCode (result_plain l x c) = c"
  "pr_nextAction (result_plain l x c) = None"
  "pr_sourceVersion (result_plain l x c) = None"
  "pr_snapshot (result_plain l x c) = None"
  by (simp_all add: result_plain_def)

lemma ent_deny_sel [simp]:
  "pr_layer (ent_deny c v) = EntitlementLayer"
  "pr_result (ent_deny c v) = Deny"
  "pr_nextAction (ent_deny c v) = None"
  "pr_sourceVersion (ent_deny c v) = v"
  "pr_snapshot (ent_deny c v) = None \<longleftrightarrow> v = None"
  by (simp_all add: ent_deny_def)

lemma tenant_deny_sel [simp]:
  "pr_layer (tenant_deny c v) = TenantPolicyLayer"
  "pr_result (tenant_deny c v) = Deny"
  "pr_nextAction (tenant_deny c v) = None"
  "pr_sourceVersion (tenant_deny c v) = v"
  "pr_snapshot (tenant_deny c v) = None \<longleftrightarrow> v = None"
  by (simp_all add: tenant_deny_def)

lemma assign_result_sel [simp]:
  "pr_layer (assign_result x c n v) = AssignmentLayer"
  "pr_result (assign_result x c n v) = x"
  "pr_nextAction (assign_result x c n v) = n"
  "pr_sourceVersion (assign_result x c n v) = v"
  "pr_snapshot (assign_result x c n v) = None \<longleftrightarrow> v = None"
  by (simp_all add: assign_result_def)

interpretation platform_contract: policy_contract PlatformInvariant PlatformInvariantPolicy
  by unfold_locales (auto simp: PlatformInvariantPolicy_def Let_def split: subject.splits)

interpretation entitlement_contract: policy_contract EntitlementLayer "EntitlementPolicy st clock" for st clock
  by unfold_locales (auto simp: EntitlementPolicy_def Let_def split: option.splits)

interpretation persona_contract: policy_contract PersonaLayer PersonaPolicy
  by unfold_locales
    (auto simp: PersonaPolicy_def Let_def split: option.splits subject.splits action_authority.splits)

interpretation tenant_contract: policy_contract TenantPolicyLayer "TenantPolicy st" for st
  by unfold_locales (auto simp: TenantPolicy_def Let_def split: option.splits)

interpretation assignment_contract: policy_contract AssignmentLayer "AssignmentPolicy st" for st
  by unfold_locales
    (auto simp: AssignmentPolicy_def split: option.splits assignment_resolution.splits)

interpretation grant_contract: policy_contract LongTermGrantLayer LongTermGrantPolicy
  by unfold_locales (auto simp: LongTermGrantPolicy_def Let_def split: option.splits)

interpretation approval_contract: policy_contract RuntimeApprovalLayer RuntimeApprovalPolicy
  by unfold_locales (auto simp: RuntimeApprovalPolicy_def split: option.splits)

section \<open>Combining the layers\<close>

lemma ad_sel [simp]:
  "ad_chain (evaluate ps u t r) = chain_of ps r"
  "ad_verdict (evaluate ps u t r) =
     (if denied_of (chain_of ps r) \<noteq> None then DenyVerdict
      else if conditional_of (chain_of ps r) \<noteq> None then Conditional else Allow)"
  "ad_decisiveLayer (evaluate ps u t r) = pr_layer (decisive_of (chain_of ps r))"
  "ad_reasonCode (evaluate ps u t r) = pr_reasonCode (decisive_of (chain_of ps r))"
  by (simp_all add: evaluate_def Let_def)

lemma no_objection_iff:
  "denied_of chain = None \<and> conditional_of chain = None \<longleftrightarrow>
     (\<forall>p\<in>set chain. pr_result p \<noteq> Deny \<and> pr_result p \<noteq> Condition)"
proof (cases "denied_of chain")
  case None
  then have "conditional_of chain = List.find (\<lambda>p. pr_result p = Condition) chain"
    by (simp add: conditional_of_def)
  moreover from None have "\<forall>p\<in>set chain. pr_result p \<noteq> Deny"
    by (simp add: denied_of_def find_None_iff_all)
  ultimately show ?thesis using None by (auto simp: find_None_iff_all)
next
  case (Some d)
  then show ?thesis by (auto simp: denied_of_def dest: find_SomeD)
qed

text \<open>
  The evaluator over any provider list that meets the contract in the prescribed layer order.
\<close>

locale access_chain =
  fixes providers :: "policy_provider list"
  assumes layer_order: "map pp_layer providers = POLICY_LAYERS"
    and contract: "p \<in> set providers \<Longrightarrow> policy_contract (pp_layer p) (pp_evaluate p)"
begin

lemma chain_layers: "map pr_layer (chain_of providers r) = POLICY_LAYERS"
proof -
  have "map pr_layer (chain_of providers r) = map pp_layer providers"
    by (auto simp: chain_of_def policy_contract.own_layer [OF contract])
  then show ?thesis by (simp add: layer_order)
qed

lemma verdict_deny_iff:
  "ad_verdict (evaluate providers u t r) = DenyVerdict \<longleftrightarrow>
     (\<exists>p\<in>set providers. pr_result (pp_evaluate p r) = Deny)"
  by (auto simp: denied_of_def find_None_iff_all chain_of_def)

lemma verdict_allow_iff:
  "ad_verdict (evaluate providers u t r) = Allow \<longleftrightarrow>
     (\<forall>p\<in>set providers. pr_result (pp_evaluate p r) \<in> {Pass, NotApplicable})"
proof -
  have res: "x \<in> {Pass, NotApplicable} \<longleftrightarrow> x \<noteq> Deny \<and> x \<noteq> Condition" for x
    by (cases x) auto
  have "ad_verdict (evaluate providers u t r) = Allow \<longleftrightarrow>
      (\<forall>p\<in>set (chain_of providers r). pr_result p \<noteq> Deny \<and> pr_result p \<noteq> Condition)"
    using no_objection_iff [of "chain_of providers r"] by auto
  then show ?thesis unfolding res by (simp add: chain_of_def)
qed

text \<open>The decisive layer of a refusal is the first layer, in the prescribed order, that denies.\<close>

lemma decisive_deny_first:
  assumes "ad_verdict (evaluate providers u t r) = DenyVerdict"
  shows "\<exists>i < length POLICY_LAYERS.
           ad_decisiveLayer (evaluate providers u t r) = POLICY_LAYERS ! i \<and>
           pr_result (chain_of providers r ! i) = Deny \<and>
           (\<forall>j < i. pr_result (chain_of providers r ! j) \<noteq> Deny)"
proof -
  let ?c = "chain_of providers r"
  from assms obtain d where d: "denied_of ?c = Some d"
    by (auto split: if_splits)
  then obtain i where i: "i < length ?c" "pr_result (?c ! i) = Deny" "d = ?c ! i"
    and before: "\<forall>j < i. pr_result (?c ! j) \<noteq> Deny"
    by (auto simp: denied_of_def find_Some_iff)
  have len: "length ?c = length POLICY_LAYERS"
    using chain_layers [of r] by (metis length_map)
  moreover have "pr_layer (?c ! i) = POLICY_LAYERS ! i"
    using chain_layers [of r] i(1) by (metis nth_map)
  moreover have "decisive_of ?c = d" by (simp add: decisive_of_def d)
  ultimately show ?thesis using i before by auto
qed

lemma conditional_names_next:
  assumes "ad_verdict (evaluate providers u t r) = Conditional"
  shows "ad_nextActions (evaluate providers u t r) \<noteq> []"
proof -
  from assms obtain c where "c \<in> set (chain_of providers r)" and "pr_result c = Condition"
    by (auto simp: conditional_of_def dest!: find_SomeD split: if_splits option.splits)
  then obtain p where "p \<in> set providers" and "c = pp_evaluate p r"
    by (auto simp: chain_of_def)
  then have "truthy (pr_nextAction c)"
    using policy_contract.next_iff_condition [OF contract] \<open>pr_result c = Condition\<close> by blast
  with \<open>c \<in> set (chain_of providers r)\<close> show ?thesis
    by (auto simp: evaluate_def Let_def)
qed

end

lemma standard_layers: "map pp_layer (standard_providers st clock) = POLICY_LAYERS"
  by (simp add: standard_providers_def POLICY_LAYERS_def)

interpretation gov: access_chain "standard_providers st clock" for st clock
proof (rule access_chain.intro)
  show "map pp_layer (standard_providers st clock) = POLICY_LAYERS"
    by (rule standard_layers)
next
  fix p
  assume "p \<in> set (standard_providers st clock)"
  then show "policy_contract (pp_layer p) (pp_evaluate p)"
    by (auto simp: standard_providers_def platform_contract.policy_contract_axioms
        entitlement_contract.policy_contract_axioms persona_contract.policy_contract_axioms
        tenant_contract.policy_contract_axioms assignment_contract.policy_contract_axioms
        grant_contract.policy_contract_axioms approval_contract.policy_contract_axioms)
qed

text \<open>What an allowed request passed, layer by layer.\<close>

lemma allowD:
  assumes "ad_verdict (evaluate (standard_providers st clock) u t r) = Allow"
  shows "pr_result (PlatformInvariantPolicy r) \<in> {Pass, NotApplicable}"
    and "pr_result (EntitlementPolicy st clock r) \<in> {Pass, NotApplicable}"
    and "pr_result (PersonaPolicy r) \<in> {Pass, NotApplicable}"
    and "pr_result (TenantPolicy st r) \<in> {Pass, NotApplicable}"
    and "pr_result (AssignmentPolicy st r) \<in> {Pass, NotApplicable}"
    and "pr_result (LongTermGrantPolicy r) \<in> {Pass, NotApplicable}"
    and "pr_result (RuntimeApprovalPolicy r) \<in> {Pass, NotApplicable}"
  using gov.verdict_allow_iff [of st clock u t r] assms
  by (simp_all add: standard_providers_def)

lemma platform_passD:
  assumes "pr_result (PlatformInvariantPolicy r) \<in> {Pass, NotApplicable}"
  shows "case req_subject r of Human h \<Rightarrow> hs_accountStatus h = AccountActive | Service _ \<Rightarrow> True"
    and "res_tenantStatus (req_resource r) \<in> {None, Some TenantActive}"
    and "truthy (res_tenantId (req_resource r)) \<Longrightarrow>
           subject_tenant (req_subject r) = res_tenantId (req_resource r)"
    and "truthy (res_ownerUserId (req_resource r)) \<Longrightarrow>
           effective_user (req_subject r) = res_ownerUserId (req_resource r)"
  using assms
  by (auto simp: PlatformInvariantPolicy_def Let_def split: if_splits subject.splits option.splits)

text \<open>The catalogue loads, and an action's definition is found by scanning the two lists.\<close>

lemma managementDefinitions_load:
  "managementDefinitions MANAGEMENT_ACTIONS_V1 =
     Inr [\<lparr>act_action = ''settings.personal.view'', act_authority = PersonalAuthority,
           act_highRisk = False, act_managementOnly = True\<rparr>,
          \<lparr>act_action = ''settings.tenant.view'', act_authority = TenantAuthority,
           act_highRisk = False, act_managementOnly = True\<rparr>,
          \<lparr>act_action = ''settings.platform.view'', act_authority = PlatformAuthority,
           act_highRisk = False, act_managementOnly = True\<rparr>]"
  by (simp add: MANAGEMENT_ACTIONS_V1_def managementAuthority_def)

lemma managementDefinitions_only:
  "managementDefinitions as = Inr ds \<Longrightarrow> \<forall>d\<in>set ds. act_managementOnly d"
  by (induction as arbitrary: ds) (auto simp: bind_res_Inr_iff)

lemma catalog_get_SomeD:
  assumes "catalog_get a = Some d"
  shows "act_action d = a \<and> (d \<in> set standardDefinitions \<or> act_managementOnly d)"
proof -
  obtain ds where ds: "managementDefinitions MANAGEMENT_ACTIONS_V1 = Inr ds"
    by (simp add: managementDefinitions_load)
  then have "map_of (rev (map (\<lambda>d. (act_action d, d)) (standardDefinitions @ ds))) a = Some d"
    using assms by (simp add: catalog_get_def ACTION_CATALOG_def)
  then have "(a, d) \<in> set (rev (map (\<lambda>d. (act_action d, d)) (standardDefinitions @ ds)))"
    by (rule map_of_SomeD)
  with managementDefinitions_only [OF ds] show ?thesis by auto
qed

lemma getActionDefinition_std:
  assumes "getActionDefinition a = Some d"
  shows "d \<in> set standardDefinitions" and "act_action d = a"
  using assms catalog_get_SomeD [of a]
  by (auto simp: getActionDefinition_def split: option.splits if_splits)

lemma persona_passD:
  assumes "pr_result (PersonaPolicy r) \<in> {Pass, NotApplicable}"
  obtains d where "getActionDefinition (req_action r) = Some d"
    and "case req_subject r of
           Service s \<Rightarrow> req_action r \<in> set (SERVICE_ACTIONS (ss_serviceId s)) \<and>
             (truthy (ss_delegatedUserId s) \<or> act_authority d = PlatformAuthority)
         | Human h \<Rightarrow>
             (case act_authority d of
                PlatformAuthority \<Rightarrow> hs_persona h = PlatformAdminPersona
              | OwnerAuthority \<Rightarrow> hs_isOwner h
              | TenantAuthority \<Rightarrow> hs_persona h = OrgAdminPersona
              | PersonalAuthority \<Rightarrow> res_ownerUserId (req_resource r) = Some (hs_subjectId h)
              | UseAuthority \<Rightarrow> True)"
  using assms
  by (auto simp: PersonaPolicy_def Let_def
      split: option.splits subject.splits action_authority.splits if_splits)

text \<open>Nothing a service may do has platform authority.\<close>

lemma service_action_not_platform:
  assumes "a \<in> set (SERVICE_ACTIONS s)" and "getActionDefinition a = Some d"
  shows "act_authority d \<noteq> PlatformAuthority"
proof -
  have "d \<in> set standardDefinitions" and "act_action d = a"
    using getActionDefinition_std [OF assms(2)] by simp_all
  with assms(1) show ?thesis
    by (cases s) (auto simp: standardDefinitions_def std_def_def)
qed

section \<open>Properties of the access decision\<close>

text \<open>A concrete organisation, member and request, used to exhibit the theorems.\<close>

definition demo_member :: human_subject where
  "demo_member =
     \<lparr>hs_subjectId = ''u1'', hs_tenantId = ''kaiyan'', hs_persona = MemberPersona, hs_isOwner = False,
      hs_accountStatus = AccountActive, hs_membershipVersion = 3\<rparr>"

definition demo_stores :: governance_stores where
  "demo_stores =
     \<lparr>getEntitlementSet = (\<lambda>t. if t = ''kaiyan'' then
          Some \<lparr>es_status = EntActive, es_effectiveFrom = Some (Iso 10), es_effectiveTo = Some (Iso 900),
                es_version = 4\<rparr> else None),
      listResourceScopes = (\<lambda>t. [\<lparr>rs_resourceType = EntSkill, rs_mode = ScopeSelected,
          rs_resourceIds = [''pdf''], rs_version = 6\<rparr>]),
      getPolicies = (\<lambda>t. [\<lparr>tp_policyKey = ''skill.custom.enabled'', tp_value = JBool True, tp_version = 2\<rparr>]),
      getAssignmentSet = (\<lambda>t k i. Some \<lparr>as_version = 5, as_assignments =
          [\<lparr>ra_assigneeType = UserAssignee, ra_assigneeId = Some ''u1'', ra_effect = AllowEffect\<rparr>,
           \<lparr>ra_assigneeType = UserAssignee, ra_assigneeId = Some ''u2'', ra_effect = DenyEffect\<rparr>]\<rparr>)\<rparr>"

definition demo_request :: access_request where
  "demo_request =
     \<lparr>req_subject = Human demo_member, req_action = ''skill.use'',
      req_resource = \<lparr>res_type = AssignmentResource Skill, res_id = ''pdf'', res_tenantId = Some ''kaiyan'',
        res_ownerUserId = None, res_enabled = None, res_tenantStatus = Some TenantActive\<rparr>,
      req_context = Some \<lparr>
        ctx_entitlement = Some \<lparr>ec_resourceType = EntSkill, ec_resourceId = Some ''pdf''\<rparr>,
        ctx_tenantPolicyKey = Some ''skill.custom.enabled'',
        ctx_assignment = Some \<lparr>ac_required = True, ac_resourceType = Skill, ac_resourceId = ''pdf'',
          ac_username = None, ac_directoryGroupIds = None, ac_agentIds = None\<rparr>,
        ctx_longTermGrant = Some \<lparr>gc_required = True, gc_generation = Some 7, gc_active = Some True\<rparr>,
        ctx_runtimeApproval = Some \<lparr>pc_required = True, pc_approved = Some True\<rparr>\<rparr>,
      req_evaluatedAt = Some 100\<rparr>"

abbreviation demo_decision :: access_decision where
  "demo_decision \<equiv> evaluate (standard_providers demo_stores 100) ''id'' 100 demo_request"

lemma demo_allowed: "ad_verdict demo_decision = Allow"
  by code_simp

text \<open>C1. Isolation: whatever the stores hold, an allowed request comes from an active account, targets no
  inactive tenant, stays inside the subject's own tenant, and touches an owned resource only on behalf
  of its owner.\<close>

theorem allow_isolation:
  assumes "ad_verdict (evaluate (standard_providers st clock) u t r) = Allow"
  shows "(case req_subject r of Human h \<Rightarrow> hs_accountStatus h = AccountActive | Service _ \<Rightarrow> True)
    \<and> res_tenantStatus (req_resource r) \<in> {None, Some TenantActive}
    \<and> (truthy (res_tenantId (req_resource r)) \<longrightarrow>
         subject_tenant (req_subject r) = res_tenantId (req_resource r))
    \<and> (truthy (res_ownerUserId (req_resource r)) \<longrightarrow>
         effective_user (req_subject r) = res_ownerUserId (req_resource r))"
  using platform_passD [OF allowD(1) [OF assms]] by blast

theorem allow_isolation_witness:
  "ad_verdict demo_decision = Allow \<and> subject_tenant (req_subject demo_request) = Some ''kaiyan''"
  using allow_isolation [OF demo_allowed] demo_allowed
  by (simp add: demo_request_def)

text \<open>Least authority: an allowed action is in the general catalogue; a platform action was asked for by a
  platform administrator, an owner action by an owner, a tenant action by an organisation
  administrator, a personal action by the owner of the resource; a service was allowed one of its
  own actions, none of which is a platform action, and acts for a named user.\<close>

theorem allow_authority:
  assumes "ad_verdict (evaluate (standard_providers st clock) u t r) = Allow"
  shows "\<exists>d \<in> set standardDefinitions. act_action d = req_action r \<and>
    (case req_subject r of
       Service s \<Rightarrow> req_action r \<in> set (SERVICE_ACTIONS (ss_serviceId s)) \<and>
         truthy (ss_delegatedUserId s) \<and> act_authority d \<noteq> PlatformAuthority
     | Human h \<Rightarrow>
         (case act_authority d of
            PlatformAuthority \<Rightarrow> hs_persona h = PlatformAdminPersona
          | OwnerAuthority \<Rightarrow> hs_isOwner h
          | TenantAuthority \<Rightarrow> hs_persona h = OrgAdminPersona
          | PersonalAuthority \<Rightarrow> res_ownerUserId (req_resource r) = Some (hs_subjectId h)
          | UseAuthority \<Rightarrow> True))"
proof -
  obtain d where d: "getActionDefinition (req_action r) = Some d"
    and who: "case req_subject r of
       Service s \<Rightarrow> req_action r \<in> set (SERVICE_ACTIONS (ss_serviceId s)) \<and>
         (truthy (ss_delegatedUserId s) \<or> act_authority d = PlatformAuthority)
     | Human h \<Rightarrow>
         (case act_authority d of
            PlatformAuthority \<Rightarrow> hs_persona h = PlatformAdminPersona
          | OwnerAuthority \<Rightarrow> hs_isOwner h
          | TenantAuthority \<Rightarrow> hs_persona h = OrgAdminPersona
          | PersonalAuthority \<Rightarrow> res_ownerUserId (req_resource r) = Some (hs_subjectId h)
          | UseAuthority \<Rightarrow> True)"
    using persona_passD [OF allowD(3) [OF assms]] by blast
  show ?thesis
    using getActionDefinition_std [OF d] who service_action_not_platform [OF _ d]
    by (intro bexI [of _ d]) (auto split: subject.splits)
qed

theorem allow_authority_witness:
  "\<exists>d \<in> set standardDefinitions. act_action d = ''skill.use''"
  using allow_authority [OF demo_allowed] by (auto simp: demo_request_def)

text \<open>Deny overrides: the verdict is a refusal exactly when some layer denies, an approval exactly when no
  layer denies or sets a condition, and a refusal is attributed to the first denying layer in the
  prescribed order.\<close>

theorem verdict_deny_overrides:
  fixes st :: governance_stores and clock :: int
  defines "ps \<equiv> standard_providers st clock"
  shows "(ad_verdict (evaluate ps u t r) = DenyVerdict \<longleftrightarrow>
            (\<exists>p\<in>set ps. pr_result (pp_evaluate p r) = Deny)) \<and>
         (ad_verdict (evaluate ps u t r) = Allow \<longleftrightarrow>
            (\<forall>p\<in>set ps. pr_result (pp_evaluate p r) \<in> {Pass, NotApplicable})) \<and>
         (ad_verdict (evaluate ps u t r) = DenyVerdict \<longrightarrow>
            (\<exists>i < length POLICY_LAYERS.
               ad_decisiveLayer (evaluate ps u t r) = POLICY_LAYERS ! i \<and>
               pr_result (chain_of ps r ! i) = Deny \<and>
               (\<forall>j < i. pr_result (chain_of ps r ! j) \<noteq> Deny)))"
  unfolding ps_def
  using gov.verdict_deny_iff gov.verdict_allow_iff gov.decisive_deny_first by blast

theorem verdict_deny_overrides_witness:
  "ad_decisiveLayer (evaluate (standard_providers demo_stores 100) ''id'' 100
     (demo_request\<lparr>req_action := ''tenant.delete''\<rparr>)) \<in> set POLICY_LAYERS"
proof -
  have "ad_verdict (evaluate (standard_providers demo_stores 100) ''id'' 100
     (demo_request\<lparr>req_action := ''tenant.delete''\<rparr>)) = DenyVerdict"
    by code_simp
  then show ?thesis
    using verdict_deny_overrides [of demo_stores 100 "''id''" 100 "demo_request\<lparr>req_action := ''tenant.delete''\<rparr>"]
    by (metis nth_mem)
qed

text \<open>Paid scope: an allowed request that needs an entitlement belongs to a tenant whose entitlement is
  active or in trial, already in effect and not yet expired at the evaluation time, with a scope that
  covers the resource.\<close>

theorem allow_entitled:
  assumes "ad_verdict (evaluate (standard_providers st clock) u t r) = Allow"
    and "Option.bind (req_context r) ctx_entitlement = Some need"
    and "res_tenantId (req_resource r) = Some tenant"
  shows "\<exists>e scope. getEntitlementSet st tenant = Some e \<and> es_status e \<in> {EntActive, EntTrial} \<and>
    (\<forall>x. es_effectiveFrom e = Some (Iso x) \<longrightarrow> x \<le> (case req_evaluatedAt r of None \<Rightarrow> clock | Some n \<Rightarrow> n)) \<and>
    (\<forall>x. es_effectiveTo e = Some (Iso x) \<longrightarrow> (case req_evaluatedAt r of None \<Rightarrow> clock | Some n \<Rightarrow> n) < x) \<and>
    scope \<in> set (listResourceScopes st tenant) \<and> rs_resourceType scope = ec_resourceType need \<and>
    (rs_mode scope = ScopeAll \<or> (\<exists>i. ec_resourceId need = Some i \<and> i \<in> set (rs_resourceIds scope)))"
proof -
  have pass: "pr_result (EntitlementPolicy st clock r) \<in> {Pass, NotApplicable}"
    by (rule allowD(2) [OF assms(1)])
  then obtain e where e: "getEntitlementSet st tenant = Some e"
    using assms(2,3) by (auto simp: EntitlementPolicy_def Let_def split: option.splits if_splits)
  obtain scope where scope: "List.find (\<lambda>c. rs_resourceType c = ec_resourceType need)
      (listResourceScopes st tenant) = Some scope"
    using pass assms(2,3) e by (auto simp: EntitlementPolicy_def Let_def split: option.splits if_splits)
  have "scope \<in> set (listResourceScopes st tenant)" and "rs_resourceType scope = ec_resourceType need"
    using find_SomeD [OF scope] by simp_all
  moreover have "rs_mode scope = ScopeAll \<or> (\<exists>i. ec_resourceId need = Some i \<and> i \<in> set (rs_resourceIds scope))"
    using pass assms(2,3) e scope
    by (cases "rs_mode scope"; cases "ec_resourceId need")
      (auto simp: EntitlementPolicy_def Let_def split: if_splits option.splits)
  moreover have "es_status e \<in> {EntActive, EntTrial}"
    using pass assms(2,3) e by (auto simp: EntitlementPolicy_def Let_def split: if_splits)
  moreover have "x \<le> (case req_evaluatedAt r of None \<Rightarrow> clock | Some n \<Rightarrow> n)"
    if "es_effectiveFrom e = Some (Iso x)" for x
    using pass assms(2,3) e that by (auto simp: EntitlementPolicy_def Let_def split: if_splits)
  moreover have "(case req_evaluatedAt r of None \<Rightarrow> clock | Some n \<Rightarrow> n) < x"
    if "es_effectiveTo e = Some (Iso x)" for x
    using pass assms(2,3) e that by (auto simp: EntitlementPolicy_def Let_def split: if_splits)
  ultimately show ?thesis using e by blast
qed

theorem allow_entitled_witness:
  "\<exists>scope \<in> set (listResourceScopes demo_stores ''kaiyan''). rs_resourceType scope = EntSkill"
proof -
  have "Option.bind (req_context demo_request) ctx_entitlement =
      Some \<lparr>ec_resourceType = EntSkill, ec_resourceId = Some ''pdf''\<rparr>"
    and "res_tenantId (req_resource demo_request) = Some ''kaiyan''"
    by (simp_all add: demo_request_def)
  from allow_entitled [OF demo_allowed this] show ?thesis by auto
qed

text \<open>Explicit assignment: an allowed request that needs an assignment has an assignment set in which some
  assignment matching the user, the groups or the agent allows it and no matching assignment denies it.\<close>

theorem allow_assigned:
  assumes "ad_verdict (evaluate (standard_providers st clock) u t r) = Allow"
    and "Option.bind (req_context r) ctx_assignment = Some need" and "ac_required need"
    and "res_tenantId (req_resource r) = Some tenant"
  shows "\<exists>aset user. getAssignmentSet st tenant (ac_resourceType need) (ac_resourceId need) = Some aset \<and>
    effective_user (req_subject r) = Some user \<and>
    (let who = \<lparr>asub_userId = user, asub_directoryGroupIds = ac_directoryGroupIds need,
                asub_agentId = (case ac_agentIds need of Some (a # _) \<Rightarrow> Some a | _ \<Rightarrow> None)\<rparr> in
     (\<exists>a \<in> set (as_assignments aset). assignmentMatches a who \<and> ra_effect a = AllowEffect) \<and>
     (\<forall>a \<in> set (as_assignments aset). assignmentMatches a who \<longrightarrow> ra_effect a \<noteq> DenyEffect))"
proof -
  have pass: "pr_result (AssignmentPolicy st r) \<in> {Pass, NotApplicable}"
    by (rule allowD(5) [OF assms(1)])
  then obtain user where user: "effective_user (req_subject r) = Some user"
    using assms(2-4) by (auto simp: AssignmentPolicy_def truthy_def split: option.splits if_splits)
  obtain aset where aset: "getAssignmentSet st tenant (ac_resourceType need) (ac_resourceId need) = Some aset"
    using pass assms(2-4) user by (auto simp: AssignmentPolicy_def split: option.splits if_splits)
  let ?who = "\<lparr>asub_userId = user, asub_directoryGroupIds = ac_directoryGroupIds need,
      asub_agentId = (case ac_agentIds need of Some (a # _) \<Rightarrow> Some a | _ \<Rightarrow> None)\<rparr>"
  have "resolveAssignment (as_assignments aset) ?who = Assigned"
    using pass assms(2-4) user aset
    by (auto simp: AssignmentPolicy_def split: if_splits assignment_resolution.splits)
  then show ?thesis
    using user aset by (auto simp: resolveAssignment_def Let_def list_ex_iff split: if_splits)
qed

theorem allow_assigned_witness:
  "\<exists>aset. getAssignmentSet demo_stores ''kaiyan'' Skill ''pdf'' = Some aset"
proof -
  let ?need = "\<lparr>ac_required = True, ac_resourceType = Skill, ac_resourceId = ''pdf'',
    ac_username = None, ac_directoryGroupIds = None, ac_agentIds = None\<rparr>"
  have "Option.bind (req_context demo_request) ctx_assignment = Some ?need"
    and "ac_required ?need" and "res_tenantId (req_resource demo_request) = Some ''kaiyan''"
    by (simp_all add: demo_request_def)
  from allow_assigned [OF demo_allowed this] show ?thesis by auto
qed

end
