(* ===== verification/Governance_Runtime.thy ===== *)
theory Governance_Runtime
  imports Governance_Access
begin

text \<open>
  The callers of the access evaluator: the subject resolver that builds the subject of a request
  (\<^verbatim>\<open>governance/subject\<close>), the authorizer for credential use
  (\<^verbatim>\<open>governance/access/credentialUseAuthorizer.ts\<close>) and the execution readiness check
  (\<^verbatim>\<open>governance/readiness/evaluator.ts\<close>). The user, membership and tenant stores are arguments.
\<close>

section \<open>Resolving subjects\<close>

definition PLATFORM_TENANT_ID :: string where
  "PLATFORM_TENANT_ID = ''pantheon''"

datatype resolution_error = SubjectNotFound | SubjectIdentityMissing

datatype identity_status = IdentityActive | IdentityDisabled

datatype membership_persona = MembershipMember | MembershipOrgAdmin

record user_record =
  usr_id :: string
  usr_tenantId :: "string option"
  usr_disabled :: "bool option"
  usr_role :: string

record tenant_membership =
  mem_persona :: membership_persona
  mem_isOwner :: bool
  mem_status :: identity_status
  mem_version :: int

record platform_admin =
  adm_status :: identity_status
  adm_version :: int

fun membership_to_persona :: "membership_persona \<Rightarrow> human_persona" where
  "membership_to_persona MembershipMember = MemberPersona"
| "membership_to_persona MembershipOrgAdmin = OrgAdminPersona"

definition accountStatus :: "user_record \<Rightarrow> account_status" where
  "accountStatus u = (if usr_disabled u = Some True then AccountDisabled else AccountActive)"

definition fromPlatformAdmin :: "user_record \<Rightarrow> platform_admin \<Rightarrow> human_subject" where
  "fromPlatformAdmin u a =
     \<lparr>hs_subjectId = usr_id u, hs_tenantId = PLATFORM_TENANT_ID, hs_persona = PlatformAdminPersona,
      hs_isOwner = False,
      hs_accountStatus = (if adm_status a = IdentityActive then accountStatus u else AccountDisabled),
      hs_membershipVersion = adm_version a\<rparr>"

definition resolveHuman ::
  "(string \<Rightarrow> user_record option) \<Rightarrow> (string \<Rightarrow> platform_admin option) \<Rightarrow>
   (string \<Rightarrow> string \<Rightarrow> tenant_membership option) \<Rightarrow> string \<Rightarrow> resolution_error + human_subject" where
  "resolveHuman findById getPlatformAdmin getMembership userId =
     (case findById userId of
        None \<Rightarrow> Inl SubjectNotFound
      | Some user \<Rightarrow>
          if \<not> truthy (usr_tenantId user) then Inl SubjectNotFound
          else let tenantId = the (usr_tenantId user) in
          if tenantId = PLATFORM_TENANT_ID
          then (case getPlatformAdmin userId of
                  None \<Rightarrow> Inl SubjectIdentityMissing
                | Some a \<Rightarrow> Inr (fromPlatformAdmin user a))
          else (case getMembership tenantId userId of
                  None \<Rightarrow> Inl SubjectIdentityMissing
                | Some m \<Rightarrow> Inr \<lparr>hs_subjectId = usr_id user, hs_tenantId = tenantId,
                    hs_persona = membership_to_persona (mem_persona m), hs_isOwner = mem_isOwner m,
                    hs_accountStatus = (if mem_status m = IdentityActive then accountStatus user
                                        else AccountDisabled),
                    hs_membershipVersion = mem_version m\<rparr>))"

text \<open>White space removed by \<open>String.prototype.trim\<close> from a byte string.\<close>

definition is_space :: "char \<Rightarrow> bool" where
  "is_space c = (c \<in> set [CHR '' '', CHR 0x09, CHR 0x0A, CHR 0x0B, CHR 0x0C, CHR 0x0D])"

definition resolveService :: "service_subject \<Rightarrow> resolution_error + service_subject" where
  "resolveService s =
     (if list_all is_space (ss_purpose s) then Inl SubjectIdentityMissing else Inr s)"

definition isActivePlatformAdminIdentity :: "string option \<Rightarrow> identity_status option \<Rightarrow> bool" where
  "isActivePlatformAdminIdentity tenantId admin =
     (tenantId = Some PLATFORM_TENANT_ID \<and> admin = Some IdentityActive)"

definition governancePersonaForUser :: "user_record \<Rightarrow> human_persona" where
  "governancePersonaForUser u =
     (if usr_role u \<noteq> ''admin'' then MemberPersona
      else if usr_tenantId u = Some PLATFORM_TENANT_ID then PlatformAdminPersona
      else OrgAdminPersona)"

section \<open>Using a credential\<close>

datatype credential_kind = OrgShared | PersonalGrant | Infrastructure

record governance_credential =
  cr_credentialId :: string
  cr_tenantId :: string
  cr_kind :: credential_kind
  cr_ownerUserId :: "string option"

record credential_use =
  cu_tenantId :: string
  cu_connectorId :: string
  cu_delegatedUserId :: string
  cu_agentId :: string
  cu_purpose :: string

definition credential_request ::
  "(string \<Rightarrow> bool option option) \<Rightarrow> service_subject \<Rightarrow> credential_use \<Rightarrow> governance_credential \<Rightarrow>
   access_request" where
  "credential_request findTenant s use cred =
     \<lparr>req_subject = Service s, req_action = ''credential.use'',
      req_resource =
        \<lparr>res_type = AssignmentResource Credential, res_id = cr_credentialId cred,
         res_tenantId = Some (cr_tenantId cred),
         res_ownerUserId = (if cr_kind cred = PersonalGrant \<and> truthy (cr_ownerUserId cred)
                            then cr_ownerUserId cred else None),
         res_enabled = None,
         res_tenantStatus = Some (if findTenant (cu_tenantId use) = Some (Some True)
                                  then TenantDisabled else TenantActive)\<rparr>,
      req_context = Some
        \<lparr>ctx_entitlement = Some \<lparr>ec_resourceType = EntConnector, ec_resourceId = Some (cu_connectorId use)\<rparr>,
         ctx_tenantPolicyKey = (if cr_kind cred = OrgShared
                                then Some ''credential.org_shared.allowed'' else None),
         ctx_assignment = Some \<lparr>ac_required = True, ac_resourceType = Credential,
           ac_resourceId = cr_credentialId cred, ac_username = None, ac_directoryGroupIds = None,
           ac_agentIds = Some [cu_agentId use]\<rparr>,
         ctx_longTermGrant = None, ctx_runtimeApproval = None\<rparr>,
      req_evaluatedAt = None\<rparr>"

text \<open>\<open>findTenant\<close> returns the tenant's optional \<open>disabled\<close> flag, or nothing for an unknown tenant.\<close>

definition authorize ::
  "governance_stores \<Rightarrow> (string \<Rightarrow> bool option option) \<Rightarrow> string \<Rightarrow> int \<Rightarrow> credential_use \<Rightarrow>
   governance_credential \<Rightarrow> resolution_error + (bool \<times> access_decision)" where
  "authorize st findTenant uuid clock use cred =
     bind_res (resolveService \<lparr>ss_serviceId = CredentialBroker, ss_tenantId = Some (cu_tenantId use),
                 ss_delegatedUserId = Some (cu_delegatedUserId use), ss_purpose = cu_purpose use\<rparr>)
       (\<lambda>s. let decision = evaluate (standard_providers st clock) uuid clock
                              (credential_request findTenant s use cred)
            in Inr (ad_verdict decision = Allow, decision))"

section \<open>Execution readiness\<close>

datatype blocker_code =
    ResourceDisabled | ResourceRetired | CredentialNotBound | CredentialExpired | CredentialUnhealthy
  | QuotaExhausted | RunLimitReached | EnvironmentUnavailable | ProviderDraining | ProviderUnhealthy
  | ModelUnavailable

record blocker =
  bl_code :: blocker_code
  bl_retryable :: bool
  bl_nextAction :: "string option"

record billing_decision =
  bd_ok :: bool
  bd_code :: "string option"
  bd_reason :: "string option"

record environment_need =
  en_required :: bool
  en_available :: bool
  en_ref :: "string option"

record credential_need =
  cn_bindingId :: string
  cn_bound :: bool
  cn_expired :: "bool option"
  cn_unhealthy :: "bool option"

record readiness_input =
  ri_accessAllowed :: bool
  ri_resourceEnabled :: "bool option"
  ri_resourceRetired :: "bool option"
  ri_modelRef :: "string option"
  ri_modelAvailable :: "bool option"
  ri_billing :: "billing_decision option"
  ri_runLimitReached :: "bool option"
  ri_environment :: "environment_need option"
  ri_providerHealthy :: "bool option"
  ri_providerDraining :: "bool option"
  ri_credentials :: "credential_need list option"

record execution_readiness =
  er_ready :: bool
  er_accessAllowed :: bool
  er_billingAllowed :: bool
  er_blockers :: "blocker list"
  er_modelRef :: "string option"
  er_environmentRef :: "string option"
  er_credentialBindingIds :: "string list"

definition block :: "blocker_code \<Rightarrow> bool \<Rightarrow> string option \<Rightarrow> blocker" where
  "block c retry next = \<lparr>bl_code = c, bl_retryable = retry, bl_nextAction = next\<rparr>"

definition credential_blockers :: "credential_need \<Rightarrow> blocker list" where
  "credential_blockers c =
     (if \<not> cn_bound c then [block CredentialNotBound False (Some ''bind_credential'')]
      else if cn_expired c = Some True then [block CredentialExpired False (Some ''reauthorize_credential'')]
      else if cn_unhealthy c = Some True then [block CredentialUnhealthy True (Some ''reauthorize_credential'')]
      else [])"

definition credentials_of :: "readiness_input \<Rightarrow> credential_need list" where
  "credentials_of i = (case ri_credentials i of None \<Rightarrow> [] | Some cs \<Rightarrow> cs)"

definition readiness_blockers :: "readiness_input \<Rightarrow> blocker list" where
  "readiness_blockers i =
     (if ri_resourceRetired i = Some True then [block ResourceRetired False None]
      else if ri_resourceEnabled i = Some False then [block ResourceDisabled False None] else []) @
     (if truthy (ri_modelRef i) \<and> ri_modelAvailable i = Some False
      then [block ModelUnavailable True None] else []) @
     (case ri_billing i of
        Some b \<Rightarrow> if \<not> bd_ok b then [block QuotaExhausted False (Some ''review_billing'')] else []
      | None \<Rightarrow> []) @
     (if ri_runLimitReached i = Some True then [block RunLimitReached True None] else []) @
     (case ri_environment i of
        Some e \<Rightarrow> if en_required e \<and> \<not> en_available e
                  then [block EnvironmentUnavailable True (Some ''select_environment'')] else []
      | None \<Rightarrow> []) @
     (if ri_providerDraining i = Some True then [block ProviderDraining True None]
      else if ri_providerHealthy i = Some False then [block ProviderUnhealthy True None] else []) @
     concat (map credential_blockers (credentials_of i))"

definition readiness :: "readiness_input \<Rightarrow> execution_readiness" where
  "readiness i =
     (let blockers = readiness_blockers i in
      \<lparr>er_ready = (ri_accessAllowed i \<and> blockers = []),
       er_accessAllowed = ri_accessAllowed i,
       er_billingAllowed = (case ri_billing i of Some b \<Rightarrow> bd_ok b | None \<Rightarrow> True),
       er_blockers = blockers,
       er_modelRef = (if truthy (ri_modelRef i) then ri_modelRef i else None),
       er_environmentRef = (case ri_environment i of
          Some e \<Rightarrow> if truthy (en_ref e) then en_ref e else None | None \<Rightarrow> None),
       er_credentialBindingIds = map cn_bindingId (filter cn_bound (credentials_of i))\<rparr>)"

section \<open>Lemmas\<close>

lemma credential_blockers_Nil:
  "credential_blockers c = [] \<longleftrightarrow>
     cn_bound c \<and> cn_expired c \<noteq> Some True \<and> cn_unhealthy c \<noteq> Some True"
  by (simp add: credential_blockers_def)

lemma readiness_blockers_Nil:
  "readiness_blockers i = [] \<longleftrightarrow>
     ri_resourceRetired i \<noteq> Some True \<and> ri_resourceEnabled i \<noteq> Some False \<and>
     \<not> (truthy (ri_modelRef i) \<and> ri_modelAvailable i = Some False) \<and>
     (\<forall>b. ri_billing i = Some b \<longrightarrow> bd_ok b) \<and>
     ri_runLimitReached i \<noteq> Some True \<and>
     (\<forall>e. ri_environment i = Some e \<longrightarrow> en_required e \<longrightarrow> en_available e) \<and>
     ri_providerDraining i \<noteq> Some True \<and> ri_providerHealthy i \<noteq> Some False \<and>
     (\<forall>c \<in> set (credentials_of i). credential_blockers c = [])"
  by (auto simp: readiness_blockers_def split: option.splits)

lemma authorize_InrD:
  assumes "authorize st findTenant uuid clock use cred = Inr (True, d)"
  obtains s where "s = \<lparr>ss_serviceId = CredentialBroker, ss_tenantId = Some (cu_tenantId use),
      ss_delegatedUserId = Some (cu_delegatedUserId use), ss_purpose = cu_purpose use\<rparr>"
    and "ad_verdict (evaluate (standard_providers st clock) uuid clock
           (credential_request findTenant s use cred)) = Allow"
  using assms by (auto simp: authorize_def resolveService_def Let_def bind_res_def split: if_splits)

section \<open>Properties\<close>

text \<open>Roles follow the identity records: a subject is resolved to the platform persona only from the platform
  tenant and its administrator record, never becomes an owner there, and is active only when both the
  identity record and the user account are active.\<close>

theorem resolveHuman_sound:
  assumes "resolveHuman findById getPlatformAdmin getMembership userId = Inr h"
  shows "\<exists>user. findById userId = Some user \<and> hs_subjectId h = usr_id user \<and>
    usr_tenantId user = Some (hs_tenantId h) \<and>
    (hs_persona h = PlatformAdminPersona \<longleftrightarrow> hs_tenantId h = PLATFORM_TENANT_ID) \<and>
    (hs_persona h = PlatformAdminPersona \<longrightarrow> getPlatformAdmin userId \<noteq> None \<and> \<not> hs_isOwner h) \<and>
    (hs_accountStatus h = AccountActive \<longrightarrow> usr_disabled user \<noteq> Some True \<and>
       ((\<exists>a. getPlatformAdmin userId = Some a \<and> adm_status a = IdentityActive) \<or>
        (\<exists>m. getMembership (hs_tenantId h) userId = Some m \<and> mem_status m = IdentityActive)))"
proof -
  have persona: "membership_to_persona p \<noteq> PlatformAdminPersona" for p
    by (cases p) auto
  from assms show ?thesis
    by (auto simp: resolveHuman_def fromPlatformAdmin_def accountStatus_def Let_def persona truthy_def
        split: option.splits if_splits)
qed

definition demo_user :: user_record where
  "demo_user = \<lparr>usr_id = ''u1'', usr_tenantId = Some ''kaiyan'', usr_disabled = None, usr_role = ''member''\<rparr>"

theorem resolveHuman_sound_witness:
  "hs_persona \<lparr>hs_subjectId = ''u1'', hs_tenantId = ''kaiyan'', hs_persona = MemberPersona,
     hs_isOwner = False, hs_accountStatus = AccountActive, hs_membershipVersion = 1\<rparr> \<noteq> PlatformAdminPersona"
proof -
  have "resolveHuman (\<lambda>_. Some demo_user) (\<lambda>_. None)
      (\<lambda>_ _. Some \<lparr>mem_persona = MembershipMember, mem_isOwner = False, mem_status = IdentityActive, mem_version = 1\<rparr>)
      ''u1'' = Inr \<lparr>hs_subjectId = ''u1'', hs_tenantId = ''kaiyan'', hs_persona = MemberPersona,
     hs_isOwner = False, hs_accountStatus = AccountActive, hs_membershipVersion = 1\<rparr>"
    by code_simp
  from resolveHuman_sound [OF this] show ?thesis by (auto simp: PLATFORM_TENANT_ID_def)
qed

text \<open>A credential is released only inside its own tenant, to its owner when it is a personal grant, only with an
  active connector entitlement covering the connector, only when a shared credential is permitted by
  the tenant policy, and only with a matching allow assignment and no matching deny.\<close>

theorem authorize_sound:
  assumes "authorize st findTenant uuid clock use cred = Inr (True, d)"
  shows "(cr_tenantId cred \<noteq> [] \<longrightarrow> cu_tenantId use = cr_tenantId cred) \<and>
    (cr_kind cred = PersonalGrant \<and> truthy (cr_ownerUserId cred) \<longrightarrow>
       cr_ownerUserId cred = Some (cu_delegatedUserId use)) \<and>
    cu_delegatedUserId use \<noteq> [] \<and>
    findTenant (cu_tenantId use) \<noteq> Some (Some True) \<and>
    (\<exists>e. getEntitlementSet st (cr_tenantId cred) = Some e \<and> es_status e \<in> {EntActive, EntTrial}) \<and>
    (cr_kind cred = OrgShared \<longrightarrow>
       (\<exists>p \<in> set (getPolicies st (cr_tenantId cred)).
          tp_policyKey p = ''credential.org_shared.allowed'' \<and> tp_value p = JBool True)) \<and>
    (\<exists>aset. getAssignmentSet st (cr_tenantId cred) Credential (cr_credentialId cred) = Some aset \<and>
       (\<exists>a \<in> set (as_assignments aset). ra_effect a = AllowEffect))"
proof -
  obtain s where s: "s = \<lparr>ss_serviceId = CredentialBroker, ss_tenantId = Some (cu_tenantId use),
      ss_delegatedUserId = Some (cu_delegatedUserId use), ss_purpose = cu_purpose use\<rparr>"
    and allow: "ad_verdict (evaluate (standard_providers st clock) uuid clock
           (credential_request findTenant s use cred)) = Allow"
    using authorize_InrD [OF assms] by blast
  let ?r = "credential_request findTenant s use cred"
  note pi = platform_passD [OF allowD(1) [OF allow]]
  obtain def where def: "getActionDefinition (req_action ?r) = Some def"
    and who: "req_action ?r \<in> set (SERVICE_ACTIONS (ss_serviceId s)) \<and>
             (truthy (ss_delegatedUserId s) \<or> act_authority def = PlatformAuthority)"
    by (rule persona_passD [OF allowD(3) [OF allow]]) (simp add: credential_request_def)
  have "cu_delegatedUserId use \<noteq> []"
    using who service_action_not_platform [OF conjunct1 [OF who] def] s by simp
  moreover have "\<exists>e. getEntitlementSet st (cr_tenantId cred) = Some e \<and> es_status e \<in> {EntActive, EntTrial}"
    using allowD(2) [OF allow]
    by (auto simp: credential_request_def EntitlementPolicy_def Let_def split: option.splits if_splits)
  moreover have "cr_kind cred = OrgShared \<longrightarrow> (\<exists>p \<in> set (getPolicies st (cr_tenantId cred)).
          tp_policyKey p = ''credential.org_shared.allowed'' \<and> tp_value p = JBool True)"
    using allowD(4) [OF allow]
    by (auto simp: credential_request_def TenantPolicy_def Let_def dest!: find_SomeD
        split: option.splits if_splits)
  moreover have "\<exists>aset. getAssignmentSet st (cr_tenantId cred) Credential (cr_credentialId cred) = Some aset \<and>
       (\<exists>a \<in> set (as_assignments aset). ra_effect a = AllowEffect)"
    using allowD(5) [OF allow]
    by (auto simp: credential_request_def AssignmentPolicy_def resolveAssignment_def Let_def list_ex_iff
        split: option.splits if_splits)
  ultimately show ?thesis
    using pi by (auto simp: credential_request_def s subject_tenant_def effective_user_def split: if_splits)
qed

definition demo_credential_stores :: governance_stores where
  "demo_credential_stores =
     demo_stores\<lparr>listResourceScopes := (\<lambda>t. [\<lparr>rs_resourceType = EntConnector, rs_mode = ScopeAll,
                    rs_resourceIds = [], rs_version = 1\<rparr>]),
                 getPolicies := (\<lambda>t. [\<lparr>tp_policyKey = ''credential.org_shared.allowed'',
                    tp_value = JBool True, tp_version = 2\<rparr>])\<rparr>"

definition demo_use :: credential_use where
  "demo_use = \<lparr>cu_tenantId = ''kaiyan'', cu_connectorId = ''github'', cu_delegatedUserId = ''u1'',
     cu_agentId = ''a1'', cu_purpose = ''sync''\<rparr>"

definition demo_credential :: governance_credential where
  "demo_credential = \<lparr>cr_credentialId = ''c1'', cr_tenantId = ''kaiyan'', cr_kind = OrgShared, cr_ownerUserId = None\<rparr>"

theorem authorize_sound_witness:
  "fst (projr (authorize demo_credential_stores (\<lambda>_. None) ''id'' 100 demo_use demo_credential)) \<and>
   cu_tenantId demo_use = cr_tenantId demo_credential"
proof -
  have ok: "isl (authorize demo_credential_stores (\<lambda>_. None) ''id'' 100 demo_use demo_credential) = False"
    and allowed: "fst (projr (authorize demo_credential_stores (\<lambda>_. None) ''id'' 100 demo_use demo_credential))"
    by code_simp+
  then obtain d where "authorize demo_credential_stores (\<lambda>_. None) ''id'' 100 demo_use demo_credential = Inr (True, d)"
    by (cases "authorize demo_credential_stores (\<lambda>_. None) ''id'' 100 demo_use demo_credential") auto
  from authorize_sound [OF this] allowed show ?thesis by (simp add: demo_credential_def)
qed

text \<open>Readiness: an execution is ready exactly when access is allowed and every named precondition holds: the
  resource is neither retired nor disabled, the model, the environment and the provider are available,
  the budget and the run limit are not exhausted and every credential is bound, unexpired and healthy.\<close>

theorem readiness_iff:
  "er_ready (readiness i) \<longleftrightarrow>
     ri_accessAllowed i \<and>
     ri_resourceRetired i \<noteq> Some True \<and> ri_resourceEnabled i \<noteq> Some False \<and>
     \<not> (truthy (ri_modelRef i) \<and> ri_modelAvailable i = Some False) \<and>
     er_billingAllowed (readiness i) \<and>
     ri_runLimitReached i \<noteq> Some True \<and>
     \<not> (\<exists>e. ri_environment i = Some e \<and> en_required e \<and> \<not> en_available e) \<and>
     ri_providerDraining i \<noteq> Some True \<and> ri_providerHealthy i \<noteq> Some False \<and>
     list_all (\<lambda>c. cn_bound c \<and> cn_expired c \<noteq> Some True \<and> cn_unhealthy c \<noteq> Some True)
       (credentials_of i)"
  by (auto simp: readiness_def Let_def readiness_blockers_Nil credential_blockers_Nil list_all_iff
      split: option.splits)

end
