(* ===== verification/Run_Liveness.thy ===== *)
theory Run_Liveness
  imports Agent_Base
begin

text \<open>
  The run-liveness contract of \<^verbatim>\<open>shared/src/lib/runLiveness.ts\<close>: the boundary normalizer, the sticky
  merge of two observations of one run, the projection reducer fenced by identity generation and
  epoch, the presentation and the recovery selector.

  A wire value is of type \<^typ>\<open>json\<close>; a normalized value is the record \<open>run_liveness\<close>, and
  \<open>liveness_json\<close> is that record seen again as a wire value.
\<close>

datatype liveness_state = LUnknown | LActive | LBusy | LWaitingInteraction | LStale | LOrphaned | LTerminal

datatype recovery_action = Retry | Cancel

record run_liveness =
  rl_state :: liveness_state
  rl_lastHeartbeatAt :: "string option"
  rl_leaseExpiresAt :: "string option"
  rl_ownerId :: "string option"
  rl_reasonCode :: "string option"
  rl_recoveryActions :: "recovery_action list"
  rl_detectedAt :: "string option"
  rl_version :: int

definition RUN_LIVENESS_VERSION :: int where
  "RUN_LIVENESS_VERSION = 1"

definition UNKNOWN_RUN_LIVENESS :: run_liveness where
  "UNKNOWN_RUN_LIVENESS =
     \<lparr>rl_state = LUnknown, rl_lastHeartbeatAt = None, rl_leaseExpiresAt = None, rl_ownerId = None,
      rl_reasonCode = None, rl_recoveryActions = [], rl_detectedAt = None, rl_version = 0\<rparr>"

definition STATES :: "(string \<times> liveness_state) list" where
  "STATES =
     [(''unknown'', LUnknown), (''active'', LActive), (''busy'', LBusy),
      (''waiting_interaction'', LWaitingInteraction), (''stale'', LStale),
      (''orphaned'', LOrphaned), (''terminal'', LTerminal)]"

definition ACTIONS :: "(string \<times> recovery_action) list" where
  "ACTIONS = [(''retry'', Retry), (''cancel'', Cancel)]"

fun string_in :: "(string \<times> 'a) list \<Rightarrow> json \<Rightarrow> 'a option" where
  "string_in table (JStr s) = map_of table s"
| "string_in table v = None"

fun optionalString :: "json \<Rightarrow> string option" where
  "optionalString (JStr s) = (if s = [] then None else Some s)"
| "optionalString v = None"

definition external_unknown :: string where
  "external_unknown = ''external_tool_outcome_unknown''"

definition safe_actions :: "liveness_state \<Rightarrow> string option \<Rightarrow> json list \<Rightarrow> recovery_action list" where
  "safe_actions state reason raw =
     (let acts = keep_first (List.map_filter (string_in ACTIONS) raw);
          safe = (if reason = Some external_unknown then filter (\<lambda>a. a = Cancel) acts else acts)
      in if state = LTerminal \<or> state = LUnknown then [] else safe)"

definition build_liveness ::
  "(string \<times> json) list \<Rightarrow> int \<Rightarrow> liveness_state \<Rightarrow> json list \<Rightarrow> run_liveness" where
  "build_liveness fs version state raw =
     (let reason = optionalString (js_prop fs ''reasonCode'') in
      \<lparr>rl_state = state,
       rl_lastHeartbeatAt = optionalString (js_prop fs ''lastHeartbeatAt''),
       rl_leaseExpiresAt = optionalString (js_prop fs ''leaseExpiresAt''),
       rl_ownerId = optionalString (js_prop fs ''ownerId''),
       rl_reasonCode = reason,
       rl_recoveryActions = safe_actions state reason raw,
       rl_detectedAt = optionalString (js_prop fs ''detectedAt''),
       rl_version = version\<rparr>)"

fun normalizeRunLiveness :: "json \<Rightarrow> run_liveness" where
  "normalizeRunLiveness (JObj fs) =
     (case (js_prop fs ''version'', string_in STATES (js_prop fs ''state''),
            js_prop fs ''recoveryActions'') of
        (JNum (IntNum version), Some state, JArr raw) \<Rightarrow>
          if version < RUN_LIVENESS_VERSION then UNKNOWN_RUN_LIVENESS
          else build_liveness fs version state raw
      | _ \<Rightarrow> UNKNOWN_RUN_LIVENESS)"
| "normalizeRunLiveness v = UNKNOWN_RUN_LIVENESS"

text \<open>A normalized value as the object it is.\<close>

fun state_name :: "liveness_state \<Rightarrow> string" where
  "state_name LUnknown = ''unknown''"
| "state_name LActive = ''active''"
| "state_name LBusy = ''busy''"
| "state_name LWaitingInteraction = ''waiting_interaction''"
| "state_name LStale = ''stale''"
| "state_name LOrphaned = ''orphaned''"
| "state_name LTerminal = ''terminal''"

fun action_name :: "recovery_action \<Rightarrow> string" where
  "action_name Retry = ''retry''"
| "action_name Cancel = ''cancel''"

definition opt_json :: "string option \<Rightarrow> json" where
  "opt_json v = (case v of None \<Rightarrow> JUndefined | Some s \<Rightarrow> JStr s)"

definition opt_field :: "string \<Rightarrow> string option \<Rightarrow> (string \<times> json) list" where
  "opt_field k v = (case v of None \<Rightarrow> [] | Some s \<Rightarrow> [(k, JStr s)])"

definition liveness_fields :: "run_liveness \<Rightarrow> (string \<times> json) list" where
  "liveness_fields l =
     ([(''state'', JStr (state_name (rl_state l)))] @
      opt_field ''lastHeartbeatAt'' (rl_lastHeartbeatAt l) @
      opt_field ''leaseExpiresAt'' (rl_leaseExpiresAt l) @
      opt_field ''ownerId'' (rl_ownerId l) @
      opt_field ''reasonCode'' (rl_reasonCode l) @
      [(''recoveryActions'', JArr (map (\<lambda>a. JStr (action_name a)) (rl_recoveryActions l)))] @
      opt_field ''detectedAt'' (rl_detectedAt l) @
      [(''version'', JNum (IntNum (rl_version l)))])"

definition liveness_json :: "run_liveness \<Rightarrow> json" where
  "liveness_json l = JObj (liveness_fields l)"

definition mergeRunLiveness :: "json \<Rightarrow> json \<Rightarrow> run_liveness" where
  "mergeRunLiveness currentValue incomingValue =
     (let current = normalizeRunLiveness currentValue;
          incoming = normalizeRunLiveness incomingValue in
      if rl_state current = LUnknown then incoming
      else if rl_state incoming = LUnknown then current
      else if rl_state current = LTerminal then current
      else if rl_state current = LOrphaned
      then (if rl_state incoming = LTerminal then incoming else current)
      else if rl_state current = LStale
      then (if rl_state incoming = LTerminal \<or> rl_state incoming = LOrphaned then incoming else current)
      else incoming)"

section \<open>The projection reducer\<close>

record liveness_projection =
  lp_generation :: int
  lp_epoch :: "string option"
  lp_bySession :: "string \<Rightarrow> (string \<Rightarrow> run_liveness option) option"

text \<open>An optional epoch: absent, or present and possibly \<open>null\<close>.\<close>

datatype projection_action =
    IdentityBoundary int "string option option"
  | EpochBoundary int "string option"
  | Observe int "string option option" string string json

definition createRunLivenessProjectionState :: "int \<Rightarrow> string option \<Rightarrow> liveness_projection" where
  "createRunLivenessProjectionState generation epoch =
     \<lparr>lp_generation = generation, lp_epoch = epoch, lp_bySession = (\<lambda>_. None)\<rparr>"

definition wire :: "run_liveness option \<Rightarrow> json" where
  "wire l = (case l of None \<Rightarrow> JUndefined | Some v \<Rightarrow> liveness_json v)"

definition projected :: "liveness_projection \<Rightarrow> string \<Rightarrow> string \<Rightarrow> run_liveness option" where
  "projected st sessionId runId = Option.bind (lp_bySession st sessionId) (\<lambda>runs. runs runId)"

fun reduceRunLivenessProjection ::
  "liveness_projection \<Rightarrow> projection_action \<Rightarrow> liveness_projection" where
  "reduceRunLivenessProjection st (IdentityBoundary generation epoch) =
     (if generation = lp_generation st \<and>
         (case epoch of Some (Some e) \<Rightarrow> Some e | _ \<Rightarrow> lp_epoch st) = lp_epoch st
      then st
      else createRunLivenessProjectionState generation (case epoch of Some e \<Rightarrow> e | None \<Rightarrow> None))"
| "reduceRunLivenessProjection st (EpochBoundary generation epoch) =
     (if generation \<noteq> lp_generation st then st
      else if epoch = lp_epoch st then st
      else createRunLivenessProjectionState (lp_generation st) epoch)"
| "reduceRunLivenessProjection st (Observe generation epoch sessionId runId liveness) =
     (if generation \<noteq> lp_generation st then st
      else if epoch \<noteq> None \<and> lp_epoch st \<noteq> None \<and> epoch \<noteq> Some (lp_epoch st) then st
      else if sessionId = [] \<or> runId = [] then st
      else let session = (case lp_bySession st sessionId of None \<Rightarrow> (\<lambda>_. None) | Some m \<Rightarrow> m);
               current = session runId;
               next = mergeRunLiveness (wire current) liveness in
      if current = Some next then st
      else st\<lparr>lp_bySession := (lp_bySession st)(sessionId \<mapsto> session(runId \<mapsto> next))\<rparr>)"

definition selectProjectedRunLiveness :: "liveness_projection \<Rightarrow> string \<Rightarrow> string \<Rightarrow> run_liveness" where
  "selectProjectedRunLiveness st sessionId runId =
     normalizeRunLiveness (wire (projected st sessionId runId))"

section \<open>Presentation and recovery\<close>

text \<open>The fixed wordings, by meaning.\<close>

datatype liveness_label =
  StillRunning | WaitingForAction | Confirming | RetryOrCancel | FinishedOrFailed | StateUnconfirmed

record liveness_presentation =
  pres_state :: liveness_state
  pres_label :: liveness_label
  pres_running :: bool
  pres_waiting :: bool
  pres_uncertain :: bool
  pres_terminal :: bool

definition presentation ::
  "liveness_state \<Rightarrow> liveness_label \<Rightarrow> bool \<Rightarrow> bool \<Rightarrow> bool \<Rightarrow> bool \<Rightarrow> liveness_presentation" where
  "presentation s l r w u t =
     \<lparr>pres_state = s, pres_label = l, pres_running = r, pres_waiting = w, pres_uncertain = u, pres_terminal = t\<rparr>"

definition selectRunLivenessPresentation :: "json \<Rightarrow> liveness_presentation" where
  "selectRunLivenessPresentation v =
     (let state = rl_state (normalizeRunLiveness v) in
      case state of
        LActive \<Rightarrow> presentation state StillRunning True False False False
      | LBusy \<Rightarrow> presentation state StillRunning True False False False
      | LWaitingInteraction \<Rightarrow> presentation state WaitingForAction False True False False
      | LStale \<Rightarrow> presentation state Confirming False False True False
      | LOrphaned \<Rightarrow> presentation state RetryOrCancel False False True True
      | LTerminal \<Rightarrow> presentation state FinishedOrFailed False False False True
      | LUnknown \<Rightarrow> presentation LUnknown StateUnconfirmed False False True False)"

record recovery_gate =
  gate_online :: bool
  gate_locallyUnlocked :: bool
  gate_identityFenceCurrent :: "bool option"
  gate_epochFenceCurrent :: "bool option"
  gate_sessionFenceCurrent :: "bool option"

datatype blocked_reason = BlockedOffline | BlockedLocked | BlockedStaleFence | BlockedServerDisallowed

record recovery_selection =
  rec_actions :: "recovery_action list"
  rec_canRetry :: bool
  rec_canCancel :: bool
  rec_manualInspection :: bool
  rec_blockedReason :: "blocked_reason option"

definition gate_block :: "recovery_gate \<Rightarrow> blocked_reason option" where
  "gate_block g =
     (if \<not> gate_online g then Some BlockedOffline
      else if \<not> gate_locallyUnlocked g then Some BlockedLocked
      else if gate_identityFenceCurrent g = Some False \<or> gate_epochFenceCurrent g = Some False
              \<or> gate_sessionFenceCurrent g = Some False then Some BlockedStaleFence
      else None)"

definition selectRunLivenessRecovery :: "json \<Rightarrow> recovery_gate \<Rightarrow> recovery_selection" where
  "selectRunLivenessRecovery v g =
     (let liveness = normalizeRunLiveness v;
          manual = (rl_reasonCode liveness = Some external_unknown);
          acts = (if gate_block g \<noteq> None then []
                  else filter (\<lambda>a. \<not> (manual \<and> a = Retry)) (rl_recoveryActions liveness)) in
      \<lparr>rec_actions = acts,
       rec_canRetry = (Retry \<in> set acts),
       rec_canCancel = (Cancel \<in> set acts),
       rec_manualInspection = manual,
       rec_blockedReason = (if gate_block g = None \<and> acts = [] then Some BlockedServerDisallowed
                            else gate_block g)\<rparr>)"

section \<open>Canonical liveness values\<close>

definition canonical_liveness :: "run_liveness \<Rightarrow> bool" where
  "canonical_liveness l \<longleftrightarrow>
     l = UNKNOWN_RUN_LIVENESS \<or>
     (RUN_LIVENESS_VERSION \<le> rl_version l \<and>
      distinct (rl_recoveryActions l) \<and>
      (rl_state l \<in> {LTerminal, LUnknown} \<longrightarrow> rl_recoveryActions l = []) \<and>
      (rl_reasonCode l = Some external_unknown \<longrightarrow> Retry \<notin> set (rl_recoveryActions l)) \<and>
      Some [] \<notin> {rl_lastHeartbeatAt l, rl_leaseExpiresAt l, rl_ownerId l, rl_reasonCode l, rl_detectedAt l})"

lemma optionalString_nonempty: "Some [] \<noteq> optionalString v"
  by (cases v) auto

lemma safe_actions_safe:
  "distinct (safe_actions state reason raw)"
  "state \<in> {LTerminal, LUnknown} \<Longrightarrow> safe_actions state reason raw = []"
  "reason = Some external_unknown \<Longrightarrow> Retry \<notin> set (safe_actions state reason raw)"
  by (auto simp: safe_actions_def Let_def)

lemma canonical_build:
  "RUN_LIVENESS_VERSION \<le> version \<Longrightarrow> canonical_liveness (build_liveness fs version state raw)"
  unfolding canonical_liveness_def build_liveness_def Let_def
  by (simp add: safe_actions_safe optionalString_nonempty)

lemma normalize_cases:
  obtains (Unknown) "normalizeRunLiveness v = UNKNOWN_RUN_LIVENESS"
  | (Built) fs version state raw where "v = JObj fs" and "RUN_LIVENESS_VERSION \<le> version"
      and "js_prop fs ''version'' = JNum (IntNum version)"
      and "string_in STATES (js_prop fs ''state'') = Some state"
      and "js_prop fs ''recoveryActions'' = JArr raw"
      and "normalizeRunLiveness v = build_liveness fs version state raw"
proof (cases v)
  case (JObj fs)
  show ?thesis
  proof (cases "\<exists>version state raw. js_prop fs ''version'' = JNum (IntNum version) \<and>
      string_in STATES (js_prop fs ''state'') = Some state \<and>
      js_prop fs ''recoveryActions'' = JArr raw")
    case False
    then have "normalizeRunLiveness v = UNKNOWN_RUN_LIVENESS"
      unfolding JObj normalizeRunLiveness.simps by (auto split: json.split js_number.split option.split)
    then show ?thesis by (rule Unknown)
  next
    case True
    then obtain version state raw where fields: "js_prop fs ''version'' = JNum (IntNum version)"
      "string_in STATES (js_prop fs ''state'') = Some state" "js_prop fs ''recoveryActions'' = JArr raw"
      by blast
    then have "normalizeRunLiveness v = (if version < RUN_LIVENESS_VERSION then UNKNOWN_RUN_LIVENESS
        else build_liveness fs version state raw)"
      unfolding JObj normalizeRunLiveness.simps fields by (simp only: prod.case json.case js_number.case option.case)
    with Unknown Built [OF JObj _ fields] show ?thesis by (cases "version < RUN_LIVENESS_VERSION") simp_all
  qed
qed (use Unknown in simp_all)

lemma canonical_normalize: "canonical_liveness (normalizeRunLiveness v)"
proof (cases v rule: normalize_cases)
  case Unknown
  then show ?thesis by (simp add: canonical_liveness_def)
next
  case (Built fs version state raw)
  then show ?thesis by (metis canonical_build)
qed

lemma js_prop_append:
  "js_prop (fs @ gs) k = (if js_prop gs k = JUndefined \<and> k \<notin> fst ` set gs then js_prop fs k else js_prop gs k)"
proof (cases "map_of (rev gs) k")
  case None
  then have "k \<notin> fst ` set gs" by (simp add: map_of_eq_None_iff)
  with None show ?thesis by (simp add: js_prop_def map_add_def)
next
  case (Some v)
  then have "k \<in> fst ` set gs" by (metis image_iff map_of_SomeD fst_conv set_rev)
  with Some show ?thesis by (simp add: js_prop_def map_add_def)
qed

lemma opt_field_prop:
  "js_prop (opt_field a v) k = (if a = k then opt_json v else JUndefined)"
  "fst ` set (opt_field a v) = (if v = None then {} else {a})"
  by (auto simp: opt_field_def opt_json_def js_prop_def split: option.splits)

lemma single_field_prop:
  "js_prop [(a, v)] k = (if a = k then v else JUndefined)"
  by (simp add: js_prop_def)

lemma cons_field_prop:
  "js_prop ((a, v) # gs) k =
     (if js_prop gs k = JUndefined \<and> k \<notin> fst ` set gs then (if a = k then v else JUndefined)
      else js_prop gs k)"
  using js_prop_append [of "[(a, v)]" gs k] by (simp add: single_field_prop)

lemma empty_fields [simp]:
  "js_prop [] k = JUndefined"
  "opt_json None = JUndefined"
  by (simp_all add: js_prop_def opt_json_def)

lemmas liveness_json_prop =
  js_prop_append opt_field_prop cons_field_prop single_field_prop image_Un

lemma liveness_fields_prop [simp]:
  "js_prop (liveness_fields l) ''state'' = JStr (state_name (rl_state l))"
  "js_prop (liveness_fields l) ''lastHeartbeatAt'' = opt_json (rl_lastHeartbeatAt l)"
  "js_prop (liveness_fields l) ''leaseExpiresAt'' = opt_json (rl_leaseExpiresAt l)"
  "js_prop (liveness_fields l) ''ownerId'' = opt_json (rl_ownerId l)"
  "js_prop (liveness_fields l) ''reasonCode'' = opt_json (rl_reasonCode l)"
  "js_prop (liveness_fields l) ''recoveryActions'' =
     JArr (map (\<lambda>a. JStr (action_name a)) (rl_recoveryActions l))"
  "js_prop (liveness_fields l) ''detectedAt'' = opt_json (rl_detectedAt l)"
  "js_prop (liveness_fields l) ''version'' = JNum (IntNum (rl_version l))"
  by (simp_all add: liveness_fields_def liveness_json_prop)

lemma map_of_names [simp]:
  "map_of STATES (state_name s) = Some s"
  "map_of ACTIONS (action_name a) = Some a"
  by (cases s; simp add: STATES_def) (cases a; simp add: ACTIONS_def)

lemma map_filter_names: "List.map_filter (string_in ACTIONS) (map (\<lambda>a. JStr (action_name a)) acts) = acts"
  by (induction acts) (simp_all add: List.map_filter_def)

lemma optionalString_case:
  "optionalString (opt_json v) = (if v = Some [] then None else v)"
  by (auto simp: opt_json_def split: option.splits)

lemma normalize_liveness_json:
  assumes "canonical_liveness l"
  shows "normalizeRunLiveness (liveness_json l) = l"
proof (cases "l = UNKNOWN_RUN_LIVENESS")
  case True
  then show ?thesis
    by (simp add: liveness_json_def UNKNOWN_RUN_LIVENESS_def RUN_LIVENESS_VERSION_def split: option.split)
next
  case False
  note can = assms [unfolded canonical_liveness_def] False
  have acts: "safe_actions (rl_state l) (rl_reasonCode l)
      (map (\<lambda>a. JStr (action_name a)) (rl_recoveryActions l)) = rl_recoveryActions l"
    using can by (auto simp: safe_actions_def Let_def map_filter_names intro!: filter_True)
      (metis recovery_action.exhaust)
  have nonempty: "rl_lastHeartbeatAt l \<noteq> Some []" "rl_leaseExpiresAt l \<noteq> Some []"
    "rl_ownerId l \<noteq> Some []" "rl_reasonCode l \<noteq> Some []" "rl_detectedAt l \<noteq> Some []"
    using can by auto
  have "\<not> rl_version l < RUN_LIVENESS_VERSION" using can by auto
  with nonempty acts show ?thesis
    by (simp add: liveness_json_def build_liveness_def optionalString_case)
qed

lemma normalize_wire [simp]:
  "normalizeRunLiveness (wire (Some (normalizeRunLiveness v))) = normalizeRunLiveness v"
  "normalizeRunLiveness (wire None) = UNKNOWN_RUN_LIVENESS"
  by (simp_all add: wire_def normalize_liveness_json canonical_normalize)

lemma merge_normalized:
  "\<exists>v. mergeRunLiveness a b = normalizeRunLiveness v"
  by (auto simp: mergeRunLiveness_def Let_def)

lemma canonical_merge: "canonical_liveness (mergeRunLiveness a b)"
  using merge_normalized [of a b] canonical_normalize by metis

section \<open>Sticky merging\<close>

fun state_rank :: "liveness_state \<Rightarrow> nat" where
  "state_rank LUnknown = 0"
| "state_rank LActive = 1"
| "state_rank LBusy = 1"
| "state_rank LWaitingInteraction = 1"
| "state_rank LStale = 2"
| "state_rank LOrphaned = 3"
| "state_rank LTerminal = 4"

lemma rank_zero [simp]: "state_rank s = 0 \<longleftrightarrow> s = LUnknown"
  by (cases s) auto

lemma merge_rank:
  "state_rank (rl_state (normalizeRunLiveness a)) \<le> state_rank (rl_state (mergeRunLiveness a b))"
  by (cases "rl_state (normalizeRunLiveness a)"; cases "rl_state (normalizeRunLiveness b)")
    (auto simp: mergeRunLiveness_def Let_def)

abbreviation liveness_rank :: "run_liveness \<Rightarrow> nat" where
  "liveness_rank l \<equiv> state_rank (rl_state (normalizeRunLiveness (liveness_json l)))"

lemma liveness_rank_merge [simp]:
  "liveness_rank (mergeRunLiveness a b) = state_rank (rl_state (mergeRunLiveness a b))"
  by (simp add: normalize_liveness_json canonical_merge)

interpretation sticky: monotone_projection canonical_liveness liveness_rank
    "\<lambda>l v. mergeRunLiveness (liveness_json l) v"
  by unfold_locales (simp_all add: canonical_merge merge_rank)

lemma merge_terminal:
  "rl_state (normalizeRunLiveness a) = LTerminal \<Longrightarrow> mergeRunLiveness a b = normalizeRunLiveness a"
  by (simp add: mergeRunLiveness_def Let_def)

section \<open>Lemmas on the projection reducer\<close>

text \<open>Every stored value is canonical.\<close>

definition projection_wf :: "liveness_projection \<Rightarrow> bool" where
  "projection_wf st \<longleftrightarrow> (\<forall>s r l. projected st s r = Some l \<longrightarrow> canonical_liveness l)"

lemma projected_create [simp]: "projected (createRunLivenessProjectionState g e) s r = None"
  by (simp add: projected_def createRunLivenessProjectionState_def)

lemma projected_update:
  "projected (st\<lparr>lp_bySession := (lp_bySession st)(s \<mapsto>
      (case lp_bySession st s of None \<Rightarrow> (\<lambda>_. None) | Some m \<Rightarrow> m)(r \<mapsto> l))\<rparr>) s' r' =
   (if s' = s \<and> r' = r then Some l else projected st s' r')"
  by (auto simp: projected_def split: option.splits)

lemma session_lookup:
  "(case lp_bySession st s of None \<Rightarrow> (\<lambda>_. None) | Some m \<Rightarrow> m) r = projected st s r"
  by (auto simp: projected_def split: option.splits)

definition admitted :: "liveness_projection \<Rightarrow> int \<Rightarrow> string option option \<Rightarrow> bool" where
  "admitted st generation epoch \<longleftrightarrow>
     generation = lp_generation st \<and> (epoch = None \<or> lp_epoch st = None \<or> epoch = Some (lp_epoch st))"

lemma projected_observe:
  "projected (reduceRunLivenessProjection st (Observe g e s r v)) s' r' =
     (if admitted st g e \<and> s \<noteq> [] \<and> r \<noteq> [] \<and> s' = s \<and> r' = r
      then Some (mergeRunLiveness (wire (projected st s r)) v) else projected st s' r')"
proof (cases "admitted st g e \<and> s \<noteq> [] \<and> r \<noteq> []")
  case False
  then show ?thesis by (auto simp: admitted_def)
next
  case True
  let ?session = "case lp_bySession st s of None \<Rightarrow> (\<lambda>_. None) | Some m \<Rightarrow> m"
  let ?next = "mergeRunLiveness (wire (projected st s r)) v"
  have "reduceRunLivenessProjection st (Observe g e s r v) =
      (if projected st s r = Some ?next then st
       else st\<lparr>lp_bySession := (lp_bySession st)(s \<mapsto> ?session(r \<mapsto> ?next))\<rparr>)"
    using True by (auto simp: admitted_def Let_def session_lookup)
  with True show ?thesis by (auto simp: projected_update)
qed

lemma boundary_fields_observe:
  "lp_generation (reduceRunLivenessProjection st (Observe g e s r v)) = lp_generation st"
  "lp_epoch (reduceRunLivenessProjection st (Observe g e s r v)) = lp_epoch st"
  by (auto simp: Let_def)

lemma projection_wf_step:
  assumes "projection_wf st"
  shows "projection_wf (reduceRunLivenessProjection st a)"
proof (cases a)
  case (Observe g e s r v)
  have "canonical_liveness l"
    if "projected (reduceRunLivenessProjection st (Observe g e s r v)) s' r' = Some l" for s' r' l
    using that [unfolded projected_observe] assms
    by (auto simp: projection_wf_def canonical_merge split: if_splits)
  with Observe show ?thesis unfolding projection_wf_def by blast
qed (use assms in \<open>auto simp: projection_wf_def\<close>)

text \<open>An action that is not a boundary crossing for this state.\<close>

fun crosses_boundary :: "liveness_projection \<Rightarrow> projection_action \<Rightarrow> bool" where
  "crosses_boundary st (Observe g e s r v) = False"
| "crosses_boundary st a = (reduceRunLivenessProjection st a \<noteq> st)"

fun run_projection :: "liveness_projection \<Rightarrow> projection_action list \<Rightarrow> liveness_projection" where
  "run_projection st [] = st"
| "run_projection st (a # as) = run_projection (reduceRunLivenessProjection st a) as"

fun no_boundary :: "liveness_projection \<Rightarrow> projection_action list \<Rightarrow> bool" where
  "no_boundary st [] = True"
| "no_boundary st (a # as) =
     (\<not> crosses_boundary st a \<and> no_boundary (reduceRunLivenessProjection st a) as)"

definition projected_rank :: "liveness_projection \<Rightarrow> string \<Rightarrow> string \<Rightarrow> nat" where
  "projected_rank st s r = state_rank (rl_state (selectProjectedRunLiveness st s r))"

lemma projected_rank_step:
  assumes "projection_wf st" and "\<not> crosses_boundary st a"
  shows "projected_rank st s r \<le> projected_rank (reduceRunLivenessProjection st a) s r"
proof (cases a)
  case (Observe g e s' r' v)
  have m: "normalizeRunLiveness (wire (Some (mergeRunLiveness x y))) = mergeRunLiveness x y" for x y
    by (simp add: wire_def normalize_liveness_json canonical_merge)
  show ?thesis
    unfolding Observe projected_rank_def selectProjectedRunLiveness_def projected_observe
    by (simp add: m merge_rank)
qed (use assms in auto)

lemma projection_wf_create: "projection_wf (createRunLivenessProjectionState g e)"
  by (simp add: projection_wf_def)

lemma select_projected:
  "projection_wf st \<Longrightarrow> selectProjectedRunLiveness st s r =
     (case projected st s r of None \<Rightarrow> UNKNOWN_RUN_LIVENESS | Some l \<Rightarrow> l)"
  by (auto simp: selectProjectedRunLiveness_def projection_wf_def wire_def normalize_liveness_json
      split: option.splits)

lemma terminal_frozen_step:
  assumes wf: "projection_wf st" and "\<not> crosses_boundary st a"
    and fin: "rl_state (selectProjectedRunLiveness st s r) = LTerminal"
  shows "selectProjectedRunLiveness (reduceRunLivenessProjection st a) s r =
           selectProjectedRunLiveness st s r"
proof (cases a)
  case (Observe g e s' r' v)
  have m: "mergeRunLiveness (wire (projected st s r)) v = normalizeRunLiveness (wire (projected st s r))"
    using fin by (simp add: merge_terminal selectProjectedRunLiveness_def)
  show ?thesis
    unfolding Observe selectProjectedRunLiveness_def projected_observe using m by auto
qed (use assms in auto)

lemma run_projection_wf: "projection_wf st \<Longrightarrow> projection_wf (run_projection st as)"
  by (induction st as rule: run_projection.induct) (simp_all add: projection_wf_step)

section \<open>Properties\<close>

text \<open>The boundary normalizer is a retraction onto the canonical liveness values: a value is
  a fixed point of normalization exactly when it is canonical (the unknown value, or a supported
  contract version with duplicate-free recovery actions, none of them for a terminal or unknown run
  and no retry when the outcome of an external tool is unknown, and no empty optional string), and
  everything the normalizer returns is canonical.\<close>

theorem normalize_retraction:
  "canonical_liveness (normalizeRunLiveness v) \<and>
   (canonical_liveness l \<longleftrightarrow> normalizeRunLiveness (liveness_json l) = l)"
  using canonical_normalize normalize_liveness_json by metis

text \<open>C31. Between boundaries the projection of every run only moves forward (unknown, live, stale,
  orphaned, terminal), whatever observations arrive and in whatever order, and once a run is
  terminal its projected value never changes again.\<close>

theorem projection_sticky:
  assumes "projection_wf st" and "no_boundary st as"
  shows "projected_rank st s r \<le> projected_rank (run_projection st as) s r \<and>
         (rl_state (selectProjectedRunLiveness st s r) = LTerminal \<longrightarrow>
          selectProjectedRunLiveness (run_projection st as) s r = selectProjectedRunLiveness st s r)"
  using assms
proof (induction st as rule: run_projection.induct)
  case (1 st)
  then show ?case by simp
next
  case (2 st a as)
  then have step: "projection_wf (reduceRunLivenessProjection st a)" "\<not> crosses_boundary st a"
    "no_boundary (reduceRunLivenessProjection st a) as"
    by (simp_all add: projection_wf_step)
  note IH = 2(1) [OF step(1,3)]
  show ?case
    using IH projected_rank_step [OF 2(2) step(2), of s r] terminal_frozen_step [OF 2(2) step(2), of s r]
    by (auto intro: order_trans)
qed

definition demo_observation :: "string \<Rightarrow> json" where
  "demo_observation state =
     JObj [(''state'', JStr state), (''recoveryActions'', JArr [JStr ''retry'', JStr ''retry'', JStr ''cancel'']),
           (''version'', JNum (IntNum 1))]"

lemma projection_sticky_witness:
  "projected_rank (createRunLivenessProjectionState 0 None) ''s'' ''r'' \<le>
   projected_rank (run_projection (createRunLivenessProjectionState 0 None)
     [Observe 0 None ''s'' ''r'' (demo_observation ''terminal''),
      Observe 0 None ''s'' ''r'' (demo_observation ''active'')]) ''s'' ''r''"
  using projection_sticky [OF projection_wf_create [of 0 None],
      of "[Observe 0 None ''s'' ''r'' (demo_observation ''terminal''),
           Observe 0 None ''s'' ''r'' (demo_observation ''active'')]" "''s''" "''r''"]
  by simp

text \<open>An observation is fenced: one of another identity generation, or of another known epoch,
  or without a session or run id, changes nothing; an admitted one changes the projected value of its
  own session and run to the sticky merge and no other value; and no observation moves the fences.\<close>

theorem projection_fenced:
  "let st' = reduceRunLivenessProjection st (Observe g e s r v) in
     lp_generation st' = lp_generation st \<and> lp_epoch st' = lp_epoch st \<and>
     (\<forall>s' r'. projected st' s' r' =
        (if admitted st g e \<and> s \<noteq> [] \<and> r \<noteq> [] \<and> s' = s \<and> r' = r
         then Some (mergeRunLiveness (wire (projected st s r)) v)
         else projected st s' r'))"
  unfolding Let_def projected_observe boundary_fields_observe by simp

text \<open>Recovery intersects the server's allow-list: the offered actions are allowed ones, nothing
  is offered exactly when a reason for blocking is reported, nothing is offered while offline, locked
  or behind a stale fence, and retry is never offered when an external tool's outcome is unknown, nor
  anything for a terminal or unknown run.\<close>

theorem recovery_safe:
  "let l = normalizeRunLiveness v; sel = selectRunLivenessRecovery v g in
     set (rec_actions sel) \<subseteq> set (rl_recoveryActions l) \<and>
     (rec_actions sel = [] \<longleftrightarrow> rec_blockedReason sel \<noteq> None) \<and>
     (rec_actions sel \<noteq> [] \<longrightarrow>
        gate_online g \<and> gate_locallyUnlocked g \<and>
        Some False \<notin> {gate_identityFenceCurrent g, gate_epochFenceCurrent g, gate_sessionFenceCurrent g} \<and>
        rl_state l \<noteq> LTerminal \<and> rl_state l \<noteq> LUnknown) \<and>
     (rl_reasonCode l = Some external_unknown \<longrightarrow> \<not> rec_canRetry sel)"
proof -
  have can: "rl_state (normalizeRunLiveness v) \<in> {LTerminal, LUnknown} \<Longrightarrow>
      rl_recoveryActions (normalizeRunLiveness v) = []"
    using canonical_normalize [of v] by (auto simp: canonical_liveness_def UNKNOWN_RUN_LIVENESS_def)
  show ?thesis
    using can by (auto simp: selectRunLivenessRecovery_def Let_def gate_block_def split: if_splits)
qed

definition demo_gate :: recovery_gate where
  "demo_gate = \<lparr>gate_online = True, gate_locallyUnlocked = True, gate_identityFenceCurrent = Some True,
     gate_epochFenceCurrent = None, gate_sessionFenceCurrent = None\<rparr>"

lemma recovery_safe_witness:
  "rec_actions (selectRunLivenessRecovery (demo_observation ''orphaned'') demo_gate) = [Retry, Cancel] \<and>
   rl_state (normalizeRunLiveness (demo_observation ''orphaned'')) \<noteq> LTerminal"
proof -
  have "rec_actions (selectRunLivenessRecovery (demo_observation ''orphaned'') demo_gate) = [Retry, Cancel]"
    by code_simp
  with recovery_safe [of "demo_observation ''orphaned''" demo_gate] show ?thesis
    by (simp add: Let_def)
qed

end
