(* ===== verification/Chat_Queue.thy ===== *)
theory Chat_Queue
  imports Run_Liveness
begin

text \<open>
  The client projection of the server's chat queue (\<^verbatim>\<open>shared/src/lib/chatQueue.ts\<close>): the reducer over
  server snapshots, live events and local intents, and its selectors.

  Objects keyed by message id are partial functions; a message id is assumed not to be the name of a
  property of \<^verbatim>\<open>Object.prototype\<close>. A patch carries no property whose value is \<open>undefined\<close>, which is what
  decoding the wire format yields, so that spreading it overrides exactly the properties it has. The
  attachments of an item are opaque here; its liveness is kept as the wire value.
\<close>

section \<open>Data\<close>

datatype delivery_mode = ModeQueue | ModeSteer

datatype queue_status = Queued | Running | SteeredSt | CancelPending | Cancelled | Completed | Failed

datatype intent_state = Sending | Verifying | IntentFailed

record queue_item =
  qi_sessionId :: string
  qi_clientMsgId :: string
  qi_runId :: string
  qi_sourceRunId :: string
  qi_deliveryMode :: delivery_mode
  qi_status :: queue_status
  qi_queuePosition :: "int option"
  qi_targetRunId :: "string option"
  qi_content :: "string option"
  qi_attachments :: "json option"
  qi_acceptedAt :: "iso_time option"
  qi_updatedAt :: "iso_time option"
  qi_reason :: "string option"
  qi_liveness :: json

text \<open>The identifiers by which an event may refer to an item.\<close>

record queue_aliases =
  al_clientMsgId :: "string option"
  al_runId :: "string option"
  al_sourceRunId :: "string option"

record item_patch =
  ip_sessionId :: string
  ip_aliases :: queue_aliases
  ip_deliveryMode :: "delivery_mode option"
  ip_status :: queue_status
  ip_queuePosition :: "int option"
  ip_targetRunId :: "string option"
  ip_content :: "string option"
  ip_attachments :: "json option"
  ip_acceptedAt :: "iso_time option"
  ip_updatedAt :: "iso_time option"
  ip_reason :: "string option"
  ip_liveness :: json

record queue_snapshot =
  qs_sessionId :: string
  qs_items :: "queue_item list"
  qs_generatedAt :: string

record local_intent =
  li_sessionId :: "string option"
  li_clientMsgId :: string
  li_deliveryMode :: delivery_mode
  li_content :: "string option"
  li_attachments :: "json option"
  li_state :: intent_state
  li_createdAt :: int
  li_reason :: "string option"

record queue_state =
  cq_sessionId :: "string option"
  cq_items :: "string \<Rightarrow> queue_item option"
  cq_order :: "string list"
  cq_localIntents :: "string \<Rightarrow> local_intent option"
  cq_hydrated :: bool
  cq_snapshotGeneratedAt :: "string option"

datatype queue_event =
    Snapshot queue_snapshot
  | ServerUpsert item_patch
  | ServerTerminal string queue_status queue_aliases "iso_time option" "string option"
  | Steered string "string list" "string list" "string option" "iso_time option"
  | CancelRequested string queue_aliases "iso_time option"
  | IntentAdded local_intent
  | IntentUpdated string intent_state "string option"
  | IntentRemoved string
  | Reset "string option"

section \<open>Operations\<close>

fun isChatQueueTerminalStatus :: "queue_status \<Rightarrow> bool" where
  "isChatQueueTerminalStatus Cancelled = True"
| "isChatQueueTerminalStatus Completed = True"
| "isChatQueueTerminalStatus Failed = True"
| "isChatQueueTerminalStatus _ = False"

text \<open>The table has no entry for \<open>cancel_pending\<close>, which is an optimistic form of \<open>queued\<close>.\<close>

fun SERVER_PROGRESS_RANK :: "queue_status \<Rightarrow> nat" where
  "SERVER_PROGRESS_RANK Queued = 0"
| "SERVER_PROGRESS_RANK Running = 1"
| "SERVER_PROGRESS_RANK SteeredSt = 2"
| "SERVER_PROGRESS_RANK Cancelled = 3"
| "SERVER_PROGRESS_RANK Completed = 3"
| "SERVER_PROGRESS_RANK Failed = 3"
| "SERVER_PROGRESS_RANK CancelPending = 0"

definition createChatQueueState :: "string option \<Rightarrow> queue_state" where
  "createChatQueueState sessionId =
     \<lparr>cq_sessionId = (if truthy sessionId then sessionId else None), cq_items = Map.empty, cq_order = [],
      cq_localIntents = Map.empty, cq_hydrated = False, cq_snapshotGeneratedAt = None\<rparr>"

definition chatQueueItemKey :: "queue_aliases \<Rightarrow> string option" where
  "chatQueueItemKey a = or_str (al_clientMsgId a) (or_str (al_runId a) (al_sourceRunId a))"

definition alias_match :: "queue_aliases \<Rightarrow> queue_item \<Rightarrow> bool" where
  "alias_match a item \<longleftrightarrow>
     (truthy (al_clientMsgId a) \<and> al_clientMsgId a = Some (qi_clientMsgId item)) \<or>
     (truthy (al_runId a) \<and> al_runId a = Some (qi_runId item)) \<or>
     (truthy (al_sourceRunId a) \<and> al_sourceRunId a = Some (qi_sourceRunId item))"

definition key_matches :: "queue_state \<Rightarrow> queue_aliases \<Rightarrow> string \<Rightarrow> bool" where
  "key_matches st a k = (case cq_items st k of None \<Rightarrow> False | Some item \<Rightarrow> alias_match a item)"

definition findItemKey :: "queue_state \<Rightarrow> queue_aliases \<Rightarrow> string option" where
  "findItemKey st a =
     (if truthy (al_clientMsgId a) \<and> Option.bind (al_clientMsgId a) (cq_items st) \<noteq> None
      then al_clientMsgId a
      else List.find (key_matches st a) (cq_order st))"

definition compareIso :: "iso_time option \<Rightarrow> iso_time option \<Rightarrow> int option" where
  "compareIso left right =
     (if \<not> truthy_iso left \<or> \<not> truthy_iso right then None
      else (case (Option.bind left date_parse, Option.bind right date_parse) of
              (Some a, Some b) \<Rightarrow> Some (a - b) | _ \<Rightarrow> None))"

definition settleServerStatus ::
  "queue_item option \<Rightarrow> queue_status \<Rightarrow> iso_time option \<Rightarrow> queue_status" where
  "settleServerStatus current incoming incomingUpdatedAt =
     (case current of
        None \<Rightarrow> if incoming = CancelPending then Queued else incoming
      | Some cur \<Rightarrow>
          if incoming = CancelPending
          then (if qi_status cur = Queued then CancelPending else qi_status cur)
          else if qi_status cur = CancelPending then incoming
          else if isChatQueueTerminalStatus (qi_status cur)
          then (if \<not> isChatQueueTerminalStatus incoming then qi_status cur
                else if qi_status cur = incoming then qi_status cur
                else if (case compareIso incomingUpdatedAt (qi_updatedAt cur) of None \<Rightarrow> 0 | Some d \<Rightarrow> d) > 0
                then incoming else qi_status cur)
          else if isChatQueueTerminalStatus incoming then incoming
          else if SERVER_PROGRESS_RANK incoming \<ge> SERVER_PROGRESS_RANK (qi_status cur) then incoming
          else qi_status cur)"

definition canonicalizeItem :: "item_patch \<Rightarrow> queue_item option \<Rightarrow> queue_item option" where
  "canonicalizeItem patch current =
     (let clientMsgId = nullish (al_clientMsgId (ip_aliases patch)) (map_option qi_clientMsgId current);
          runId = nullish (al_runId (ip_aliases patch))
                    (nullish (map_option qi_runId current) (al_sourceRunId (ip_aliases patch)));
          sourceRunId = nullish (al_sourceRunId (ip_aliases patch))
                          (nullish (map_option qi_sourceRunId current) runId) in
      if \<not> truthy clientMsgId \<or> \<not> truthy runId \<or> \<not> truthy sourceRunId then None
      else
        let status = settleServerStatus current (ip_status patch) (ip_updatedAt patch) in
        Some \<lparr>qi_sessionId = ip_sessionId patch,
              qi_clientMsgId = the clientMsgId,
              qi_runId = the runId,
              qi_sourceRunId = the sourceRunId,
              qi_deliveryMode = (case nullish (ip_deliveryMode patch) (map_option qi_deliveryMode current) of
                                   None \<Rightarrow> ModeQueue | Some m \<Rightarrow> m),
              qi_status = status,
              qi_queuePosition = nullish (ip_queuePosition patch) (Option.bind current qi_queuePosition),
              qi_targetRunId = nullish (ip_targetRunId patch) (Option.bind current qi_targetRunId),
              qi_content = nullish (ip_content patch) (Option.bind current qi_content),
              qi_attachments = nullish (ip_attachments patch) (Option.bind current qi_attachments),
              qi_acceptedAt = nullish (ip_acceptedAt patch) (Option.bind current qi_acceptedAt),
              qi_updatedAt =
                (if status \<noteq> ip_status patch \<and> truthy_iso (Option.bind current qi_updatedAt)
                 then Option.bind current qi_updatedAt
                 else nullish (ip_updatedAt patch) (Option.bind current qi_updatedAt)),
              qi_reason =
                (if status \<noteq> ip_status patch \<and> Option.bind current qi_reason \<noteq> None
                 then Option.bind current qi_reason
                 else nullish (ip_reason patch) (Option.bind current qi_reason)),
              qi_liveness =
                (let cur = (case current of None \<Rightarrow> JUndefined | Some c \<Rightarrow> qi_liveness c) in
                 if ip_liveness patch \<noteq> JUndefined \<or> cur \<noteq> JUndefined
                 then liveness_json (mergeRunLiveness cur (ip_liveness patch)) else JUndefined)\<rparr>)"

definition withServerUpsert :: "queue_state \<Rightarrow> item_patch \<Rightarrow> queue_state" where
  "withServerUpsert st patch =
     (if truthy (cq_sessionId st) \<and> Some (ip_sessionId patch) \<noteq> cq_sessionId st then st
      else
        let existingKey = findItemKey st (ip_aliases patch);
            current = (if truthy existingKey then Option.bind existingKey (cq_items st) else None) in
        case canonicalizeItem patch current of
          None \<Rightarrow> st
        | Some item \<Rightarrow>
            let key = qi_clientMsgId item;
                items = (if truthy existingKey \<and> existingKey \<noteq> Some key
                         then (cq_items st)(the existingKey := None) else cq_items st);
                order = (if truthy existingKey then rename_elem (the existingKey) key (cq_order st)
                         else cq_order st @ [key]) in
            st\<lparr>cq_sessionId := nullish (cq_sessionId st) (Some (qi_sessionId item)),
               cq_items := items(key \<mapsto> item),
               cq_order := keep_first order,
               cq_localIntents := (cq_localIntents st)(key := None)\<rparr>)"

text \<open>The loop of \<open>normalizeSnapshot\<close>, with the two sets of ids seen so far.\<close>

fun normalize_items :: "string \<Rightarrow> string set \<Rightarrow> string set \<Rightarrow> queue_item list \<Rightarrow> queue_item list" where
  "normalize_items sid seenClient seenRun [] = []"
| "normalize_items sid seenClient seenRun (raw # rest) =
     (if qi_sessionId raw \<noteq> sid then normalize_items sid seenClient seenRun rest
      else if qi_clientMsgId raw = [] \<or> qi_runId raw = [] \<or> qi_sourceRunId raw = []
      then normalize_items sid seenClient seenRun rest
      else if qi_clientMsgId raw \<in> seenClient \<or> qi_runId raw \<in> seenRun
      then normalize_items sid seenClient seenRun rest
      else raw\<lparr>qi_deliveryMode := (if qi_deliveryMode raw = ModeSteer then ModeSteer else ModeQueue),
               qi_status := (if qi_status raw = CancelPending then Queued else qi_status raw)\<rparr>
           # normalize_items sid (insert (qi_clientMsgId raw) seenClient) (insert (qi_runId raw) seenRun) rest)"

definition normalizeSnapshot :: "queue_snapshot \<Rightarrow> queue_snapshot" where
  "normalizeSnapshot s = s\<lparr>qs_items := normalize_items (qs_sessionId s) {} {} (qs_items s)\<rparr>"

definition hydrate_item :: "queue_state \<Rightarrow> queue_item \<Rightarrow> queue_item" where
  "hydrate_item st item =
     (case cq_items st (qi_clientMsgId item) of
        None \<Rightarrow> item
      | Some previous \<Rightarrow>
          if qi_runId previous = qi_runId item
          then item\<lparr>qi_liveness := liveness_json (mergeRunLiveness (qi_liveness previous) (qi_liveness item))\<rparr>
          else item)"

definition hydrateChatQueueSnapshot :: "queue_state \<Rightarrow> queue_snapshot \<Rightarrow> queue_state" where
  "hydrateChatQueueSnapshot st rawSnapshot =
     (let snapshot = normalizeSnapshot rawSnapshot;
          items = fold (\<lambda>item m. m(qi_clientMsgId item \<mapsto> hydrate_item st item)) (qs_items snapshot) Map.empty in
      \<lparr>cq_sessionId = Some (qs_sessionId snapshot),
       cq_items = items,
       cq_order = map qi_clientMsgId (qs_items snapshot),
       cq_localIntents =
         (\<lambda>k. case cq_localIntents st k of
                None \<Rightarrow> None
              | Some intent \<Rightarrow>
                  if items k = None \<and>
                     (\<not> truthy (li_sessionId intent) \<or> li_sessionId intent = Some (qs_sessionId snapshot))
                  then Some intent else None),
       cq_hydrated = True,
       cq_snapshotGeneratedAt = Some (qs_generatedAt snapshot)\<rparr>)"

text \<open>The spread \<open>{ ...current, ...patch, sessionId: current.sessionId }\<close> of \<open>patchByAliases\<close>.\<close>

definition spread_patch ::
  "queue_item \<Rightarrow> queue_status \<Rightarrow> string option \<Rightarrow> iso_time option \<Rightarrow> string option \<Rightarrow> item_patch" where
  "spread_patch cur status targetRunId updatedAt reason =
     \<lparr>ip_sessionId = qi_sessionId cur,
      ip_aliases = \<lparr>al_clientMsgId = Some (qi_clientMsgId cur), al_runId = Some (qi_runId cur),
                    al_sourceRunId = Some (qi_sourceRunId cur)\<rparr>,
      ip_deliveryMode = Some (qi_deliveryMode cur),
      ip_status = status,
      ip_queuePosition = qi_queuePosition cur,
      ip_targetRunId = or_str targetRunId (qi_targetRunId cur),
      ip_content = qi_content cur,
      ip_attachments = qi_attachments cur,
      ip_acceptedAt = qi_acceptedAt cur,
      ip_updatedAt = (if truthy_iso updatedAt then updatedAt else qi_updatedAt cur),
      ip_reason = or_str reason (qi_reason cur),
      ip_liveness = qi_liveness cur\<rparr>"

definition patchByAliases ::
  "queue_state \<Rightarrow> queue_aliases \<Rightarrow> queue_status \<Rightarrow> string option \<Rightarrow> iso_time option \<Rightarrow> string option
     \<Rightarrow> queue_state" where
  "patchByAliases st aliases status targetRunId updatedAt reason =
     (let key = findItemKey st aliases in
      if \<not> truthy key then st
      else case Option.bind key (cq_items st) of
             None \<Rightarrow> st
           | Some cur \<Rightarrow> withServerUpsert st (spread_patch cur status targetRunId updatedAt reason))"

definition nth_opt :: "'a list \<Rightarrow> nat \<Rightarrow> 'a option" where
  "nth_opt xs i = (if i < length xs then Some (xs ! i) else None)"

definition foreign_session :: "queue_state \<Rightarrow> string \<Rightarrow> bool" where
  "foreign_session st sid \<longleftrightarrow> truthy (cq_sessionId st) \<and> Some sid \<noteq> cq_sessionId st"

fun reduceChatQueueEvent :: "queue_state \<Rightarrow> queue_event \<Rightarrow> queue_state" where
  "reduceChatQueueEvent st (Snapshot s) = hydrateChatQueueSnapshot st s"
| "reduceChatQueueEvent st (ServerUpsert patch) = withServerUpsert st patch"
| "reduceChatQueueEvent st (ServerTerminal sid status aliases updatedAt reason) =
     (if foreign_session st sid then st
      else patchByAliases st aliases status None updatedAt reason)"
| "reduceChatQueueEvent st (Steered sid clientMsgIds sourceRunIds targetRunId updatedAt) =
     (if foreign_session st sid then st
      else fold (\<lambda>i next. patchByAliases next
                  \<lparr>al_clientMsgId = nth_opt clientMsgIds i, al_runId = None,
                   al_sourceRunId = nth_opt sourceRunIds i\<rparr> SteeredSt targetRunId updatedAt None)
             [0..<max (length clientMsgIds) (length sourceRunIds)] st)"
| "reduceChatQueueEvent st (CancelRequested sid aliases updatedAt) =
     (if foreign_session st sid then st
      else patchByAliases st aliases CancelPending None updatedAt None)"
| "reduceChatQueueEvent st (IntentAdded intent) =
     (if cq_items st (li_clientMsgId intent) \<noteq> None then st
      else if truthy (cq_sessionId st) \<and> truthy (li_sessionId intent) \<and> li_sessionId intent \<noteq> cq_sessionId st
      then st
      else st\<lparr>cq_localIntents := (cq_localIntents st)(li_clientMsgId intent \<mapsto> intent)\<rparr>)"
| "reduceChatQueueEvent st (IntentUpdated k s reason) =
     (case cq_localIntents st k of
        None \<Rightarrow> st
      | Some cur \<Rightarrow>
          st\<lparr>cq_localIntents := (cq_localIntents st)(k \<mapsto>
               cur\<lparr>li_state := s, li_reason := or_str reason (li_reason cur)\<rparr>)\<rparr>)"
| "reduceChatQueueEvent st (IntentRemoved k) =
     (if cq_localIntents st k = None then st
      else st\<lparr>cq_localIntents := (cq_localIntents st)(k := None)\<rparr>)"
| "reduceChatQueueEvent st (Reset sid) = createChatQueueState sid"

section \<open>Selectors\<close>

definition selectChatQueueItem :: "queue_state \<Rightarrow> queue_aliases \<Rightarrow> queue_item option" where
  "selectChatQueueItem st aliases =
     (let key = findItemKey st aliases in if truthy key then Option.bind key (cq_items st) else None)"

definition item_active :: "queue_item \<Rightarrow> bool" where
  "item_active i \<longleftrightarrow> \<not> isChatQueueTerminalStatus (qi_status i) \<and> qi_status i \<noteq> SteeredSt"

definition MAX_SAFE_INTEGER :: int where
  "MAX_SAFE_INTEGER = 9007199254740991"

definition item_position :: "queue_item \<Rightarrow> int" where
  "item_position i = (case qi_queuePosition i of None \<Rightarrow> MAX_SAFE_INTEGER | Some p \<Rightarrow> p)"

definition accepted_time :: "queue_item \<Rightarrow> int option" where
  "accepted_time i = Option.bind (qi_acceptedAt i) date_parse"

text \<open>The comparator; the last clause is 0 when one of the two times is \<open>NaN\<close>.\<close>

definition compare_items :: "queue_item \<Rightarrow> queue_item \<Rightarrow> int" where
  "compare_items l r =
     (if item_active l \<noteq> item_active r then (if item_active l then - 1 else 1)
      else if item_active l \<and> item_active r \<and> item_position l \<noteq> item_position r
      then item_position l - item_position r
      else (case (accepted_time l, accepted_time r) of (Some a, Some b) \<Rightarrow> a - b | _ \<Rightarrow> 0))"

definition selectChatQueueItems :: "queue_state \<Rightarrow> queue_item list" where
  "selectChatQueueItems st =
     js_sort (\<lambda>l r. compare_items l r \<le> 0) (List.map_filter (cq_items st) (cq_order st))"

definition selectPendingChatQueueItems :: "queue_state \<Rightarrow> queue_item list" where
  "selectPendingChatQueueItems st =
     filter (\<lambda>i. qi_status i = Queued \<or> qi_status i = CancelPending) (selectChatQueueItems st)"

definition selectCancellableChatQueueItems :: "queue_state \<Rightarrow> queue_item list" where
  "selectCancellableChatQueueItems st = filter (\<lambda>i. qi_status i = Queued) (selectChatQueueItems st)"

definition selectRunningChatQueueItem :: "queue_state \<Rightarrow> queue_item option" where
  "selectRunningChatQueueItem st = List.find (\<lambda>i. qi_status i = Running) (selectChatQueueItems st)"

definition selectChatQueueItemLiveness :: "queue_state \<Rightarrow> queue_aliases \<Rightarrow> run_liveness" where
  "selectChatQueueItemLiveness st aliases =
     normalizeRunLiveness (case selectChatQueueItem st aliases of None \<Rightarrow> JUndefined | Some i \<Rightarrow> qi_liveness i)"

definition selectChatQueueMessageStatus ::
  "queue_state \<Rightarrow> string \<Rightarrow> (queue_status + intent_state) option" where
  "selectChatQueueMessageStatus st k =
     nullish (map_option (Inl \<circ> qi_status) (cq_items st k))
             (map_option (Inr \<circ> li_state) (cq_localIntents st k))"

text \<open>\<open>keys\<close> is the enumeration order of the properties of \<open>localIntents\<close>.\<close>

definition selectChatQueueLocalIntents :: "string list \<Rightarrow> queue_state \<Rightarrow> local_intent list" where
  "selectChatQueueLocalIntents keys st =
     js_sort (\<lambda>l r. li_createdAt l - li_createdAt r \<le> 0) (List.map_filter (cq_localIntents st) keys)"

datatype message_status = MsgQueued | MsgSent | MsgFailed

fun chatQueueStatusToMessageStatus :: "queue_status \<Rightarrow> message_status" where
  "chatQueueStatusToMessageStatus Queued = MsgQueued"
| "chatQueueStatusToMessageStatus CancelPending = MsgQueued"
| "chatQueueStatusToMessageStatus Failed = MsgFailed"
| "chatQueueStatusToMessageStatus _ = MsgSent"

section \<open>The invariant of the projection\<close>

definition item_ok :: "string \<Rightarrow> queue_item \<Rightarrow> bool" where
  "item_ok k i \<longleftrightarrow> qi_clientMsgId i = k \<and> k \<noteq> [] \<and> qi_runId i \<noteq> [] \<and> qi_sourceRunId i \<noteq> []"

text \<open>
  The order lists every item exactly once, items sit under their own message id, no message is both a
  server item and a local intent, and a projection bound to a session holds items of that session only.
\<close>

definition queue_ok :: "queue_state \<Rightarrow> bool" where
  "queue_ok st \<longleftrightarrow>
     distinct (cq_order st) \<and> set (cq_order st) = dom (cq_items st) \<and>
     (\<forall>k i. cq_items st k = Some i \<longrightarrow> item_ok k i) \<and>
     (\<forall>k i. cq_localIntents st k = Some i \<longrightarrow> li_clientMsgId i = k \<and> cq_items st k = None) \<and>
     (cq_sessionId st = None \<longrightarrow> cq_order st = []) \<and>
     (truthy (cq_sessionId st) \<longrightarrow>
        (\<forall>k i. cq_items st k = Some i \<longrightarrow> Some (qi_sessionId i) = cq_sessionId st))"

lemma queue_okD:
  assumes "queue_ok st"
  shows "distinct (cq_order st)" "set (cq_order st) = dom (cq_items st)"
    "cq_items st k = Some i \<Longrightarrow> item_ok k i"
    "cq_localIntents st k = Some n \<Longrightarrow> li_clientMsgId n = k \<and> cq_items st k = None"
    "cq_sessionId st = None \<Longrightarrow> cq_order st = []"
    "truthy (cq_sessionId st) \<Longrightarrow> cq_items st k = Some i \<Longrightarrow> Some (qi_sessionId i) = cq_sessionId st"
  using assms unfolding queue_ok_def by blast+

lemma queue_ok_create [simp]: "queue_ok (createChatQueueState sid)"
  by (simp add: queue_ok_def createChatQueueState_def)

subsection \<open>Alias lookup\<close>

lemma findItemKey_Some:
  assumes ok: "queue_ok st" and "findItemKey st a = Some k"
  obtains cur where "cq_items st k = Some cur" and "item_ok k cur" and "alias_match a cur"
proof (cases "truthy (al_clientMsgId a) \<and> Option.bind (al_clientMsgId a) (cq_items st) \<noteq> None")
  case True
  then have k: "al_clientMsgId a = Some k" using assms(2) by (simp add: findItemKey_def)
  with True obtain cur where "cq_items st k = Some cur" by auto
  moreover from this have "item_ok k cur" using queue_okD(3) [OF ok] by blast
  ultimately show ?thesis using that k True by (auto simp: alias_match_def item_ok_def)
next
  case False
  then have "List.find (key_matches st a) (cq_order st) = Some k"
    using assms(2) by (simp only: findItemKey_def if_False split: if_splits)
  then have "key_matches st a k" by (auto dest: find_SomeD)
  then obtain cur where "cq_items st k = Some cur" "alias_match a cur"
    by (auto simp: key_matches_def split: option.splits)
  with that queue_okD(3) [OF ok] show ?thesis by blast
qed

lemma findItemKey_client:
  "al_clientMsgId a = Some c \<Longrightarrow> c \<noteq> [] \<Longrightarrow> cq_items st c = Some i \<Longrightarrow> findItemKey st a = Some c"
  by (simp add: findItemKey_def)

lemma canonicalizeItem_Some:
  assumes "canonicalizeItem patch current = Some item"
  shows "qi_sessionId item = ip_sessionId patch"
    "qi_status item = settleServerStatus current (ip_status patch) (ip_updatedAt patch)"
    "item_ok (qi_clientMsgId item) item"
    "Some (qi_clientMsgId item) = nullish (al_clientMsgId (ip_aliases patch)) (map_option qi_clientMsgId current)"
  using assms by (auto simp: canonicalizeItem_def Let_def item_ok_def elim!: truthyE split: if_splits)

subsection \<open>The two ways an upsert changes the projection\<close>

definition put_item :: "queue_state \<Rightarrow> queue_item \<Rightarrow> queue_state" where
  "put_item st item =
     st\<lparr>cq_sessionId := nullish (cq_sessionId st) (Some (qi_sessionId item)),
        cq_items := (cq_items st)(qi_clientMsgId item \<mapsto> item),
        cq_order := cq_order st @ [qi_clientMsgId item],
        cq_localIntents := (cq_localIntents st)(qi_clientMsgId item := None)\<rparr>"

definition replace_item :: "queue_state \<Rightarrow> string \<Rightarrow> queue_item \<Rightarrow> queue_state" where
  "replace_item st k item =
     st\<lparr>cq_sessionId := nullish (cq_sessionId st) (Some (qi_sessionId item)),
        cq_items := (cq_items st)(k := None, qi_clientMsgId item \<mapsto> item),
        cq_order := rename_elem k (qi_clientMsgId item) (cq_order st),
        cq_localIntents := (cq_localIntents st)(qi_clientMsgId item := None)\<rparr>"

lemma upsert_cases:
  assumes ok: "queue_ok st"
  obtains (Same) "withServerUpsert st patch = st"
  | (Put) item where "\<not> foreign_session st (ip_sessionId patch)"
      and "findItemKey st (ip_aliases patch) = None"
      and "canonicalizeItem patch None = Some item"
      and "qi_clientMsgId item \<notin> dom (cq_items st)"
      and "withServerUpsert st patch = put_item st item"
  | (Replace) k cur item where "\<not> foreign_session st (ip_sessionId patch)"
      and "findItemKey st (ip_aliases patch) = Some k"
      and "cq_items st k = Some cur"
      and "canonicalizeItem patch (Some cur) = Some item"
      and "qi_clientMsgId item = k \<or> qi_clientMsgId item \<notin> dom (cq_items st)"
      and "withServerUpsert st patch = replace_item st k item"
proof (cases "foreign_session st (ip_sessionId patch)")
  case True
  then have "withServerUpsert st patch = st"
    by (simp add: withServerUpsert_def foreign_session_def)
  then show ?thesis by (rule Same)
next
  case False
  note upsert = withServerUpsert_def [of st patch, folded foreign_session_def]
  note ordered = queue_okD(1,2) [OF ok]
  show ?thesis
  proof (cases "findItemKey st (ip_aliases patch)")
    case None
    show ?thesis
    proof (cases "canonicalizeItem patch None")
      case (Some item)
      have fresh: "qi_clientMsgId item \<notin> dom (cq_items st)"
        using canonicalizeItem_Some(3,4) [OF Some] None
          findItemKey_client [of "ip_aliases patch" "qi_clientMsgId item" st]
        by (auto simp: item_ok_def)
      then have "withServerUpsert st patch = put_item st item"
        using False None Some ordered unfolding upsert by (simp add: put_item_def Let_def)
      with Put [OF False None Some fresh] show ?thesis by simp
    qed (use False None Same upsert in simp)
  next
    case (Some k)
    obtain cur where cur: "cq_items st k = Some cur" "item_ok k cur"
      using findItemKey_Some [OF ok Some] by blast
    then have k: "k \<noteq> []" "qi_clientMsgId cur = k" "k \<in> set (cq_order st)"
      using ordered by (auto simp: item_ok_def)
    show ?thesis
    proof (cases "canonicalizeItem patch (Some cur)")
      case None
      then show ?thesis using False Some cur k Same upsert by simp
    next
      case item: (Some item)
      have key: "qi_clientMsgId item = k \<or> qi_clientMsgId item \<notin> dom (cq_items st)"
        using canonicalizeItem_Some(3,4) [OF item] Some findItemKey_client [of "ip_aliases patch"] k(2)
        by (cases "al_clientMsgId (ip_aliases patch)") (fastforce simp: item_ok_def)+
      then have "distinct (rename_elem k (qi_clientMsgId item) (cq_order st))"
        using ordered by (intro distinct_rename_elem) auto
      moreover have "(if k \<noteq> qi_clientMsgId item then (cq_items st)(k := None) else cq_items st)
          (qi_clientMsgId item \<mapsto> item) = (cq_items st)(k := None, qi_clientMsgId item \<mapsto> item)"
        by auto
      ultimately have "withServerUpsert st patch = replace_item st k item"
        using False Some item cur k(1) unfolding upsert by (simp add: replace_item_def Let_def)
      with Replace [OF False Some cur(1) item key] show ?thesis by simp
    qed
  qed
qed

lemma queue_ok_put:
  assumes ok: "queue_ok st" and "\<not> foreign_session st (qi_sessionId item)"
    and "item_ok (qi_clientMsgId item) item" and "qi_clientMsgId item \<notin> dom (cq_items st)"
  shows "queue_ok (put_item st item)"
proof -
  have empty: "cq_items st = Map.empty" if "cq_sessionId st = None"
    using queue_okD(2,5) [OF ok] that by auto
  show ?thesis
    using assms empty unfolding queue_ok_def put_item_def
    by (cases "cq_sessionId st") (auto simp: foreign_session_def)
qed

lemma queue_ok_replace:
  assumes ok: "queue_ok st" and "\<not> foreign_session st (qi_sessionId item)"
    and "item_ok (qi_clientMsgId item) item" and k: "k \<in> dom (cq_items st)"
    and key: "qi_clientMsgId item = k \<or> qi_clientMsgId item \<notin> dom (cq_items st)"
  shows "queue_ok (replace_item st k item)"
proof -
  note ordered = queue_okD(1,2) [OF ok]
  have dist: "distinct (rename_elem k (qi_clientMsgId item) (cq_order st))"
    using key ordered by (intro distinct_rename_elem) auto
  have setr: "set (rename_elem k (qi_clientMsgId item) (cq_order st)) =
      insert (qi_clientMsgId item) (dom (cq_items st) - {k})"
    using k ordered by (simp add: set_rename_elem)
  have sid: "cq_sessionId st \<noteq> None"
  proof
    assume "cq_sessionId st = None"
    with queue_okD(5) [OF ok] ordered k show False by simp
  qed
  show ?thesis
    using assms dist setr sid unfolding queue_ok_def replace_item_def
    by (auto simp: foreign_session_def)
qed

lemma queue_ok_upsert:
  assumes ok: "queue_ok st"
  shows "queue_ok (withServerUpsert st patch)"
  using ok
proof (cases rule: upsert_cases [where patch = patch])
  case Same
  with ok show ?thesis by simp
next
  case (Put item)
  with ok show ?thesis using canonicalizeItem_Some [OF Put(3)] by (simp add: queue_ok_put)
next
  case (Replace k cur item)
  then have "k \<in> dom (cq_items st)" by auto
  with Replace ok show ?thesis using canonicalizeItem_Some [OF Replace(4)] by (simp add: queue_ok_replace)
qed

lemma queue_ok_patch:
  assumes "queue_ok st"
  shows "queue_ok (patchByAliases st a status tgt upd reason)"
  using assms by (auto simp: patchByAliases_def Let_def queue_ok_upsert split: option.split)

lemma fold_invariant:
  "P st \<Longrightarrow> (\<And>i s. P s \<Longrightarrow> P (f i s)) \<Longrightarrow> P (fold f is st)"
  by (induction "is" arbitrary: st) auto

subsection \<open>Snapshots\<close>

lemma normalize_items_ok:
  "i \<in> set (normalize_items sid C R raw) \<Longrightarrow>
     item_ok (qi_clientMsgId i) i \<and> qi_sessionId i = sid \<and> qi_status i \<noteq> CancelPending \<and>
     qi_clientMsgId i \<notin> C \<and> qi_runId i \<notin> R"
  by (induction sid C R raw rule: normalize_items.induct) (auto simp: item_ok_def split: if_splits)

lemma normalize_items_distinct: "distinct (map qi_clientMsgId (normalize_items sid C R raw))"
  by (induction sid C R raw rule: normalize_items.induct) (auto dest: normalize_items_ok)

lemma hydrate_items:
  assumes "item \<in> set (qs_items (normalizeSnapshot s))"
  shows "cq_items (hydrateChatQueueSnapshot st s) (qi_clientMsgId item) = Some (hydrate_item st item)"
  using assms unfolding hydrateChatQueueSnapshot_def Let_def
  by (simp add: normalizeSnapshot_def fold_put_member normalize_items_distinct)

lemma hydrate_dom:
  "dom (cq_items (hydrateChatQueueSnapshot st s)) = qi_clientMsgId ` set (qs_items (normalizeSnapshot s))"
  by (simp add: hydrateChatQueueSnapshot_def Let_def dom_fold_put)

lemma hydrate_item_fields [simp]:
  "qi_clientMsgId (hydrate_item st i) = qi_clientMsgId i"
  "qi_sessionId (hydrate_item st i) = qi_sessionId i"
  "qi_status (hydrate_item st i) = qi_status i"
  "item_ok k (hydrate_item st i) = item_ok k i"
  "(hydrate_item st i)\<lparr>qi_liveness := v\<rparr> = i\<lparr>qi_liveness := v\<rparr>"
  by (auto simp: hydrate_item_def item_ok_def split: option.splits)

lemma hydrate_cases:
  assumes "cq_items (hydrateChatQueueSnapshot st s) k = Some i"
  obtains item where "item \<in> set (qs_items (normalizeSnapshot s))" and "qi_clientMsgId item = k"
    and "i = hydrate_item st item"
proof -
  have "k \<in> dom (cq_items (hydrateChatQueueSnapshot st s))" using assms by auto
  then obtain item where item: "item \<in> set (qs_items (normalizeSnapshot s))" "qi_clientMsgId item = k"
    unfolding hydrate_dom by auto
  with assms hydrate_items [OF item(1)] that show ?thesis by auto
qed

lemma hydrate_intents:
  "cq_localIntents (hydrateChatQueueSnapshot st s) k = Some n \<Longrightarrow>
   cq_localIntents st k = Some n \<and> cq_items (hydrateChatQueueSnapshot st s) k = None"
  by (auto simp: hydrateChatQueueSnapshot_def Let_def split: option.splits if_splits)

lemma queue_ok_hydrate:
  assumes ok: "queue_ok st"
  shows "queue_ok (hydrateChatQueueSnapshot st s)"
proof -
  let ?st = "hydrateChatQueueSnapshot st s"
  have order: "cq_order ?st = map qi_clientMsgId (qs_items (normalizeSnapshot s))"
    and sid: "cq_sessionId ?st = Some (qs_sessionId s)"
    by (simp_all add: hydrateChatQueueSnapshot_def Let_def normalizeSnapshot_def)
  have item: "item_ok k i \<and> qi_sessionId i = qs_sessionId s" if "cq_items ?st k = Some i" for k i
    using that by (cases rule: hydrate_cases)
      (auto simp: normalizeSnapshot_def dest: normalize_items_ok)
  have "distinct (cq_order ?st)" "set (cq_order ?st) = dom (cq_items ?st)"
    unfolding order hydrate_dom by (simp_all add: normalizeSnapshot_def normalize_items_distinct)
  moreover have "li_clientMsgId n = k \<and> cq_items ?st k = None" if "cq_localIntents ?st k = Some n" for k n
    using hydrate_intents [OF that] queue_okD(4) [OF ok] by blast
  ultimately show ?thesis using item sid unfolding queue_ok_def by simp
qed

lemma queue_ok_intents:
  "queue_ok st \<Longrightarrow> (\<And>k i. m k = Some i \<Longrightarrow> li_clientMsgId i = k \<and> cq_items st k = None) \<Longrightarrow>
   queue_ok (st\<lparr>cq_localIntents := m\<rparr>)"
  by (simp add: queue_ok_def)

theorem queue_ok_step:
  assumes ok: "queue_ok st"
  shows "queue_ok (reduceChatQueueEvent st e)"
proof (cases e)
  case (IntentAdded n)
  with ok show ?thesis by (auto intro!: queue_ok_intents simp: queue_okD(4) split: if_splits)
next
  case (IntentUpdated k s r)
  with ok show ?thesis
    by (auto intro!: queue_ok_intents simp: queue_okD(4) split: option.split if_splits)
next
  case (IntentRemoved k)
  with ok show ?thesis by (auto intro!: queue_ok_intents simp: queue_okD(4) split: if_splits)
next
  case (Steered sid cs rs tgt upd)
  with ok show ?thesis by (auto intro!: fold_invariant [where P = queue_ok] simp: queue_ok_patch)
qed (use ok in \<open>simp_all add: queue_ok_hydrate queue_ok_upsert queue_ok_patch\<close>)

section \<open>Progress of the items\<close>

text \<open>
  An item keeps its place in the order for as long as no snapshot replaces the projection, even when
  its message id is learnt late, so that the place identifies the item. The rank of a place is 0 while
  it is free and one more than the progress rank of its item afterwards.
\<close>

definition place_status :: "queue_state \<Rightarrow> nat \<Rightarrow> queue_status option" where
  "place_status st n = Option.bind (nth_opt (cq_order st) n) (\<lambda>k. map_option qi_status (cq_items st k))"

definition place_rank :: "nat \<Rightarrow> queue_state \<Rightarrow> nat" where
  "place_rank n st = (case place_status st n of None \<Rightarrow> 0 | Some s \<Rightarrow> Suc (SERVER_PROGRESS_RANK s))"

fun live_event :: "queue_event \<Rightarrow> bool" where
  "live_event (Snapshot s) = False"
| "live_event (Reset s) = False"
| "live_event _ = True"

lemma settle_rank:
  "SERVER_PROGRESS_RANK (qi_status cur) \<le> SERVER_PROGRESS_RANK (settleServerStatus (Some cur) s u)"
  by (cases "qi_status cur"; cases s) (auto simp: settleServerStatus_def)

lemma terminal_rank: "isChatQueueTerminalStatus s \<longleftrightarrow> SERVER_PROGRESS_RANK s = 3"
  by (cases s) auto

lemma place_rank_put:
  assumes "queue_ok st" and "qi_clientMsgId item \<notin> dom (cq_items st)"
  shows "place_rank n st \<le> place_rank n (put_item st item)"
proof (cases "n < length (cq_order st)")
  case True
  then have "cq_order st ! n \<noteq> qi_clientMsgId item"
    using assms queue_okD(2) [OF assms(1)] nth_mem by fastforce
  with True show ?thesis
    by (simp add: place_rank_def place_status_def nth_opt_def put_item_def nth_append)
qed (simp add: place_rank_def place_status_def nth_opt_def)

lemma place_rank_replace:
  assumes "queue_ok st" and cur: "cq_items st k = Some cur"
    and key: "qi_clientMsgId item = k \<or> qi_clientMsgId item \<notin> dom (cq_items st)"
    and rank: "SERVER_PROGRESS_RANK (qi_status cur) \<le> SERVER_PROGRESS_RANK (qi_status item)"
  shows "place_rank n st \<le> place_rank n (replace_item st k item)"
proof (cases "n < length (cq_order st)")
  case True
  have mem: "cq_order st ! n \<in> dom (cq_items st)"
    using True queue_okD(2) [OF assms(1)] nth_mem by blast
  show ?thesis
  proof (cases "cq_order st ! n = k")
    case True
    with \<open>n < length (cq_order st)\<close> cur rank show ?thesis
      by (simp add: place_rank_def place_status_def nth_opt_def replace_item_def rename_elem_def)
  next
    case False
    with mem key have "cq_order st ! n \<noteq> qi_clientMsgId item" by auto
    with False True show ?thesis
      by (simp add: place_rank_def place_status_def nth_opt_def replace_item_def rename_elem_def)
  qed
qed (simp add: place_rank_def place_status_def nth_opt_def)

lemma place_rank_upsert:
  assumes ok: "queue_ok st"
  shows "place_rank n st \<le> place_rank n (withServerUpsert st patch)"
  using ok
proof (cases rule: upsert_cases [where patch = patch])
  case (Put item)
  with place_rank_put [OF ok] show ?thesis by simp
next
  case (Replace k cur item)
  have "SERVER_PROGRESS_RANK (qi_status cur) \<le> SERVER_PROGRESS_RANK (qi_status item)"
    using canonicalizeItem_Some(2) [OF Replace(4)] by (simp add: settle_rank)
  with Replace place_rank_replace [OF ok Replace(3,5)] show ?thesis by simp
qed simp

lemma place_rank_patch:
  assumes "queue_ok st"
  shows "place_rank n st \<le> place_rank n (patchByAliases st a status tgt upd reason)"
  using assms by (auto simp: patchByAliases_def Let_def place_rank_upsert split: option.split)

lemma place_rank_step:
  assumes ok: "queue_ok st" and "live_event e"
  shows "place_rank n st \<le> place_rank n (reduceChatQueueEvent st e)"
proof (cases e)
  case (Steered sid cs rs tgt upd)
  let ?P = "\<lambda>s. queue_ok s \<and> place_rank n st \<le> place_rank n s"
  have "?P (fold (\<lambda>i next. patchByAliases next (a i) SteeredSt tgt upd None) is st)" for a "is"
    using ok by (intro fold_invariant [where P = ?P]) (auto simp: queue_ok_patch intro: order_trans place_rank_patch)
  from this [of "\<lambda>i. \<lparr>al_clientMsgId = nth_opt cs i, al_runId = None, al_sourceRunId = nth_opt rs i\<rparr>"] Steered
  show ?thesis by simp
next
  case (IntentUpdated k s r)
  then show ?thesis by (auto simp: place_rank_def place_status_def split: option.split)
qed (use assms in \<open>auto simp: place_rank_upsert place_rank_patch\<close>,
     auto simp: place_rank_def place_status_def)

definition absorb_live :: "queue_state \<Rightarrow> queue_event \<Rightarrow> queue_state" where
  "absorb_live st e = (if live_event e then reduceChatQueueEvent st e else st)"

interpretation queue_progress: monotone_projection queue_ok "place_rank n" absorb_live for n
  by unfold_locales (simp_all add: absorb_live_def queue_ok_step place_rank_step)

lemma absorb_live_stream:
  "list_all live_event es \<Longrightarrow> foldl absorb_live st es = foldl reduceChatQueueEvent st es"
  by (induction es arbitrary: st) (simp_all add: absorb_live_def)

section \<open>Duplicate delivery\<close>

lemma merge_absorb: "mergeRunLiveness (liveness_json (mergeRunLiveness a b)) b = mergeRunLiveness a b"
proof -
  have "normalizeRunLiveness (liveness_json (mergeRunLiveness a b)) = mergeRunLiveness a b"
    by (simp add: normalize_liveness_json canonical_merge)
  then show ?thesis by (auto simp: mergeRunLiveness_def [of "liveness_json x" for x] Let_def)
    (auto simp: mergeRunLiveness_def Let_def split: if_splits)
qed

lemma settle_again:
  assumes "qi_status item = settleServerStatus current s u" and "s \<noteq> CancelPending"
    and "qi_status item \<noteq> s \<Longrightarrow> truthy_iso (Option.bind current qi_updatedAt) \<Longrightarrow>
           qi_updatedAt item = Option.bind current qi_updatedAt"
    and "qi_status item \<noteq> s \<Longrightarrow> \<not> truthy_iso (Option.bind current qi_updatedAt) \<Longrightarrow>
           qi_updatedAt item = nullish u (Option.bind current qi_updatedAt)"
  shows "settleServerStatus (Some item) s u = qi_status item"
  using assms
  by (cases current; cases u; cases "qi_status item = s"; cases s)
    (auto simp: settleServerStatus_def compareIso_def split: if_splits option.splits)

lemma liveness_json_defined [simp]: "liveness_json l \<noteq> JUndefined"
  by (simp add: liveness_json_def)

lemma if_None_Some: "(if b then None else Some x) = Some y \<longleftrightarrow> \<not> b \<and> x = y"
  by simp

lemma canonicalizeItem_fields:
  assumes "canonicalizeItem patch current = Some item"
  shows "Some (qi_runId item) = nullish (al_runId (ip_aliases patch))
      (nullish (map_option qi_runId current) (al_sourceRunId (ip_aliases patch)))"
    "Some (qi_sourceRunId item) = nullish (al_sourceRunId (ip_aliases patch))
      (nullish (map_option qi_sourceRunId current) (Some (qi_runId item)))"
    "qi_deliveryMode item = (case nullish (ip_deliveryMode patch) (map_option qi_deliveryMode current) of
       None \<Rightarrow> ModeQueue | Some m \<Rightarrow> m)"
    "qi_queuePosition item = nullish (ip_queuePosition patch) (Option.bind current qi_queuePosition)"
    "qi_targetRunId item = nullish (ip_targetRunId patch) (Option.bind current qi_targetRunId)"
    "qi_content item = nullish (ip_content patch) (Option.bind current qi_content)"
    "qi_attachments item = nullish (ip_attachments patch) (Option.bind current qi_attachments)"
    "qi_acceptedAt item = nullish (ip_acceptedAt patch) (Option.bind current qi_acceptedAt)"
    "qi_updatedAt item =
       (if qi_status item \<noteq> ip_status patch \<and> truthy_iso (Option.bind current qi_updatedAt)
        then Option.bind current qi_updatedAt
        else nullish (ip_updatedAt patch) (Option.bind current qi_updatedAt))"
    "qi_reason item =
       (if qi_status item \<noteq> ip_status patch \<and> Option.bind current qi_reason \<noteq> None
        then Option.bind current qi_reason
        else nullish (ip_reason patch) (Option.bind current qi_reason))"
    "qi_liveness item =
       (let cur = (case current of None \<Rightarrow> JUndefined | Some c \<Rightarrow> qi_liveness c) in
        if ip_liveness patch \<noteq> JUndefined \<or> cur \<noteq> JUndefined
        then liveness_json (mergeRunLiveness cur (ip_liveness patch)) else JUndefined)"
  using assms unfolding canonicalizeItem_def Let_def if_None_Some
  by (auto elim!: truthyE)

lemma canonicalize_again:
  assumes can: "canonicalizeItem patch current = Some item" and "ip_status patch \<noteq> CancelPending"
  shows "canonicalizeItem patch (Some item) = Some item"
proof -
  note item = canonicalizeItem_fields [OF can]
  have status: "settleServerStatus (Some item) (ip_status patch) (ip_updatedAt patch) = qi_status item"
    by (rule settle_again [OF canonicalizeItem_Some(2) [OF can] assms(2)]) (simp_all add: item(9))
  have live: "(if ip_liveness patch \<noteq> JUndefined \<or> qi_liveness item \<noteq> JUndefined
      then liveness_json (mergeRunLiveness (qi_liveness item) (ip_liveness patch)) else JUndefined) =
      qi_liveness item"
    unfolding item(11) Let_def by (auto simp: merge_absorb)
  have nn: "nullish a (nullish a b) = nullish a b" for a b :: "'x option"
    by (cases a) auto
  have ids: "nullish (al_clientMsgId (ip_aliases patch)) (Some (qi_clientMsgId item)) = Some (qi_clientMsgId item)"
    "nullish (al_runId (ip_aliases patch)) (Some (qi_runId item)) = Some (qi_runId item)"
    "nullish (al_sourceRunId (ip_aliases patch)) (Some (qi_sourceRunId item)) = Some (qi_sourceRunId item)"
    unfolding canonicalizeItem_Some(4) [OF can] item(1,2) by (simp_all add: nn)
  have mode: "(case nullish (ip_deliveryMode patch) (Some (qi_deliveryMode item)) of None \<Rightarrow> ModeQueue | Some m \<Rightarrow> m) =
      qi_deliveryMode item"
    unfolding item(3) by (cases "ip_deliveryMode patch") simp_all
  have opts: "nullish (ip_queuePosition patch) (qi_queuePosition item) = qi_queuePosition item"
    "nullish (ip_targetRunId patch) (qi_targetRunId item) = qi_targetRunId item"
    "nullish (ip_content patch) (qi_content item) = qi_content item"
    "nullish (ip_attachments patch) (qi_attachments item) = qi_attachments item"
    "nullish (ip_acceptedAt patch) (qi_acceptedAt item) = qi_acceptedAt item"
    unfolding item(4-8) by (simp_all add: nn)
  have upd: "(if qi_status item \<noteq> ip_status patch \<and> truthy_iso (qi_updatedAt item) then qi_updatedAt item
       else nullish (ip_updatedAt patch) (qi_updatedAt item)) = qi_updatedAt item"
    unfolding item(9) by (simp add: nn)
  have rsn: "(if qi_status item \<noteq> ip_status patch \<and> qi_reason item \<noteq> None then qi_reason item
       else nullish (ip_reason patch) (qi_reason item)) = qi_reason item"
    unfolding item(10) by (auto simp: nn)
  have sess: "ip_sessionId patch = qi_sessionId item" using canonicalizeItem_Some(1) [OF can] by simp
  have ok: "qi_clientMsgId item \<noteq> []" "qi_runId item \<noteq> []" "qi_sourceRunId item \<noteq> []"
    using canonicalizeItem_Some(3) [OF can] by (simp_all add: item_ok_def)
  show ?thesis
    unfolding canonicalizeItem_def Let_def status
    unfolding option.map option.case bind.bind_lunit mode opts upd rsn live sess by (simp add: ok ids)
qed

lemma find_after_replace:
  assumes ok: "queue_ok st" and find: "findItemKey st (ip_aliases patch) = Some k"
    and cur: "cq_items st k = Some cur" and can: "canonicalizeItem patch (Some cur) = Some item"
    and key: "qi_clientMsgId item = k \<or> qi_clientMsgId item \<notin> dom (cq_items st)"
  shows "findItemKey (replace_item st k item) (ip_aliases patch) = Some (qi_clientMsgId item)"
proof (cases "al_clientMsgId (ip_aliases patch)")
  case (Some c)
  with canonicalizeItem_Some(3,4) [OF can] have "c = qi_clientMsgId item" "c \<noteq> []"
    by (auto simp: item_ok_def)
  with Some show ?thesis by (simp add: findItemKey_def replace_item_def)
next
  case None
  have k: "qi_clientMsgId item = k"
    using None canonicalizeItem_Some(4) [OF can] queue_okD(3) [OF ok cur] by (simp add: item_ok_def)
  have "alias_match (ip_aliases patch) cur" using findItemKey_Some [OF ok find] cur by auto
  with can have match: "alias_match (ip_aliases patch) item"
    by (auto simp: alias_match_def canonicalizeItem_def Let_def None elim!: truthyE split: if_splits)
  have "List.find (key_matches (replace_item st k item) (ip_aliases patch)) (cq_order st) = Some k"
  proof (rule find_same_first)
    show "List.find (key_matches st (ip_aliases patch)) (cq_order st) = Some k"
      using find None by (simp add: findItemKey_def)
  qed (use match k in \<open>simp_all add: key_matches_def replace_item_def\<close>)
  with None k show ?thesis by (simp add: findItemKey_def replace_item_def)
qed

lemma upsert_settled:
  assumes ok: "queue_ok st" and item: "cq_items st (qi_clientMsgId item) = Some item"
    and "\<not> foreign_session st (ip_sessionId patch)"
    and "findItemKey st (ip_aliases patch) = Some (qi_clientMsgId item)"
    and "canonicalizeItem patch (Some item) = Some item"
  shows "withServerUpsert st patch = st"
proof -
  have "cq_localIntents st (qi_clientMsgId item) = None"
    using queue_okD(4) [OF ok] item by (metis option.distinct(1) option.exhaust)
  moreover have "cq_sessionId st \<noteq> None"
    using queue_okD(2,5) [OF ok] item by (metis domIff empty_iff list.set(1) option.distinct(1))
  moreover have "qi_clientMsgId item \<noteq> []" using queue_okD(3) [OF ok item] by (simp add: item_ok_def)
  ultimately show ?thesis
    using assms queue_okD(1) [OF ok]
    by (auto simp: withServerUpsert_def foreign_session_def Let_def fun_upd_idem)
qed

section \<open>Properties\<close>

text \<open>C10. Whatever snapshots, live events, local intents and resets the client reduces, and in
  whatever order, the projection keeps its invariant: the order lists every server item exactly once,
  items sit under their own non-empty ids, a message is never both an item and a local intent, and a
  projection bound to a session only ever holds items of that session.\<close>

theorem queue_invariant: "queue_ok (foldl reduceChatQueueEvent (createChatQueueState sid) es)"
proof -
  have "queue_ok st \<Longrightarrow> queue_ok (foldl reduceChatQueueEvent st es)" for st
    by (induction es arbitrary: st) (simp_all add: queue_ok_step)
  then show ?thesis by simp
qed

text \<open>Between snapshots no item is lost and none moves backwards: at every place of the order
  the progress rank of the item only grows, over any stream of duplicated or reordered live events,
  and an item that reached a terminal status stays in a terminal status.\<close>

theorem queue_progress:
  assumes "queue_ok st" and "list_all live_event es"
  shows "place_rank n st \<le> place_rank n (foldl reduceChatQueueEvent st es) \<and>
         (\<forall>s. place_status st n = Some s \<and> isChatQueueTerminalStatus s \<longrightarrow>
            (\<exists>s'. place_status (foldl reduceChatQueueEvent st es) n = Some s' \<and> isChatQueueTerminalStatus s'))"
proof -
  have mono: "place_rank n st \<le> place_rank n (foldl reduceChatQueueEvent st es)"
    using queue_progress.stream_mono [OF assms(1), of n es] by (simp add: absorb_live_stream assms(2))
  have le3: "SERVER_PROGRESS_RANK s \<le> 3" for s by (cases s) auto
  show ?thesis
    using mono le3 by (auto simp: place_rank_def terminal_rank split: option.splits)
      (metis le_antisym)
qed

definition demo_item :: "string \<Rightarrow> queue_status \<Rightarrow> item_patch" where
  "demo_item m s =
     \<lparr>ip_sessionId = ''s1'', ip_aliases = \<lparr>al_clientMsgId = Some m, al_runId = Some ''r1'', al_sourceRunId = None\<rparr>,
      ip_deliveryMode = None, ip_status = s, ip_queuePosition = Some 1, ip_targetRunId = None,
      ip_content = Some ''hi'', ip_attachments = None, ip_acceptedAt = Some (Iso 5), ip_updatedAt = None,
      ip_reason = None, ip_liveness = JUndefined\<rparr>"

lemma queue_progress_witness:
  "place_rank 0 (createChatQueueState (Some ''s1'')) \<le>
   place_rank 0 (foldl reduceChatQueueEvent (createChatQueueState (Some ''s1''))
     [ServerUpsert (demo_item ''m1'' Completed), ServerUpsert (demo_item ''m1'' Running)])"
  using queue_progress [of "createChatQueueState (Some ''s1'')"
      "[ServerUpsert (demo_item ''m1'' Completed), ServerUpsert (demo_item ''m1'' Running)]" 0]
  by simp

text \<open>Duplicate delivery of a server state is harmless: reducing the same server update a second
  time changes nothing at all, whether it created, advanced or renamed an item, was stale or was
  rejected.\<close>

theorem upsert_idempotent:
  assumes ok: "queue_ok st" and "ip_status patch \<noteq> CancelPending"
  shows "reduceChatQueueEvent (reduceChatQueueEvent st (ServerUpsert patch)) (ServerUpsert patch) =
         reduceChatQueueEvent st (ServerUpsert patch)"
  using ok
proof (cases rule: upsert_cases [where patch = patch])
  case (Put item)
  have "withServerUpsert (put_item st item) patch = put_item st item"
  proof (rule upsert_settled)
    show "queue_ok (put_item st item)" using queue_ok_upsert [OF ok, of patch] Put by simp
    show "\<not> foreign_session (put_item st item) (ip_sessionId patch)"
      using Put(1) canonicalizeItem_Some(1) [OF Put(3)]
      by (cases "cq_sessionId st") (auto simp: foreign_session_def put_item_def)
    show "findItemKey (put_item st item) (ip_aliases patch) = Some (qi_clientMsgId item)"
      using canonicalizeItem_Some(3,4) [OF Put(3)]
      by (intro findItemKey_client) (auto simp: put_item_def item_ok_def)
  qed (use Put canonicalize_again assms in \<open>auto simp: put_item_def\<close>)
  with Put show ?thesis by simp
next
  case (Replace k cur item)
  have "withServerUpsert (replace_item st k item) patch = replace_item st k item"
  proof (rule upsert_settled)
    show "queue_ok (replace_item st k item)" using queue_ok_upsert [OF ok, of patch] Replace by simp
    show "\<not> foreign_session (replace_item st k item) (ip_sessionId patch)"
      using Replace(1) canonicalizeItem_Some(1) [OF Replace(4)]
      by (cases "cq_sessionId st") (auto simp: foreign_session_def replace_item_def)
  qed (use Replace canonicalize_again find_after_replace [OF ok] assms in \<open>auto simp: replace_item_def\<close>)
  with Replace show ?thesis by simp
qed simp

lemma upsert_idempotent_witness:
  "reduceChatQueueEvent (reduceChatQueueEvent (createChatQueueState None) (ServerUpsert (demo_item ''m1'' Running)))
     (ServerUpsert (demo_item ''m1'' Running)) =
   reduceChatQueueEvent (createChatQueueState None) (ServerUpsert (demo_item ''m1'' Running))"
  using upsert_idempotent [of "createChatQueueState None" "demo_item ''m1'' Running"]
  by (simp add: demo_item_def)

text \<open>A snapshot is the final authority: after it the session, the order and every item but its
  liveness are functions of the snapshot alone, no item is merely pending cancellation, an item's
  liveness for a run already projected does not move backwards, and the local intents that remain were
  there before and are for messages the snapshot does not hold.\<close>

theorem snapshot_authoritative:
  "let st' = reduceChatQueueEvent st (Snapshot s); items = qs_items (normalizeSnapshot s) in
     cq_sessionId st' = Some (qs_sessionId s) \<and>
     cq_order st' = map qi_clientMsgId items \<and>
     dom (cq_items st') = qi_clientMsgId ` set items \<and>
     (\<forall>i\<in>set items. qi_status i \<noteq> CancelPending \<and>
        (\<exists>i'. cq_items st' (qi_clientMsgId i) = Some i' \<and> i'\<lparr>qi_liveness := v\<rparr> = i\<lparr>qi_liveness := v\<rparr> \<and>
           (\<forall>p. cq_items st (qi_clientMsgId i) = Some p \<and> qi_runId p = qi_runId i \<longrightarrow>
              state_rank (rl_state (normalizeRunLiveness (qi_liveness p)))
                \<le> state_rank (rl_state (normalizeRunLiveness (qi_liveness i')))))) \<and>
     (\<forall>k n. cq_localIntents st' k = Some n \<longrightarrow> cq_localIntents st k = Some n \<and> cq_items st' k = None)"
proof -
  let ?st = "hydrateChatQueueSnapshot st s" and ?items = "qs_items (normalizeSnapshot s)"
  have fields: "cq_sessionId ?st = Some (qs_sessionId s)" "cq_order ?st = map qi_clientMsgId ?items"
    by (simp_all add: hydrateChatQueueSnapshot_def Let_def normalizeSnapshot_def)
  have rank: "state_rank (rl_state (normalizeRunLiveness (qi_liveness p)))
      \<le> state_rank (rl_state (normalizeRunLiveness (qi_liveness (hydrate_item st i))))"
    if "cq_items st (qi_clientMsgId i) = Some p" "qi_runId p = qi_runId i" for i p
    using that by (simp add: hydrate_item_def normalize_liveness_json canonical_merge merge_rank)
  have status: "qi_status i \<noteq> CancelPending" if "i \<in> set ?items" for i
    using that by (auto simp: normalizeSnapshot_def dest: normalize_items_ok)
  show ?thesis
    unfolding Let_def reduceChatQueueEvent.simps
    using fields hydrate_dom [of st s] hydrate_intents [of st s] hydrate_items rank status
    by (simp add: hydrate_items)
qed

definition demo_queue_item :: queue_item where
  "demo_queue_item =
     \<lparr>qi_sessionId = ''s1'', qi_clientMsgId = ''m1'', qi_runId = ''r1'', qi_sourceRunId = ''r1'',
      qi_deliveryMode = ModeQueue, qi_status = CancelPending, qi_queuePosition = None, qi_targetRunId = None,
      qi_content = None, qi_attachments = None, qi_acceptedAt = Some (Iso 7), qi_updatedAt = None,
      qi_reason = None, qi_liveness = JUndefined\<rparr>"

definition demo_snapshot :: queue_snapshot where
  "demo_snapshot = \<lparr>qs_sessionId = ''s1'', qs_items = [demo_queue_item, demo_queue_item], qs_generatedAt = ''t''\<rparr>"

lemma snapshot_authoritative_witness:
  "cq_order (reduceChatQueueEvent (createChatQueueState None) (Snapshot demo_snapshot)) = [''m1'']"
  using snapshot_authoritative [of "createChatQueueState None" demo_snapshot]
  by (simp add: Let_def demo_snapshot_def demo_queue_item_def normalizeSnapshot_def)

text \<open>The item selector returns every item of the projection exactly once; when the server has
  stamped all of them, active items come before the others, active items are in the order of their
  queue positions, and items alike in that respect are in the order of acceptance.\<close>

theorem selector_sorted:
  assumes "queue_ok st" and "\<forall>k i. cq_items st k = Some i \<longrightarrow> accepted_time i \<noteq> None"
  shows "mset (selectChatQueueItems st) = mset (map (\<lambda>k. the (cq_items st k)) (cq_order st)) \<and>
         sorted_wrt (\<lambda>l r.
             (item_active r \<longrightarrow> item_active l) \<and>
             (item_active l \<and> item_active r \<longrightarrow> item_position l \<le> item_position r) \<and>
             ((item_active l \<longleftrightarrow> item_active r) \<and> (item_active l \<longrightarrow> item_position l = item_position r)
                \<longrightarrow> the (accepted_time l) \<le> the (accepted_time r)))
           (selectChatQueueItems st)"
proof
  note ok = queue_okD [OF assms(1)]
  have items: "List.map_filter (cq_items st) (cq_order st) = map (\<lambda>k. the (cq_items st k)) (cq_order st)"
    using ok(2) by (auto simp: List.map_filter_def filter_id_conv intro!: map_cong filter_True)
  then show "mset (selectChatQueueItems st) = mset (map (\<lambda>k. the (cq_items st k)) (cq_order st))"
    by (simp add: selectChatQueueItems_def)
  let ?S = "{i. accepted_time i \<noteq> None}"
  have sub: "set (List.map_filter (cq_items st) (cq_order st)) \<subseteq> ?S"
    using assms(2) ok(2) unfolding items by fastforce
  have tot: "compare_items l r \<le> 0 \<or> compare_items r l \<le> 0" if "l \<in> ?S" "r \<in> ?S" for l r
    using that by (auto simp: compare_items_def)
  have tr: "compare_items a c \<le> 0" if "a \<in> ?S" "b \<in> ?S" "c \<in> ?S" "compare_items a b \<le> 0" "compare_items b c \<le> 0"
    for a b c
    using that by (auto simp: compare_items_def split: if_splits)
  have "sorted_wrt (\<lambda>l r. compare_items l r \<le> 0) (selectChatQueueItems st)"
    unfolding selectChatQueueItems_def by (rule sorted_js_sort [OF tot tr sub])
  then show "sorted_wrt (\<lambda>l r.
       (item_active r \<longrightarrow> item_active l) \<and>
       (item_active l \<and> item_active r \<longrightarrow> item_position l \<le> item_position r) \<and>
       ((item_active l \<longleftrightarrow> item_active r) \<and> (item_active l \<longrightarrow> item_position l = item_position r)
          \<longrightarrow> the (accepted_time l) \<le> the (accepted_time r))) (selectChatQueueItems st)"
    using sub by (elim sorted_wrt_mono_rel [rotated])
      (auto simp: compare_items_def selectChatQueueItems_def subset_iff split: if_splits option.splits)
qed

definition demo_queue :: queue_state where
  "demo_queue = reduceChatQueueEvent (createChatQueueState None) (ServerUpsert (demo_item ''m1'' Running))"

lemma demo_queue_items:
  "cq_order demo_queue = [''m1'']" "dom (cq_items demo_queue) = {''m1''}"
  "accepted_time (the (cq_items demo_queue ''m1'')) = Some 5"
  by (simp_all add: demo_queue_def withServerUpsert_def findItemKey_def demo_item_def createChatQueueState_def
      canonicalizeItem_def accepted_time_def Let_def)

lemma selector_sorted_witness:
  "mset (selectChatQueueItems demo_queue) = {#the (cq_items demo_queue ''m1'')#}"
proof -
  have "queue_ok demo_queue" by (simp add: demo_queue_def queue_ok_upsert)
  moreover have "\<forall>k i. cq_items demo_queue k = Some i \<longrightarrow> accepted_time i \<noteq> None"
    using demo_queue_items(2,3) by (metis domI option.distinct(1) option.sel singletonD)
  ultimately show ?thesis
    using selector_sorted [of demo_queue] demo_queue_items(1) by simp
qed

end
