(* ===== verification/Hand_Journal.thy ===== *)
theory Hand_Journal
  imports Agent_Base
begin

text \<open>
  The durable tool-invocation journal of the hand server
  (\<^verbatim>\<open>hand-server/src/invocationStore.ts\<close>, class \<open>FileHandInvocationStore\<close>).

  The journal directory is a partial function from file names to files. One call of an operation is one
  step: the class queues all mutations of an invocation id behind each other, and every write replaces
  its file by a rename. A time stamp is its number of milliseconds. A string is its sequence of UTF-8
  bytes. SHA-256 is a parameter (\<open>sha\<close>, the hexadecimal digest); the order in which \<open>readdir\<close> lists the
  directory is a parameter too.
\<close>

section \<open>Data\<close>

datatype stored_state = StRunning | StCompleted | StCancelled

record stored_invocation =
  iv_invocationId :: string
  iv_state :: stored_state
  iv_createdAt :: int
  iv_updatedAt :: int
  iv_response :: "json option"
  iv_cancelledAt :: "int option"
  iv_interruptedAt :: "int option"
  iv_executionAttemptId :: "string option"

text \<open>
  What a file holds: a record, some other JSON value (with or without an invocation id of type
  string), or text that \<open>JSON.parse\<close> rejects.
\<close>

datatype file_content = Doc stored_invocation | OtherJson bool | Corrupt

type_synonym journal = "string \<Rightarrow> (file_content \<times> int) option"

datatype register_outcome =
    OutCreated stored_invocation
  | OutAlreadyRunning stored_invocation
  | OutCancelledTombstone stored_invocation
  | OutReplay stored_invocation

datatype journal_error = SyntaxError

section \<open>File names\<close>

definition FILENAME_MAX_LENGTH :: nat where
  "FILENAME_MAX_LENGTH = 200"

definition hex_digit :: "nat \<Rightarrow> char" where
  "hex_digit n = ''0123456789ABCDEF'' ! n"

definition uri_unreserved :: "char \<Rightarrow> bool" where
  "uri_unreserved c \<longleftrightarrow>
     c \<in> set ''ABCDEFGHIJKLMNOPQRSTUVWXYZabcdefghijklmnopqrstuvwxyz0123456789-_.!~*()'' \<or> c = CHR 39"

definition encode_byte :: "char \<Rightarrow> string" where
  "encode_byte c =
     (if uri_unreserved c then [c]
      else [CHR ''%'', hex_digit (of_char c div 16), hex_digit (of_char c mod 16)])"

definition encodeURIComponent :: "string \<Rightarrow> string" where
  "encodeURIComponent s = concat (map encode_byte s)"

definition invocationFileName :: "(string \<Rightarrow> string) \<Rightarrow> string \<Rightarrow> string" where
  "invocationFileName sha invocationId =
     (let encoded = encodeURIComponent invocationId in
      if length encoded \<le> FILENAME_MAX_LENGTH \<and> CHR ''/'' \<notin> set encoded then encoded @ ''.json''
      else ''h-'' @ take 40 (sha invocationId) @ ''.json'')"

section \<open>Operations\<close>

definition interruptedResponse :: "int \<Rightarrow> json" where
  "interruptedResponse interruptedAt = JObj
     [(''status'', JStr ''error''),
      (''error'', JStr ''hand-server restarted while invocation was running; result is indeterminate and side effects may have partially applied''),
      (''metadata'', JObj [(''interrupted'', JBool True), (''indeterminate'', JBool True),
                           (''interruptedAt'', JNum (IntNum interruptedAt))])]"

definition readRecord ::
  "(string \<Rightarrow> string) \<Rightarrow> journal \<Rightarrow> string \<Rightarrow> journal_error + stored_invocation option" where
  "readRecord sha dir invocationId =
     (case dir (invocationFileName sha invocationId) of
        None \<Rightarrow> Inr None
      | Some (Corrupt, _) \<Rightarrow> Inl SyntaxError
      | Some (OtherJson _, _) \<Rightarrow> Inr None
      | Some (Doc r, _) \<Rightarrow> if iv_invocationId r \<noteq> invocationId then Inr None else Inr (Some r))"

definition atomicWrite :: "(string \<Rightarrow> string) \<Rightarrow> int \<Rightarrow> journal \<Rightarrow> stored_invocation \<Rightarrow> journal" where
  "atomicWrite sha now dir r = dir(invocationFileName sha (iv_invocationId r) \<mapsto> (Doc r, now))"

definition registerRunning ::
  "(string \<Rightarrow> string) \<Rightarrow> journal \<Rightarrow> int \<Rightarrow> string \<Rightarrow> string option
     \<Rightarrow> journal \<times> (journal_error + register_outcome)" where
  "registerRunning sha dir now invocationId attemptId =
     (case readRecord sha dir invocationId of
        Inl e \<Rightarrow> (dir, Inl e)
      | Inr (Some existing) \<Rightarrow>
          (dir, Inr (if iv_response existing \<noteq> None then OutReplay existing
                     else if iv_state existing = StCancelled then OutCancelledTombstone existing
                     else OutAlreadyRunning existing))
      | Inr None \<Rightarrow>
          (let r = \<lparr>iv_invocationId = invocationId, iv_state = StRunning, iv_createdAt = now, iv_updatedAt = now,
                    iv_response = None, iv_cancelledAt = None, iv_interruptedAt = None,
                    iv_executionAttemptId = (if truthy attemptId then attemptId else None)\<rparr> in
           (atomicWrite sha now dir r, Inr (OutCreated r))))"

definition get_record ::
  "(string \<Rightarrow> string) \<Rightarrow> journal \<Rightarrow> string \<Rightarrow> journal_error + stored_invocation option" where
  "get_record sha dir invocationId = readRecord sha dir invocationId"

definition complete ::
  "(string \<Rightarrow> string) \<Rightarrow> journal \<Rightarrow> int \<Rightarrow> string \<Rightarrow> json \<Rightarrow> journal \<times> (journal_error + stored_invocation)" where
  "complete sha dir now invocationId response =
     (case readRecord sha dir invocationId of
        Inl e \<Rightarrow> (dir, Inl e)
      | Inr (Some existing) \<Rightarrow>
          if iv_response existing \<noteq> None then (dir, Inr existing)
          else (let r = existing\<lparr>iv_state := StCompleted, iv_response := Some response, iv_updatedAt := now\<rparr> in
                (atomicWrite sha now dir r, Inr r))
      | Inr None \<Rightarrow>
          (let r = \<lparr>iv_invocationId = invocationId, iv_state = StCompleted, iv_createdAt = now, iv_updatedAt = now,
                    iv_response = Some response, iv_cancelledAt = None, iv_interruptedAt = None,
                    iv_executionAttemptId = None\<rparr> in
           (atomicWrite sha now dir r, Inr r)))"

definition markCancelled ::
  "(string \<Rightarrow> string) \<Rightarrow> journal \<Rightarrow> int \<Rightarrow> string \<Rightarrow> journal \<times> (journal_error + stored_invocation)" where
  "markCancelled sha dir now invocationId =
     (case readRecord sha dir invocationId of
        Inl e \<Rightarrow> (dir, Inl e)
      | Inr (Some existing) \<Rightarrow>
          if iv_cancelledAt existing \<noteq> None \<or> iv_response existing \<noteq> None then (dir, Inr existing)
          else (let r = existing\<lparr>iv_state := StCancelled, iv_cancelledAt := Some now, iv_updatedAt := now\<rparr> in
                (atomicWrite sha now dir r, Inr r))
      | Inr None \<Rightarrow>
          (let r = \<lparr>iv_invocationId = invocationId, iv_state = StCancelled, iv_createdAt = now, iv_updatedAt = now,
                    iv_response = None, iv_cancelledAt = Some now, iv_interruptedAt = None,
                    iv_executionAttemptId = None\<rparr> in
           (atomicWrite sha now dir r, Inr r)))"

definition interrupt :: "stored_invocation \<Rightarrow> int \<Rightarrow> stored_invocation" where
  "interrupt r t =
     r\<lparr>iv_state := StCompleted, iv_response := Some (interruptedResponse t), iv_interruptedAt := Some t,
       iv_updatedAt := t\<rparr>"

text \<open>The startup loop over the listing; \<open>clock f\<close> is the time at which file \<open>f\<close> is looked at.\<close>

fun reconcileStartup ::
  "(string \<Rightarrow> string) \<Rightarrow> (string \<Rightarrow> int) \<Rightarrow> string list \<Rightarrow> journal \<Rightarrow> journal \<times> nat \<times> nat" where
  "reconcileStartup sha clock [] dir = (dir, 0, 0)"
| "reconcileStartup sha clock (f # fs) dir =
     (case dir f of
        None \<Rightarrow> reconcileStartup sha clock fs dir
      | Some (Corrupt, _) \<Rightarrow> reconcileStartup sha clock fs dir
      | Some (OtherJson hasId, _) \<Rightarrow>
          (case reconcileStartup sha clock fs dir of
             (d, loaded, interrupted) \<Rightarrow> (d, (if hasId then Suc loaded else loaded), interrupted))
      | Some (Doc r, _) \<Rightarrow>
          if iv_state r = StRunning \<and> iv_response r = None
          then (case reconcileStartup sha clock fs (atomicWrite sha (clock f) dir (interrupt r (clock f))) of
                  (d, loaded, interrupted) \<Rightarrow> (d, Suc loaded, Suc interrupted))
          else (case reconcileStartup sha clock fs dir of
                  (d, loaded, interrupted) \<Rightarrow> (d, Suc loaded, interrupted)))"

fun sweep_loop :: "int \<Rightarrow> string list \<Rightarrow> journal \<Rightarrow> journal \<times> nat" where
  "sweep_loop cutoff [] dir = (dir, 0)"
| "sweep_loop cutoff (f # fs) dir =
     (case dir f of
        None \<Rightarrow> sweep_loop cutoff fs dir
      | Some (_, mtime) \<Rightarrow>
          if mtime < cutoff
          then (case sweep_loop cutoff fs (dir(f := None)) of (d, deleted) \<Rightarrow> (d, Suc deleted))
          else sweep_loop cutoff fs dir)"

definition SWEEP_DEFAULT_RETENTION_MS :: int where
  "SWEEP_DEFAULT_RETENTION_MS = 24 * 60 * 60000"

definition sweep :: "int option \<Rightarrow> int \<Rightarrow> string list \<Rightarrow> journal \<Rightarrow> journal \<times> nat" where
  "sweep retentionMs now listing dir =
     sweep_loop (now - (case retentionMs of None \<Rightarrow> SWEEP_DEFAULT_RETENTION_MS | Some r \<Rightarrow> r)) listing dir"

section \<open>File names\<close>

lemma hex_digit_inj: "hex_digit m = hex_digit n \<Longrightarrow> m < 16 \<Longrightarrow> n < 16 \<Longrightarrow> m = n"
proof -
  have "distinct ''0123456789ABCDEF''" by simp
  then show "hex_digit m = hex_digit n \<Longrightarrow> m < 16 \<Longrightarrow> n < 16 \<Longrightarrow> m = n"
    using nth_eq_iff_index_eq [of "''0123456789ABCDEF''" m n] by (simp add: hex_digit_def)
qed

lemma hex_digit_set: "n < 16 \<Longrightarrow> hex_digit n \<in> set ''0123456789ABCDEF''"
  unfolding hex_digit_def by (rule nth_mem) simp

lemma percent_reserved [simp]: "\<not> uri_unreserved (CHR ''%'')" "\<not> uri_unreserved (CHR ''/'')"
  by (simp_all add: uri_unreserved_def)

lemma of_char_div_inj:
  assumes "(of_char c :: nat) div 16 = of_char d div 16" and "(of_char c :: nat) mod 16 = of_char d mod 16"
  shows "c = d"
  using assms by (metis div_mult_mod_eq of_char_eq_iff)

lemma encode_byte_prefix:
  assumes "encode_byte c @ u = encode_byte d @ w"
  shows "c = d \<and> u = w"
proof -
  have lt: "(of_char x :: nat) div 16 < 16" "(of_char x :: nat) mod 16 < 16" for x :: char
    using nat_of_char_less_256 [of x] by (simp_all add: less_mult_imp_div_less)
  show ?thesis
  proof (cases "uri_unreserved c \<longleftrightarrow> uri_unreserved d")
    case True
    with assms show ?thesis
      by (auto simp: encode_byte_def dest!: hex_digit_inj [OF _ lt(1) lt(1)] hex_digit_inj [OF _ lt(2) lt(2)]
          intro: of_char_div_inj split: if_splits)
  next
    case False
    with assms show ?thesis by (auto simp: encode_byte_def split: if_splits)
  qed
qed

lemma encode_byte_nonempty [simp]: "encode_byte c \<noteq> []"
  by (simp add: encode_byte_def)

lemma encodeURIComponent_inj: "encodeURIComponent s = encodeURIComponent t \<Longrightarrow> s = t"
proof (induction s arbitrary: t)
  case Nil
  then show ?case by (cases t) (simp_all add: encodeURIComponent_def)
next
  case (Cons c s)
  then obtain d t' where t: "t = d # t'" by (cases t) (simp_all add: encodeURIComponent_def)
  with Cons.prems have "encode_byte c @ encodeURIComponent s = encode_byte d @ encodeURIComponent t'"
    by (simp add: encodeURIComponent_def)
  from encode_byte_prefix [OF this] Cons.IH t show ?case by blast
qed

lemma encode_no_slash: "CHR ''/'' \<notin> set (encodeURIComponent s)"
proof -
  have "CHR ''/'' \<notin> set (encode_byte c)" for c
  proof -
    have lt: "(of_char c :: nat) div 16 < 16" "(of_char c :: nat) mod 16 < 16"
      using nat_of_char_less_256 [of c] by (simp_all add: less_mult_imp_div_less)
    have "CHR ''/'' \<notin> set ''0123456789ABCDEF''" by simp
    with hex_digit_set [OF lt(1)] hex_digit_set [OF lt(2)] show ?thesis
      using percent_reserved(2) unfolding encode_byte_def by (auto simp del: percent_reserved)
  qed
  then show ?thesis by (simp add: encodeURIComponent_def)
qed

lemma short_file_name:
  "length (encodeURIComponent s) \<le> FILENAME_MAX_LENGTH \<Longrightarrow>
   invocationFileName sha s = encodeURIComponent s @ ''.json''"
  by (simp add: invocationFileName_def encode_no_slash Let_def)

section \<open>The journal invariant\<close>

definition record_ok :: "stored_invocation \<Rightarrow> bool" where
  "record_ok r \<longleftrightarrow>
     (iv_response r = None \<longrightarrow> iv_state r \<noteq> StCompleted \<and> (iv_cancelledAt r \<noteq> None \<longrightarrow> iv_state r = StCancelled))"

text \<open>
  \<open>S\<close> is the set of invocation ids in use: their file names are distinct, and every record of the
  directory is one of theirs and sits in its own file.
\<close>

definition journal_ok :: "(string \<Rightarrow> string) \<Rightarrow> string set \<Rightarrow> journal \<Rightarrow> bool" where
  "journal_ok sha S dir \<longleftrightarrow>
     inj_on (invocationFileName sha) S \<and>
     (\<forall>f r m. dir f = Some (Doc r, m) \<longrightarrow>
        iv_invocationId r \<in> S \<and> f = invocationFileName sha (iv_invocationId r) \<and> record_ok r)"

datatype journal_op =
    OpRegister int string "string option"
  | OpComplete int string json
  | OpCancel int string
  | OpRestart "string \<Rightarrow> int" "string list"

fun journal_step :: "(string \<Rightarrow> string) \<Rightarrow> journal \<Rightarrow> journal_op \<Rightarrow> journal" where
  "journal_step sha dir (OpRegister now i attempt) = fst (registerRunning sha dir now i attempt)"
| "journal_step sha dir (OpComplete now i resp) = fst (complete sha dir now i resp)"
| "journal_step sha dir (OpCancel now i) = fst (markCancelled sha dir now i)"
| "journal_step sha dir (OpRestart clock listing) = fst (reconcileStartup sha clock listing dir)"

fun op_in :: "string set \<Rightarrow> journal_op \<Rightarrow> bool" where
  "op_in S (OpRegister now i attempt) = (i \<in> S)"
| "op_in S (OpComplete now i resp) = (i \<in> S)"
| "op_in S (OpCancel now i) = (i \<in> S)"
| "op_in S (OpRestart clock listing) = True"

text \<open>How a record may change.\<close>

definition advances :: "stored_invocation \<Rightarrow> stored_invocation \<Rightarrow> bool" where
  "advances r r' \<longleftrightarrow>
     r' = r \<or> (iv_response r = None \<and>
       (iv_response r' \<noteq> None \<or> (iv_cancelledAt r = None \<and> iv_state r' = StCancelled)))"

lemma advances_refl [simp]: "advances r r"
  by (simp add: advances_def)

lemma advances_trans: "advances a b \<Longrightarrow> advances b c \<Longrightarrow> advances a c"
  by (auto simp: advances_def)

lemma readRecord_file:
  "readRecord sha dir k = Inr (Some r) \<longleftrightarrow>
   (\<exists>m. dir (invocationFileName sha k) = Some (Doc r, m)) \<and> iv_invocationId r = k"
  by (auto simp: readRecord_def split: option.splits file_content.splits if_splits)

lemma readRecord_own:
  "iv_invocationId r = i \<Longrightarrow> readRecord sha (atomicWrite sha now dir r) i = Inr (Some r)"
  by (simp add: readRecord_def atomicWrite_def)

lemma readRecord_write:
  assumes "inj_on (invocationFileName sha) S" and "k \<in> S" and "iv_invocationId r \<in> S"
  shows "readRecord sha (atomicWrite sha now dir r) k =
     (if iv_invocationId r = k then Inr (Some r) else readRecord sha dir k)"
  using assms by (auto simp: readRecord_def atomicWrite_def inj_on_eq_iff)

lemma journal_ok_write:
  "journal_ok sha S dir \<Longrightarrow> iv_invocationId r \<in> S \<Longrightarrow> record_ok r \<Longrightarrow> journal_ok sha S (atomicWrite sha now dir r)"
  by (auto simp: journal_ok_def atomicWrite_def)

lemma journal_ok_read:
  assumes "journal_ok sha S dir" and "readRecord sha dir k = Inr (Some r)"
  shows "k \<in> S" "iv_invocationId r = k" "record_ok r"
  using assms by (auto simp: journal_ok_def readRecord_file)

text \<open>A write is an advance if it advances the record it replaces.\<close>

lemma write_advances:
  assumes ok: "journal_ok sha S dir" and r: "iv_invocationId r \<in> S" "record_ok r"
    and adv: "\<And>old. readRecord sha dir (iv_invocationId r) = Inr (Some old) \<Longrightarrow> advances old r"
  shows "journal_ok sha S (atomicWrite sha now dir r) \<and>
    (\<forall>k old. readRecord sha dir k = Inr (Some old) \<longrightarrow>
       (\<exists>new. readRecord sha (atomicWrite sha now dir r) k = Inr (Some new) \<and> advances old new))"
proof (intro conjI allI impI)
  fix k old assume old: "readRecord sha dir k = Inr (Some old)"
  have "inj_on (invocationFileName sha) S" using ok by (simp add: journal_ok_def)
  from readRecord_write [OF this journal_ok_read(1) [OF ok old] r(1), of now dir]
  show "\<exists>new. readRecord sha (atomicWrite sha now dir r) k = Inr (Some new) \<and> advances old new"
    using adv old by (cases "iv_invocationId r = k") auto
qed (rule journal_ok_write [OF ok r])

definition step_safe :: "(string \<Rightarrow> string) \<Rightarrow> string set \<Rightarrow> journal \<Rightarrow> journal \<Rightarrow> bool" where
  "step_safe sha S dir dir' \<longleftrightarrow> journal_ok sha S dir' \<and>
     (\<forall>k old. readRecord sha dir k = Inr (Some old) \<longrightarrow>
       (\<exists>new. readRecord sha dir' k = Inr (Some new) \<and> advances old new))"

lemma step_safe_refl: "journal_ok sha S dir \<Longrightarrow> step_safe sha S dir dir"
  by (auto simp: step_safe_def)

lemma step_safe_trans: "step_safe sha S a b \<Longrightarrow> step_safe sha S b c \<Longrightarrow> step_safe sha S a c"
  unfolding step_safe_def by (meson advances_trans)

lemmas step_safe_write = write_advances [folded step_safe_def]

lemma register_safe:
  "journal_ok sha S dir \<Longrightarrow> i \<in> S \<Longrightarrow> step_safe sha S dir (fst (registerRunning sha dir now i attempt))"
  by (auto simp: registerRunning_def Let_def step_safe_refl record_ok_def intro!: step_safe_write
      split: sum.split option.split)

lemma complete_safe:
  "journal_ok sha S dir \<Longrightarrow> i \<in> S \<Longrightarrow> step_safe sha S dir (fst (complete sha dir now i resp))"
  by (auto simp: complete_def Let_def step_safe_refl record_ok_def advances_def journal_ok_read intro!: step_safe_write
      split: sum.split option.split)

lemma cancel_safe:
  "journal_ok sha S dir \<Longrightarrow> i \<in> S \<Longrightarrow> step_safe sha S dir (fst (markCancelled sha dir now i))"
  by (auto simp: markCancelled_def Let_def step_safe_refl record_ok_def advances_def journal_ok_read
      intro!: step_safe_write split: sum.split option.split)

lemma reconcile_safe:
  "journal_ok sha S dir \<Longrightarrow> step_safe sha S dir (fst (reconcileStartup sha clock listing dir))"
proof (induction listing arbitrary: dir)
  case Nil
  then show ?case by (simp add: step_safe_refl)
next
  case (Cons f fs)
  have rest: "step_safe sha S dir (fst (reconcileStartup sha clock fs d))" if "step_safe sha S dir d" for d
    using that Cons.IH [of d] step_safe_trans [OF that] by (simp add: step_safe_def)
  have stored: "step_safe sha S dir (atomicWrite sha (clock f) dir (interrupt r (clock f)))"
    if here: "dir f = Some (Doc r, m)" and open_r: "iv_response r = None" for r m
  proof (rule step_safe_write [OF Cons.prems])
    have r: "iv_invocationId r \<in> S" "f = invocationFileName sha (iv_invocationId r)"
      using Cons.prems here by (auto simp: journal_ok_def)
    then show "iv_invocationId (interrupt r (clock f)) \<in> S" by (simp add: interrupt_def)
    show "advances old (interrupt r (clock f))"
      if old: "readRecord sha dir (iv_invocationId (interrupt r (clock f))) = Inr (Some old)" for old
    proof -
      have "\<exists>m. dir (invocationFileName sha (iv_invocationId r)) = Some (Doc old, m)"
        using old by (simp add: readRecord_file interrupt_def)
      then have "old = r" using here unfolding r(2) [symmetric] by simp
      with open_r show ?thesis by (simp add: interrupt_def advances_def)
    qed
  qed (simp add: record_ok_def interrupt_def)
  have same: "step_safe sha S dir (fst (reconcileStartup sha clock fs dir))"
    by (rule rest [OF step_safe_refl [OF Cons.prems]])
  show ?case
  proof (cases "dir f")
    case (Some cm)
    obtain c m where cm: "cm = (c, m)" by (cases cm)
    show ?thesis using rest stored same Some cm by (cases c) (auto simp: split_beta)
  qed (use same in simp)
qed

lemma step_is_safe:
  "journal_ok sha S dir \<Longrightarrow> op_in S op \<Longrightarrow> step_safe sha S dir (journal_step sha dir op)"
  by (cases op) (simp_all add: register_safe complete_safe cancel_safe reconcile_safe)

section \<open>What the journal decides once\<close>

text \<open>The terminal record of an invocation, that it was registered, and that it must not start.\<close>

definition settled :: "(string \<Rightarrow> string) \<Rightarrow> journal \<Rightarrow> string \<Rightarrow> stored_invocation option" where
  "settled sha dir i =
     (case readRecord sha dir i of
        Inr (Some r) \<Rightarrow> if iv_response r \<noteq> None then Some r else None
      | _ \<Rightarrow> None)"

definition known :: "(string \<Rightarrow> string) \<Rightarrow> journal \<Rightarrow> string \<Rightarrow> unit option" where
  "known sha dir i = (case readRecord sha dir i of Inr (Some r) \<Rightarrow> Some () | _ \<Rightarrow> None)"

definition stopped :: "(string \<Rightarrow> string) \<Rightarrow> journal \<Rightarrow> string \<Rightarrow> unit option" where
  "stopped sha dir i =
     (case readRecord sha dir i of
        Inr (Some r) \<Rightarrow> if iv_response r \<noteq> None \<or> iv_cancelledAt r \<noteq> None \<or> iv_state r = StCancelled
                       then Some () else None
      | _ \<Rightarrow> None)"

lemma decided_iff:
  "settled sha dir i = Some r \<longleftrightarrow> readRecord sha dir i = Inr (Some r) \<and> iv_response r \<noteq> None"
  "known sha dir i = Some u \<longleftrightarrow> (\<exists>r. readRecord sha dir i = Inr (Some r))"
  "stopped sha dir i = Some u \<longleftrightarrow> (\<exists>r. readRecord sha dir i = Inr (Some r) \<and>
     (iv_response r \<noteq> None \<or> iv_cancelledAt r \<noteq> None \<or> iv_state r = StCancelled))"
  by (auto simp: settled_def known_def stopped_def split: sum.splits option.splits)

lemma safe_decided:
  assumes "step_safe sha S dir dir'"
  shows "settled sha dir i = Some r \<Longrightarrow> settled sha dir' i = Some r"
    and "known sha dir i = Some u \<Longrightarrow> known sha dir' i = Some u"
    and "stopped sha dir i = Some u \<Longrightarrow> stopped sha dir' i = Some u"
  using assms unfolding step_safe_def decided_iff advances_def by fastforce+

lemma step_keeps_ok: "journal_ok sha S dir \<Longrightarrow> op_in S op \<Longrightarrow> journal_ok sha S (journal_step sha dir op)"
  using step_is_safe unfolding step_safe_def by blast

lemmas step_decided = safe_decided [OF step_is_safe]

interpretation results: write_once "journal_ok sha S" "op_in S" "settled sha" "journal_step sha" for sha S
  by unfold_locales (blast intro: step_keeps_ok step_decided)+

interpretation registrations: write_once "journal_ok sha S" "op_in S" "known sha" "journal_step sha" for sha S
  by unfold_locales (blast intro: step_keeps_ok step_decided)+

interpretation tombstones: write_once "journal_ok sha S" "op_in S" "stopped sha" "journal_step sha" for sha S
  by unfold_locales (blast intro: step_keeps_ok step_decided)+

abbreviation run_journal :: "(string \<Rightarrow> string) \<Rightarrow> journal \<Rightarrow> journal_op list \<Rightarrow> journal" where
  "run_journal sha \<equiv> foldl (journal_step sha)"

lemma register_created:
  assumes ok: "journal_ok sha S dir" and "i \<in> S"
    and "snd (registerRunning sha dir now i attempt) = Inr (OutCreated r)"
  shows "known sha (fst (registerRunning sha dir now i attempt)) i = Some ()"
proof -
  have "readRecord sha dir i = Inr None"
    using assms(3) by (auto simp: registerRunning_def Let_def split: sum.splits option.splits if_splits)
  then show ?thesis
    by (simp add: known_def registerRunning_def Let_def readRecord_def atomicWrite_def)
qed

lemma complete_settles:
  assumes ok: "journal_ok sha S dir" and "i \<in> S" and "snd (complete sha dir now i resp) = Inr r"
  shows "settled sha (fst (complete sha dir now i resp)) i = Some r"
proof (cases "readRecord sha dir i")
  case (Inr ex)
  then show ?thesis
  proof (cases ex)
    case (Some e)
    with Inr assms journal_ok_read(2) [OF ok, of i e] show ?thesis
      by (auto simp: decided_iff complete_def Let_def readRecord_own split: if_splits)
  qed (use assms in \<open>auto simp: decided_iff complete_def Let_def readRecord_own\<close>)
qed (use assms in \<open>simp add: complete_def\<close>)

lemma cancel_stops:
  assumes ok: "journal_ok sha S dir" and "i \<in> S" and "snd (markCancelled sha dir now i) = Inr r"
  shows "stopped sha (fst (markCancelled sha dir now i)) i = Some ()"
proof (cases "readRecord sha dir i")
  case (Inr ex)
  then show ?thesis
  proof (cases ex)
    case (Some e)
    with Inr assms journal_ok_read(2) [OF ok, of i e] show ?thesis
      by (auto simp: decided_iff markCancelled_def Let_def readRecord_own split: if_splits)
  qed (use assms in \<open>auto simp: decided_iff markCancelled_def Let_def readRecord_own\<close>)
qed (use assms in \<open>simp add: markCancelled_def\<close>)

section \<open>Startup reconciliation and sweeping\<close>

definition is_running :: "(file_content \<times> int) option \<Rightarrow> bool" where
  "is_running e = (case e of Some (Doc r, _) \<Rightarrow> iv_state r = StRunning \<and> iv_response r = None | _ \<Rightarrow> False)"

definition reconcile_file :: "int \<Rightarrow> (file_content \<times> int) option \<Rightarrow> (file_content \<times> int) option" where
  "reconcile_file t e =
     (case e of Some (Doc r, _) \<Rightarrow> if is_running e then Some (Doc (interrupt r t), t) else e | _ \<Rightarrow> e)"

lemma reconcile_exact:
  assumes "journal_ok sha S dir" and "distinct listing"
  shows "fst (reconcileStartup sha clock listing dir) =
           (\<lambda>f. if f \<in> set listing then reconcile_file (clock f) (dir f) else dir f) \<and>
         snd (snd (reconcileStartup sha clock listing dir)) = length (filter (\<lambda>f. is_running (dir f)) listing)"
  using assms
proof (induction listing arbitrary: dir)
  case Nil
  then show ?case by simp
next
  case (Cons f fs)
  show ?case
  proof (cases "is_running (dir f)")
    case False
    have keep: "reconcile_file (clock f) (dir f) = dir f"
      using False by (auto simp: reconcile_file_def split: option.split file_content.split)
    have "fst (reconcileStartup sha clock (f # fs) dir) = fst (reconcileStartup sha clock fs dir)"
      "snd (snd (reconcileStartup sha clock (f # fs) dir)) = snd (snd (reconcileStartup sha clock fs dir))"
      using False by (auto simp: is_running_def split_beta split: option.split file_content.split)
    with Cons False keep show ?thesis by (auto simp: fun_eq_iff)
  next
    case True
    then obtain r m where r: "dir f = Some (Doc r, m)" "iv_state r = StRunning" "iv_response r = None"
      by (auto simp: is_running_def split: option.splits file_content.splits)
    let ?r = "interrupt r (clock f)" and ?dir = "atomicWrite sha (clock f) dir (interrupt r (clock f))"
    have f: "f = invocationFileName sha (iv_invocationId r)" "iv_invocationId r \<in> S"
      using Cons.prems(1) r(1) by (auto simp: journal_ok_def)
    have dir: "?dir = dir(f \<mapsto> (Doc ?r, clock f))"
      unfolding f(1) by (simp add: atomicWrite_def interrupt_def)
    have ok: "journal_ok sha S ?dir"
      by (rule journal_ok_write [OF Cons.prems(1)]) (simp_all add: f(2) interrupt_def record_ok_def)
    have same: "filter (\<lambda>g. is_running (?dir g)) fs = filter (\<lambda>g. is_running (dir g)) fs"
      using Cons.prems(2) unfolding dir by (intro filter_cong) auto
    have rec: "reconcile_file (clock f) (dir f) = Some (Doc ?r, clock f)"
      using True r by (simp add: reconcile_file_def)
    note IH = Cons.IH [OF ok, OF distinct_tl [OF Cons.prems(2), simplified]]
    have "fst (reconcileStartup sha clock (f # fs) dir) = fst (reconcileStartup sha clock fs ?dir)"
      "snd (snd (reconcileStartup sha clock (f # fs) dir)) = Suc (snd (snd (reconcileStartup sha clock fs ?dir)))"
      using r by (simp_all add: split_beta)
    moreover have "fst (reconcileStartup sha clock fs ?dir) g =
        (if g \<in> set (f # fs) then reconcile_file (clock g) (dir g) else dir g)" for g
      unfolding IH [THEN conjunct1] using Cons.prems(2) rec by (simp add: dir)
    ultimately show ?thesis
      using IH [THEN conjunct2] True same by (simp add: fun_eq_iff)
  qed
qed

lemma sweep_loop_exact:
  "fst (sweep_loop cutoff listing dir) =
     (\<lambda>f. if f \<in> set listing \<and> (\<exists>c m. dir f = Some (c, m) \<and> m < cutoff) then None else dir f)"
proof (induction listing arbitrary: dir)
  case (Cons f fs)
  show ?case
  proof (cases "dir f")
    case (Some cm)
    then show ?thesis by (cases cm) (auto simp: Cons.IH split_beta fun_eq_iff)
  qed (auto simp: Cons.IH fun_eq_iff)
qed simp

section \<open>Properties\<close>


definition demo_sha :: "string \<Rightarrow> string" where
  "demo_sha s = ''00ff''"

lemma demo_journal_ok: "journal_ok demo_sha {''a'', ''b''} Map.empty"
  by (simp add: journal_ok_def invocationFileName_def encodeURIComponent_def encode_byte_def
      uri_unreserved_def FILENAME_MAX_LENGTH_def)


text \<open>An invocation is started at most once: after one registration was told that it created the
  record, no later registration of the same invocation is, whatever happens to the journal in between,
  restarts included (only the age-based sweep forgets an invocation).\<close>

theorem started_at_most_once:
  assumes ok: "journal_ok sha S dir" and "i \<in> S" and "list_all (op_in S) ops"
    and "snd (registerRunning sha dir now i attempt) = Inr (OutCreated r)"
  shows "snd (registerRunning sha (run_journal sha (fst (registerRunning sha dir now i attempt)) ops)
           now' i attempt') \<noteq> Inr (OutCreated r')"
proof -
  have "journal_ok sha S (fst (registerRunning sha dir now i attempt))"
    using register_safe [OF ok assms(2)] by (simp add: step_safe_def)
  from registrations.run_keeps [OF this assms(3) register_created [OF ok assms(2,4)]]
  obtain e where "readRecord sha (run_journal sha (fst (registerRunning sha dir now i attempt)) ops) i = Inr (Some e)"
    by (auto simp: decided_iff)
  then show ?thesis by (simp add: registerRunning_def [of sha "run_journal sha d ops" for d])
qed

lemma started_at_most_once_witness:
  "\<nexists>r. snd (registerRunning demo_sha (run_journal demo_sha
      (fst (registerRunning demo_sha Map.empty 1 ''a'' None)) [OpRegister 2 ''b'' None]) 3 ''a'' None)
     = Inr (OutCreated r)"
proof -
  have "\<exists>r. snd (registerRunning demo_sha Map.empty 1 ''a'' None) = Inr (OutCreated r)"
    by (simp add: registerRunning_def readRecord_def Let_def)
  then obtain r0 where "snd (registerRunning demo_sha Map.empty 1 ''a'' None) = Inr (OutCreated r0)" ..
  from started_at_most_once [OF demo_journal_ok _ _ this, of "[OpRegister 2 ''b'' None]" 3 None]
  show ?thesis by simp
qed

text \<open>Cancelling before the start sticks: after a successful cancellation, a dispatch of the
  invocation never starts it and never finds it running: it meets the tombstone or a terminal result,
  across any further operations and restarts.\<close>

theorem cancel_before_start:
  assumes ok: "journal_ok sha S dir" and "i \<in> S" and "list_all (op_in S) ops"
    and "snd (markCancelled sha dir now i) = Inr r"
  shows "\<exists>r'. snd (registerRunning sha (run_journal sha (fst (markCancelled sha dir now i)) ops) now' i attempt)
           \<in> {Inr (OutCancelledTombstone r'), Inr (OutReplay r')}"
proof -
  let ?dir = "run_journal sha (fst (markCancelled sha dir now i)) ops"
  have ok1: "journal_ok sha S (fst (markCancelled sha dir now i))"
    using cancel_safe [OF ok assms(2)] by (simp add: step_safe_def)
  from tombstones.run_keeps [OF this assms(3) cancel_stops [OF ok assms(2,4)]]
  obtain r' where r': "readRecord sha ?dir i = Inr (Some r')"
    "iv_response r' \<noteq> None \<or> iv_cancelledAt r' \<noteq> None \<or> iv_state r' = StCancelled"
    by (auto simp: decided_iff)
  moreover have "record_ok r'"
    using journal_ok_read(3) [OF tombstones.run_inv [OF ok1 assms(3)] r'(1)] .
  ultimately show ?thesis
    by (auto simp: registerRunning_def [of sha ?dir] record_ok_def)
qed

lemma cancel_before_start_witness:
  "\<exists>r'. snd (registerRunning demo_sha (run_journal demo_sha (fst (markCancelled demo_sha Map.empty 1 ''a''))
       [OpRestart (\<lambda>_. 2) [''a.json'']]) 3 ''a'' None) \<in> {Inr (OutCancelledTombstone r'), Inr (OutReplay r')}"
proof -
  have "\<exists>r. snd (markCancelled demo_sha Map.empty 1 ''a'') = Inr r"
    by (simp add: markCancelled_def readRecord_def Let_def)
  then obtain r where "snd (markCancelled demo_sha Map.empty 1 ''a'') = Inr r" ..
  from cancel_before_start [OF demo_journal_ok _ _ this, of "[OpRestart (\<lambda>_. 2) [''a.json'']]" 3 None]
  show ?thesis by simp
qed

text \<open>Startup reconciliation is exact: over a complete listing it rewrites precisely the files of
  invocations that were running without a result, each to the interrupted terminal record, leaves every
  other file as it is, and reports the number it rewrote; afterwards nothing is running, so a second
  reconciliation changes nothing and reports none.\<close>

theorem reconcile_settles:
  assumes ok: "journal_ok sha S dir" and "distinct listing" and "dom dir \<subseteq> set listing"
    and dir': "dir' = fst (reconcileStartup sha clock listing dir)"
  shows "(\<forall>f. dir' f = reconcile_file (clock f) (dir f)) \<and>
         snd (snd (reconcileStartup sha clock listing dir)) = card {f. is_running (dir f)} \<and>
         (\<forall>f. \<not> is_running (dir' f)) \<and>
         fst (reconcileStartup sha clock' listing dir') = dir' \<and>
         snd (snd (reconcileStartup sha clock' listing dir')) = 0"
proof -
  have none: "reconcile_file t None = None" "\<not> is_running None" for t
    by (simp_all add: reconcile_file_def is_running_def)
  have files: "dir' f = reconcile_file (clock f) (dir f)" for f
    using reconcile_exact [OF ok assms(2), of clock] assms(3) none unfolding dir' by (cases "dir f") auto
  have idle: "\<not> is_running (reconcile_file t e)" for t e
    by (cases e) (auto simp: is_running_def reconcile_file_def interrupt_def split: file_content.splits if_splits)
  have idem: "reconcile_file t e = e" if "\<not> is_running e" for t e
    using that by (auto simp: reconcile_file_def split: option.splits file_content.splits)
  have "{f. is_running (dir f)} = set (filter (\<lambda>f. is_running (dir f)) listing)"
    using assms(3) none(2) by auto (metis domIff subsetD)
  then have count: "length (filter (\<lambda>f. is_running (dir f)) listing) = card {f. is_running (dir f)}"
    using distinct_card [OF distinct_filter [OF assms(2), of "\<lambda>f. is_running (dir f)"]] by metis
  have ok': "journal_ok sha S dir'"
    using reconcile_safe [OF ok] unfolding dir' step_safe_def by blast
  note again = reconcile_exact [OF ok' assms(2), of clock']
  have "fst (reconcileStartup sha clock' listing dir') f = dir' f" for f
    unfolding again [THEN conjunct1] using idem [of "dir' f"] idle by (simp add: files)
  moreover have "snd (snd (reconcileStartup sha clock' listing dir')) = 0"
    unfolding again [THEN conjunct2] using idle by (simp add: files filter_empty_conv)
  moreover have "snd (snd (reconcileStartup sha clock listing dir)) = card {f. is_running (dir f)}"
    unfolding reconcile_exact [OF ok assms(2), THEN conjunct2] by (rule count)
  ultimately show ?thesis
    using idle by (intro conjI allI ext) (simp_all add: files)
qed

lemma reconcile_settles_witness:
  "snd (snd (reconcileStartup demo_sha (\<lambda>_. 9) [''a.json'']
     (fst (registerRunning demo_sha Map.empty 1 ''a'' None)))) =
   card {f. is_running (fst (registerRunning demo_sha Map.empty 1 ''a'' None) f)}"
proof -
  have ok: "journal_ok demo_sha {''a'', ''b''} (fst (registerRunning demo_sha Map.empty 1 ''a'' None))"
    using register_safe [OF demo_journal_ok, of "''a''" 1 None] by (simp add: step_safe_def)
  have "dom (fst (registerRunning demo_sha Map.empty 1 ''a'' None)) \<subseteq> set [''a.json'']"
    by (simp add: registerRunning_def readRecord_def atomicWrite_def Let_def invocationFileName_def
        encodeURIComponent_def encode_byte_def uri_unreserved_def FILENAME_MAX_LENGTH_def)
  from reconcile_settles [OF ok _ this refl, of "\<lambda>_. 9"] show ?thesis by simp
qed

text \<open>The sweep removes exactly the listed files last written before the retention period
  (24 hours unless configured) and touches no other file.\<close>

theorem sweep_exact:
  "fst (sweep retentionMs now listing dir) =
     (\<lambda>f. if f \<in> set listing \<and>
              (\<exists>c m. dir f = Some (c, m) \<and>
                 m < now - (case retentionMs of None \<Rightarrow> 86400000 | Some r \<Rightarrow> r))
          then None else dir f)"
  by (simp add: sweep_def sweep_loop_exact SWEEP_DEFAULT_RETENTION_MS_def split: option.split)

text \<open>An invocation id cannot escape the journal directory or take the file of another: no file
  name contains a slash (the digest being free of it) or is a directory reference, and two different
  ids whose encoding is short enough to be used as it is have different files.\<close>

theorem file_name_safe:
  assumes "CHR ''/'' \<notin> set (sha a)"
  shows "CHR ''/'' \<notin> set (invocationFileName sha a) \<and>
         invocationFileName sha a \<notin> {''.'', ''..''} \<and>
         (invocationFileName sha a = invocationFileName sha b \<and>
          length (encodeURIComponent a) \<le> FILENAME_MAX_LENGTH \<and>
          length (encodeURIComponent b) \<le> FILENAME_MAX_LENGTH \<longrightarrow> a = b)"
proof -
  have "CHR ''/'' \<notin> set (invocationFileName sha a)"
    using assms by (auto simp: invocationFileName_def Let_def dest: in_set_takeD)
  moreover have "length (invocationFileName sha a) \<ge> 5"
    by (simp add: invocationFileName_def Let_def)
  then have "invocationFileName sha a \<notin> {''.'', ''..''}" by auto
  moreover have "invocationFileName sha a = invocationFileName sha b \<and>
      length (encodeURIComponent a) \<le> FILENAME_MAX_LENGTH \<and>
      length (encodeURIComponent b) \<le> FILENAME_MAX_LENGTH \<longrightarrow> a = b"
    using encodeURIComponent_inj by (auto simp: short_file_name)
  ultimately show ?thesis by blast
qed

lemma file_name_safe_witness:
  "CHR ''/'' \<notin> set (invocationFileName demo_sha ''../etc/passwd'')"
  using file_name_safe [of demo_sha "''../etc/passwd''" "[]"] by (simp add: demo_sha_def)

end
