(* ===== verification/App_Path.thy ===== *)
theory App_Path
  imports Agent_Base "HOL-Library.List_Lexorder"
begin

text \<open>
  Path handling of the application contract (\<^verbatim>\<open>packages/ky-app-contract/src/path.ts\<close>): the normal form of
  an application path, the normal form of a request path that authorization decides on, matching of
  path prefixes at segment boundaries, and tool names.

  A string is the list of its UTF-16 code units, each a number below 65536; \<open>units s\<close> turns an ASCII literal
  into one. \<^verbatim>\<open>decodeURIComponent\<close> follows the decoding algorithm of the language standard.
\<close>

type_synonym jstring = "nat list"

definition units :: "string \<Rightarrow> jstring" where
  "units s = map of_char s"

abbreviation slash :: nat where "slash \<equiv> 47"
abbreviation percent :: nat where "percent \<equiv> 37"
abbreviation dot :: nat where "dot \<equiv> 46"
abbreviation backslash :: nat where "backslash \<equiv> 92"

datatype path_error =
    NotAbsolute | Scheme | DoubleSlash | DotSegment | PercentEncodedSeparator | Backslash | Whitespace
  | TooLong | NotAPrefix | ToolNameTooLong | EmptyPath

definition APP_PATH_MAX_LENGTH :: nat where
  "APP_PATH_MAX_LENGTH = 512"

definition RESERVED_QUERY_PARAMS :: "jstring list" where
  "RESERVED_QUERY_PARAMS = [units ''ky'', units ''ky_iid'', units ''ky_nonce'']"

definition TOOL_NAME_PREFIX :: jstring where
  "TOOL_NAME_PREFIX = units ''app__''"

definition TOOL_NAME_MAX_LENGTH :: nat where
  "TOOL_NAME_MAX_LENGTH = 64"

section \<open>String primitives\<close>

text \<open>\<open>s.startsWith(p)\<close>, \<open>s.endsWith(p)\<close> and \<open>s.includes(p)\<close>.\<close>

definition starts_with :: "jstring \<Rightarrow> jstring \<Rightarrow> bool" where
  "starts_with s p \<longleftrightarrow> take (length p) s = p"

definition ends_with :: "jstring \<Rightarrow> jstring \<Rightarrow> bool" where
  "ends_with s p \<longleftrightarrow> length p \<le> length s \<and> drop (length s - length p) s = p"

fun includes_str :: "jstring \<Rightarrow> jstring \<Rightarrow> bool" where
  "includes_str [] p = (p = [])"
| "includes_str (c # s) p = (starts_with (c # s) p \<or> includes_str s p)"

text \<open>The first match of a predicate on suffixes, for the regular expressions below.\<close>

fun some_suffix :: "(jstring \<Rightarrow> bool) \<Rightarrow> jstring \<Rightarrow> bool" where
  "some_suffix P [] = P []"
| "some_suffix P (c # s) = (P (c # s) \<or> some_suffix P s)"

definition is_alpha :: "nat \<Rightarrow> bool" where
  "is_alpha c \<longleftrightarrow> (65 \<le> c \<and> c \<le> 90) \<or> (97 \<le> c \<and> c \<le> 122)"

definition is_digit :: "nat \<Rightarrow> bool" where
  "is_digit c \<longleftrightarrow> 48 \<le> c \<and> c \<le> 57"

text \<open>\<^verbatim>\<open>/^[a-zA-Z][a-zA-Z0-9+.-]*:/u\<close>\<close>

fun SCHEME :: "jstring \<Rightarrow> bool" where
  "SCHEME [] = False"
| "SCHEME (c # s) =
     (is_alpha c \<and>
      (case dropWhile (\<lambda>x. is_alpha x \<or> is_digit x \<or> x \<in> {43, 46, 45}) s of [] \<Rightarrow> False | x # _ \<Rightarrow> x = 58))"

text \<open>\<^verbatim>\<open>/%2[fe]/iu\<close>\<close>

fun percent_separator_here :: "jstring \<Rightarrow> bool" where
  "percent_separator_here (a # b # c # s) = (a = percent \<and> b = 50 \<and> c \<in> {70, 102, 69, 101})"
| "percent_separator_here _ = False"

definition PERCENT_SEPARATOR :: "jstring \<Rightarrow> bool" where
  "PERCENT_SEPARATOR s = some_suffix percent_separator_here s"

text \<open>\<^verbatim>\<open>/\s/u\<close>\<close>

definition is_white :: "nat \<Rightarrow> bool" where
  "is_white c \<longleftrightarrow> (9 \<le> c \<and> c \<le> 13) \<or> c \<in> {32, 160, 5760, 8232, 8233, 8239, 8287, 12288, 65279} \<or>
     (8192 \<le> c \<and> c \<le> 8202)"

section \<open>Percent decoding\<close>

datatype uri_error = URIError

definition hex_value :: "nat \<Rightarrow> nat option" where
  "hex_value c =
     (if is_digit c then Some (c - 48)
      else if 65 \<le> c \<and> c \<le> 70 then Some (c - 55)
      else if 97 \<le> c \<and> c \<le> 102 then Some (c - 87)
      else None)"

text \<open>One escape \<open>%XX\<close> at the front of the string: its octet and the rest.\<close>

fun escape_octet :: "jstring \<Rightarrow> (nat \<times> jstring) option" where
  "escape_octet (p # a # b # s) =
     (if p \<noteq> percent then None
      else (case (hex_value a, hex_value b) of (Some x, Some y) \<Rightarrow> Some (16 * x + y, s) | _ \<Rightarrow> None))"
| "escape_octet _ = None"

text \<open>The number of continuation octets announced by a leading octet of at least 128.\<close>

definition continuation_count :: "nat \<Rightarrow> nat option" where
  "continuation_count b =
     (if 192 \<le> b \<and> b < 224 then Some 1
      else if 224 \<le> b \<and> b < 240 then Some 2
      else if 240 \<le> b \<and> b < 248 then Some 3
      else None)"

fun continuation_octets :: "nat \<Rightarrow> jstring \<Rightarrow> (nat list \<times> jstring) option" where
  "continuation_octets 0 s = Some ([], s)"
| "continuation_octets (Suc n) s =
     (case escape_octet s of
        None \<Rightarrow> None
      | Some (b, rest) \<Rightarrow>
          if b div 64 \<noteq> 2 then None
          else (case continuation_octets n rest of
                  None \<Rightarrow> None | Some (bs, r) \<Rightarrow> Some (b # bs, r)))"

text \<open>The code point of a well-formed UTF-8 sequence; overlong forms and surrogates are rejected.\<close>

fun utf8_code_point :: "nat \<Rightarrow> nat list \<Rightarrow> nat option" where
  "utf8_code_point b [x] = (let v = (b mod 32) * 64 + x mod 64 in if v < 128 then None else Some v)"
| "utf8_code_point b [x, y] =
     (let v = (b mod 16) * 4096 + (x mod 64) * 64 + y mod 64 in
      if v < 2048 \<or> (55296 \<le> v \<and> v < 57344) then None else Some v)"
| "utf8_code_point b [x, y, z] =
     (let v = (b mod 8) * 262144 + (x mod 64) * 4096 + (y mod 64) * 64 + z mod 64 in
      if v < 65536 \<or> 1114111 < v then None else Some v)"
| "utf8_code_point b _ = None"

definition code_units :: "nat \<Rightarrow> jstring" where
  "code_units v =
     (if v < 65536 then [v] else [55296 + (v - 65536) div 1024, 56320 + (v - 65536) mod 1024])"

text \<open>What one escape sequence at the front decodes to.\<close>

definition decode_escape :: "jstring \<Rightarrow> (jstring \<times> jstring) option" where
  "decode_escape s =
     (case escape_octet s of
        None \<Rightarrow> None
      | Some (b, rest) \<Rightarrow>
          if b < 128 then Some ([b], rest)
          else (case continuation_count b of
                  None \<Rightarrow> None
                | Some n \<Rightarrow>
                    (case continuation_octets n rest of
                       None \<Rightarrow> None
                     | Some (bs, r) \<Rightarrow>
                         (case utf8_code_point b bs of None \<Rightarrow> None | Some v \<Rightarrow> Some (code_units v, r)))))"

lemma escape_octet_shorter: "escape_octet s = Some (b, r) \<Longrightarrow> length r < length s"
  by (cases s rule: escape_octet.cases) (auto split: if_splits option.splits)

lemma continuation_octets_shorter: "continuation_octets n s = Some (bs, r) \<Longrightarrow> length r \<le> length s"
proof (induction n arbitrary: s bs r)
  case (Suc n)
  then obtain b rest bs' where "escape_octet s = Some (b, rest)" "continuation_octets n rest = Some (bs', r)"
    by (auto split: option.splits if_splits)
  with Suc.IH [of rest bs' r] escape_octet_shorter [of s b rest] show ?case by simp
qed simp

lemma decode_escape_shorter: "decode_escape s = Some (v, r) \<Longrightarrow> length r < length s"
  by (auto simp: decode_escape_def split: option.splits prod.splits if_splits
      dest!: escape_octet_shorter continuation_octets_shorter)

function decodeURIComponent :: "jstring \<Rightarrow> uri_error + jstring" where
  "decodeURIComponent [] = Inr []"
| "decodeURIComponent (c # s) =
     (if c \<noteq> percent then bind_res (decodeURIComponent s) (\<lambda>d. Inr (c # d))
      else (case decode_escape (c # s) of
              None \<Rightarrow> Inl URIError
            | Some (v, r) \<Rightarrow> bind_res (decodeURIComponent r) (\<lambda>d. Inr (v @ d))))"
  by pat_completeness auto
termination by (relation "measure length") (auto dest: decode_escape_shorter)

section \<open>The application path\<close>

definition index_of :: "nat \<Rightarrow> jstring \<Rightarrow> nat option" where
  "index_of c s = (let n = length (takeWhile (\<lambda>x. x \<noteq> c) s) in if n = length s then None else Some n)"

text \<open>The key of a query part: what precedes the first \<open>=\<close>.\<close>

definition query_key :: "jstring \<Rightarrow> jstring" where
  "query_key part = takeWhile (\<lambda>x. x \<noteq> 61) part"

definition normalizeQuery :: "jstring \<Rightarrow> jstring" where
  "normalizeQuery rawQuery =
     (let kept = filter (\<lambda>part. part \<noteq> [] \<and> query_key part \<notin> set RESERVED_QUERY_PARAMS) (split_on 38 rawQuery) in
      join_with [38] (js_sort (\<lambda>l r. query_key l \<le> query_key r) kept))"

text \<open>What \<open>normalizeAppPath\<close> makes of a path that passes its checks.\<close>

definition render_path :: "jstring \<Rightarrow> jstring" where
  "render_path path =
     (let hash = (case index_of 35 path of None \<Rightarrow> [] | Some n \<Rightarrow> drop n path);
          withoutHash = (case index_of 35 path of None \<Rightarrow> path | Some n \<Rightarrow> take n path);
          rawQuery = (case index_of 63 withoutHash of None \<Rightarrow> [] | Some n \<Rightarrow> drop (n + 1) withoutHash);
          pathname0 = (case index_of 63 withoutHash of None \<Rightarrow> withoutHash | Some n \<Rightarrow> take n withoutHash);
          pathname1 = (if length pathname0 > 1 \<and> ends_with pathname0 [slash] then butlast pathname0 else pathname0);
          pathname = (if pathname1 = [] then [slash] else pathname1);
          query = normalizeQuery rawQuery in
      pathname @ (if query \<noteq> [] then 63 # query else []) @ hash)"

definition normalizeAppPath :: "jstring \<Rightarrow> path_error + jstring" where
  "normalizeAppPath path =
     (if path = [] then Inl EmptyPath
      else if length path > APP_PATH_MAX_LENGTH then Inl TooLong
      else if SCHEME path then Inl Scheme
      else if includes_str path [backslash] then Inl Backslash
      else if list_ex is_white path then Inl Whitespace
      else if \<not> starts_with path [slash] then Inl NotAbsolute
      else if includes_str path [slash, slash] then Inl DoubleSlash
      else if includes_str path [dot, dot] then Inl DotSegment
      else if PERCENT_SEPARATOR path then Inl PercentEncodedSeparator
      else Inr (render_path path))"

section \<open>The request path\<close>

text \<open>\<open>s.replace(/\/{2,}/gu, '/')\<close>\<close>

fun merge_slashes :: "jstring \<Rightarrow> jstring" where
  "merge_slashes (a # b # s) =
     (if a = slash \<and> b = slash then merge_slashes (b # s) else a # merge_slashes (b # s))"
| "merge_slashes s = s"

definition normalizePathname :: "jstring \<Rightarrow> path_error + jstring" where
  "normalizePathname pathname =
     (if pathname = [] then Inl EmptyPath
      else if PERCENT_SEPARATOR pathname then Inl PercentEncodedSeparator
      else (case decodeURIComponent pathname of
              Inl _ \<Rightarrow> Inl PercentEncodedSeparator
            | Inr decoded \<Rightarrow>
                if PERCENT_SEPARATOR decoded then Inl PercentEncodedSeparator
                else if includes_str decoded [backslash] then Inl Backslash
                else if \<not> starts_with decoded [slash] then Inl NotAbsolute
                else let merged = merge_slashes decoded in
                     if [dot, dot] \<in> set (split_on slash merged) then Inl DotSegment
                     else Inr merged))"

definition is_prefix_form :: "jstring \<Rightarrow> bool" where
  "is_prefix_form prefix \<longleftrightarrow> starts_with prefix [slash] \<and> ends_with prefix [slash] \<and> prefix \<noteq> [slash]"

definition isSegmentPrefix :: "jstring \<Rightarrow> jstring \<Rightarrow> bool" where
  "isSegmentPrefix pathname prefix = (if \<not> is_prefix_form prefix then False else starts_with pathname prefix)"

definition matchPathPrefix :: "jstring \<Rightarrow> jstring list \<Rightarrow> bool" where
  "matchPathPrefix pathname prefixes =
     (case normalizePathname pathname of
        Inl _ \<Rightarrow> False
      | Inr normalized \<Rightarrow> list_ex (isSegmentPrefix normalized) prefixes)"

definition assertPathPrefix :: "jstring \<Rightarrow> path_error + unit" where
  "assertPathPrefix prefix = (if \<not> is_prefix_form prefix then Inl NotAPrefix else Inr ())"

section \<open>Tool names\<close>

definition normalizeToolSegment :: "jstring \<Rightarrow> jstring" where
  "normalizeToolSegment value =
     map (\<lambda>c. if c = dot then 95 else c) (map (\<lambda>c. if c = 45 then 95 else c) value)"

definition toolName :: "jstring \<Rightarrow> jstring \<Rightarrow> path_error + jstring" where
  "toolName systemId capabilityId =
     (let name = TOOL_NAME_PREFIX @ normalizeToolSegment systemId @ units ''__'' @ normalizeToolSegment capabilityId in
      if length name > TOOL_NAME_MAX_LENGTH then Inl ToolNameTooLong else Inr name)"

text \<open>\<open>s.split('__')\<close>: the pieces between the leftmost disjoint occurrences of two underscores.\<close>

fun split_double :: "jstring \<Rightarrow> jstring list" where
  "split_double (a # b # s) =
     (if a = 95 \<and> b = 95 then [] # split_double s
      else (case split_double (b # s) of [] \<Rightarrow> [[a]] | p # ps \<Rightarrow> (a # p) # ps))"
| "split_double s = [s]"

definition parseToolName :: "jstring \<Rightarrow> (jstring \<times> jstring) option" where
  "parseToolName value =
     (if \<not> starts_with value TOOL_NAME_PREFIX then None
      else (case split_double (drop (length TOOL_NAME_PREFIX) value) of
              [] \<Rightarrow> None
            | systemSegment # rest \<Rightarrow>
                let capabilitySegment = join_with (units ''__'') rest in
                if systemSegment = [] \<or> capabilitySegment = [] then None
                else Some (systemSegment, capabilitySegment)))"

section \<open>Lemmas on string primitives\<close>

lemma starts_with_iff: "starts_with s p \<longleftrightarrow> (\<exists>t. s = p @ t)"
  by (auto simp: starts_with_def) (metis append_take_drop_id)

lemma starts_with_self [simp]: "starts_with (p @ t) p" "starts_with s []"
  by (simp_all add: starts_with_def)

lemma includes_iff: "includes_str s p \<longleftrightarrow> (\<exists>a b. s = a @ p @ b)"
proof (induction s)
  case step: (Cons c s)
  show ?case
  proof
    assume "includes_str (c # s) p"
    then consider "starts_with (c # s) p" | "includes_str s p" by auto
    then show "\<exists>a b. c # s = a @ p @ b"
    proof cases
      case 1
      then obtain t where "c # s = p @ t" by (auto simp: starts_with_iff)
      then show ?thesis by (metis append_Nil)
    next
      case 2
      with step.IH obtain a b where "s = a @ p @ b" by blast
      then show ?thesis by (metis append_Cons)
    qed
  next
    assume "\<exists>a b. c # s = a @ p @ b"
    then obtain a b where ab: "c # s = a @ p @ b" by blast
    show "includes_str (c # s) p"
    proof (cases a)
      case Nil
      with ab have "starts_with (c # s) p" by (auto simp: starts_with_iff)
      then show ?thesis by simp
    next
      case (Cons x a')
      with ab have "s = a' @ p @ b" by simp
      then have "includes_str s p" using step.IH by blast
      then show ?thesis by simp
    qed
  qed
qed simp

lemma includes_single [simp]: "includes_str s [c] \<longleftrightarrow> c \<in> set s"
  unfolding includes_iff by (metis append_Cons append_Nil in_set_conv_decomp)

lemma merge_slashes_Nil [simp]: "merge_slashes s = [] \<longleftrightarrow> s = []"
  by (induction s rule: merge_slashes.induct) auto

lemma hd_merge_slashes: "s \<noteq> [] \<Longrightarrow> hd (merge_slashes s) = hd s"
  by (induction s rule: merge_slashes.induct) auto

lemma set_merge_slashes: "set (merge_slashes s) = set s"
  by (induction s rule: merge_slashes.induct) auto

lemma merge_slashes_id: "\<not> includes_str s [slash, slash] \<Longrightarrow> merge_slashes s = s"
  by (induction s rule: merge_slashes.induct) (auto simp: starts_with_def)

lemma merge_slashes_clean: "\<not> includes_str (merge_slashes s) [slash, slash]"
proof (induction s rule: merge_slashes.induct)
  case (1 a b s)
  show ?case
  proof (cases "a = slash \<and> b = slash")
    case False
    obtain c t where m: "merge_slashes (b # s) = c # t" "c = b"
      using hd_merge_slashes [of "b # s"] by (cases "merge_slashes (b # s)") auto
    with False 1(2) show ?thesis by (auto simp: starts_with_def)
  qed (use 1(1) in simp)
qed (auto simp: starts_with_def)

lemma percent_here_head:
  "percent_separator_here (x # l) \<Longrightarrow> x = percent"
  "percent_separator_here (x # y # l) \<Longrightarrow> y = 50"
  by (cases "x # l" rule: percent_separator_here.cases; simp)
    (cases "x # y # l" rule: percent_separator_here.cases; simp)

lemma percent_here_merge:
  "percent_separator_here (merge_slashes s) \<Longrightarrow> percent_separator_here s"
proof (cases s rule: percent_separator_here.cases)
  case (1 a b c t)
  assume "percent_separator_here (merge_slashes s)"
  with 1 hd_merge_slashes [of "c # t"] show ?thesis
    by (cases "merge_slashes (c # t)") (auto dest: percent_here_head split: if_splits)
qed (auto split: if_splits)

lemma percent_separator_merge: "PERCENT_SEPARATOR (merge_slashes s) \<Longrightarrow> PERCENT_SEPARATOR s"
  unfolding PERCENT_SEPARATOR_def
proof (induction s rule: merge_slashes.induct)
  case (1 a b s)
  then show ?case using percent_here_merge [of "a # b # s"] by (auto split: if_splits)
qed simp_all

lemma starts_with_merge: "starts_with s [slash] \<Longrightarrow> starts_with (merge_slashes s) [slash]"
  using hd_merge_slashes [of s] merge_slashes_Nil [of s]
  by (cases s; cases "merge_slashes s") (auto simp: starts_with_def)

lemma decode_plain: "percent \<notin> set s \<Longrightarrow> decodeURIComponent s = Inr s"
  by (induction s) auto

lemma normalizePathname_Inr:
  assumes "normalizePathname p = Inr q"
  obtains d where "decodeURIComponent p = Inr d" and "q = merge_slashes d" and "\<not> PERCENT_SEPARATOR d"
    and "backslash \<notin> set d" and "starts_with d [slash]" and "[dot, dot] \<notin> set (split_on slash q)"
  using assms by (auto simp: normalizePathname_def Let_def split: if_splits sum.splits)

text \<open>The laws of a request path in normal form.\<close>

definition clean_path :: "jstring \<Rightarrow> bool" where
  "clean_path q \<longleftrightarrow>
     starts_with q [slash] \<and> \<not> includes_str q [slash, slash] \<and> [dot, dot] \<notin> set (split_on slash q) \<and>
     backslash \<notin> set q \<and> \<not> PERCENT_SEPARATOR q"

lemma clean_normalize: "normalizePathname p = Inr q \<Longrightarrow> clean_path q"
  by (erule normalizePathname_Inr)
    (auto simp: clean_path_def merge_slashes_clean set_merge_slashes starts_with_merge dest: percent_separator_merge)

lemma normalize_clean: "clean_path q \<Longrightarrow> percent \<notin> set q \<Longrightarrow> normalizePathname q = Inr q"
  by (auto simp: clean_path_def normalizePathname_def decode_plain merge_slashes_id starts_with_def)

lemma isSegmentPrefix_segments:
  assumes "isSegmentPrefix q pre"
  obtains t where "q = pre @ t" and "split_on slash q = butlast (split_on slash pre) @ split_on slash t"
proof -
  from assms have pre: "is_prefix_form pre" "starts_with q pre" by (auto simp: isSegmentPrefix_def split: if_splits)
  then obtain t where t: "q = pre @ t" by (auto simp: starts_with_iff)
  from pre(1) have "drop (length pre - 1) pre = [slash]" by (simp add: is_prefix_form_def ends_with_def)
  then obtain a where a: "pre = a @ [slash]" by (metis append_take_drop_id)
  have "split_on slash q = split_on slash a @ split_on slash t"
    unfolding t a using split_on_append [of slash a t] by simp
  moreover have "butlast (split_on slash pre) = split_on slash a"
    unfolding a using split_on_append [of slash a "[]"] by simp
  ultimately show ?thesis using that t by simp
qed

lemma matchPathPrefix_Inr:
  "matchPathPrefix p prefixes \<longleftrightarrow>
     (\<exists>q pre. normalizePathname p = Inr q \<and> pre \<in> set prefixes \<and> isSegmentPrefix q pre)"
  by (auto simp: matchPathPrefix_def list_ex_iff split: sum.splits)

section \<open>Normal form of application paths\<close>

lemma starts_with_cut:
  assumes "starts_with (a @ c # b) w" and "c \<notin> set w"
  shows "starts_with a w"
proof -
  have w: "take (length w) (a @ c # b) = w" using assms(1) by (simp add: starts_with_def)
  have "length w \<le> length a"
  proof (rule ccontr)
    assume "\<not> length w \<le> length a"
    then have "c \<in> set (take (length w) (a @ c # b))"
      by (cases "length w - length a") (simp_all add: take_Cons')
    with w assms(2) show False by simp
  qed
  with w show ?thesis by (simp add: starts_with_def)
qed

lemma includes_cut:
  assumes "c \<notin> set w" and "w \<noteq> []"
  shows "includes_str (a @ c # b) w \<longleftrightarrow> includes_str a w \<or> includes_str b w"
proof
  show "includes_str (a @ c # b) w \<Longrightarrow> includes_str a w \<or> includes_str b w"
  proof (induction a)
    case Nil
    then show ?case using assms starts_with_cut [of "[]" c b w] by (auto simp: starts_with_iff)
  next
    case (Cons x a)
    then show ?case using starts_with_cut [of "x # a" c b w] assms by auto
  qed
next
  assume "includes_str a w \<or> includes_str b w"
  then obtain x y where "a = x @ w @ y \<or> b = x @ w @ y" by (auto simp: includes_iff)
  then show "includes_str (a @ c # b) w"
  proof
    assume "a = x @ w @ y"
    then have "a @ c # b = x @ w @ (y @ c # b)" by simp
    then show ?thesis unfolding includes_iff by blast
  next
    assume "b = x @ w @ y"
    then have "a @ c # b = (a @ c # x) @ w @ y" by simp
    then show ?thesis unfolding includes_iff by blast
  qed
qed

text \<open>The substrings that an application path may not contain.\<close>

definition forbidden :: "jstring list" where
  "forbidden = [[slash, slash], [dot, dot], [percent, 50, 70], [percent, 50, 102], [percent, 50, 69],
     [percent, 50, 101]]"

definition bad :: "jstring \<Rightarrow> bool" where
  "bad s \<longleftrightarrow> (\<exists>w\<in>set forbidden. includes_str s w)"

lemma percent_here_iff:
  "percent_separator_here s \<longleftrightarrow> (\<exists>c\<in>{70, 102, 69, 101}. starts_with s [percent, 50, c])"
  by (cases s rule: percent_separator_here.cases) (auto simp: starts_with_def)

lemma percent_separator_iff:
  "PERCENT_SEPARATOR s \<longleftrightarrow> (\<exists>c\<in>{70, 102, 69, 101}. includes_str s [percent, 50, c])"
  unfolding PERCENT_SEPARATOR_def
  by (induction s) (auto simp: percent_here_iff starts_with_def)

lemma bad_iff: "bad s \<longleftrightarrow> includes_str s [slash, slash] \<or> includes_str s [dot, dot] \<or> PERCENT_SEPARATOR s"
  by (auto simp: bad_def forbidden_def percent_separator_iff)

lemma bad_cut: "c \<in> {35, 38, 63} \<Longrightarrow> bad (a @ c # b) \<longleftrightarrow> bad a \<or> bad b"
proof -
  assume c: "c \<in> {35, 38, 63}"
  have "\<forall>w\<in>set forbidden. c \<notin> set w \<and> w \<noteq> []" using c by (auto simp: forbidden_def)
  then show ?thesis unfolding bad_def by (meson includes_cut)
qed

lemma bad_prefix: "bad a \<Longrightarrow> bad (a @ b)"
  unfolding bad_def includes_iff by (metis append.assoc)

lemma not_bad_short [simp]: "\<not> bad []" "\<not> bad [slash]"
  by (simp_all add: bad_def forbidden_def starts_with_def)

lemma bad_join: "bad (join_with [38] ps) \<longleftrightarrow> (\<exists>p\<in>set ps. bad p)"
  by (induction "[38 :: nat]" ps rule: join_with.induct) (auto simp: bad_cut)

lemma length_join:
  "ps \<noteq> [] \<Longrightarrow> Suc (length (join_with [c] ps)) = sum_list (map length ps) + length ps"
  by (induction "[c]" ps rule: join_with.induct) auto

lemma set_join: "set (join_with sep ps) \<subseteq> set sep \<union> \<Union> (set ` set ps)"
  by (induction sep ps rule: join_with.induct) auto

subsection \<open>The query\<close>

definition kept_parts :: "jstring \<Rightarrow> jstring list" where
  "kept_parts raw =
     js_sort (\<lambda>l r. query_key l \<le> query_key r)
       (filter (\<lambda>part. part \<noteq> [] \<and> query_key part \<notin> set RESERVED_QUERY_PARAMS) (split_on 38 raw))"

lemma normalizeQuery_kept: "normalizeQuery raw = join_with [38] (kept_parts raw)"
  by (simp add: normalizeQuery_def kept_parts_def)

lemma kept_parts_sound:
  "p \<in> set (kept_parts raw) \<Longrightarrow>
     p \<in> set (split_on 38 raw) \<and> p \<noteq> [] \<and> query_key p \<notin> set RESERVED_QUERY_PARAMS \<and> 38 \<notin> set p"
  by (auto simp: kept_parts_def dest: split_on_parts)

lemma kept_parts_sorted: "sorted_wrt (\<lambda>l r. query_key l \<le> query_key r) (kept_parts raw)"
  unfolding kept_parts_def by (rule sorted_js_sort [of UNIV]) auto

lemma split_normalizeQuery:
  "kept_parts raw \<noteq> [] \<Longrightarrow> split_on 38 (normalizeQuery raw) = kept_parts raw"
  unfolding normalizeQuery_kept by (rule split_join) (auto dest: kept_parts_sound)

lemma normalizeQuery_Nil [simp]: "normalizeQuery [] = []"
  by (simp add: normalizeQuery_kept kept_parts_def js_sort_def)

lemma normalizeQuery_again: "normalizeQuery (normalizeQuery raw) = normalizeQuery raw"
proof (cases "kept_parts raw = []")
  case False
  have "filter (\<lambda>part. part \<noteq> [] \<and> query_key part \<notin> set RESERVED_QUERY_PARAMS) (kept_parts raw) = kept_parts raw"
    by (rule filter_True) (auto dest: kept_parts_sound)
  then have "kept_parts (normalizeQuery raw) = kept_parts raw"
    using split_normalizeQuery [OF False] js_sort_sorted [OF kept_parts_sorted]
    by (simp add: kept_parts_def [of "normalizeQuery raw"])
  then show ?thesis by (simp add: normalizeQuery_kept)
next
  case True
  then have "normalizeQuery raw = []" by (simp add: normalizeQuery_kept)
  then show ?thesis by simp
qed

lemma normalizeQuery_set: "set (normalizeQuery raw) \<subseteq> set raw \<union> {38}"
proof -
  have "set p \<subseteq> set raw" if "p \<in> set (split_on 38 raw)" for p
    using that by (induction raw arbitrary: p) (fastforce split: list.splits if_splits)+
  then show ?thesis
    unfolding normalizeQuery_kept using set_join [of "[38]" "kept_parts raw"]
    by (auto dest!: kept_parts_sound)
qed

lemma sum_list_filter_le: "sum_list (map length (filter P xs)) \<le> sum_list (map length xs)"
  by (induction xs) auto

lemma normalizeQuery_length: "length (normalizeQuery raw) \<le> length raw"
proof (cases "kept_parts raw = []")
  case False
  have mset: "mset (kept_parts raw) = mset (filter (\<lambda>part. part \<noteq> [] \<and> query_key part \<notin> set RESERVED_QUERY_PARAMS)
      (split_on 38 raw))"
    by (simp add: kept_parts_def)
  then have "sum_list (map length (kept_parts raw)) \<le> sum_list (map length (split_on 38 raw))"
    using sum_list_filter_le by (metis (no_types, lifting) mset_map sum_mset_sum_list)
  moreover have "length (kept_parts raw) \<le> length (split_on 38 raw)"
    using mset by (metis length_filter_le size_mset)
  ultimately show ?thesis
    using length_join [OF False, of 38] length_join [OF split_on_nonempty, of 38 38 raw]
    by (simp add: normalizeQuery_kept)
qed (simp add: normalizeQuery_kept)

lemma normalizeQuery_not_bad: "\<not> bad raw \<Longrightarrow> \<not> bad (normalizeQuery raw)"
  unfolding normalizeQuery_kept bad_join
  using bad_join [of "split_on 38 raw"] by (auto dest: kept_parts_sound)

subsection \<open>The whole path\<close>

lemma length_takeWhile_all: "length (takeWhile P s) = length s \<longleftrightarrow> (\<forall>x\<in>set s. P x)"
  by (induction s) auto

lemma index_of_None: "index_of c s = None \<longleftrightarrow> c \<notin> set s"
  by (auto simp: index_of_def Let_def length_takeWhile_all)

lemma takeWhile_cut: "c \<notin> set a \<Longrightarrow> takeWhile (\<lambda>x. x \<noteq> c) (a @ c # b) = a"
  by (induction a) auto

lemma index_of_cut: "c \<notin> set a \<Longrightarrow> index_of c (a @ c # b) = Some (length a)"
  by (simp add: index_of_def Let_def takeWhile_cut)

lemma cut_at:
  obtains "c \<notin> set s" | a b where "s = a @ c # b" and "c \<notin> set a"
  by (metis split_list_first)

text \<open>An optional part introduced by a mark.\<close>

definition marked :: "nat \<Rightarrow> jstring option \<Rightarrow> jstring" where
  "marked c part = (case part of None \<Rightarrow> [] | Some s \<Rightarrow> c # s)"

lemma marked_simps [simp]: "marked c None = []" "marked c (Some s) = c # s"
  by (simp_all add: marked_def)

text \<open>Every path is a path name, an optional query and an optional fragment.\<close>

lemma path_parts:
  obtains P Q H where "path = P @ marked 63 Q @ marked 35 H" and "35 \<notin> set P" and "63 \<notin> set P"
    and "\<forall>r. Q = Some r \<longrightarrow> 35 \<notin> set r"
proof -
  have query: "\<exists>P Q. w = P @ marked 63 Q \<and> 63 \<notin> set P" for w
  proof (cases w rule: cut_at [of 63])
    case 1
    then have "w = w @ marked 63 None \<and> 63 \<notin> set w" by simp
    then show ?thesis by blast
  next
    case (2 a b)
    then have "w = a @ marked 63 (Some b) \<and> 63 \<notin> set a" by simp
    then show ?thesis by blast
  qed
  have hash: "\<exists>w H. path = w @ marked 35 H \<and> 35 \<notin> set w"
  proof (cases path rule: cut_at [of 35])
    case 1
    then have "path = path @ marked 35 None \<and> 35 \<notin> set path" by simp
    then show ?thesis by blast
  next
    case (2 a b)
    then have "path = a @ marked 35 (Some b) \<and> 35 \<notin> set a" by simp
    then show ?thesis by blast
  qed
  then obtain w H where w: "path = w @ marked 35 H" "35 \<notin> set w" by blast
  from query obtain P Q where "w = P @ marked 63 Q" "63 \<notin> set P" by blast
  with w show ?thesis by (intro that [of P Q H]) auto
qed

definition trim_slash :: "jstring \<Rightarrow> jstring" where
  "trim_slash P =
     (let P1 = (if length P > 1 \<and> ends_with P [slash] then butlast P else P) in if P1 = [] then [slash] else P1)"

definition the_query :: "jstring option \<Rightarrow> jstring option" where
  "the_query Q = (case Q of None \<Rightarrow> None | Some r \<Rightarrow> if normalizeQuery r = [] then None else Some (normalizeQuery r))"

lemma render_parts:
  assumes "35 \<notin> set P" and "63 \<notin> set P" and "\<forall>r. Q = Some r \<longrightarrow> 35 \<notin> set r"
  shows "render_path (P @ marked 63 Q @ marked 35 H) = trim_slash P @ marked 63 (the_query Q) @ marked 35 H"
proof -
  let ?w = "P @ marked 63 Q"
  have w35: "35 \<notin> set ?w" using assms by (cases Q) auto
  have hash: "(case index_of 35 (P @ marked 63 Q @ marked 35 H) of None \<Rightarrow> []
      | Some n \<Rightarrow> drop n (P @ marked 63 Q @ marked 35 H)) = marked 35 H"
    using w35 index_of_cut [of 35 ?w] index_of_None [of 35 ?w] by (cases H) auto
  have rest: "(case index_of 35 (P @ marked 63 Q @ marked 35 H) of None \<Rightarrow> P @ marked 63 Q @ marked 35 H
      | Some n \<Rightarrow> take n (P @ marked 63 Q @ marked 35 H)) = ?w"
    using w35 index_of_cut [of 35 ?w] index_of_None [of 35 ?w] by (cases H) auto
  have raw: "(case index_of 63 ?w of None \<Rightarrow> [] | Some n \<Rightarrow> drop (n + 1) ?w) = (case Q of None \<Rightarrow> [] | Some r \<Rightarrow> r)"
    using assms(2) index_of_cut [of 63 P] index_of_None [of 63 P] by (cases Q) auto
  have name: "(case index_of 63 ?w of None \<Rightarrow> ?w | Some n \<Rightarrow> take n ?w) = P"
    using assms(2) index_of_cut [of 63 P] index_of_None [of 63 P] by (cases Q) auto
  show ?thesis
    unfolding render_path_def hash rest Let_def raw name
    by (cases Q) (simp_all add: trim_slash_def the_query_def Let_def)
qed

lemma butlast_prefix: "butlast P @ [last P] = P \<or> P = []"
  by (cases P) auto

lemma trim_slash_props:
  assumes "P \<noteq> []" and "\<not> bad P"
  shows "set (trim_slash P) \<subseteq> set P \<union> {slash}" "length (trim_slash P) \<le> length P" "\<not> bad (trim_slash P)"
    "trim_slash (trim_slash P) = trim_slash P" "trim_slash P \<noteq> []"
    "starts_with P [slash] \<Longrightarrow> starts_with (trim_slash P) [slash]"
proof -
  have len: "length P = 1 \<or> length P > 1" using assms(1) by (cases P) auto
  show "set (trim_slash P) \<subseteq> set P \<union> {slash}" by (auto simp: trim_slash_def Let_def dest: in_set_butlastD)
  show "length (trim_slash P) \<le> length P" using len by (auto simp: trim_slash_def Let_def)
  show "trim_slash P \<noteq> []" by (simp add: trim_slash_def Let_def)
  show "\<not> bad (trim_slash P)"
    using assms bad_prefix [of "butlast P" "[last P]"] butlast_prefix [of P] by (auto simp: trim_slash_def Let_def)
  show "starts_with P [slash] \<Longrightarrow> starts_with (trim_slash P) [slash]"
    by (cases P) (auto simp: trim_slash_def Let_def starts_with_def)
  show "trim_slash (trim_slash P) = trim_slash P"
  proof (cases "length P > 1 \<and> ends_with P [slash]")
    case True
    then have "P = butlast P @ [slash]"
      using append_take_drop_id [of "length P - 1" P] by (simp add: ends_with_def butlast_conv_take)
    then obtain a where a: "P = a @ [slash]" by blast
    have "\<not> ends_with a [slash]"
    proof
      assume "ends_with a [slash]"
      then have "drop (length a - 1) a = [slash]" by (simp add: ends_with_def)
      then obtain b where "a = b @ [slash]" by (metis append_take_drop_id)
      with a have "P = b @ [slash, slash] @ []" by simp
      then have "includes_str P [slash, slash]" unfolding includes_iff by blast
      with assms(2) show False by (simp add: bad_iff)
    qed
    moreover have "a \<noteq> []" using True a by auto
    ultimately show ?thesis using True a by (simp add: trim_slash_def)
  qed (use assms(1) in \<open>auto simp: trim_slash_def Let_def\<close>)
qed

lemma render_again:
  assumes start: "starts_with path [slash]" and nb: "\<not> bad path"
  shows "render_path (render_path path) = render_path path" and "\<not> bad (render_path path)"
    and "length (render_path path) \<le> length path" and "set (render_path path) \<subseteq> set path \<union> {slash, 38}"
    and "starts_with (render_path path) [slash]"
proof -
  obtain P Q H where parts: "path = P @ marked 63 Q @ marked 35 H" "35 \<notin> set P" "63 \<notin> set P"
    "\<forall>r. Q = Some r \<longrightarrow> 35 \<notin> set r"
    using path_parts [of path] by blast
  have P: "P \<noteq> []" using start parts(1) by (cases P; cases Q; cases H) (auto simp: starts_with_def)
  have nbs: "\<not> bad P" "\<And>r. Q = Some r \<Longrightarrow> \<not> bad r" "\<And>h. H = Some h \<Longrightarrow> \<not> bad h"
    using nb bad_cut unfolding parts(1) by (cases Q; cases H; auto)+
  note trim = trim_slash_props [OF P nbs(1)]
  note out = render_parts [OF parts(2,3,4), of H, folded parts(1)]
  have q: "\<forall>r. the_query Q = Some r \<longrightarrow> 35 \<notin> set r"
    using parts(4) normalizeQuery_set by (fastforce simp: the_query_def split: option.splits if_splits)
  have again: "the_query (the_query Q) = the_query Q"
    by (auto simp: the_query_def normalizeQuery_again split: option.splits)
  have "35 \<notin> set (trim_slash P)" "63 \<notin> set (trim_slash P)" using trim(1) parts(2,3) by auto
  from render_parts [OF this q, of H] show "render_path (render_path path) = render_path path"
    unfolding out by (simp add: trim(4) again)
  show "\<not> bad (render_path path)"
    unfolding out using nbs trim(3) normalizeQuery_not_bad
    by (cases Q; cases H) (auto simp: the_query_def bad_cut)
  show "length (render_path path) \<le> length path"
    unfolding out unfolding parts(1) using trim(2) normalizeQuery_length
    by (cases Q) (auto simp: the_query_def add_le_mono)
  show "set (render_path path) \<subseteq> set path \<union> {slash, 38}"
    unfolding out unfolding parts(1) using trim(1) normalizeQuery_set [of "the Q"]
    by (cases Q) (auto simp: the_query_def)
  have "starts_with P [slash]" using start P unfolding parts(1) by (cases P) (auto simp: starts_with_def)
  then show "starts_with (render_path path) [slash]"
    unfolding out using trim(5,6) by (cases "trim_slash P") (auto simp: starts_with_def)
qed

section \<open>Tool names\<close>

lemma split_double_nonempty [simp]: "split_double s \<noteq> []"
  by (induction s rule: split_double.induct) (auto split: list.splits)

lemma join_split_double: "join_with [95, 95] (split_double s) = s"
proof (induction s rule: split_double.induct)
  case (1 a b s)
  show ?case
  proof (cases "a = 95 \<and> b = 95")
    case True
    with 1(1) show ?thesis
      using split_double_nonempty [of s] by (cases "split_double s") auto
  next
    case False
    obtain p ps where ps: "split_double (b # s) = p # ps"
      using split_double_nonempty [of "b # s"] by (cases "split_double (b # s)") auto
    from 1(2) [OF False] False ps show ?thesis by (cases ps) auto
  qed
qed simp_all

lemma split_double_cut:
  "\<not> includes_str s [95, 95] \<Longrightarrow> s = [] \<or> last s \<noteq> 95 \<Longrightarrow> split_double (s @ 95 # 95 # t) = s # split_double t"
proof (induction s)
  case (Cons a s)
  then have IH: "split_double (s @ 95 # 95 # t) = s # split_double t" by (cases s) auto
  show ?case
  proof (cases s)
    case Nil
    with Cons.prems show ?thesis by simp
  next
    case (Cons b s')
    with \<open>\<not> includes_str (a # s) [95, 95]\<close> have "\<not> (a = 95 \<and> b = 95)" by (auto simp: starts_with_def)
    with IH Cons show ?thesis by simp
  qed
qed simp

section \<open>Properties\<close>

text \<open>Authorization only ever decides on clean request paths: whatever the raw path, its encoding
  included, a normalized path is absolute, has no empty inner segment, no \<open>..\<close> segment, no backslash and
  no encoded separator or dot left, and every prefix match is a match on complete segments: the
  segments of the prefix are the first segments of the path.\<close>

theorem prefix_match_sound:
  assumes "matchPathPrefix p prefixes"
  shows "\<exists>q pre t. normalizePathname p = Inr q \<and> clean_path q \<and> pre \<in> set prefixes \<and> pre \<noteq> [slash] \<and>
           q = pre @ t \<and> split_on slash q = butlast (split_on slash pre) @ split_on slash t"
proof -
  from assms obtain q pre where q: "normalizePathname p = Inr q" "pre \<in> set prefixes" "isSegmentPrefix q pre"
    by (auto simp: matchPathPrefix_Inr)
  moreover from q(3) have "pre \<noteq> [slash]" by (auto simp: isSegmentPrefix_def is_prefix_form_def split: if_splits)
  moreover from q(3) obtain t where "q = pre @ t" "split_on slash q = butlast (split_on slash pre) @ split_on slash t"
    by (rule isSegmentPrefix_segments)
  ultimately show ?thesis using clean_normalize [OF q(1)] by blast
qed

lemma prefix_match_sound_witness:
  "\<exists>q pre t. normalizePathname (units ''/api//%61pp/x'') = Inr q \<and> clean_path q \<and>
     pre \<in> set [units ''/api/app/''] \<and> pre \<noteq> [slash] \<and>
     q = pre @ t \<and> split_on slash q = butlast (split_on slash pre) @ split_on slash t"
proof -
  have "matchPathPrefix (units ''/api//%61pp/x'') [units ''/api/app/'']" by code_simp
  then show ?thesis by (rule prefix_match_sound)
qed

text \<open>A request path whose decoded form contains no percent sign is a fixed point of the
  normalization, so that normalizing it again, as the endpoint matrix and the prefix matcher do with the
  path they are given, decides on the same path.\<close>

theorem pathname_stable:
  assumes "normalizePathname p = Inr q" and "percent \<notin> set q"
  shows "normalizePathname q = Inr q"
  using normalize_clean [OF clean_normalize [OF assms(1)] assms(2)] .

lemma pathname_stable_witness:
  "normalizePathname (units ''/a//b'') = Inr (units ''/a/b'') \<and> normalizePathname (units ''/a/b'') = Inr (units ''/a/b'')"
proof -
  have "normalizePathname (units ''/a//b'') = Inr (units ''/a/b'')" "percent \<notin> set (units ''/a/b'')" by code_simp+
  with pathname_stable show ?thesis by blast
qed

text \<open>Without that condition it is not: an escaped percent sign is decoded once more by every further
  normalization.\<close>

theorem pathname_decoded_again:
  "normalizePathname (units ''/%2541'') = Inr (units ''/%41'') \<and>
   normalizePathname (units ''/%41'') = Inr (units ''/A'')"
  by code_simp

text \<open>The normal form of an application path is canonical: normalizing it again returns it
  unchanged, and it still satisfies every condition that the raw path was checked for.\<close>

theorem app_path_idempotent:
  assumes "normalizeAppPath path = Inr q"
  shows "normalizeAppPath q = Inr q"
proof -
  from assms have path: "\<not> length path > APP_PATH_MAX_LENGTH" "backslash \<notin> set path" "\<not> list_ex is_white path"
    "starts_with path [slash]" "\<not> bad path" and q: "q = render_path path"
    by (auto simp: normalizeAppPath_def bad_iff split: if_splits)
  note r = render_again [OF path(4,5), folded q]
  have "q \<noteq> []" "\<not> SCHEME q"
    using r(5) by (cases q; auto simp: starts_with_def is_alpha_def)+
  moreover have "\<not> is_white slash" "\<not> is_white 38" by (simp_all add: is_white_def)
  with path(3) r(4) have "\<not> list_ex is_white q" by (auto simp: list_ex_iff)
  moreover have "backslash \<notin> set q" using path(2) r(4) by auto
  ultimately show ?thesis
    using r path(1) by (simp add: normalizeAppPath_def bad_iff)
qed

lemma app_path_idempotent_witness:
  "normalizeAppPath (units ''/a/?z=1&ky=2&b#f'') = Inr (units ''/a?b&z=1#f'') \<and>
   normalizeAppPath (units ''/a?b&z=1#f'') = Inr (units ''/a?b&z=1#f'')"
proof -
  have "normalizeAppPath (units ''/a/?z=1&ky=2&b#f'') = Inr (units ''/a?b&z=1#f'')"
    by (simp add: units_def normalizeAppPath_def APP_PATH_MAX_LENGTH_def is_alpha_def is_white_def starts_with_def
        PERCENT_SEPARATOR_def render_path_def index_of_def ends_with_def normalizeQuery_def query_key_def
        RESERVED_QUERY_PARAMS_def js_sort_def Let_def)
  with app_path_idempotent show ?thesis by blast
qed

text \<open>The query of an application path keeps exactly the non-empty parts whose key is not
  reserved, ordered by key, and parts of the same key keep their order.\<close>

theorem query_normal_form:
  "let kept = filter (\<lambda>part. part \<noteq> [] \<and> query_key part \<notin> {units ''ky'', units ''ky_iid'', units ''ky_nonce''})
                (split_on 38 raw);
       parts = (if normalizeQuery raw = [] then [] else split_on 38 (normalizeQuery raw)) in
     mset parts = mset kept \<and> sorted_wrt (\<lambda>l r. query_key l \<le> query_key r) parts \<and>
     (\<forall>k. filter (\<lambda>part. query_key part = k) parts = filter (\<lambda>part. query_key part = k) kept)"
proof -
  have empty: "normalizeQuery raw = [] \<longleftrightarrow> kept_parts raw = []"
  proof
    assume "normalizeQuery raw = []"
    with split_normalizeQuery [of raw] kept_parts_sound [of "[]" raw] show "kept_parts raw = []"
      by (cases "kept_parts raw = []") (simp_all, metis list.set_intros(1))
  qed (simp add: normalizeQuery_kept)
  have parts: "(if normalizeQuery raw = [] then [] else split_on 38 (normalizeQuery raw)) = kept_parts raw"
    using split_normalizeQuery [of raw] empty by auto
  have stable: "filter (\<lambda>part. query_key part = k) (js_insert (\<lambda>l r. query_key l \<le> query_key r) x ys) =
      filter (\<lambda>part. query_key part = k) (x # ys)" for k x ys
    by (induction ys) auto
  have "filter (\<lambda>part. query_key part = k) (js_sort (\<lambda>l r. query_key l \<le> query_key r) xs) =
      filter (\<lambda>part. query_key part = k) xs" for k xs
    by (induction xs) (simp_all add: js_sort_def stable del: filter.simps, simp)
  then show ?thesis
    unfolding Let_def parts using kept_parts_sorted by (simp add: kept_parts_def RESERVED_QUERY_PARAMS_def)
qed

text \<open>A tool name can be taken apart again: if the normalized system id contains no double
  underscore and does not end in one, the parsed segments of the tool name are the normalized ids, and
  a tool name never exceeds 64 code units.\<close>

theorem tool_name_roundtrip:
  assumes "toolName systemId capabilityId = Inr name"
    and "\<not> includes_str (normalizeToolSegment systemId) (units ''__'')"
    and "last (normalizeToolSegment systemId) \<noteq> 95" and "systemId \<noteq> []" and "capabilityId \<noteq> []"
  shows "parseToolName name = Some (normalizeToolSegment systemId, normalizeToolSegment capabilityId) \<and>
         length name \<le> 64"
proof -
  have us: "units ''__'' = [95, 95]" by code_simp
  have name: "name = TOOL_NAME_PREFIX @ normalizeToolSegment systemId @ 95 # 95 # normalizeToolSegment capabilityId"
    "length name \<le> 64"
    using assms(1) by (auto simp: toolName_def Let_def us TOOL_NAME_MAX_LENGTH_def split: if_splits)
  have ne: "normalizeToolSegment systemId \<noteq> []" "normalizeToolSegment capabilityId \<noteq> []"
    using assms(4,5) by (simp_all add: normalizeToolSegment_def)
  have "split_double (normalizeToolSegment systemId @ 95 # 95 # normalizeToolSegment capabilityId) =
      normalizeToolSegment systemId # split_double (normalizeToolSegment capabilityId)"
    using assms(2,3) by (intro split_double_cut) (simp_all add: us)
  with name ne show ?thesis by (simp add: parseToolName_def us join_split_double Let_def)
qed

lemma tool_name_roundtrip_witness:
  "parseToolName (units ''app__crm_x__do__it'') = Some (units ''crm_x'', units ''do__it'')"
proof -
  have "toolName (units ''crm-x'') (units ''do__it'') = Inr (units ''app__crm_x__do__it'')"
    "\<not> includes_str (normalizeToolSegment (units ''crm-x'')) (units ''__'')"
    "last (normalizeToolSegment (units ''crm-x'')) \<noteq> 95" "units ''crm-x'' \<noteq> []" "units ''do__it'' \<noteq> []"
    "normalizeToolSegment (units ''crm-x'') = units ''crm_x''" "normalizeToolSegment (units ''do__it'') = units ''do__it''"
    by code_simp+
  with tool_name_roundtrip [of "units ''crm-x''" "units ''do__it''"] show ?thesis by simp
qed

end
