(* ===== verification/App_Claims.thy ===== *)
theory App_Claims
  imports App_Path
begin

text \<open>
  The claims matrix of service access tokens and the endpoint matrix
  (\<^verbatim>\<open>packages/ky-app-contract/src/claims.ts\<close>), with the error codes and the comparison of digests that the
  application server shares. Request paths are lists of code units, as in \<open>App_Path\<close>; claims and methods
  are strings.
\<close>

datatype app_error =
    Unauthorized | TokenReplayed | Forbidden | ApprovalRequired | InstallationDisabled | DirectoryStale
  | NotFound | InvalidInput | IdempotencyMismatch | InProgress | DigestMismatch | StateGap | ResponseTooLarge
  | RateLimited | Maintenance | UpstreamUnavailable | Internal

datatype sat_act = ActUser | ActAgent | ActPlatform

datatype local_act = LocalAdmin | LocalUser

datatype endpoint_actor = SatActor sat_act | LocalActor local_act | PublicActor

datatype claim_requirement = Required | ForbiddenClaim | Optional

definition SAT_ACTS :: "(string \<times> sat_act) list" where
  "SAT_ACTS = [(''user'', ActUser), (''agent'', ActAgent), (''platform'', ActPlatform)]"

section \<open>The claims matrix\<close>

fun SAT_CLAIM_MATRIX :: "sat_act \<Rightarrow> (string \<times> claim_requirement) list" where
  "SAT_CLAIM_MATRIX ActUser =
     [(''iss'', Required), (''aud'', Required), (''tid'', Required), (''iid'', Required), (''sub'', Required),
      (''tadm'', Required), (''pfx'', Required), (''cap'', ForbiddenClaim), (''lcid'', ForbiddenClaim),
      (''dig'', ForbiddenClaim), (''apr'', ForbiddenClaim), (''aph'', ForbiddenClaim), (''sid'', ForbiddenClaim),
      (''rid'', ForbiddenClaim), (''name'', Optional), (''iat'', Required), (''nbf'', Required),
      (''exp'', Required), (''jti'', Required)]"
| "SAT_CLAIM_MATRIX ActAgent =
     [(''iss'', Required), (''aud'', Required), (''tid'', Required), (''iid'', Required), (''sub'', Required),
      (''tadm'', Required), (''pfx'', ForbiddenClaim), (''cap'', Required), (''lcid'', Required),
      (''dig'', Required), (''apr'', Optional), (''aph'', Optional), (''sid'', Required),
      (''rid'', Required), (''name'', ForbiddenClaim), (''iat'', Required), (''nbf'', Required),
      (''exp'', Required), (''jti'', Required)]"
| "SAT_CLAIM_MATRIX ActPlatform =
     [(''iss'', Required), (''aud'', Required), (''tid'', Required), (''iid'', Required), (''sub'', ForbiddenClaim),
      (''tadm'', ForbiddenClaim), (''pfx'', ForbiddenClaim), (''cap'', ForbiddenClaim), (''lcid'', ForbiddenClaim),
      (''dig'', Optional), (''apr'', ForbiddenClaim), (''aph'', ForbiddenClaim), (''sid'', ForbiddenClaim),
      (''rid'', Required), (''name'', ForbiddenClaim), (''iat'', Required), (''nbf'', Required),
      (''exp'', Required), (''jti'', Required)]"

definition JTI_MIN_LENGTH :: nat where
  "JTI_MIN_LENGTH = 22"

definition MAX_SAFE :: int where
  "MAX_SAFE = 9007199254740991"

definition HEX_64 :: "string \<Rightarrow> bool" where
  "HEX_64 s \<longleftrightarrow> length s = 64 \<and> list_all (\<lambda>c. c \<in> set ''0123456789abcdef'') s"

fun isNonEmptyString :: "json \<Rightarrow> bool" where
  "isNonEmptyString (JStr s) = (length s > 0)"
| "isNonEmptyString _ = False"

fun isEpochSeconds :: "json \<Rightarrow> bool" where
  "isEpochSeconds (JNum (IntNum n)) = (n \<le> MAX_SAFE \<and> n > 0)"
| "isEpochSeconds _ = False"

definition prefix_string :: "string \<Rightarrow> bool" where
  "prefix_string s \<longleftrightarrow> s \<noteq> [] \<and> hd s = CHR ''/'' \<and> last s = CHR ''/'' \<and> s \<noteq> ''/''"

fun is_prefix_item :: "json \<Rightarrow> bool" where
  "is_prefix_item (JStr s) = prefix_string s"
| "is_prefix_item _ = False"

fun isPrefixArray :: "json \<Rightarrow> bool" where
  "isPrefixArray (JArr items) = list_all is_prefix_item items"
| "isPrefixArray _ = False"

fun is_boolean :: "json \<Rightarrow> bool" where
  "is_boolean (JBool b) = True"
| "is_boolean _ = False"

fun is_hex_digest :: "json \<Rightarrow> bool" where
  "is_hex_digest (JStr s) = HEX_64 s"
| "is_hex_digest _ = False"

fun is_jti :: "json \<Rightarrow> bool" where
  "is_jti (JStr s) = (length s \<ge> JTI_MIN_LENGTH)"
| "is_jti _ = False"

definition CLAIM_TYPE_CHECKS :: "(string \<times> (json \<Rightarrow> bool)) list" where
  "CLAIM_TYPE_CHECKS =
     [(''iss'', isNonEmptyString), (''aud'', isNonEmptyString), (''tid'', isNonEmptyString),
      (''iid'', isNonEmptyString), (''sub'', isNonEmptyString), (''cap'', isNonEmptyString),
      (''lcid'', isNonEmptyString), (''sid'', isNonEmptyString), (''rid'', isNonEmptyString),
      (''apr'', isNonEmptyString), (''name'', isNonEmptyString), (''tadm'', is_boolean),
      (''pfx'', isPrefixArray), (''dig'', is_hex_digest), (''aph'', is_hex_digest),
      (''iat'', isEpochSeconds), (''nbf'', isEpochSeconds), (''exp'', isEpochSeconds), (''jti'', is_jti)]"

datatype claim_error =
    PayloadNotObject | UnknownAct | ClaimForbidden string | ClaimMissing string | ClaimIllegal string | AprAphUnpaired

record claims_check =
  cc_ok :: bool
  cc_act :: "sat_act option"
  cc_errors :: "claim_error list"

text \<open>One row of the matrix against the payload: the error it contributes, if any.\<close>

definition check_claim :: "(string \<times> json) list \<Rightarrow> string \<times> claim_requirement \<Rightarrow> claim_error option" where
  "check_claim claims entry =
     (case entry of (claim, requirement) \<Rightarrow>
        let present = (js_prop claims claim \<noteq> JUndefined) in
        if requirement = ForbiddenClaim \<and> present then Some (ClaimForbidden claim)
        else if requirement = Required \<and> \<not> present then Some (ClaimMissing claim)
        else if present
        then (case map_of CLAIM_TYPE_CHECKS claim of
                None \<Rightarrow> None
              | Some chk \<Rightarrow> if \<not> chk (js_prop claims claim) then Some (ClaimIllegal claim) else None)
        else None)"

fun sat_act_of :: "json \<Rightarrow> sat_act option" where
  "sat_act_of (JStr s) = map_of SAT_ACTS s"
| "sat_act_of _ = None"

fun checkSatClaims :: "json \<Rightarrow> claims_check" where
  "checkSatClaims (JObj claims) =
     (case sat_act_of (js_prop claims ''act'') of
        None \<Rightarrow> \<lparr>cc_ok = False, cc_act = None, cc_errors = [UnknownAct]\<rparr>
      | Some act \<Rightarrow>
          let hasApr = (js_prop claims ''apr'' \<noteq> JUndefined);
              hasAph = (js_prop claims ''aph'' \<noteq> JUndefined);
              errors = List.map_filter (check_claim claims) (SAT_CLAIM_MATRIX act) @
                       (if hasApr \<noteq> hasAph then [AprAphUnpaired] else []) in
          \<lparr>cc_ok = (errors = []), cc_act = Some act, cc_errors = errors\<rparr>)"
| "checkSatClaims _ = \<lparr>cc_ok = False, cc_act = None, cc_errors = [PayloadNotObject]\<rparr>"

text \<open>\<^verbatim>\<open>timingSafeEqualHex\<close> of \<^verbatim>\<open>hash.ts\<close>: equality of the octets that two hexadecimal strings denote.\<close>

definition hex_char_value :: "char \<Rightarrow> nat option" where
  "hex_char_value c = hex_value (of_char c)"

definition timingSafeEqualHex :: "string \<Rightarrow> string \<Rightarrow> bool" where
  "timingSafeEqualHex left right \<longleftrightarrow>
     length left = length right \<and> length left \<noteq> 0 \<and> even (length left) \<and>
     list_all (\<lambda>c. hex_char_value c \<noteq> None) left \<and> list_all (\<lambda>c. hex_char_value c \<noteq> None) right \<and>
     map hex_char_value left = map hex_char_value right"

section \<open>The endpoint matrix\<close>

record path_prefixes =
  pp_user :: "jstring list"
  pp_admin :: "jstring list"

record endpoint_options =
  eo_pathPrefixes :: path_prefixes
  eo_tadm :: "bool option"
  eo_localMode :: "bool option"
  eo_testEndpoints :: "bool option"

definition RESERVED_PATH_PREFIXES :: "jstring list" where
  "RESERVED_PATH_PREFIXES = [units ''/ky/'', units ''/ky-local/'', units ''/internal/'']"

text \<open>\<open>method.toUpperCase()\<close> on an HTTP method, an ASCII token.\<close>

definition toUpperCase :: "string \<Rightarrow> string" where
  "toUpperCase s = map (\<lambda>c. let n = of_char c :: nat in if 97 \<le> n \<and> n \<le> 122 then char_of (n - 32) else c) s"

text \<open>The part of a path after \<^verbatim>\<open>/ky/v1/capabilities/\<close> or \<^verbatim>\<open>/ky/v2/capabilities/\<close>.\<close>

definition capability_tail :: "jstring \<Rightarrow> jstring option" where
  "capability_tail path =
     (if starts_with path (units ''/ky/v1/capabilities/'') \<or> starts_with path (units ''/ky/v2/capabilities/'')
      then Some (drop 20 path) else None)"

definition CAPABILITY_INVOKE :: "jstring \<Rightarrow> bool" where
  "CAPABILITY_INVOKE path =
     (case capability_tail path of None \<Rightarrow> False | Some t \<Rightarrow> t \<noteq> [] \<and> slash \<notin> set t)"

definition CAPABILITY_EXECUTION :: "jstring \<Rightarrow> bool" where
  "CAPABILITY_EXECUTION path =
     (case capability_tail path of
        None \<Rightarrow> False
      | Some t \<Rightarrow> (case split_on slash t of
                     [cap, mid, lcid] \<Rightarrow> cap \<noteq> [] \<and> mid = units ''executions'' \<and> lcid \<noteq> []
                   | _ \<Rightarrow> False))"

definition reserved_path :: "jstring \<Rightarrow> bool" where
  "reserved_path path = list_ex (starts_with path) RESERVED_PATH_PREFIXES"

definition matchesBusinessPrefix :: "jstring \<Rightarrow> endpoint_options \<Rightarrow> bool \<Rightarrow> bool" where
  "matchesBusinessPrefix path options admin =
     (if reserved_path path then False
      else if matchPathPrefix path (pp_user (eo_pathPrefixes options)) then True
      else if admin \<and> matchPathPrefix path (pp_admin (eo_pathPrefixes options)) then True
      else False)"

definition public_endpoint :: "string \<Rightarrow> jstring \<Rightarrow> bool" where
  "public_endpoint verb path \<longleftrightarrow>
     (verb = ''GET'' \<and> path \<in> set [units ''/ky/v1/health/live'', units ''/ky/v2/health/live'']) \<or>
     (verb = ''GET'' \<and> path \<in> set [units ''/ky/v1/attest'', units ''/ky/v2/attest'']) \<or>
     (verb = ''POST'' \<and> path = units ''/ky-local/enable'')"

definition me_endpoint :: "string \<Rightarrow> jstring \<Rightarrow> bool" where
  "me_endpoint verb path \<longleftrightarrow> verb = ''GET'' \<and> path \<in> set [units ''/ky/v1/me'', units ''/ky/v2/me'']"

definition platform_endpoint :: "string \<Rightarrow> jstring \<Rightarrow> bool" where
  "platform_endpoint verb path \<longleftrightarrow>
     (verb = ''GET'' \<and> path \<in> set [units ''/ky/v1/health/ready'', units ''/ky/v2/health/ready'']) \<or>
     (verb = ''GET'' \<and> path \<in> set [units ''/ky/v1/manifest'', units ''/ky/v2/manifest'']) \<or>
     (verb = ''POST'' \<and> path \<in> set [units ''/ky/v1/events'', units ''/ky/v2/events''])"

definition agent_endpoint :: "string \<Rightarrow> jstring \<Rightarrow> bool" where
  "agent_endpoint verb path \<longleftrightarrow>
     (verb = ''POST'' \<and> CAPABILITY_INVOKE path) \<or> (verb = ''GET'' \<and> CAPABILITY_EXECUTION path)"

fun actor_row :: "endpoint_actor \<Rightarrow> string \<Rightarrow> jstring \<Rightarrow> endpoint_options \<Rightarrow> bool" where
  "actor_row (SatActor ActPlatform) verb path options = platform_endpoint verb path"
| "actor_row (SatActor ActAgent) verb path options = agent_endpoint verb path"
| "actor_row (SatActor ActUser) verb path options =
     (me_endpoint verb path \<or> matchesBusinessPrefix path options (eo_tadm options = Some True))"
| "actor_row (LocalActor LocalAdmin) verb path options =
     (me_endpoint verb path \<or> matchesBusinessPrefix path options True)"
| "actor_row (LocalActor LocalUser) verb path options =
     (me_endpoint verb path \<or> matchesBusinessPrefix path options False)"
| "actor_row PublicActor verb path options = False"

definition isEndpointAllowed :: "endpoint_actor \<Rightarrow> string \<Rightarrow> jstring \<Rightarrow> endpoint_options \<Rightarrow> bool" where
  "isEndpointAllowed act meth pathname options =
     (case normalizePathname pathname of
        Inl _ \<Rightarrow> False
      | Inr path \<Rightarrow>
          let verb = toUpperCase meth in
          if public_endpoint verb path then True
          else if starts_with path (units ''/ky-local/'') then eo_localMode options = Some True
          else if starts_with path (units ''/ky/v1/test/'') then eo_testEndpoints options = Some True
          else actor_row act verb path options)"

section \<open>Properties\<close>

lemma map_filter_Nil: "List.map_filter f xs = [] \<longleftrightarrow> (\<forall>x\<in>set xs. f x = None)"
  by (auto simp: List.map_filter_def filter_empty_conv)

lemma check_claim_None:
  "check_claim claims (c, r) = None \<longleftrightarrow>
     (r = ForbiddenClaim \<longrightarrow> js_prop claims c = JUndefined) \<and>
     (r = Required \<longrightarrow> js_prop claims c \<noteq> JUndefined) \<and>
     (\<forall>chk. js_prop claims c \<noteq> JUndefined \<and> map_of CLAIM_TYPE_CHECKS c = Some chk \<longrightarrow> chk (js_prop claims c))"
  by (auto simp: check_claim_def Let_def split: option.split)

text \<open>The matrix as a specification: which claims a token of an act must, may and must not have.\<close>

definition claims_conform :: "sat_act \<Rightarrow> (string \<times> json) list \<Rightarrow> bool" where
  "claims_conform act claims \<longleftrightarrow>
     (\<forall>(c, r)\<in>set (SAT_CLAIM_MATRIX act).
        (r = ForbiddenClaim \<longrightarrow> js_prop claims c = JUndefined) \<and>
        (r = Required \<longrightarrow> js_prop claims c \<noteq> JUndefined) \<and>
        (\<forall>chk. js_prop claims c \<noteq> JUndefined \<and> map_of CLAIM_TYPE_CHECKS c = Some chk \<longrightarrow> chk (js_prop claims c))) \<and>
     (js_prop claims ''apr'' = JUndefined \<longleftrightarrow> js_prop claims ''aph'' = JUndefined)"

lemma checkSatClaims_ok:
  "cc_ok (checkSatClaims v) \<longleftrightarrow>
     (\<exists>claims act. v = JObj claims \<and> sat_act_of (js_prop claims ''act'') = Some act \<and>
        cc_act (checkSatClaims v) = Some act \<and> claims_conform act claims)"
proof (cases v)
  case (JObj claims)
  have rows: "List.map_filter (check_claim claims) (SAT_CLAIM_MATRIX act) = [] \<longleftrightarrow>
      (\<forall>(c, r)\<in>set (SAT_CLAIM_MATRIX act). check_claim claims (c, r) = None)" for act
    unfolding map_filter_Nil by auto
  show ?thesis
    unfolding JObj claims_conform_def
    by (cases "sat_act_of (js_prop claims ''act'')")
      (simp_all add: Let_def rows check_claim_None del: SAT_CLAIM_MATRIX.simps, blast?)
qed simp_all

text \<open>The claims checker decides conformance to the matrix exactly, and conformance separates the
  three kinds of token: a user token carries no capability, call or approval, an agent token carries a
  capability, a logical call id and a digest but no path prefixes, and a platform token carries neither
  subject nor administrator flag.\<close>

theorem claims_check_exact:
  "(cc_ok (checkSatClaims v) \<longleftrightarrow>
      (\<exists>claims act. v = JObj claims \<and> sat_act_of (js_prop claims ''act'') = Some act \<and> claims_conform act claims)) \<and>
   (claims_conform ActUser claims \<longrightarrow>
      js_prop claims ''cap'' = JUndefined \<and> js_prop claims ''lcid'' = JUndefined \<and> js_prop claims ''apr'' = JUndefined) \<and>
   (claims_conform ActAgent claims \<longrightarrow>
      isNonEmptyString (js_prop claims ''cap'') \<and> isNonEmptyString (js_prop claims ''lcid'') \<and>
      is_hex_digest (js_prop claims ''dig'') \<and> js_prop claims ''pfx'' = JUndefined) \<and>
   (claims_conform ActPlatform claims \<longrightarrow>
      js_prop claims ''sub'' = JUndefined \<and> js_prop claims ''tadm'' = JUndefined)"
proof -
  have act: "cc_act (checkSatClaims (JObj cl)) = Some act" if "sat_act_of (js_prop cl ''act'') = Some act" for cl act
    using that by (simp add: Let_def)
  have user: "claims_conform ActUser claims \<longrightarrow>
      js_prop claims ''cap'' = JUndefined \<and> js_prop claims ''lcid'' = JUndefined \<and> js_prop claims ''apr'' = JUndefined"
    by (simp add: claims_conform_def)
  have agent: "claims_conform ActAgent claims \<longrightarrow>
      isNonEmptyString (js_prop claims ''cap'') \<and> isNonEmptyString (js_prop claims ''lcid'') \<and>
      is_hex_digest (js_prop claims ''dig'') \<and> js_prop claims ''pfx'' = JUndefined"
    by (simp add: claims_conform_def CLAIM_TYPE_CHECKS_def)
  have platform: "claims_conform ActPlatform claims \<longrightarrow>
      js_prop claims ''sub'' = JUndefined \<and> js_prop claims ''tadm'' = JUndefined"
    by (simp add: claims_conform_def)
  show ?thesis
    unfolding checkSatClaims_ok using act user agent platform by blast
qed

definition demo_user_claims :: "(string \<times> json) list" where
  "demo_user_claims =
     [(''act'', JStr ''user''), (''iss'', JStr ''i''), (''aud'', JStr ''crm''), (''tid'', JStr ''t''), (''iid'', JStr ''x''),
      (''sub'', JStr ''s''), (''tadm'', JBool False), (''pfx'', JArr [JStr ''/api/app/'']),
      (''iat'', JNum (IntNum 1)), (''nbf'', JNum (IntNum 1)), (''exp'', JNum (IntNum 301)),
      (''jti'', JStr ''0123456789012345678901'')]"

lemma claims_check_exact_witness:
  "cc_ok (checkSatClaims (JObj demo_user_claims)) \<and> js_prop demo_user_claims ''cap'' = JUndefined"
proof -
  have "claims_conform ActUser demo_user_claims"
    by (simp add: claims_conform_def demo_user_claims_def js_prop_def CLAIM_TYPE_CHECKS_def MAX_SAFE_def
        JTI_MIN_LENGTH_def prefix_string_def)
  moreover have "sat_act_of (js_prop demo_user_claims ''act'') = Some ActUser"
    by (simp add: demo_user_claims_def js_prop_def SAT_ACTS_def)
  ultimately show ?thesis
    using claims_check_exact [of "JObj demo_user_claims" demo_user_claims] by blast
qed

lemma matchesBusinessPrefix_sound:
  assumes "matchesBusinessPrefix q options admin" and q: "normalizePathname q = Inr q"
  shows "\<not> reserved_path q \<and>
    (\<exists>pre. isSegmentPrefix q pre \<and>
       (pre \<in> set (pp_user (eo_pathPrefixes options)) \<or> admin \<and> pre \<in> set (pp_admin (eo_pathPrefixes options))))"
  using assms by (auto simp: matchesBusinessPrefix_def matchPathPrefix_Inr split: if_splits)

text \<open>The endpoint matrix grants least privilege: a request that is allowed, on a path whose decoded
  form has no percent sign left, is a public endpoint, a local endpoint while local mode is on, a test
  endpoint while these are open, or an endpoint of its actor's own row; and the row of a person is the
  identity endpoint or a path outside the reserved prefixes, below a declared user prefix, or below a
  declared administrator prefix for an administrator only.\<close>

theorem endpoint_least_privilege:
  assumes allowed: "isEndpointAllowed act meth p options"
    and q: "normalizePathname p = Inr q" and "percent \<notin> set q"
  shows "public_endpoint (toUpperCase meth) q \<or>
    (starts_with q (units ''/ky-local/'') \<and> eo_localMode options = Some True) \<or>
    (starts_with q (units ''/ky/v1/test/'') \<and> eo_testEndpoints options = Some True) \<or>
    (act = SatActor ActPlatform \<and> platform_endpoint (toUpperCase meth) q) \<or>
    (act = SatActor ActAgent \<and> agent_endpoint (toUpperCase meth) q) \<or>
    (act \<in> {SatActor ActUser, LocalActor LocalAdmin, LocalActor LocalUser} \<and>
       (me_endpoint (toUpperCase meth) q \<or>
        (\<not> reserved_path q \<and>
         (\<exists>pre. isSegmentPrefix q pre \<and>
            (pre \<in> set (pp_user (eo_pathPrefixes options)) \<or>
             (pre \<in> set (pp_admin (eo_pathPrefixes options)) \<and>
              (act = LocalActor LocalAdmin \<or> act = SatActor ActUser \<and> eo_tadm options = Some True)))))))"
proof -
  have qq: "normalizePathname q = Inr q"
    using normalize_clean [OF clean_normalize [OF q] assms(3)] .
  have biz: "matchesBusinessPrefix q options b \<Longrightarrow> \<not> reserved_path q \<and>
      (\<exists>pre. isSegmentPrefix q pre \<and>
        (pre \<in> set (pp_user (eo_pathPrefixes options)) \<or> b \<and> pre \<in> set (pp_admin (eo_pathPrefixes options))))" for b
    using matchesBusinessPrefix_sound [OF _ qq] .
  from allowed q consider "public_endpoint (toUpperCase meth) q"
    | "starts_with q (units ''/ky-local/'')" "eo_localMode options = Some True"
    | "starts_with q (units ''/ky/v1/test/'')" "eo_testEndpoints options = Some True"
    | "actor_row act (toUpperCase meth) q options"
    by (auto simp: isEndpointAllowed_def Let_def split: if_splits)
  then show ?thesis
  proof cases
    case 4
    then show ?thesis
      using biz by (cases "(act, toUpperCase meth, q, options)" rule: actor_row.cases) (simp_all, blast+)
  qed blast+
qed

definition demo_options :: endpoint_options where
  "demo_options =
     \<lparr>eo_pathPrefixes = \<lparr>pp_user = [units ''/api/app/''], pp_admin = [units ''/api/admin/'']\<rparr>,
      eo_tadm = Some False, eo_localMode = None, eo_testEndpoints = None\<rparr>"

lemma endpoint_least_privilege_witness:
  "isEndpointAllowed (SatActor ActUser) ''get'' (units ''/api/app/x'') demo_options \<and>
   \<not> reserved_path (units ''/api/app/x'')"
proof -
  have facts: "isEndpointAllowed (SatActor ActUser) ''get'' (units ''/api/app/x'') demo_options"
    "normalizePathname (units ''/api/app/x'') = Inr (units ''/api/app/x'')" "percent \<notin> set (units ''/api/app/x'')"
    "\<not> public_endpoint (toUpperCase ''get'') (units ''/api/app/x'')"
    "\<not> starts_with (units ''/api/app/x'') (units ''/ky-local/'')"
    "\<not> starts_with (units ''/api/app/x'') (units ''/ky/v1/test/'')"
    "\<not> me_endpoint (toUpperCase ''get'') (units ''/api/app/x'')"
    by code_simp+
  from endpoint_least_privilege [OF facts(1-3)] facts show ?thesis by simp
qed

text \<open>
  The percent sign matters: the reserved prefixes are looked for in the path as decoded once, the declared
  prefixes in the path as decoded again, so that a manifest that declares a reserved prefix does open it to a
  doubly encoded path.
\<close>

theorem reserved_prefix_bypass:
  "normalizePathname (units ''/%256by/v1/x'') = Inr (units ''/%6by/v1/x'') \<and>
   \<not> isEndpointAllowed (SatActor ActUser) ''GET'' (units ''/ky/v1/x'')
       (demo_options\<lparr>eo_pathPrefixes := \<lparr>pp_user = [units ''/ky/''], pp_admin = []\<rparr>\<rparr>) \<and>
   isEndpointAllowed (SatActor ActUser) ''GET'' (units ''/%256by/v1/x'')
     (demo_options\<lparr>eo_pathPrefixes := \<lparr>pp_user = [units ''/ky/''], pp_admin = []\<rparr>\<rparr>)"
  by code_simp

end
