(* ===== verification/Sat_Auth.thy ===== *)
theory Sat_Auth
  imports App_Claims
begin

text \<open>
  Verification of service access tokens (\<^verbatim>\<open>packages/ky-app-server/src/sat/verify.ts\<close>) and the in-memory
  store of consumed token ids (\<^verbatim>\<open>sat/jtiStore.ts\<close>).

  The JOSE library and the key set client are parameters, collected in the record \<open>jose\<close>: what a token's
  protected header says, the key of a key id, and the payload that \<open>jwtVerify\<close> returns for a token, a key
  and the current time when it does not throw.
\<close>

record jwt_header =
  jh_alg :: "string option"
  jh_typ :: "string option"
  jh_kid :: "string option"

record jose =
  decodeProtectedHeader :: "string \<Rightarrow> jwt_header option"
  jwks_getKey :: "string \<Rightarrow> app_error + string"
  jwtVerify :: "string \<Rightarrow> string \<Rightarrow> int \<Rightarrow> json option"

record app_config =
  cfg_issuer :: string
  cfg_systemId :: string
  cfg_tenantId :: string
  cfg_installationId :: string

record sat_request =
  sr_method :: string
  sr_pathname :: jstring
  sr_requestId :: "string option"

record sat_options =
  so_config :: app_config
  so_request :: sat_request
  so_pathPrefixes :: path_prefixes
  so_manifestDigest :: string
  so_localMode :: "bool option"
  so_testEndpoints :: "bool option"
  so_consumeJti :: "bool option"

record verified_identity =
  vi_act :: sat_act
  vi_sub :: "string option"
  vi_tadm :: bool
  vi_pfx :: "string list"
  vi_cap :: "string option"
  vi_lcid :: "string option"
  vi_dig :: "string option"
  vi_apr :: "string option"
  vi_aph :: "string option"
  vi_rid :: "string option"
  vi_sid :: "string option"
  vi_name :: "string option"
  vi_jti :: string
  vi_claims :: "(string \<times> json) list"
  vi_kid :: string

section \<open>The store of consumed token ids\<close>

type_synonym jti_store = "string \<Rightarrow> int option"

definition purgeExpired :: "int \<Rightarrow> jti_store \<Rightarrow> jti_store" where
  "purgeExpired now entries =
     (\<lambda>jti. case entries jti of None \<Rightarrow> None | Some e \<Rightarrow> if e \<le> now then None else Some e)"

definition jti_consume :: "int \<Rightarrow> jti_store \<Rightarrow> string \<Rightarrow> int \<Rightarrow> jti_store \<times> bool" where
  "jti_consume now entries jti expiresAt =
     (let purged = purgeExpired now entries in
      if purged jti \<noteq> None then (purged, False) else (purged(jti \<mapsto> expiresAt), True))"

section \<open>Claims\<close>

fun str_of :: "json \<Rightarrow> string option" where
  "str_of (JStr s) = Some s"
| "str_of _ = None"

fun int_of :: "json \<Rightarrow> int" where
  "int_of (JNum (IntNum n)) = n"
| "int_of _ = 0"

fun bool_of :: "json \<Rightarrow> bool" where
  "bool_of (JBool b) = b"
| "bool_of _ = False"

fun strs_of :: "json \<Rightarrow> string list" where
  "strs_of (JArr xs) = List.map_filter str_of xs"
| "strs_of _ = []"

definition str_claim :: "(string \<times> json) list \<Rightarrow> string \<Rightarrow> string option" where
  "str_claim claims k = str_of (js_prop claims k)"

definition int_claim :: "(string \<times> json) list \<Rightarrow> string \<Rightarrow> int" where
  "int_claim claims k = int_of (js_prop claims k)"

section \<open>Verification\<close>

fun nbf_tolerance :: "sat_act \<Rightarrow> int" where
  "nbf_tolerance ActUser = 30"
| "nbf_tolerance ActAgent = 10"
| "nbf_tolerance ActPlatform = 10"

fun exp_tolerance :: "sat_act \<Rightarrow> int" where
  "exp_tolerance ActUser = 0"
| "exp_tolerance ActAgent = 10"
| "exp_tolerance ActPlatform = 10"

definition checkTimeWindow :: "sat_act \<Rightarrow> (string \<times> json) list \<Rightarrow> int \<Rightarrow> app_error + unit" where
  "checkTimeWindow act claims nowSeconds =
     bind_res (check (\<not> int_claim claims ''nbf'' - nbf_tolerance act > nowSeconds) Unauthorized) (\<lambda>_.
     bind_res (check (\<not> int_claim claims ''exp'' + exp_tolerance act \<le> nowSeconds) Unauthorized) (\<lambda>_.
     check (\<not> int_claim claims ''iat'' - nbf_tolerance act > nowSeconds) Unauthorized))"

definition checkDeployment :: "app_config \<Rightarrow> (string \<times> json) list \<Rightarrow> app_error + unit" where
  "checkDeployment config claims =
     bind_res (check (str_claim claims ''iss'' = Some (cfg_issuer config)) Unauthorized) (\<lambda>_.
     bind_res (check (str_claim claims ''aud'' = Some (cfg_systemId config)) Unauthorized) (\<lambda>_.
     bind_res (check (str_claim claims ''tid'' = Some (cfg_tenantId config)) Unauthorized) (\<lambda>_.
     check (str_claim claims ''iid'' = Some (cfg_installationId config)) Unauthorized)))"

text \<open>The two groups of \<open>CAPABILITY_PATH\<close>: the capability and, on an execution path, the call id.\<close>

definition CAPABILITY_PATH :: "jstring \<Rightarrow> (jstring \<times> jstring option) option" where
  "CAPABILITY_PATH path =
     (case capability_tail path of
        None \<Rightarrow> None
      | Some t \<Rightarrow>
          (case split_on slash t of
             [cap] \<Rightarrow> if cap \<noteq> [] then Some (cap, None) else None
           | [cap, mid, lcid] \<Rightarrow>
               if cap \<noteq> [] \<and> mid = units ''executions'' \<and> lcid \<noteq> [] then Some (cap, Some lcid) else None
           | _ \<Rightarrow> None))"

definition checkBinding ::
  "sat_act \<Rightarrow> (string \<times> json) list \<Rightarrow> sat_options \<Rightarrow> jstring \<Rightarrow> app_error + unit" where
  "checkBinding act claims options pathname =
     (if (act = ActAgent \<or> act = ActPlatform) \<and>
         (sr_requestId (so_request options) = None \<or> sr_requestId (so_request options) \<noteq> str_claim claims ''rid'')
      then Inl Forbidden
      else if act \<noteq> ActAgent then Inr ()
      else (case CAPABILITY_PATH pathname of
              None \<Rightarrow> Inl Forbidden
            | Some (rawCap, rawLcid) \<Rightarrow>
                (case (decodeURIComponent rawCap,
                       case rawLcid of None \<Rightarrow> Inr None
                       | Some l \<Rightarrow> bind_res (decodeURIComponent l) (\<lambda>d. Inr (Some d))) of
                   (Inr cap, Inr lcid) \<Rightarrow>
                     if Some cap \<noteq> map_option units (str_claim claims ''cap'') then Inl Forbidden
                     else if lcid \<noteq> None \<and> lcid \<noteq> map_option units (str_claim claims ''lcid'') then Inl Forbidden
                     else Inr ()
                 | _ \<Rightarrow> Inl Forbidden)))"

definition checkDigest ::
  "sat_act \<Rightarrow> (string \<times> json) list \<Rightarrow> sat_options \<Rightarrow> jstring \<Rightarrow> app_error + unit" where
  "checkDigest act claims options pathname =
     (if act \<noteq> ActAgent then Inr ()
      else if capability_tail pathname = None then Inr ()
      else check (case str_claim claims ''dig'' of
                    None \<Rightarrow> False | Some d \<Rightarrow> timingSafeEqualHex d (so_manifestDigest options)) DigestMismatch)"

definition toIdentity :: "sat_act \<Rightarrow> (string \<times> json) list \<Rightarrow> string \<Rightarrow> verified_identity" where
  "toIdentity act claims kid =
     (let base = \<lparr>vi_act = act, vi_sub = None,
                  vi_tadm = (if act = ActPlatform then False else bool_of (js_prop claims ''tadm'')),
                  vi_pfx = (if act = ActUser then strs_of (js_prop claims ''pfx'') else []),
                  vi_cap = None, vi_lcid = None, vi_dig = None, vi_apr = None, vi_aph = None, vi_rid = None,
                  vi_sid = None, vi_name = None,
                  vi_jti = (case str_claim claims ''jti'' of None \<Rightarrow> [] | Some j \<Rightarrow> j),
                  vi_claims = claims, vi_kid = kid\<rparr> in
      case act of
        ActUser \<Rightarrow> base\<lparr>vi_sub := str_claim claims ''sub'', vi_name := str_claim claims ''name''\<rparr>
      | ActAgent \<Rightarrow>
          base\<lparr>vi_sub := str_claim claims ''sub'', vi_cap := str_claim claims ''cap'', vi_lcid := str_claim claims ''lcid'',
               vi_dig := str_claim claims ''dig'', vi_sid := str_claim claims ''sid'', vi_rid := str_claim claims ''rid'',
               vi_apr := str_claim claims ''apr'',
               vi_aph := (if js_prop claims ''apr'' = JUndefined then None else str_claim claims ''aph'')\<rparr>
      | ActPlatform \<Rightarrow> base\<lparr>vi_rid := str_claim claims ''rid'', vi_dig := str_claim claims ''dig''\<rparr>)"

text \<open>
  Everything up to the consumption of the token id: which token, with which claims. The time \<open>nowMs\<close> is the
  one reading of the clock.
\<close>

definition verify_claims ::
  "jose \<Rightarrow> int \<Rightarrow> string \<Rightarrow> sat_options \<Rightarrow> app_error + sat_act \<times> (string \<times> json) list \<times> string" where
  "verify_claims lib nowMs token options =
     (case decodeProtectedHeader lib token of
        None \<Rightarrow> Inl Unauthorized
      | Some header \<Rightarrow>
          bind_res (check (jh_alg header = Some ''ES256'') Unauthorized) (\<lambda>_.
          bind_res (check (jh_typ header = Some ''ky-sat+jwt'') Unauthorized) (\<lambda>_.
          bind_res (check (truthy (jh_kid header)) Unauthorized) (\<lambda>_.
          bind_res (jwks_getKey lib (the (jh_kid header))) (\<lambda>key.
          case jwtVerify lib token key nowMs of
            None \<Rightarrow> Inl Unauthorized
          | Some payload \<Rightarrow>
              let matrix = checkSatClaims payload in
              (case (payload, cc_act matrix) of
                 (JObj claims, Some act) \<Rightarrow>
                   bind_res (check (cc_ok matrix) Unauthorized) (\<lambda>_.
                   bind_res (checkDeployment (so_config options) claims) (\<lambda>_.
                   bind_res (checkTimeWindow act claims (nowMs div 1000)) (\<lambda>_.
                   case normalizePathname (sr_pathname (so_request options)) of
                     Inl _ \<Rightarrow> Inl Forbidden
                   | Inr pathname \<Rightarrow>
                       bind_res (check (isEndpointAllowed (SatActor act) (sr_method (so_request options)) pathname
                           \<lparr>eo_pathPrefixes = so_pathPrefixes options,
                            eo_tadm = Some (if act = ActPlatform then False else bool_of (js_prop claims ''tadm'')),
                            eo_localMode = Some (so_localMode options = Some True),
                            eo_testEndpoints = Some (so_testEndpoints options = Some True)\<rparr>) Forbidden) (\<lambda>_.
                       bind_res (checkBinding act claims options pathname) (\<lambda>_.
                       bind_res (checkDigest act claims options pathname) (\<lambda>_.
                       Inr (act, claims, the (jh_kid header))))))))
               | _ \<Rightarrow> Inl Unauthorized))))))"

text \<open>The closure \<open>consume\<close>; \<open>storeNow\<close> is what the store's clock shows when it runs.\<close>

definition consume_token ::
  "int \<Rightarrow> jti_store \<Rightarrow> sat_act \<Rightarrow> (string \<times> json) list \<Rightarrow> jti_store \<times> (app_error + unit)" where
  "consume_token storeNow store act claims =
     (if act = ActUser then (store, Inr ())
      else case jti_consume storeNow store (case str_claim claims ''jti'' of None \<Rightarrow> [] | Some j \<Rightarrow> j)
                  ((int_claim claims ''exp'' + exp_tolerance act) * 1000) of
             (store', ok) \<Rightarrow> (store', check ok TokenReplayed))"

definition verifySat ::
  "jose \<Rightarrow> int \<Rightarrow> int \<Rightarrow> jti_store \<Rightarrow> string \<Rightarrow> sat_options \<Rightarrow> jti_store \<times> (app_error + verified_identity)" where
  "verifySat lib nowMs storeNow store token options =
     (case verify_claims lib nowMs token options of
        Inl e \<Rightarrow> (store, Inl e)
      | Inr (act, claims, kid) \<Rightarrow>
          let identity = toIdentity act claims kid in
          if so_consumeJti options \<noteq> Some False
          then (case consume_token storeNow store act claims of
                  (store', r) \<Rightarrow> (store', bind_res r (\<lambda>_. Inr identity)))
          else (store, Inr identity))"

text \<open>\<^verbatim>\<open>/^Bearer[ ]([A-Za-z0-9._-]+)$/u\<close> on the trimmed header value.\<close>

definition is_trim_space :: "char \<Rightarrow> bool" where
  "is_trim_space c \<longleftrightarrow> is_white (of_char c)"

definition trim :: "string \<Rightarrow> string" where
  "trim s = rev (dropWhile is_trim_space (rev (dropWhile is_trim_space s)))"

definition token_char :: "char \<Rightarrow> bool" where
  "token_char c \<longleftrightarrow> is_alpha (of_char c) \<or> is_digit (of_char c) \<or> c \<in> set ''._-''"

definition readBearerToken :: "string option \<Rightarrow> string option" where
  "readBearerToken headerValue =
     (case headerValue of
        None \<Rightarrow> None
      | Some h \<Rightarrow>
          let v = trim h; t = drop 7 v in
          if take 7 v = ''Bearer '' \<and> t \<noteq> [] \<and> list_all token_char t then Some t else None)"

section \<open>Lemmas\<close>

lemma purge_keeps: "entries j = Some e \<Longrightarrow> now < e \<Longrightarrow> purgeExpired now entries j = Some e"
  by (simp add: purgeExpired_def)

lemma consume_keeps:
  "entries j = Some e \<Longrightarrow> now < e \<Longrightarrow> fst (jti_consume now entries k x) j = Some e"
  by (auto simp: jti_consume_def Let_def purge_keeps)

lemma consume_held: "entries j = Some e \<Longrightarrow> now < e \<Longrightarrow> snd (jti_consume now entries j x) = False"
  by (simp add: jti_consume_def Let_def purge_keeps)

lemma consume_first:
  "snd (jti_consume now entries j x) \<Longrightarrow> fst (jti_consume now entries j x) j = Some x"
  by (auto simp: jti_consume_def Let_def split: if_splits)

lemma before_second: "s div 1000 < e \<Longrightarrow> s < e * 1000" for s e :: int
  using zdiv_mono1 [of "e * 1000" s 1000] by (cases "s < e * 1000") simp_all

lemma Some_map_option: "Some x = map_option f v \<Longrightarrow> x = f (the v)"
  by (cases v) auto

text \<open>Consumptions by other verifications: clock, token id and expiry of each.\<close>

definition other_consumptions :: "jti_store \<Rightarrow> (int \<times> string \<times> int) list \<Rightarrow> jti_store" where
  "other_consumptions = foldl (\<lambda>store (t, j, e). fst (jti_consume t store j e))"

lemma other_consumptions_keep:
  "store j = Some e \<Longrightarrow> \<forall>(t, k, x)\<in>set others. t < e \<Longrightarrow> other_consumptions store others j = Some e"
  unfolding other_consumptions_def
  by (induction others arbitrary: store) (auto simp: consume_keeps)

lemma verify_claims_Inr:
  assumes "verify_claims lib nowMs token options = Inr (act, claims, kid)"
  obtains header key q where "decodeProtectedHeader lib token = Some header" and "jh_alg header = Some ''ES256''"
    and "jh_typ header = Some ''ky-sat+jwt''" and "jh_kid header = Some kid" and "kid \<noteq> []"
    and "jwks_getKey lib kid = Inr key" and "jwtVerify lib token key nowMs = Some (JObj claims)"
    and "sat_act_of (js_prop claims ''act'') = Some act" and "claims_conform act claims"
    and "checkDeployment (so_config options) claims = Inr ()"
    and "checkTimeWindow act claims (nowMs div 1000) = Inr ()"
    and "normalizePathname (sr_pathname (so_request options)) = Inr q"
    and "isEndpointAllowed (SatActor act) (sr_method (so_request options)) q
           \<lparr>eo_pathPrefixes = so_pathPrefixes options,
            eo_tadm = Some (if act = ActPlatform then False else bool_of (js_prop claims ''tadm'')),
            eo_localMode = Some (so_localMode options = Some True),
            eo_testEndpoints = Some (so_testEndpoints options = Some True)\<rparr>"
    and "checkBinding act claims options q = Inr ()" and "checkDigest act claims options q = Inr ()"
proof -
  from assms obtain header key payload where h: "decodeProtectedHeader lib token = Some header"
    "jh_alg header = Some ''ES256''" "jh_typ header = Some ''ky-sat+jwt''" "truthy (jh_kid header)"
    "jwks_getKey lib (the (jh_kid header)) = Inr key" "jwtVerify lib token key nowMs = Some payload"
    unfolding verify_claims_def
    by (auto simp: bind_res_Inr_iff simp del: checkSatClaims.simps split: option.splits if_splits)
  from h(4) obtain kid' where kid': "jh_kid header = Some kid'" "kid' \<noteq> []" by (rule truthyE)
  from assms h kid' obtain cl a where p: "payload = JObj cl" "cc_act (checkSatClaims payload) = Some a"
    unfolding verify_claims_def
    by (auto simp: Let_def simp del: checkSatClaims.simps split: json.splits option.splits)
  from assms h kid' p have r: "cc_ok (checkSatClaims payload)" "act = a" "claims = cl" "kid = kid'"
    "checkDeployment (so_config options) claims = Inr ()" "checkTimeWindow act claims (nowMs div 1000) = Inr ()"
    unfolding verify_claims_def
    by (auto simp: Let_def bind_res_Inr_iff simp del: checkSatClaims.simps split: sum.splits if_splits)
  from assms h kid' p r obtain q where q: "normalizePathname (sr_pathname (so_request options)) = Inr q"
    "isEndpointAllowed (SatActor act) (sr_method (so_request options)) q
       \<lparr>eo_pathPrefixes = so_pathPrefixes options,
        eo_tadm = Some (if act = ActPlatform then False else bool_of (js_prop claims ''tadm'')),
        eo_localMode = Some (so_localMode options = Some True),
        eo_testEndpoints = Some (so_testEndpoints options = Some True)\<rparr>"
    "checkBinding act claims options q = Inr ()" "checkDigest act claims options q = Inr ()"
    unfolding verify_claims_def
    by (auto simp: Let_def bind_res_Inr_iff simp del: checkSatClaims.simps split: sum.splits if_splits)
  from r(1) p have "sat_act_of (js_prop claims ''act'') = Some act" "claims_conform act claims"
    unfolding checkSatClaims_ok r by (auto simp del: checkSatClaims.simps)
  with that h kid' p r q show ?thesis by auto
qed

section \<open>Properties\<close>


definition demo_platform_claims :: "(string \<times> json) list" where
  "demo_platform_claims =
     [(''act'', JStr ''platform''), (''iss'', JStr ''ky''), (''aud'', JStr ''crm''), (''tid'', JStr ''t1''),
      (''iid'', JStr ''i1''), (''rid'', JStr ''req''), (''iat'', JNum (IntNum 100)), (''nbf'', JNum (IntNum 100)),
      (''exp'', JNum (IntNum 160)), (''jti'', JStr ''0123456789012345678901'')]"

definition demo_jose :: jose where
  "demo_jose =
     \<lparr>decodeProtectedHeader = (\<lambda>t. Some \<lparr>jh_alg = Some ''ES256'', jh_typ = Some ''ky-sat+jwt'', jh_kid = Some ''k1''\<rparr>),
      jwks_getKey = (\<lambda>k. Inr ''key''),
      jwtVerify = (\<lambda>t k n. if t = ''tok'' \<and> k = ''key'' then Some (JObj demo_platform_claims) else None)\<rparr>"

definition demo_sat_options :: sat_options where
  "demo_sat_options =
     \<lparr>so_config = \<lparr>cfg_issuer = ''ky'', cfg_systemId = ''crm'', cfg_tenantId = ''t1'', cfg_installationId = ''i1''\<rparr>,
      so_request = \<lparr>sr_method = ''GET'', sr_pathname = units ''/ky/v1/manifest'', sr_requestId = Some ''req''\<rparr>,
      so_pathPrefixes = \<lparr>pp_user = [], pp_admin = []\<rparr>, so_manifestDigest = ''00'',
      so_localMode = None, so_testEndpoints = None, so_consumeJti = None\<rparr>"

lemma demo_claims_verified: "verify_claims demo_jose 120000 ''tok'' demo_sat_options =
    Inr (ActPlatform, demo_platform_claims, ''k1'')"
  by code_simp

lemma demo_verified:
  "verifySat demo_jose 120000 120000 Map.empty ''tok'' demo_sat_options =
     (Map.empty(''0123456789012345678901'' \<mapsto> 170000), Inr (toIdentity ActPlatform demo_platform_claims ''k1''))"
proof -
  have "str_claim demo_platform_claims ''jti'' = Some ''0123456789012345678901''"
    "int_claim demo_platform_claims ''exp'' = 160"
    by (simp_all add: demo_platform_claims_def str_claim_def int_claim_def js_prop_def)
  moreover have "so_consumeJti demo_sat_options = None" by (simp add: demo_sat_options_def)
  ultimately show ?thesis
    by (simp add: verifySat_def demo_claims_verified consume_token_def jti_consume_def purgeExpired_def Let_def)
qed


text \<open>An agent or platform token is good for one request: once a verification has consumed it, every
  later verification of the same token fails, however many other tokens were consumed in between, for as long
  as the token would otherwise be valid, and after that because it has expired: the store forgets a token id
  only when the time window rejects the token. (A payload is determined by its token, and the store's clock
  has not moved to a later second than the verifier's.)\<close>

theorem token_single_use:
  assumes first: "verifySat lib t1 s1 store token options = (store1, Inr identity)"
    and consuming: "so_consumeJti options \<noteq> Some False" "so_consumeJti options2 \<noteq> Some False"
    and act: "vi_act identity \<noteq> ActUser"
    and payload: "\<And>k t k' t' p p'. jwtVerify lib token k t = Some p \<Longrightarrow> jwtVerify lib token k' t' = Some p' \<Longrightarrow> p = p'"
    and between: "\<forall>(t, j, e)\<in>set others. t \<le> s2" and clock: "s2 div 1000 \<le> t2 div 1000"
  shows "\<exists>e. snd (verifySat lib t2 s2 (other_consumptions store1 others) token options2) = Inl e"
proof (cases "verify_claims lib t2 token options2")
  case (Inl e)
  then show ?thesis by (simp add: verifySat_def)
next
  case (Inr r)
  obtain act2 claims2 kid2 where r: "r = (act2, claims2, kid2)" by (cases r)
  from first obtain a claims kid where v1: "verify_claims lib t1 token options = Inr (a, claims, kid)"
    and ident: "identity = toIdentity a claims kid" and ct: "consume_token s1 store a claims = (store1, Inr ())"
    using consuming(1) by (auto simp: verifySat_def Let_def bind_res_Inr_iff split: sum.splits prod.splits)
  obtain key1 where p1: "jwtVerify lib token key1 t1 = Some (JObj claims)" "sat_act_of (js_prop claims ''act'') = Some a"
    using v1 by (rule verify_claims_Inr) blast
  obtain key2 where p2: "jwtVerify lib token key2 t2 = Some (JObj claims2)" "sat_act_of (js_prop claims2 ''act'') = Some act2"
    "checkTimeWindow act2 claims2 (t2 div 1000) = Inr ()"
    using Inr unfolding r by (rule verify_claims_Inr) blast
  have same: "claims2 = claims" "act2 = a" using payload [OF p1(1) p2(1)] p1(2) p2(2) by auto
  have nu: "a \<noteq> ActUser" using act unfolding ident by (cases a) (auto simp: toIdentity_def Let_def)
  let ?jti = "case str_claim claims ''jti'' of None \<Rightarrow> [] | Some j \<Rightarrow> j"
  let ?exp = "(int_claim claims ''exp'' + exp_tolerance a) * 1000"
  have held: "store1 ?jti = Some ?exp"
    using ct nu consume_first [of s1 store ?jti ?exp]
    by (auto simp: consume_token_def split: prod.splits)
  have "t2 div 1000 < int_claim claims ''exp'' + exp_tolerance a"
    using p2(3) unfolding same by (auto simp: checkTimeWindow_def split: if_splits)
  with clock have "s2 div 1000 < int_claim claims ''exp'' + exp_tolerance a" by (rule le_less_trans)
  then have s2: "s2 < ?exp" by (rule before_second)
  then have now_held: "other_consumptions store1 others ?jti = Some ?exp"
    using between held by (intro other_consumptions_keep) (auto intro: le_less_trans)
  from consume_held [where entries = "other_consumptions store1 others" and j = ?jti and now = s2, OF now_held s2]
  have "snd (consume_token s2 (other_consumptions store1 others) a claims) = Inl TokenReplayed"
    using nu by (simp add: consume_token_def check_def split_beta)
  then show ?thesis
    using Inr consuming(2) unfolding r same by (auto simp: verifySat_def Let_def split: prod.splits)
qed

lemma token_single_use_witness:
  "\<exists>e. snd (verifySat demo_jose 165000 165000
     (other_consumptions (Map.empty(''0123456789012345678901'' \<mapsto> 170000)) [(130000, ''other'', 140000)])
     ''tok'' demo_sat_options) = Inl e"
proof (rule token_single_use [OF demo_verified])
  show "jwtVerify demo_jose ''tok'' k t = Some p \<Longrightarrow> jwtVerify demo_jose ''tok'' k' t' = Some p' \<Longrightarrow> p = p'"
    for k t k' t' p p'
    by (auto simp: demo_jose_def split: if_splits)
qed (simp_all add: demo_sat_options_def toIdentity_def Let_def)

end
