(* ===== verification/Local_Token.thy ===== *)
theory Local_Token
  imports Sat_Auth
begin

text \<open>
  Local tokens of the break-glass mode (\<^verbatim>\<open>packages/ky-app-server/src/local/token.ts\<close>) and the choice of the
  verification key during a key rotation (\<^verbatim>\<open>local/keys.ts\<close>).

  Signing and verifying of a token are parameters (record \<open>local_jose\<close>): \<open>lj_sign\<close> makes the token of a key,
  a key id and claims, \<open>lj_header\<close> is its protected header, and \<open>lj_verify\<close> gives the payload of a token for a
  key and the current time when \<open>jwtVerify\<close> does not throw. The type of a signed token is a type parameter,
  since nothing but that library looks into one. The random token id is an argument.
\<close>

datatype installation_state = InstEnabled | InstDisabled | InstDeleted

record installation_keys =
  ik_keyVersion :: string
  ik_attest :: string
  ik_localToken :: string

record local_key_ring =
  kr_current :: installation_keys
  kr_previous :: "installation_keys option"
  kr_previousAcceptUntil :: "int option"

record 'tok local_jose =
  lj_sign :: "string \<Rightarrow> string \<Rightarrow> json \<Rightarrow> 'tok"
  lj_header :: "'tok \<Rightarrow> jwt_header option"
  lj_verify :: "'tok \<Rightarrow> string \<Rightarrow> int \<Rightarrow> json option"

definition LOCAL_TOKEN_MAX_TTL_SECONDS :: int where
  "LOCAL_TOKEN_MAX_TTL_SECONDS = 4 * 60 * 60"

definition LOCAL_ACTS :: "(string \<times> local_act) list" where
  "LOCAL_ACTS = [(''local_admin'', LocalAdmin), (''local_user'', LocalUser)]"

fun local_act_name :: "local_act \<Rightarrow> string" where
  "local_act_name LocalAdmin = ''local_admin''"
| "local_act_name LocalUser = ''local_user''"

definition selectVerificationKeys :: "local_key_ring \<Rightarrow> string \<Rightarrow> int \<Rightarrow> installation_keys option" where
  "selectVerificationKeys ring kid nowMs =
     (if ik_keyVersion (kr_current ring) = kid then Some (kr_current ring)
      else (case kr_previous ring of
              None \<Rightarrow> None
            | Some previous \<Rightarrow>
                if ik_keyVersion previous \<noteq> kid then None
                else (case kr_previousAcceptUntil ring of
                        Some until \<Rightarrow> if nowMs > until then None else Some previous
                      | None \<Rightarrow> Some previous)))"

fun localTokenPrefixes :: "local_act \<Rightarrow> path_prefixes \<Rightarrow> jstring list" where
  "localTokenPrefixes LocalAdmin prefixes = pp_user prefixes @ pp_admin prefixes"
| "localTokenPrefixes LocalUser prefixes = pp_user prefixes"

definition local_claims ::
  "app_config \<Rightarrow> path_prefixes \<Rightarrow> string \<Rightarrow> string \<Rightarrow> local_act \<Rightarrow> int \<Rightarrow> int \<Rightarrow> (string \<times> json) list" where
  "local_claims config prefixes jti sub act iat ttl =
     [(''iss'', JStr (''local:'' @ cfg_installationId config)),
      (''aud'', JStr (cfg_systemId config)),
      (''tid'', JStr (cfg_tenantId config)),
      (''iid'', JStr (cfg_installationId config)),
      (''sub'', JStr sub),
      (''act'', JStr (local_act_name act)),
      (''pfx'', JArr (map (\<lambda>p. JStr (map char_of p)) (localTokenPrefixes act prefixes))),
      (''iat'', JNum (IntNum iat)),
      (''exp'', JNum (IntNum (iat + ttl))),
      (''jti'', JStr jti)]"

text \<open>\<open>None\<close> is the error thrown on a lifetime that is not positive.\<close>

definition issueLocalToken ::
  "'tok local_jose \<Rightarrow> app_config \<Rightarrow> local_key_ring \<Rightarrow> path_prefixes \<Rightarrow> string \<Rightarrow> string \<Rightarrow> local_act
     \<Rightarrow> int option \<Rightarrow> int \<Rightarrow> 'tok option" where
  "issueLocalToken lib config keys prefixes jti sub act ttlSeconds nowMs =
     (let ttl = min (case ttlSeconds of None \<Rightarrow> LOCAL_TOKEN_MAX_TTL_SECONDS | Some t \<Rightarrow> t)
                    LOCAL_TOKEN_MAX_TTL_SECONDS;
          nowSeconds = nowMs div 1000 in
      if ttl \<le> 0 then None
      else Some (lj_sign lib (ik_localToken (kr_current keys)) (ik_keyVersion (kr_current keys))
                   (JObj (local_claims config prefixes jti sub act nowSeconds ttl))))"

fun local_act_of :: "json \<Rightarrow> local_act option" where
  "local_act_of (JStr s) = map_of LOCAL_ACTS s"
| "local_act_of _ = None"

fun is_string :: "json \<Rightarrow> bool" where
  "is_string (JStr s) = True"
| "is_string _ = False"

fun is_string_array :: "json \<Rightarrow> bool" where
  "is_string_array (JArr xs) = list_all is_string xs"
| "is_string_array _ = False"

fun is_safe_integer :: "json \<Rightarrow> bool" where
  "is_safe_integer (JNum (IntNum n)) = (- MAX_SAFE \<le> n \<and> n \<le> MAX_SAFE)"
| "is_safe_integer _ = False"

definition checkClaimShape :: "app_config \<Rightarrow> (string \<times> json) list \<Rightarrow> app_error + unit" where
  "checkClaimShape config claims =
     bind_res (check (str_claim claims ''iss'' = Some (''local:'' @ cfg_installationId config)) Unauthorized) (\<lambda>_.
     bind_res (check (str_claim claims ''aud'' = Some (cfg_systemId config)) Unauthorized) (\<lambda>_.
     bind_res (check (str_claim claims ''tid'' = Some (cfg_tenantId config)) Unauthorized) (\<lambda>_.
     bind_res (check (str_claim claims ''iid'' = Some (cfg_installationId config)) Unauthorized) (\<lambda>_.
     bind_res (check (truthy (str_claim claims ''sub'')) Unauthorized) (\<lambda>_.
     bind_res (check (local_act_of (js_prop claims ''act'') \<noteq> None) Unauthorized) (\<lambda>_.
     bind_res (check (is_string_array (js_prop claims ''pfx'')) Unauthorized) (\<lambda>_.
     bind_res (check (is_jti (js_prop claims ''jti'')) Unauthorized) (\<lambda>_.
     bind_res (check (is_safe_integer (js_prop claims ''iat'') \<and> is_safe_integer (js_prop claims ''exp'')) Unauthorized) (\<lambda>_.
     check (\<not> int_claim claims ''exp'' - int_claim claims ''iat'' > LOCAL_TOKEN_MAX_TTL_SECONDS) Unauthorized)))))))))"

record local_identity =
  lid_act :: local_act
  lid_sub :: string
  lid_pfx :: "string list"
  lid_tadm :: bool
  lid_jti :: string
  lid_claims :: "(string \<times> json) list"

record local_options =
  lo_config :: app_config
  lo_keys :: local_key_ring
  lo_localMode :: bool
  lo_installationState :: installation_state
  lo_method :: string
  lo_pathname :: jstring
  lo_pathPrefixes :: path_prefixes
  lo_testEndpoints :: "bool option"

definition verifyLocalToken ::
  "'tok local_jose \<Rightarrow> int \<Rightarrow> 'tok \<Rightarrow> local_options \<Rightarrow> app_error + local_identity" where
  "verifyLocalToken lib nowMs token options =
     (if lo_installationState options \<noteq> InstEnabled then Inl InstallationDisabled
      else if \<not> lo_localMode options then Inl Unauthorized
      else case lj_header lib token of
        None \<Rightarrow> Inl Unauthorized
      | Some header \<Rightarrow>
          bind_res (check (jh_alg header = Some ''HS256'') Unauthorized) (\<lambda>_.
          bind_res (check (jh_typ header = Some ''ky-local+jwt'') Unauthorized) (\<lambda>_.
          case jh_kid header of
            None \<Rightarrow> Inl Unauthorized
          | Some kid \<Rightarrow>
              (case selectVerificationKeys (lo_keys options) kid nowMs of
                 None \<Rightarrow> Inl Unauthorized
               | Some keys \<Rightarrow>
                   (case lj_verify lib token (ik_localToken keys) nowMs of
                      Some (JObj claims) \<Rightarrow>
                        bind_res (checkClaimShape (lo_config options) claims) (\<lambda>_.
                        let act = the (local_act_of (js_prop claims ''act'')) in
                        case normalizePathname (lo_pathname options) of
                          Inl _ \<Rightarrow> Inl Forbidden
                        | Inr pathname \<Rightarrow>
                            bind_res (check (isEndpointAllowed (LocalActor act) (lo_method options) pathname
                                \<lparr>eo_pathPrefixes = lo_pathPrefixes options, eo_tadm = None, eo_localMode = Some True,
                                 eo_testEndpoints = Some (lo_testEndpoints options = Some True)\<rparr>) Forbidden) (\<lambda>_.
                            Inr \<lparr>lid_act = act, lid_sub = the (str_claim claims ''sub''),
                                 lid_pfx = strs_of (js_prop claims ''pfx''), lid_tadm = (act = LocalAdmin),
                                 lid_jti = the (str_claim claims ''jti''), lid_claims = claims\<rparr>))
                    | _ \<Rightarrow> Inl Unauthorized)))))"

section \<open>Properties\<close>

lemma map_of_local_act [simp]: "map_of LOCAL_ACTS (local_act_name act) = Some act"
  by (cases act) (simp_all add: LOCAL_ACTS_def)

lemma local_act_of_name [simp]: "local_act_of (JStr (local_act_name act)) = Some act"
  by simp

lemma local_claims_prop:
  "str_claim (local_claims config pre jti sub act iat ttl) ''iss'' = Some (''local:'' @ cfg_installationId config)"
  "str_claim (local_claims config pre jti sub act iat ttl) ''aud'' = Some (cfg_systemId config)"
  "str_claim (local_claims config pre jti sub act iat ttl) ''tid'' = Some (cfg_tenantId config)"
  "str_claim (local_claims config pre jti sub act iat ttl) ''iid'' = Some (cfg_installationId config)"
  "str_claim (local_claims config pre jti sub act iat ttl) ''sub'' = Some sub"
  "str_claim (local_claims config pre jti sub act iat ttl) ''jti'' = Some jti"
  "js_prop (local_claims config pre jti sub act iat ttl) ''act'' = JStr (local_act_name act)"
  "js_prop (local_claims config pre jti sub act iat ttl) ''pfx'' =
     JArr (map (\<lambda>p. JStr (map char_of p)) (localTokenPrefixes act pre))"
  "js_prop (local_claims config pre jti sub act iat ttl) ''iat'' = JNum (IntNum iat)"
  "js_prop (local_claims config pre jti sub act iat ttl) ''exp'' = JNum (IntNum (iat + ttl))"
  "js_prop (local_claims config pre jti sub act iat ttl) ''jti'' = JStr jti"
  by (simp_all add: local_claims_def str_claim_def js_prop_def)

text \<open>Local tokens are revoked by mode and by installation: while break-glass mode is off or the
  installation is not enabled, no token whatever is accepted; and an accepted one was verified with the
  current installation key, or with the previous one inside its rotation window, was issued for this
  installation, system and tenant with a lifetime of at most four hours, and its holder may access the
  endpoint.\<close>

theorem verifyLocalToken_sound:
  assumes "verifyLocalToken lib nowMs token options = Inr identity"
  shows "lo_localMode options \<and> lo_installationState options = InstEnabled \<and>
    (\<exists>kid keys claims q.
       selectVerificationKeys (lo_keys options) kid nowMs = Some keys \<and>
       (keys = kr_current (lo_keys options) \<or>
        (kr_previous (lo_keys options) = Some keys \<and>
         (\<forall>until. kr_previousAcceptUntil (lo_keys options) = Some until \<longrightarrow> nowMs \<le> until))) \<and>
       lj_verify lib token (ik_localToken keys) nowMs = Some (JObj claims) \<and>
       str_claim claims ''iss'' = Some (''local:'' @ cfg_installationId (lo_config options)) \<and>
       str_claim claims ''aud'' = Some (cfg_systemId (lo_config options)) \<and>
       str_claim claims ''tid'' = Some (cfg_tenantId (lo_config options)) \<and>
       int_claim claims ''exp'' - int_claim claims ''iat'' \<le> 14400 \<and>
       normalizePathname (lo_pathname options) = Inr q \<and>
       (\<exists>eo. isEndpointAllowed (LocalActor (lid_act identity)) (lo_method options) q eo \<and>
          eo_pathPrefixes eo = lo_pathPrefixes options))"
proof -
  from assms obtain header kid keys claims where h: "lo_localMode options" "lo_installationState options = InstEnabled"
    "selectVerificationKeys (lo_keys options) kid nowMs = Some keys"
    "lj_verify lib token (ik_localToken keys) nowMs = Some (JObj claims)"
    "checkClaimShape (lo_config options) claims = Inr ()"
    and rest: "\<exists>q. normalizePathname (lo_pathname options) = Inr q \<and>
      isEndpointAllowed (LocalActor (lid_act identity)) (lo_method options) q
        \<lparr>eo_pathPrefixes = lo_pathPrefixes options, eo_tadm = None, eo_localMode = Some True,
         eo_testEndpoints = Some (lo_testEndpoints options = Some True)\<rparr>"
    unfolding verifyLocalToken_def
    by (auto simp: bind_res_Inr_iff Let_def split: if_splits option.splits json.splits sum.splits)
  have key: "keys = kr_current (lo_keys options) \<or> (kr_previous (lo_keys options) = Some keys \<and>
      (\<forall>until. kr_previousAcceptUntil (lo_keys options) = Some until \<longrightarrow> nowMs \<le> until))"
    using h(3) by (auto simp: selectVerificationKeys_def split: if_splits option.splits)
  have shape: "str_claim claims ''iss'' = Some (''local:'' @ cfg_installationId (lo_config options))"
    "str_claim claims ''aud'' = Some (cfg_systemId (lo_config options))"
    "str_claim claims ''tid'' = Some (cfg_tenantId (lo_config options))"
    "int_claim claims ''exp'' - int_claim claims ''iat'' \<le> 14400"
    using h(5) by (auto simp: checkClaimShape_def LOCAL_TOKEN_MAX_TTL_SECONDS_def split: if_splits)
  from rest obtain q where q: "normalizePathname (lo_pathname options) = Inr q"
    "isEndpointAllowed (LocalActor (lid_act identity)) (lo_method options) q
        \<lparr>eo_pathPrefixes = lo_pathPrefixes options, eo_tadm = None, eo_localMode = Some True,
         eo_testEndpoints = Some (lo_testEndpoints options = Some True)\<rparr>" by blast
  then have eo: "\<exists>eo. isEndpointAllowed (LocalActor (lid_act identity)) (lo_method options) q eo \<and>
      eo_pathPrefixes eo = lo_pathPrefixes options"
    by (metis endpoint_options.select_convs(1))
  show ?thesis
    using h(1-4) key shape q(1) eo by blast
qed

text \<open>The documented behaviour of the signing library: what was signed with a key verifies with that key
  to the same payload until its expiry, and its header says how it was signed.\<close>

definition signs_correctly :: "'tok local_jose \<Rightarrow> bool" where
  "signs_correctly lib \<longleftrightarrow>
     (\<forall>key kid claims. lj_header lib (lj_sign lib key kid (JObj claims)) =
        Some \<lparr>jh_alg = Some ''HS256'', jh_typ = Some ''ky-local+jwt'', jh_kid = Some kid\<rparr>) \<and>
     (\<forall>key kid claims nowMs. nowMs div 1000 < int_claim claims ''exp'' \<longrightarrow>
        lj_verify lib (lj_sign lib key kid (JObj claims)) key nowMs = Some (JObj claims))"

lemma issued_verifies:
  assumes lib: "signs_correctly lib"
    and issued: "issueLocalToken lib config keys prefixes jti sub act ttl t = Some token"
    and wf: "sub \<noteq> []" "length jti \<ge> 22" "0 \<le> t" "t div 1000 + LOCAL_TOKEN_MAX_TTL_SECONDS \<le> MAX_SAFE"
    and fresh: "nowMs div 1000 < t div 1000 + min (case ttl of None \<Rightarrow> LOCAL_TOKEN_MAX_TTL_SECONDS | Some s \<Rightarrow> s)
                  LOCAL_TOKEN_MAX_TTL_SECONDS"
    and options: "lo_config options = config" "lo_keys options = keys" "lo_localMode options"
      "lo_installationState options = InstEnabled"
    and q: "normalizePathname (lo_pathname options) = Inr q"
      "isEndpointAllowed (LocalActor act) (lo_method options) q
        \<lparr>eo_pathPrefixes = lo_pathPrefixes options, eo_tadm = None, eo_localMode = Some True,
         eo_testEndpoints = Some (lo_testEndpoints options = Some True)\<rparr>"
  shows "\<exists>identity. verifyLocalToken lib nowMs token options = Inr identity \<and> lid_act identity = act \<and>
           lid_sub identity = sub \<and> lid_jti identity = jti \<and> lid_tadm identity = (act = LocalAdmin)"
proof -
  define life where "life = min (case ttl of None \<Rightarrow> LOCAL_TOKEN_MAX_TTL_SECONDS | Some s \<Rightarrow> s) LOCAL_TOKEN_MAX_TTL_SECONDS"
  define claims where "claims = local_claims config prefixes jti sub act (t div 1000) life"
  have tok: "token = lj_sign lib (ik_localToken (kr_current keys)) (ik_keyVersion (kr_current keys)) (JObj claims)"
    and pos: "0 < life"
    using issued by (auto simp: issueLocalToken_def Let_def claims_def life_def split: if_splits)
  have le: "life \<le> LOCAL_TOKEN_MAX_TTL_SECONDS" by (simp add: life_def)
  have exp: "int_claim claims ''exp'' = t div 1000 + life" "int_claim claims ''iat'' = t div 1000"
    by (simp_all add: claims_def int_claim_def local_claims_prop)
  have strs: "is_string_array (JArr (map (\<lambda>p. JStr (map char_of p)) ps))" for ps :: "nat list list"
    by (induction ps) simp_all
  have range: "0 \<le> t div 1000" "t div 1000 \<le> MAX_SAFE" "t div 1000 + life \<le> MAX_SAFE"
    using wf(3,4) le pos by (simp_all add: pos_imp_zdiv_nonneg_iff)
  have shape: "checkClaimShape config claims = Inr ()"
    using range wf(1,2) le pos exp strs
    by (simp add: checkClaimShape_def claims_def local_claims_prop JTI_MIN_LENGTH_def MAX_SAFE_def)
  have hdr: "lj_header lib token =
      Some \<lparr>jh_alg = Some ''HS256'', jh_typ = Some ''ky-local+jwt'', jh_kid = Some (ik_keyVersion (kr_current keys))\<rparr>"
    and ver: "lj_verify lib token (ik_localToken (kr_current keys)) nowMs = Some (JObj claims)"
    using lib fresh exp unfolding signs_correctly_def tok by (simp_all add: life_def)
  have sel: "selectVerificationKeys keys (ik_keyVersion (kr_current keys)) nowMs = Some (kr_current keys)"
    by (simp add: selectVerificationKeys_def)
  have act: "local_act_of (js_prop claims ''act'') = Some act"
    by (simp add: claims_def local_claims_prop)
  show ?thesis
    using options q hdr ver sel shape act
    by (simp add: verifyLocalToken_def Let_def claims_def local_claims_prop)
qed

definition demo_local_jose :: "(string \<times> string \<times> json) local_jose" where
  "demo_local_jose =
     \<lparr>lj_sign = (\<lambda>key kid payload. (key, kid, payload)),
      lj_header = (\<lambda>(key, kid, payload). Some \<lparr>jh_alg = Some ''HS256'', jh_typ = Some ''ky-local+jwt'', jh_kid = Some kid\<rparr>),
      lj_verify = (\<lambda>(key, kid, payload) k nowMs. if key = k then Some payload else None)\<rparr>"

lemma demo_signs: "signs_correctly demo_local_jose"
  by (simp add: signs_correctly_def demo_local_jose_def)

definition demo_keys :: local_key_ring where
  "demo_keys = \<lparr>kr_current = \<lparr>ik_keyVersion = ''v2'', ik_attest = ''a2'', ik_localToken = ''l2''\<rparr>,
     kr_previous = Some \<lparr>ik_keyVersion = ''v1'', ik_attest = ''a1'', ik_localToken = ''l1''\<rparr>,
     kr_previousAcceptUntil = Some 5000\<rparr>"

definition demo_local_options :: local_options where
  "demo_local_options =
     \<lparr>lo_config = so_config demo_sat_options, lo_keys = demo_keys, lo_localMode = True,
      lo_installationState = InstEnabled, lo_method = ''GET'', lo_pathname = units ''/ky/v1/me'',
      lo_pathPrefixes = \<lparr>pp_user = [units ''/api/app/''], pp_admin = []\<rparr>, lo_testEndpoints = None\<rparr>"

definition demo_local_token :: "string \<times> string \<times> json" where
  "demo_local_token = (''l2'', ''v2'', JObj (local_claims (so_config demo_sat_options)
     \<lparr>pp_user = [units ''/api/app/''], pp_admin = []\<rparr> ''0123456789012345678901'' ''alice'' LocalUser 100 60))"

lemma demo_local_facts:
  "issueLocalToken demo_local_jose (so_config demo_sat_options) demo_keys
     \<lparr>pp_user = [units ''/api/app/''], pp_admin = []\<rparr> ''0123456789012345678901'' ''alice'' LocalUser (Some 60) 100000 =
   Some demo_local_token"
  "normalizePathname (lo_pathname demo_local_options) = Inr (units ''/ky/v1/me'')"
  "isEndpointAllowed (LocalActor LocalUser) (lo_method demo_local_options) (units ''/ky/v1/me'')
     \<lparr>eo_pathPrefixes = lo_pathPrefixes demo_local_options, eo_tadm = None, eo_localMode = Some True,
      eo_testEndpoints = Some (lo_testEndpoints demo_local_options = Some True)\<rparr>"
  by (simp add: issueLocalToken_def demo_local_jose_def demo_keys_def demo_local_token_def
      LOCAL_TOKEN_MAX_TTL_SECONDS_def) code_simp+

lemma verifyLocalToken_sound_witness:
  "lo_localMode demo_local_options \<and> (\<exists>identity. verifyLocalToken demo_local_jose 120000 demo_local_token demo_local_options = Inr identity)"
proof -
  have "\<exists>identity. verifyLocalToken demo_local_jose 120000 demo_local_token demo_local_options = Inr identity \<and>
      lid_act identity = LocalUser \<and> lid_sub identity = ''alice'' \<and> lid_jti identity = ''0123456789012345678901'' \<and>
      lid_tadm identity = (LocalUser = LocalAdmin)"
    by (rule issued_verifies [OF demo_signs demo_local_facts(1) _ _ _ _ _ _ _ _ _ demo_local_facts(2,3)])
      (simp_all add: LOCAL_TOKEN_MAX_TTL_SECONDS_def MAX_SAFE_def demo_local_options_def)
  then obtain identity where "verifyLocalToken demo_local_jose 120000 demo_local_token demo_local_options = Inr identity"
    by blast
  with verifyLocalToken_sound [OF this] show ?thesis by blast
qed

text \<open>A local token that the application issued is accepted again for the subject and role it was issued
  for, until its expiry, at every endpoint that the role may access while break-glass mode is on.\<close>

theorem local_token_roundtrip:
  assumes "signs_correctly lib"
    and "issueLocalToken lib config keys prefixes jti sub act ttl t = Some token"
    and "sub \<noteq> []" "length jti \<ge> 22" "0 \<le> t" "t div 1000 + LOCAL_TOKEN_MAX_TTL_SECONDS \<le> MAX_SAFE"
    and "nowMs div 1000 < t div 1000 + min (case ttl of None \<Rightarrow> LOCAL_TOKEN_MAX_TTL_SECONDS | Some s \<Rightarrow> s)
           LOCAL_TOKEN_MAX_TTL_SECONDS"
    and "lo_config options = config" "lo_keys options = keys" "lo_localMode options"
      "lo_installationState options = InstEnabled"
    and "normalizePathname (lo_pathname options) = Inr q"
      "isEndpointAllowed (LocalActor act) (lo_method options) q
        \<lparr>eo_pathPrefixes = lo_pathPrefixes options, eo_tadm = None, eo_localMode = Some True,
         eo_testEndpoints = Some (lo_testEndpoints options = Some True)\<rparr>"
  shows "\<exists>identity. verifyLocalToken lib nowMs token options = Inr identity \<and> lid_act identity = act \<and>
           lid_sub identity = sub \<and> lid_jti identity = jti \<and> lid_tadm identity = (act = LocalAdmin)"
  by (rule issued_verifies [OF assms])

lemma local_token_roundtrip_witness:
  "\<exists>identity. verifyLocalToken demo_local_jose 120000 demo_local_token demo_local_options = Inr identity \<and>
     lid_act identity = LocalUser \<and> lid_sub identity = ''alice'' \<and> lid_jti identity = ''0123456789012345678901'' \<and>
     lid_tadm identity = (LocalUser = LocalAdmin)"
  by (rule local_token_roundtrip [OF demo_signs demo_local_facts(1) _ _ _ _ _ _ _ _ _ demo_local_facts(2,3)])
    (simp_all add: LOCAL_TOKEN_MAX_TTL_SECONDS_def MAX_SAFE_def demo_local_options_def)

end
