(* ===== verification/Break_Glass.thy ===== *)
theory Break_Glass
  imports Local_Token
begin

text \<open>
  The break-glass login (\<^verbatim>\<open>packages/ky-app-server/src/breakGlass/service.ts\<close>) over its store
  (\<^verbatim>\<open>breakGlass/store.ts\<close>): recovery records, the mode session, one-time employee codes, the local audit and
  the rate limiter of the enable endpoint.

  The state is the store's content together with the limiter's hits and the alerts raised. Argon2, SHA-256,
  the signing library and the deployment are parameters (record \<open>bg_env\<close>); random codes and token ids are
  arguments. An operation reads the clock several times: \<open>now i\<close> is its reading at the \<open>i\<close>-th place in the
  order of the code. An operation is one step of the state, except where two calls of \<open>enable\<close> are interleaved
  on purpose.
\<close>

section \<open>Data\<close>

record recovery_code =
  rc_hash :: string
  rc_usedAt :: "int option"

record recovery_record =
  rr_sub :: string
  rr_passwordHash :: string
  rr_codes :: "recovery_code list"
  rr_failedAttempts :: nat
  rr_lockedUntil :: "int option"
  rr_createdAt :: int
  rr_updatedAt :: int

record break_glass_session =
  bs_enabledBy :: string
  bs_enabledAt :: int
  bs_expiresAt :: int

record employee_code =
  ec_loginId :: string
  ec_sub :: string
  ec_hash :: string
  ec_expiresAt :: int
  ec_usedAt :: "int option"
  ec_failedAttempts :: nat
  ec_lockedUntil :: "int option"

datatype audit_action = AuRecoverySetup | AuEnable | AuRenew | AuDisable | AuEmployeeCodeIssue | AuLogin

datatype audit_outcome = Success | Failure

record audit_entry =
  au_at :: int
  au_action :: audit_action
  au_outcome :: audit_outcome
  au_sub :: "string option"
  au_loginId :: "string option"
  au_ip :: "string option"
  au_detail :: "string option"

datatype alert_kind = AlertLockout | AlertEnabled | AlertDisabled

record alert_entry =
  al_kind :: alert_kind
  al_sub :: "string option"
  al_ip :: "string option"
  al_at :: int

record bg_state =
  bg_records :: "string \<Rightarrow> recovery_record option"
  bg_session :: "break_glass_session option"
  bg_employee :: "string \<Rightarrow> employee_code option"
  bg_audit :: "audit_entry list"
  bg_hits :: "string \<Rightarrow> int list option"
  bg_alerts :: "alert_entry list"

record 'tok bg_env =
  en_sha256 :: "string \<Rightarrow> string"
  en_argonHash :: "string \<Rightarrow> string"
  en_argonVerify :: "string \<Rightarrow> string \<Rightarrow> bool"
  en_installation :: installation_state
  en_lib :: "'tok local_jose"
  en_config :: app_config
  en_keys :: local_key_ring
  en_prefixes :: path_prefixes

record 'tok token_result =
  tr_token :: 'tok
  tr_expiresAt :: int
  tr_sessionExpiresAt :: int

definition RECOVERY_CODE_COUNT :: nat where
  "RECOVERY_CODE_COUNT = 8"

definition EMPLOYEE_CODE_TTL_SECONDS :: int where
  "EMPLOYEE_CODE_TTL_SECONDS = 15 * 60"

definition MAX_FAILED_ATTEMPTS :: nat where
  "MAX_FAILED_ATTEMPTS = 5"

definition LOCKOUT_MS :: int where
  "LOCKOUT_MS = 30 * 60 * 1000"

definition ENABLE_RATE_MAX :: nat where
  "ENABLE_RATE_MAX = 5"

definition ENABLE_RATE_WINDOW_MS :: int where
  "ENABLE_RATE_WINDOW_MS = 60000"

definition BREAK_GLASS_SESSION_SECONDS :: int where
  "BREAK_GLASS_SESSION_SECONDS = 4 * 60 * 60"

section \<open>Helpers\<close>

definition hashEquals :: "string \<Rightarrow> string \<Rightarrow> bool" where
  "hashEquals left right = (if length left \<noteq> length right then False else left = right)"

text \<open>\<open>RateLimiter.check\<close>: the recent hits of a key and the verdict.\<close>

definition limiter_check ::
  "nat \<Rightarrow> int \<Rightarrow> (string \<Rightarrow> int list option) \<Rightarrow> string \<Rightarrow> int \<Rightarrow> (string \<Rightarrow> int list option) \<times> bool" where
  "limiter_check limit windowMs hits key nowMs =
     (let recent = filter (\<lambda>at. nowMs - at < windowMs) (case hits key of None \<Rightarrow> [] | Some l \<Rightarrow> l) in
      if length recent \<ge> limit then (hits(key \<mapsto> recent), False)
      else (hits(key \<mapsto> recent @ [nowMs]), True))"

definition audit ::
  "int \<Rightarrow> audit_action \<Rightarrow> audit_outcome \<Rightarrow> string option \<Rightarrow> string option \<Rightarrow> string option \<Rightarrow> string option
     \<Rightarrow> bg_state \<Rightarrow> bg_state" where
  "audit at action outcome sub loginId ip detail st =
     st\<lparr>bg_audit := bg_audit st @
          [\<lparr>au_at = at, au_action = action, au_outcome = outcome, au_sub = sub, au_loginId = loginId,
            au_ip = ip, au_detail = detail\<rparr>]\<rparr>"

definition alert :: "alert_kind \<Rightarrow> string option \<Rightarrow> string option \<Rightarrow> int \<Rightarrow> bg_state \<Rightarrow> bg_state" where
  "alert kind sub ip at st =
     st\<lparr>bg_alerts := bg_alerts st @ [\<lparr>al_kind = kind, al_sub = sub, al_ip = ip, al_at = at\<rparr>]\<rparr>"

definition saveRecord :: "recovery_record \<Rightarrow> bg_state \<Rightarrow> bg_state" where
  "saveRecord r st = st\<lparr>bg_records := (bg_records st)(rr_sub r \<mapsto> r)\<rparr>"

definition saveSession :: "break_glass_session option \<Rightarrow> bg_state \<Rightarrow> bg_state" where
  "saveSession s st = st\<lparr>bg_session := s\<rparr>"

definition saveEmployeeCode :: "employee_code \<Rightarrow> bg_state \<Rightarrow> bg_state" where
  "saveEmployeeCode e st = st\<lparr>bg_employee := (bg_employee st)(ec_loginId e \<mapsto> e)\<rparr>"

definition currentSession :: "int \<Rightarrow> bg_state \<Rightarrow> bg_state \<times> break_glass_session option" where
  "currentSession now st =
     (case bg_session st of
        None \<Rightarrow> (st, None)
      | Some s \<Rightarrow> if bs_expiresAt s \<le> now then (saveSession None st, None) else (st, Some s))"

definition isActive :: "int \<Rightarrow> bg_state \<Rightarrow> bg_state \<times> bool" where
  "isActive now st = (case currentSession now st of (st', s) \<Rightarrow> (st', s \<noteq> None))"

definition lockAndAudit ::
  "(nat \<Rightarrow> int) \<Rightarrow> recovery_record \<Rightarrow> string option \<Rightarrow> string \<Rightarrow> bg_state \<Rightarrow> bg_state" where
  "lockAndAudit now r ip detail st =
     (let r1 = r\<lparr>rr_failedAttempts := rr_failedAttempts r + 1, rr_updatedAt := now 1\<rparr>;
          locked = (rr_failedAttempts r1 \<ge> MAX_FAILED_ATTEMPTS);
          r2 = (if locked then r1\<lparr>rr_lockedUntil := Some (now 2 + LOCKOUT_MS), rr_failedAttempts := 0\<rparr> else r1);
          st1 = (if locked then alert AlertLockout (Some (rr_sub r)) ip (now 3) st else st) in
      audit (now 4) AuEnable Failure (Some (rr_sub r)) None ip (Some detail) (saveRecord r2 st1))"

definition signToken ::
  "'tok bg_env \<Rightarrow> int \<Rightarrow> string \<Rightarrow> string \<Rightarrow> local_act \<Rightarrow> int \<Rightarrow> app_error + 'tok token_result" where
  "signToken env nowMs jti sub act sessionExpiresAt =
     (let ttlSeconds = max 1 ((sessionExpiresAt - nowMs) div 1000) in
      case issueLocalToken (en_lib env) (en_config env) (en_keys env) (en_prefixes env) jti sub act
             (Some ttlSeconds) nowMs of
        None \<Rightarrow> Inl Internal
      | Some token \<Rightarrow> Inr \<lparr>tr_token = token, tr_expiresAt = nowMs + ttlSeconds * 1000,
                           tr_sessionExpiresAt = sessionExpiresAt\<rparr>)"

section \<open>Operations\<close>

definition setupRecoveryRecord ::
  "'tok bg_env \<Rightarrow> (nat \<Rightarrow> int) \<Rightarrow> (nat \<Rightarrow> string) \<Rightarrow> bg_state \<Rightarrow> string \<Rightarrow> string
     \<Rightarrow> bg_state \<times> (app_error + string list)" where
  "setupRecoveryRecord env now random st sub password =
     (case currentSession (now 0) st of
        (st1, Some _) \<Rightarrow> (st1, Inl Forbidden)
      | (st1, None) \<Rightarrow>
          if length password < 12 then (st1, Inl InvalidInput)
          else
            let codes = map random [0..<RECOVERY_CODE_COUNT];
                r = \<lparr>rr_sub = sub, rr_passwordHash = en_argonHash env password,
                     rr_codes = map (\<lambda>c. \<lparr>rc_hash = en_sha256 env c, rc_usedAt = None\<rparr>) codes,
                     rr_failedAttempts = 0, rr_lockedUntil = None, rr_createdAt = now 1, rr_updatedAt = now 2\<rparr> in
            (audit (now 3) AuRecoverySetup Success (Some sub) None None None (saveRecord r st1), Inr codes))"

record enable_input =
  ei_sub :: string
  ei_password :: string
  ei_code :: string
  ei_ip :: "string option"

text \<open>The first unused code with the given hash is marked as used.\<close>

fun use_code :: "int \<Rightarrow> string \<Rightarrow> recovery_code list \<Rightarrow> recovery_code list option" where
  "use_code t h [] = None"
| "use_code t h (c # cs) =
     (if rc_usedAt c = None \<and> hashEquals (rc_hash c) h then Some (c\<lparr>rc_usedAt := Some t\<rparr> # cs)
      else map_option (\<lambda>cs'. c # cs') (use_code t h cs))"

text \<open>\<open>enable\<close> up to the point where the record has been read and is not locked.\<close>

definition enable_begin ::
  "'tok bg_env \<Rightarrow> (nat \<Rightarrow> int) \<Rightarrow> bg_state \<Rightarrow> enable_input \<Rightarrow> bg_state \<times> (app_error + recovery_record)" where
  "enable_begin env now st i =
     (if en_installation env \<noteq> InstEnabled then (st, Inl InstallationDisabled)
      else
        let limited = (case ei_ip i of
                         None \<Rightarrow> (bg_hits st, True)
                       | Some ip \<Rightarrow> limiter_check ENABLE_RATE_MAX ENABLE_RATE_WINDOW_MS (bg_hits st) ip (now 0));
            st1 = st\<lparr>bg_hits := fst limited\<rparr> in
        if \<not> snd limited
        then (audit (now 1) AuEnable Failure (Some (ei_sub i)) None (ei_ip i) (Some ''rate_limited'') st1, Inl RateLimited)
        else case bg_records st1 (ei_sub i) of
          None \<Rightarrow> (audit (now 1) AuEnable Failure (Some (ei_sub i)) None (ei_ip i) (Some ''no_record'') st1, Inl Unauthorized)
        | Some r \<Rightarrow>
            (case rr_lockedUntil r of
               Some t \<Rightarrow>
                 if t > now 0
                 then (audit (now 1) AuEnable Failure (Some (ei_sub i)) None (ei_ip i) (Some ''locked'') st1, Inl RateLimited)
                 else (st1, Inr (r\<lparr>rr_lockedUntil := None, rr_failedAttempts := 0\<rparr>))
             | None \<Rightarrow> (st1, Inr r)))"

text \<open>The rest of \<open>enable\<close>: the two factors, and on success the new session and its token.\<close>

definition enable_finish ::
  "'tok bg_env \<Rightarrow> (nat \<Rightarrow> int) \<Rightarrow> string \<Rightarrow> bg_state \<Rightarrow> enable_input \<Rightarrow> recovery_record
     \<Rightarrow> bg_state \<times> (app_error + 'tok token_result)" where
  "enable_finish env now jti st i r =
     (let passwordOk = en_argonVerify env (rr_passwordHash r) (ei_password i) in
      case (passwordOk, use_code (now 0) (en_sha256 env (ei_code i)) (rr_codes r)) of
        (True, Some codes) \<Rightarrow>
          let r' = r\<lparr>rr_codes := codes, rr_failedAttempts := 0, rr_lockedUntil := None, rr_updatedAt := now 0\<rparr>;
              session = \<lparr>bs_enabledBy = ei_sub i, bs_enabledAt = now 0,
                         bs_expiresAt = now 0 + BREAK_GLASS_SESSION_SECONDS * 1000\<rparr>;
              st' = audit (now 5) AuEnable Success (Some (ei_sub i)) None (ei_ip i) None
                      (alert AlertEnabled (Some (ei_sub i)) (ei_ip i) (now 0)
                        (saveSession (Some session) (saveRecord r' st))) in
          (st', signToken env (now 6) jti (ei_sub i) LocalAdmin (bs_expiresAt session))
      | _ \<Rightarrow> (lockAndAudit now r (ei_ip i) (if passwordOk then ''bad_code'' else ''bad_password'') st, Inl Unauthorized))"

definition enable ::
  "'tok bg_env \<Rightarrow> (nat \<Rightarrow> int) \<Rightarrow> string \<Rightarrow> bg_state \<Rightarrow> enable_input \<Rightarrow> bg_state \<times> (app_error + 'tok token_result)" where
  "enable env now jti st i =
     (case enable_begin env now st i of
        (st1, Inl e) \<Rightarrow> (st1, Inl e)
      | (st1, Inr r) \<Rightarrow> enable_finish env now jti st1 i r)"

definition renew :: "(nat \<Rightarrow> int) \<Rightarrow> bg_state \<Rightarrow> bg_state \<times> (app_error + break_glass_session)" where
  "renew now st =
     (case currentSession (now 0) st of
        (st1, None) \<Rightarrow> (st1, Inl Unauthorized)
      | (st1, Some s) \<Rightarrow>
          let renewed = s\<lparr>bs_expiresAt := now 1 + BREAK_GLASS_SESSION_SECONDS * 1000\<rparr> in
          (audit (now 2) AuRenew Success (Some (bs_enabledBy s)) None None None (saveSession (Some renewed) st1),
           Inr renewed))"

definition disable :: "(nat \<Rightarrow> int) \<Rightarrow> bg_state \<Rightarrow> bg_state" where
  "disable now st =
     (let by = map_option bs_enabledBy (bg_session st) in
      audit (now 1) AuDisable Success by None None None
        (alert AlertDisabled by None (now 0) (saveSession None st)))"

definition issueEmployeeCode ::
  "'tok bg_env \<Rightarrow> (nat \<Rightarrow> int) \<Rightarrow> string \<Rightarrow> bg_state \<Rightarrow> string \<Rightarrow> string
     \<Rightarrow> bg_state \<times> (app_error + string \<times> int)" where
  "issueEmployeeCode env now code st loginId sub =
     (case currentSession (now 0) st of
        (st1, None) \<Rightarrow> (st1, Inl Unauthorized)
      | (st1, Some _) \<Rightarrow>
          let e = \<lparr>ec_loginId = loginId, ec_sub = sub, ec_hash = en_sha256 env code,
                   ec_expiresAt = now 1 + EMPLOYEE_CODE_TTL_SECONDS * 1000, ec_usedAt = None,
                   ec_failedAttempts = 0, ec_lockedUntil = None\<rparr> in
          (audit (now 2) AuEmployeeCodeIssue Success (Some sub) (Some loginId) None None (saveEmployeeCode e st1),
           Inr (code, now 1 + EMPLOYEE_CODE_TTL_SECONDS * 1000)))"

definition login ::
  "'tok bg_env \<Rightarrow> (nat \<Rightarrow> int) \<Rightarrow> string \<Rightarrow> bg_state \<Rightarrow> string \<Rightarrow> string \<Rightarrow> string option
     \<Rightarrow> bg_state \<times> (app_error + 'tok token_result)" where
  "login env now jti st loginId code ip =
     (case currentSession (now 0) st of
        (st1, None) \<Rightarrow> (st1, Inl Unauthorized)
      | (st1, Some session) \<Rightarrow>
          (case bg_employee st1 loginId of
             None \<Rightarrow> (audit (now 2) AuLogin Failure None (Some loginId) ip (Some ''no_code'') st1, Inl Unauthorized)
           | Some e \<Rightarrow>
               if (case ec_lockedUntil e of None \<Rightarrow> False | Some t \<Rightarrow> t > now 1)
               then (audit (now 2) AuLogin Failure None (Some loginId) ip (Some ''locked'') st1, Inl RateLimited)
               else
                 let expired = (ec_expiresAt e \<le> now 1); used = (ec_usedAt e \<noteq> None) in
                 if expired \<or> used \<or> \<not> hashEquals (ec_hash e) (en_sha256 env code)
                 then
                   let e1 = e\<lparr>ec_failedAttempts := ec_failedAttempts e + 1\<rparr>;
                       locked = (ec_failedAttempts e1 \<ge> MAX_FAILED_ATTEMPTS);
                       e2 = (if locked then e1\<lparr>ec_lockedUntil := Some (now 1 + LOCKOUT_MS), ec_failedAttempts := 0\<rparr> else e1);
                       st2 = (if locked then alert AlertLockout (Some (ec_sub e)) ip (now 1) st1 else st1) in
                   (audit (now 2) AuLogin Failure None (Some loginId) ip
                      (Some (if expired then ''expired'' else if used then ''used'' else ''bad_code''))
                      (saveEmployeeCode e2 st2), Inl Unauthorized)
                 else
                   let e' = e\<lparr>ec_usedAt := Some (now 1), ec_failedAttempts := 0\<rparr> in
                   (audit (now 2) AuLogin Success (Some (ec_sub e)) (Some loginId) ip None (saveEmployeeCode e' st1),
                    signToken env (now 3) jti (ec_sub e) LocalUser (bs_expiresAt session))))"

section \<open>The rate limiter\<close>

text \<open>The times of a sequence of attempts with one key that the limiter lets through.\<close>

fun limiter_accepted ::
  "nat \<Rightarrow> int \<Rightarrow> (string \<Rightarrow> int list option) \<Rightarrow> string \<Rightarrow> int list \<Rightarrow> int list" where
  "limiter_accepted limit w hits key [] = []"
| "limiter_accepted limit w hits key (t # ts) =
     (case limiter_check limit w hits key t of
        (hits', ok) \<Rightarrow> if ok then t # limiter_accepted limit w hits' key ts else limiter_accepted limit w hits' key ts)"

definition in_window :: "int \<Rightarrow> int \<Rightarrow> int \<Rightarrow> bool" where
  "in_window w s a \<longleftrightarrow> s \<le> a \<and> a < s + w"

abbreviation hits_of :: "(string \<Rightarrow> int list option) \<Rightarrow> string \<Rightarrow> int list" where
  "hits_of hits key \<equiv> (case hits key of None \<Rightarrow> [] | Some l \<Rightarrow> l)"

lemma limiter_accepted_later: "sorted (t # ts) \<Longrightarrow> b \<in> set (limiter_accepted limit w hits key ts) \<Longrightarrow> t \<le> b"
proof (induction ts arbitrary: hits t)
  case (Cons x ts)
  then show ?case by (fastforce simp: split_beta split: if_splits)
qed simp

lemma recent_window:
  assumes "b \<in> set bs" and "in_window w s b" and "t \<le> b"
  shows "filter (in_window w s) (filter (\<lambda>a. t - a < w) h) = filter (in_window w s) h"
  using assms by (induction h) (auto simp: in_window_def)

lemma length_filter_filter: "length (filter P (filter Q xs)) \<le> length (filter P xs)"
  by (induction xs) auto

lemma limiter_window:
  assumes "sorted ts" and "\<And>s. length (filter (in_window w s) (hits_of hits key)) \<le> limit"
  shows "length (filter (in_window w s) (hits_of hits key)) +
         length (filter (in_window w s) (limiter_accepted limit w hits key ts)) \<le> limit"
  using assms
proof (induction ts arbitrary: hits s)
  case Nil
  then show ?case by simp
next
  case (Cons t ts)
  let ?h = "hits_of hits key" and ?recent = "filter (\<lambda>a. t - a < w) (hits_of hits key)"
  have srt: "sorted ts" using Cons.prems(1) by simp
  show ?case
  proof (cases "length ?recent \<ge> limit")
    case True
    let ?hits = "hits(key \<mapsto> ?recent)"
    let ?acc = "limiter_accepted limit w ?hits key ts"
    have acc: "limiter_accepted limit w hits key (t # ts) = ?acc" using True by (simp add: limiter_check_def)
    have le: "length (filter (in_window w x) ?recent) \<le> limit" for x
      using length_filter_filter Cons.prems(2) [of x] by (rule order_trans)
    have now: "hits_of ?hits key = ?recent" by simp
    have IH: "length (filter (in_window w s) ?recent) + length (filter (in_window w s) ?acc) \<le> limit"
      by (rule Cons.IH [OF srt, of ?hits s, unfolded now]) (rule le)
    show ?thesis
    proof (cases "filter (in_window w s) ?acc = []")
      case False
      then obtain b where b: "b \<in> set ?acc" "in_window w s b" by (auto simp: filter_empty_conv)
      with IH recent_window [OF b, of t ?h] limiter_accepted_later [OF Cons.prems(1) b(1)] acc
      show ?thesis by simp
    qed (use Cons.prems(2) acc in simp)
  next
    case False
    let ?hits = "hits(key \<mapsto> ?recent @ [t])"
    let ?acc = "limiter_accepted limit w ?hits key ts"
    have acc: "limiter_accepted limit w hits key (t # ts) = t # ?acc" using False by (simp add: limiter_check_def)
    have le: "length (filter (in_window w x) (?recent @ [t])) \<le> limit" for x
      using False length_filter_le [of "in_window w x" "?recent @ [t]"] by simp
    have now: "hits_of ?hits key = ?recent @ [t]" by simp
    have IH: "length (filter (in_window w s) (?recent @ [t])) + length (filter (in_window w s) ?acc) \<le> limit"
      by (rule Cons.IH [OF srt, of ?hits s, unfolded now]) (rule le)
    show ?thesis
    proof (cases "filter (in_window w s) (t # ?acc) = []")
      case False
      then obtain b where b: "b \<in> set (t # ?acc)" "in_window w s b" by (auto simp: filter_empty_conv split: if_splits)
      have "t \<le> b" using b(1) limiter_accepted_later [OF Cons.prems(1)] by auto
      with IH recent_window [OF b this, of ?h] acc show ?thesis by (cases "in_window w s t") simp_all
    qed (use Cons.prems(2) acc in simp)
  qed
qed

section \<open>Recovery codes\<close>

definition open_codes :: "string \<Rightarrow> recovery_code list \<Rightarrow> recovery_code list" where
  "open_codes h cs = filter (\<lambda>c. rc_usedAt c = None \<and> hashEquals (rc_hash c) h) cs"

lemma use_code_None: "use_code t h cs = None \<longleftrightarrow> open_codes h cs = []"
  by (induction cs) (auto simp: open_codes_def)

lemma hashEquals_iff [simp]: "hashEquals a b \<longleftrightarrow> a = b"
  by (auto simp: hashEquals_def)

lemma use_code_Some:
  "use_code t h cs = Some cs' \<Longrightarrow>
     Suc (length (open_codes h cs')) = length (open_codes h cs) \<and>
     length (open_codes g cs') \<le> length (open_codes g cs)"
  by (induction cs arbitrary: cs') (auto simp: open_codes_def split: if_splits)

text \<open>The store keeps every record under its subject and every code under its login id.\<close>

definition bg_ok :: "bg_state \<Rightarrow> bool" where
  "bg_ok st \<longleftrightarrow>
     (\<forall>s r. bg_records st s = Some r \<longrightarrow> rr_sub r = s \<and> rr_failedAttempts r < MAX_FAILED_ATTEMPTS) \<and>
     (\<forall>l e. bg_employee st l = Some e \<longrightarrow> ec_loginId e = l \<and> ec_failedAttempts e < MAX_FAILED_ATTEMPTS)"

datatype 'tok bg_op =
    OpSetup "nat \<Rightarrow> int" "nat \<Rightarrow> string" string string
  | OpEnable "nat \<Rightarrow> int" string enable_input
  | OpRenew "nat \<Rightarrow> int"
  | OpDisable "nat \<Rightarrow> int"
  | OpSession int
  | OpIssue "nat \<Rightarrow> int" string string string
  | OpLogin "nat \<Rightarrow> int" string string string "string option"

fun bg_step :: "'tok bg_env \<Rightarrow> bg_state \<Rightarrow> 'tok bg_op \<Rightarrow> bg_state" where
  "bg_step env st (OpSetup now random sub pw) = fst (setupRecoveryRecord env now random st sub pw)"
| "bg_step env st (OpEnable now jti i) = fst (enable env now jti st i)"
| "bg_step env st (OpRenew now) = fst (renew now st)"
| "bg_step env st (OpDisable now) = disable now st"
| "bg_step env st (OpSession now) = fst (currentSession now st)"
| "bg_step env st (OpIssue now code loginId sub) = fst (issueEmployeeCode env now code st loginId sub)"
| "bg_step env st (OpLogin now jti loginId code ip) = fst (login env now jti st loginId code ip)"

lemmas bg_save_defs = saveRecord_def saveSession_def saveEmployeeCode_def audit_def alert_def

lemma currentSession_fields [simp]:
  "bg_records (fst (currentSession t st)) = bg_records st"
  "bg_employee (fst (currentSession t st)) = bg_employee st"
  "bg_audit (fst (currentSession t st)) = bg_audit st"
  by (auto simp: currentSession_def saveSession_def split: option.split)

lemma currentSession_cases:
  obtains (Off) "snd (currentSession t st) = None"
  | (On) s where "currentSession t st = (st, Some s)" and "bg_session st = Some s" and "t < bs_expiresAt s"
proof (cases "bg_session st")
  case (Some s)
  then show ?thesis using Off On by (cases "bs_expiresAt s \<le> t") (simp_all add: currentSession_def)
qed (use Off in \<open>simp add: currentSession_def\<close>)

lemma enable_begin_fields [simp]:
  "bg_records (fst (enable_begin env now st i)) = bg_records st"
  "bg_employee (fst (enable_begin env now st i)) = bg_employee st"
  "bg_session (fst (enable_begin env now st i)) = bg_session st"
  by (auto simp: enable_begin_def Let_def audit_def split: option.split)

lemma enable_begin_Inr:
  assumes "snd (enable_begin env now st i) = Inr r"
  obtains r0 where "en_installation env = InstEnabled" and "bg_records st (ei_sub i) = Some r0"
    and "rr_codes r = rr_codes r0" and "rr_sub r = rr_sub r0" and "rr_passwordHash r = rr_passwordHash r0"
    and "rr_failedAttempts r \<le> rr_failedAttempts r0" and "rr_lockedUntil r = None"
    and "\<forall>t. rr_lockedUntil r0 = Some t \<longrightarrow> t \<le> now 0"
    and "bg_audit (fst (enable_begin env now st i)) = bg_audit st"
  using assms by (auto simp: enable_begin_def Let_def split: if_splits option.splits prod.splits)

text \<open>The three ways a call of \<open>enable\<close> ends.\<close>

lemma enable_cases:
  assumes ok: "bg_ok st"
  obtains (Refused) e where "snd (enable_begin env now st i) = Inl e"
      and "enable env now jti st i = (fst (enable_begin env now st i), Inl e)"
  | (Failed) r0 r d where "snd (enable_begin env now st i) = Inr r" and "bg_records st (ei_sub i) = Some r0"
      and "rr_sub r = ei_sub i" and "rr_codes r = rr_codes r0" and "rr_passwordHash r = rr_passwordHash r0"
      and "rr_failedAttempts r < MAX_FAILED_ATTEMPTS"
      and "\<not> en_argonVerify env (rr_passwordHash r0) (ei_password i) \<or>
           open_codes (en_sha256 env (ei_code i)) (rr_codes r0) = []"
      and "enable env now jti st i = (lockAndAudit now r (ei_ip i) d (fst (enable_begin env now st i)), Inl Unauthorized)"
  | (Granted) r0 r codes where "snd (enable_begin env now st i) = Inr r" and "bg_records st (ei_sub i) = Some r0"
      and "rr_sub r = ei_sub i" and "rr_codes r = rr_codes r0" and "rr_passwordHash r = rr_passwordHash r0"
      and "en_argonVerify env (rr_passwordHash r0) (ei_password i)"
      and "use_code (now 0) (en_sha256 env (ei_code i)) (rr_codes r0) = Some codes"
      and "enable env now jti st i =
        (audit (now 5) AuEnable Success (Some (ei_sub i)) None (ei_ip i) None
          (alert AlertEnabled (Some (ei_sub i)) (ei_ip i) (now 0)
            (saveSession (Some \<lparr>bs_enabledBy = ei_sub i, bs_enabledAt = now 0,
                bs_expiresAt = now 0 + BREAK_GLASS_SESSION_SECONDS * 1000\<rparr>)
              (saveRecord (r\<lparr>rr_codes := codes, rr_failedAttempts := 0, rr_lockedUntil := None, rr_updatedAt := now 0\<rparr>)
                (fst (enable_begin env now st i))))),
         signToken env (now 6) jti (ei_sub i) LocalAdmin (now 0 + BREAK_GLASS_SESSION_SECONDS * 1000))"
proof (cases "snd (enable_begin env now st i)")
  case (Inl e)
  then show ?thesis using Refused [OF Inl] by (cases "enable_begin env now st i") (simp add: enable_def)
next
  case (Inr r)
  obtain r0 where r0: "bg_records st (ei_sub i) = Some r0" "rr_codes r = rr_codes r0" "rr_sub r = rr_sub r0"
    "rr_passwordHash r = rr_passwordHash r0" "rr_failedAttempts r \<le> rr_failedAttempts r0"
    using enable_begin_Inr [OF Inr] by metis
  have sub: "rr_sub r = ei_sub i" "rr_failedAttempts r < MAX_FAILED_ATTEMPTS"
    using ok r0 unfolding bg_ok_def by fastforce+
  have en: "enable env now jti st i = enable_finish env now jti (fst (enable_begin env now st i)) i r"
    using Inr by (cases "enable_begin env now st i") (simp add: enable_def)
  let ?pw = "en_argonVerify env (rr_passwordHash r0) (ei_password i)"
  show ?thesis
  proof (cases "use_code (now 0) (en_sha256 env (ei_code i)) (rr_codes r0)")
    case None
    then have "open_codes (en_sha256 env (ei_code i)) (rr_codes r0) = []" by (simp add: use_code_None)
    with Failed [OF Inr r0(1) sub(1) r0(2,4) sub(2)] en None r0 show ?thesis
      by (cases ?pw) (auto simp: enable_finish_def)
  next
    case (Some codes)
    show ?thesis
    proof (cases ?pw)
      case True
      with Granted [OF Inr r0(1) sub(1) r0(2,4) True Some] en Some r0 show ?thesis
        by (simp add: enable_finish_def Let_def)
    next
      case False
      with Failed [OF Inr r0(1) sub(1) r0(2,4) sub(2)] en Some r0 show ?thesis by (simp add: enable_finish_def)
    qed
  qed
qed

lemma lockAndAudit_fields [simp]:
  "bg_employee (lockAndAudit now r ip d st) = bg_employee st"
  "bg_session (lockAndAudit now r ip d st) = bg_session st"
  "bg_records (lockAndAudit now r ip d st) = (bg_records st)(rr_sub r \<mapsto>
     (if rr_failedAttempts r + 1 \<ge> MAX_FAILED_ATTEMPTS
      then r\<lparr>rr_failedAttempts := 0, rr_updatedAt := now 1, rr_lockedUntil := Some (now 2 + LOCKOUT_MS)\<rparr>
      else r\<lparr>rr_failedAttempts := rr_failedAttempts r + 1, rr_updatedAt := now 1\<rparr>))"
  by (auto simp: lockAndAudit_def Let_def bg_save_defs)

text \<open>What \<open>enable\<close> does to the records: it never creates one, and it never reopens a code.\<close>

lemma enable_records:
  assumes ok: "bg_ok st"
  shows "bg_records st s = None \<Longrightarrow> bg_records (fst (enable env now jti st i)) s = None"
    and "bg_records st s = Some r \<Longrightarrow> \<exists>r'. bg_records (fst (enable env now jti st i)) s = Some r' \<and> rr_sub r' = s \<and>
      rr_failedAttempts r' < MAX_FAILED_ATTEMPTS \<and> rr_passwordHash r' = rr_passwordHash r \<and>
      (\<forall>g. length (open_codes g (rr_codes r')) \<le> length (open_codes g (rr_codes r)))"
    and "bg_employee (fst (enable env now jti st i)) = bg_employee st"
  by (rule enable_cases [OF ok, of env now i jti];
      use ok use_code_Some in \<open>force simp: bg_ok_def bg_save_defs MAX_FAILED_ATTEMPTS_def\<close>)+

lemma bg_ok_enable:
  assumes ok: "bg_ok st"
  shows "bg_ok (fst (enable env now jti st i))"
  unfolding bg_ok_def
proof (intro conjI allI impI)
  fix s r assume r: "bg_records (fst (enable env now jti st i)) s = Some r"
  then obtain r0 where "bg_records st s = Some r0" using enable_records(1) [OF ok, of s env now jti i]
    by (cases "bg_records st s") auto
  from enable_records(2) [OF ok this, of env now jti i] r
  show "rr_sub r = s" "rr_failedAttempts r < MAX_FAILED_ATTEMPTS" by auto
next
  fix l e assume "bg_employee (fst (enable env now jti st i)) l = Some e"
  then show "ec_loginId e = l" "ec_failedAttempts e < MAX_FAILED_ATTEMPTS"
    using ok unfolding enable_records(3) [OF ok] bg_ok_def by auto
qed

lemma other_ops_records:
  "bg_records (fst (renew now st)) = bg_records st"
  "bg_records (disable now st) = bg_records st"
  "bg_records (fst (issueEmployeeCode env now code st l sub)) = bg_records st"
  "bg_records (fst (login env now jti st l code ip)) = bg_records st"
  "bg_employee (fst (renew now st)) = bg_employee st"
  "bg_employee (disable now st) = bg_employee st"
  "bg_employee (fst (setupRecoveryRecord env now random st sub pw)) = bg_employee st"
  by (rule currentSession_cases [of "now 0" st];
      auto simp: renew_def disable_def issueEmployeeCode_def login_def setupRecoveryRecord_def bg_save_defs Let_def
        currentSession_def split: option.splits prod.splits if_splits)+

text \<open>The three ways a login ends.\<close>

definition failed_entry :: "int \<Rightarrow> employee_code \<Rightarrow> employee_code" where
  "failed_entry t e =
     (if ec_failedAttempts e + 1 \<ge> MAX_FAILED_ATTEMPTS
      then e\<lparr>ec_lockedUntil := Some (t + LOCKOUT_MS), ec_failedAttempts := 0\<rparr>
      else e\<lparr>ec_failedAttempts := ec_failedAttempts e + 1\<rparr>)"

lemma login_cases:
  obtains (Refused) err where "bg_employee (fst (login env now jti st k code ip)) = bg_employee st"
      and "snd (login env now jti st k code ip) = Inl err"
  | (Failed) e where "bg_employee st k = Some e"
      and "bg_employee (fst (login env now jti st k code ip)) = (bg_employee st)(ec_loginId e \<mapsto> failed_entry (now 1) e)"
      and "snd (login env now jti st k code ip) = Inl Unauthorized"
  | (Granted) e s where "bg_employee st k = Some e" and "bg_session st = Some s" and "now 0 < bs_expiresAt s"
      and "\<forall>t. ec_lockedUntil e = Some t \<longrightarrow> t \<le> now 1" and "now 1 < ec_expiresAt e" and "ec_usedAt e = None"
      and "ec_hash e = en_sha256 env code"
      and "login env now jti st k code ip =
        (audit (now 2) AuLogin Success (Some (ec_sub e)) (Some k) ip None
           (saveEmployeeCode (e\<lparr>ec_usedAt := Some (now 1), ec_failedAttempts := 0\<rparr>) st),
         signToken env (now 3) jti (ec_sub e) LocalUser (bs_expiresAt s))"
proof (cases rule: currentSession_cases [of "now 0" st])
  case Off
  then obtain st1 where st1: "currentSession (now 0) st = (st1, None)" by (cases "currentSession (now 0) st") auto
  then have "bg_employee st1 = bg_employee st" using currentSession_fields(2) [of "now 0" st] by simp
  then show ?thesis using st1 by (intro Refused [of Unauthorized]) (simp_all add: login_def)
next
  case (On s)
  show ?thesis
  proof (cases "bg_employee st k")
    case None
    then show ?thesis using On by (intro Refused [of Unauthorized]) (simp_all add: login_def audit_def)
  next
    case (Some e)
    show ?thesis
    proof (cases "case ec_lockedUntil e of None \<Rightarrow> False | Some t \<Rightarrow> t > now 1")
      case True
      then show ?thesis using On Some by (intro Refused [of RateLimited]) (simp_all add: login_def audit_def)
    next
      case unlocked: False
      show ?thesis
      proof (cases "ec_expiresAt e \<le> now 1 \<or> ec_usedAt e \<noteq> None \<or> ec_hash e \<noteq> en_sha256 env code")
        case True
        then show ?thesis using On Some unlocked
          by (intro Failed [OF Some]) (simp_all add: login_def bg_save_defs Let_def failed_entry_def)
      next
        case False
        then show ?thesis using On Some unlocked
          by (intro Granted [OF Some On(2,3)]) (auto simp: login_def Let_def split: option.splits)
      qed
    qed
  qed
qed

lemma login_employee:
  assumes ok: "bg_ok st"
  shows "bg_employee st l = None \<Longrightarrow> bg_employee (fst (login env now jti st k code ip)) l = None"
    and "bg_employee st l = Some e \<Longrightarrow> \<exists>e'. bg_employee (fst (login env now jti st k code ip)) l = Some e' \<and>
      ec_loginId e' = l \<and> ec_failedAttempts e' < MAX_FAILED_ATTEMPTS \<and> ec_hash e' = ec_hash e \<and>
      (ec_usedAt e \<noteq> None \<longrightarrow> ec_usedAt e' = ec_usedAt e)"
  by (rule login_cases [of env now jti st k code ip];
      use ok in \<open>force simp: bg_ok_def bg_save_defs failed_entry_def MAX_FAILED_ATTEMPTS_def\<close>)+

lemma setup_records:
  "bg_records (fst (setupRecoveryRecord env now random st sub pw)) = bg_records st \<or>
   (\<exists>r. bg_records (fst (setupRecoveryRecord env now random st sub pw)) = (bg_records st)(sub \<mapsto> r) \<and>
      rr_sub r = sub \<and> rr_failedAttempts r = 0)"
proof (cases rule: currentSession_cases [of "now 0" st])
  case Off
  then obtain st1 where st1: "currentSession (now 0) st = (st1, None)" by (cases "currentSession (now 0) st") auto
  then have "bg_records st1 = bg_records st" using currentSession_fields(1) [of "now 0" st] by simp
  with st1 show ?thesis
    by (cases "length pw < 12") (auto simp: setupRecoveryRecord_def bg_save_defs Let_def)
qed (simp add: setupRecoveryRecord_def)

lemma issue_employee:
  "bg_employee (fst (issueEmployeeCode env now code st l sub)) = bg_employee st \<or>
   (\<exists>e. bg_employee (fst (issueEmployeeCode env now code st l sub)) = (bg_employee st)(l \<mapsto> e) \<and>
      ec_loginId e = l \<and> ec_failedAttempts e = 0)"
proof (cases rule: currentSession_cases [of "now 0" st])
  case Off
  then obtain st1 where st1: "currentSession (now 0) st = (st1, None)" by (cases "currentSession (now 0) st") auto
  then have "bg_employee st1 = bg_employee st" using currentSession_fields(2) [of "now 0" st] by simp
  with st1 show ?thesis by (simp add: issueEmployeeCode_def)
qed (fastforce simp: issueEmployeeCode_def bg_save_defs Let_def)

lemma bg_ok_step:
  assumes ok: "bg_ok st"
  shows "bg_ok (bg_step env st op)"
proof (cases op)
  case (OpSetup now random sub pw)
  then show ?thesis
    using ok setup_records [of env now random st sub pw] other_ops_records(7) [of env now random st sub pw]
    by (auto simp: bg_ok_def MAX_FAILED_ATTEMPTS_def split: if_splits)
next
  case (OpIssue now code l sub)
  then show ?thesis
    using ok issue_employee [of env now code st l sub] other_ops_records(3) [of env now code st l sub]
    by (auto simp: bg_ok_def MAX_FAILED_ATTEMPTS_def split: if_splits)
next
  case (OpLogin now jti k code ip)
  have "ec_loginId e = l \<and> ec_failedAttempts e < MAX_FAILED_ATTEMPTS"
    if e: "bg_employee (fst (login env now jti st k code ip)) l = Some e" for l e
  proof (cases "bg_employee st l")
    case None
    with login_employee(1) [OF ok None, of env now jti k code ip] e show ?thesis by simp
  next
    case (Some e0)
    from login_employee(2) [OF ok Some, of env now jti k code ip] e show ?thesis by auto
  qed
  with OpLogin ok show ?thesis unfolding bg_ok_def by (auto simp: other_ops_records)
next
  case (OpEnable now jti i)
  then show ?thesis using bg_ok_enable [OF ok, of env now jti i] by simp
qed (use ok in \<open>auto simp: bg_ok_def other_ops_records\<close>)

text \<open>A recovery code that is spent stays spent until the factors are set up anew, a used employee code
  until a new one is issued.\<close>

definition code_spent :: "string \<Rightarrow> bg_state \<Rightarrow> string \<Rightarrow> unit option" where
  "code_spent sub st h =
     (case bg_records st sub of
        None \<Rightarrow> None | Some r \<Rightarrow> if open_codes h (rr_codes r) = [] then Some () else None)"

definition login_spent :: "bg_state \<Rightarrow> string \<Rightarrow> unit option" where
  "login_spent st l =
     (case bg_employee st l of None \<Rightarrow> None | Some e \<Rightarrow> if ec_usedAt e \<noteq> None then Some () else None)"

fun keeps_factors :: "string \<Rightarrow> 'tok bg_op \<Rightarrow> bool" where
  "keeps_factors sub (OpSetup now random s pw) = (s \<noteq> sub)"
| "keeps_factors sub _ = True"

fun keeps_login :: "string \<Rightarrow> 'tok bg_op \<Rightarrow> bool" where
  "keeps_login l (OpIssue now code k sub) = (k \<noteq> l)"
| "keeps_login l _ = True"

lemma code_spent_step:
  assumes ok: "bg_ok st" and "keeps_factors sub op" and spent: "code_spent sub st h = Some u"
  shows "code_spent sub (bg_step env st op) h = Some u"
proof -
  from spent obtain r where r: "bg_records st sub = Some r" "open_codes h (rr_codes r) = []"
    by (auto simp: code_spent_def split: option.splits if_splits)
  have "\<exists>r'. bg_records (bg_step env st op) sub = Some r' \<and> open_codes h (rr_codes r') = []"
  proof (cases op)
    case (OpEnable now jti i)
    from enable_records(2) [OF ok r(1), of env now jti i] obtain r' where
      "bg_records (fst (enable env now jti st i)) sub = Some r'"
      "length (open_codes h (rr_codes r')) \<le> length (open_codes h (rr_codes r))"
      by blast
    with r(2) OpEnable show ?thesis by simp
  next
    case (OpSetup now random s pw)
    with assms(2) setup_records [of env now random st s pw] r show ?thesis by auto
  qed (use r in \<open>simp_all add: other_ops_records\<close>)
  then show ?thesis by (auto simp: code_spent_def)
qed

interpretation recovery_codes: write_once bg_ok "keeps_factors sub" "code_spent sub" "bg_step env" for sub env
  by unfold_locales (blast intro: bg_ok_step code_spent_step)+

lemma login_spent_step:
  assumes ok: "bg_ok st" and "keeps_login l op" and spent: "login_spent st l = Some u"
  shows "login_spent (bg_step env st op) l = Some u"
proof -
  from spent obtain e where e: "bg_employee st l = Some e" "ec_usedAt e \<noteq> None"
    by (auto simp: login_spent_def split: option.splits if_splits)
  have "\<exists>e'. bg_employee (bg_step env st op) l = Some e' \<and> ec_usedAt e' \<noteq> None"
  proof (cases op)
    case (OpLogin now jti k code ip)
    from login_employee(2) [OF ok e(1), of env now jti k code ip] e(2) OpLogin show ?thesis by auto
  next
    case (OpIssue now code k sub)
    with assms(2) issue_employee [of env now code st k sub] e show ?thesis by auto
  next
    case (OpEnable now jti i)
    then show ?thesis using e enable_records(3) [OF ok, of env now jti i] by simp
  qed (use e in \<open>simp_all add: other_ops_records\<close>)
  then show ?thesis by (auto simp: login_spent_def)
qed

interpretation employee_codes: write_once bg_ok "keeps_login l" "\<lambda>st (_ :: unit). login_spent st l" "bg_step env"
  for l env
  by unfold_locales (blast intro: bg_ok_step login_spent_step)+

section \<open>Lockout\<close>

definition bad_factors :: "'tok bg_env \<Rightarrow> recovery_record \<Rightarrow> enable_input \<Rightarrow> bool" where
  "bad_factors env r i \<longleftrightarrow>
     \<not> en_argonVerify env (rr_passwordHash r) (ei_password i) \<or> open_codes (en_sha256 env (ei_code i)) (rr_codes r) = []"

definition same_factors :: "recovery_record \<Rightarrow> recovery_record \<Rightarrow> bool" where
  "same_factors r r' \<longleftrightarrow> rr_passwordHash r' = rr_passwordHash r \<and> rr_codes r' = rr_codes r"

lemma bad_same_factors: "same_factors r r' \<Longrightarrow> bad_factors env r' i = bad_factors env r i"
  by (simp add: same_factors_def bad_factors_def)

lemma bad_attempt:
  assumes ok: "bg_ok st" and inst: "en_installation env = InstEnabled" and r: "bg_records st (ei_sub i) = Some r"
    and "rr_lockedUntil r = None" and "ei_ip i = None" and bad: "bad_factors env r i"
  shows "snd (enable env now jti st i) = Inl Unauthorized \<and>
    (\<exists>r'. bg_records (fst (enable env now jti st i)) (ei_sub i) = Some r' \<and> same_factors r r' \<and>
       (if rr_failedAttempts r + 1 \<ge> MAX_FAILED_ATTEMPTS then rr_lockedUntil r' = Some (now 2 + LOCKOUT_MS)
        else rr_lockedUntil r' = None \<and> rr_failedAttempts r' = rr_failedAttempts r + 1))"
proof -
  have begin_r: "snd (enable_begin env now st i) = Inr r"
    using assms by (simp add: enable_begin_def Let_def)
  show ?thesis
  proof (rule enable_cases [OF ok, of env now i jti])
    fix r0 r1 d assume f: "snd (enable_begin env now st i) = Inr r1" "bg_records st (ei_sub i) = Some r0"
      "rr_sub r1 = ei_sub i" "enable env now jti st i =
        (lockAndAudit now r1 (ei_ip i) d (fst (enable_begin env now st i)), Inl Unauthorized)"
    then have "r1 = r" using begin_r by simp
    with f assms(4) show ?thesis by (auto simp: same_factors_def)
  next
    fix r0 r1 codes assume f: "bg_records st (ei_sub i) = Some r0"
      "en_argonVerify env (rr_passwordHash r0) (ei_password i)"
      "use_code (now 0) (en_sha256 env (ei_code i)) (rr_codes r0) = Some codes"
    with r bad have "open_codes (en_sha256 env (ei_code i)) (rr_codes r0) = []" by (simp add: bad_factors_def)
    with use_code_None [of "now 0" "en_sha256 env (ei_code i)" "rr_codes r0"] f(3) show ?thesis by simp
  qed (use begin_r in simp)
qed

type_synonym attempt = "(nat \<Rightarrow> int) \<times> string \<times> enable_input"

abbreviation attempt_op :: "attempt \<Rightarrow> 'tok bg_op" where
  "attempt_op a \<equiv> (case a of (now, jti, i) \<Rightarrow> OpEnable now jti i)"

definition bad_attempt_on :: "'tok bg_env \<Rightarrow> string \<Rightarrow> recovery_record \<Rightarrow> attempt \<Rightarrow> bool" where
  "bad_attempt_on env sub r a \<longleftrightarrow>
     (case a of (now, jti, i) \<Rightarrow> ei_sub i = sub \<and> ei_ip i = None \<and> bad_factors env r i)"

lemma bad_attempts_count:
  assumes "bg_ok st" and "en_installation env = InstEnabled" and "bg_records st sub = Some r"
    and "rr_lockedUntil r = None" and "rr_failedAttempts r + length as < MAX_FAILED_ATTEMPTS"
    and "list_all (bad_attempt_on env sub r) as"
  shows "bg_ok (foldl (bg_step env) st (map attempt_op as)) \<and>
    (\<exists>r'. bg_records (foldl (bg_step env) st (map attempt_op as)) sub = Some r' \<and> same_factors r r' \<and>
       rr_lockedUntil r' = None \<and> rr_failedAttempts r' = rr_failedAttempts r + length as)"
  using assms
proof (induction as arbitrary: st r)
  case Nil
  then show ?case by (simp add: same_factors_def)
next
  case (Cons a as)
  obtain now jti i where a: "a = (now, jti, i)" by (cases a)
  with Cons.prems(6) have i: "ei_sub i = sub" "ei_ip i = None" "bad_factors env r i"
    by (auto simp: bad_attempt_on_def)
  let ?st = "fst (enable env now jti st i)"
  from bad_attempt [OF Cons.prems(1,2), of i r now jti] Cons.prems(3,4,5) i obtain r1 where
    r1: "bg_records ?st sub = Some r1" "same_factors r r1" "rr_lockedUntil r1 = None"
      "rr_failedAttempts r1 = rr_failedAttempts r + 1"
    by auto
  have bads: "list_all (bad_attempt_on env sub r1) as"
    using Cons.prems(6) by (auto simp: list_all_iff bad_attempt_on_def bad_same_factors [OF r1(2)])
  from Cons.IH [OF bg_ok_enable [OF Cons.prems(1)] Cons.prems(2) r1(1,3) _ bads] r1 Cons.prems(5)
  show ?case by (auto simp: a same_factors_def)
qed

lemma locked_refuses:
  assumes "en_installation env = InstEnabled" and "bg_records st (ei_sub i) = Some r" and "ei_ip i = None"
    and "rr_lockedUntil r = Some t" and "now 0 < t"
  shows "snd (enable env now jti st i) = Inl RateLimited \<and> bg_records (fst (enable env now jti st i)) = bg_records st"
  using assms by (simp add: enable_def enable_begin_def Let_def audit_def)

section \<open>The audit trail\<close>

lemma enable_audit:
  assumes ok: "bg_ok st"
  shows "\<exists>new. bg_audit (fst (enable env now jti st i)) = bg_audit st @ new \<and>
    (en_installation env = InstEnabled \<longrightarrow> length new = 1 \<and> au_action (hd new) = AuEnable \<and>
       au_sub (hd new) = Some (ei_sub i) \<and>
       (au_outcome (hd new) = Success \<longleftrightarrow> (\<exists>res. snd (enable env now jti st i) = Inr res)))"
proof -
  have sign: "\<exists>res. signToken env t j s a x = Inr res" for t j s a x
    by (auto simp: signToken_def issueLocalToken_def Let_def LOCAL_TOKEN_MAX_TTL_SECONDS_def)
  show ?thesis
  proof (rule enable_cases [OF ok, of env now i jti])
    fix e assume r: "snd (enable_begin env now st i) = Inl e"
      "enable env now jti st i = (fst (enable_begin env now st i), Inl e)"
    then show ?thesis
      by (auto simp: enable_begin_def Let_def audit_def split: if_splits option.splits)
  next
    fix r0 r d assume f: "snd (enable_begin env now st i) = Inr r" "rr_sub r = ei_sub i"
      "enable env now jti st i = (lockAndAudit now r (ei_ip i) d (fst (enable_begin env now st i)), Inl Unauthorized)"
    have "bg_audit (fst (enable_begin env now st i)) = bg_audit st" using enable_begin_Inr [OF f(1)] by metis
    with f(2,3) show ?thesis by (auto simp: lockAndAudit_def Let_def bg_save_defs)
  next
    fix r0 r codes assume f: "snd (enable_begin env now st i) = Inr r"
      "enable env now jti st i =
        (audit (now 5) AuEnable Success (Some (ei_sub i)) None (ei_ip i) None
          (alert AlertEnabled (Some (ei_sub i)) (ei_ip i) (now 0)
            (saveSession (Some \<lparr>bs_enabledBy = ei_sub i, bs_enabledAt = now 0,
                bs_expiresAt = now 0 + BREAK_GLASS_SESSION_SECONDS * 1000\<rparr>)
              (saveRecord (r\<lparr>rr_codes := codes, rr_failedAttempts := 0, rr_lockedUntil := None, rr_updatedAt := now 0\<rparr>)
                (fst (enable_begin env now st i))))),
         signToken env (now 6) jti (ei_sub i) LocalAdmin (now 0 + BREAK_GLASS_SESSION_SECONDS * 1000))"
    have "bg_audit (fst (enable_begin env now st i)) = bg_audit st" using enable_begin_Inr [OF f(1)] by metis
    with f(2) sign show ?thesis by (auto simp: bg_save_defs)
  qed
qed

lemma sign_in_session:
  assumes "signToken env t jti sub act e = Inr res"
  shows "tr_sessionExpiresAt res = e" and "1000 \<le> e - t \<Longrightarrow> tr_expiresAt res \<le> e"
proof -
  have "(e - t) div 1000 * 1000 \<le> e - t" by (simp add: minus_mod_eq_div_mult [symmetric])
  moreover have "1 \<le> (e - t) div 1000" if "1000 \<le> e - t"
    using zdiv_mono1 [OF that, of 1000] by simp
  ultimately show "tr_sessionExpiresAt res = e" "1000 \<le> e - t \<Longrightarrow> tr_expiresAt res \<le> e"
    using assms by (auto simp: signToken_def Let_def max_def split: option.splits if_splits)
qed

section \<open>A concrete deployment\<close>

definition demo_env :: "(string \<times> string \<times> json) bg_env" where
  "demo_env = \<lparr>en_sha256 = id, en_argonHash = id, en_argonVerify = (=), en_installation = InstEnabled,
     en_lib = demo_local_jose, en_config = so_config demo_sat_options, en_keys = demo_keys,
     en_prefixes = \<lparr>pp_user = [], pp_admin = []\<rparr>\<rparr>"

definition demo_record :: recovery_record where
  "demo_record = \<lparr>rr_sub = ''alice'', rr_passwordHash = ''secret'',
     rr_codes = [\<lparr>rc_hash = ''c1'', rc_usedAt = None\<rparr>, \<lparr>rc_hash = ''c2'', rc_usedAt = None\<rparr>],
     rr_failedAttempts = 0, rr_lockedUntil = None, rr_createdAt = 0, rr_updatedAt = 0\<rparr>"

definition demo_code :: employee_code where
  "demo_code = \<lparr>ec_loginId = ''bob'', ec_sub = ''u-bob'', ec_hash = ''e1'', ec_expiresAt = 900000, ec_usedAt = None,
     ec_failedAttempts = 0, ec_lockedUntil = None\<rparr>"

definition demo_bg :: bg_state where
  "demo_bg = \<lparr>bg_records = [''alice'' \<mapsto> demo_record],
     bg_session = Some \<lparr>bs_enabledBy = ''alice'', bs_enabledAt = 0, bs_expiresAt = 5500\<rparr>,
     bg_employee = [''bob'' \<mapsto> demo_code], bg_audit = [], bg_hits = Map.empty, bg_alerts = []\<rparr>"

definition demo_input :: "string \<Rightarrow> enable_input" where
  "demo_input code = \<lparr>ei_sub = ''alice'', ei_password = ''secret'', ei_code = code, ei_ip = None\<rparr>"

lemma demo_bg_ok: "bg_ok demo_bg"
  by (simp add: bg_ok_def demo_bg_def demo_record_def demo_code_def MAX_FAILED_ATTEMPTS_def)

lemma demo_enabled: "\<exists>res. snd (enable demo_env (\<lambda>_. 1000) ''j'' demo_bg (demo_input ''c1'')) = Inr res"
  by (simp add: enable_def enable_begin_def enable_finish_def demo_env_def demo_bg_def demo_record_def demo_input_def
      signToken_def issueLocalToken_def BREAK_GLASS_SESSION_SECONDS_def LOCAL_TOKEN_MAX_TTL_SECONDS_def Let_def)

lemma demo_logged_in: "\<exists>res. snd (login demo_env (\<lambda>_. 1000) ''j'' demo_bg ''bob'' ''e1'' None) = Inr res"
  by (simp add: login_def currentSession_def demo_env_def demo_bg_def demo_code_def
      signToken_def issueLocalToken_def LOCAL_TOKEN_MAX_TTL_SECONDS_def Let_def)

section \<open>Properties\<close>

text \<open>The enable endpoint is rate limited in every sliding window: however the attempts of one address
  are spread, at most five of them get past the limiter within any sixty seconds.\<close>

theorem enable_rate_limited:
  assumes "sorted ts"
  shows "length (filter (\<lambda>a. s \<le> a \<and> a < s + 60000)
           (limiter_accepted ENABLE_RATE_MAX ENABLE_RATE_WINDOW_MS Map.empty ip ts)) \<le> 5"
  using limiter_window [OF assms, of ENABLE_RATE_WINDOW_MS Map.empty ip ENABLE_RATE_MAX s]
  by (simp add: ENABLE_RATE_MAX_def ENABLE_RATE_WINDOW_MS_def in_window_def [abs_def])

lemma enable_rate_limited_witness:
  "length (filter (\<lambda>a. 0 \<le> a \<and> a < 0 + 60000)
     (limiter_accepted ENABLE_RATE_MAX ENABLE_RATE_WINDOW_MS Map.empty ''ip'' [0, 1, 2, 3, 4, 5, 6, 60001])) \<le> 5"
  by (rule enable_rate_limited) simp



text \<open>A recovery code works once: after a successful \<open>enable\<close> with a code that the record holds once,
  no later call for that subject with that code succeeds, whatever other operations run in between, until the
  recovery factors are set up again. (Calls that do not overlap in time.)\<close>

theorem recovery_code_once:
  assumes ok: "bg_ok st" and granted: "snd (enable env now jti st i) = Inr res"
    and r: "bg_records st (ei_sub i) = Some r"
    and single: "length (open_codes (en_sha256 env (ei_code i)) (rr_codes r)) = 1"
    and ops: "list_all (keeps_factors (ei_sub i)) ops"
    and again: "ei_sub i' = ei_sub i" "ei_code i' = ei_code i"
  shows "\<exists>e. snd (enable env now' jti' (foldl (bg_step env) (fst (enable env now jti st i)) ops) i') = Inl e"
proof -
  let ?h = "en_sha256 env (ei_code i)" and ?st = "fst (enable env now jti st i)"
  have spent: "code_spent (ei_sub i) ?st ?h = Some ()"
  proof (rule enable_cases [OF ok, of env now i jti])
    fix r0 r1 codes assume f: "bg_records st (ei_sub i) = Some r0" "rr_sub r1 = ei_sub i"
      "use_code (now 0) ?h (rr_codes r0) = Some codes"
      "enable env now jti st i =
        (audit (now 5) AuEnable Success (Some (ei_sub i)) None (ei_ip i) None
          (alert AlertEnabled (Some (ei_sub i)) (ei_ip i) (now 0)
            (saveSession (Some \<lparr>bs_enabledBy = ei_sub i, bs_enabledAt = now 0,
                bs_expiresAt = now 0 + BREAK_GLASS_SESSION_SECONDS * 1000\<rparr>)
              (saveRecord (r1\<lparr>rr_codes := codes, rr_failedAttempts := 0, rr_lockedUntil := None, rr_updatedAt := now 0\<rparr>)
                (fst (enable_begin env now st i))))),
         signToken env (now 6) jti (ei_sub i) LocalAdmin (now 0 + BREAK_GLASS_SESSION_SECONDS * 1000))"
    have "length (open_codes ?h codes) = 0" using use_code_Some [OF f(3)] single r f(1) by simp
    with f(2,4) show ?thesis by (simp add: code_spent_def bg_save_defs)
  qed (use granted in auto)
  let ?last = "foldl (bg_step env) ?st ops"
  have ok': "bg_ok ?last" using recovery_codes.run_inv [OF bg_ok_enable [OF ok] ops] .
  have "code_spent (ei_sub i) ?last ?h = Some ()"
    using recovery_codes.run_keeps [OF bg_ok_enable [OF ok] ops spent] .
  then obtain r' where r': "bg_records ?last (ei_sub i') = Some r'" "open_codes (en_sha256 env (ei_code i')) (rr_codes r') = []"
    using again by (auto simp: code_spent_def split: option.splits if_splits)
  show ?thesis
  proof (rule enable_cases [OF ok', of env now' i' jti'])
    fix r0 codes assume "bg_records ?last (ei_sub i') = Some r0"
      "use_code (now' 0) (en_sha256 env (ei_code i')) (rr_codes r0) = Some codes"
    with r' use_code_None [of "now' 0" "en_sha256 env (ei_code i')" "rr_codes r'"] show ?thesis by simp
  qed auto
qed

lemma recovery_code_once_witness:
  "\<exists>e. snd (enable demo_env (\<lambda>_. 3000) ''k''
     (foldl (bg_step demo_env) (fst (enable demo_env (\<lambda>_. 1000) ''j'' demo_bg (demo_input ''c1'')))
        [OpDisable (\<lambda>_. 2000), OpEnable (\<lambda>_. 2500) ''m'' (demo_input ''c2'')]) (demo_input ''c1'')) = Inl e"
proof -
  obtain res where res: "snd (enable demo_env (\<lambda>_. 1000) ''j'' demo_bg (demo_input ''c1'')) = Inr res"
    using demo_enabled ..
  show ?thesis
    by (rule recovery_code_once [OF demo_bg_ok res, of demo_record])
      (simp_all add: demo_bg_def demo_input_def demo_env_def demo_record_def open_codes_def)
qed

text \<open>Five wrong attempts lock a recovery record: from an unlocked record without failures, after five
  attempts in a row with a wrong password or code the record is locked for thirty minutes after the last of
  them, and during that time every attempt is refused, with the right factors too, and changes no record.\<close>

theorem five_failures_lock:
  assumes ok: "bg_ok st" and inst: "en_installation env = InstEnabled" and r: "bg_records st sub = Some r"
    and fresh: "rr_lockedUntil r = None" "rr_failedAttempts r = 0"
    and bad: "list_all (bad_attempt_on env sub r) (as @ [(now, jti, i)])" "length as = 4"
    and later: "ei_sub i' = sub" "ei_ip i' = None" "now' 0 < now 2 + 1800000"
  shows "let st' = foldl (bg_step env) st (map attempt_op (as @ [(now, jti, i)])) in
           snd (enable env now' jti' st' i') = Inl RateLimited \<and>
           bg_records (fst (enable env now' jti' st' i')) = bg_records st'"
proof -
  let ?st4 = "foldl (bg_step env) st (map attempt_op as)"
  have four: "rr_failedAttempts r + length as < MAX_FAILED_ATTEMPTS" "list_all (bad_attempt_on env sub r) as"
    using fresh bad by (simp_all add: MAX_FAILED_ATTEMPTS_def)
  from bad_attempts_count [OF ok inst r fresh(1) four] obtain r4 where
    r4: "bg_ok ?st4" "bg_records ?st4 sub = Some r4" "same_factors r r4" "rr_lockedUntil r4 = None"
      "rr_failedAttempts r4 = 4"
    using fresh(2) bad(2) by auto
  have i: "ei_sub i = sub" "ei_ip i = None" "bad_factors env r4 i"
    using bad(1) bad_same_factors [OF r4(3), of env i] by (auto simp: bad_attempt_on_def)
  from bad_attempt [OF r4(1) inst, of i r4 now jti] r4 i obtain r5 where
    r5: "bg_records (fst (enable env now jti ?st4 i)) sub = Some r5" "rr_lockedUntil r5 = Some (now 2 + LOCKOUT_MS)"
    by (auto simp: MAX_FAILED_ATTEMPTS_def)
  have "now' 0 < now 2 + LOCKOUT_MS" using later(3) by (simp add: LOCKOUT_MS_def)
  from locked_refuses [where now = now' and st = "fst (enable env now jti ?st4 i)" and jti = jti',
      OF inst _ later(2) r5(2) this] r5(1) later(1)
  show ?thesis by (simp add: Let_def)
qed

lemma five_failures_lock_witness:
  "let st' = foldl (bg_step demo_env) demo_bg (map attempt_op (replicate 4 (\<lambda>_. 1000, ''j'', demo_input ''x'') @
         [(\<lambda>_. 2000, ''j'', demo_input ''x'')])) in
     snd (enable demo_env (\<lambda>_. 3000) ''k'' st' (demo_input ''c1'')) = Inl RateLimited \<and>
     bg_records (fst (enable demo_env (\<lambda>_. 3000) ''k'' st' (demo_input ''c1''))) = bg_records st'"
  by (rule five_failures_lock [OF demo_bg_ok, where sub = "''alice''" and r = demo_record])
    (simp_all add: demo_env_def demo_bg_def demo_record_def demo_input_def bad_attempt_on_def bad_factors_def
      open_codes_def numeral_eq_Suc)

text \<open>An employee code lets its employee in once: a successful login happens during an unexpired session,
  with the unexpired, unused code issued for that login, and yields a token whose reported expiry is within
  the session if a second of it is left; after it no login with that id succeeds until a new code is issued.\<close>

theorem employee_login_once:
  assumes ok: "bg_ok st" and granted: "snd (login env now jti st l code ip) = Inr res"
    and ops: "list_all (keeps_login l) ops"
  shows "(\<exists>e s. bg_employee st l = Some e \<and> bg_session st = Some s \<and> now 0 < bs_expiresAt s \<and>
           now 1 < ec_expiresAt e \<and> ec_usedAt e = None \<and> ec_hash e = en_sha256 env code \<and>
           (now 3 + 1000 \<le> bs_expiresAt s \<longrightarrow> tr_expiresAt res \<le> bs_expiresAt s)) \<and>
         (\<exists>err. snd (login env now' jti' (foldl (bg_step env) (fst (login env now jti st l code ip)) ops) l code' ip') = Inl err)"
proof -
  let ?st = "fst (login env now jti st l code ip)"
  obtain e s where f: "bg_employee st l = Some e" "bg_session st = Some s" "now 0 < bs_expiresAt s"
    "now 1 < ec_expiresAt e" "ec_usedAt e = None" "ec_hash e = en_sha256 env code"
    "login env now jti st l code ip =
        (audit (now 2) AuLogin Success (Some (ec_sub e)) (Some l) ip None
           (saveEmployeeCode (e\<lparr>ec_usedAt := Some (now 1), ec_failedAttempts := 0\<rparr>) st),
         signToken env (now 3) jti (ec_sub e) LocalUser (bs_expiresAt s))"
    by (rule login_cases [of env now jti st l code ip]) (use granted in auto)
  have res: "signToken env (now 3) jti (ec_sub e) LocalUser (bs_expiresAt s) = Inr res"
    using granted f(7) by simp
  have "ec_loginId e = l" using ok f(1) by (auto simp: bg_ok_def)
  then have spent: "login_spent ?st l = Some ()"
    using f(7) by (simp add: login_spent_def bg_save_defs)
  have ok1: "bg_ok ?st" using bg_ok_step [OF ok, of env "OpLogin now jti l code ip"] by simp
  have "login_spent (foldl (bg_step env) ?st ops) l = Some ()"
    using employee_codes.run_keeps [OF ok1 ops spent] .
  then obtain e' where e': "bg_employee (foldl (bg_step env) ?st ops) l = Some e'" "ec_usedAt e' \<noteq> None"
    by (auto simp: login_spent_def split: option.splits if_splits)
  have "\<exists>err. snd (login env now' jti' (foldl (bg_step env) ?st ops) l code' ip') = Inl err"
    by (rule login_cases [of env now' jti' "foldl (bg_step env) ?st ops" l code' ip']) (use e' in auto)
  moreover have "now 3 + 1000 \<le> bs_expiresAt s \<longrightarrow> tr_expiresAt res \<le> bs_expiresAt s"
    using sign_in_session(2) [OF res] by auto
  ultimately show ?thesis using f(1-6) by blast
qed

lemma employee_login_once_witness:
  "\<exists>err. snd (login demo_env (\<lambda>_. 2000) ''k''
     (foldl (bg_step demo_env) (fst (login demo_env (\<lambda>_. 1000) ''j'' demo_bg ''bob'' ''e1'' None))
        [OpRenew (\<lambda>_. 1500)]) ''bob'' ''e1'' None) = Inl err"
proof -
  obtain res where res: "snd (login demo_env (\<lambda>_. 1000) ''j'' demo_bg ''bob'' ''e1'' None) = Inr res"
    using demo_logged_in ..
  from employee_login_once [OF demo_bg_ok res, of "[OpRenew (\<lambda>_. 1500)]" "\<lambda>_. 2000" "''k''" "''e1''" None]
  show ?thesis by simp
qed

text \<open>Every attempt to enter break-glass mode on an enabled installation leaves exactly one audit entry,
  a success entry exactly when a token is returned, and no attempt removes or alters an earlier entry.\<close>

theorem enable_audited:
  assumes "bg_ok st" and "en_installation env = InstEnabled"
  shows "\<exists>entry. bg_audit (fst (enable env now jti st i)) = bg_audit st @ [entry] \<and>
           au_action entry = AuEnable \<and> au_sub entry = Some (ei_sub i) \<and>
           (au_outcome entry = Success \<longleftrightarrow> (\<exists>res. snd (enable env now jti st i) = Inr res))"
proof -
  from enable_audit [OF assms(1), of env now jti i] obtain new where
    new: "bg_audit (fst (enable env now jti st i)) = bg_audit st @ new" "length new = 1" "au_action (hd new) = AuEnable"
      "au_sub (hd new) = Some (ei_sub i)" "au_outcome (hd new) = Success \<longleftrightarrow> (\<exists>res. snd (enable env now jti st i) = Inr res)"
    using assms(2) by blast
  then obtain entry where "new = [entry]" by (cases new) auto
  with new show ?thesis by auto
qed

lemma enable_audited_witness:
  "\<exists>entry. bg_audit (fst (enable demo_env (\<lambda>_. 1000) ''j'' demo_bg (demo_input ''bad''))) = bg_audit demo_bg @ [entry]"
proof -
  have "en_installation demo_env = InstEnabled" by (simp add: demo_env_def)
  from enable_audited [OF demo_bg_ok this, of "\<lambda>_. 1000" "''j''" "demo_input ''bad''"] show ?thesis by blast
qed

text \<open>Switching the mode off revokes it as a whole: afterwards there is no session, so that renewing,
  issuing codes and logging in all fail, and every local token is refused where the mode is asked for.\<close>

theorem disable_revokes:
  shows "bg_session (disable now st) = None \<and> snd (isActive t (disable now st)) = False \<and>
    snd (renew now' (disable now st)) = Inl Unauthorized \<and>
    snd (issueEmployeeCode env now' code (disable now st) l sub) = Inl Unauthorized \<and>
    snd (login env now' jti (disable now st) l code ip) = Inl Unauthorized \<and>
    (lo_localMode options = snd (isActive t (disable now st)) \<longrightarrow>
       (\<exists>e. verifyLocalToken (en_lib env) t token options = Inl e))"
proof -
  have off: "bg_session (disable now st) = None" by (simp add: disable_def bg_save_defs Let_def)
  then have "currentSession x (disable now st) = (disable now st, None)" for x by (simp add: currentSession_def)
  then show ?thesis
    using off by (simp add: isActive_def renew_def issueEmployeeCode_def login_def verifyLocalToken_def)
qed

lemma disable_revokes_witness:
  "\<exists>e. verifyLocalToken (en_lib demo_env) 2000 demo_local_token (demo_local_options\<lparr>lo_localMode := False\<rparr>) = Inl e"
  using disable_revokes [where env = demo_env and now = "\<lambda>_. 1000" and st = demo_bg and t = 2000
      and options = "demo_local_options\<lparr>lo_localMode := False\<rparr>" and token = demo_local_token]
  by auto

section \<open>Where the code falls short of its comments\<close>

text \<open>
  Two overlapping calls of \<open>enable\<close> with one code: both read the record before either of them writes it back
  (the code awaits the password check in between), and both succeed.
\<close>

theorem enable_race:
  "let i = demo_input ''c1'';
       r1 = enable_begin demo_env (\<lambda>_. 1000) demo_bg i;
       r2 = enable_begin demo_env (\<lambda>_. 1001) (fst r1) i;
       f1 = enable_finish demo_env (\<lambda>_. 1000) ''j'' (fst r2) i (projr (snd r1));
       f2 = enable_finish demo_env (\<lambda>_. 1001) ''k'' (fst f1) i (projr (snd r2)) in
     length (open_codes ''c1'' (rr_codes demo_record)) = 1 \<and>
     isl (snd r1) = False \<and> isl (snd r2) = False \<and> isl (snd f1) = False \<and> isl (snd f2) = False"
  by (simp add: enable_begin_def enable_finish_def demo_env_def demo_bg_def demo_record_def demo_input_def
      signToken_def issueLocalToken_def BREAK_GLASS_SESSION_SECONDS_def LOCAL_TOKEN_MAX_TTL_SECONDS_def Let_def
      bg_save_defs open_codes_def)

text \<open>A login in the last second of the session: the token's reported expiry is after the session's.\<close>

theorem token_outlives_session:
  "\<exists>res. snd (login demo_env (\<lambda>_. 5000) ''j'' demo_bg ''bob'' ''e1'' None) = Inr res \<and>
     tr_sessionExpiresAt res = 5500 \<and> tr_expiresAt res = 6000"
  by (simp add: login_def currentSession_def demo_env_def demo_bg_def demo_code_def
      signToken_def issueLocalToken_def LOCAL_TOKEN_MAX_TTL_SECONDS_def Let_def)

end
