(* ===== verification/Jwks_Client.thy ===== *)
theory Jwks_Client
  imports App_Claims
begin

text \<open>
  The client for the platform's public key set (\<^verbatim>\<open>packages/ky-app-server/src/jwks/client.ts\<close>): a cache of
  imported keys with a negative cache, a throttle on refetching, a limit on how stale the cache may be, and
  revocation.

  The HTTP response and the JOSE function \<open>importJWK\<close> are parameters. A call reads the clock at several
  places; \<open>now i\<close> is the reading at the \<open>i\<close>-th of these places, in the order of the text of \<open>getKey\<close> and what
  it calls. A fetch suspends at its awaits, and revocations may run meanwhile: \<open>sched\<close> lists, for each await
  in turn, the key ids revoked while it waits (none once the list is exhausted).
\<close>

section \<open>State\<close>

text \<open>
  The two \<open>Map\<close>s are association lists in insertion order, which is the eviction order of the negative cache.
  The shared promise of a fetch in progress needs no field: a caller that finds one waits for it and goes on
  with the state that it leaves.
\<close>

record jwks_state =
  jk_keys :: "(string \<times> string) list"
  jk_lastSuccessAt :: "int option"
  jk_lastAttemptAt :: "int option"
  jk_negative :: "(string \<times> int) list"
  jk_revoked :: "string set"

record http_response =
  rp_redirected :: bool
  rp_status :: int
  rp_contentLength :: "int option"
  rp_bytes :: int
  rp_json :: "json option"

text \<open>
  \<open>rp_contentLength\<close> is the number that the header declares (rounded up; \<open>None\<close> without the header or when it
  is not a number), \<open>rp_bytes\<close> the size of the body and \<open>rp_json\<close> what \<open>JSON.parse\<close> makes of it.
\<close>

datatype jwks_error =
    JwksRedirected | JwksStatus int | JwksTooLarge | JwksNotJson | JwksNoKeys | JwksEntryNotObject
  | JwksWrongKey | JwksNoKid | JwksDuplicateKid string | JwksFetchFailed | JwksImportFailed

definition JWKS_maxAgeMs :: int where
  "JWKS_maxAgeMs = 600 * 1000"

definition JWKS_maxBytes :: int where
  "JWKS_maxBytes = 16 * 1024"

definition JWKS_negativeCacheMs :: int where
  "JWKS_negativeCacheMs = 60 * 1000"

definition JWKS_negativeCacheMaxEntries :: nat where
  "JWKS_negativeCacheMaxEntries = 1000"

definition JWKS_refetchMinIntervalMs :: int where
  "JWKS_refetchMinIntervalMs = 10000"

definition JWKS_staleIfErrorMs :: int where
  "JWKS_staleIfErrorMs = 24 * 60 * 60 * 1000"

definition initial_jwks :: jwks_state where
  "initial_jwks = \<lparr>jk_keys = [], jk_lastSuccessAt = None, jk_lastAttemptAt = None, jk_negative = [], jk_revoked = {}\<rparr>"

section \<open>The key set document\<close>

fun jwk_kid :: "json \<Rightarrow> jwks_error + string \<times> (string \<times> json) list" where
  "jwk_kid (JObj jwk) =
     (if js_prop jwk ''kty'' \<noteq> JStr ''EC'' \<or> js_prop jwk ''crv'' \<noteq> JStr ''P-256'' \<or> js_prop jwk ''use'' \<noteq> JStr ''sig''
      then Inl JwksWrongKey
      else (case js_prop jwk ''kid'' of
              JStr kid \<Rightarrow> if kid = [] then Inl JwksNoKid else Inr (kid, jwk)
            | _ \<Rightarrow> Inl JwksNoKid))"
| "jwk_kid (JArr _) = Inl JwksWrongKey"
| "jwk_kid _ = Inl JwksEntryNotObject"

fun parse_entries :: "json list \<Rightarrow> (string \<times> (string \<times> json) list) list \<Rightarrow>
    jwks_error + (string \<times> (string \<times> json) list) list" where
  "parse_entries [] result = Inr result"
| "parse_entries (entry # rest) result =
     bind_res (jwk_kid entry) (\<lambda>(kid, jwk).
       if kid \<in> fst ` set result then Inl (JwksDuplicateKid kid) else parse_entries rest (result @ [(kid, jwk)]))"

definition parseJwksResponse :: "http_response \<Rightarrow> jwks_error + (string \<times> (string \<times> json) list) list" where
  "parseJwksResponse response =
     (if rp_redirected response \<or> (rp_status response \<ge> 300 \<and> rp_status response < 400) then Inl JwksRedirected
      else if \<not> (rp_status response \<ge> 200 \<and> rp_status response < 300) then Inl (JwksStatus (rp_status response))
      else if (case rp_contentLength response of None \<Rightarrow> False | Some n \<Rightarrow> n > JWKS_maxBytes) then Inl JwksTooLarge
      else if rp_bytes response > JWKS_maxBytes then Inl JwksTooLarge
      else (case rp_json response of
              None \<Rightarrow> Inl JwksNotJson
            | Some (JObj document) \<Rightarrow>
                (case js_prop document ''keys'' of JArr entries \<Rightarrow> parse_entries entries [] | _ \<Rightarrow> Inl JwksNoKeys)
            | Some _ \<Rightarrow> Inl JwksNoKeys))"

section \<open>Operations\<close>

definition map_delete :: "string \<Rightarrow> (string \<times> 'v) list \<Rightarrow> (string \<times> 'v) list" where
  "map_delete kid m = filter (\<lambda>(k, _). k \<noteq> kid) m"

definition revoke :: "string \<Rightarrow> jwks_state \<Rightarrow> jwks_state" where
  "revoke kid st = st\<lparr>jk_revoked := insert kid (jk_revoked st), jk_keys := map_delete kid (jk_keys st), jk_negative := []\<rparr>"

definition rememberNegative :: "int \<Rightarrow> string \<Rightarrow> jwks_state \<Rightarrow> jwks_state" where
  "rememberNegative now kid st =
     (let entries = map_delete kid (jk_negative st) @ [(kid, now + JWKS_negativeCacheMs)] in
      st\<lparr>jk_negative := drop (length entries - JWKS_negativeCacheMaxEntries) entries\<rparr>)"

definition negativeHit :: "int \<Rightarrow> string \<Rightarrow> jwks_state \<Rightarrow> jwks_state \<times> bool" where
  "negativeHit now kid st =
     (case map_of (jk_negative st) kid of
        None \<Rightarrow> (st, False)
      | Some until \<Rightarrow>
          if until \<le> now then (st\<lparr>jk_negative := map_delete kid (jk_negative st)\<rparr>, False) else (st, True))"

text \<open>The revocations that run during the next await.\<close>

definition wait :: "string list list \<Rightarrow> jwks_state \<Rightarrow> string list list \<times> jwks_state" where
  "wait sched st = (case sched of [] \<Rightarrow> ([], st) | batch # rest \<Rightarrow> (rest, fold revoke batch st))"

text \<open>The loop of \<open>fetchOnce\<close>: a key that is revoked by now is skipped, every other one is imported.\<close>

fun import_keys ::
  "((string \<times> json) list \<Rightarrow> string option) \<Rightarrow> (string \<times> (string \<times> json) list) list \<Rightarrow> (string \<times> string) list \<Rightarrow>
   string list list \<Rightarrow> jwks_state \<Rightarrow> jwks_state \<times> (jwks_error + (string \<times> string) list)" where
  "import_keys importJWK [] keys sched st = (st, Inr keys)"
| "import_keys importJWK ((kid, jwk) # rest) keys sched st =
     (if kid \<in> jk_revoked st then import_keys importJWK rest keys sched st
      else (case wait sched st of
              (sched', st') \<Rightarrow>
                (case importJWK jwk of
                   None \<Rightarrow> (st', Inl JwksImportFailed)
                 | Some key \<Rightarrow> import_keys importJWK rest (keys @ [(kid, key)]) sched' st')))"

text \<open>\<open>fetched\<close> is what the request resolves to, \<open>None\<close> when it rejects.\<close>

definition fetchOnce ::
  "((string \<times> json) list \<Rightarrow> string option) \<Rightarrow> (nat \<Rightarrow> int) \<Rightarrow> http_response option \<Rightarrow> string list list \<Rightarrow>
   jwks_state \<Rightarrow> jwks_state" where
  "fetchOnce importJWK now fetched sched st =
     (let started = st\<lparr>jk_lastAttemptAt := Some (now 3)\<rparr> in
      case wait sched started of
        (sched', st') \<Rightarrow>
          (case (case fetched of None \<Rightarrow> Inl JwksFetchFailed | Some response \<Rightarrow> parseJwksResponse response) of
             Inl _ \<Rightarrow> st'
           | Inr jwks \<Rightarrow>
               (case import_keys importJWK jwks [] sched' st' of
                  (st'', Inl _) \<Rightarrow> st''
                | (st'', Inr keys) \<Rightarrow> st''\<lparr>jk_keys := keys, jk_lastSuccessAt := Some (now 4)\<rparr>)))"

definition refresh ::
  "((string \<times> json) list \<Rightarrow> string option) \<Rightarrow> (nat \<Rightarrow> int) \<Rightarrow> http_response option \<Rightarrow> string list list \<Rightarrow>
   jwks_state \<Rightarrow> jwks_state" where
  "refresh importJWK now fetched sched st =
     (case jk_lastAttemptAt st of
        Some attempt \<Rightarrow> if now 2 - attempt < JWKS_refetchMinIntervalMs then st else fetchOnce importJWK now fetched sched st
      | None \<Rightarrow> fetchOnce importJWK now fetched sched st)"

definition staleUsable :: "int \<Rightarrow> jwks_state \<Rightarrow> bool" where
  "staleUsable now st = (case jk_lastSuccessAt st of None \<Rightarrow> False | Some t \<Rightarrow> now - t \<le> JWKS_staleIfErrorMs)"

definition fresh :: "int \<Rightarrow> jwks_state \<Rightarrow> bool" where
  "fresh now st = (case jk_lastSuccessAt st of None \<Rightarrow> False | Some t \<Rightarrow> now - t \<le> JWKS_maxAgeMs)"

text \<open>What \<open>getKey\<close> does once the refresh has returned.\<close>

definition getKey_after :: "(nat \<Rightarrow> int) \<Rightarrow> string \<Rightarrow> jwks_state \<Rightarrow> jwks_state \<times> (app_error + string)" where
  "getKey_after now kid st =
     (case map_of (jk_keys st) kid of
        Some key \<Rightarrow> if staleUsable (now 5) st then (st, Inr key) else (st, Inl Unauthorized)
      | None \<Rightarrow> (if jk_lastSuccessAt st \<noteq> None then rememberNegative (now 6) kid st else st, Inl Unauthorized))"

definition getKey ::
  "((string \<times> json) list \<Rightarrow> string option) \<Rightarrow> (nat \<Rightarrow> int) \<Rightarrow> http_response option \<Rightarrow> string list list \<Rightarrow>
   string \<Rightarrow> jwks_state \<Rightarrow> jwks_state \<times> (app_error + string)" where
  "getKey importJWK now fetched sched kid st =
     (if kid \<in> jk_revoked st then (st, Inl Unauthorized)
      else (case negativeHit (now 0) kid st of
              (st', True) \<Rightarrow> (st', Inl Unauthorized)
            | (st', False) \<Rightarrow>
                (case map_of (jk_keys st') kid of
                   Some key \<Rightarrow>
                     if fresh (now 1) st' then (st', Inr key)
                     else getKey_after now kid (refresh importJWK now fetched sched st')
                 | None \<Rightarrow> getKey_after now kid (refresh importJWK now fetched sched st'))))"

definition prefetch ::
  "((string \<times> json) list \<Rightarrow> string option) \<Rightarrow> (nat \<Rightarrow> int) \<Rightarrow> http_response option \<Rightarrow> string list list \<Rightarrow>
   string option \<Rightarrow> jwks_state \<Rightarrow> jwks_state" where
  "prefetch importJWK now fetched sched kid st =
     refresh importJWK now fetched sched
       (st\<lparr>jk_negative := (case kid of None \<Rightarrow> jk_negative st | Some k \<Rightarrow> map_delete k (jk_negative st)),
           jk_lastAttemptAt := None\<rparr>)"

definition kids :: "jwks_state \<Rightarrow> string list" where
  "kids st = map fst (jk_keys st)"

section \<open>The invariant of the cache\<close>

text \<open>
  Where a cached key comes from: an entry for elliptic-curve signatures, with that key id, of a key set
  document.
\<close>

definition trusted_key :: "((string \<times> json) list \<Rightarrow> string option) \<Rightarrow> string \<Rightarrow> string \<Rightarrow> bool" where
  "trusted_key importJWK kid key \<longleftrightarrow>
     (\<exists>jwk. js_prop jwk ''kty'' = JStr ''EC'' \<and> js_prop jwk ''crv'' = JStr ''P-256'' \<and> js_prop jwk ''use'' = JStr ''sig'' \<and>
        js_prop jwk ''kid'' = JStr kid \<and> kid \<noteq> [] \<and> importJWK jwk = Some key)"

definition jwks_ok :: "((string \<times> json) list \<Rightarrow> string option) \<Rightarrow> jwks_state \<Rightarrow> bool" where
  "jwks_ok importJWK st \<longleftrightarrow>
     distinct (map fst (jk_keys st)) \<and> distinct (map fst (jk_negative st)) \<and>
     length (jk_negative st) \<le> JWKS_negativeCacheMaxEntries \<and>
     (\<forall>(kid, key) \<in> set (jk_keys st). trusted_key importJWK kid key)"

datatype jwks_op =
    GetKey "nat \<Rightarrow> int" "http_response option" "string list list" string
  | Prefetch "nat \<Rightarrow> int" "http_response option" "string list list" "string option"
  | Revoke string

fun jwks_step :: "((string \<times> json) list \<Rightarrow> string option) \<Rightarrow> jwks_state \<Rightarrow> jwks_op \<Rightarrow> jwks_state" where
  "jwks_step importJWK st (GetKey now fetched sched kid) = fst (getKey importJWK now fetched sched kid st)"
| "jwks_step importJWK st (Prefetch now fetched sched kid) = prefetch importJWK now fetched sched kid st"
| "jwks_step importJWK st (Revoke kid) = revoke kid st"

lemma set_map_delete: "set (map_delete kid m) = {(k, v) \<in> set m. k \<noteq> kid}"
  by (auto simp: map_delete_def)

lemma distinct_map_delete: "distinct (map fst m) \<Longrightarrow> distinct (map fst (map_delete kid m))"
  by (simp add: map_delete_def distinct_map_filter)

lemma length_map_delete: "length (map_delete kid m) \<le> length m"
  by (simp add: map_delete_def)

lemma fst_map_delete: "kid \<notin> fst ` set (map_delete kid m)"
  by (auto simp: map_delete_def)

lemma revoke_ok: "jwks_ok imp st \<Longrightarrow> jwks_ok imp (revoke kid st)"
  by (auto simp: jwks_ok_def revoke_def distinct_map_delete set_map_delete)

lemma fold_revoke_ok: "jwks_ok imp st \<Longrightarrow> jwks_ok imp (fold revoke ks st)"
  by (induction ks arbitrary: st) (simp_all add: revoke_ok)

lemma wait_ok: "wait sched st = (sched', st') \<Longrightarrow> jwks_ok imp st \<Longrightarrow> jwks_ok imp st'"
  by (auto simp: wait_def fold_revoke_ok split: list.splits)

lemma fold_revoke_revoked: "jk_revoked (fold revoke ks st) = jk_revoked st \<union> set ks"
  by (induction ks arbitrary: st) (auto simp: revoke_def)

lemma wait_revoked: "wait sched st = (sched', st') \<Longrightarrow> jk_revoked st \<subseteq> jk_revoked st'"
  by (auto simp: wait_def fold_revoke_revoked split: list.splits)

lemma rememberNegative_ok:
  assumes ok: "jwks_ok imp st"
  shows "jwks_ok imp (rememberNegative now kid st)"
proof -
  define e where "e = map_delete kid (jk_negative st) @ [(kid, now + JWKS_negativeCacheMs)]"
  have "distinct (map fst e)"
    using ok fst_map_delete [of kid "jk_negative st"] by (auto simp: e_def jwks_ok_def distinct_map_delete)
  then have "distinct (map fst (drop n e))" for n
    by (metis drop_map distinct_drop)
  with ok show ?thesis by (simp add: jwks_ok_def rememberNegative_def Let_def flip: e_def)
qed

lemma negativeHit_ok: "negativeHit now kid st = (st', b) \<Longrightarrow> jwks_ok imp st \<Longrightarrow> jwks_ok imp st'"
  using length_map_delete [of kid "jk_negative st"]
  by (auto simp: jwks_ok_def negativeHit_def distinct_map_delete split: option.splits if_splits)

lemma negativeHit_other:
  "negativeHit now kid st = (st', b) \<Longrightarrow> jk_keys st' = jk_keys st \<and> jk_revoked st' = jk_revoked st \<and>
     jk_lastSuccessAt st' = jk_lastSuccessAt st \<and> jk_lastAttemptAt st' = jk_lastAttemptAt st"
  by (auto simp: negativeHit_def split: option.splits if_splits)

subsection \<open>Parsing and importing\<close>

lemma parse_entries_sound:
  "parse_entries entries result = Inr jwks \<Longrightarrow>
   distinct (map fst result) \<Longrightarrow> (\<And>kid jwk. (kid, jwk) \<in> set result \<Longrightarrow> jwk_kid (JObj jwk) = Inr (kid, jwk)) \<Longrightarrow>
   distinct (map fst jwks) \<and> (\<forall>(kid, jwk) \<in> set jwks. jwk_kid (JObj jwk) = Inr (kid, jwk))"
proof (induction entries result rule: parse_entries.induct)
  case (1 result)
  then show ?case by (auto simp del: jwk_kid.simps)
next
  case (2 entry rest result)
  then obtain kid jwk where e: "jwk_kid entry = Inr (kid, jwk)" "kid \<notin> fst ` set result"
    "parse_entries rest (result @ [(kid, jwk)]) = Inr jwks"
    by (auto simp: bind_res_Inr_iff split: if_splits)
  have "jwk_kid (JObj jwk) = Inr (kid, jwk)"
    using e(1) by (cases entry) (auto split: if_splits json.splits)
  with 2 e show ?case by (intro "2.IH" [OF e(2,3)]) (auto simp: image_iff simp del: jwk_kid.simps)
qed

lemma jwk_kid_trusted:
  "jwk_kid (JObj jwk) = Inr (kid, jwk) \<Longrightarrow> imp jwk = Some key \<Longrightarrow> trusted_key imp kid key"
  by (force simp: trusted_key_def split: if_splits json.splits)

lemma import_keys_ok:
  "import_keys imp jwks keys sched st = (st', r) \<Longrightarrow> jwks_ok imp st \<Longrightarrow>
   jwks_ok imp st' \<and> jk_revoked st \<subseteq> jk_revoked st' \<and> jk_lastAttemptAt st' = jk_lastAttemptAt st"
proof (induction imp jwks keys sched st arbitrary: st' r rule: import_keys.induct)
  case (2 imp kid jwk rest keys sched st)
  show ?case
  proof (cases "kid \<in> jk_revoked st")
    case False
    obtain sched1 st1 where w: "wait sched st = (sched1, st1)" by (cases "wait sched st")
    have "jk_lastAttemptAt st1 = jk_lastAttemptAt st"
    proof -
      have "jk_lastAttemptAt (fold revoke ks s) = jk_lastAttemptAt s" for ks s
        by (induction ks arbitrary: s) (simp_all add: revoke_def)
      with w show ?thesis by (auto simp: wait_def split: list.splits)
    qed
    with wait_ok [OF w "2.prems"(2)] wait_revoked [OF w] False "2.prems"(1) "2.IH"(2) [OF False w [symmetric]]
    show ?thesis by (force simp: w split: option.splits)
  qed (use 2 in simp)
qed simp

lemma import_keys_sound:
  "import_keys imp jwks keys sched st = (st', Inr keys') \<Longrightarrow> distinct (map fst keys @ map fst jwks) \<Longrightarrow>
   (\<forall>(kid, jwk) \<in> set jwks. jwk_kid (JObj jwk) = Inr (kid, jwk)) \<Longrightarrow>
   (\<forall>(kid, key) \<in> set keys. trusted_key imp kid key) \<Longrightarrow>
   distinct (map fst keys') \<and> (\<forall>(kid, key) \<in> set keys'. trusted_key imp kid key)"
proof (induction imp jwks keys sched st rule: import_keys.induct)
  case (2 imp kid jwk rest keys sched st)
  show ?case
  proof (cases "kid \<in> jk_revoked st")
    case True
    with 2 show ?thesis by (intro "2.IH"(1) [OF True]) (auto simp del: jwk_kid.simps)
  next
    case False
    obtain sched1 st1 where w: "wait sched st = (sched1, st1)" by (cases "wait sched st")
    from "2.prems"(1) False w obtain key where k: "imp jwk = Some key"
      "import_keys imp rest (keys @ [(kid, key)]) sched1 st1 = (st', Inr keys')"
      by (auto split: option.splits)
    have "trusted_key imp kid key"
      using jwk_kid_trusted [where imp = imp, OF _ k(1)] "2.prems"(3) by (auto simp del: jwk_kid.simps)
    with 2 k show ?thesis by (intro "2.IH"(2) [OF False w [symmetric] k(1)]) (auto simp del: jwk_kid.simps)
  qed
qed simp

lemma fetchOnce_ok:
  assumes ok: "jwks_ok imp st"
  shows "jwks_ok imp (fetchOnce imp now fetched sched st) \<and>
         jk_revoked st \<subseteq> jk_revoked (fetchOnce imp now fetched sched st)"
proof -
  let ?started = "st\<lparr>jk_lastAttemptAt := Some (now 3)\<rparr>"
  obtain sched1 st1 where w: "wait sched ?started = (sched1, st1)" by (cases "wait sched ?started")
  have "jwks_ok imp ?started" using ok by (simp add: jwks_ok_def)
  from wait_ok [OF w this] wait_revoked [OF w] have st1: "jwks_ok imp st1" "jk_revoked st \<subseteq> jk_revoked st1" by simp_all
  show ?thesis
  proof (cases "case fetched of None \<Rightarrow> Inl JwksFetchFailed | Some response \<Rightarrow> parseJwksResponse response")
    case (Inl e)
    with w st1 show ?thesis by (auto simp: fetchOnce_def Let_def)
  next
    case parsed: (Inr jwks)
    then obtain response where "parseJwksResponse response = Inr jwks" by (auto split: option.splits)
    then obtain entries where "parse_entries entries [] = Inr jwks"
      by (auto simp: parseJwksResponse_def split: if_splits option.splits json.splits)
    from parse_entries_sound [OF this]
    have jwks: "distinct (map fst jwks)" "\<forall>(kid, jwk) \<in> set jwks. jwk_kid (JObj jwk) = Inr (kid, jwk)" by simp_all
    obtain st2 r where i: "import_keys imp jwks [] sched1 st1 = (st2, r)" by (cases "import_keys imp jwks [] sched1 st1")
    note st2 = import_keys_ok [OF i st1(1)]
    show ?thesis
    proof (cases r)
      case (Inl e)
      with w i Inl parsed st1 st2 show ?thesis by (auto simp: fetchOnce_def Let_def)
    next
      case (Inr keys)
      with i have "import_keys imp jwks [] sched1 st1 = (st2, Inr keys)" by simp
      from import_keys_sound [OF this] jwks
      have "distinct (map fst keys)" "\<forall>(kid, key) \<in> set keys. trusted_key imp kid key" by simp_all
      with w i Inr parsed st1 st2 show ?thesis by (auto simp: fetchOnce_def Let_def jwks_ok_def)
    qed
  qed
qed

lemma refresh_ok:
  assumes "jwks_ok imp st"
  shows "jwks_ok imp (refresh imp now fetched sched st)"
    and "jk_revoked st \<subseteq> jk_revoked (refresh imp now fetched sched st)"
  using assms fetchOnce_ok [OF assms, of now fetched sched] by (auto simp: refresh_def split: option.splits)

lemma getKey_after_ok: "jwks_ok imp st \<Longrightarrow> jwks_ok imp (fst (getKey_after now kid st))"
  by (auto simp: getKey_after_def rememberNegative_ok split: option.splits)

lemma getKey_after_revoked [simp]: "jk_revoked (fst (getKey_after now kid st)) = jk_revoked st"
  by (auto simp: getKey_after_def rememberNegative_def Let_def split: option.splits)

lemma getKey_ok:
  assumes "jwks_ok imp st"
  shows "jwks_ok imp (fst (getKey imp now fetched sched kid st))"
    and "jk_revoked st \<subseteq> jk_revoked (fst (getKey imp now fetched sched kid st))"
proof -
  obtain st' b where h: "negativeHit (now 0) kid st = (st', b)" by (cases "negativeHit (now 0) kid st")
  have ok: "jwks_ok imp st'" "jk_revoked st' = jk_revoked st"
    using negativeHit_ok [OF h assms] negativeHit_other [OF h] by simp_all
  note r = refresh_ok [OF ok(1), of now fetched sched]
  show "jwks_ok imp (fst (getKey imp now fetched sched kid st))"
    using assms ok r h by (auto simp: getKey_def intro: getKey_after_ok split: option.splits bool.splits)
  show "jk_revoked st \<subseteq> jk_revoked (fst (getKey imp now fetched sched kid st))"
    using ok r h by (auto simp: getKey_def split: option.splits bool.splits)
qed

lemma prefetch_ok:
  assumes "jwks_ok imp st"
  shows "jwks_ok imp (prefetch imp now fetched sched kid st)"
    and "jk_revoked st \<subseteq> jk_revoked (prefetch imp now fetched sched kid st)"
proof -
  let ?st = "st\<lparr>jk_negative := (case kid of None \<Rightarrow> jk_negative st | Some k \<Rightarrow> map_delete k (jk_negative st)), jk_lastAttemptAt := None\<rparr>"
  have "jwks_ok imp ?st"
    using assms length_map_delete [of "the kid" "jk_negative st"]
    by (auto simp: jwks_ok_def distinct_map_delete split: option.splits)
  from refresh_ok [OF this, of now fetched sched] show "jwks_ok imp (prefetch imp now fetched sched kid st)"
    "jk_revoked st \<subseteq> jk_revoked (prefetch imp now fetched sched kid st)"
    by (simp_all add: prefetch_def)
qed

lemma jwks_step_ok:
  assumes "jwks_ok imp st"
  shows "jwks_ok imp (jwks_step imp st op)" and "jk_revoked st \<subseteq> jk_revoked (jwks_step imp st op)"
  using assms by (cases op; auto simp: getKey_ok prefetch_ok revoke_ok dest: getKey_ok(2) prefetch_ok(2);
      auto simp: revoke_def)+

definition is_revoked :: "jwks_state \<Rightarrow> string \<Rightarrow> unit option" where
  "is_revoked st kid = (if kid \<in> jk_revoked st then Some () else None)"

interpretation revocation: write_once "jwks_ok imp" "\<lambda>_. True" is_revoked "jwks_step imp"
  for imp
  by unfold_locales (auto simp: is_revoked_def jwks_step_ok(1) subsetD [OF jwks_step_ok(2)] split: if_splits)

lemma initial_jwks_ok: "jwks_ok imp initial_jwks"
  by (simp add: jwks_ok_def initial_jwks_def)

section \<open>Claims\<close>

definition demo_jwk :: json where
  "demo_jwk = JObj [(''kty'', JStr ''EC''), (''crv'', JStr ''P-256''), (''use'', JStr ''sig''), (''kid'', JStr ''k1'')]"

definition demo_response :: http_response where
  "demo_response = \<lparr>rp_redirected = False, rp_status = 200, rp_contentLength = None, rp_bytes = 100,
     rp_json = Some (JObj [(''keys'', JArr [demo_jwk])])\<rparr>"

abbreviation demo_import :: "(string \<times> json) list \<Rightarrow> string option" where
  "demo_import \<equiv> \<lambda>_. Some ''key''"

text \<open>What a key that the client hands out rests on: its key id was not revoked when it was asked for, it was
  imported from an entry for elliptic-curve signatures with that key id, and the key set was fetched
  successfully at most ten minutes before, or at most twenty-four hours before when it could not be refreshed.\<close>

theorem key_trust:
  assumes "st = foldl (jwks_step importJWK) initial_jwks ops"
    and "getKey importJWK now fetched sched kid st = (st', Inr key)"
  shows "kid \<notin> jk_revoked st \<and> trusted_key importJWK kid key \<and>
         (\<exists>t. jk_lastSuccessAt st' = Some t \<and> (now 1 - t \<le> 600000 \<or> now 5 - t \<le> 86400000))"
proof -
  have ok: "jwks_ok importJWK st"
    using revocation.run_inv [OF initial_jwks_ok, of ops importJWK] assms(1) by (simp add: list_all_iff)
  obtain st1 b where h: "negativeHit (now 0) kid st = (st1, b)" by (cases "negativeHit (now 0) kid st")
  have ok1: "jwks_ok importJWK st1" by (rule negativeHit_ok [OF h ok])
  let ?r = "refresh importJWK now fetched sched st1"
  have ok2: "jwks_ok importJWK ?r" by (rule refresh_ok(1) [OF ok1])
  have trust: "trusted_key importJWK kid key" if "jwks_ok importJWK s" "map_of (jk_keys s) kid = Some key" for s
    using that(1) bspec [OF _ map_of_SomeD [OF that(2)]] unfolding jwks_ok_def by fast
  have after: "trusted_key importJWK kid key \<and> (\<exists>t. jk_lastSuccessAt st' = Some t \<and> now 5 - t \<le> 86400000)"
    if "getKey_after now kid ?r = (st', Inr key)"
    using that trust [OF ok2]
    by (auto simp: getKey_after_def staleUsable_def JWKS_staleIfErrorMs_def split: option.splits if_splits)
  have unrevoked: "kid \<notin> jk_revoked st" and "\<not> b" using assms(2) h by (auto simp: getKey_def split: if_splits)
  then have g: "(case map_of (jk_keys st1) kid of Some k \<Rightarrow> if fresh (now 1) st1 then (st1, Inr k) else getKey_after now kid ?r
       | None \<Rightarrow> getKey_after now kid ?r) = (st', Inr key)"
    using assms(2) h by (simp add: getKey_def)
  show ?thesis
  proof (cases "map_of (jk_keys st1) kid \<noteq> None \<and> fresh (now 1) st1")
    case True
    then have "st' = st1" "map_of (jk_keys st1) kid = Some key" using g by auto
    with True unrevoked trust [OF ok1] show ?thesis by (auto simp: fresh_def JWKS_maxAgeMs_def split: option.splits)
  next
    case False
    with g have "getKey_after now kid ?r = (st', Inr key)" by (auto split: option.splits if_splits)
    from after [OF this] unrevoked show ?thesis by blast
  qed
qed

lemma key_trust_witness:
  "trusted_key demo_import ''k1'' ''key''"
proof -
  have "getKey demo_import (\<lambda>_. 0) (Some demo_response) [] ''k1'' (foldl (jwks_step demo_import) initial_jwks []) =
      (\<lparr>jk_keys = [(''k1'', ''key'')], jk_lastSuccessAt = Some 0, jk_lastAttemptAt = Some 0, jk_negative = [], jk_revoked = {}\<rparr>,
       Inr ''key'')"
    by code_simp
  from key_trust [OF refl this] show ?thesis by blast
qed

text \<open>Revocation is final: once a key id is revoked, no later call obtains a key for it, whatever other
  lookups, prefetches and revocations run in between and whatever the key set endpoint serves.\<close>

theorem revocation_final:
  "snd (getKey importJWK now fetched sched kid
     (foldl (jwks_step importJWK) initial_jwks (ops @ Revoke kid # later))) = Inl Unauthorized"
proof -
  let ?st = "foldl (jwks_step importJWK) initial_jwks ops"
  have ok: "jwks_ok importJWK (revoke kid ?st)"
    using revocation.run_inv [OF initial_jwks_ok, of ops importJWK] by (simp add: list_all_iff revoke_ok)
  have "is_revoked (revoke kid ?st) kid = Some ()" by (simp add: is_revoked_def revoke_def)
  from revocation.run_keeps [OF ok _ this, of later]
  have "kid \<in> jk_revoked (foldl (jwks_step importJWK) (revoke kid ?st) later)"
    by (simp add: list_all_iff is_revoked_def split: if_splits)
  then show ?thesis by (simp add: getKey_def)
qed



text \<open>
  A revocation that arrives while a lookup of the same key waits for its fetch is not seen by that lookup:
  the check of the revoked ids is made before the waiting, and the fetch replaces the cache by what it
  imported before the revocation. The lookup returns the revoked key.
\<close>

theorem revocation_race:
  "\<exists>st'. getKey demo_import (\<lambda>_. 0) (Some demo_response) [[], [''k1'']] ''k1'' initial_jwks = (st', Inr ''key'') \<and>
     ''k1'' \<in> jk_revoked st' \<and> ''k1'' \<in> set (kids st')"
proof -
  have "getKey demo_import (\<lambda>_. 0) (Some demo_response) [[], [''k1'']] ''k1'' initial_jwks =
      (\<lparr>jk_keys = [(''k1'', ''key'')], jk_lastSuccessAt = Some 0, jk_lastAttemptAt = Some 0, jk_negative = [], jk_revoked = {''k1''}\<rparr>,
       Inr ''key'')"
    by code_simp
  then show ?thesis by (simp add: kids_def)
qed

end
