(* ===== verification/Install_Events.thy ===== *)
theory Install_Events
  imports Jwks_Client Local_Token
begin

text \<open>
  The handler for platform events (\<^verbatim>\<open>packages/ky-app-server/src/events/handler.ts\<close>) over the in-memory store of
  the installation's state and of the acknowledgements (\<^verbatim>\<open>events/store.ts\<close>), with the key set client of
  theory \<open>Jwks_Client\<close> as the component it drives.

  An event arrives as an untyped JSON value. Only the fields that \<open>assertShape\<close> checks have a known type
  afterwards; the payloads of the key set events are read without a check, and reading a property of an
  absent payload throws a \<open>TypeError\<close>, which is a different error from the application's own.
\<close>

record installation_record =
  ir_state :: installation_state
  ir_stateVersion :: int

record event_ack =
  ak_eventId :: string
  ak_stateVersion :: int
  ak_verifiedKid :: "string option"

record events_state =
  es_record :: installation_record
  es_acks :: "string \<Rightarrow> event_ack option"
  es_jwks :: jwks_state

datatype handle_error = AppError app_error | TypeError

text \<open>
  The parameters: the JOSE functions (\<open>probeVerify token key issuer audience now\<close> says whether \<open>jwtVerify\<close>
  with the options of \<open>probe\<close> returns), and per call the clock, what the key set endpoint answers and which
  revocations overlap the call.
\<close>

record events_env =
  ee_config :: app_config
  ee_decode :: "string \<Rightarrow> jwt_header option"
  ee_probeVerify :: "string \<Rightarrow> string \<Rightarrow> string \<Rightarrow> string \<Rightarrow> int \<Rightarrow> bool"
  ee_importJWK :: "(string \<times> json) list \<Rightarrow> string option"

record events_call =
  ec_now :: "nat \<Rightarrow> int"
  ec_fetched :: "http_response option"
  ec_sched :: "string list list"

datatype event_type =
    InstallationDisabledEv | InstallationEnabledEv | InstallationDeletedEv | JwksRotated | JwksRevoke | JwksProbe | DirectoryChanged

definition PLATFORM_EVENT_TYPES :: "(string \<times> event_type) list" where
  "PLATFORM_EVENT_TYPES =
     [(''installation.disabled'', InstallationDisabledEv), (''installation.enabled'', InstallationEnabledEv),
      (''installation.deleted'', InstallationDeletedEv), (''jwks.rotated'', JwksRotated), (''jwks.revoke'', JwksRevoke),
      (''jwks.probe'', JwksProbe), (''directory.changed'', DirectoryChanged)]"

record platform_event =
  pe_eventId :: string
  pe_stateVersion :: int
  pe_type :: event_type
  pe_payload :: json

fun STATE_BY_TYPE :: "event_type \<Rightarrow> installation_state option" where
  "STATE_BY_TYPE InstallationDisabledEv = Some InstDisabled"
| "STATE_BY_TYPE InstallationEnabledEv = Some InstEnabled"
| "STATE_BY_TYPE InstallationDeletedEv = Some InstDeleted"
| "STATE_BY_TYPE _ = None"

section \<open>The shape of an event\<close>

text \<open>\<open>Number.isSafeInteger(v) && v >= 0\<close>.\<close>

fun is_version :: "json \<Rightarrow> bool" where
  "is_version (JNum (IntNum n)) = (0 \<le> n \<and> n \<le> MAX_SAFE)"
| "is_version _ = False"

text \<open>The property \<open>payload?.targetSeq\<close>; a payload that is not an object with that property has none.\<close>

fun optional_prop :: "json \<Rightarrow> string \<Rightarrow> json" where
  "optional_prop (JObj fs) k = js_prop fs k"
| "optional_prop _ k = JUndefined"

fun event_type_of :: "json \<Rightarrow> event_type option" where
  "event_type_of (JStr s) = map_of PLATFORM_EVENT_TYPES s"
| "event_type_of _ = None"

fun assertShape :: "json \<Rightarrow> app_config \<Rightarrow> app_error + platform_event" where
  "assertShape (JObj ev) config =
     bind_res (check (isNonEmptyString (js_prop ev ''eventId'')) InvalidInput) (\<lambda>_.
     bind_res (check (js_prop ev ''iid'' = JStr (cfg_installationId config)) InvalidInput) (\<lambda>_.
     bind_res (check (is_version (js_prop ev ''stateVersion'')) InvalidInput) (\<lambda>_.
     case event_type_of (js_prop ev ''type'') of
       None \<Rightarrow> Inl InvalidInput
     | Some t \<Rightarrow>
         bind_res (check (t = DirectoryChanged \<longrightarrow> is_version (optional_prop (js_prop ev ''payload'') ''targetSeq'')) InvalidInput) (\<lambda>_.
         Inr \<lparr>pe_eventId = the (str_of (js_prop ev ''eventId'')), pe_stateVersion = int_of (js_prop ev ''stateVersion''),
              pe_type = t, pe_payload = js_prop ev ''payload''\<rparr>))))"
| "assertShape _ config = Inl InvalidInput"

section \<open>The store\<close>

definition initial_events :: events_state where
  "initial_events = \<lparr>es_record = \<lparr>ir_state = InstEnabled, ir_stateVersion = 0\<rparr>, es_acks = Map.empty, es_jwks = initial_jwks\<rparr>"

definition findAck :: "string \<Rightarrow> events_state \<Rightarrow> event_ack option" where
  "findAck eventId st = es_acks st eventId"

definition commit_event :: "string \<Rightarrow> event_ack \<Rightarrow> installation_record \<Rightarrow> events_state \<Rightarrow> events_state" where
  "commit_event eventId ack record st = st\<lparr>es_acks := (es_acks st)(eventId \<mapsto> ack), es_record := record\<rparr>"

section \<open>Handling\<close>

definition nextState :: "platform_event \<Rightarrow> installation_record \<Rightarrow> app_error + installation_record" where
  "nextState event current =
     (case STATE_BY_TYPE (pe_type event) of
        None \<Rightarrow> Inr current
      | Some target \<Rightarrow>
          if ir_state current = InstDeleted then Inr current
          else if pe_stateVersion event \<le> ir_stateVersion current then Inr current
          else if pe_stateVersion event > ir_stateVersion current + 1 then Inl StateGap
          else Inr \<lparr>ir_state = target, ir_stateVersion = pe_stateVersion event\<rparr>)"

text \<open>
  A probe without a key id whose token has none either still asks the client for a key, which refreshes the
  cache and finds nothing (the entry that this leaves in the negative cache under \<open>undefined\<close> is left out).
\<close>

definition probe ::
  "events_env \<Rightarrow> events_call \<Rightarrow> json \<Rightarrow> json \<Rightarrow> jwks_state \<Rightarrow> jwks_state \<times> string option" where
  "probe env call kid probeSat st =
     (case str_of probeSat of
        None \<Rightarrow> (st, None)
      | Some token \<Rightarrow>
          (case ee_decode env token of
             None \<Rightarrow> (st, None)
           | Some header \<Rightarrow>
               if jh_alg header \<noteq> Some ''ES256'' \<or> jh_typ header \<noteq> Some ''ky-sat+jwt'' then (st, None)
               else (case jh_kid header of
                       None \<Rightarrow>
                         (if kid = JUndefined then refresh (ee_importJWK env) (ec_now call) (ec_fetched call) (ec_sched call) st
                          else st, None)
                     | Some k \<Rightarrow>
                         if kid \<noteq> JStr k then (st, None)
                         else (case getKey (ee_importJWK env) (ec_now call) (ec_fetched call) (ec_sched call) k st of
                                 (st', Inl _) \<Rightarrow> (st', None)
                               | (st', Inr key) \<Rightarrow>
                                   (st', if ee_probeVerify env token key (cfg_issuer (ee_config env))
                                              (cfg_systemId (ee_config env)) (ec_now call 7)
                                         then Some k else None)))))"

text \<open>
  Reading a property of the payload throws when the payload is absent or \<open>null\<close>. A key id that is not a
  string names no key: prefetching or revoking it has only the effects that do not depend on the id.
\<close>

definition payload_prop :: "json \<Rightarrow> string \<Rightarrow> handle_error + json" where
  "payload_prop payload k =
     (if payload = JUndefined \<or> payload = JNull then Inl TypeError else Inr (optional_prop payload k))"

definition revoke_json :: "json \<Rightarrow> jwks_state \<Rightarrow> jwks_state" where
  "revoke_json kid st = (case str_of kid of Some k \<Rightarrow> revoke k st | None \<Rightarrow> st\<lparr>jk_negative := []\<rparr>)"

text \<open>The \<open>switch\<close> of \<open>handle\<close>: the effect on the key set client and the verified key id, if any.\<close>

definition event_effect ::
  "events_env \<Rightarrow> events_call \<Rightarrow> platform_event \<Rightarrow> jwks_state \<Rightarrow> handle_error + jwks_state \<times> string option" where
  "event_effect env call event st =
     (case pe_type event of
        JwksRotated \<Rightarrow>
          bind_res (payload_prop (pe_payload event) ''newKid'') (\<lambda>kid.
            Inr (prefetch (ee_importJWK env) (ec_now call) (ec_fetched call) (ec_sched call) (str_of kid) st, None))
      | JwksRevoke \<Rightarrow>
          bind_res (payload_prop (pe_payload event) ''kid'') (\<lambda>kid. Inr (revoke_json kid st, None))
      | JwksProbe \<Rightarrow>
          bind_res (payload_prop (pe_payload event) ''kid'') (\<lambda>kid.
          bind_res (payload_prop (pe_payload event) ''probeSat'') (\<lambda>probeSat.
            Inr (probe env call kid probeSat st)))
      | _ \<Rightarrow> Inr (st, None))"

definition handle_event ::
  "events_env \<Rightarrow> events_call \<Rightarrow> platform_event \<Rightarrow> events_state \<Rightarrow> events_state \<times> (handle_error + event_ack)" where
  "handle_event env call event st =
     (case findAck (pe_eventId event) st of
        Some replayed \<Rightarrow> (st, Inr replayed)
      | None \<Rightarrow>
          (case nextState event (es_record st) of
             Inl e \<Rightarrow> (st, Inl (AppError e))
           | Inr state \<Rightarrow>
               (case event_effect env call event (es_jwks st) of
                  Inl e \<Rightarrow> (st, Inl e)
                | Inr (jwks, verifiedKid) \<Rightarrow>
                    let ack = \<lparr>ak_eventId = pe_eventId event, ak_stateVersion = ir_stateVersion state,
                               ak_verifiedKid = verifiedKid\<rparr> in
                    (commit_event (pe_eventId event) ack state (st\<lparr>es_jwks := jwks\<rparr>), Inr ack))))"

definition handle ::
  "events_env \<Rightarrow> events_call \<Rightarrow> json \<Rightarrow> events_state \<Rightarrow> events_state \<times> (handle_error + event_ack)" where
  "handle env call raw st =
     (case assertShape raw (ee_config env) of
        Inl e \<Rightarrow> (st, Inl (AppError e))
      | Inr event \<Rightarrow> handle_event env call event st)"

section \<open>The installation's life cycle\<close>

text \<open>
  The abstract machine: a state change of version \<open>v\<close> takes effect exactly when \<open>v\<close> is the next version and
  the installation is not deleted.
\<close>

definition spec_change :: "installation_record \<Rightarrow> installation_state \<times> int \<Rightarrow> installation_record" where
  "spec_change r c =
     (case c of (target, v) \<Rightarrow>
        if ir_state r \<noteq> InstDeleted \<and> v = ir_stateVersion r + 1 then \<lparr>ir_state = target, ir_stateVersion = v\<rparr> else r)"

text \<open>The change that an event announces, if it announces one.\<close>

definition announced :: "platform_event \<Rightarrow> (installation_state \<times> int) option" where
  "announced event = map_option (\<lambda>target. (target, pe_stateVersion event)) (STATE_BY_TYPE (pe_type event))"

type_synonym delivery = "events_call \<times> platform_event"

definition deliver :: "events_env \<Rightarrow> events_state \<Rightarrow> delivery \<Rightarrow> events_state" where
  "deliver env st d = (case d of (call, event) \<Rightarrow> fst (handle_event env call event st))"

lemma nextState_spec:
  "nextState event r = Inr r' \<Longrightarrow>
   r' = (case announced event of None \<Rightarrow> r | Some c \<Rightarrow> spec_change r c)"
  by (auto simp: nextState_def announced_def spec_change_def split: option.splits if_splits)

lemma spec_change_version: "ir_stateVersion r \<le> ir_stateVersion (spec_change r c)"
  by (auto simp: spec_change_def split: prod.splits)

lemma handle_event_cases:
  obtains (replayed) ack where "es_acks st (pe_eventId event) = Some ack" "handle_event env call event st = (st, Inr ack)"
  | (failed) e where "es_acks st (pe_eventId event) = None" "handle_event env call event st = (st, Inl e)"
  | (committed) r jwks kid where "es_acks st (pe_eventId event) = None" "nextState event (es_record st) = Inr r"
      "event_effect env call event (es_jwks st) = Inr (jwks, kid)"
      "handle_event env call event st =
         (\<lparr>es_record = r,
           es_acks = (es_acks st)(pe_eventId event \<mapsto>
             \<lparr>ak_eventId = pe_eventId event, ak_stateVersion = ir_stateVersion r, ak_verifiedKid = kid\<rparr>),
           es_jwks = jwks\<rparr>,
          Inr \<lparr>ak_eventId = pe_eventId event, ak_stateVersion = ir_stateVersion r, ak_verifiedKid = kid\<rparr>)"
  by (cases "es_acks st (pe_eventId event)"; cases "nextState event (es_record st)";
      cases "event_effect env call event (es_jwks st)")
    (auto simp: handle_event_def findAck_def commit_event_def Let_def)

lemma handle_event_record:
  "es_record (fst (handle_event env call event st)) = es_record st \<or>
   (\<exists>c. announced event = Some c \<and> es_record (fst (handle_event env call event st)) = spec_change (es_record st) c)"
  by (rule handle_event_cases [of st event env call]) (auto dest!: nextState_spec split: option.splits)

lemma handle_event_deleted:
  "ir_state (es_record st) = InstDeleted \<Longrightarrow> es_record (fst (handle_event env call event st)) = es_record st"
  using handle_event_record [of env call event st] by (auto simp: spec_change_def split: prod.splits)

definition deleted_at :: "events_state \<Rightarrow> unit \<Rightarrow> int option" where
  "deleted_at st _ = (if ir_state (es_record st) = InstDeleted then Some (ir_stateVersion (es_record st)) else None)"

interpretation acknowledged: write_once "\<lambda>_. True" "\<lambda>_. True" es_acks "deliver env"
  for env
proof
  fix st :: events_state and op k v assume acked: "es_acks st k = Some v"
  show "es_acks (deliver env st op) k = Some v"
    by (rule handle_event_cases [of st "snd op" env "fst op"])
      (use acked in \<open>auto simp: deliver_def split: prod.splits\<close>)
qed simp

interpretation deletion: write_once "\<lambda>_. True" "\<lambda>_. True" deleted_at "deliver env"
  for env
proof
  fix st :: events_state and op k v assume "deleted_at st k = Some v"
  then show "deleted_at (deliver env st op) k = Some v"
    by (cases op) (auto simp: deliver_def deleted_at_def handle_event_deleted split: if_splits)
qed simp

definition version_ok :: "events_state \<Rightarrow> bool" where
  "version_ok st \<longleftrightarrow> 0 \<le> ir_stateVersion (es_record st)"

interpretation versions: monotone_projection version_ok "\<lambda>st. nat (ir_stateVersion (es_record st))" "deliver env"
  for env
proof
  fix st :: events_state and op assume ok: "version_ok st"
  have "es_record (deliver env st op) = es_record st \<or> (\<exists>c. es_record (deliver env st op) = spec_change (es_record st) c)"
    using handle_event_record [of env "fst op" "snd op" st] by (cases op) (auto simp: deliver_def)
  then have "ir_stateVersion (es_record st) \<le> ir_stateVersion (es_record (deliver env st op))"
    by (auto simp: spec_change_version)
  with ok show "version_ok (deliver env st op)"
    "nat (ir_stateVersion (es_record st)) \<le> nat (ir_stateVersion (es_record (deliver env st op)))"
    by (auto simp: version_ok_def)
qed

subsection \<open>Delivery at least once\<close>

lemma keep_first_snoc: "keep_first (xs @ [x]) = keep_first xs @ (if x \<in> set xs then [] else [x])"
  by (induction xs) (auto simp: filter_empty_conv)

lemma deliver_seen: "es_acks st (pe_eventId (snd d)) \<noteq> None \<Longrightarrow> deliver env st d = st"
  by (cases d) (auto simp: deliver_def handle_event_def findAck_def)

lemma deliver_next:
  assumes "es_acks st (pe_eventId e) = None" and "announced e = Some c"
    and "ir_state (es_record st) = InstDeleted \<or> snd c = ir_stateVersion (es_record st) + 1"
  shows "es_record (deliver env st (call, e)) = spec_change (es_record st) c"
    and "es_acks (deliver env st (call, e)) = (es_acks st)(pe_eventId e \<mapsto>
           \<lparr>ak_eventId = pe_eventId e, ak_stateVersion = ir_stateVersion (spec_change (es_record st) c), ak_verifiedKid = None\<rparr>)"
proof -
  obtain target where t: "STATE_BY_TYPE (pe_type e) = Some target" "c = (target, pe_stateVersion e)"
    using assms(2) by (auto simp: announced_def)
  have "nextState e (es_record st) = Inr (spec_change (es_record st) c)"
    using t assms(3) by (auto simp: nextState_def spec_change_def)
  moreover have "event_effect env call e (es_jwks st) = Inr (es_jwks st, None)"
    using t by (cases "pe_type e") (auto simp: event_effect_def)
  ultimately have "handle_event env call e st =
      (commit_event (pe_eventId e) \<lparr>ak_eventId = pe_eventId e, ak_stateVersion = ir_stateVersion (spec_change (es_record st) c),
         ak_verifiedKid = None\<rparr> (spec_change (es_record st) c) st,
       Inr \<lparr>ak_eventId = pe_eventId e, ak_stateVersion = ir_stateVersion (spec_change (es_record st) c), ak_verifiedKid = None\<rparr>)"
    using assms(1) by (simp add: handle_event_def findAck_def Let_def)
  then show "es_record (deliver env st (call, e)) = spec_change (es_record st) c"
    "es_acks (deliver env st (call, e)) = (es_acks st)(pe_eventId e \<mapsto>
       \<lparr>ak_eventId = pe_eventId e, ak_stateVersion = ir_stateVersion (spec_change (es_record st) c), ak_verifiedKid = None\<rparr>)"
    by (simp_all add: deliver_def commit_event_def)
qed

text \<open>A chain of announcements: consecutive versions from \<open>v\<close> on.\<close>

definition chain_from :: "int \<Rightarrow> platform_event list \<Rightarrow> bool" where
  "chain_from v es \<longleftrightarrow> (\<forall>i < length es. announced (es ! i) \<noteq> None \<and> pe_stateVersion (es ! i) = v + int i)"

abbreviation applied :: "installation_record \<Rightarrow> platform_event list \<Rightarrow> installation_record" where
  "applied r es \<equiv> foldl spec_change r (map (\<lambda>e. the (announced e)) es)"

lemma applied_version:
  assumes "chain_from (ir_stateVersion r + 1) es"
  shows "ir_state (applied r es) = InstDeleted \<or> ir_stateVersion (applied r es) = ir_stateVersion r + int (length es)"
  using assms
proof (induction es rule: rev_induct)
  case (snoc e es)
  then have "chain_from (ir_stateVersion r + 1) es"
    and "\<exists>t. announced e = Some (t, ir_stateVersion r + 1 + int (length es))"
    by (auto simp: chain_from_def nth_append announced_def split: if_splits dest: spec [where x = "length es"])
  with snoc.IH show ?case by (auto simp: spec_change_def)
qed simp

lemma deliver_chain:
  assumes "chain_from (ir_stateVersion (es_record st) + 1) (keep_first (map snd ds))"
    and "distinct (map pe_eventId (keep_first (map snd ds)))"
    and "\<forall>d \<in> set ds. es_acks st (pe_eventId (snd d)) = None"
  shows "es_record (foldl (deliver env) st ds) = applied (es_record st) (keep_first (map snd ds)) \<and>
         (\<forall>i. es_acks (foldl (deliver env) st ds) i \<noteq> None \<longleftrightarrow> es_acks st i \<noteq> None \<or> i \<in> pe_eventId ` snd ` set ds)"
  using assms
proof (induction ds rule: rev_induct)
  case (snoc d ds)
  let ?st = "foldl (deliver env) st ds" and ?es = "keep_first (map snd ds)"
  have es: "keep_first (map snd (ds @ [d])) = ?es @ (if snd d \<in> set (map snd ds) then [] else [snd d])"
    by (simp only: map_append list.map keep_first_snoc)
  have chain: "chain_from (ir_stateVersion (es_record st) + 1) ?es"
    using snoc.prems(1) unfolding es chain_from_def by (auto simp: nth_append split: if_splits)
  have "distinct (map pe_eventId ?es)" using snoc.prems(2) unfolding es by (auto split: if_splits)
  with snoc chain have IH: "es_record ?st = applied (es_record st) ?es"
    "\<And>i. es_acks ?st i \<noteq> None \<longleftrightarrow> es_acks st i \<noteq> None \<or> i \<in> pe_eventId ` snd ` set ds"
    by auto
  show ?case
  proof (cases "snd d \<in> set (map snd ds)")
    case True
    then have "pe_eventId (snd d) \<in> pe_eventId ` snd ` set ds" by auto
    with IH(2) have "es_acks ?st (pe_eventId (snd d)) \<noteq> None" by blast
    with deliver_seen have "deliver env ?st d = ?st" by blast
    with IH True es show ?thesis by auto
  next
    case False
    have new: "pe_eventId (snd d) \<notin> pe_eventId ` snd ` set ds"
      using snoc.prems(2) False unfolding es by (auto simp: image_iff)
    with IH(2) [of "pe_eventId (snd d)"] snoc.prems(3) have none: "es_acks ?st (pe_eventId (snd d)) = None" by auto
    have "announced (snd d) \<noteq> None \<and> pe_stateVersion (snd d) = ir_stateVersion (es_record st) + 1 + int (length ?es)"
      using snoc.prems(1) False unfolding es chain_from_def by (auto dest: spec [where x = "length ?es"])
    then obtain c where c: "announced (snd d) = Some c" "snd c = ir_stateVersion (es_record st) + 1 + int (length ?es)"
      by (auto simp: announced_def)
    have "ir_state (es_record ?st) = InstDeleted \<or> snd c = ir_stateVersion (es_record ?st) + 1"
      using applied_version [OF chain] c(2) IH(1) by auto
    from deliver_next [OF none c(1) this, of env "fst d"] IH c(1) False es show ?thesis by auto
  qed
qed simp

section \<open>Claims\<close>

definition demo_config :: app_config where
  "demo_config = \<lparr>cfg_issuer = ''iss'', cfg_systemId = ''sys'', cfg_tenantId = ''t'', cfg_installationId = ''i''\<rparr>"

definition demo_events_env :: events_env where
  "demo_events_env = \<lparr>ee_config = demo_config, ee_decode = (\<lambda>_. None), ee_probeVerify = (\<lambda>_ _ _ _ _. False),
     ee_importJWK = (\<lambda>_. Some ''key'')\<rparr>"

definition demo_call :: events_call where
  "demo_call = \<lparr>ec_now = (\<lambda>_. 0), ec_fetched = None, ec_sched = []\<rparr>"

definition demo_event :: "string \<Rightarrow> int \<Rightarrow> event_type \<Rightarrow> platform_event" where
  "demo_event i v t = \<lparr>pe_eventId = i, pe_stateVersion = v, pe_type = t, pe_payload = JUndefined\<rparr>"

text \<open>C22. Events that are delivered at least once take effect exactly once: if the platform delivers a chain of
  state changes with consecutive versions in order, each repeated as often and as late as it likes, then the
  installation is in the state that the changes lead to when each is applied once, where nothing changes after
  a deletion.\<close>

theorem delivery_exactly_once:
  assumes "keep_first (map snd ds) = es"
    and "chain_from (ir_stateVersion (es_record st) + 1) es" and "distinct (map pe_eventId es)"
    and "\<forall>e \<in> set es. es_acks st (pe_eventId e) = None"
  shows "es_record (foldl (deliver env) st ds) = foldl spec_change (es_record st) (map (\<lambda>e. the (announced e)) es)"
proof -
  have "set es = snd ` set ds" using assms(1) by (metis set_keep_first set_map)
  then show ?thesis using deliver_chain [of st ds env] assms by simp
qed

lemma delivery_exactly_once_witness:
  "let off = demo_event ''e1'' 1 InstallationDisabledEv; on = demo_event ''e2'' 2 InstallationEnabledEv in
   es_record (foldl (deliver demo_events_env) initial_events
     [(demo_call, off), (demo_call, off), (demo_call, on), (demo_call, off), (demo_call, on)]) =
   \<lparr>ir_state = InstEnabled, ir_stateVersion = 2\<rparr>"
proof -
  let ?off = "demo_event ''e1'' 1 InstallationDisabledEv" and ?on = "demo_event ''e2'' 2 InstallationEnabledEv"
  let ?ds = "[(demo_call, ?off), (demo_call, ?off), (demo_call, ?on), (demo_call, ?off), (demo_call, ?on)]"
  have "keep_first (map snd ?ds) = [?off, ?on]" by (simp add: demo_event_def)
  moreover have "chain_from (ir_stateVersion (es_record initial_events) + 1) [?off, ?on]"
    by (auto simp: chain_from_def announced_def demo_event_def initial_events_def less_Suc_eq)
  ultimately have "es_record (foldl (deliver demo_events_env) initial_events ?ds) =
      foldl spec_change (es_record initial_events) (map (\<lambda>e. the (announced e)) [?off, ?on])"
    by (rule delivery_exactly_once) (simp_all add: demo_event_def initial_events_def)
  then show ?thesis by (simp add: announced_def demo_event_def spec_change_def initial_events_def Let_def)
qed

text \<open>An acknowledged event is never processed again: however many events were handled since, delivering it
  again, with whatever contents, returns the acknowledgement that it got the first time and changes nothing,
  neither the installation nor the key set cache.\<close>

theorem event_replay:
  assumes "handle env call raw st = (st1, Inr ack)" and "assertShape raw (ee_config env) = Inr event"
    and "assertShape raw' (ee_config env) = Inr event'" and "pe_eventId event' = pe_eventId event"
  shows "handle env call' raw' (foldl (deliver env) st1 ds) = (foldl (deliver env) st1 ds, Inr ack)"
proof -
  have "es_acks st1 (pe_eventId event) = Some ack"
    by (rule handle_event_cases [of st event env call]) (use assms(1,2) in \<open>auto simp: handle_def\<close>)
  from acknowledged.run_keeps [OF _ _ this, of ds]
  have "es_acks (foldl (deliver env) st1 ds) (pe_eventId event) = Some ack" by (simp add: list_all_iff)
  with assms(3,4) show ?thesis by (simp add: handle_def handle_event_def findAck_def)
qed

definition demo_raw :: "string \<Rightarrow> int \<Rightarrow> json" where
  "demo_raw t v = JObj [(''eventId'', JStr ''e1''), (''iid'', JStr ''i''), (''stateVersion'', JNum (IntNum v)), (''type'', JStr t)]"

lemma demo_raw_shape:
  "assertShape (demo_raw ''installation.disabled'' 1) demo_config = Inr (demo_event ''e1'' 1 InstallationDisabledEv)"
  "assertShape (demo_raw ''installation.deleted'' 2) demo_config = Inr (demo_event ''e1'' 2 InstallationDeletedEv)"
  by code_simp+

lemma event_replay_witness:
  "snd (handle demo_events_env demo_call (demo_raw ''installation.deleted'' 2)
     (fst (handle demo_events_env demo_call (demo_raw ''installation.disabled'' 1) initial_events))) =
   Inr \<lparr>ak_eventId = ''e1'', ak_stateVersion = 1, ak_verifiedKid = None\<rparr>"
proof -
  let ?ack = "\<lparr>ak_eventId = ''e1'', ak_stateVersion = 1, ak_verifiedKid = None\<rparr>"
  have cfg: "ee_config demo_events_env = demo_config" by (simp add: demo_events_env_def)
  have "snd (handle demo_events_env demo_call (demo_raw ''installation.disabled'' 1) initial_events) = Inr ?ack"
    by code_simp
  then have "handle demo_events_env demo_call (demo_raw ''installation.disabled'' 1) initial_events =
      (fst (handle demo_events_env demo_call (demo_raw ''installation.disabled'' 1) initial_events), Inr ?ack)"
    by (metis prod.collapse)
  from event_replay [OF this demo_raw_shape(1) [folded cfg] demo_raw_shape(2) [folded cfg], where ds = "[]" and call' = demo_call]
  show ?thesis by (simp add: demo_event_def)
qed

text \<open>A gap in the versions is reported, not skipped: an unseen state change that is ahead of the next version
  of an installation that is not deleted is answered with \<open>state_gap\<close> and changes nothing at all, so that it can
  be delivered again after the missing ones; and the version of an installation never decreases.\<close>

theorem state_gap_reported:
  assumes "assertShape raw (ee_config env) = Inr event" and "announced event = Some (target, v)"
    and "es_acks st (pe_eventId event) = None" and "ir_state (es_record st) \<noteq> InstDeleted"
    and "v > ir_stateVersion (es_record st) + 1"
  shows "handle env call raw st = (st, Inl (AppError StateGap)) \<and>
         (0 \<le> ir_stateVersion (es_record st) \<longrightarrow>
            ir_stateVersion (es_record st) \<le> ir_stateVersion (es_record (foldl (deliver env) st ds)))"
proof
  show "handle env call raw st = (st, Inl (AppError StateGap))"
    using assms by (auto simp: handle_def handle_event_def findAck_def nextState_def announced_def split: option.splits)
  show "0 \<le> ir_stateVersion (es_record st) \<longrightarrow>
      ir_stateVersion (es_record st) \<le> ir_stateVersion (es_record (foldl (deliver env) st ds))"
    using versions.stream_mono [of st env ds] versions.stream_inv [of st env ds] by (auto simp: version_ok_def)
qed

lemma state_gap_reported_witness:
  "snd (handle demo_events_env demo_call (demo_raw ''installation.deleted'' 2) initial_events) = Inl (AppError StateGap)"
  by (subst state_gap_reported [THEN conjunct1, of _ _ "demo_event ''e1'' 2 InstallationDeletedEv" InstDeleted 2])
    (use demo_raw_shape(2) in \<open>simp_all add: demo_events_env_def announced_def demo_event_def initial_events_def\<close>)

section \<open>Overlapping deliveries\<close>

text \<open>
  Handling an event reads the store, then acts on the key set client, which for a rotation or a probe waits for
  the network, and only then writes. The claims above are about events that are handled one after the other;
  \<open>event_read\<close> and \<open>event_settle\<close> are the parts before and after that wait.
\<close>

definition event_read :: "platform_event \<Rightarrow> events_state \<Rightarrow> handle_error + event_ack + installation_record" where
  "event_read event st =
     (case findAck (pe_eventId event) st of
        Some replayed \<Rightarrow> Inr (Inl replayed)
      | None \<Rightarrow>
          (case nextState event (es_record st) of Inl e \<Rightarrow> Inl (AppError e) | Inr state \<Rightarrow> Inr (Inr state)))"

definition event_settle ::
  "events_env \<Rightarrow> events_call \<Rightarrow> platform_event \<Rightarrow> installation_record \<Rightarrow> events_state \<Rightarrow>
   events_state \<times> (handle_error + event_ack)" where
  "event_settle env call event state st =
     (case event_effect env call event (es_jwks st) of
        Inl e \<Rightarrow> (st, Inl e)
      | Inr (jwks, verifiedKid) \<Rightarrow>
          let ack = \<lparr>ak_eventId = pe_eventId event, ak_stateVersion = ir_stateVersion state, ak_verifiedKid = verifiedKid\<rparr> in
          (commit_event (pe_eventId event) ack state (st\<lparr>es_jwks := jwks\<rparr>), Inr ack))"

lemma handle_event_split:
  "handle_event env call event st =
     (case event_read event st of
        Inl e \<Rightarrow> (st, Inl e)
      | Inr (Inl replayed) \<Rightarrow> (st, Inr replayed)
      | Inr (Inr state) \<Rightarrow> event_settle env call event state st)"
  by (simp add: handle_event_def event_read_def event_settle_def split: option.splits sum.splits)

text \<open>
  The record that was read is written back unconditionally. When the installation is deleted while a key rotation
  waits for the network, the rotation's commit takes the deletion back, although the deletion was acknowledged
  and the code calls it an absorbing state: a later delivery of it is answered from the acknowledgement and
  does not repair the state.
\<close>

theorem rotation_undoes_deletion:
  fixes deleted rotated :: platform_event
  defines "deleted \<equiv> demo_event ''d'' 1 InstallationDeletedEv"
    and "rotated \<equiv> \<lparr>pe_eventId = ''r'', pe_stateVersion = 0, pe_type = JwksRotated,
                     pe_payload = JObj [(''newKid'', JStr ''k'')]\<rparr>"
  shows "\<exists>state st1 st2.
    event_read rotated initial_events = Inr (Inr state) \<and>
    st1 = fst (handle_event demo_events_env demo_call deleted initial_events) \<and> ir_state (es_record st1) = InstDeleted \<and>
    st2 = fst (event_settle demo_events_env demo_call rotated state st1) \<and> ir_state (es_record st2) = InstEnabled \<and>
    fst (handle_event demo_events_env demo_call deleted st2) = st2"
  by (simp add: event_read_def handle_event_def event_settle_def findAck_def nextState_def event_effect_def commit_event_def
      payload_prop_def deleted_def rotated_def demo_event_def initial_events_def js_prop_def Let_def)

end
