(* ===== verification/App_Directory.thy ===== *)
theory App_Directory
  imports App_Claims
begin

text \<open>
  The local copy of the organisation directory: the in-memory store
  (\<^verbatim>\<open>packages/ky-app-server/src/directory/store.ts\<close>), the client that keeps it up to date
  (\<^verbatim>\<open>directory/client.ts\<close>) and the staleness gate (\<^verbatim>\<open>directory/staleness.ts\<close>).

  The network is a parameter: \<open>net n\<close> is how the \<open>n\<close>-th request of the client ends, after the schema
  validators of the contract package have looked at the body. The clock is read once for the rate limiter of
  the \<open>n\<close>-th request (\<open>clk n\<close>) and once when what it brought is stored (\<open>at n\<close>).
\<close>

section \<open>Data\<close>

datatype directory_status = DirActive | DirDisabled

record directory_user =
  du_userId :: string
  du_displayName :: string
  du_employeeNo :: "string option"
  du_status :: directory_status
  du_isTenantAdmin :: bool
  du_groupIds :: "string list"

record directory_group =
  dg_groupId :: string
  dg_displayName :: string
  dg_parentGroupId :: "string option"
  dg_status :: directory_status

datatype local_status = LocalActive | LocalSuspended

record local_user =
  lu_user :: directory_user
  lu_localStatus :: local_status
  lu_removed :: bool
  lu_updatedAt :: int

datatype directory_change =
    UserUpsert directory_user
  | UserRemove string
  | GroupUpsert directory_group
  | GroupRemove string

record directory_event =
  de_seq :: int
  de_change :: directory_change

record directory_checkpoint =
  cp_seq :: int
  cp_at :: int

record directory_store =
  ds_users :: "string \<Rightarrow> local_user option"
  ds_groups :: "string \<Rightarrow> directory_group option"
  ds_checkpoint :: "directory_checkpoint option"

definition empty_directory :: directory_store where
  "empty_directory = \<lparr>ds_users = Map.empty, ds_groups = Map.empty, ds_checkpoint = None\<rparr>"

section \<open>The store\<close>

definition toLocal :: "directory_user \<Rightarrow> local_user option \<Rightarrow> int \<Rightarrow> local_user" where
  "toLocal user previous at =
     (let suspended = (du_status user = DirDisabled \<or> map_option lu_localStatus previous = Some LocalSuspended) in
      \<lparr>lu_user = user, lu_localStatus = (if suspended then LocalSuspended else LocalActive), lu_removed = False,
       lu_updatedAt = at\<rparr>)"

definition mark_removed :: "int \<Rightarrow> local_user \<Rightarrow> local_user" where
  "mark_removed at user = user\<lparr>lu_removed := True, lu_localStatus := LocalSuspended, lu_updatedAt := at\<rparr>"

definition applySnapshot ::
  "int \<Rightarrow> directory_user list \<Rightarrow> directory_group list \<Rightarrow> int \<Rightarrow> directory_store \<Rightarrow> directory_store" where
  "applySnapshot snapshotSeq users groups at st =
     (let previous = ds_users st;
          listed = fold (\<lambda>user m. m(du_userId user \<mapsto> toLocal user (previous (du_userId user)) at)) users Map.empty in
      \<lparr>ds_users = (\<lambda>userId. case listed userId of
                              Some user \<Rightarrow> Some user
                            | None \<Rightarrow> map_option (mark_removed at) (previous userId)),
       ds_groups = fold (\<lambda>grp m. m(dg_groupId grp \<mapsto> grp)) groups Map.empty,
       ds_checkpoint = Some \<lparr>cp_seq = snapshotSeq, cp_at = at\<rparr>\<rparr>)"

fun applyChange :: "int \<Rightarrow> directory_change \<Rightarrow> directory_store \<Rightarrow> directory_store" where
  "applyChange at (UserUpsert user) st =
     st\<lparr>ds_users := (ds_users st)(du_userId user \<mapsto> toLocal user (ds_users st (du_userId user)) at)\<rparr>"
| "applyChange at (UserRemove userId) st =
     (case ds_users st userId of
        None \<Rightarrow> st
      | Some existing \<Rightarrow> st\<lparr>ds_users := (ds_users st)(userId \<mapsto> mark_removed at existing)\<rparr>)"
| "applyChange at (GroupUpsert grp) st = st\<lparr>ds_groups := (ds_groups st)(dg_groupId grp \<mapsto> grp)\<rparr>"
| "applyChange at (GroupRemove groupId) st = st\<lparr>ds_groups := (ds_groups st)(groupId := None)\<rparr>"

definition checkpoint_seq :: "directory_store \<Rightarrow> int" where
  "checkpoint_seq st = (case ds_checkpoint st of None \<Rightarrow> 0 | Some c \<Rightarrow> cp_seq c)"

definition applyChanges :: "directory_event list \<Rightarrow> int \<Rightarrow> int \<Rightarrow> directory_store \<Rightarrow> directory_store" where
  "applyChanges events nextSeq at st =
     (let checkpointSeq = checkpoint_seq st;
          st' = fold (\<lambda>event s. if de_seq event \<le> checkpointSeq then s else applyChange at (de_change event) s) events st in
      st'\<lparr>ds_checkpoint := Some \<lparr>cp_seq = nextSeq, cp_at = at\<rparr>\<rparr>)"

definition touchCheckpoint :: "int \<Rightarrow> directory_store \<Rightarrow> directory_store" where
  "touchCheckpoint at st = st\<lparr>ds_checkpoint := map_option (\<lambda>c. c\<lparr>cp_at := at\<rparr>) (ds_checkpoint st)\<rparr>"

definition setTenantAdmin :: "string \<Rightarrow> bool \<Rightarrow> int \<Rightarrow> directory_store \<Rightarrow> directory_store" where
  "setTenantAdmin userId isTenantAdmin at st =
     (case ds_users st userId of
        None \<Rightarrow> st
      | Some user \<Rightarrow>
          st\<lparr>ds_users := (ds_users st)(userId \<mapsto>
               user\<lparr>lu_user := (lu_user user)\<lparr>du_isTenantAdmin := isTenantAdmin\<rparr>, lu_updatedAt := at\<rparr>)\<rparr>)"

definition reinstateUser :: "string \<Rightarrow> int \<Rightarrow> directory_store \<Rightarrow> directory_store" where
  "reinstateUser userId at st =
     (case ds_users st userId of
        None \<Rightarrow> st
      | Some user \<Rightarrow> st\<lparr>ds_users := (ds_users st)(userId \<mapsto> user\<lparr>lu_localStatus := LocalActive, lu_updatedAt := at\<rparr>)\<rparr>)"

section \<open>The staleness gate\<close>

text \<open>The age is in milliseconds here; \<open>None\<close> is the infinite age of a directory that was never synchronised.\<close>

record staleness_gate =
  sg_warn :: bool
  sg_allowWrite :: bool
  sg_allowRead :: bool
  sg_age :: "int option"

definition STALENESS_WARN_MS :: int where
  "STALENESS_WARN_MS = 30 * 60 * 1000"

definition STALENESS_BLOCK_WRITE_MS :: int where
  "STALENESS_BLOCK_WRITE_MS = 2 * 60 * 60 * 1000"

definition STALENESS_BLOCK_READ_MS :: int where
  "STALENESS_BLOCK_READ_MS = 24 * 60 * 60 * 1000"

definition directoryStalenessGate :: "int option \<Rightarrow> staleness_gate" where
  "directoryStalenessGate ageMs =
     (let age = map_option (max 0) ageMs;
          over = (\<lambda>bound. case age of None \<Rightarrow> True | Some a \<Rightarrow> a > bound) in
      \<lparr>sg_warn = over STALENESS_WARN_MS, sg_allowWrite = (\<not> over STALENESS_BLOCK_WRITE_MS),
       sg_allowRead = (\<not> over STALENESS_BLOCK_READ_MS), sg_age = age\<rparr>)"

definition staleness :: "int \<Rightarrow> directory_store \<Rightarrow> staleness_gate" where
  "staleness now st = directoryStalenessGate (map_option (\<lambda>c. now - cp_at c) (ds_checkpoint st))"

section \<open>The client\<close>

definition DIRECTORY_RATE_MAX :: nat where
  "DIRECTORY_RATE_MAX = 60"

definition DIRECTORY_RATE_WINDOW_MS :: int where
  "DIRECTORY_RATE_WINDOW_MS = 60000"

definition DIRECTORY_SNAPSHOT_MAX_PAGES :: nat where
  "DIRECTORY_SNAPSHOT_MAX_PAGES = 1000"

text \<open>\<open>WindowLimiter.take\<close>.\<close>

definition take_slot :: "nat \<Rightarrow> int \<Rightarrow> int list \<Rightarrow> int \<Rightarrow> int list \<times> bool" where
  "take_slot limit windowMs hits nowMs =
     (let recent = filter (\<lambda>at. nowMs - at < windowMs) hits in
      if length recent \<ge> limit then (recent, False) else (recent @ [nowMs], True))"

datatype gone_code = SnapshotExpired | CursorExpired

record directory_page =
  pg_snapshotSeq :: int
  pg_pageToken :: "string option"
  pg_users :: "directory_user list"
  pg_groups :: "directory_group list"

record changes_page =
  cg_events :: "directory_event list"
  cg_nextSeq :: int
  cg_hasMore :: bool

text \<open>How a request ends: a validated 410, an invalid 410, another error status, a rejected or timed out fetch
  or an unreadable body, a body that the validator of the request accepts, or one it does not (an empty 204 too).\<close>

datatype directory_answer =
    AnsGone gone_code | AnsBadGone | AnsStatus | AnsFailed | AnsPage directory_page | AnsChanges changes_page | AnsInvalid

datatype directory_error = DirGone gone_code | DirApp app_error | DirFailed

record directory_client =
  dc_hits :: "int list"
  dc_requests :: nat
  dc_store :: directory_store

definition request ::
  "(nat \<Rightarrow> directory_answer) \<Rightarrow> (nat \<Rightarrow> int) \<Rightarrow> directory_client \<Rightarrow> directory_client \<times> (directory_error + directory_answer)" where
  "request net clk c =
     (case take_slot DIRECTORY_RATE_MAX DIRECTORY_RATE_WINDOW_MS (dc_hits c) (clk (dc_requests c)) of
        (hits, ok) \<Rightarrow>
          let c' = c\<lparr>dc_hits := hits, dc_requests := Suc (dc_requests c)\<rparr> in
          if \<not> ok then (c', Inl (DirApp RateLimited))
          else (c', case net (dc_requests c) of
                      AnsGone code \<Rightarrow> Inl (DirGone code)
                    | AnsBadGone \<Rightarrow> Inl (DirApp Internal)
                    | AnsStatus \<Rightarrow> Inl (DirApp UpstreamUnavailable)
                    | AnsFailed \<Rightarrow> Inl DirFailed
                    | answer \<Rightarrow> Inr answer))"

record snapshot_data =
  sd_snapshotSeq :: int
  sd_users :: "directory_user list"
  sd_groups :: "directory_group list"

datatype page_result = PagesInconsistent | PagesLoop | PagesDone snapshot_data | PagesError directory_error

text \<open>
  The page loop: \<open>pages\<close> is the number of pages that may still be asked for, \<open>acc\<close> what has been read (\<open>None\<close>
  before the first page). The page token goes back to the server only.
\<close>

fun page_loop ::
  "(nat \<Rightarrow> directory_answer) \<Rightarrow> (nat \<Rightarrow> int) \<Rightarrow> nat \<Rightarrow> snapshot_data option \<Rightarrow> directory_client \<Rightarrow> directory_client \<times> page_result" where
  "page_loop net clk 0 acc c = (c, PagesLoop)"
| "page_loop net clk (Suc pages) acc c =
     (case request net clk c of
        (c', Inl e) \<Rightarrow> (c', PagesError e)
      | (c', Inr (AnsPage page)) \<Rightarrow>
          (case acc of
             Some d \<Rightarrow>
               if sd_snapshotSeq d \<noteq> pg_snapshotSeq page then (c', PagesInconsistent)
               else let d' = d\<lparr>sd_users := sd_users d @ pg_users page, sd_groups := sd_groups d @ pg_groups page\<rparr> in
                    if pg_pageToken page = None then (c', PagesDone d') else page_loop net clk pages (Some d') c'
           | None \<Rightarrow>
               let d' = \<lparr>sd_snapshotSeq = pg_snapshotSeq page, sd_users = pg_users page, sd_groups = pg_groups page\<rparr> in
               if pg_pageToken page = None then (c', PagesDone d') else page_loop net clk pages (Some d') c')
      | (c', Inr _) \<Rightarrow> (c', PagesError (DirApp Internal)))"

fun fetch_attempts ::
  "nat \<Rightarrow> (nat \<Rightarrow> directory_answer) \<Rightarrow> (nat \<Rightarrow> int) \<Rightarrow> directory_client \<Rightarrow> directory_client \<times> (directory_error + snapshot_data)" where
  "fetch_attempts 0 net clk c = (c, Inl (DirApp UpstreamUnavailable))"
| "fetch_attempts (Suc n) net clk c =
     (case page_loop net clk DIRECTORY_SNAPSHOT_MAX_PAGES None c of
        (c', PagesInconsistent) \<Rightarrow> fetch_attempts n net clk c'
      | (c', PagesLoop) \<Rightarrow> (c', Inl (DirApp Internal))
      | (c', PagesError e) \<Rightarrow> (c', Inl e)
      | (c', PagesDone d) \<Rightarrow> (c', Inr d))"

definition fetchSnapshot ::
  "(nat \<Rightarrow> directory_answer) \<Rightarrow> (nat \<Rightarrow> int) \<Rightarrow> directory_client \<Rightarrow> directory_client \<times> (directory_error + snapshot_data)" where
  "fetchSnapshot net clk c = fetch_attempts 2 net clk c"

datatype sync_status = SyncSnapshot | SyncChanges | SyncUpToDate | SyncRateLimited

record sync_result =
  sy_status :: sync_status
  sy_applied :: nat
  sy_checkpoint :: "int option"
  sy_resnapshot :: "bool option"

definition sync_snapshot ::
  "(nat \<Rightarrow> directory_answer) \<Rightarrow> (nat \<Rightarrow> int) \<Rightarrow> (nat \<Rightarrow> int) \<Rightarrow> bool \<Rightarrow> directory_client \<Rightarrow>
   directory_client \<times> (directory_error + sync_result)" where
  "sync_snapshot net clk at resnapshot c =
     (case fetchSnapshot net clk c of
        (c', Inl e) \<Rightarrow> (c', Inl e)
      | (c', Inr d) \<Rightarrow>
          (c'\<lparr>dc_store := applySnapshot (sd_snapshotSeq d) (sd_users d) (sd_groups d) (at (dc_requests c')) (dc_store c')\<rparr>,
           Inr \<lparr>sy_status = SyncSnapshot, sy_applied = length (sd_users d) + length (sd_groups d),
                sy_checkpoint = Some (sd_snapshotSeq d), sy_resnapshot = Some resnapshot\<rparr>))"

text \<open>
  The loop over the change stream runs as long as the server says that there is more. It is given fuel; the
  result \<open>None\<close> means that the fuel did not suffice.
\<close>

fun changes_loop ::
  "nat \<Rightarrow> (nat \<Rightarrow> directory_answer) \<Rightarrow> (nat \<Rightarrow> int) \<Rightarrow> (nat \<Rightarrow> int) \<Rightarrow> nat \<Rightarrow> directory_client \<Rightarrow>
   directory_client \<times> (directory_error + nat \<times> int) option" where
  "changes_loop 0 net clk at applied c = (c, None)"
| "changes_loop (Suc fuel) net clk at applied c =
     (case request net clk c of
        (c', Inl e) \<Rightarrow> (c', Some (Inl e))
      | (c', Inr (AnsChanges changes)) \<Rightarrow>
          let c'' = c'\<lparr>dc_store := applyChanges (cg_events changes) (cg_nextSeq changes) (at (dc_requests c')) (dc_store c')\<rparr>;
              applied' = applied + length (cg_events changes) in
          if cg_hasMore changes then changes_loop fuel net clk at applied' c''
          else (c'', Some (Inr (applied', cg_nextSeq changes)))
      | (c', Inr _) \<Rightarrow> (c', Some (Inl (DirApp Internal))))"

definition sync_changes ::
  "nat \<Rightarrow> (nat \<Rightarrow> directory_answer) \<Rightarrow> (nat \<Rightarrow> int) \<Rightarrow> (nat \<Rightarrow> int) \<Rightarrow> directory_client \<Rightarrow>
   directory_client \<times> (directory_error + sync_result) option" where
  "sync_changes fuel net clk at c =
     (case changes_loop fuel net clk at 0 c of
        (c', None) \<Rightarrow> (c', None)
      | (c', Some (Inl e)) \<Rightarrow> (c', Some (Inl e))
      | (c', Some (Inr (applied, cursor))) \<Rightarrow>
          (c', Some (Inr \<lparr>sy_status = (if applied = 0 then SyncUpToDate else SyncChanges), sy_applied = applied,
                          sy_checkpoint = Some cursor, sy_resnapshot = None\<rparr>)))"

text \<open>The handler of the \<open>catch\<close> in \<open>sync\<close>: a 410 starts over from a snapshot, whose own errors are not caught again.\<close>

definition sync_catch ::
  "(nat \<Rightarrow> directory_answer) \<Rightarrow> (nat \<Rightarrow> int) \<Rightarrow> (nat \<Rightarrow> int) \<Rightarrow> directory_checkpoint option \<Rightarrow>
   directory_client \<times> (directory_error + sync_result) \<Rightarrow> directory_client \<times> (directory_error + sync_result)" where
  "sync_catch net clk at checkpoint r =
     (case r of
        (c, Inl (DirGone _)) \<Rightarrow> sync_snapshot net clk at True c
      | (c, Inl (DirApp RateLimited)) \<Rightarrow>
          (c, Inr \<lparr>sy_status = SyncRateLimited, sy_applied = 0, sy_checkpoint = map_option cp_seq checkpoint, sy_resnapshot = None\<rparr>)
      | _ \<Rightarrow> r)"

definition sync ::
  "nat \<Rightarrow> (nat \<Rightarrow> directory_answer) \<Rightarrow> (nat \<Rightarrow> int) \<Rightarrow> (nat \<Rightarrow> int) \<Rightarrow> directory_client \<Rightarrow>
   directory_client \<times> (directory_error + sync_result) option" where
  "sync fuel net clk at c =
     (let checkpoint = ds_checkpoint (dc_store c) in
      case checkpoint of
        None \<Rightarrow>
          (case sync_catch net clk at checkpoint (sync_snapshot net clk at False c) of (c', r) \<Rightarrow> (c', Some r))
      | Some _ \<Rightarrow>
          (case sync_changes fuel net clk at c of
             (c', None) \<Rightarrow> (c', None)
           | (c', Some r) \<Rightarrow> (case sync_catch net clk at checkpoint (c', r) of (c'', r') \<Rightarrow> (c'', Some r'))))"

definition ackCredential ::
  "(nat \<Rightarrow> directory_answer) \<Rightarrow> (nat \<Rightarrow> int) \<Rightarrow> directory_client \<Rightarrow> directory_client \<times> (directory_error + unit)" where
  "ackCredential net clk c = (case request net clk c of (c', r) \<Rightarrow> (c', bind_res r (\<lambda>_. Inr ())))"

definition applySatTenantAdmin :: "string \<Rightarrow> bool \<Rightarrow> int \<Rightarrow> directory_client \<Rightarrow> directory_client" where
  "applySatTenantAdmin userId tadm now c = c\<lparr>dc_store := setTenantAdmin userId tadm now (dc_store c)\<rparr>"

section \<open>Suspension\<close>

datatype directory_op =
    DirSnapshot int "directory_user list" "directory_group list" int
  | DirChanges "directory_event list" int int
  | DirTouch int
  | DirTenantAdmin string bool int
  | DirReinstate string int

fun directory_step :: "directory_store \<Rightarrow> directory_op \<Rightarrow> directory_store" where
  "directory_step st (DirSnapshot seq users groups at) = applySnapshot seq users groups at st"
| "directory_step st (DirChanges events nextSeq at) = applyChanges events nextSeq at st"
| "directory_step st (DirTouch at) = touchCheckpoint at st"
| "directory_step st (DirTenantAdmin userId b at) = setTenantAdmin userId b at st"
| "directory_step st (DirReinstate userId at) = reinstateUser userId at st"

fun reinstates :: "string \<Rightarrow> directory_op \<Rightarrow> bool" where
  "reinstates u (DirReinstate userId _) = (userId = u)"
| "reinstates u _ = False"

definition suspended :: "directory_store \<Rightarrow> string \<Rightarrow> unit option" where
  "suspended st u = (if map_option lu_localStatus (ds_users st u) = Some LocalSuspended then Some () else None)"

text \<open>Every user in a directory is one whose record carries that id.\<close>

definition directory_ok :: "directory_store \<Rightarrow> bool" where
  "directory_ok st \<longleftrightarrow> (\<forall>u x. ds_users st u = Some x \<longrightarrow> du_userId (lu_user x) = u)"

lemma toLocal_suspended: "lu_localStatus (toLocal user previous at) = LocalSuspended \<longleftrightarrow>
    du_status user = DirDisabled \<or> map_option lu_localStatus previous = Some LocalSuspended"
  by (simp add: toLocal_def Let_def)

lemma toLocal_user [simp]: "lu_user (toLocal user previous at) = user" "lu_removed (toLocal user previous at) = False"
  by (simp_all add: toLocal_def Let_def)

lemma mark_removed_simps [simp]:
  "lu_user (mark_removed at x) = lu_user x" "lu_localStatus (mark_removed at x) = LocalSuspended" "lu_removed (mark_removed at x)"
  by (simp_all add: mark_removed_def)

lemma suspended_iff: "suspended st u = Some () \<longleftrightarrow> map_option lu_localStatus (ds_users st u) = Some LocalSuspended"
  by (simp add: suspended_def)

text \<open>The users of a snapshot: the last listed record of an id, with the local status of the previous one.\<close>

lemma snapshot_listed:
  "fold (\<lambda>user m. m(du_userId user \<mapsto> f user)) users m u =
   (case List.find (\<lambda>x. du_userId x = u) (rev users) of None \<Rightarrow> m u | Some x \<Rightarrow> Some (f x))"
proof (induction users rule: rev_induct)
  case (snoc x users)
  then show ?case by simp
qed simp

lemma snapshot_user:
  "ds_users (applySnapshot seq users groups at st) u =
   (case List.find (\<lambda>x. du_userId x = u) (rev users) of
      Some x \<Rightarrow> Some (toLocal x (ds_users st u) at)
    | None \<Rightarrow> map_option (mark_removed at) (ds_users st u))"
  by (auto simp: applySnapshot_def Let_def snapshot_listed split: option.splits dest: find_SomeD)

lemma snapshot_suspended: "suspended st u = Some () \<Longrightarrow> suspended (applySnapshot seq users groups at st) u = Some ()"
  by (auto simp: suspended_iff snapshot_user toLocal_suspended split: option.splits)

lemma applyChange_suspended: "suspended st u = Some () \<Longrightarrow> suspended (applyChange at ch st) u = Some ()"
  by (cases ch) (auto simp: suspended_iff toLocal_suspended split: option.splits)

lemma changes_suspended: "suspended st u = Some () \<Longrightarrow> suspended (applyChanges events nextSeq at st) u = Some ()"
proof -
  have "suspended s u = Some () \<Longrightarrow>
      suspended (fold (\<lambda>event s. if de_seq event \<le> n then s else applyChange at (de_change event) s) events s) u = Some ()"
    for s n
    by (induction events arbitrary: s) (simp_all add: applyChange_suspended)
  then show "suspended st u = Some () \<Longrightarrow> suspended (applyChanges events nextSeq at st) u = Some ()"
    by (auto simp: applyChanges_def Let_def suspended_iff)
qed

lemma step_suspended:
  assumes "suspended st u = Some ()" and "\<not> reinstates u op"
  shows "suspended (directory_step st op) u = Some ()"
  using assms
  by (cases op) (auto simp: snapshot_suspended changes_suspended; auto simp: suspended_iff touchCheckpoint_def
      setTenantAdmin_def reinstateUser_def split: option.splits)+

interpretation suspension: write_once "\<lambda>_. True" "\<lambda>op. \<not> reinstates u op" "\<lambda>st k. if k = u then suspended st u else None" directory_step
  for u
  by unfold_locales (auto simp: step_suspended split: if_splits)

lemma applyChange_ok: "directory_ok st \<Longrightarrow> directory_ok (applyChange at ch st)"
  by (cases ch) (auto simp: directory_ok_def split: option.splits if_splits)

lemma directory_step_ok: "directory_ok st \<Longrightarrow> directory_ok (directory_step st op)"
proof (cases op)
  case (DirChanges events nextSeq at)
  have "directory_ok s \<Longrightarrow>
      directory_ok (fold (\<lambda>event s. if de_seq event \<le> n then s else applyChange at (de_change event) s) events s)" for s n
    by (induction events arbitrary: s) (simp_all add: applyChange_ok)
  moreover have "directory_ok (s\<lparr>ds_checkpoint := c\<rparr>) = directory_ok s" for s c by (simp add: directory_ok_def)
  ultimately show "directory_ok st \<Longrightarrow> ?thesis" by (simp add: DirChanges applyChanges_def Let_def)
next
  case (DirSnapshot seq users groups at)
  then show "directory_ok st \<Longrightarrow> ?thesis"
    by (auto simp: directory_ok_def snapshot_user split: option.splits dest: find_SomeD)
qed (auto simp: directory_ok_def touchCheckpoint_def setTenantAdmin_def reinstateUser_def split: option.splits if_splits)

section \<open>The change stream\<close>

text \<open>
  The abstract directory: what the application sees of users and groups, without the times of the updates, and
  the effect of one change on it.
\<close>

record directory_view =
  dv_users :: "string \<Rightarrow> (directory_user \<times> local_status \<times> bool) option"
  dv_groups :: "string \<Rightarrow> directory_group option"

definition dir_view :: "directory_store \<Rightarrow> directory_view" where
  "dir_view st = \<lparr>dv_users = (\<lambda>u. map_option (\<lambda>x. (lu_user x, lu_localStatus x, lu_removed x)) (ds_users st u)),
                  dv_groups = ds_groups st\<rparr>"

fun view_change :: "directory_change \<Rightarrow> directory_view \<Rightarrow> directory_view" where
  "view_change (UserUpsert user) v =
     v\<lparr>dv_users := (dv_users v)(du_userId user \<mapsto>
        (user,
         if du_status user = DirDisabled \<or> (\<exists>x r. dv_users v (du_userId user) = Some (x, LocalSuspended, r))
         then LocalSuspended else LocalActive,
         False))\<rparr>"
| "view_change (UserRemove userId) v =
     v\<lparr>dv_users := (dv_users v)(userId := map_option (\<lambda>(x, _). (x, LocalSuspended, True)) (dv_users v userId))\<rparr>"
| "view_change (GroupUpsert grp) v = v\<lparr>dv_groups := (dv_groups v)(dg_groupId grp \<mapsto> grp)\<rparr>"
| "view_change (GroupRemove groupId) v = v\<lparr>dv_groups := (dv_groups v)(groupId := None)\<rparr>"

lemma view_applyChange: "dir_view (applyChange at ch st) = view_change ch (dir_view st)"
proof (cases ch)
  case (UserUpsert user)
  have "(\<exists>x r. dv_users (dir_view st) (du_userId user) = Some (x, LocalSuspended, r)) \<longleftrightarrow>
      map_option lu_localStatus (ds_users st (du_userId user)) = Some LocalSuspended"
    by (auto simp: dir_view_def)
  then show ?thesis by (simp add: UserUpsert dir_view_def toLocal_def Let_def fun_eq_iff)
qed (auto simp: dir_view_def fun_eq_iff split: option.splits)

definition view_changes :: "directory_event list \<Rightarrow> directory_view \<Rightarrow> directory_view" where
  "view_changes events v = fold (\<lambda>event. view_change (de_change event)) events v"

lemma view_changes_append: "view_changes (xs @ ys) v = view_changes ys (view_changes xs v)"
  by (simp add: view_changes_def)

lemma view_applyChanges:
  "dir_view (applyChanges events nextSeq at st) =
   view_changes (filter (\<lambda>event. checkpoint_seq st < de_seq event) events) (dir_view st)"
proof -
  have "dir_view (fold (\<lambda>event s. if de_seq event \<le> n then s else applyChange at (de_change event) s) events s) =
      view_changes (filter (\<lambda>event. n < de_seq event) events) (dir_view s)" for s n
    by (induction events arbitrary: s) (simp_all add: view_changes_def view_applyChange)
  moreover have "dir_view (s\<lparr>ds_checkpoint := c\<rparr>) = dir_view s" for s c by (simp add: dir_view_def)
  ultimately show ?thesis by (simp add: applyChanges_def Let_def)
qed

lemma checkpoint_applyChanges [simp]: "checkpoint_seq (applyChanges events nextSeq at st) = nextSeq"
  by (simp add: applyChanges_def Let_def checkpoint_seq_def)

text \<open>
  Batches of a stream: \<open>(after, nextSeq, at)\<close> is the batch of the events after \<open>after\<close> up to \<open>nextSeq\<close>. The
  batches cover the stream from \<open>c\<close> on when none starts after what has been consumed.
\<close>

definition batch_events :: "directory_event list \<Rightarrow> int \<times> int \<times> int \<Rightarrow> directory_event list" where
  "batch_events stream b = (case b of (after, nextSeq, _) \<Rightarrow> filter (\<lambda>e. after < de_seq e \<and> de_seq e \<le> nextSeq) stream)"

fun covering :: "int \<Rightarrow> (int \<times> int \<times> int) list \<Rightarrow> bool" where
  "covering c [] = True"
| "covering c ((after, nextSeq, at) # bs) = (after \<le> c \<and> c \<le> nextSeq \<and> covering nextSeq bs)"

fun consumed :: "int \<Rightarrow> (int \<times> int \<times> int) list \<Rightarrow> int" where
  "consumed c [] = c"
| "consumed c ((after, nextSeq, at) # bs) = consumed nextSeq bs"

definition consume_batches :: "directory_event list \<Rightarrow> (int \<times> int \<times> int) list \<Rightarrow> directory_store \<Rightarrow> directory_store" where
  "consume_batches stream bs st =
     foldl (\<lambda>s b. applyChanges (batch_events stream b) (fst (snd b)) (snd (snd b)) s) st bs"

lemma consumed_le: "covering c bs \<Longrightarrow> c \<le> consumed c bs"
  by (induction c bs rule: covering.induct) auto

lemma filter_window_append:
  assumes "sorted (map de_seq stream)" and "c \<le> n" and "n \<le> m"
  shows "filter (\<lambda>e. c < de_seq e \<and> de_seq e \<le> n) stream @ filter (\<lambda>e. n < de_seq e \<and> de_seq e \<le> m) stream =
         filter (\<lambda>e. c < de_seq e \<and> de_seq e \<le> m) stream"
  using assms
proof (induction stream)
  case (Cons x stream)
  have "filter (\<lambda>e. c < de_seq e \<and> de_seq e \<le> n) stream = []" if "n < de_seq x"
    using Cons.prems(1) that by (auto simp: filter_empty_conv)
  with Cons show ?case by auto
qed simp

lemma consume_batches_view:
  assumes "sorted (map de_seq stream)" and "covering (checkpoint_seq st) bs"
  shows "dir_view (consume_batches stream bs st) =
           view_changes (filter (\<lambda>e. checkpoint_seq st < de_seq e \<and> de_seq e \<le> consumed (checkpoint_seq st) bs) stream) (dir_view st) \<and>
         checkpoint_seq (consume_batches stream bs st) = consumed (checkpoint_seq st) bs"
  using assms(2)
proof (induction bs arbitrary: st)
  case Nil
  have "filter (\<lambda>e. checkpoint_seq st < de_seq e \<and> de_seq e \<le> checkpoint_seq st) stream = []" by (auto simp: filter_empty_conv)
  then show ?case by (simp add: consume_batches_def view_changes_def)
next
  case (Cons b bs)
  obtain after n at where b: "b = (after, n, at)" by (cases b)
  let ?st = "applyChanges (batch_events stream b) n at st" and ?c = "checkpoint_seq st"
  have le: "after \<le> ?c" "?c \<le> n" and cov: "covering n bs" using Cons.prems b by simp_all
  have first: "dir_view ?st = view_changes (filter (\<lambda>e. ?c < de_seq e \<and> de_seq e \<le> n) stream) (dir_view st)"
  proof -
    have "filter (\<lambda>e. ?c < de_seq e) (batch_events stream b) = filter (\<lambda>e. ?c < de_seq e \<and> de_seq e \<le> n) stream"
      using le(1) by (auto simp: b batch_events_def intro: filter_cong)
    then show ?thesis by (simp add: view_applyChanges)
  qed
  have "covering (checkpoint_seq ?st) bs" using cov by simp
  from Cons.IH [OF this] first filter_window_append [OF assms(1) le(2) consumed_le [OF cov]]
  show ?case by (simp add: b consume_batches_def flip: view_changes_append)
qed

section \<open>The client's loops\<close>

lemma request_frame:
  "request net clk c = (c', r) \<Longrightarrow> dc_store c' = dc_store c \<and> dc_requests c' = Suc (dc_requests c)"
  by (auto simp: request_def Let_def split: prod.splits if_splits)

lemma request_page:
  "request net clk c = (c', Inr (AnsPage p)) \<Longrightarrow> net (dc_requests c) = AnsPage p"
  by (auto simp: request_def Let_def split: prod.splits if_splits directory_answer.splits)

text \<open>What has been read once the pages \<open>ps\<close> of the snapshot \<open>seq\<close> are there.\<close>

definition page_data :: "int \<Rightarrow> directory_page list \<Rightarrow> snapshot_data" where
  "page_data seq ps = \<lparr>sd_snapshotSeq = seq, sd_users = concat (map pg_users ps), sd_groups = concat (map pg_groups ps)\<rparr>"

definition page_acc :: "int \<Rightarrow> directory_page list \<Rightarrow> snapshot_data option" where
  "page_acc seq ps = (if ps = [] then None else Some (page_data seq ps))"

lemma page_loop_step:
  assumes "request net clk c = (c1, Inr (AnsPage p))"
  shows "page_loop net clk (Suc n) (page_acc seq ps) c =
    (if ps \<noteq> [] \<and> pg_snapshotSeq p \<noteq> seq then (c1, PagesInconsistent)
     else if pg_pageToken p = None then (c1, PagesDone (page_data (pg_snapshotSeq p) (ps @ [p])))
     else page_loop net clk n (page_acc (pg_snapshotSeq p) (ps @ [p])) c1)"
  using assms by (auto simp: page_acc_def page_data_def Let_def)

lemma page_loop_other:
  assumes "request net clk c = (c1, r)" and "\<nexists>p. r = Inr (AnsPage p)"
  shows "\<exists>e. page_loop net clk (Suc n) acc c = (c1, PagesError e)"
  using assms by (cases r) (auto split: directory_answer.splits)

lemma page_loop_frame:
  "page_loop net clk n (page_acc seq ps) c = (c', r) \<Longrightarrow>
   dc_store c' = dc_store c \<and> dc_requests c' \<le> dc_requests c + n"
proof (induction n arbitrary: seq ps c)
  case (Suc n)
  obtain c1 r1 where q: "request net clk c = (c1, r1)" by (cases "request net clk c")
  note f = request_frame [OF q]
  show ?case
  proof (cases "\<exists>p. r1 = Inr (AnsPage p)")
    case True
    then obtain p where p: "request net clk c = (c1, Inr (AnsPage p))" using q by blast
    from Suc.IH [of "pg_snapshotSeq p" "ps @ [p]" c1] Suc.prems f show ?thesis
      unfolding page_loop_step [OF p] by (auto split: if_splits)
  next
    case False
    from page_loop_other [OF q False] obtain e where "page_loop net clk (Suc n) (page_acc seq ps) c = (c1, PagesError e)"
      by blast
    with Suc.prems have "c' = c1" by (simp del: page_loop.simps)
    with f show ?thesis by simp
  qed
qed simp

lemma page_loop_pages:
  assumes "page_loop net clk n (page_acc seq ps) c = (c', PagesDone d)"
    and "\<forall>p \<in> set ps. pg_snapshotSeq p = seq" and "length ps \<le> dc_requests c"
    and "\<forall>i < length ps. net (dc_requests c - length ps + i) = AnsPage (ps ! i)"
  shows "\<exists>qs. (\<forall>p \<in> set (ps @ qs). pg_snapshotSeq p = sd_snapshotSeq d) \<and> d = page_data (sd_snapshotSeq d) (ps @ qs) \<and>
           qs \<noteq> [] \<and> pg_pageToken (last qs) = None \<and> dc_requests c' = dc_requests c + length qs \<and> length qs \<le> n \<and>
           (\<forall>i < length (ps @ qs). net (dc_requests c - length ps + i) = AnsPage ((ps @ qs) ! i))"
  using assms
proof (induction n arbitrary: seq c ps)
  case (Suc n)
  obtain c1 r1 where q: "request net clk c = (c1, r1)" by (cases "request net clk c")
  from Suc.prems(1) page_loop_other [OF q] obtain p where p: "request net clk c = (c1, Inr (AnsPage p))"
    using q by (metis page_result.distinct(11) prod.inject)
  have c1: "dc_requests c1 = Suc (dc_requests c)" using request_frame [OF p] by simp
  have net: "net (dc_requests c) = AnsPage p" using request_page [OF p] .
  note step = Suc.prems(1) [unfolded page_loop_step [OF p]]
  have same: "\<forall>x \<in> set (ps @ [p]). pg_snapshotSeq x = pg_snapshotSeq p"
    using step Suc.prems(2) by (auto split: if_splits)
  have nets: "\<forall>i < length (ps @ [p]). net (dc_requests c1 - length (ps @ [p]) + i) = AnsPage ((ps @ [p]) ! i)"
    using Suc.prems(3,4) net c1 by (auto simp: nth_append less_Suc_eq)
  show ?case
  proof (cases "pg_pageToken p = None")
    case True
    then have "c' = c1" "d = page_data (pg_snapshotSeq p) (ps @ [p])" using step by (auto split: if_splits)
    with True same c1 nets show ?thesis by (intro exI [of _ "[p]"]) (auto simp: page_data_def)
  next
    case False
    then have loop: "page_loop net clk n (page_acc (pg_snapshotSeq p) (ps @ [p])) c1 = (c', PagesDone d)"
      using step by (auto split: if_splits)
    have len: "length (ps @ [p]) \<le> dc_requests c1" using Suc.prems(3) c1 by simp
    from Suc.IH [OF loop same len nets] obtain qs where
      "\<forall>x \<in> set ((ps @ [p]) @ qs). pg_snapshotSeq x = sd_snapshotSeq d" "d = page_data (sd_snapshotSeq d) ((ps @ [p]) @ qs)"
      "qs \<noteq> []" "pg_pageToken (last qs) = None" "dc_requests c' = dc_requests c1 + length qs" "length qs \<le> n"
      "\<forall>i < length ((ps @ [p]) @ qs). net (dc_requests c1 - length (ps @ [p]) + i) = AnsPage (((ps @ [p]) @ qs) ! i)"
      by auto
    with c1 show ?thesis by (intro exI [of _ "p # qs"]) simp
  qed
qed simp

lemma page_acc_empty: "page_acc seq [] = None"
  by (simp add: page_acc_def)

lemmas page_loop_start = page_loop_frame [of _ _ _ 0 "[]", unfolded page_acc_empty]

lemma fetch_attempts_frame:
  "fetch_attempts k net clk c = (c', r) \<Longrightarrow>
   dc_store c' = dc_store c \<and> dc_requests c' \<le> dc_requests c + k * DIRECTORY_SNAPSHOT_MAX_PAGES"
proof (induction k net clk c rule: fetch_attempts.induct)
  case (2 k net clk c)
  obtain c1 r1 where l: "page_loop net clk DIRECTORY_SNAPSHOT_MAX_PAGES None c = (c1, r1)"
    by (cases "page_loop net clk DIRECTORY_SNAPSHOT_MAX_PAGES None c")
  note f = page_loop_start [OF l]
  show ?case
  proof (cases "r1 = PagesInconsistent")
    case True
    with "2.prems" l have "fetch_attempts k net clk c1 = (c', r)" by simp
    from "2.IH" [OF l [symmetric] True this] f show ?thesis by simp
  qed (use "2.prems" l f in \<open>auto split: page_result.splits\<close>)
qed simp

lemma fetch_attempts_done:
  "fetch_attempts k net clk c = (c', Inr d) \<Longrightarrow>
   \<exists>c1. page_loop net clk DIRECTORY_SNAPSHOT_MAX_PAGES None c1 = (c', PagesDone d)"
proof (induction k net clk c rule: fetch_attempts.induct)
  case (2 k net clk c)
  obtain c1 r1 where l: "page_loop net clk DIRECTORY_SNAPSHOT_MAX_PAGES None c = (c1, r1)"
    by (cases "page_loop net clk DIRECTORY_SNAPSHOT_MAX_PAGES None c")
  show ?case
  proof (cases "r1 = PagesInconsistent")
    case True
    with "2.prems" l have "fetch_attempts k net clk c1 = (c', Inr d)" by simp
    from "2.IH" [OF l [symmetric] True this] show ?thesis .
  qed (use "2.prems" l in \<open>auto split: page_result.splits\<close>)
qed simp

subsection \<open>The change loop ends within the rate limit\<close>

definition in_minute :: "int \<Rightarrow> int \<Rightarrow> bool" where
  "in_minute b t \<longleftrightarrow> b \<le> t \<and> t < b + DIRECTORY_RATE_WINDOW_MS"

lemma take_slot_count:
  assumes "take_slot limit DIRECTORY_RATE_WINDOW_MS hits t = (hits', True)" and "in_minute b t"
  shows "length (filter (in_minute b) hits') = Suc (length (filter (in_minute b) hits))"
    and "length (filter (in_minute b) hits) < limit"
proof -
  let ?recent = "filter (\<lambda>a. t - a < DIRECTORY_RATE_WINDOW_MS) hits"
  have h: "hits' = ?recent @ [t]" "length ?recent < limit"
    using assms(1) by (auto simp: take_slot_def Let_def split: if_splits)
  have keep: "filter (in_minute b) ?recent = filter (in_minute b) hits"
    using assms(2) by (induction hits) (auto simp: in_minute_def)
  show "length (filter (in_minute b) hits') = Suc (length (filter (in_minute b) hits))"
    using h(1) keep assms(2) by simp
  show "length (filter (in_minute b) hits) < limit"
    using h(2) keep length_filter_le [of "in_minute b" ?recent] by simp
qed

lemma changes_loop_ends:
  assumes "\<forall>n. in_minute b (clk n)"
    and "fuel + length (filter (in_minute b) (dc_hits c)) > DIRECTORY_RATE_MAX"
  shows "snd (changes_loop fuel net clk at applied c) \<noteq> None \<or> length (filter (in_minute b) (dc_hits c)) > DIRECTORY_RATE_MAX"
  using assms(2)
proof (induction fuel arbitrary: applied c)
  case (Suc fuel)
  obtain hits ok where t: "take_slot DIRECTORY_RATE_MAX DIRECTORY_RATE_WINDOW_MS (dc_hits c) (clk (dc_requests c)) = (hits, ok)"
    by (cases "take_slot DIRECTORY_RATE_MAX DIRECTORY_RATE_WINDOW_MS (dc_hits c) (clk (dc_requests c))")
  obtain c1 r1 where q: "request net clk c = (c1, r1)" by (cases "request net clk c")
  show ?case
  proof (cases ok)
    case False
    then have "r1 = Inl (DirApp RateLimited)" using q t by (auto simp: request_def Let_def)
    with q show ?thesis by simp
  next
    case True
    then have hits: "dc_hits c1 = hits" using q t by (auto simp: request_def Let_def)
    note n = take_slot_count [OF t [unfolded eqTrueI [OF True]] assms(1) [THEN spec]]
    show ?thesis
    proof (cases "\<exists>cg. r1 = Inr (AnsChanges cg) \<and> cg_hasMore cg")
      case True
      then obtain cg where cg: "r1 = Inr (AnsChanges cg)" "cg_hasMore cg" by blast
      let ?c = "c1\<lparr>dc_store := applyChanges (cg_events cg) (cg_nextSeq cg) (at (dc_requests c1)) (dc_store c1)\<rparr>"
      have "fuel + length (filter (in_minute b) (dc_hits ?c)) > DIRECTORY_RATE_MAX"
        "\<not> length (filter (in_minute b) (dc_hits ?c)) > DIRECTORY_RATE_MAX"
        using Suc.prems n hits by simp_all
      with Suc.IH [of ?c "applied + length (cg_events cg)"] q cg show ?thesis by (simp add: Let_def)
    next
      case False
      with q show ?thesis by (cases r1) (auto simp: Let_def split: directory_answer.splits)
    qed
  qed
qed auto

lemma changes_loop_more_fuel:
  "changes_loop fuel net clk at applied c = (c', Some r) \<Longrightarrow> changes_loop (fuel + k) net clk at applied c = (c', Some r)"
proof (induction fuel net clk at applied c rule: changes_loop.induct)
  case (2 fuel net clk at applied c)
  obtain c1 r1 where q: "request net clk c = (c1, r1)" by (cases "request net clk c")
  show ?case
  proof (cases "\<exists>cg. r1 = Inr (AnsChanges cg) \<and> cg_hasMore cg")
    case True
    then obtain cg where cg: "r1 = Inr (AnsChanges cg)" "cg_hasMore cg" by blast
    with 2 q show ?thesis by (simp add: Let_def)
  next
    case False
    with 2 q show ?thesis by (cases r1) (auto simp: Let_def split: directory_answer.splits if_splits)
  qed
qed simp

lemma changes_loop_minute:
  assumes "\<forall>n. in_minute b (clk n)"
  shows "snd (changes_loop 61 net clk at applied c) \<noteq> None"
proof (cases "length (filter (in_minute b) (dc_hits c)) < DIRECTORY_RATE_MAX")
  case True
  then show ?thesis using changes_loop_ends [OF assms, of 61 c net at applied] by (simp add: DIRECTORY_RATE_MAX_def)
next
  case False
  obtain hits ok where t: "take_slot DIRECTORY_RATE_MAX DIRECTORY_RATE_WINDOW_MS (dc_hits c) (clk (dc_requests c)) = (hits, ok)"
    by (cases "take_slot DIRECTORY_RATE_MAX DIRECTORY_RATE_WINDOW_MS (dc_hits c) (clk (dc_requests c))")
  have "\<not> ok" using False take_slot_count(2) [of DIRECTORY_RATE_MAX "dc_hits c" "clk (dc_requests c)" hits b] t assms by auto
  then have "snd (request net clk c) = Inl (DirApp RateLimited)" using t by (simp add: request_def Let_def)
  then show ?thesis by (cases "request net clk c") (simp add: numeral_eq_Suc)
qed

lemma sync_more_fuel:
  assumes "\<forall>n. in_minute b (clk n)" and "61 \<le> fuel"
  shows "sync fuel net clk at c = sync 61 net clk at c"
proof -
  obtain c' r where "changes_loop 61 net clk at 0 c = (c', Some r)"
    using changes_loop_minute [OF assms(1), of net at 0 c] by (cases "changes_loop 61 net clk at 0 c") auto
  from changes_loop_more_fuel [OF this, of "fuel - 61"] this assms(2)
  have "changes_loop fuel net clk at 0 c = changes_loop 61 net clk at 0 c" by simp
  then show ?thesis by (simp add: sync_def sync_changes_def Let_def split: option.splits)
qed

section \<open>Claims\<close>

definition demo_user :: "string \<Rightarrow> directory_status \<Rightarrow> directory_user" where
  "demo_user u s = \<lparr>du_userId = u, du_displayName = u, du_employeeNo = None, du_status = s, du_isTenantAdmin = False, du_groupIds = []\<rparr>"

text \<open>Suspension is sticky: a user who is disabled or removed in the directory, by a change or by being missing
  from a snapshot, is suspended locally, and a suspended user stays suspended through every later snapshot,
  change and administrator update, also when the directory enables the user again, until an administrator
  reinstates that user.\<close>

theorem suspended_until_reinstated:
  assumes "list_all (\<lambda>op. \<not> reinstates u op) ops"
    and "suspended st u = Some () \<or>
         (\<exists>st0 user at. st = applyChange at (UserUpsert user) st0 \<and> du_userId user = u \<and> du_status user = DirDisabled) \<or>
         (\<exists>st0 at. st = applyChange at (UserRemove u) st0 \<and> ds_users st0 u \<noteq> None) \<or>
         (\<exists>st0 seq users groups at. st = applySnapshot seq users groups at st0 \<and> ds_users st0 u \<noteq> None \<and>
            u \<notin> du_userId ` set users)"
  shows "\<exists>x. ds_users (foldl directory_step st ops) u = Some x \<and> lu_localStatus x = LocalSuspended"
proof -
  have missing: "List.find (\<lambda>x. du_userId x = u) (rev users) = None" if "u \<notin> du_userId ` set users" for users
    using that by (auto simp: find_None_iff)
  have "suspended st u = Some ()"
    using assms(2) by (auto simp: suspended_iff toLocal_suspended snapshot_user missing)
  with suspension.run_keeps [where u = u and ops = ops and s = st and k = u and v = "()"] assms(1) have "suspended (foldl directory_step st ops) u = Some ()" by simp
  then show ?thesis by (auto simp: suspended_iff)
qed

lemma suspended_until_reinstated_witness:
  "\<exists>x. ds_users (foldl directory_step (applyChange 1 (UserUpsert (demo_user ''u'' DirDisabled)) empty_directory)
       [DirChanges [\<lparr>de_seq = 5, de_change = UserUpsert (demo_user ''u'' DirActive)\<rparr>] 5 2, DirReinstate ''v'' 3]) ''u'' = Some x \<and>
     lu_localStatus x = LocalSuspended"
proof (rule suspended_until_reinstated)
  show "list_all (\<lambda>op. \<not> reinstates ''u'' op)
      [DirChanges [\<lparr>de_seq = 5, de_change = UserUpsert (demo_user ''u'' DirActive)\<rparr>] 5 2, DirReinstate ''v'' 3]" by simp
next
  have "\<exists>user. applyChange 1 (UserUpsert (demo_user ''u'' DirDisabled)) empty_directory = applyChange 1 (UserUpsert user) empty_directory \<and>
      du_userId user = ''u'' \<and> du_status user = DirDisabled"
    by (intro exI [of _ "demo_user ''u'' DirDisabled"]) (simp add: demo_user_def)
  then show "suspended (applyChange 1 (UserUpsert (demo_user ''u'' DirDisabled)) empty_directory) ''u'' = Some () \<or>
     (\<exists>st0 user at. applyChange 1 (UserUpsert (demo_user ''u'' DirDisabled)) empty_directory = applyChange at (UserUpsert user) st0 \<and>
        du_userId user = ''u'' \<and> du_status user = DirDisabled) \<or>
     (\<exists>st0 at. applyChange 1 (UserUpsert (demo_user ''u'' DirDisabled)) empty_directory = applyChange at (UserRemove ''u'') st0 \<and>
        ds_users st0 ''u'' \<noteq> None) \<or>
     (\<exists>st0 seq users groups at. applyChange 1 (UserUpsert (demo_user ''u'' DirDisabled)) empty_directory =
        applySnapshot seq users groups at st0 \<and> ds_users st0 ''u'' \<noteq> None \<and> ''u'' \<notin> du_userId ` set users)"
    by blast
qed

text \<open>C25. The change stream is consumed exactly once: when a stream of events ordered by sequence number arrives in
  batches that leave no gap but may overlap, so that events are delivered repeatedly, the directory the
  application sees is what each event after the initial checkpoint does to it once, in order, and the
  checkpoint is the end of the last batch.\<close>

theorem changes_exactly_once:
  assumes "sorted (map de_seq stream)" and "covering (checkpoint_seq st) bs"
  shows "dir_view (consume_batches stream bs st) =
           view_changes (filter (\<lambda>e. checkpoint_seq st < de_seq e \<and> de_seq e \<le> consumed (checkpoint_seq st) bs) stream) (dir_view st) \<and>
         checkpoint_seq (consume_batches stream bs st) = consumed (checkpoint_seq st) bs"
  using consume_batches_view [OF assms] .

lemma changes_exactly_once_witness:
  "let e = (\<lambda>n ch. \<lparr>de_seq = n, de_change = ch\<rparr>);
       stream = [e 1 (UserUpsert (demo_user ''u'' DirActive)), e 2 (UserRemove ''u''), e 3 (UserUpsert (demo_user ''u'' DirActive))] in
   dir_view (consume_batches stream [(0, 2, 10), (1, 3, 20)] empty_directory) =
     view_changes stream (dir_view empty_directory)"
proof -
  let ?e = "\<lambda>n ch. \<lparr>de_seq = n, de_change = ch\<rparr>"
  let ?stream = "[?e 1 (UserUpsert (demo_user ''u'' DirActive)), ?e 2 (UserRemove ''u''), ?e 3 (UserUpsert (demo_user ''u'' DirActive))]"
  have "sorted (map de_seq ?stream)" "covering (checkpoint_seq empty_directory) [(0, 2, 10), (1, 3, 20)]"
    by (simp_all add: checkpoint_seq_def empty_directory_def)
  from changes_exactly_once [OF this] show ?thesis by (simp add: checkpoint_seq_def empty_directory_def)
qed

text \<open>A snapshot is stored only when it is complete and consistent: what is stored is the concatenation of
  consecutive pages that all carry its sequence number, up to the one without a page token; at most two
  thousand requests are made for it, and when it fails in any way the local directory is left as it was.\<close>

theorem snapshot_consistent:
  "(case sync_snapshot net clk at resnapshot c of
      (c', Inl e) \<Rightarrow> dc_store c' = dc_store c
    | (c', Inr result) \<Rightarrow>
        \<exists>first pages seq. pages \<noteq> [] \<and> (\<forall>i < length pages. net (first + i) = AnsPage (pages ! i)) \<and>
          (\<forall>p \<in> set pages. pg_snapshotSeq p = seq) \<and> pg_pageToken (last pages) = None \<and>
          dc_store c' = applySnapshot seq (concat (map pg_users pages)) (concat (map pg_groups pages))
            (at (dc_requests c')) (dc_store c)) \<and>
   dc_requests (fst (sync_snapshot net clk at resnapshot c)) \<le> dc_requests c + 2000"
proof -
  obtain c' r where f: "fetchSnapshot net clk c = (c', r)" by (cases "fetchSnapshot net clk c")
  have frame: "dc_store c' = dc_store c" "dc_requests c' \<le> dc_requests c + 2000"
    using fetch_attempts_frame [of 2 net clk c c' r] f by (simp_all add: fetchSnapshot_def DIRECTORY_SNAPSHOT_MAX_PAGES_def)
  show ?thesis
  proof (cases r)
    case (Inl e)
    with f frame show ?thesis by (simp add: sync_snapshot_def)
  next
    case (Inr d)
    from fetch_attempts_done [of 2 net clk c c' d] f Inr obtain c1 where
      "page_loop net clk DIRECTORY_SNAPSHOT_MAX_PAGES (page_acc 0 []) c1 = (c', PagesDone d)"
      by (auto simp: fetchSnapshot_def page_acc_empty)
    from page_loop_pages [OF this] obtain qs where
      qs: "\<forall>p \<in> set qs. pg_snapshotSeq p = sd_snapshotSeq d" "d = page_data (sd_snapshotSeq d) qs" "qs \<noteq> []"
        "pg_pageToken (last qs) = None" "\<forall>i < length qs. net (dc_requests c1 + i) = AnsPage (qs ! i)" by auto
    have "sd_users d = concat (map pg_users qs)" "sd_groups d = concat (map pg_groups qs)"
      by (subst qs(2); simp add: page_data_def)+
    with qs f Inr frame show ?thesis by (auto simp: sync_snapshot_def intro!: exI [of _ "dc_requests c1"] exI [of _ qs])
  qed
qed

definition demo_page :: directory_page where
  "demo_page = \<lparr>pg_snapshotSeq = 7, pg_pageToken = None, pg_users = [demo_user ''u'' DirActive], pg_groups = []\<rparr>"

definition demo_client :: directory_client where
  "demo_client = \<lparr>dc_hits = [], dc_requests = 0, dc_store = empty_directory\<rparr>"

lemma snapshot_consistent_witness:
  "\<exists>c' result. sync_snapshot (\<lambda>n. AnsPage demo_page) (\<lambda>n. 0) (\<lambda>n. 5) False demo_client = (c', Inr result) \<and>
     (\<exists>(first :: nat) pages seq. pages \<noteq> [] \<and> (\<forall>i < length pages. AnsPage demo_page = AnsPage (pages ! i)) \<and>
        (\<forall>p \<in> set pages. pg_snapshotSeq p = seq) \<and> pg_pageToken (last pages) = None \<and>
        dc_store c' = applySnapshot seq (concat (map pg_users pages)) (concat (map pg_groups pages)) 5 empty_directory)"
proof -
  have ok: "(case snd (sync_snapshot (\<lambda>n. AnsPage demo_page) (\<lambda>n. 0) (\<lambda>n. 5) False demo_client) of Inl _ \<Rightarrow> False | Inr _ \<Rightarrow> True)"
    by code_simp
  then obtain c' result where s: "sync_snapshot (\<lambda>n. AnsPage demo_page) (\<lambda>n. 0) (\<lambda>n. 5) False demo_client = (c', Inr result)"
    by (cases "sync_snapshot (\<lambda>n. AnsPage demo_page) (\<lambda>n. 0) (\<lambda>n. 5) False demo_client") (auto split: sum.splits)
  have "dc_store demo_client = empty_directory" by (simp add: demo_client_def)
  note th = snapshot_consistent [where net = "\<lambda>n. AnsPage demo_page" and clk = "\<lambda>n. 0" and at = "\<lambda>n. 5" and
      resnapshot = False and c = demo_client, unfolded s prod.case sum.case this]
  show ?thesis by (rule exI, rule exI, rule conjI [OF s conjunct1 [OF th]])
qed



text \<open>
  A round that runs into the client's rate limit after some batches reports that nothing was applied and the
  checkpoint from before the round, although the applied batches and their checkpoint are in the store.
\<close>

theorem rate_limited_underreports:
  "let c = \<lparr>dc_hits = replicate 59 0, dc_requests = 0, dc_store = empty_directory\<lparr>ds_checkpoint := Some \<lparr>cp_seq = 0, cp_at = 0\<rparr>\<rparr>\<rparr>;
       net = (\<lambda>n. AnsChanges \<lparr>cg_events = [\<lparr>de_seq = 1, de_change = UserUpsert (demo_user ''u'' DirActive)\<rparr>], cg_nextSeq = 1, cg_hasMore = True\<rparr>);
       (c', r) = sync 61 net (\<lambda>n. 0) (\<lambda>n. 0) c in
     r = Some (Inr \<lparr>sy_status = SyncRateLimited, sy_applied = 0, sy_checkpoint = Some 0, sy_resnapshot = None\<rparr>) \<and>
     checkpoint_seq (dc_store c') = 1 \<and> ds_users (dc_store c') ''u'' \<noteq> None"
  by code_simp

end
