(* ===== verification/App_Jcs.thy ===== *)
theory App_Jcs
  imports App_Path
begin

text \<open>
  Canonical JSON and the strict I-JSON parser (\<^verbatim>\<open>packages/ky-app-contract/src/jcs.ts\<close>). Strings are lists of
  UTF-16 code units, as in theory \<open>App_Path\<close>.

  A number is an integer of any size (\<open>NumInt\<close>), the negative zero, a finite number that is not an integer,
  identified by the text that \<open>String\<close> gives for it (\<open>NumFrac\<close>), or not finite. Reading a literal with a
  fraction or an exponent back, \<open>Number(literal)\<close>, is the parameter \<open>read\<close>; the rounding of decimal literals
  to doubles is not modelled.

  The fields of an object are its own properties. Their order in a parsed object is the order of the text;
  the canonical form sorts them, so that it does not depend on it.
\<close>

section \<open>Values\<close>

datatype jcs_error = InvalidJson | DuplicateKey | UnsafeInteger | LoneSurrogate | NonFiniteNumber | UnsupportedType

datatype jcs_num = NumInt int | NumNegZero | NumFrac jstring | NumNonFinite

text \<open>
  \<open>VInstance\<close> is an object that is neither an array nor plain (a class instance, a \<open>Map\<close>, a \<open>Date\<close>) with its own
  properties; \<open>VUndefined\<close> is \<open>undefined\<close>, \<open>VOther\<close> a function, a symbol or a bigint.
\<close>

datatype jvalue =
    VNull | VBool bool | VNum jcs_num | VStr jstring | VArr "jvalue list" | VObj "(jstring \<times> jvalue) list"
  | VInstance "(jstring \<times> jvalue) list" | VUndefined | VOther

definition MAX_SAFE_INT :: int where
  "MAX_SAFE_INT = 9007199254740991"

definition high_surrogate :: "nat \<Rightarrow> bool" where
  "high_surrogate u \<longleftrightarrow> 0xD800 \<le> u \<and> u \<le> 0xDBFF"

definition low_surrogate :: "nat \<Rightarrow> bool" where
  "low_surrogate u \<longleftrightarrow> 0xDC00 \<le> u \<and> u \<le> 0xDFFF"

fun hasLoneSurrogate :: "jstring \<Rightarrow> bool" where
  "hasLoneSurrogate [] = False"
| "hasLoneSurrogate (u # us) =
     (if high_surrogate u
      then (case us of [] \<Rightarrow> True | n # rest \<Rightarrow> if \<not> low_surrogate n then True else hasLoneSurrogate rest)
      else if low_surrogate u then True
      else hasLoneSurrogate us)"

section \<open>The canonical form\<close>

text \<open>\<open>String(n)\<close> for an integer of at most \<open>2\<^sup>53 - 1\<close> in absolute value is its decimal text.\<close>

fun nat_text :: "nat \<Rightarrow> jstring" where
  "nat_text n = (if n < 10 then [48 + n] else nat_text (n div 10) @ [48 + n mod 10])"

declare nat_text.simps [simp del]

definition int_text :: "int \<Rightarrow> jstring" where
  "int_text n = (if n < 0 then 45 # nat_text (nat (- n)) else nat_text (nat n))"

fun serializeNumber :: "jcs_num \<Rightarrow> jcs_error + jstring" where
  "serializeNumber NumNonFinite = Inl NonFiniteNumber"
| "serializeNumber NumNegZero = Inr [48]"
| "serializeNumber (NumInt n) = (if \<bar>n\<bar> > MAX_SAFE_INT then Inl UnsafeInteger else Inr (int_text n))"
| "serializeNumber (NumFrac t) = Inr t"

text \<open>The escapes of \<open>JSON.stringify\<close> in a string without lone surrogates.\<close>

definition hex_lower :: "nat \<Rightarrow> nat" where
  "hex_lower d = (if d < 10 then 48 + d else 87 + d)"

definition escape_unit :: "nat \<Rightarrow> jstring" where
  "escape_unit u =
     (if u = 34 then [92, 34] else if u = 92 then [92, 92]
      else if u = 8 then [92, 98] else if u = 12 then [92, 102] else if u = 10 then [92, 110]
      else if u = 13 then [92, 114] else if u = 9 then [92, 116]
      else if u < 0x20 then [92, 117, 48, 48, hex_lower (u div 16), hex_lower (u mod 16)]
      else [u])"

definition serializeString :: "jstring \<Rightarrow> jcs_error + jstring" where
  "serializeString s = (if hasLoneSurrogate s then Inl LoneSurrogate else Inr (34 # concat (map escape_unit s) @ [34]))"

definition key_le :: "jstring \<times> 'a \<Rightarrow> jstring \<times> 'a \<Rightarrow> bool" where
  "key_le l r \<longleftrightarrow> fst l \<le> fst r"

lemma size_js_sort: "size_list f (js_sort le xs) = size_list f xs"
proof -
  have "size_list f (js_insert le x ys) = Suc (f x + size_list f ys)" for x ys
    by (induction ys) auto
  then show ?thesis by (induction xs) (simp_all add: js_sort_def)
qed

function (sequential) serialize :: "jvalue \<Rightarrow> jcs_error + jstring"
  and serialize_items :: "jvalue list \<Rightarrow> jcs_error + jstring list"
  and serialize_fields :: "(jstring \<times> jvalue) list \<Rightarrow> jcs_error + jstring list" where
  "serialize VNull = Inr (units ''null'')"
| "serialize (VBool b) = Inr (if b then units ''true'' else units ''false'')"
| "serialize (VNum n) = serializeNumber n"
| "serialize (VStr s) = serializeString s"
| "serialize (VArr items) =
     bind_res (serialize_items items) (\<lambda>parts. Inr (91 # join_with [44] parts @ [93]))"
| "serialize (VObj fs) =
     bind_res (serialize_fields (js_sort key_le fs)) (\<lambda>parts. Inr (123 # join_with [44] parts @ [125]))"
| "serialize (VInstance fs) = Inl UnsupportedType"
| "serialize VUndefined = Inl UnsupportedType"
| "serialize VOther = Inl UnsupportedType"
| "serialize_items [] = Inr []"
| "serialize_items (v # vs) =
     bind_res (serialize v) (\<lambda>p. bind_res (serialize_items vs) (\<lambda>ps. Inr (p # ps)))"
| "serialize_fields [] = Inr []"
| "serialize_fields ((key, item) # fs) =
     (if item = VUndefined then Inl UnsupportedType
      else bind_res (serializeString key) (\<lambda>k.
           bind_res (serialize item) (\<lambda>v.
           bind_res (serialize_fields fs) (\<lambda>ps. Inr ((k @ 58 # v) # ps)))))"
  by pat_completeness auto

termination
  by (relation "measure (\<lambda>x. case x of Inl v \<Rightarrow> 2 * size v | Inr (Inl vs) \<Rightarrow> Suc (2 * size_list size vs)
        | Inr (Inr fs) \<Rightarrow> Suc (2 * size_list (size_prod (\<lambda>_. 0) size) fs))")
    (auto simp: size_js_sort)

definition canonicalize :: "jvalue \<Rightarrow> jcs_error + jstring" where
  "canonicalize v = serialize v"

section \<open>The parser\<close>

text \<open>
  The parser works on the text from its index on. \<open>skipWhitespace\<close> drops spaces, tabs and line ends.
\<close>

definition is_ws :: "nat \<Rightarrow> bool" where
  "is_ws u \<longleftrightarrow> u = 32 \<or> u = 9 \<or> u = 10 \<or> u = 13"

definition skipWhitespace :: "jstring \<Rightarrow> jstring" where
  "skipWhitespace s = dropWhile is_ws s"

definition expect_unit :: "nat \<Rightarrow> jstring \<Rightarrow> jcs_error + jstring" where
  "expect_unit c s = (case s of u # rest \<Rightarrow> if u = c then Inr rest else Inl InvalidJson | [] \<Rightarrow> Inl InvalidJson)"

definition parseLiteral :: "jstring \<Rightarrow> jvalue \<Rightarrow> jstring \<Rightarrow> jcs_error + jvalue \<times> jstring" where
  "parseLiteral lit v s = (if take (length lit) s = lit then Inr (v, drop (length lit) s) else Inl InvalidJson)"

definition ESCAPES :: "nat \<Rightarrow> nat option" where
  "ESCAPES u =
     (if u = 34 then Some 34 else if u = 92 then Some 92 else if u = 47 then Some 47 else if u = 98 then Some 8
      else if u = 102 then Some 12 else if u = 110 then Some 10 else if u = 114 then Some 13
      else if u = 116 then Some 9 else None)"

definition hex4 :: "nat \<Rightarrow> nat \<Rightarrow> nat \<Rightarrow> nat \<Rightarrow> nat option" where
  "hex4 a b c d =
     (case (hex_value a, hex_value b, hex_value c, hex_value d) of
        (Some w, Some x, Some y, Some z) \<Rightarrow> Some (((w * 16 + x) * 16 + y) * 16 + z)
      | _ \<Rightarrow> None)"

text \<open>The loop of \<open>parseString\<close> after the opening quote.\<close>

fun string_loop :: "jstring \<Rightarrow> jstring \<Rightarrow> jcs_error + jstring \<times> jstring" where
  "string_loop out [] = Inl InvalidJson"
| "string_loop out (u # s) =
     (if u = 34 then if hasLoneSurrogate out then Inl LoneSurrogate else Inr (out, s)
      else if u = 92 then
        (case s of
           [] \<Rightarrow> Inl InvalidJson
         | e # s' \<Rightarrow>
             if e = 117 then
               (case s' of
                  a # b # c # d # s'' \<Rightarrow>
                    (case hex4 a b c d of None \<Rightarrow> Inl InvalidJson | Some n \<Rightarrow> string_loop (out @ [n]) s'')
                | _ \<Rightarrow> Inl InvalidJson)
             else (case ESCAPES e of None \<Rightarrow> Inl InvalidJson | Some n \<Rightarrow> string_loop (out @ [n]) s'))
      else if u < 0x20 then Inl InvalidJson
      else string_loop (out @ [u]) s)"

definition parseString :: "jstring \<Rightarrow> jcs_error + jstring \<times> jstring" where
  "parseString s = bind_res (expect_unit 34 s) (string_loop [])"

text \<open>The literal of a number: its text, whether it is an integer literal, and what follows.\<close>

definition digits_of :: "jstring \<Rightarrow> jstring" where
  "digits_of s = takeWhile is_digit s"

definition after_digits :: "jstring \<Rightarrow> jstring" where
  "after_digits s = dropWhile is_digit s"

fun scan_int :: "jstring \<Rightarrow> jcs_error + jstring \<times> jstring" where
  "scan_int [] = Inl InvalidJson"
| "scan_int (u # s) =
     (if u = 48 then Inr ([48], s)
      else if is_digit u then Inr (digits_of (u # s), after_digits (u # s))
      else Inl InvalidJson)"

text \<open>A part introduced by a mark (the point, or the exponent letter with an optional sign) and at least one digit.\<close>

definition scan_digits :: "jstring \<Rightarrow> jstring \<Rightarrow> jcs_error + jstring \<times> jstring" where
  "scan_digits mark s = (if digits_of s = [] then Inl InvalidJson else Inr (mark @ digits_of s, after_digits s))"

definition scan_frac :: "jstring \<Rightarrow> jcs_error + jstring \<times> jstring" where
  "scan_frac s = (case s of u # s' \<Rightarrow> if u = 46 then scan_digits [46] s' else Inr ([], s) | [] \<Rightarrow> Inr ([], s))"

definition scan_exp :: "jstring \<Rightarrow> jcs_error + jstring \<times> jstring" where
  "scan_exp s =
     (case s of
        u # s' \<Rightarrow>
          if u = 101 \<or> u = 69
          then (case s' of
                  v # s'' \<Rightarrow> if v = 43 \<or> v = 45 then scan_digits [u, v] s'' else scan_digits [u] s'
                | [] \<Rightarrow> scan_digits [u] s')
          else Inr ([], s)
      | [] \<Rightarrow> Inr ([], s))"

definition scan_sign :: "jstring \<Rightarrow> jstring \<times> jstring" where
  "scan_sign s = (case s of u # s' \<Rightarrow> if u = 45 then ([45], s') else ([], s) | [] \<Rightarrow> ([], s))"

definition scan_number :: "jstring \<Rightarrow> jcs_error + (jstring \<times> bool) \<times> jstring" where
  "scan_number s =
     (case scan_sign s of
        (sign, s0) \<Rightarrow>
          bind_res (scan_int s0) (\<lambda>(ip, s1).
          bind_res (scan_frac s1) (\<lambda>(fp, s2).
          bind_res (scan_exp s2) (\<lambda>(ep, s3).
          Inr ((sign @ ip @ fp @ ep, fp = [] \<and> ep = []), s3)))))"

text \<open>\<open>BigInt(literal)\<close> for an integer literal.\<close>

definition digits_value :: "jstring \<Rightarrow> nat" where
  "digits_value s = foldl (\<lambda>n u. 10 * n + (u - 48)) 0 s"

definition literal_int :: "jstring \<Rightarrow> int" where
  "literal_int s = (case scan_sign s of (sign, ds) \<Rightarrow> if sign = [] then int (digits_value ds) else - int (digits_value ds))"

definition parseNumber :: "(jstring \<Rightarrow> jcs_num) \<Rightarrow> jstring \<Rightarrow> jcs_error + jvalue \<times> jstring" where
  "parseNumber read s =
     bind_res (scan_number s) (\<lambda>((literal, isInteger), rest).
       if isInteger then
         (let n = literal_int literal in
          if n > MAX_SAFE_INT \<or> n < - MAX_SAFE_INT then Inl UnsafeInteger
          else Inr (VNum (if n = 0 \<and> fst (scan_sign literal) \<noteq> [] then NumNegZero else NumInt n), rest))
       else (let value = read literal in
             if value = NumNonFinite then Inl NonFiniteNumber else Inr (VNum value, rest)))"

text \<open>
  The recursive part runs with fuel; \<open>None\<close> means that it ran out, which \<open>parse_fuel\<close> below excludes for the
  fuel that \<open>parseIJson\<close> gives.
\<close>

type_synonym 'a parsed = "(jcs_error + 'a \<times> jstring) option"

definition bind_parsed ::
  "('e + 'a \<times> jstring) option \<Rightarrow> ('a \<Rightarrow> jstring \<Rightarrow> ('e + 'b \<times> jstring) option) \<Rightarrow> ('e + 'b \<times> jstring) option" where
  "bind_parsed p f = (case p of None \<Rightarrow> None | Some (Inl e) \<Rightarrow> Some (Inl e) | Some (Inr (x, rest)) \<Rightarrow> f x rest)"

lemma bind_parsed_cong [fundef_cong]:
  assumes "p = p'" and "\<And>x rest. p' = Some (Inr (x, rest)) \<Longrightarrow> f x rest = f' x rest"
  shows "bind_parsed p f = bind_parsed p' f'"
  using assms by (auto simp: bind_parsed_def split: option.splits sum.splits)

text \<open>
  The head of a field: the key, which must be new, and the colon. After a field or an item, \<open>parse_more\<close> reads
  a comma (there is more) or the closing bracket. \<open>parse_empty\<close> recognises the bracket right after the opening one.
\<close>

definition parse_key :: "(jstring \<times> jvalue) list \<Rightarrow> jstring \<Rightarrow> jcs_error + jstring \<times> jstring" where
  "parse_key out s =
     bind_res (parseString (skipWhitespace s)) (\<lambda>(key, s1).
     if key \<in> fst ` set out then Inl DuplicateKey
     else bind_res (expect_unit 58 (skipWhitespace s1)) (\<lambda>s2. Inr (key, s2)))"

definition parse_more :: "nat \<Rightarrow> jstring \<Rightarrow> jcs_error + bool \<times> jstring" where
  "parse_more close s =
     (case skipWhitespace s of
        [] \<Rightarrow> Inl InvalidJson
      | u # s' \<Rightarrow> if u = 44 then Inr (True, s') else if u = close then Inr (False, s') else Inl InvalidJson)"

definition parse_empty :: "nat \<Rightarrow> jstring \<Rightarrow> jstring option" where
  "parse_empty close s = (case skipWhitespace s of [] \<Rightarrow> None | u # s' \<Rightarrow> if u = close then Some s' else None)"

fun parse_value :: "(jstring \<Rightarrow> jcs_num) \<Rightarrow> nat \<Rightarrow> jstring \<Rightarrow> jvalue parsed"
  and parse_fields :: "(jstring \<Rightarrow> jcs_num) \<Rightarrow> nat \<Rightarrow> (jstring \<times> jvalue) list \<Rightarrow> jstring \<Rightarrow> jvalue parsed"
  and parse_items :: "(jstring \<Rightarrow> jcs_num) \<Rightarrow> nat \<Rightarrow> jvalue list \<Rightarrow> jstring \<Rightarrow> jvalue parsed" where
  "parse_value read 0 s = None"
| "parse_value read (Suc n) s =
     (case skipWhitespace s of
        [] \<Rightarrow> Some (Inl InvalidJson)
      | u # rest \<Rightarrow>
          if u = 123 then
            (case parse_empty 125 rest of Some rest' \<Rightarrow> Some (Inr (VObj [], rest')) | None \<Rightarrow> parse_fields read n [] rest)
          else if u = 91 then
            (case parse_empty 93 rest of Some rest' \<Rightarrow> Some (Inr (VArr [], rest')) | None \<Rightarrow> parse_items read n [] rest)
          else if u = 34 then
            Some (bind_res (parseString (u # rest)) (\<lambda>(str, rest'). Inr (VStr str, rest')))
          else if u = 116 then Some (parseLiteral (units ''true'') (VBool True) (u # rest))
          else if u = 102 then Some (parseLiteral (units ''false'') (VBool False) (u # rest))
          else if u = 110 then Some (parseLiteral (units ''null'') VNull (u # rest))
          else if u = 45 \<or> is_digit u then Some (parseNumber read (u # rest))
          else Some (Inl InvalidJson))"
| "parse_fields read 0 out s = None"
| "parse_fields read (Suc n) out s =
     bind_parsed (Some (parse_key out s)) (\<lambda>key s1.
     bind_parsed (parse_value read n s1) (\<lambda>value s2.
     bind_parsed (Some (parse_more 125 s2)) (\<lambda>more s3.
       if more then parse_fields read n (out @ [(key, value)]) s3 else Some (Inr (VObj (out @ [(key, value)]), s3)))))"
| "parse_items read 0 out s = None"
| "parse_items read (Suc n) out s =
     bind_parsed (parse_value read n s) (\<lambda>value s1.
     bind_parsed (Some (parse_more 93 s1)) (\<lambda>more s2.
       if more then parse_items read n (out @ [value]) s2 else Some (Inr (VArr (out @ [value]), s2))))"

definition parseIJson_fuel :: "nat \<Rightarrow> (jstring \<Rightarrow> jcs_num) \<Rightarrow> jstring \<Rightarrow> (jcs_error + jvalue) option" where
  "parseIJson_fuel fuel read text =
     (case parse_value read fuel text of
        None \<Rightarrow> None
      | Some (Inl e) \<Rightarrow> Some (Inl e)
      | Some (Inr (v, rest)) \<Rightarrow> Some (if skipWhitespace rest = [] then Inr v else Inl InvalidJson))"

definition parseIJson :: "(jstring \<Rightarrow> jcs_num) \<Rightarrow> jstring \<Rightarrow> jcs_error + jvalue" where
  "parseIJson read text =
     (case parseIJson_fuel (2 * length text + 2) read text of None \<Rightarrow> Inl InvalidJson | Some r \<Rightarrow> r)"

definition canonicalizeText :: "(jstring \<Rightarrow> jcs_num) \<Rightarrow> jstring \<Rightarrow> jcs_error + jstring" where
  "canonicalizeText read text = bind_res (parseIJson read text) canonicalize"

section \<open>The parser ends\<close>

lemma skip_length: "length (skipWhitespace s) \<le> length s"
  by (simp add: skipWhitespace_def length_dropWhile_le)

lemma skip_ws [simp]: "s = [] \<or> \<not> is_ws (hd s) \<Longrightarrow> skipWhitespace s = s"
  by (cases s) (auto simp: skipWhitespace_def)

lemma string_loop_length: "string_loop out s = Inr (str, rest) \<Longrightarrow> length rest < length s"
proof (induction s arbitrary: out rule: length_induct)
  case (1 s)
  then have IH: "length s' < length s \<Longrightarrow> string_loop o' s' = Inr (str, rest) \<Longrightarrow> length rest < length s'" for s' o'
    by blast
  show ?case
  proof (cases s)
    case (Cons u t)
    with "1.prems" show ?thesis
      by (auto split: if_splits list.splits option.splits dest!: IH [rotated])
  qed (use "1.prems" in simp)
qed

lemma parseString_length: "parseString s = Inr (str, rest) \<Longrightarrow> Suc (length rest) < length s"
  by (auto simp: parseString_def expect_unit_def bind_res_Inr_iff split: list.splits if_splits dest!: string_loop_length)

lemma scan_digits_length: "scan_digits mark s = Inr (ds, rest) \<Longrightarrow> length rest \<le> length s"
  by (auto simp: scan_digits_def after_digits_def length_dropWhile_le split: if_splits)

lemma scan_parts_length:
  "scan_int s = Inr (p, rest) \<Longrightarrow> length rest < length s"
  "scan_frac s = Inr (p, rest) \<Longrightarrow> length rest \<le> length s"
  "scan_exp s = Inr (p, rest) \<Longrightarrow> length rest \<le> length s"
proof -
  show "scan_int s = Inr (p, rest) \<Longrightarrow> length rest < length s"
    using length_dropWhile_le [of is_digit "tl s"] by (cases s) (auto simp: after_digits_def split: if_splits)
  show "scan_frac s = Inr (p, rest) \<Longrightarrow> length rest \<le> length s"
    by (auto simp: scan_frac_def split: list.splits if_splits dest!: scan_digits_length)
  show "scan_exp s = Inr (p, rest) \<Longrightarrow> length rest \<le> length s"
    by (auto simp: scan_exp_def split: list.splits if_splits dest!: scan_digits_length)
qed

lemma scan_number_length:
  assumes "scan_number s = Inr (l, rest)"
  shows "length rest < length s"
proof -
  obtain sign s0 where s: "scan_sign s = (sign, s0)" by (cases "scan_sign s")
  have "length s0 \<le> length s" using s by (auto simp: scan_sign_def split: list.splits if_splits)
  moreover from assms s obtain ip s1 fp s2 ep where
    "scan_int s0 = Inr (ip, s1)" "scan_frac s1 = Inr (fp, s2)" "scan_exp s2 = Inr (ep, rest)"
    by (auto simp: scan_number_def bind_res_Inr_iff)
  note scan_parts_length(1) [OF this(1)] scan_parts_length(2) [OF this(2)] scan_parts_length(3) [OF this(3)]
  ultimately show ?thesis by simp
qed

lemma parseNumber_length: "parseNumber read s = Inr (v, rest) \<Longrightarrow> length rest < length s"
  by (auto simp: parseNumber_def bind_res_Inr_iff Let_def split: if_splits dest!: scan_number_length)

lemma parseLiteral_length:
  assumes "parseLiteral lit v s = Inr (w, rest)" and "lit \<noteq> []"
  shows "length rest < length s"
proof -
  have "take (length lit) s = lit" and "rest = drop (length lit) s"
    using assms(1) by (auto simp: parseLiteral_def split: if_splits)
  moreover from this(1) assms(2) have "s \<noteq> []" by auto
  ultimately show ?thesis using assms(2) by simp
qed

lemma bind_parsed_Some: "bind_parsed p f = Some (Inr y) \<longleftrightarrow> (\<exists>x rest. p = Some (Inr (x, rest)) \<and> f x rest = Some (Inr y))"
  by (auto simp: bind_parsed_def split: option.splits sum.splits)

lemma bind_parsed_None: "bind_parsed p f = None \<longleftrightarrow> p = None \<or> (\<exists>x rest. p = Some (Inr (x, rest)) \<and> f x rest = None)"
  by (auto simp: bind_parsed_def split: option.splits sum.splits)

lemma units_ne: "units ''true'' \<noteq> []" "units ''false'' \<noteq> []" "units ''null'' \<noteq> []"
  by (simp_all add: units_def)

lemma skip_Cons_length: "skipWhitespace s = u # t \<Longrightarrow> length t < length s"
  using skip_length [of s] by simp

lemma parse_key_length: "parse_key out s = Inr (key, rest) \<Longrightarrow> length rest + 2 < length s"
proof -
  assume "parse_key out s = Inr (key, rest)"
  then obtain s1 where p: "parseString (skipWhitespace s) = Inr (key, s1)" "expect_unit 58 (skipWhitespace s1) = Inr rest"
    by (auto simp: parse_key_def bind_res_Inr_iff split: if_splits)
  have "length rest < length s1"
    using p(2) skip_length [of s1] by (auto simp: expect_unit_def split: list.splits if_splits)
  with parseString_length [OF p(1)] skip_length [of s] show "length rest + 2 < length s" by simp
qed

lemma parse_more_length: "parse_more close s = Inr (more, rest) \<Longrightarrow> length rest < length s"
  by (auto simp: parse_more_def split: list.splits if_splits dest: skip_Cons_length)

lemma parse_empty_length: "parse_empty close s = Some rest \<Longrightarrow> length rest < length s"
  by (auto simp: parse_empty_def split: list.splits if_splits dest: skip_Cons_length)

lemmas parse_leaf_length = parseString_length parseLiteral_length [OF _ units_ne(1)] parseLiteral_length [OF _ units_ne(2)]
  parseLiteral_length [OF _ units_ne(3)] parseNumber_length

lemma parse_length:
  "parse_value read n s = Some (Inr (v, rest)) \<Longrightarrow> length rest < length s"
  "parse_fields read n fs s = Some (Inr (v, rest)) \<Longrightarrow> length rest < length s"
  "parse_items read n vs s = Some (Inr (v, rest)) \<Longrightarrow> length rest < length s"
proof (induction n arbitrary: s v rest fs vs)
  case (Suc n)
  {
    case 1
    then obtain u t where s: "skipWhitespace s = u # t" by (auto split: list.splits)
    have t: "length t < length s" by (rule skip_Cons_length [OF s])
    consider "u = 123" | "u = 91" | "u \<noteq> 123" "u \<noteq> 91" by blast
    then show ?case
    proof cases
      assume "u = 123"
      with 1 s t Suc(2) [of "[]" t] show ?thesis by (force split: option.splits dest: parse_empty_length)
    next
      assume "u = 91"
      with 1 s t Suc(3) [of "[]" t] show ?thesis by (force split: option.splits dest: parse_empty_length)
    next
      assume "u \<noteq> 123" "u \<noteq> 91"
      with 1 s t show ?thesis by (auto split: if_splits simp: bind_res_Inr_iff dest!: parse_leaf_length)
    qed
  next
    case 2
    then show ?case
      by (auto simp: bind_parsed_Some split: if_splits dest!: parse_key_length parse_more_length Suc)
  next
    case 3
    then show ?case
      by (auto simp: bind_parsed_Some split: if_splits dest!: parse_more_length Suc)
  }
qed simp_all

lemma parse_fuel:
  "2 * length s < n \<Longrightarrow> parse_value read n s \<noteq> None"
  "2 * length s < n \<Longrightarrow> parse_fields read n fs s \<noteq> None"
  "2 * length s + 1 < n \<Longrightarrow> parse_items read n vs s \<noteq> None"
proof (induction n arbitrary: s fs vs)
  case (Suc n)
  {
    case 1
    show ?case
    proof (cases "skipWhitespace s")
      case (Cons u t)
      have t: "length t < length s" by (rule skip_Cons_length [OF Cons])
      with 1 Cons Suc(2) [of t "[]"] Suc(3) [of t "[]"] show ?thesis by (auto split: option.splits)
    qed simp
  next
    case 2
    show ?case
    proof
      assume "parse_fields read (Suc n) fs s = None"
      then consider key s1 where "parse_key fs s = Inr (key, s1)" "parse_value read n s1 = None"
        | key s1 val s2 s3 where "parse_key fs s = Inr (key, s1)" "parse_value read n s1 = Some (Inr (val, s2))"
          "parse_more 125 s2 = Inr (True, s3)" "parse_fields read n (fs @ [(key, val)]) s3 = None"
        by (auto simp: bind_parsed_None split: if_splits)
      then show False
      proof cases
        case 1
        then show ?thesis using Suc(1) [of s1] 2 parse_key_length [OF 1(1)] by simp
      next
        case (2 key s1 val s2 s3)
        have "length s3 < length s"
          using parse_key_length [OF 2(1)] parse_length(1) [OF 2(2)] parse_more_length [OF 2(3)] by simp
        then show ?thesis using Suc(2) [of s3 "fs @ [(key, val)]"] 2(4) \<open>2 * length s < Suc n\<close> by simp
      qed
    qed
  next
    case 3
    show ?case
    proof
      assume "parse_items read (Suc n) vs s = None"
      then consider "parse_value read n s = None"
        | val s1 s2 where "parse_value read n s = Some (Inr (val, s1))"
          "parse_more 93 s1 = Inr (True, s2)" "parse_items read n (vs @ [val]) s2 = None"
        by (auto simp: bind_parsed_None split: if_splits)
      then show False
      proof cases
        case 1
        then show ?thesis using Suc(1) [of s] 3 by simp
      next
        case (2 val s1 s2)
        have "length s2 + 1 < length s" using parse_length(1) [OF 2(1)] parse_more_length [OF 2(2)] by simp
        then show ?thesis using Suc(3) [of s2 "vs @ [val]"] 2(3) 3 by simp
      qed
    qed
  }
qed simp_all

section \<open>Reading back what was printed\<close>

text \<open>What may follow a number without extending it.\<close>

definition follows :: "jstring \<Rightarrow> bool" where
  "follows rest \<longleftrightarrow> rest = [] \<or> (\<not> is_digit (hd rest) \<and> hd rest \<notin> {46, 101, 69})"

subsection \<open>Numbers\<close>

lemma nat_text_digits: "list_all is_digit (nat_text n) \<and> nat_text n \<noteq> [] \<and> (hd (nat_text n) = 48 \<longrightarrow> n = 0)"
proof (induction n rule: nat_text.induct)
  case (1 n)
  show ?case
  proof (cases "n < 10")
    case True
    then show ?thesis by (simp add: nat_text.simps is_digit_def)
  next
    case False
    then have "nat_text n = nat_text (n div 10) @ [48 + n mod 10]" by (subst nat_text.simps) simp
    moreover have "is_digit (48 + n mod 10)" by (simp add: is_digit_def)
    ultimately show ?thesis using 1 False by auto
  qed
qed

lemma digits_value_snoc: "digits_value (ds @ [u]) = 10 * digits_value ds + (u - 48)"
  by (simp add: digits_value_def)

lemma digits_value_nat_text: "digits_value (nat_text n) = n"
proof (induction n rule: nat_text.induct)
  case (1 n)
  show ?case
  proof (cases "n < 10")
    case True
    then show ?thesis by (simp add: nat_text.simps digits_value_def)
  next
    case False
    then have "nat_text n = nat_text (n div 10) @ [48 + n mod 10]" by (subst nat_text.simps) simp
    with 1 False show ?thesis by (simp add: digits_value_snoc)
  qed
qed

lemma digits_append: "follows rest \<Longrightarrow> digits_of (s @ rest) = digits_of s \<and> after_digits (s @ rest) = after_digits s @ rest"
  by (induction s) (cases rest; auto simp: digits_of_def after_digits_def follows_def)+

lemma digits_all: "list_all is_digit ds \<Longrightarrow> digits_of ds = ds \<and> after_digits ds = []"
  by (auto simp: digits_of_def after_digits_def list_all_iff)

lemma scan_sign_append: "s \<noteq> [] \<Longrightarrow> scan_sign (s @ rest) = (fst (scan_sign s), snd (scan_sign s) @ rest)"
  by (cases s) (auto simp: scan_sign_def)

lemma scan_int_append: "scan_int s = Inr (p, t) \<Longrightarrow> follows rest \<Longrightarrow> scan_int (s @ rest) = Inr (p, t @ rest)"
  using digits_append [of rest s] by (cases s) (auto split: if_splits)

lemma scan_digits_append: "scan_digits m s = Inr (p, t) \<Longrightarrow> follows rest \<Longrightarrow> scan_digits m (s @ rest) = Inr (p, t @ rest)"
  using digits_append [of rest s] by (auto simp: scan_digits_def split: if_splits)

lemma scan_frac_append: "scan_frac s = Inr (p, t) \<Longrightarrow> follows rest \<Longrightarrow> scan_frac (s @ rest) = Inr (p, t @ rest)"
  by (cases s; cases rest) (auto simp: scan_frac_def follows_def scan_digits_append split: if_splits)

lemma scan_exp_append:
  assumes "scan_exp s = Inr (p, t)" and f: "follows rest"
  shows "scan_exp (s @ rest) = Inr (p, t @ rest)"
proof (cases s)
  case Nil
  with assms show ?thesis by (cases rest) (auto simp: scan_exp_def follows_def)
next
  case (Cons u s')
  show ?thesis
  proof (cases s')
    case Nil
    with assms Cons show ?thesis by (auto simp: scan_exp_def scan_digits_def digits_of_def split: if_splits)
  next
    case (Cons v s'')
    with assms \<open>s = u # s'\<close> scan_digits_append [OF _ f, of "[u, v]" s''] scan_digits_append [OF _ f, of "[u]" s']
    show ?thesis by (auto simp: scan_exp_def split: if_splits)
  qed
qed

lemma scan_number_append:
  assumes "scan_number s = Inr (l, t)" and f: "follows rest"
  shows "scan_number (s @ rest) = Inr (l, t @ rest)"
proof -
  obtain sign s0 where s: "scan_sign s = (sign, s0)" by (cases "scan_sign s")
  with assms obtain ip s1 fp s2 ep where p: "scan_int s0 = Inr (ip, s1)" "scan_frac s1 = Inr (fp, s2)" "scan_exp s2 = Inr (ep, t)"
    and l: "l = (sign @ ip @ fp @ ep, fp = [] \<and> ep = [])"
    by (auto simp: scan_number_def bind_res_Inr_iff)
  have "s \<noteq> []" using s p(1) by (auto simp: scan_sign_def)
  with s p l show ?thesis
    by (simp add: scan_number_def scan_sign_append scan_int_append [OF _ f] scan_frac_append [OF _ f] scan_exp_append [OF _ f])
qed

lemma scan_nat_text: "scan_int (nat_text n) = Inr (nat_text n, [])"
proof -
  obtain u ds where t: "nat_text n = u # ds" using nat_text_digits [of n] by (cases "nat_text n") auto
  have "ds = []" if "u = 48" using nat_text_digits [of n] t that by (auto simp: nat_text.simps)
  with t nat_text_digits [of n] digits_all [of "nat_text n"] show ?thesis by auto
qed

lemma nat_text_sign: "scan_sign (nat_text n) = ([], nat_text n)"
  using nat_text_digits [of n] by (cases "nat_text n") (auto simp: scan_sign_def is_digit_def)

lemma scan_int_text: "scan_number (int_text n) = Inr ((int_text n, True), [])"
  using scan_nat_text nat_text_sign
  by (auto simp: int_text_def scan_number_def scan_sign_def scan_frac_def scan_exp_def split: prod.splits)

lemma literal_int_text: "literal_int (int_text n) = n" "fst (scan_sign (int_text n)) \<noteq> [] \<Longrightarrow> n < 0"
proof -
  have neg: "scan_sign (45 # ds) = ([45], ds)" for ds by (simp add: scan_sign_def)
  show "literal_int (int_text n) = n"
    by (cases "n < 0") (simp_all add: int_text_def literal_int_def neg nat_text_sign digits_value_nat_text)
  show "fst (scan_sign (int_text n)) \<noteq> [] \<Longrightarrow> n < 0"
    by (cases "n < 0") (simp_all add: int_text_def nat_text_sign)
qed

lemma parse_int_text:
  assumes "\<not> \<bar>n\<bar> > MAX_SAFE_INT" and "follows rest"
  shows "parseNumber read (int_text n @ rest) = Inr (VNum (NumInt n), rest)"
  using assms scan_number_append [OF scan_int_text assms(2), of n] literal_int_text [of n]
  by (auto simp: parseNumber_def Let_def)

text \<open>A text of a number that is not an integer is read back by \<open>Number\<close> as that number.\<close>

definition frac_ok :: "(jstring \<Rightarrow> jcs_num) \<Rightarrow> jstring \<Rightarrow> bool" where
  "frac_ok read t \<longleftrightarrow> scan_number t = Inr ((t, False), []) \<and> read t = NumFrac t"

lemma parse_frac:
  assumes "frac_ok read t" and "follows rest"
  shows "parseNumber read (t @ rest) = Inr (VNum (NumFrac t), rest)"
  using assms(1) scan_number_append [OF _ assms(2), of t "(t, False)" "[]"]
  by (auto simp: frac_ok_def parseNumber_def Let_def)

lemma scan_number_first: "scan_number s = Inr (l, t) \<Longrightarrow> s \<noteq> [] \<and> (hd s = 45 \<or> is_digit (hd s))"
  by (cases s) (auto simp: scan_number_def scan_sign_def bind_res_Inr_iff is_digit_def split: if_splits)

subsection \<open>Strings\<close>

lemma hex_value_lower: "d < 16 \<Longrightarrow> hex_value (hex_lower d) = Some d"
  by (auto simp: hex_value_def hex_lower_def is_digit_def)

lemma string_loop_escape:
  "string_loop out (escape_unit u @ s) = string_loop (out @ [u]) s"
proof -
  consider "u \<in> {34, 92, 8, 12, 10, 13, 9}" | "u \<notin> {34, 92, 8, 12, 10, 13, 9}" "u < 32" | "u \<notin> {34, 92}" "\<not> u < 32"
    by auto
  then show ?thesis
  proof cases
    case 1
    then show ?thesis by (auto simp: escape_unit_def ESCAPES_def)
  next
    case 2
    have "hex_value 48 = Some 0" by (simp add: hex_value_def is_digit_def)
    moreover have "hex_value (hex_lower (u div 16)) = Some (u div 16)" "hex_value (hex_lower (u mod 16)) = Some (u mod 16)"
      using 2 by (auto intro!: hex_value_lower)
    ultimately have "hex4 48 48 (hex_lower (u div 16)) (hex_lower (u mod 16)) = Some u" by (simp add: hex4_def)
    with 2 show ?thesis by (simp add: escape_unit_def)
  next
    case 3
    then show ?thesis by (auto simp: escape_unit_def)
  qed
qed

lemma string_loop_escapes:
  "string_loop out (concat (map escape_unit s) @ 34 # rest) =
   (if hasLoneSurrogate (out @ s) then Inl LoneSurrogate else Inr (out @ s, rest))"
  by (induction s arbitrary: out) (simp_all add: string_loop_escape)

lemma parse_printed_string:
  assumes "serializeString s = Inr t"
  shows "parseString (t @ rest) = Inr (s, rest)" and "\<exists>t'. t = 34 # t' @ [34]"
  using assms string_loop_escapes [of "[]" s rest]
  by (auto simp: serializeString_def parseString_def expect_unit_def split: if_splits)

subsection \<open>Values\<close>

text \<open>
  The value that a canonical text stands for: the fields of every object in the order of their keys, and no
  negative zero. \<open>plain\<close> says that a value is one that a program can have: distinct keys in every object, and
  texts of numbers that are read back as those numbers.
\<close>

fun norm_value :: "jvalue \<Rightarrow> jvalue" where
  "norm_value (VNum n) = VNum (if n = NumNegZero then NumInt 0 else n)"
| "norm_value (VArr vs) = VArr (map norm_value vs)"
| "norm_value (VObj fs) = VObj (js_sort key_le (map (\<lambda>kv. (fst kv, norm_value (snd kv))) fs))"
| "norm_value v = v"

fun plain :: "(jstring \<Rightarrow> jcs_num) \<Rightarrow> jvalue \<Rightarrow> bool" where
  "plain read (VNum n) = (case n of NumFrac t \<Rightarrow> frac_ok read t | _ \<Rightarrow> True)"
| "plain read (VArr vs) = list_all (plain read) vs"
| "plain read (VObj fs) = (distinct (map fst fs) \<and> list_all (\<lambda>kv. plain read (snd kv)) fs)"
| "plain read v = True"

abbreviation norm_field :: "jstring \<times> jvalue \<Rightarrow> jstring \<times> jvalue" where
  "norm_field \<equiv> \<lambda>kv. (fst kv, norm_value (snd kv))"

lemma sort_map_fields: "js_sort key_le (map norm_field fs) = map norm_field (js_sort key_le fs)"
proof -
  have "js_insert key_le (norm_field x) (map norm_field ys) = map norm_field (js_insert key_le x ys)" for x ys
    by (induction ys) (auto simp: key_le_def)
  then show ?thesis by (induction fs) (simp_all add: js_sort_def)
qed

lemma sorted_fields: "sorted_wrt key_le (js_sort key_le fs)"
  by (rule sorted_js_sort [where S = UNIV]) (auto simp: key_le_def)

lemma distinct_sorted_keys: "distinct (map fst (js_sort key_le fs)) = distinct (map fst fs)"
  by (rule mset_eq_imp_distinct_iff) simp

text \<open>What a text printed for a value starts with.\<close>

definition value_start :: "jstring \<Rightarrow> bool" where
  "value_start t \<longleftrightarrow> t \<noteq> [] \<and> \<not> is_ws (hd t) \<and> hd t \<noteq> 93"

lemma serialize_start:
  assumes "serialize v = Inr t" and "plain read v"
  shows "value_start t"
proof -
  have digit: "\<not> is_ws u \<and> u \<noteq> 93" if "u = 45 \<or> is_digit u" for u using that by (auto simp: is_ws_def is_digit_def)
  have num: "value_start t" if "scan_number t = Inr (l, r)" for t l r
    using scan_number_first [OF that] digit [of "hd t"] by (auto simp: value_start_def)
  show ?thesis
  proof (cases v)
    case (VNum n)
    have zero: "value_start [48]" by (simp add: value_start_def is_ws_def)
    show ?thesis
      using assms VNum num [OF scan_int_text] num zero
      by (cases n) (auto simp: frac_ok_def split: if_splits)
  next
    case (VStr s)
    with assms parse_printed_string(2) show ?thesis by (force simp: value_start_def is_ws_def)
  qed (use assms in \<open>auto simp: value_start_def is_ws_def bind_res_Inr_iff units_def split: if_splits\<close>)
qed

lemma parse_more_mark:
  "\<not> is_ws close \<Longrightarrow> parse_more close (close # rest) = Inr (close = 44, rest)"
  "parse_more close (44 # rest) = Inr (True, rest)"
  by (auto simp: parse_more_def is_ws_def)

lemma parse_printed_key:
  assumes "serializeString key = Inr k" and "key \<notin> fst ` set out"
  shows "parse_key out (k @ 58 # rest) = Inr (key, rest)"
proof -
  obtain t where "k = 34 # t @ [34]" using parse_printed_string(2) [OF assms(1)] by blast
  then have "skipWhitespace (k @ 58 # rest) = k @ 58 # rest" by (simp add: is_ws_def)
  moreover have "skipWhitespace (58 # rest) = 58 # rest" by (simp add: is_ws_def)
  ultimately show ?thesis
    using parse_printed_string(1) [OF assms(1)] assms(2) by (simp add: parse_key_def expect_unit_def)
qed

lemma join_Cons: "join_with [44] (p # ps) = (if ps = [] then p else p @ 44 # join_with [44] ps)"
  by (cases ps) simp_all

lemma serialize_items_empty: "serialize_items vs = Inr ps \<Longrightarrow> ps = [] \<longleftrightarrow> vs = []"
  by (cases vs) (auto simp: bind_res_Inr_iff)

lemma serialize_fields_empty: "serialize_fields fs = Inr ps \<Longrightarrow> ps = [] \<longleftrightarrow> fs = []"
  by (cases "fs" rule: list.exhaust) (auto simp: bind_res_Inr_iff split: if_splits prod.splits)

lemma follows_marks: "follows (44 # rest)" "follows (93 # rest)" "follows (125 # rest)"
  by (simp_all add: follows_def is_digit_def)

lemma parse_leaf:
  assumes "value_start (t @ rest)"
  shows "hd (t @ rest) = 34 \<Longrightarrow> parse_value read (Suc n) (t @ rest) =
           Some (bind_res (parseString (t @ rest)) (\<lambda>(str, rest'). Inr (VStr str, rest')))"
    and "hd (t @ rest) = 45 \<or> is_digit (hd (t @ rest)) \<Longrightarrow>
           parse_value read (Suc n) (t @ rest) = Some (parseNumber read (t @ rest))"
proof -
  have skip: "skipWhitespace (t @ rest) = t @ rest" using assms by (simp add: value_start_def)
  obtain u s where s: "t @ rest = u # s" using assms by (cases "t @ rest") (auto simp: value_start_def)
  show "hd (t @ rest) = 34 \<Longrightarrow> parse_value read (Suc n) (t @ rest) =
      Some (bind_res (parseString (t @ rest)) (\<lambda>(str, rest'). Inr (VStr str, rest')))"
    using skip by (simp add: s)
  show "hd (t @ rest) = 45 \<or> is_digit (hd (t @ rest)) \<Longrightarrow>
      parse_value read (Suc n) (t @ rest) = Some (parseNumber read (t @ rest))"
    using skip by (auto simp: s is_digit_def)
qed

lemma parse_literals:
  "parse_value read (Suc n) (units ''true'' @ rest) = Some (Inr (VBool True, rest))"
  "parse_value read (Suc n) (units ''false'' @ rest) = Some (Inr (VBool False, rest))"
  "parse_value read (Suc n) (units ''null'' @ rest) = Some (Inr (VNull, rest))"
  by (simp_all add: units_def parseLiteral_def is_ws_def)

lemma parse_number_printed:
  assumes "serializeNumber m = Inr t" and "plain read (VNum m)" and "follows rest"
  shows "parse_value read (Suc n) (t @ rest) = Some (Inr (norm_value (VNum m), rest))"
proof -
  have start: "value_start t" using serialize_start [of "VNum m"] assms by simp
  have "(hd t = 45 \<or> is_digit (hd t)) \<and> parseNumber read (t @ rest) = Inr (norm_value (VNum m), rest)"
  proof (cases m)
    case (NumInt i)
    then show ?thesis
      using assms scan_number_first [OF scan_int_text, of i] parse_int_text [OF _ assms(3)] by (auto split: if_splits)
  next
    case NumNegZero
    have "int_text 0 = [48]" by (simp add: int_text_def nat_text.simps)
    with NumNegZero assms parse_int_text [OF _ assms(3), of 0 read] show ?thesis by (auto simp: is_digit_def MAX_SAFE_INT_def)
  next
    case (NumFrac f)
    then show ?thesis using assms parse_frac [OF _ assms(3)] by (auto simp: frac_ok_def dest: scan_number_first)
  qed (use assms in simp)
  with start parse_leaf(2) [of t rest read n] show ?thesis by (auto simp: value_start_def)
qed

lemma parse_printed:
  "serialize v = Inr t \<Longrightarrow> plain read v \<Longrightarrow> follows rest \<Longrightarrow> 2 * length t < n \<Longrightarrow>
   parse_value read n (t @ rest) = Some (Inr (norm_value v, rest))"
  "serialize_items vs = Inr ps \<Longrightarrow> list_all (plain read) vs \<Longrightarrow> vs \<noteq> [] \<Longrightarrow> 2 * (length (join_with [44] ps) + 1) \<le> n \<Longrightarrow>
   parse_items read n iout (join_with [44] ps @ 93 # rest) = Some (Inr (VArr (iout @ map norm_value vs), rest))"
  "serialize_fields fs = Inr ps \<Longrightarrow> list_all (\<lambda>kv. plain read (snd kv)) fs \<Longrightarrow> distinct (map fst (fout @ fs)) \<Longrightarrow>
   fs \<noteq> [] \<Longrightarrow> 2 * (length (join_with [44] ps) + 1) \<le> n \<Longrightarrow>
   parse_fields read n fout (join_with [44] ps @ 125 # rest) = Some (Inr (VObj (fout @ map norm_field fs), rest))"
proof (induction v and vs and fs arbitrary: t rest n and ps rest n iout and ps rest n fout
    rule: serialize_serialize_items_serialize_fields.induct)
  case (5 items)
  then obtain ps where ps: "serialize_items items = Inr ps" "t = 91 # join_with [44] ps @ [93]"
    by (auto simp: bind_res_Inr_iff)
  obtain n' where n: "n = Suc n'" using "5.prems" by (cases n) auto
  show ?case
  proof (cases "items = []")
    case True
    with ps n show ?thesis by (simp add: parse_empty_def is_ws_def)
  next
    case False
    then obtain p qs where q: "ps = p # qs" using serialize_items_empty [OF ps(1)] by (cases ps) auto
    with ps(1) False obtain v where "serialize v = Inr p" "plain read v"
      using "5.prems"(2) by (cases items) (auto simp: bind_res_Inr_iff)
    from serialize_start [OF this] have "parse_empty 93 (join_with [44] ps @ 93 # rest) = None"
      by (cases p) (auto simp: q join_Cons parse_empty_def value_start_def)
    with ps n "5.prems" "5.IH" [OF ps(1) _ False, of n' "[]" rest] show ?thesis by (simp add: is_ws_def)
  qed
next
  case (6 fs)
  then obtain ps where ps: "serialize_fields (js_sort key_le fs) = Inr ps" "t = 123 # join_with [44] ps @ [125]"
    by (auto simp: bind_res_Inr_iff)
  obtain n' where n: "n = Suc n'" using "6.prems" by (cases n) auto
  have empty: "js_sort key_le fs = [] \<longleftrightarrow> fs = []" by (metis mset_js_sort mset_zero_iff)
  show ?case
  proof (cases "fs = []")
    case True
    with ps n empty show ?thesis by (simp add: parse_empty_def is_ws_def)
  next
    case False
    with empty obtain k v fs' where f: "js_sort key_le fs = (k, v) # fs'" by (cases "js_sort key_le fs") auto
    with ps(1) obtain kt vt qs where "ps = (kt @ 58 # vt) # qs" "serializeString k = Inr kt"
      by (auto simp: bind_res_Inr_iff split: if_splits)
    with parse_printed_string(2) [of k kt] have start: "parse_empty 125 (join_with [44] ps @ 125 # rest) = None"
      by (auto simp: join_Cons parse_empty_def is_ws_def)
    have "list_all (\<lambda>kv. plain read (snd kv)) (js_sort key_le fs)" "distinct (map fst ([] @ js_sort key_le fs))"
      using "6.prems"(2) by (simp_all add: list_all_iff distinct_sorted_keys)
    from "6.IH" [OF ps(1) this, of n' rest] empty False start ps n "6.prems" show ?thesis
      by (simp add: is_ws_def sort_map_fields)
  qed
next
  case (11 v vs)
  then obtain p qs where p: "serialize v = Inr p" "serialize_items vs = Inr qs" "ps = p # qs"
    by (auto simp: bind_res_Inr_iff)
  obtain n' where n: "n = Suc n'" using "11.prems" by (cases n) auto
  have pos: "0 < length p" using serialize_start [OF p(1), of read] "11.prems"(2) by (simp add: value_start_def)
  show ?case
  proof (cases "vs = []")
    case True
    with p "11.prems" n "11.IH"(1) [OF p(1) _ follows_marks(2), of n' rest] show ?thesis
      by (simp add: bind_parsed_def parse_more_mark is_ws_def)
  next
    case False
    then have qs: "qs \<noteq> []" using serialize_items_empty [OF p(2)] by simp
    have "parse_value read n' (p @ 44 # join_with [44] qs @ 93 # rest) =
        Some (Inr (norm_value v, 44 # join_with [44] qs @ 93 # rest))"
      using "11.prems" n p qs "11.IH"(1) [OF p(1) _ follows_marks(1), of n'] by (simp add: join_Cons)
    moreover have "parse_items read n' (iout @ [norm_value v]) (join_with [44] qs @ 93 # rest) =
        Some (Inr (VArr ((iout @ [norm_value v]) @ map norm_value vs), rest))"
      using "11.prems" n p qs pos False by (intro "11.IH"(2)) (auto simp: join_Cons)
    ultimately show ?thesis using n p qs by (simp add: join_Cons bind_parsed_def parse_more_mark)
  qed
next
  case (13 key item fs)
  then obtain kt vt qs where p: "item \<noteq> VUndefined" "serializeString key = Inr kt" "serialize item = Inr vt"
      "serialize_fields fs = Inr qs" "ps = (kt @ 58 # vt) # qs"
    by (auto simp: bind_res_Inr_iff split: if_splits)
  obtain n' where n: "n = Suc n'" using "13.prems" by (cases n) auto
  have key: "key \<notin> fst ` set fout" using "13.prems"(3) by auto
  show ?case
  proof (cases "fs = []")
    case True
    then have "qs = []" using serialize_fields_empty [OF p(4)] by simp
    moreover have "parse_value read n' (vt @ 125 # rest) = Some (Inr (norm_value item, 125 # rest))"
      using "13.prems" p n \<open>qs = []\<close> by (intro "13.IH"(1) follows_marks) auto
    ultimately show ?thesis using p n key True parse_printed_key [OF p(2) key, of "vt @ 125 # rest"]
      by (simp add: bind_parsed_def parse_more_mark is_ws_def)
  next
    case False
    then have qs: "qs \<noteq> []" using serialize_fields_empty [OF p(4)] by simp
    have "parse_value read n' (vt @ 44 # join_with [44] qs @ 125 # rest) =
        Some (Inr (norm_value item, 44 # join_with [44] qs @ 125 # rest))"
      using "13.prems" n p qs by (intro "13.IH"(1) follows_marks) (auto simp: join_Cons)
    moreover have "parse_fields read n' (fout @ [(key, norm_value item)]) (join_with [44] qs @ 125 # rest) =
        Some (Inr (VObj ((fout @ [(key, norm_value item)]) @ map norm_field fs), rest))"
      using "13.prems" n p qs False by (intro "13.IH"(2)) (auto simp: join_Cons)
    ultimately show ?thesis
      using p n key qs parse_printed_key [OF p(2) key, of "vt @ 44 # join_with [44] qs @ 125 # rest"]
      by (simp add: join_Cons bind_parsed_def parse_more_mark)
  qed
next
  case (4 s)
  then have t: "serializeString s = Inr t" by simp
  obtain n' where n: "n = Suc n'" using "4.prems" by (cases n) auto
  have "value_start (t @ rest)" "hd (t @ rest) = 34"
    using parse_printed_string(2) [OF t] by (auto simp: value_start_def is_ws_def)
  with parse_leaf(1) [of t rest read n'] parse_printed_string(1) [OF t, of rest] n show ?case by simp
next
  case (3 m)
  then show ?case using parse_number_printed [of m t read rest] by (cases n) auto
next
  case (2 b)
  then show ?case using parse_literals(1,2) [of read _ rest] by (cases n) (auto split: if_splits)
next
  case 1
  then show ?case using parse_literals(3) [of read _ rest] by (cases n) auto
qed simp_all

subsection \<open>The canonical form does not depend on the order of the fields\<close>

lemma norm_undefined [simp]: "norm_value v = VUndefined \<longleftrightarrow> v = VUndefined"
  by (cases v) simp_all

lemma sort_norm_fields: "js_sort key_le (js_sort key_le (map norm_field fs)) = map norm_field (js_sort key_le fs)"
  by (simp add: js_sort_sorted [OF sorted_fields] sort_map_fields)

lemma serialize_norm:
  "serialize (norm_value v) = serialize v"
  "serialize_items (map norm_value vs) = serialize_items vs"
  "serialize_fields (map norm_field fs) = serialize_fields fs"
proof (induction v and vs and fs rule: serialize_serialize_items_serialize_fields.induct)
  case (3 n)
  then show ?case by (cases n) (auto simp: int_text_def nat_text.simps MAX_SAFE_INT_def)
next
  case (6 fs)
  then show ?case by (simp add: sort_norm_fields)
next
  case (13 key item fs)
  then show ?case by (cases "item = VUndefined") (auto simp: bind_res_def split: sum.splits)
qed simp_all

section \<open>What the parser accepts\<close>

fun ijson :: "jvalue \<Rightarrow> bool" where
  "ijson VNull = True"
| "ijson (VBool _) = True"
| "ijson (VNum n) = (n \<noteq> NumNonFinite)"
| "ijson (VStr s) = (\<not> hasLoneSurrogate s)"
| "ijson (VArr vs) = list_all ijson vs"
| "ijson (VObj fs) = (distinct (map fst fs) \<and> list_all (\<lambda>kv. \<not> hasLoneSurrogate (fst kv) \<and> ijson (snd kv)) fs)"
| "ijson _ = False"

lemma string_loop_sound: "string_loop out s = Inr (str, rest) \<Longrightarrow> \<not> hasLoneSurrogate str"
proof (induction s arbitrary: out rule: length_induct)
  case (1 s)
  then have IH: "length s' < length s \<Longrightarrow> string_loop o' s' = Inr (str, rest) \<Longrightarrow> \<not> hasLoneSurrogate str" for s' o'
    by blast
  show ?case
  proof (cases s)
    case (Cons u t)
    with "1.prems" show ?thesis
      by (auto split: if_splits list.splits option.splits dest!: IH [rotated])
  qed (use "1.prems" in simp)
qed

lemma parse_key_sound: "parse_key out s = Inr (key, rest) \<Longrightarrow> \<not> hasLoneSurrogate key \<and> key \<notin> fst ` set out"
  by (auto simp: parse_key_def parseString_def bind_res_Inr_iff split: if_splits dest: string_loop_sound)

lemma parse_sound:
  "parse_value read n s = Some (Inr (v, rest)) \<Longrightarrow> ijson v"
  "parse_fields read n fs s = Some (Inr (v, rest)) \<Longrightarrow> ijson (VObj fs) \<Longrightarrow> ijson v"
  "parse_items read n vs s = Some (Inr (v, rest)) \<Longrightarrow> ijson (VArr vs) \<Longrightarrow> ijson v"
proof (induction n arbitrary: s v rest fs vs)
  case (Suc n)
  {
    case 1
    then show ?case
      by (auto simp: bind_res_Inr_iff parseLiteral_def parseNumber_def parseString_def Let_def
          split: if_splits list.splits option.splits dest: string_loop_sound Suc(2,3))
  next
    case 2
    then show ?case by (auto simp: bind_parsed_Some split: if_splits dest!: parse_key_sound Suc(1,2))
  next
    case 3
    then show ?case by (auto simp: bind_parsed_Some split: if_splits dest!: Suc(1,3))
  }
qed simp_all

lemma serialize_total:
  "ijson v \<Longrightarrow> (\<exists>t. serialize v = Inr t) \<or> serialize v = Inl UnsafeInteger"
  "list_all ijson vs \<Longrightarrow> (\<exists>ps. serialize_items vs = Inr ps) \<or> serialize_items vs = Inl UnsafeInteger"
  "list_all (\<lambda>kv. \<not> hasLoneSurrogate (fst kv) \<and> ijson (snd kv)) fs \<Longrightarrow>
   (\<exists>ps. serialize_fields fs = Inr ps) \<or> serialize_fields fs = Inl UnsafeInteger"
proof (induction v and vs and fs rule: serialize_serialize_items_serialize_fields.induct)
  case (3 n)
  then show ?case by (cases n) auto
next
  case (6 fs)
  then have "list_all (\<lambda>kv. \<not> hasLoneSurrogate (fst kv) \<and> ijson (snd kv)) (js_sort key_le fs)" by (auto simp: list_all_iff)
  with "6.IH" show ?case by auto
next
  case (13 key item fs)
  then show ?case by (cases "item = VUndefined") (auto simp: serializeString_def)
qed (auto simp: serializeString_def)

section \<open>Claims\<close>

lemma parse_canonical:
  assumes "canonicalize v = Inr t" and "plain read v"
  shows "parseIJson read t = Inr (norm_value v)"
proof -
  have "parse_value read (2 * length t + 2) (t @ []) = Some (Inr (norm_value v, []))"
    by (rule parse_printed(1)) (use assms in \<open>simp_all add: canonicalize_def follows_def\<close>)
  then show ?thesis by (simp add: parseIJson_def parseIJson_fuel_def)
qed

text \<open>C23. Canonical texts are read back: parsing the canonical form of a value with the strict parser gives the
  value, with the fields of its objects in the order of their keys and without negative zeros, for every value
  with distinct keys whose non-integer numbers \<open>Number\<close> reads back from their texts.\<close>

theorem canonical_roundtrip:
  assumes "canonicalize v = Inr t" and "plain read v"
  shows "parseIJson read t = Inr (norm_value v)"
  using parse_canonical [OF assms] .

definition demo_value :: jvalue where
  "demo_value = VObj [([98], VArr [VNum (NumInt (-12)), VBool True, VNull, VNum NumNegZero]), ([97], VObj []),
     ([99], VStr [34, 10, 7, 0x4E2D]), ([100], VNum (NumFrac [48, 46, 53]))]"

definition demo_read :: "jstring \<Rightarrow> jcs_num" where
  "demo_read t = NumFrac t"

lemmas jcs_eval = canonicalize_def serializeString_def js_sort_def key_le_def escape_unit_def hex_lower_def high_surrogate_def
  low_surrogate_def int_text_def nat_text.simps MAX_SAFE_INT_def units_def

lemma demo_canonical:
  "canonicalize demo_value = Inr (
     [123, 34, 97, 34, 58, 123, 125, 44] @
     [34, 98, 34, 58, 91, 45, 49, 50, 44, 116, 114, 117, 101, 44, 110, 117, 108, 108, 44, 48, 93, 44] @
     [34, 99, 34, 58, 34, 92, 34, 92, 110, 92, 117, 48, 48, 48, 55, 0x4E2D, 34, 44, 34, 100, 34, 58, 48, 46, 53, 125])"
  by (simp add: demo_value_def jcs_eval)

lemma demo_plain: "plain demo_read demo_value"
  by (simp add: demo_value_def demo_read_def frac_ok_def scan_number_def scan_sign_def scan_frac_def scan_exp_def
      scan_digits_def digits_of_def after_digits_def is_digit_def)

lemma canonical_roundtrip_witness:
  "parseIJson demo_read (
     [123, 34, 97, 34, 58, 123, 125, 44] @
     [34, 98, 34, 58, 91, 45, 49, 50, 44, 116, 114, 117, 101, 44, 110, 117, 108, 108, 44, 48, 93, 44] @
     [34, 99, 34, 58, 34, 92, 34, 92, 110, 92, 117, 48, 48, 48, 55, 0x4E2D, 34, 44, 34, 100, 34, 58, 48, 46, 53, 125]) =
   Inr (VObj [([97], VObj []), ([98], VArr [VNum (NumInt (-12)), VBool True, VNull, VNum (NumInt 0)]),
     ([99], VStr [34, 10, 7, 0x4E2D]), ([100], VNum (NumFrac [48, 46, 53]))])"
  by (subst canonical_roundtrip [OF demo_canonical demo_plain]) (simp add: demo_value_def js_sort_def key_le_def)

text \<open>The canonical form identifies a value: two values have the same canonical text exactly when they are the
  same up to the order of fields (and the sign of zero), so that what is hashed for an approval determines
  the approved input.\<close>

theorem canonical_injective:
  assumes "canonicalize v = Inr t" and "canonicalize w = Inr u" and "plain read v" and "plain read w"
  shows "t = u \<longleftrightarrow> norm_value v = norm_value w"
proof
  assume "t = u"
  then show "norm_value v = norm_value w"
    using parse_canonical [OF assms(1,3)] parse_canonical [OF assms(2,4)] by simp
next
  assume "norm_value v = norm_value w"
  then show "t = u" using assms(1,2) serialize_norm(1) [of v] serialize_norm(1) [of w] by (simp add: canonicalize_def)
qed

lemma canonical_injective_witness:
  "[123, 34, 120, 34, 58, 49, 125] = [123, 34, 120, 34, 58, 50, 125 :: nat] \<longleftrightarrow>
   norm_value (VObj [([120], VNum (NumInt 1))]) = norm_value (VObj [([120], VNum (NumInt 2))])"
  by (rule canonical_injective [where read = demo_read]) (simp_all add: jcs_eval)

text \<open>C39. The strict parser ends on every text and accepts only I-JSON: its recursion needs at most twice the length
  of the text plus two steps, and an accepted value has distinct keys in every object, no lone surrogate in a
  key or a string and no number that is not finite; it then has a canonical form, unless a literal with an
  exponent stands for an integer beyond the safe range, which only the canonical form rejects.\<close>

theorem parser_total_sound:
  assumes "2 * length text + 2 \<le> fuel"
  shows "parseIJson_fuel fuel read text \<noteq> None \<and>
         (\<forall>v. parseIJson read text = Inr v \<longrightarrow>
            ijson v \<and> ((\<exists>t. canonicalize v = Inr t) \<or> canonicalize v = Inl UnsafeInteger))"
proof
  have "parse_value read fuel text \<noteq> None" using parse_fuel(1) [of "text" fuel] assms by simp
  then show "parseIJson_fuel fuel read text \<noteq> None" by (auto simp: parseIJson_fuel_def split: sum.splits)
  show "\<forall>v. parseIJson read text = Inr v \<longrightarrow>
      ijson v \<and> ((\<exists>t. canonicalize v = Inr t) \<or> canonicalize v = Inl UnsafeInteger)"
  proof (intro allI impI)
    fix v assume "parseIJson read text = Inr v"
    then obtain rest where "parse_value read (2 * length text + 2) text = Some (Inr (v, rest))"
      by (auto simp: parseIJson_def parseIJson_fuel_def split: option.splits sum.splits if_splits)
    then have "ijson v" by (rule parse_sound(1))
    with serialize_total(1) [of v] show "ijson v \<and> ((\<exists>t. canonicalize v = Inr t) \<or> canonicalize v = Inl UnsafeInteger)"
      by (auto simp: canonicalize_def)
  qed
qed

lemma parser_total_sound_witness: "parseIJson_fuel 100 (\<lambda>_. NumNonFinite) (units ''[1, {}]'') \<noteq> None"
  by (rule parser_total_sound [THEN conjunct1]) (simp add: units_def)

end
