(* ===== verification/App_Schema.thy ===== *)
theory App_Schema
  imports App_Jcs
begin

text \<open>
  The validator for the schema subset of capabilities
  (\<^verbatim>\<open>packages/ky-app-server/src/capabilities/schemaValidator.ts\<close>). A schema is an untyped JSON object that the
  manifest validation has accepted; it is read property by property, as the code does. The comparison of two
  numbers is the parameter \<open>lt\<close> (the operator \<open><\<close> of the language on doubles).
\<close>

section \<open>Properties of values\<close>

text \<open>The own properties of an object; an array has its indices, in decimal.\<close>

fun fields_of :: "jvalue \<Rightarrow> (jstring \<times> jvalue) list" where
  "fields_of (VObj fs) = fs"
| "fields_of (VInstance fs) = fs"
| "fields_of (VArr vs) = zip (map nat_text [0..<length vs]) vs"
| "fields_of _ = []"

definition has_own :: "jvalue \<Rightarrow> jstring \<Rightarrow> bool" where
  "has_own v k \<longleftrightarrow> map_of (fields_of v) k \<noteq> None"

definition own_prop :: "jvalue \<Rightarrow> jstring \<Rightarrow> jvalue" where
  "own_prop v k = (case map_of (fields_of v) k of None \<Rightarrow> VUndefined | Some w \<Rightarrow> w)"

text \<open>\<open>typeof v === 'object' && v !== null && !Array.isArray(v)\<close>.\<close>

fun is_record :: "jvalue \<Rightarrow> bool" where
  "is_record (VObj _) = True"
| "is_record (VInstance _) = True"
| "is_record _ = False"

lemma fields_of_size: "(k, w) \<in> set (fields_of v) \<Longrightarrow> size w < size v"
proof (cases v)
  case (VArr vs)
  then show "(k, w) \<in> set (fields_of v) \<Longrightarrow> size w < size v"
    using size_list_estimation' [of w vs "size w" size] by (auto dest: set_zip_rightD)
qed (auto simp: less_Suc_eq_le intro!: size_list_estimation' [of "(k, w)"])

lemma zip_left_size: "(a, b) \<in> set (zip ls rs) \<Longrightarrow> size a < size (VArr ls)"
  using size_list_estimation' [of a ls "size a" size] by (auto dest: set_zip_leftD)

lemma own_prop_size: "is_record (own_prop v k) \<Longrightarrow> size (own_prop v k) < size v"
  by (auto simp: own_prop_def dest!: map_of_SomeD fields_of_size split: option.splits)

section \<open>Equality of JSON values\<close>

text \<open>\<open>===\<close> on values that are not objects (objects are compared by their properties; no two occurrences are the same object).\<close>

fun same_number :: "jcs_num \<Rightarrow> jcs_num \<Rightarrow> bool" where
  "same_number NumNonFinite _ = False"
| "same_number NumNegZero n = (n = NumNegZero \<or> n = NumInt 0)"
| "same_number (NumInt m) n = (n = NumInt m \<or> (m = 0 \<and> n = NumNegZero))"
| "same_number (NumFrac t) n = (n = NumFrac t)"

definition is_object :: "jvalue \<Rightarrow> bool" where
  "is_object v \<longleftrightarrow> is_record v \<or> (\<exists>vs. v = VArr vs)"

function (sequential) deepEqual :: "jvalue \<Rightarrow> jvalue \<Rightarrow> bool" where
  "deepEqual VNull r = (r = VNull)"
| "deepEqual (VBool b) r = (r = VBool b)"
| "deepEqual (VStr s) r = (r = VStr s)"
| "deepEqual (VNum n) r = (case r of VNum m \<Rightarrow> same_number n m | _ \<Rightarrow> False)"
| "deepEqual VUndefined r = (r = VUndefined)"
| "deepEqual VOther r = False"
| "deepEqual l r =
     (case (l, r) of
        (VArr ls, VArr rs) \<Rightarrow> length ls = length rs \<and> list_all (\<lambda>(a, b). deepEqual a b) (zip ls rs)
      | _ \<Rightarrow>
          (case r of VArr _ \<Rightarrow> True | VObj _ \<Rightarrow> True | VInstance _ \<Rightarrow> True | _ \<Rightarrow> False) \<and>
          length (fields_of l) = length (fields_of r) \<and>
          list_all (\<lambda>(k, a). has_own r k \<and> deepEqual a (own_prop r k)) (fields_of l))"
  by pat_completeness auto

termination
  by (relation "measure (\<lambda>(l, r). size l)") (auto simp del: fields_of.simps jvalue.size dest: zip_left_size fields_of_size)

section \<open>Validation\<close>

datatype path_segment = PathField jstring | PathIndex nat

datatype schema_fault =
    FaultSchemaType jstring | FaultType jstring | FaultConst | FaultEnum | FaultMinimum | FaultMaximum | FaultMinLength
  | FaultMaxLength | FaultMaxItems | FaultRequired jstring | FaultAdditional jstring

type_synonym schema_errors = "(path_segment list \<times> schema_fault) list"

definition CAPABILITY_SCHEMA_TYPES :: "jstring list" where
  "CAPABILITY_SCHEMA_TYPES = [units ''object'', units ''array'', units ''string'', units ''integer'', units ''number'', units ''boolean'']"

definition matchesType :: "jstring \<Rightarrow> jvalue \<Rightarrow> bool" where
  "matchesType expected value =
     (if expected = units ''object'' then is_record value
      else if expected = units ''array'' then (case value of VArr _ \<Rightarrow> True | _ \<Rightarrow> False)
      else if expected = units ''integer'' then
        (case value of VNum (NumInt n) \<Rightarrow> \<bar>n\<bar> \<le> MAX_SAFE_INT | VNum NumNegZero \<Rightarrow> True | _ \<Rightarrow> False)
      else if expected = units ''number'' then (case value of VNum n \<Rightarrow> n \<noteq> NumNonFinite | _ \<Rightarrow> False)
      else if expected = units ''string'' then (case value of VStr _ \<Rightarrow> True | _ \<Rightarrow> False)
      else if expected = units ''boolean'' then (case value of VBool _ \<Rightarrow> True | _ \<Rightarrow> False)
      else False)"

text \<open>\<open>[...value].length\<close>: a surrogate pair is one character.\<close>

fun code_points :: "jstring \<Rightarrow> nat" where
  "code_points [] = 0"
| "code_points [u] = 1"
| "code_points (u # v # s) = (if high_surrogate u \<and> low_surrogate v then Suc (code_points s) else Suc (code_points (v # s)))"

definition fault_if :: "path_segment list \<Rightarrow> bool \<Rightarrow> schema_fault \<Rightarrow> schema_errors" where
  "fault_if path b f = (if b then [(path, f)] else [])"

text \<open>A bound is checked when the schema has a number for it.\<close>

definition bound_holds :: "jvalue \<Rightarrow> jstring \<Rightarrow> (jcs_num \<Rightarrow> bool) \<Rightarrow> bool" where
  "bound_holds schema k P = (case own_prop schema k of VNum n \<Rightarrow> P n | _ \<Rightarrow> True)"

definition checkScalarBounds :: "(jcs_num \<Rightarrow> jcs_num \<Rightarrow> bool) \<Rightarrow> jvalue \<Rightarrow> jvalue \<Rightarrow> path_segment list \<Rightarrow> schema_errors" where
  "checkScalarBounds lt schema value path =
     (case value of
        VNum n \<Rightarrow>
          fault_if path (\<not> bound_holds schema (units ''minimum'') (\<lambda>m. \<not> lt n m)) FaultMinimum @
          fault_if path (\<not> bound_holds schema (units ''maximum'') (\<lambda>m. \<not> lt m n)) FaultMaximum
      | VStr s \<Rightarrow>
          let len = NumInt (int (code_points s)) in
          fault_if path (\<not> bound_holds schema (units ''minLength'') (\<lambda>m. \<not> lt len m)) FaultMinLength @
          fault_if path (\<not> bound_holds schema (units ''maxLength'') (\<lambda>m. \<not> lt m len)) FaultMaxLength
      | _ \<Rightarrow> [])"

definition type_fault :: "jvalue \<Rightarrow> jvalue \<Rightarrow> schema_fault option" where
  "type_fault schema value =
     (case own_prop schema (units ''type'') of
        VStr expected \<Rightarrow>
          if expected \<notin> set CAPABILITY_SCHEMA_TYPES then Some (FaultSchemaType expected)
          else if \<not> matchesType expected value then Some (FaultType expected)
          else None
      | _ \<Rightarrow> None)"

definition strings_of :: "jvalue \<Rightarrow> jstring list" where
  "strings_of v = (case v of VArr vs \<Rightarrow> List.map_filter (\<lambda>x. case x of VStr s \<Rightarrow> Some s | _ \<Rightarrow> None) vs | _ \<Rightarrow> [])"

text \<open>The names that \<open>required\<close> lists, and the entries of \<open>properties\<close>.\<close>

definition object_errors :: "jvalue \<Rightarrow> jvalue \<Rightarrow> path_segment list \<Rightarrow> schema_errors" where
  "object_errors schema value path =
     concat (map (\<lambda>key. fault_if path (\<not> has_own value key) (FaultRequired key)) (strings_of (own_prop schema (units ''required'')))) @
     (if own_prop schema (units ''additionalProperties'') = VBool False
      then concat (map (\<lambda>(key, _). fault_if path (\<not> has_own (own_prop schema (units ''properties'')) key) (FaultAdditional key)) (fields_of value))
      else [])"

lemma properties_size: "(key, child) \<in> set (fields_of (own_prop schema k)) \<Longrightarrow> size child < size schema"
proof -
  assume m: "(key, child) \<in> set (fields_of (own_prop schema k))"
  then have "own_prop schema k \<noteq> VUndefined" by auto
  then have "(k, own_prop schema k) \<in> set (fields_of schema)"
    by (auto simp: own_prop_def split: option.splits dest: map_of_SomeD)
  with fields_of_size [OF m] fields_of_size show "size child < size schema" by (blast intro: less_trans)
qed

function walk :: "(jcs_num \<Rightarrow> jcs_num \<Rightarrow> bool) \<Rightarrow> jvalue \<Rightarrow> jvalue \<Rightarrow> path_segment list \<Rightarrow> schema_errors" where
  "walk lt schema value path =
     (case type_fault schema value of
        Some f \<Rightarrow> [(path, f)]
      | None \<Rightarrow>
          fault_if path (has_own schema (units ''const'') \<and> \<not> deepEqual (own_prop schema (units ''const'')) value) FaultConst @
          fault_if path (case own_prop schema (units ''enum'') of VArr options \<Rightarrow> \<not> list_ex (\<lambda>item. deepEqual item value) options | _ \<Rightarrow> False) FaultEnum @
          checkScalarBounds lt schema value path @
          (case value of
             VArr elements \<Rightarrow>
               fault_if path (\<not> bound_holds schema (units ''maxItems'') (\<lambda>m. \<not> lt m (NumInt (int (length elements))))) FaultMaxItems @
               (if is_record (own_prop schema (units ''items''))
                then concat (map (\<lambda>(i, item). walk lt (own_prop schema (units ''items'')) item (path @ [PathIndex i])) (enumerate 0 elements))
                else [])
           | _ \<Rightarrow> []) @
          (if is_record value
           then object_errors schema value path @
                concat (map (\<lambda>(key, child). if has_own value key then walk lt child (own_prop value key) (path @ [PathField key]) else [])
                  (fields_of (own_prop schema (units ''properties''))))
           else []))"
  by pat_completeness auto

termination
  by (relation "measure (\<lambda>(lt, schema, value, path). size schema)") (auto simp: own_prop_size dest: properties_size)

declare walk.simps [simp del]

definition validateAgainstCapabilitySchema ::
  "(jcs_num \<Rightarrow> jcs_num \<Rightarrow> bool) \<Rightarrow> jvalue \<Rightarrow> jvalue \<Rightarrow> jstring \<Rightarrow> bool \<times> schema_errors" where
  "validateAgainstCapabilitySchema lt schema value label =
     (let errors = walk lt schema value [PathField label] in (errors = [], errors))"

section \<open>What the schemas mean\<close>

text \<open>
  The meaning of the schema subset as a predicate on values: every keyword that the schema has holds, and the
  schemas of the items and of the properties that are present hold of them.
\<close>

function conforms :: "(jcs_num \<Rightarrow> jcs_num \<Rightarrow> bool) \<Rightarrow> jvalue \<Rightarrow> jvalue \<Rightarrow> bool" where
  "conforms lt schema value \<longleftrightarrow>
     (\<forall>expected. own_prop schema (units ''type'') = VStr expected \<longrightarrow>
        expected \<in> set CAPABILITY_SCHEMA_TYPES \<and> matchesType expected value) \<and>
     (has_own schema (units ''const'') \<longrightarrow> deepEqual (own_prop schema (units ''const'')) value) \<and>
     (\<forall>options. own_prop schema (units ''enum'') = VArr options \<longrightarrow> (\<exists>item \<in> set options. deepEqual item value)) \<and>
     (\<forall>n m. value = VNum n \<longrightarrow>
        (own_prop schema (units ''minimum'') = VNum m \<longrightarrow> \<not> lt n m) \<and> (own_prop schema (units ''maximum'') = VNum m \<longrightarrow> \<not> lt m n)) \<and>
     (\<forall>s m. value = VStr s \<longrightarrow>
        (own_prop schema (units ''minLength'') = VNum m \<longrightarrow> \<not> lt (NumInt (int (code_points s))) m) \<and>
        (own_prop schema (units ''maxLength'') = VNum m \<longrightarrow> \<not> lt m (NumInt (int (code_points s))))) \<and>
     (\<forall>elements. value = VArr elements \<longrightarrow>
        (\<forall>m. own_prop schema (units ''maxItems'') = VNum m \<longrightarrow> \<not> lt m (NumInt (int (length elements)))) \<and>
        (is_record (own_prop schema (units ''items'')) \<longrightarrow>
           (\<forall>item \<in> set elements. conforms lt (own_prop schema (units ''items'')) item))) \<and>
     (is_record value \<longrightarrow>
        (\<forall>key \<in> set (strings_of (own_prop schema (units ''required''))). has_own value key) \<and>
        (own_prop schema (units ''additionalProperties'') = VBool False \<longrightarrow>
           (\<forall>key \<in> fst ` set (fields_of value). has_own (own_prop schema (units ''properties'')) key)) \<and>
        (\<forall>(key, child) \<in> set (fields_of (own_prop schema (units ''properties''))).
           has_own value key \<longrightarrow> conforms lt child (own_prop value key)))"
  by pat_completeness auto

termination
  by (relation "measure (\<lambda>(lt, schema, value). size schema)") (auto simp: own_prop_size dest: properties_size)

declare conforms.simps [simp del]

lemma fault_if_empty [simp]: "fault_if path b f = [] \<longleftrightarrow> \<not> b"
  by (simp add: fault_if_def)

lemma bound_holds_iff: "bound_holds schema k P \<longleftrightarrow> (\<forall>m. own_prop schema k = VNum m \<longrightarrow> P m)"
  by (auto simp: bound_holds_def split: jvalue.splits)

lemma type_fault_None:
  "type_fault schema value = None \<longleftrightarrow>
   (\<forall>expected. own_prop schema (units ''type'') = VStr expected \<longrightarrow>
      expected \<in> set CAPABILITY_SCHEMA_TYPES \<and> matchesType expected value)"
  by (auto simp: type_fault_def split: jvalue.splits)

lemma scalar_bounds_empty:
  "checkScalarBounds lt schema value path = [] \<longleftrightarrow>
   (\<forall>n m. value = VNum n \<longrightarrow>
      (own_prop schema (units ''minimum'') = VNum m \<longrightarrow> \<not> lt n m) \<and> (own_prop schema (units ''maximum'') = VNum m \<longrightarrow> \<not> lt m n)) \<and>
   (\<forall>s m. value = VStr s \<longrightarrow>
      (own_prop schema (units ''minLength'') = VNum m \<longrightarrow> \<not> lt (NumInt (int (code_points s))) m) \<and>
      (own_prop schema (units ''maxLength'') = VNum m \<longrightarrow> \<not> lt m (NumInt (int (code_points s)))))"
  by (cases "value") (auto simp: checkScalarBounds_def Let_def bound_holds_iff)

lemma object_errors_empty:
  "object_errors schema value path = [] \<longleftrightarrow>
   (\<forall>key \<in> set (strings_of (own_prop schema (units ''required''))). has_own value key) \<and>
   (own_prop schema (units ''additionalProperties'') = VBool False \<longrightarrow>
      (\<forall>key \<in> fst ` set (fields_of value). has_own (own_prop schema (units ''properties'')) key))"
  by (auto simp: object_errors_def)

lemma walk_empty: "walk lt schema value path = [] \<longleftrightarrow> conforms lt schema value"
proof (induction lt schema "value" path rule: walk.induct)
  case (1 lt schema val path)
  show ?case
  proof (cases "type_fault schema val")
    case (Some f)
    then have "\<not> conforms lt schema val"
      using type_fault_None [of schema val] by (subst conforms.simps) simp
    with Some show ?thesis by (simp add: walk.simps)
  next
    case None
    have enum: "(case own_prop schema (units ''enum'') of VArr options \<Rightarrow> \<not> list_ex (\<lambda>item. deepEqual item val) options | _ \<Rightarrow> False) \<longleftrightarrow>
        \<not> (\<forall>options. own_prop schema (units ''enum'') = VArr options \<longrightarrow> (\<exists>item \<in> set options. deepEqual item val))"
      by (auto simp: list_ex_iff split: jvalue.splits)
    have items: "concat (map (\<lambda>(i, item). walk lt (own_prop schema (units ''items'')) item (path @ [PathIndex i])) (enumerate 0 elements)) = [] \<longleftrightarrow>
        (\<forall>item \<in> set elements. conforms lt (own_prop schema (units ''items'')) item)"
      if "val = VArr elements" "is_record (own_prop schema (units ''items''))" for elements
    proof -
      have "walk lt (own_prop schema (units ''items'')) item (path @ [PathIndex i]) = [] \<longleftrightarrow> conforms lt (own_prop schema (units ''items'')) item"
        if "(i, item) \<in> set (enumerate 0 elements)" for i item
        using "1.IH"(1) [OF None \<open>val = _\<close> \<open>is_record _\<close> that refl] .
      then have "concat (map (\<lambda>(i, item). walk lt (own_prop schema (units ''items'')) item (path @ [PathIndex i])) (enumerate 0 elements)) = [] \<longleftrightarrow>
          (\<forall>p \<in> set (enumerate 0 elements). conforms lt (own_prop schema (units ''items'')) (snd p))" by auto
      also have "\<dots> \<longleftrightarrow> (\<forall>item \<in> set (map snd (enumerate 0 elements)). conforms lt (own_prop schema (units ''items'')) item)"
        unfolding set_map by blast
      finally show ?thesis by simp
    qed
    have props: "concat (map (\<lambda>(key, child). if has_own val key then walk lt child (own_prop val key) (path @ [PathField key]) else [])
          (fields_of (own_prop schema (units ''properties'')))) = [] \<longleftrightarrow>
        (\<forall>(key, child) \<in> set (fields_of (own_prop schema (units ''properties''))). has_own val key \<longrightarrow> conforms lt child (own_prop val key))"
      if "is_record val"
    proof -
      have "walk lt child (own_prop val key) (path @ [PathField key]) = [] \<longleftrightarrow> conforms lt child (own_prop val key)"
        if "(key, child) \<in> set (fields_of (own_prop schema (units ''properties'')))" "has_own val key" for key child
        using "1.IH"(2) [OF None \<open>is_record _\<close> that(1) refl that(2)] .
      then show ?thesis by (auto split: if_splits)
    qed
    note type = None [unfolded type_fault_None]
    show ?thesis
      by (subst walk.simps, subst conforms.simps)
        (cases val; use None type props items in \<open>simp add: enum scalar_bounds_empty object_errors_empty bound_holds_iff\<close>)
  qed
qed

section \<open>Claims\<close>

text \<open>A comparison of numbers for the examples: integers only.\<close>

fun demo_lt :: "jcs_num \<Rightarrow> jcs_num \<Rightarrow> bool" where
  "demo_lt (NumInt a) (NumInt b) = (a < b)"
| "demo_lt _ _ = False"



text \<open>
  The comparison that \<open>const\<close> and \<open>enum\<close> use takes an array and an object for equal when the object's properties
  are the indices of the array, in particular the empty ones.
\<close>

theorem deepEqual_array_object: "deepEqual (VArr []) (VObj []) \<and> deepEqual (VArr [VNull]) (VObj [([48], VNull)])"
  by (simp add: has_own_def own_prop_def nat_text.simps)

end
