(* ===== verification/App_Capabilities.thy ===== *)
theory App_Capabilities
  imports App_Schema Sat_Auth "HOL-Library.AList"
begin

text \<open>
  Capability invocation (\<^verbatim>\<open>packages/ky-app-server/src/capabilities/define.ts\<close>) over the in-memory execution store
  (\<^verbatim>\<open>capabilities/executionStore.ts\<close>).

  An invocation has two parts with the handler's work in between, during which other invocations run:
  \<open>invoke_begin\<close> is everything up to the call of the handler, \<open>invoke_finish\<close> everything after it. The first part
  waits for the store of token ids, so it is split once more, into \<open>invoke_admit\<close> and \<open>invoke_open\<close>. What the
  handler does (it returns a value, throws, or the time limit passes first) is a parameter of the second part.
  Further parameters are \<open>SHA-256\<close> and the number of octets of the JSON text of a response.

  Messages of errors are left out; only their codes are kept.
\<close>

section \<open>The execution store\<close>

datatype execution_state = ExInProgress | ExDone | ExFailed | ExExpired

record execution_key =
  ek_installationId :: string
  ek_capabilityId :: string
  ek_sub :: string
  ek_lcid :: string

record execution_record =
  er_key :: execution_key
  er_inputHash :: string
  er_status :: execution_state
  er_result :: "jvalue option"
  er_error :: "app_error option"
  er_createdAt :: int
  er_updatedAt :: int
  er_expiresAt :: int

record finish_patch =
  fp_status :: execution_state
  fp_result :: "jvalue option"
  fp_error :: "app_error option"
  fp_at :: int

type_synonym execution_store = "(string \<times> execution_record) list"

definition EXECUTION_RETENTION_MS :: int where
  "EXECUTION_RETENTION_MS = 7 * 24 * 60 * 60 * 1000"

definition keyOf :: "execution_key \<Rightarrow> string" where
  "keyOf key = join_with '' '' [ek_installationId key, ek_capabilityId key, ek_sub key, ek_lcid key]"

definition exec_begin :: "execution_record \<Rightarrow> execution_store \<Rightarrow> execution_store \<times> bool \<times> execution_record" where
  "exec_begin record store =
     (case map_of store (keyOf (er_key record)) of
        Some existing \<Rightarrow> (store, False, existing)
      | None \<Rightarrow> (AList.update (keyOf (er_key record)) record store, True, record))"

definition exec_finish :: "execution_key \<Rightarrow> finish_patch \<Rightarrow> execution_store \<Rightarrow> execution_store" where
  "exec_finish key patch store =
     (case map_of store (keyOf key) of
        None \<Rightarrow> store
      | Some existing \<Rightarrow>
          AList.update (keyOf key)
            (existing\<lparr>er_status := fp_status patch, er_result := nullish (fp_result patch) (er_result existing),
                      er_error := nullish (fp_error patch) (er_error existing), er_updatedAt := fp_at patch,
                      er_expiresAt := fp_at patch + EXECUTION_RETENTION_MS\<rparr>) store)"

definition exec_get :: "execution_key \<Rightarrow> execution_store \<Rightarrow> execution_record option" where
  "exec_get key store = map_of store (keyOf key)"

definition findByLcid :: "string \<Rightarrow> string \<Rightarrow> string \<Rightarrow> execution_store \<Rightarrow> execution_record option" where
  "findByLcid installationId capabilityId lcid store =
     List.find (\<lambda>r. ek_installationId (er_key r) = installationId \<and> ek_capabilityId (er_key r) = capabilityId \<and>
                    ek_lcid (er_key r) = lcid) (map snd store)"

definition overdue :: "int \<Rightarrow> execution_record \<Rightarrow> bool" where
  "overdue nowMs r \<longleftrightarrow> er_status r \<noteq> ExInProgress \<and> er_status r \<noteq> ExExpired \<and> er_expiresAt r \<le> nowMs"

definition expireOverdue :: "int \<Rightarrow> execution_store \<Rightarrow> execution_store \<times> nat" where
  "expireOverdue nowMs store =
     (map (\<lambda>(id, r). (id, if overdue nowMs r then r\<lparr>er_status := ExExpired, er_updatedAt := nowMs, er_result := None\<rparr> else r)) store,
      length (filter (\<lambda>(id, r). overdue nowMs r) store))"

section \<open>Capabilities\<close>

datatype approval_mode = ApprovalNone | ApprovalNeeded

record manifest_capability =
  mc_id :: string
  mc_approval :: approval_mode
  mc_inputSchema :: jvalue
  mc_outputSchema :: jvalue

record capability_env =
  ce_capabilities :: "manifest_capability list"
  ce_handlers :: "string list"
  ce_isEnabled :: "string \<Rightarrow> bool"
  ce_manifestDigest :: "string option"
  ce_sha256 :: "jstring \<Rightarrow> string"
  ce_lt :: "jcs_num \<Rightarrow> jcs_num \<Rightarrow> bool"
  ce_responseBytes :: "jvalue \<Rightarrow> nat"

record capability_state =
  cs_store :: execution_store
  cs_jti :: jti_store

record invocation =
  iv_capabilityId :: string
  iv_identity :: verified_identity
  iv_idempotencyKey :: "string option"
  iv_body :: jvalue
  iv_consumed :: bool
  iv_storeNow :: int
  iv_now :: int

text \<open>\<open>iv_consumed\<close>: whether the identity's token id was consumed before, \<open>iv_storeNow\<close> and \<open>iv_now\<close>: the clock readings.\<close>

datatype capability_error = CapError app_error | CapJcs jcs_error

text \<open>Of capabilities with the same id the last one of the manifest counts.\<close>

definition byId :: "capability_env \<Rightarrow> string \<Rightarrow> manifest_capability option" where
  "byId env capabilityId = List.find (\<lambda>c. mc_id c = capabilityId) (rev (ce_capabilities env))"

definition requireCapability :: "capability_env \<Rightarrow> string \<Rightarrow> capability_error + manifest_capability" where
  "requireCapability env capabilityId =
     (case byId env capabilityId of
        None \<Rightarrow> Inl (CapError NotFound)
      | Some c \<Rightarrow> if \<not> ce_isEnabled env capabilityId then Inl (CapError Forbidden) else Inr c)"

definition requireIdentityField :: "string option \<Rightarrow> capability_error + string" where
  "requireIdentityField v = (if truthy v then Inr (the v) else Inl (CapError Forbidden))"

definition checkIdentityDigest :: "capability_env \<Rightarrow> verified_identity \<Rightarrow> capability_error + unit" where
  "checkIdentityDigest env identity =
     (case (ce_manifestDigest env, vi_dig identity) of
        (Some digest, Some dig) \<Rightarrow> check (timingSafeEqualHex dig digest) (CapError DigestMismatch)
      | _ \<Rightarrow> Inr ())"

definition readInput :: "capability_env \<Rightarrow> jvalue \<Rightarrow> manifest_capability \<Rightarrow> capability_error + jvalue" where
  "readInput env body capability =
     (let input = own_prop body (units ''input'') in
      if \<not> is_record body then Inl (CapError InvalidInput)
      else if \<not> is_record input then Inl (CapError InvalidInput)
      else if \<not> fst (validateAgainstCapabilitySchema (ce_lt env) (mc_inputSchema capability) input (units ''input''))
      then Inl (CapError InvalidInput)
      else Inr input)"

definition sha256_canonical :: "capability_env \<Rightarrow> jvalue \<Rightarrow> capability_error + string" where
  "sha256_canonical env v =
     (case canonicalize v of Inl e \<Rightarrow> Inl (CapJcs e) | Inr t \<Rightarrow> Inr (ce_sha256 env t))"

text \<open>The object whose hash an approval is bound to.\<close>

definition approval_object :: "string \<Rightarrow> jvalue \<Rightarrow> jvalue" where
  "approval_object cap input = VObj [(units ''cap'', VStr (units cap)), (units ''input'', input)]"

definition aph :: "capability_env \<Rightarrow> string \<Rightarrow> jvalue \<Rightarrow> capability_error + string" where
  "aph env cap input = sha256_canonical env (approval_object cap input)"

definition checkApproval :: "capability_env \<Rightarrow> manifest_capability \<Rightarrow> verified_identity \<Rightarrow> jvalue \<Rightarrow> capability_error + unit" where
  "checkApproval env capability identity input =
     (if mc_approval capability \<noteq> ApprovalNeeded then Inr ()
      else (case (vi_apr identity, vi_aph identity) of
              (Some _, Some given) \<Rightarrow>
                bind_res (aph env (mc_id capability) input) (\<lambda>expected.
                check (timingSafeEqualHex given expected) (CapError ApprovalRequired))
            | _ \<Rightarrow> Inl (CapError ApprovalRequired)))"

definition CAPABILITY_RESPONSE_MAX_BYTES :: nat where
  "CAPABILITY_RESPONSE_MAX_BYTES = 6000"

definition checkResponseSize :: "capability_env \<Rightarrow> jvalue \<Rightarrow> app_error + jvalue" where
  "checkResponseSize env data =
     (if ce_responseBytes env data > CAPABILITY_RESPONSE_MAX_BYTES then Inl ResponseTooLarge else Inr data)"

definition replay :: "execution_record \<Rightarrow> string \<Rightarrow> capability_error + jvalue" where
  "replay existing inputHash =
     (if er_inputHash existing \<noteq> inputHash then Inl (CapError IdempotencyMismatch)
      else (case er_status existing of
              ExInProgress \<Rightarrow> Inl (CapError InProgress)
            | ExDone \<Rightarrow> Inr (case er_result existing of None \<Rightarrow> VUndefined | Some v \<Rightarrow> v)
            | ExFailed \<Rightarrow> Inl (CapError (case er_error existing of None \<Rightarrow> Internal | Some e \<Rightarrow> e))
            | ExExpired \<Rightarrow> Inl (CapError IdempotencyMismatch)))"

section \<open>Invocation\<close>

datatype begin_outcome = Replayed jvalue | Execute manifest_capability execution_key jvalue

text \<open>The checks before the token id is consumed: the capability, the idempotency key and the input.\<close>

definition invoke_check ::
  "capability_env \<Rightarrow> invocation \<Rightarrow> capability_error + manifest_capability \<times> execution_key \<times> jvalue" where
  "invoke_check env iv =
     bind_res (requireCapability env (iv_capabilityId iv)) (\<lambda>capability.
     bind_res (checkIdentityDigest env (iv_identity iv)) (\<lambda>_.
     bind_res (requireIdentityField (vi_lcid (iv_identity iv))) (\<lambda>lcid.
     bind_res (requireIdentityField (vi_sub (iv_identity iv))) (\<lambda>sub.
     bind_res (check (iv_idempotencyKey iv = Some lcid) (CapError InvalidInput)) (\<lambda>_.
     bind_res (readInput env (iv_body iv) capability) (\<lambda>input.
     bind_res (checkApproval env capability (iv_identity iv) input) (\<lambda>_.
     Inr (capability,
          \<lparr>ek_installationId = (case str_claim (vi_claims (iv_identity iv)) ''iid'' of None \<Rightarrow> [] | Some i \<Rightarrow> i),
           ek_capabilityId = iv_capabilityId iv, ek_sub = sub, ek_lcid = lcid\<rparr>, input))))))))"

definition consume_identity :: "invocation \<Rightarrow> jti_store \<Rightarrow> jti_store \<times> (capability_error + unit)" where
  "consume_identity iv jti =
     (if iv_consumed iv then (jti, Inr ())
      else (case consume_token (iv_storeNow iv) jti (vi_act (iv_identity iv)) (vi_claims (iv_identity iv)) of
              (jti', Inl e) \<Rightarrow> (jti', Inl (CapError e))
            | (jti', Inr ()) \<Rightarrow> (jti', Inr ())))"

definition new_record :: "execution_key \<Rightarrow> string \<Rightarrow> int \<Rightarrow> execution_record" where
  "new_record key inputHash at =
     \<lparr>er_key = key, er_inputHash = inputHash, er_status = ExInProgress, er_result = None, er_error = None,
      er_createdAt = at, er_updatedAt = at, er_expiresAt = at + EXECUTION_RETENTION_MS\<rparr>"

text \<open>The invocation up to the consumption of the token id, and from the execution record to the call of the handler.\<close>

definition invoke_admit ::
  "capability_env \<Rightarrow> invocation \<Rightarrow> capability_state \<Rightarrow>
   capability_state \<times> (capability_error + manifest_capability \<times> execution_key \<times> jvalue)" where
  "invoke_admit env iv st =
     (case invoke_check env iv of
        Inl e \<Rightarrow> (st, Inl e)
      | Inr checked \<Rightarrow>
          (case consume_identity iv (cs_jti st) of
             (jti, Inl e) \<Rightarrow> (st\<lparr>cs_jti := jti\<rparr>, Inl e)
           | (jti, Inr _) \<Rightarrow> (st\<lparr>cs_jti := jti\<rparr>, Inr checked)))"

definition invoke_open ::
  "capability_env \<Rightarrow> manifest_capability \<times> execution_key \<times> jvalue \<Rightarrow> int \<Rightarrow> capability_state \<Rightarrow>
   capability_state \<times> (capability_error + begin_outcome)" where
  "invoke_open env checked now st =
     (case checked of (capability, key, input) \<Rightarrow>
      case sha256_canonical env input of
        Inl e \<Rightarrow> (st, Inl e)
      | Inr inputHash \<Rightarrow>
          (case exec_begin (new_record key inputHash now) (cs_store st) of
             (store, False, record) \<Rightarrow> (st, bind_res (replay record inputHash) (\<lambda>data. Inr (Replayed data)))
           | (store, True, record) \<Rightarrow>
               if ek_capabilityId key \<notin> set (ce_handlers env)
               then (st\<lparr>cs_store := exec_finish key
                       \<lparr>fp_status = ExFailed, fp_result = None, fp_error = Some Internal, fp_at = now\<rparr> store\<rparr>,
                     Inl (CapError Internal))
               else (st\<lparr>cs_store := store\<rparr>, Inr (Execute capability key input))))"

definition invoke_begin ::
  "capability_env \<Rightarrow> invocation \<Rightarrow> capability_state \<Rightarrow> capability_state \<times> (capability_error + begin_outcome)" where
  "invoke_begin env iv st =
     (case invoke_admit env iv st of
        (st1, Inl e) \<Rightarrow> (st1, Inl e)
      | (st1, Inr checked) \<Rightarrow> invoke_open env checked (iv_now iv) st1)"

datatype handler_outcome = HReturned jvalue | HThrew app_error | HThrewOther | HTimedOut

definition handler_result :: "capability_env \<Rightarrow> manifest_capability \<Rightarrow> handler_outcome \<Rightarrow> app_error + jvalue" where
  "handler_result env capability outcome =
     (case outcome of
        HThrew e \<Rightarrow> Inl e
      | HThrewOther \<Rightarrow> Inl Internal
      | HTimedOut \<Rightarrow> Inl UpstreamUnavailable
      | HReturned data \<Rightarrow>
          if \<not> fst (validateAgainstCapabilitySchema (ce_lt env) (mc_outputSchema capability) data (units ''data''))
          then Inl Internal
          else checkResponseSize env data)"

definition defined_value :: "jvalue \<Rightarrow> jvalue option" where
  "defined_value v = (if v = VUndefined then None else Some v)"

definition invoke_finish ::
  "capability_env \<Rightarrow> manifest_capability \<Rightarrow> execution_key \<Rightarrow> handler_outcome \<Rightarrow> int \<Rightarrow> capability_state \<Rightarrow>
   capability_state \<times> (capability_error + jvalue)" where
  "invoke_finish env capability key outcome now st =
     (case handler_result env capability outcome of
        Inr data \<Rightarrow>
          (st\<lparr>cs_store := exec_finish key \<lparr>fp_status = ExDone, fp_result = defined_value data, fp_error = None, fp_at = now\<rparr> (cs_store st)\<rparr>,
           Inr data)
      | Inl e \<Rightarrow>
          (st\<lparr>cs_store := exec_finish key \<lparr>fp_status = ExFailed, fp_result = None, fp_error = Some e, fp_at = now\<rparr> (cs_store st)\<rparr>,
           Inl (CapError e)))"

text \<open>An invocation whose handler is not overlapped by others.\<close>

definition invoke ::
  "capability_env \<Rightarrow> invocation \<Rightarrow> handler_outcome \<Rightarrow> int \<Rightarrow> capability_state \<Rightarrow> capability_state \<times> (capability_error + jvalue)" where
  "invoke env iv outcome now st =
     (case invoke_begin env iv st of
        (st', Inl e) \<Rightarrow> (st', Inl e)
      | (st', Inr (Replayed data)) \<Rightarrow> (st', Inr data)
      | (st', Inr (Execute capability key input)) \<Rightarrow> invoke_finish env capability key outcome now st')"

section \<open>Queries\<close>

datatype query_response =
    QNotStarted | QInProgress | QDone "jvalue option" | QFailed app_error | QExpired

definition queryExecution ::
  "capability_env \<Rightarrow> string \<Rightarrow> verified_identity \<Rightarrow> string \<Rightarrow> capability_state \<Rightarrow> capability_error + query_response" where
  "queryExecution env capabilityId identity lcid st =
     bind_res (requireCapability env capabilityId) (\<lambda>_.
     bind_res (requireIdentityField (vi_sub identity)) (\<lambda>sub.
     let installationId = (case str_claim (vi_claims identity) ''iid'' of None \<Rightarrow> [] | Some i \<Rightarrow> i) in
     case exec_get \<lparr>ek_installationId = installationId, ek_capabilityId = capabilityId, ek_sub = sub, ek_lcid = lcid\<rparr> (cs_store st) of
       None \<Rightarrow>
         if findByLcid installationId capabilityId lcid (cs_store st) \<noteq> None then Inl (CapError NotFound) else Inr QNotStarted
     | Some r \<Rightarrow>
         Inr (case er_status r of
                ExDone \<Rightarrow> QDone (er_result r)
              | ExFailed \<Rightarrow> QFailed (case er_error r of None \<Rightarrow> Internal | Some e \<Rightarrow> e)
              | ExInProgress \<Rightarrow> QInProgress
              | ExExpired \<Rightarrow> QExpired)))"

section \<open>Overlapping invocations\<close>

text \<open>
  Any number of invocations are under way: admitted ones wait for the execution store, running ones for their
  handler. A step lets one of them proceed, admits another, or expires old records. \<open>cm_started\<close> lists the keys
  for which a handler was called, \<open>cm_answers\<close> what was answered for a settled execution, with the key and the
  hash of the input it was answered for.
\<close>

type_synonym answer = "string \<times> string \<times> (capability_error + jvalue)"

record capability_machine =
  cm_state :: capability_state
  cm_admitted :: "(manifest_capability \<times> execution_key \<times> jvalue) list"
  cm_running :: "(manifest_capability \<times> execution_key \<times> jvalue) list"
  cm_started :: "execution_key list"
  cm_answers :: "answer list"

definition cm_initial :: capability_machine where
  "cm_initial = \<lparr>cm_state = \<lparr>cs_store = [], cs_jti = Map.empty\<rparr>, cm_admitted = [], cm_running = [], cm_started = [], cm_answers = []\<rparr>"

datatype capability_op =
    AdmitOp invocation
  | OpenOp nat int
  | FinishOp nat handler_outcome int
  | ExpireOp int

definition without_nth :: "nat \<Rightarrow> 'a list \<Rightarrow> 'a list" where
  "without_nth i xs = take i xs @ drop (Suc i) xs"

definition settled_answer :: "execution_record \<Rightarrow> (capability_error + jvalue) option" where
  "settled_answer r =
     (case er_status r of
        ExDone \<Rightarrow> Some (Inr (case er_result r of None \<Rightarrow> VUndefined | Some v \<Rightarrow> v))
      | ExFailed \<Rightarrow> Some (Inl (CapError (case er_error r of None \<Rightarrow> Internal | Some e \<Rightarrow> e)))
      | _ \<Rightarrow> None)"

definition answered ::
  "capability_env \<Rightarrow> execution_key \<Rightarrow> jvalue \<Rightarrow> capability_error + jvalue \<Rightarrow> capability_state \<Rightarrow> answer list" where
  "answered env key input reply st =
     (case (sha256_canonical env input, exec_get key (cs_store st)) of
        (Inr h, Some r) \<Rightarrow>
          if er_inputHash r = h \<and> er_status r \<in> {ExDone, ExFailed} then [(keyOf key, h, reply)] else []
      | _ \<Rightarrow> [])"

definition open_step ::
  "capability_env \<Rightarrow> manifest_capability \<times> execution_key \<times> jvalue \<Rightarrow> int \<Rightarrow> capability_machine \<Rightarrow> capability_machine" where
  "open_step env checked now m =
     (case checked of (capability, key, input) \<Rightarrow>
      case invoke_open env checked now (cm_state m) of
        (st, Inr (Execute c k i)) \<Rightarrow>
          m\<lparr>cm_state := st, cm_running := cm_running m @ [(c, k, i)], cm_started := cm_started m @ [k]\<rparr>
      | (st, Inr (Replayed data)) \<Rightarrow>
          m\<lparr>cm_state := st, cm_answers := cm_answers m @ answered env key input (Inr data) st\<rparr>
      | (st, Inl e) \<Rightarrow>
          m\<lparr>cm_state := st, cm_answers := cm_answers m @ answered env key input (Inl e) st\<rparr>)"

definition finish_step ::
  "capability_env \<Rightarrow> manifest_capability \<times> execution_key \<times> jvalue \<Rightarrow> handler_outcome \<Rightarrow> int \<Rightarrow> capability_machine \<Rightarrow>
   capability_machine" where
  "finish_step env running outcome now m =
     (case running of (capability, key, input) \<Rightarrow>
      case invoke_finish env capability key outcome now (cm_state m) of
        (st, reply) \<Rightarrow> m\<lparr>cm_state := st, cm_answers := cm_answers m @ answered env key input reply st\<rparr>)"

definition capability_step :: "capability_env \<Rightarrow> capability_machine \<Rightarrow> capability_op \<Rightarrow> capability_machine" where
  "capability_step env m op =
     (case op of
        AdmitOp iv \<Rightarrow>
          (case invoke_admit env iv (cm_state m) of
             (st, Inr checked) \<Rightarrow> m\<lparr>cm_state := st, cm_admitted := cm_admitted m @ [checked]\<rparr>
           | (st, Inl e) \<Rightarrow> m\<lparr>cm_state := st\<rparr>)
      | OpenOp i now \<Rightarrow>
          if i < length (cm_admitted m)
          then open_step env (cm_admitted m ! i) now (m\<lparr>cm_admitted := without_nth i (cm_admitted m)\<rparr>)
          else m
      | FinishOp i outcome now \<Rightarrow>
          if i < length (cm_running m)
          then finish_step env (cm_running m ! i) outcome now (m\<lparr>cm_running := without_nth i (cm_running m)\<rparr>)
          else m
      | ExpireOp now \<Rightarrow> m\<lparr>cm_state := (cm_state m)\<lparr>cs_store := fst (expireOverdue now (cs_store (cm_state m)))\<rparr>\<rparr>)"

definition capability_run :: "capability_env \<Rightarrow> capability_op list \<Rightarrow> capability_machine" where
  "capability_run env ops = foldl (capability_step env) cm_initial ops"

section \<open>The invariant of overlapping invocations\<close>

text \<open>What the store keeps of a record that is no longer in progress: its input and, until it expires, its answer.\<close>

definition closed :: "execution_record \<Rightarrow> bool" where
  "closed r \<longleftrightarrow> er_status r \<noteq> ExInProgress"

definition store_keeps :: "execution_store \<Rightarrow> execution_store \<Rightarrow> bool" where
  "store_keeps s s' \<longleftrightarrow>
     (\<forall>id r. map_of s id = Some r \<longrightarrow>
        (\<exists>r'. map_of s' id = Some r' \<and> er_inputHash r' = er_inputHash r \<and>
              (closed r \<longrightarrow> closed r' \<and> (er_status r' = ExExpired \<or> settled_answer r' = settled_answer r))))"

definition answers_ok :: "execution_store \<Rightarrow> answer list \<Rightarrow> bool" where
  "answers_ok s as \<longleftrightarrow>
     (\<forall>id h a. (id, h, a) \<in> set as \<longrightarrow>
        (\<exists>r. map_of s id = Some r \<and> er_inputHash r = h \<and> (er_status r = ExExpired \<or> settled_answer r = Some a)))"

definition answers_agree :: "answer list \<Rightarrow> bool" where
  "answers_agree as \<longleftrightarrow>
     (\<forall>id h a h' a'. (id, h, a) \<in> set as \<longrightarrow> (id, h', a') \<in> set as \<longrightarrow> h = h' \<and> a = a')"

definition running_record :: "capability_env \<Rightarrow> execution_store \<Rightarrow> manifest_capability \<times> execution_key \<times> jvalue \<Rightarrow> bool" where
  "running_record env s = (\<lambda>(c, k, i).
     \<exists>r. map_of s (keyOf k) = Some r \<and> er_status r = ExInProgress \<and> er_result r = None \<and> er_error r = None \<and>
         sha256_canonical env i = Inr (er_inputHash r))"

definition run_id :: "manifest_capability \<times> execution_key \<times> jvalue \<Rightarrow> string" where
  "run_id = (\<lambda>(c, k, i). keyOf k)"

definition machine_ok :: "capability_env \<Rightarrow> capability_machine \<Rightarrow> bool" where
  "machine_ok env m \<longleftrightarrow>
     (let s = cs_store (cm_state m) in
      distinct (map run_id (cm_running m)) \<and> (\<forall>x\<in>set (cm_running m). running_record env s x) \<and>
      distinct (map keyOf (cm_started m)) \<and> (\<forall>k\<in>set (cm_started m). map_of s (keyOf k) \<noteq> None) \<and>
      answers_ok s (cm_answers m) \<and> answers_agree (cm_answers m))"

lemma settled_closed: "settled_answer r = Some a \<Longrightarrow> closed r \<and> er_status r \<noteq> ExExpired"
  by (auto simp: settled_answer_def closed_def split: execution_state.splits)

lemma settled_status: "er_status r \<in> {ExDone, ExFailed} \<longleftrightarrow> settled_answer r \<noteq> None"
  by (cases "er_status r") (auto simp: settled_answer_def)

lemma replay_settled: "settled_answer r = Some a \<Longrightarrow> replay r (er_inputHash r) = a"
  by (auto simp: settled_answer_def replay_def split: execution_state.splits)

lemma answers_ok_keeps:
  assumes ok: "answers_ok s as" and keeps: "store_keeps s s'"
  shows "answers_ok s' as"
  unfolding answers_ok_def
proof (intro allI impI)
  fix kid h a
  assume "(kid, h, a) \<in> set as"
  then obtain r where r: "map_of s kid = Some r" "er_inputHash r = h" "er_status r = ExExpired \<or> settled_answer r = Some a"
    using ok unfolding answers_ok_def by blast
  then have cl: "closed r" by (auto simp: closed_def dest: settled_closed)
  obtain r' where r': "map_of s' kid = Some r'" "er_inputHash r' = h"
      "closed r'" "er_status r' = ExExpired \<or> settled_answer r' = settled_answer r"
    using keeps r cl unfolding store_keeps_def by metis
  have "settled_answer r' \<noteq> None \<or> er_status r' = ExExpired"
    using r'(3) by (cases "er_status r'") (auto simp: settled_answer_def closed_def)
  moreover have "settled_answer r = None" if "er_status r = ExExpired"
    using that by (simp add: settled_answer_def)
  ultimately have "er_status r' = ExExpired \<or> settled_answer r' = Some a"
    using r'(4) r(3) by auto
  then show "\<exists>r. map_of s' kid = Some r \<and> er_inputHash r = h \<and> (er_status r = ExExpired \<or> settled_answer r = Some a)"
    using r' by blast
qed

lemma answers_add:
  assumes ok: "answers_ok s as" "answers_agree as"
    and r: "map_of s kid = Some r" "settled_answer r = Some a"
  shows "answers_ok s (as @ [(kid, er_inputHash r, a)]) \<and> answers_agree (as @ [(kid, er_inputHash r, a)])"
proof -
  have old: "h = er_inputHash r \<and> b = a" if "(kid, h, b) \<in> set as" for h b
    using ok(1) that r settled_closed [OF r(2)] by (force simp: answers_ok_def)
  then have "answers_agree (as @ [(kid, er_inputHash r, a)])"
    using ok(2) unfolding answers_agree_def by auto
  moreover have "answers_ok s (as @ [(kid, er_inputHash r, a)])"
    using ok(1) r by (auto simp: answers_ok_def)
  ultimately show ?thesis by simp
qed

lemma store_keeps_refl [simp]: "store_keeps s s"
  by (simp add: store_keeps_def)

lemma store_keeps_update:
  assumes "case map_of s kid of None \<Rightarrow> True | Some r \<Rightarrow> er_inputHash r' = er_inputHash r \<and> \<not> closed r"
  shows "store_keeps s (AList.update kid r' s)"
  using assms by (auto simp: store_keeps_def update_conv' split: option.splits)

lemma expire_map_of:
  "map_of (fst (expireOverdue now s)) kid =
     map_option (\<lambda>r. if overdue now r then r\<lparr>er_status := ExExpired, er_updatedAt := now, er_result := None\<rparr> else r) (map_of s kid)"
  by (induction s) (auto simp: expireOverdue_def)

lemma expire_keeps: "store_keeps s (fst (expireOverdue now s))"
  by (auto simp: store_keeps_def expire_map_of closed_def overdue_def)

lemma set_without_nth: "set (without_nth i xs) \<subseteq> set xs"
  by (auto simp: without_nth_def dest: in_set_takeD in_set_dropD)

lemma without_nth_parts: "i < length xs \<Longrightarrow> xs = take i xs @ xs ! i # drop (Suc i) xs"
  by (rule id_take_nth_drop)

lemma distinct_without_nth:
  assumes "distinct (map f xs)" and "i < length xs"
  shows "distinct (map f (without_nth i xs)) \<and> f (xs ! i) \<notin> f ` set (without_nth i xs)"
proof -
  have "distinct (map f (take i xs @ xs ! i # drop (Suc i) xs))"
    using assms by (simp flip: id_take_nth_drop)
  then show ?thesis by (auto simp: without_nth_def image_Un)
qed

lemma running_record_keeps:
  assumes "running_record env s x" and "map_of s' (run_id x) = map_of s (run_id x)"
  shows "running_record env s' x"
  using assms by (auto simp: running_record_def run_id_def split: prod.splits)

lemma machine_ok_initial: "machine_ok env cm_initial"
  by (simp add: machine_ok_def cm_initial_def answers_ok_def answers_agree_def)

lemma machine_ok_admit:
  "machine_ok env m \<Longrightarrow> machine_ok env (capability_step env m (AdmitOp iv))"
  by (auto simp: capability_step_def machine_ok_def Let_def invoke_admit_def split: prod.splits sum.splits)

lemma machine_ok_expire:
  assumes ok: "machine_ok env m"
  shows "machine_ok env (capability_step env m (ExpireOp now))"
proof -
  let ?s = "cs_store (cm_state m)"
  have "running_record env (fst (expireOverdue now ?s)) x" if "x \<in> set (cm_running m)" for x
    using ok that
    by (force simp: machine_ok_def Let_def running_record_def expire_map_of overdue_def)
  moreover have "answers_ok (fst (expireOverdue now ?s)) (cm_answers m)"
    using ok answers_ok_keeps [OF _ expire_keeps] by (simp add: machine_ok_def Let_def)
  ultimately show ?thesis
    using ok by (simp add: machine_ok_def Let_def capability_step_def expire_map_of)
qed

text \<open>What an invocation does with the execution store.\<close>

lemma open_cases:
  assumes "invoke_open env (c, k, i) now st = (st', out)"
  obtains
    (unhashed) e where "sha256_canonical env i = Inl e" "st' = st" "out = Inl e"
  | (known) h r where "sha256_canonical env i = Inr h" "map_of (cs_store st) (keyOf k) = Some r" "st' = st"
      "out = bind_res (replay r h) (\<lambda>data. Inr (Replayed data))"
  | (unhandled) h r where "sha256_canonical env i = Inr h" "map_of (cs_store st) (keyOf k) = None"
      "map_of (cs_store st') = (map_of (cs_store st))(keyOf k \<mapsto> r)" "er_inputHash r = h"
      "settled_answer r = Some (Inl (CapError Internal))" "out = Inl (CapError Internal)"
  | (fresh) h r where "sha256_canonical env i = Inr h" "map_of (cs_store st) (keyOf k) = None"
      "map_of (cs_store st') = (map_of (cs_store st))(keyOf k \<mapsto> r)" "er_inputHash r = h"
      "er_status r = ExInProgress" "er_result r = None" "er_error r = None" "out = Inr (Execute c k i)"
proof (cases "sha256_canonical env i")
  case (Inl e)
  then show ?thesis using assms unhashed by (simp add: invoke_open_def)
next
  case (Inr h)
  note hash = Inr
  show ?thesis
  proof (cases "map_of (cs_store st) (keyOf k)")
    case (Some r)
    then have "exec_begin (new_record k h now) (cs_store st) = (cs_store st, False, r)"
      by (simp add: exec_begin_def new_record_def)
    then have "invoke_open env (c, k, i) now st = (st, bind_res (replay r h) (\<lambda>data. Inr (Replayed data)))"
      by (simp only: invoke_open_def hash prod.case sum.case bool.case)
    then have "st' = st" "out = bind_res (replay r h) (\<lambda>data. Inr (Replayed data))"
      using assms by (simp_all only: prod.inject)
    with hash Some show ?thesis by (rule known)
  next
    case None
    show ?thesis
    proof (cases "ek_capabilityId k \<in> set (ce_handlers env)")
      case True
      let ?r = "new_record k h now"
      have "st' = st\<lparr>cs_store := AList.update (keyOf k) ?r (cs_store st)\<rparr>" "out = Inr (Execute c k i)"
        using assms True None by (auto simp: invoke_open_def hash exec_begin_def new_record_def)
      then show ?thesis
        using hash None by (intro fresh [of h ?r]) (simp_all add: update_conv' new_record_def)
    next
      case False
      let ?r = "(new_record k h now)\<lparr>er_status := ExFailed, er_error := Some Internal, er_updatedAt := now,
                   er_expiresAt := now + EXECUTION_RETENTION_MS\<rparr>"
      have "st' = st\<lparr>cs_store := AList.update (keyOf k) ?r (AList.update (keyOf k) (new_record k h now) (cs_store st))\<rparr>"
          "out = Inl (CapError Internal)"
        using assms False None by (auto simp: invoke_open_def hash exec_begin_def exec_finish_def new_record_def update_conv')
      then show ?thesis
        using hash None by (intro unhandled [of h ?r]) (simp_all add: update_conv' new_record_def settled_answer_def)
    qed
  qed
qed

text \<open>A new settled record of an unused or running key together with its answer keeps the answers in order.\<close>

lemma answers_settle:
  assumes ok: "answers_ok s as" "answers_agree as"
    and before: "case map_of s k of None \<Rightarrow> True | Some r0 \<Rightarrow> er_inputHash r = er_inputHash r0 \<and> \<not> closed r0"
    and after: "map_of s' = (map_of s)(k \<mapsto> r)" and settled: "settled_answer r = Some a"
  shows "answers_ok s' (as @ [(k, er_inputHash r, a)]) \<and> answers_agree (as @ [(k, er_inputHash r, a)])"
proof -
  have "store_keeps s s'"
    using before after by (auto simp: store_keeps_def split: option.splits)
  from answers_add [OF answers_ok_keeps [OF ok(1) this] ok(2)] show ?thesis
    using after settled by simp
qed

lemma answered_known:
  assumes "answered env k i a st \<noteq> []"
  obtains r where "map_of (cs_store st) (keyOf k) = Some r" "sha256_canonical env i = Inr (er_inputHash r)"
    "settled_answer r \<noteq> None" "answered env k i a st = [(keyOf k, er_inputHash r, a)]"
proof -
  obtain h where h: "sha256_canonical env i = Inr h"
    using assms by (cases "sha256_canonical env i") (simp_all add: answered_def)
  obtain r where r: "map_of (cs_store st) (keyOf k) = Some r"
    using assms h by (cases "map_of (cs_store st) (keyOf k)") (simp_all add: answered_def exec_get_def)
  have hs: "er_inputHash r = h" "er_status r \<in> {ExDone, ExFailed}"
    using assms h r by (simp_all add: answered_def exec_get_def split: if_splits)
  then have "answered env k i a st = [(keyOf k, er_inputHash r, a)]"
    using h r by (simp add: answered_def exec_get_def)
  with r h hs show ?thesis using that settled_status by blast
qed

lemma open_known_answers:
  assumes ok: "answers_ok (cs_store st) as" "answers_agree as"
    and hash: "sha256_canonical env i = Inr h" and known: "map_of (cs_store st) (keyOf k) = Some r"
  shows "answers_ok (cs_store st) (as @ answered env k i (replay r h) st) \<and>
         answers_agree (as @ answered env k i (replay r h) st)"
proof (cases "answered env k i (replay r h) st = []")
  case True
  then show ?thesis using ok by simp
next
  case False
  then obtain r' where r': "map_of (cs_store st) (keyOf k) = Some r'" "sha256_canonical env i = Inr (er_inputHash r')"
      "settled_answer r' \<noteq> None" "answered env k i (replay r h) st = [(keyOf k, er_inputHash r', replay r h)]"
    by (rule answered_known)
  then have same: "r' = r" "er_inputHash r = h" using known hash by simp_all
  obtain a where a: "settled_answer r = Some a" using r'(3) same by auto
  then have "replay r h = a" using replay_settled same by blast
  then show ?thesis using answers_add [OF ok known a] r'(4) same by simp
qed

lemma fresh_running:
  assumes run: "\<forall>x\<in>set xs. running_record env s x" and new: "map_of s kid = None"
    and after: "map_of s' = (map_of s)(kid \<mapsto> r)"
  shows "kid \<notin> run_id ` set xs" and "\<forall>x\<in>set xs. running_record env s' x"
proof -
  have other: "run_id x \<noteq> kid" if "x \<in> set xs" for x
    using run that new by (force simp: running_record_def run_id_def)
  then show "kid \<notin> run_id ` set xs" by blast
  show "\<forall>x\<in>set xs. running_record env s' x"
    using run other after running_record_keeps [of env s _ s'] by simp
qed

lemma machine_ok_open:
  assumes ok: "machine_ok env m"
  shows "machine_ok env (open_step env (c, k, i) now m)"
proof -
  let ?s = "cs_store (cm_state m)"
  obtain st out where inv: "invoke_open env (c, k, i) now (cm_state m) = (st, out)" by fastforce
  have parts: "distinct (map run_id (cm_running m))" "\<forall>x\<in>set (cm_running m). running_record env ?s x"
      "distinct (map keyOf (cm_started m))" "\<forall>k\<in>set (cm_started m). map_of ?s (keyOf k) \<noteq> None"
      "answers_ok ?s (cm_answers m)" "answers_agree (cm_answers m)"
    using ok by (simp_all add: machine_ok_def Let_def)
  from inv show ?thesis
  proof (cases rule: open_cases)
    case (unhashed e)
    then show ?thesis using ok inv by (simp add: open_step_def machine_ok_def answered_def)
  next
    case (known h r)
    have "open_step env (c, k, i) now m = m\<lparr>cm_answers := cm_answers m @ answered env k i (replay r h) (cm_state m)\<rparr>"
      using inv known by (cases "replay r h") (simp_all add: open_step_def bind_res_def)
    then show ?thesis
      using open_known_answers [OF parts(5,6) known(1,2)] parts by (simp add: machine_ok_def Let_def)
  next
    case (unhandled h r)
    have eq: "open_step env (c, k, i) now m =
        m\<lparr>cm_state := st, cm_answers := cm_answers m @ [(keyOf k, er_inputHash r, Inl (CapError Internal))]\<rparr>"
      using inv unhandled settled_status [of r]
      by (simp add: open_step_def answered_def exec_get_def)
    have "answers_ok (cs_store st) (cm_answers m @ [(keyOf k, er_inputHash r, Inl (CapError Internal))]) \<and>
          answers_agree (cm_answers m @ [(keyOf k, er_inputHash r, Inl (CapError Internal))])"
      using answers_settle [OF parts(5,6) _ unhandled(3,5)] unhandled(2) by simp
    then show ?thesis
      using eq parts fresh_running [OF parts(2) unhandled(2,3)] unhandled(3) by (simp add: machine_ok_def Let_def)
  next
    case (fresh h r)
    have eq: "open_step env (c, k, i) now m =
        m\<lparr>cm_state := st, cm_running := cm_running m @ [(c, k, i)], cm_started := cm_started m @ [k]\<rparr>"
      using inv fresh by (simp add: open_step_def)
    have "store_keeps ?s (cs_store st)" using fresh by (auto simp: store_keeps_def)
    then have "answers_ok (cs_store st) (cm_answers m)" using parts(5) by (rule answers_ok_keeps [rotated])
    moreover have "running_record env (cs_store st) (c, k, i)"
      using fresh by (simp add: running_record_def)
    moreover have "keyOf k \<notin> keyOf ` set (cm_started m)"
      using parts(4) fresh(2) by force
    ultimately show ?thesis
      using eq parts fresh_running [OF parts(2) fresh(2,3)] fresh(3)
      by (simp add: machine_ok_def Let_def run_id_def)
  qed
qed

lemma invoke_finish_settles:
  assumes rec: "map_of (cs_store st) (keyOf k) = Some r" "er_result r = None"
    and inv: "invoke_finish env c k outcome now st = (st', reply)"
  obtains r' where "map_of (cs_store st') = (map_of (cs_store st))(keyOf k \<mapsto> r')" "er_inputHash r' = er_inputHash r"
    "settled_answer r' = Some reply"
proof (cases "handler_result env c outcome")
  case (Inl e)
  let ?r = "r\<lparr>er_status := ExFailed, er_result := None, er_error := Some e, er_updatedAt := now, er_expiresAt := now + EXECUTION_RETENTION_MS\<rparr>"
  have "st' = st\<lparr>cs_store := AList.update (keyOf k) ?r (cs_store st)\<rparr>" "reply = Inl (CapError e)"
    using inv rec Inl by (auto simp: invoke_finish_def exec_finish_def)
  then show ?thesis by (intro that [of ?r]) (simp_all add: update_conv' settled_answer_def)
next
  case (Inr data)
  let ?r = "r\<lparr>er_status := ExDone, er_result := defined_value data, er_updatedAt := now, er_expiresAt := now + EXECUTION_RETENTION_MS\<rparr>"
  have "st' = st\<lparr>cs_store := AList.update (keyOf k) ?r (cs_store st)\<rparr>" "reply = Inr data"
    using inv rec Inr by (auto simp: invoke_finish_def exec_finish_def)
  then show ?thesis by (intro that [of ?r]) (simp_all add: update_conv' settled_answer_def defined_value_def)
qed

lemma machine_ok_finish:
  assumes ok: "machine_ok env m" and i: "i < length (cm_running m)" and run: "cm_running m ! i = (c, k, input)"
  shows "machine_ok env (finish_step env (c, k, input) outcome now (m\<lparr>cm_running := without_nth i (cm_running m)\<rparr>))"
proof -
  let ?s = "cs_store (cm_state m)"
  have parts: "distinct (map run_id (cm_running m))" "\<forall>x\<in>set (cm_running m). running_record env ?s x"
      "distinct (map keyOf (cm_started m))" "\<forall>k\<in>set (cm_started m). map_of ?s (keyOf k) \<noteq> None"
      "answers_ok ?s (cm_answers m)" "answers_agree (cm_answers m)"
    using ok by (simp_all add: machine_ok_def Let_def)
  have "running_record env ?s (c, k, input)" using parts(2) i run by (metis nth_mem)
  then obtain r where r: "map_of ?s (keyOf k) = Some r" "er_status r = ExInProgress" "er_result r = None"
      "sha256_canonical env input = Inr (er_inputHash r)"
    by (auto simp: running_record_def)
  obtain st reply where inv: "invoke_finish env c k outcome now (cm_state m) = (st, reply)" by fastforce
  obtain r' where r': "map_of (cs_store st) = (map_of ?s)(keyOf k \<mapsto> r')" "er_inputHash r' = er_inputHash r"
      "settled_answer r' = Some reply"
    using invoke_finish_settles [OF r(1,3) inv] by blast
  have eq: "finish_step env (c, k, input) outcome now (m\<lparr>cm_running := without_nth i (cm_running m)\<rparr>) =
      m\<lparr>cm_running := without_nth i (cm_running m), cm_state := st, cm_answers := cm_answers m @ [(keyOf k, er_inputHash r', reply)]\<rparr>"
    using inv r r' settled_status [of r'] by (simp add: finish_step_def answered_def exec_get_def)
  have ans: "answers_ok (cs_store st) (cm_answers m @ [(keyOf k, er_inputHash r', reply)]) \<and>
        answers_agree (cm_answers m @ [(keyOf k, er_inputHash r', reply)])"
    using answers_settle [OF parts(5,6) _ r'(1,3)] r r'(2) by (simp add: closed_def)
  have dist: "distinct (map run_id (without_nth i (cm_running m)))" "keyOf k \<notin> run_id ` set (without_nth i (cm_running m))"
    using distinct_without_nth [OF parts(1) i] run by (simp_all add: run_id_def)
  have "running_record env (cs_store st) x" if x: "x \<in> set (without_nth i (cm_running m))" for x
  proof (rule running_record_keeps)
    have "x \<in> set (cm_running m)" by (rule subsetD [OF set_without_nth x])
    then show "running_record env ?s x" using parts(2) by simp
    have "run_id x \<noteq> keyOf k" using dist(2) x by (metis imageI)
    then show "map_of (cs_store st) (run_id x) = map_of ?s (run_id x)" using r'(1) by simp
  qed
  then show ?thesis using eq parts ans dist r'(1) by (simp add: machine_ok_def Let_def)
qed

lemma machine_ok_step:
  assumes "machine_ok env m"
  shows "machine_ok env (capability_step env m op)"
proof (cases op)
  case (AdmitOp iv)
  then show ?thesis using machine_ok_admit [OF assms] by simp
next
  case (OpenOp i now)
  have "machine_ok env (m\<lparr>cm_admitted := xs\<rparr>)" for xs using assms by (simp add: machine_ok_def)
  then show ?thesis
    using assms OpenOp machine_ok_open by (cases "cm_admitted m ! i") (auto simp: capability_step_def)
next
  case (FinishOp i outcome now)
  then show ?thesis
    using assms machine_ok_finish by (cases "cm_running m ! i") (auto simp: capability_step_def)
next
  case (ExpireOp now)
  then show ?thesis using machine_ok_expire [OF assms] by simp
qed

definition bound_input :: "capability_machine \<Rightarrow> string \<Rightarrow> string option" where
  "bound_input m kid = map_option er_inputHash (map_of (cs_store (cm_state m)) kid)"

lemma open_keeps:
  assumes "invoke_open env checked now st = (st', out)"
  shows "store_keeps (cs_store st) (cs_store st')"
proof -
  obtain c k i where checked: "checked = (c, k, i)" by (cases checked)
  from assms show ?thesis unfolding checked
    by (cases rule: open_cases) (auto simp: store_keeps_def)
qed

lemma finish_keeps_input:
  "map_of (cs_store st) kid = Some r \<Longrightarrow>
   \<exists>r'. map_of (cs_store (fst (invoke_finish env c k outcome now st))) kid = Some r' \<and> er_inputHash r' = er_inputHash r"
  by (auto simp: invoke_finish_def exec_finish_def update_conv' split: sum.splits option.splits)

lemma bound_input_step:
  assumes "bound_input m kid = Some h"
  shows "bound_input (capability_step env m op) kid = Some h"
proof -
  have keep: "map_option er_inputHash (map_of s' kid) = Some h" if "store_keeps (cs_store (cm_state m)) s'" for s'
    using that assms by (fastforce simp: store_keeps_def bound_input_def)
  show ?thesis
  proof (cases op)
    case (AdmitOp iv)
    then show ?thesis
      using assms by (auto simp: capability_step_def invoke_admit_def bound_input_def split: prod.splits sum.splits)
  next
    case (OpenOp i now)
    then show ?thesis
      using assms open_keeps [of env "cm_admitted m ! i" now "cm_state m"] keep
      by (fastforce simp: capability_step_def open_step_def bound_input_def split: prod.splits sum.splits begin_outcome.splits)
  next
    case (FinishOp i outcome now)
    obtain c k input where run: "cm_running m ! i = (c, k, input)" by (cases "cm_running m ! i")
    show ?thesis
      using assms FinishOp run finish_keeps_input [of "cm_state m" kid _ env c k outcome now]
      by (auto simp: capability_step_def finish_step_def bound_input_def split: prod.splits)
  next
    case (ExpireOp now)
    then show ?thesis using keep [OF expire_keeps] by (simp add: capability_step_def bound_input_def)
  qed
qed

text \<open>The input an idempotency key was first used with is decided once.\<close>

interpretation input_binding: write_once "machine_ok env" "\<lambda>_. True" bound_input "capability_step env" for env
  by unfold_locales (simp_all add: machine_ok_step bound_input_step)

lemma run_ok: "machine_ok env (capability_run env ops)"
  unfolding capability_run_def
  by (rule input_binding.run_inv) (simp_all add: machine_ok_initial list_all_iff)

section \<open>Claims\<close>

text \<open>C3. However invocations overlap, whatever their handlers do and whenever records expire, the handler of a
  capability is called at most once for an execution key (installation, capability, user and call id), and every
  key it was called for has a record.\<close>

theorem executed_at_most_once:
  "distinct (map keyOf (cm_started (capability_run env ops))) \<and>
   keyOf ` set (cm_started (capability_run env ops)) \<subseteq> fst ` set (cs_store (cm_state (capability_run env ops)))"
  using run_ok [of env ops] by (auto simp: machine_ok_def Let_def map_of_eq_None_iff)


definition demo_capability :: manifest_capability where
  "demo_capability = \<lparr>mc_id = ''c'', mc_approval = ApprovalNone, mc_inputSchema = VObj [], mc_outputSchema = VObj []\<rparr>"

definition demo_capability_env :: capability_env where
  "demo_capability_env =
     \<lparr>ce_capabilities = [demo_capability], ce_handlers = [''c''], ce_isEnabled = (\<lambda>_. True), ce_manifestDigest = None,
      ce_sha256 = (\<lambda>_. ''h''), ce_lt = demo_lt, ce_responseBytes = (\<lambda>_. 10)\<rparr>"

definition demo_agent :: verified_identity where
  "demo_agent =
     \<lparr>vi_act = ActAgent, vi_sub = Some ''u'', vi_tadm = False, vi_pfx = [], vi_cap = Some ''c'', vi_lcid = Some ''l'',
      vi_dig = None, vi_apr = None, vi_aph = None, vi_rid = None, vi_sid = None, vi_name = None, vi_jti = ''j'',
      vi_claims = [(''iid'', JStr ''i'')], vi_kid = ''k''\<rparr>"

definition demo_invocation :: invocation where
  "demo_invocation =
     \<lparr>iv_capabilityId = ''c'', iv_identity = demo_agent, iv_idempotencyKey = Some ''l'',
      iv_body = VObj [(units ''input'', VObj [])], iv_consumed = True, iv_storeNow = 0, iv_now = 0\<rparr>"

definition demo_key :: execution_key where
  "demo_key = \<lparr>ek_installationId = ''i'', ek_capabilityId = ''c'', ek_sub = ''u'', ek_lcid = ''l''\<rparr>"

definition demo_ops :: "capability_op list" where
  "demo_ops = [AdmitOp demo_invocation, AdmitOp demo_invocation, OpenOp 0 5, FinishOp 0 (HReturned VNull) 6, OpenOp 0 7]"

lemma demo_admits: "invoke_admit demo_capability_env demo_invocation st = (st, Inr (demo_capability, demo_key, VObj []))"
proof -
  have "invoke_check demo_capability_env demo_invocation = Inr (demo_capability, demo_key, VObj [])" by code_simp
  then show ?thesis by (simp add: invoke_admit_def consume_identity_def demo_invocation_def)
qed

lemma demo_finishes: "handler_result demo_capability_env demo_capability (HReturned VNull) = Inr VNull"
  by code_simp

lemma demo_hash: "sha256_canonical demo_capability_env (VObj []) = Inr ''h''"
  by (simp add: sha256_canonical_def canonicalize_def js_sort_def demo_capability_env_def)

lemma demo_run:
  "cm_answers (capability_run demo_capability_env demo_ops) = [(keyOf demo_key, ''h'', Inr VNull), (keyOf demo_key, ''h'', Inr VNull)]"
  unfolding capability_run_def demo_ops_def cm_initial_def foldl.simps
  by (simp add: capability_step_def demo_admits open_step_def invoke_open_def demo_hash exec_begin_def new_record_def
      without_nth_def finish_step_def invoke_finish_def demo_finishes exec_finish_def answered_def exec_get_def replay_def
      defined_value_def)
    (simp add: demo_capability_env_def demo_key_def)


text \<open>A call id stays bound to the input it was first used with: whatever happens after an execution with some input
  was recorded, an invocation with the same key and an input of another hash is refused as an idempotency
  mismatch and changes nothing.\<close>

theorem call_id_bound_to_input:
  assumes "bound_input (capability_run env early) (keyOf key) = Some h"
    and "sha256_canonical env input = Inr h'" and "h' \<noteq> h"
  shows "invoke_open env (capability, key, input) now (cm_state (capability_run env (early @ late))) =
         (cm_state (capability_run env (early @ late)), Inl (CapError IdempotencyMismatch))"
proof -
  have "bound_input (capability_run env (early @ late)) (keyOf key) = Some h"
    using input_binding.run_keeps [of env "capability_run env early" late "keyOf key" h] run_ok assms(1)
    by (simp add: capability_run_def list_all_iff)
  then show ?thesis
    using assms(2,3)
    by (auto simp: bound_input_def invoke_open_def exec_begin_def new_record_def replay_def bind_res_def)
qed

definition demo_length_env :: capability_env where
  "demo_length_env = demo_capability_env\<lparr>ce_sha256 := (\<lambda>t. if length t = 2 then ''h'' else ''g'')\<rparr>"

lemma call_id_bound_to_input_witness:
  "snd (invoke_open demo_length_env (demo_capability, demo_key, VObj [([97], VNull)]) 9
     (cm_state (capability_run demo_length_env ([AdmitOp demo_invocation, OpenOp 0 5] @ [FinishOp 0 (HReturned VNull) 6])))) =
   Inl (CapError IdempotencyMismatch)"
proof -
  have chk: "invoke_check demo_length_env demo_invocation = Inr (demo_capability, demo_key, VObj [])" by code_simp
  have adm: "invoke_admit demo_length_env demo_invocation st = (st, Inr (demo_capability, demo_key, VObj []))" for st
    using chk by (simp add: invoke_admit_def consume_identity_def) (simp add: demo_invocation_def)
  have hash: "sha256_canonical demo_length_env (VObj []) = Inr ''h''"
      "sha256_canonical demo_length_env (VObj [([97], VNull)]) = Inr ''g''"
    by (simp_all add: sha256_canonical_def demo_length_env_def demo_capability_env_def jcs_eval)
  have "bound_input (capability_run demo_length_env [AdmitOp demo_invocation, OpenOp 0 5]) (keyOf demo_key) = Some ''h''"
    unfolding capability_run_def cm_initial_def foldl.simps
    by (simp add: capability_step_def adm open_step_def invoke_open_def hash exec_begin_def new_record_def without_nth_def bound_input_def
        exec_finish_def)
  from call_id_bound_to_input [OF this hash(2)] show ?thesis by simp
qed

lemma lower_hex_inj: "inj_on hex_char_value (set ''0123456789abcdef'')"
proof -
  have "distinct (map hex_char_value ''0123456789abcdef'')" by code_simp
  then show ?thesis by (simp only: distinct_map)
qed

lemma timingSafeEqualHex_lower:
  assumes "HEX_64 x" "HEX_64 y" "timingSafeEqualHex x y"
  shows "x = y"
proof -
  have "set x \<subseteq> set ''0123456789abcdef''" "set y \<subseteq> set ''0123456789abcdef''"
    using assms(1,2) unfolding HEX_64_def list_all_iff by blast+
  then have "inj_on hex_char_value (set x \<union> set y)"
    using lower_hex_inj by (meson Un_least inj_on_subset)
  then show ?thesis using assms(3) unfolding timingSafeEqualHex_def by (simp add: inj_on_map_eq_map)
qed

lemma approval_checked:
  assumes "checkApproval env c identity input = Inr ()" and "mc_approval c = ApprovalNeeded"
  obtains given expected where "vi_apr identity \<noteq> None" "vi_aph identity = Some given"
    "aph env (mc_id c) input = Inr expected" "timingSafeEqualHex given expected"
  using assms by (auto simp: checkApproval_def bind_res_Inr_iff check_def split: option.splits if_splits)

lemma norm_approval_object:
  "norm_value (approval_object cap input) = norm_value (approval_object cap' input') \<longleftrightarrow>
   cap = cap' \<and> norm_value input = norm_value input'"
proof -
  have "[99, 97, 112] \<le> [105, 110, 112, 117, 116 :: nat]" by simp
  then show ?thesis
    by (auto simp: approval_object_def js_sort_def key_le_def units_def inj_map_eq_map inj_def)
qed

text \<open>C21. Consent is bound to what is executed: an invocation of a capability that needs approval passes the checks only
  with an approval, and when the hash it carries was computed for some capability and input, then it was for
  this capability and this input (up to the order of fields), given that the hash function does not collide on
  the two canonical texts and writes lower-case hexadecimal digits.\<close>

theorem approval_bound:
  assumes checked: "invoke_check env iv = Inr (c, key, input)" and needed: "mc_approval c = ApprovalNeeded"
    and hex: "\<And>t. HEX_64 (ce_sha256 env t)"
    and issued: "\<And>given. vi_aph (iv_identity iv) = Some given \<Longrightarrow> aph env cap' input' = Inr given"
    and no_collision: "\<And>t u. canonicalize (approval_object cap' input') = Inr t \<Longrightarrow>
      canonicalize (approval_object (mc_id c) input) = Inr u \<Longrightarrow> ce_sha256 env t = ce_sha256 env u \<Longrightarrow> t = u"
    and plain: "plain read input" "plain read input'"
  shows "vi_apr (iv_identity iv) \<noteq> None \<and> cap' = mc_id c \<and> norm_value input' = norm_value input"
proof -
  have "checkApproval env c (iv_identity iv) input = Inr ()"
    using checked by (auto simp: invoke_check_def bind_res_Inr_iff split: if_splits)
  then obtain given expected where a: "vi_apr (iv_identity iv) \<noteq> None" "vi_aph (iv_identity iv) = Some given"
      "aph env (mc_id c) input = Inr expected" "timingSafeEqualHex given expected"
    using needed by (rule approval_checked)
  obtain t where t: "canonicalize (approval_object cap' input') = Inr t" "given = ce_sha256 env t"
    using issued [OF a(2)] by (auto simp: aph_def sha256_canonical_def split: sum.splits)
  obtain u where u: "canonicalize (approval_object (mc_id c) input) = Inr u" "expected = ce_sha256 env u"
    using a(3) by (auto simp: aph_def sha256_canonical_def split: sum.splits)
  have "t = u" using no_collision [OF t(1) u(1)] timingSafeEqualHex_lower a(4) hex t(2) u(2) by blast
  moreover have "plain read (approval_object cap' input')" "plain read (approval_object (mc_id c) input)"
    using plain by (simp_all add: approval_object_def units_def)
  ultimately have "norm_value (approval_object cap' input') = norm_value (approval_object (mc_id c) input)"
    using parse_canonical [OF t(1), of read] parse_canonical [OF u(1), of read] by simp
  then show ?thesis using a(1) by (simp add: norm_approval_object)
qed

definition demo_approval_env :: capability_env where
  "demo_approval_env = demo_capability_env\<lparr>ce_capabilities := [demo_capability\<lparr>mc_approval := ApprovalNeeded\<rparr>],
     ce_sha256 := (\<lambda>_. replicate 64 (CHR ''0''))\<rparr>"

definition demo_approved :: invocation where
  "demo_approved = demo_invocation\<lparr>iv_identity := demo_agent\<lparr>vi_apr := Some ''ok'', vi_aph := Some (replicate 64 (CHR ''0''))\<rparr>,
     iv_body := VObj [(units ''input'', VObj [([97], VNull), ([98], VBool True)])]\<rparr>"

lemma approval_bound_witness:
  "vi_apr (iv_identity demo_approved) \<noteq> None \<and> ''c'' = mc_id demo_capability \<and>
   norm_value (VObj [([98], VBool True), ([97], VNull)]) = norm_value (VObj [([97], VNull), ([98], VBool True)])"
proof -
  let ?v = "VObj [([97], VNull), ([98], VBool True)]"
  let ?w = "VObj [([98], VBool True), ([97], VNull)]"
  let ?c = "demo_capability\<lparr>mc_approval := ApprovalNeeded\<rparr>"
  have input: "readInput demo_approval_env (iv_body demo_approved) ?c = Inr ?v" by code_simp
  have "canonicalize (approval_object (mc_id ?c) ?v) \<noteq> Inl e" for e
    by (simp add: approval_object_def jcs_eval demo_capability_def)
  moreover have "timingSafeEqualHex (replicate 64 (CHR ''0'')) (replicate 64 (CHR ''0''))"
    by (simp add: timingSafeEqualHex_def list_all_iff hex_char_value_def hex_value_def is_digit_def)
  ultimately have approval: "checkApproval demo_approval_env ?c (iv_identity demo_approved) ?v = Inr ()"
    by (auto simp: checkApproval_def demo_approved_def aph_def sha256_canonical_def check_def demo_approval_env_def split: sum.splits)
  have fields: "byId demo_approval_env ''c'' = Some ?c"
    "ce_isEnabled demo_approval_env ''c''" "ce_manifestDigest demo_approval_env = None"
    "vi_lcid (iv_identity demo_approved) = Some ''l''" "vi_sub (iv_identity demo_approved) = Some ''u''"
    "iv_idempotencyKey demo_approved = Some ''l''" "iv_capabilityId demo_approved = ''c''"
    "str_claim (vi_claims (iv_identity demo_approved)) ''iid'' = Some ''i''"
    by (simp_all add: byId_def demo_approval_env_def demo_approved_def demo_invocation_def demo_agent_def demo_capability_env_def
        demo_capability_def str_claim_def js_prop_def)
  have checked: "invoke_check demo_approval_env demo_approved = Inr (?c, demo_key, ?v)"
    by (simp add: invoke_check_def requireCapability_def checkIdentityDigest_def requireIdentityField_def fields input approval
        check_def demo_key_def)
  have same: "canonicalize (approval_object ''c'' ?w) = canonicalize (approval_object (mc_id ?c) ?v)"
    by (simp add: approval_object_def jcs_eval demo_capability_def)
  have canon: "\<exists>t. canonicalize (approval_object ''c'' ?w) = Inr t"
    by (simp add: approval_object_def jcs_eval)
  have "vi_apr (iv_identity demo_approved) \<noteq> None \<and> ''c'' = mc_id ?c \<and> norm_value ?w = norm_value ?v"
  proof (rule approval_bound [OF checked, where read = demo_read])
    show "mc_approval ?c = ApprovalNeeded" by simp
    show "HEX_64 (ce_sha256 demo_approval_env t)" for t by (simp add: demo_approval_env_def HEX_64_def list_all_iff)
    show "aph demo_approval_env ''c'' ?w = Inr given" if "vi_aph (iv_identity demo_approved) = Some given" for given
      using that canon by (auto simp: aph_def sha256_canonical_def demo_approved_def demo_approval_env_def)
    show "t = u" if "canonicalize (approval_object ''c'' ?w) = Inr t" "canonicalize (approval_object (mc_id ?c) ?v) = Inr u" for t u
      using that same by simp
    show "plain demo_read ?v" "plain demo_read ?w" by simp_all
  qed
  then show ?thesis by simp
qed

text \<open>
  The in-memory store joins the parts of a key with a blank, so that the keys of two users' calls coincide when a
  part holds a blank: the second user is answered from the first one's record.
\<close>

theorem execution_keys_collide:
  "\<exists>k k'. ek_sub k \<noteq> ek_sub k' \<and> keyOf k = keyOf k' \<and>
     (\<forall>r. exec_get k' [(keyOf k, r)] = Some r)"
proof (intro exI conjI)
  let ?k = "\<lparr>ek_installationId = ''i'', ek_capabilityId = ''c'', ek_sub = ''a b'', ek_lcid = ''l''\<rparr>"
  let ?k' = "\<lparr>ek_installationId = ''i'', ek_capabilityId = ''c'', ek_sub = ''a'', ek_lcid = ''b l''\<rparr>"
  show "ek_sub ?k \<noteq> ek_sub ?k'" by simp
  show same: "keyOf ?k = keyOf ?k'" by (simp add: keyOf_def)
  then show "\<forall>r. exec_get ?k' [(keyOf ?k, r)] = Some r" by (simp add: exec_get_def)
qed

end
