(* ===== verification/App_Runtime.thy ===== *)
theory App_Runtime
  imports Break_Glass Install_Events App_Directory App_Capabilities
begin

text \<open>
  The adapter that joins the components of an installed application: the shared runtime
  (\<^verbatim>\<open>packages/ky-app-server/src/hono/runtime.ts\<close>), the middleware for business routes (\<^verbatim>\<open>hono/middleware.ts\<close>)
  and the handlers of the router (\<^verbatim>\<open>hono/router.ts\<close>).

  The state is that of the components: platform events and key set client, consumed token ids, break-glass mode,
  directory and execution records. A handler is a function on this state. What the HTTP framework does before a
  handler runs (matching the route, reading the body) gives the handler its arguments: the method, the path of
  the URL, the headers that it reads and the body, \<open>JNull\<close> or \<open>VNull\<close> when it is not JSON.

  The JOSE functions, the deployment's configuration, the bindings of the second protocol version and the
  application's callbacks are parameters. Requests are handled one after the other, except that a capability's
  handler runs between \<open>capability_begin\<close> and the end of its invocation (theory \<open>App_Capabilities\<close>).
\<close>

section \<open>State and parameters\<close>

record app_state =
  as_events :: events_state
  as_jti :: jti_store
  as_bg :: bg_state
  as_directory :: directory_store
  as_executions :: execution_store

datatype binding_state = BindingActivating | BindingConnected | BindingDegraded | BindingRevoked

record installation_binding =
  ib_installationId :: string
  ib_tenantId :: string
  ib_systemId :: string
  ib_platformIssuer :: string
  ib_state :: binding_state

text \<open>
  \<open>rt_v2\<close> is the lookup of a binding when the second protocol version is enabled, \<open>rt_localKeys\<close> the key ring
  for local tokens, from \<open>localAuthKeys\<close> or \<open>localKeys\<close>, \<open>rt_gated\<close> whether the directory's staleness gates
  business requests.
\<close>

record rt_env =
  rt_config :: app_config
  rt_prefixes :: path_prefixes
  rt_manifestDigest :: string
  rt_test :: bool
  rt_localKeys :: "local_key_ring option"
  rt_breakGlass :: "string bg_env option"
  rt_gated :: bool
  rt_v2 :: "(string \<Rightarrow> installation_binding option) option"
  rt_decode :: "string \<Rightarrow> jwt_header option"
  rt_decodeJwt :: "string \<Rightarrow> (string \<times> json) list option"
  rt_jwtVerify :: "string \<Rightarrow> string \<Rightarrow> int \<Rightarrow> json option"
  rt_localJose :: "string local_jose"
  rt_eventsEnv :: events_env
  rt_capabilities :: capability_env

text \<open>What one request finds: the clock at the places that read it, and the key set endpoint.\<close>

record rt_call =
  ca_bgNow :: int
  ca_now :: int
  ca_storeNow :: int
  ca_jwks :: events_call

record auth_input =
  ai_method :: string
  ai_pathname :: jstring
  ai_authorization :: "string option"
  ai_requestId :: string
  ai_consumeJti :: "bool option"

datatype request_identity = SatIdentity verified_identity | LocalIdentity local_identity

fun ri_actor :: "request_identity \<Rightarrow> endpoint_actor" where
  "ri_actor (SatIdentity v) = SatActor (vi_act v)"
| "ri_actor (LocalIdentity l) = LocalActor (lid_act l)"

fun ri_tadm :: "request_identity \<Rightarrow> bool" where
  "ri_tadm (SatIdentity v) = vi_tadm v"
| "ri_tadm (LocalIdentity l) = lid_tadm l"

section \<open>The runtime\<close>

definition installationState :: "app_state \<Rightarrow> installation_state" where
  "installationState st = ir_state (es_record (as_events st))"

definition localModeActive :: "rt_env \<Rightarrow> rt_call \<Rightarrow> app_state \<Rightarrow> app_state \<times> bool" where
  "localModeActive env call st =
     (if rt_breakGlass env = None then (st, False)
      else (case isActive (ca_bgNow call) (as_bg st) of (bg, active) \<Rightarrow> (st\<lparr>as_bg := bg\<rparr>, active)))"

definition ALWAYS_REACHABLE :: "jstring list" where
  "ALWAYS_REACHABLE = [units ''/ky/v1/events'', units ''/ky/v1/health/'', units ''/ky/v2/events'', units ''/ky/v2/health/'']"

definition assertInstallationUsable :: "rt_env \<Rightarrow> jstring \<Rightarrow> app_state \<Rightarrow> app_error + unit" where
  "assertInstallationUsable env pathname st =
     (if rt_v2 env \<noteq> None then Inr ()
      else if installationState st = InstEnabled then Inr ()
      else if list_ex (starts_with pathname) ALWAYS_REACHABLE then Inr ()
      else Inl InstallationDisabled)"

definition stalenessGate :: "rt_env \<Rightarrow> rt_call \<Rightarrow> app_state \<Rightarrow> staleness_gate option" where
  "stalenessGate env call st = (if rt_gated env then Some (staleness (ca_now call) (as_directory st)) else None)"

definition authenticate_local ::
  "rt_env \<Rightarrow> rt_call \<Rightarrow> auth_input \<Rightarrow> string \<Rightarrow> app_state \<Rightarrow> app_state \<times> (app_error + request_identity)" where
  "authenticate_local env call input token st =
     (case rt_localKeys env of
        None \<Rightarrow> (st, Inl Unauthorized)
      | Some keys \<Rightarrow>
          (case localModeActive env call st of (st1, active) \<Rightarrow>
             (st1, bind_res (verifyLocalToken (rt_localJose env) (ca_now call) token
                \<lparr>lo_config = rt_config env, lo_keys = keys, lo_localMode = active,
                 lo_installationState = installationState st1, lo_method = ai_method input,
                 lo_pathname = ai_pathname input, lo_pathPrefixes = rt_prefixes env,
                 lo_testEndpoints = Some (rt_test env)\<rparr>) (\<lambda>l. Inr (LocalIdentity l)))))"

text \<open>With the second protocol version, the configuration comes from the binding that the token names.\<close>

definition effective_config :: "rt_env \<Rightarrow> string \<Rightarrow> app_error + app_config" where
  "effective_config env token =
     (case rt_v2 env of
        None \<Rightarrow> Inr (rt_config env)
      | Some get \<Rightarrow>
          (case rt_decodeJwt env token of
             None \<Rightarrow> Inl Unauthorized
           | Some unverified \<Rightarrow>
               (case js_prop unverified ''iid'' of
                  JStr iid \<Rightarrow>
                    (case get iid of
                       None \<Rightarrow> Inl Unauthorized
                     | Some binding \<Rightarrow>
                         if ib_state binding = BindingRevoked then Inl Unauthorized
                         else if ib_state binding \<noteq> BindingConnected \<and> js_prop unverified ''act'' \<noteq> JStr ''platform''
                         then Inl Unauthorized
                         else Inr ((rt_config env)\<lparr>cfg_tenantId := ib_tenantId binding,
                                cfg_installationId := ib_installationId binding,
                                cfg_systemId := ib_systemId binding, cfg_issuer := ib_platformIssuer binding\<rparr>))
                | _ \<Rightarrow> Inl Unauthorized)))"

text \<open>
  The key id for which \<open>verifySat\<close> asks the key set client, if it gets that far. The library that it is called
  with answers for the client in its current state.
\<close>

definition asked_kid :: "rt_env \<Rightarrow> string \<Rightarrow> string option" where
  "asked_kid env token =
     (case rt_decode env token of
        None \<Rightarrow> None
      | Some header \<Rightarrow>
          if jh_alg header = Some ''ES256'' \<and> jh_typ header = Some ''ky-sat+jwt'' \<and> truthy (jh_kid header)
          then jh_kid header else None)"

definition client_getKey :: "rt_env \<Rightarrow> rt_call \<Rightarrow> string \<Rightarrow> jwks_state \<Rightarrow> jwks_state \<times> (app_error + string)" where
  "client_getKey env call kid jwks =
     getKey (ee_importJWK (rt_eventsEnv env)) (ec_now (ca_jwks call)) (ec_fetched (ca_jwks call)) (ec_sched (ca_jwks call)) kid jwks"

definition sat_lib :: "rt_env \<Rightarrow> rt_call \<Rightarrow> jwks_state \<Rightarrow> jose" where
  "sat_lib env call jwks =
     \<lparr>decodeProtectedHeader = rt_decode env, jwks_getKey = (\<lambda>kid. snd (client_getKey env call kid jwks)),
      jwtVerify = rt_jwtVerify env\<rparr>"

definition after_getKey :: "rt_env \<Rightarrow> rt_call \<Rightarrow> string \<Rightarrow> app_state \<Rightarrow> app_state" where
  "after_getKey env call token st =
     (case asked_kid env token of
        None \<Rightarrow> st
      | Some kid \<Rightarrow>
          st\<lparr>as_events := (as_events st)\<lparr>es_jwks := fst (client_getKey env call kid (es_jwks (as_events st)))\<rparr>\<rparr>)"

definition authenticate_sat ::
  "rt_env \<Rightarrow> rt_call \<Rightarrow> auth_input \<Rightarrow> string \<Rightarrow> app_config \<Rightarrow> app_state \<Rightarrow> app_state \<times> (app_error + request_identity)" where
  "authenticate_sat env call input token config st =
     (case localModeActive env call st of (st1, active) \<Rightarrow>
      case verifySat (sat_lib env call (es_jwks (as_events st1))) (ca_now call) (ca_storeNow call) (as_jti st1) token
             \<lparr>so_config = config,
              so_request = \<lparr>sr_method = ai_method input, sr_pathname = ai_pathname input, sr_requestId = Some (ai_requestId input)\<rparr>,
              so_pathPrefixes = rt_prefixes env, so_manifestDigest = rt_manifestDigest env,
              so_localMode = Some active, so_testEndpoints = Some (rt_test env), so_consumeJti = ai_consumeJti input\<rparr> of
        (jti, r) \<Rightarrow> ((after_getKey env call token st1)\<lparr>as_jti := jti\<rparr>, bind_res r (\<lambda>v. Inr (SatIdentity v))))"

definition authenticate ::
  "rt_env \<Rightarrow> rt_call \<Rightarrow> auth_input \<Rightarrow> app_state \<Rightarrow> app_state \<times> (app_error + request_identity)" where
  "authenticate env call input st =
     (case readBearerToken (ai_authorization input) of
        None \<Rightarrow> (st, Inl Unauthorized)
      | Some token \<Rightarrow>
          (case rt_decode env token of
             None \<Rightarrow> (st, Inl Unauthorized)
           | Some header \<Rightarrow>
               if jh_typ header = Some ''ky-local+jwt'' then authenticate_local env call input token st
               else (case effective_config env token of
                       Inl e \<Rightarrow> (st, Inl e)
                     | Inr config \<Rightarrow> authenticate_sat env call input token config st)))"

section \<open>Handlers\<close>

record http_request =
  hr_method :: string
  hr_pathname :: jstring
  hr_authorization :: "string option"
  hr_requestId :: string

definition auth_input_of :: "http_request \<Rightarrow> bool option \<Rightarrow> auth_input" where
  "auth_input_of r consumeJti =
     \<lparr>ai_method = hr_method r, ai_pathname = hr_pathname r, ai_authorization = hr_authorization r,
      ai_requestId = hr_requestId r, ai_consumeJti = consumeJti\<rparr>"

text \<open>The router's \<open>authenticate\<close>: first the state of the installation, then the token.\<close>

definition route_authenticate ::
  "rt_env \<Rightarrow> rt_call \<Rightarrow> http_request \<Rightarrow> bool \<Rightarrow> app_state \<Rightarrow> app_state \<times> (app_error + request_identity)" where
  "route_authenticate env call r consumeJti st =
     (case assertInstallationUsable env (hr_pathname r) st of
        Inl e \<Rightarrow> (st, Inl e)
      | Inr _ \<Rightarrow> authenticate env call (auth_input_of r (Some consumeJti)) st)"

definition requireSat :: "request_identity \<Rightarrow> app_error + verified_identity" where
  "requireSat identity = (case identity of SatIdentity v \<Rightarrow> Inr v | LocalIdentity _ \<Rightarrow> Inl Forbidden)"

text \<open>The checks of \<open>requireUser\<close> after authentication; \<open>write\<close> is the option that overrides the method.\<close>

definition user_gate ::
  "rt_env \<Rightarrow> rt_call \<Rightarrow> bool option \<Rightarrow> http_request \<Rightarrow> bool \<Rightarrow> request_identity \<Rightarrow> app_state \<Rightarrow> app_error + request_identity" where
  "user_gate env call write r active identity st =
     bind_res (check (ri_actor identity \<notin> {SatActor ActAgent, SatActor ActPlatform}) Forbidden) (\<lambda>_.
     bind_res (check (isEndpointAllowed (ri_actor identity) (hr_method r) (hr_pathname r)
         \<lparr>eo_pathPrefixes = rt_prefixes env, eo_tadm = Some (ri_tadm identity), eo_localMode = Some active,
          eo_testEndpoints = Some (rt_test env)\<rparr>) Forbidden) (\<lambda>_.
     let isWrite = (case write of Some w \<Rightarrow> w | None \<Rightarrow> hr_method r \<noteq> ''GET'') in
     (case identity of
        LocalIdentity _ \<Rightarrow> Inr identity
      | SatIdentity _ \<Rightarrow>
          (case stalenessGate env call st of
             None \<Rightarrow> Inr identity
           | Some gate \<Rightarrow>
               if \<not> sg_allowRead gate then Inl DirectoryStale
               else if isWrite \<and> \<not> sg_allowWrite gate then Inl DirectoryStale
               else Inr identity))))"

definition requireUser ::
  "rt_env \<Rightarrow> rt_call \<Rightarrow> bool option \<Rightarrow> http_request \<Rightarrow> app_state \<Rightarrow> app_state \<times> (app_error + request_identity)" where
  "requireUser env call write r st =
     (case assertInstallationUsable env (hr_pathname r) st of
        Inl e \<Rightarrow> (st, Inl e)
      | Inr _ \<Rightarrow>
          (case authenticate env call (auth_input_of r None) st of
             (st1, Inl e) \<Rightarrow> (st1, Inl e)
           | (st1, Inr identity) \<Rightarrow>
               (case localModeActive env call st1 of (st2, active) \<Rightarrow> (st2, user_gate env call write r active identity st2))))"

definition eventsHandler ::
  "rt_env \<Rightarrow> rt_call \<Rightarrow> http_request \<Rightarrow> json \<Rightarrow> app_state \<Rightarrow> app_state \<times> (handle_error + event_ack)" where
  "eventsHandler env call r body st =
     (case route_authenticate env call r True st of
        (st1, Inl e) \<Rightarrow> (st1, Inl (AppError e))
      | (st1, Inr _) \<Rightarrow>
          (case handle (rt_eventsEnv env) (ca_jwks call) body (as_events st1) of
             (events, ack) \<Rightarrow> (st1\<lparr>as_events := events\<rparr>, ack)))"

text \<open>\<open>meHandler\<close> and \<open>manifestHandler\<close> answer with what the application computes for the identity.\<close>

definition meHandler :: "rt_env \<Rightarrow> rt_call \<Rightarrow> http_request \<Rightarrow> app_state \<Rightarrow> app_state \<times> (app_error + request_identity)" where
  "meHandler env call r st = route_authenticate env call r True st"

record capability_request =
  cr_http :: http_request
  cr_capabilityId :: string
  cr_idempotencyKey :: "string option"
  cr_body :: jvalue

definition invocation_of :: "rt_call \<Rightarrow> capability_request \<Rightarrow> verified_identity \<Rightarrow> invocation" where
  "invocation_of call r sat =
     \<lparr>iv_capabilityId = cr_capabilityId r, iv_identity = sat, iv_idempotencyKey = cr_idempotencyKey r, iv_body = cr_body r,
      iv_consumed = False, iv_storeNow = ca_storeNow call, iv_now = ca_now call\<rparr>"

definition capability_state_of :: "app_state \<Rightarrow> capability_state" where
  "capability_state_of st = \<lparr>cs_store = as_executions st, cs_jti = as_jti st\<rparr>"

definition with_capability_state :: "capability_state \<Rightarrow> app_state \<Rightarrow> app_state" where
  "with_capability_state cs st = st\<lparr>as_executions := cs_store cs, as_jti := cs_jti cs\<rparr>"

text \<open>The handler for capabilities up to the call of the capability's own handler, and after it.\<close>

definition capability_begin ::
  "rt_env \<Rightarrow> rt_call \<Rightarrow> capability_request \<Rightarrow> app_state \<Rightarrow> app_state \<times> (capability_error + begin_outcome)" where
  "capability_begin env call r st =
     (case route_authenticate env call (cr_http r) False st of
        (st1, Inl e) \<Rightarrow> (st1, Inl (CapError e))
      | (st1, Inr identity) \<Rightarrow>
          (case requireSat identity of
             Inl e \<Rightarrow> (st1, Inl (CapError e))
           | Inr sat \<Rightarrow>
               if cr_capabilityId r = [] then (st1, Inl (CapError InvalidInput))
               else (case invoke_begin (rt_capabilities env) (invocation_of call r sat) (capability_state_of st1) of
                       (cs, out) \<Rightarrow> (with_capability_state cs st1, out))))"

definition capability_finish ::
  "rt_env \<Rightarrow> manifest_capability \<Rightarrow> execution_key \<Rightarrow> handler_outcome \<Rightarrow> int \<Rightarrow> app_state \<Rightarrow> app_state \<times> (capability_error + jvalue)" where
  "capability_finish env capability key outcome now st =
     (case invoke_finish (rt_capabilities env) capability key outcome now (capability_state_of st) of
        (cs, reply) \<Rightarrow> (with_capability_state cs st, reply))"

definition executionHandler ::
  "rt_env \<Rightarrow> rt_call \<Rightarrow> http_request \<Rightarrow> string \<Rightarrow> string \<Rightarrow> app_state \<Rightarrow> app_state \<times> (capability_error + query_response)" where
  "executionHandler env call r capabilityId lcid st =
     (case route_authenticate env call r True st of
        (st1, Inl e) \<Rightarrow> (st1, Inl (CapError e))
      | (st1, Inr identity) \<Rightarrow>
          (st1, case requireSat identity of
                  Inl e \<Rightarrow> Inl (CapError e)
                | Inr sat \<Rightarrow>
                    if capabilityId = [] \<or> lcid = [] then Inl (CapError InvalidInput)
                    else queryExecution (rt_capabilities env) capabilityId sat lcid (capability_state_of st1)))"

text \<open>
  The readiness probe reaches into two stores: it expires old execution records and consumes a token id of its
  own, of which only the attempt matters.
\<close>

record ready_report =
  ry_installationState :: installation_state
  ry_manifestDigest :: string
  ry_jwksKids :: "string list"

definition readyHandler ::
  "rt_env \<Rightarrow> rt_call \<Rightarrow> http_request \<Rightarrow> app_state \<Rightarrow> app_state \<times> (app_error + ready_report)" where
  "readyHandler env call r st =
     (case route_authenticate env call r True st of
        (st1, Inl e) \<Rightarrow> (st1, Inl e)
      | (st1, Inr _) \<Rightarrow>
          (st1\<lparr>as_executions := fst (expireOverdue (ca_now call) (as_executions st1)),
               as_jti := fst (jti_consume (ca_storeNow call) (as_jti st1) ''__probe__'' (ca_now call + 1000))\<rparr>,
           Inr \<lparr>ry_installationState = installationState st1, ry_manifestDigest = rt_manifestDigest env,
                ry_jwksKids = kids (es_jwks (as_events st1))\<rparr>))"

section \<open>Local routes\<close>

text \<open>While break-glass mode is off, every local route but the one that enables it is not found.\<close>

definition local_guard :: "rt_env \<Rightarrow> rt_call \<Rightarrow> jstring \<Rightarrow> app_state \<Rightarrow> app_state \<times> (app_error + unit)" where
  "local_guard env call pathname st =
     (if pathname = units ''/ky-local/enable'' then (st, Inr ())
      else (case localModeActive env call st of (st1, active) \<Rightarrow> (st1, check active NotFound)))"

definition requireBreakGlass :: "rt_env \<Rightarrow> app_error + string bg_env" where
  "requireBreakGlass env = (case rt_breakGlass env of None \<Rightarrow> Inl NotFound | Some bg \<Rightarrow> Inr bg)"

text \<open>A field of the body that has to be a string.\<close>

definition body_str :: "json \<Rightarrow> string \<Rightarrow> app_error + string" where
  "body_str body k = (case optional_prop body k of JStr s \<Rightarrow> Inr s | _ \<Rightarrow> Inl InvalidInput)"

definition enableRoute ::
  "rt_env \<Rightarrow> rt_call \<Rightarrow> (nat \<Rightarrow> int) \<Rightarrow> string \<Rightarrow> string option \<Rightarrow> json \<Rightarrow> app_state \<Rightarrow>
   app_state \<times> (app_error + string token_result)" where
  "enableRoute env call now jti ip body st =
     (case bind_res (requireBreakGlass env) (\<lambda>bg.
             bind_res (body_str body ''sub'') (\<lambda>sub.
             bind_res (body_str body ''password'') (\<lambda>password.
             bind_res (body_str body ''code'') (\<lambda>code.
             Inr (bg, \<lparr>ei_sub = sub, ei_password = password, ei_code = code, ei_ip = ip\<rparr>))))) of
        Inl e \<Rightarrow> (st, Inl e)
      | Inr (bg, i) \<Rightarrow> (case enable bg now jti (as_bg st) i of (b, r) \<Rightarrow> (st\<lparr>as_bg := b\<rparr>, r)))"

definition loginRoute ::
  "rt_env \<Rightarrow> rt_call \<Rightarrow> (nat \<Rightarrow> int) \<Rightarrow> string \<Rightarrow> string option \<Rightarrow> json \<Rightarrow> app_state \<Rightarrow>
   app_state \<times> (app_error + string token_result)" where
  "loginRoute env call now jti ip body st =
     (case local_guard env call (units ''/ky-local/login'') st of
        (st1, Inl e) \<Rightarrow> (st1, Inl e)
      | (st1, Inr _) \<Rightarrow>
          (case bind_res (requireBreakGlass env) (\<lambda>bg.
                  bind_res (body_str body ''loginId'') (\<lambda>loginId.
                  bind_res (body_str body ''code'') (\<lambda>code. Inr (bg, loginId, code)))) of
             Inl e \<Rightarrow> (st1, Inl e)
           | Inr (bg, loginId, code) \<Rightarrow>
               (case login bg now jti (as_bg st1) loginId code ip of (b, r) \<Rightarrow> (st1\<lparr>as_bg := b\<rparr>, r))))"

text \<open>The two routes that ask for a local administrator.\<close>

definition local_admin_route ::
  "rt_env \<Rightarrow> rt_call \<Rightarrow> http_request \<Rightarrow> app_state \<Rightarrow> app_state \<times> (app_error + string bg_env)" where
  "local_admin_route env call r st =
     (case local_guard env call (hr_pathname r) st of
        (st1, Inl e) \<Rightarrow> (st1, Inl e)
      | (st1, Inr _) \<Rightarrow>
          (case requireBreakGlass env of
             Inl e \<Rightarrow> (st1, Inl e)
           | Inr bg \<Rightarrow>
               (case authenticate env call (auth_input_of r None) st1 of
                  (st2, Inl e) \<Rightarrow> (st2, Inl e)
                | (st2, Inr identity) \<Rightarrow>
                    (st2, if ri_actor identity = LocalActor LocalAdmin then Inr bg else Inl Forbidden))))"

definition employeeCodeRoute ::
  "rt_env \<Rightarrow> rt_call \<Rightarrow> http_request \<Rightarrow> (nat \<Rightarrow> int) \<Rightarrow> string \<Rightarrow> json \<Rightarrow> app_state \<Rightarrow>
   app_state \<times> (app_error + string \<times> int)" where
  "employeeCodeRoute env call r now code body st =
     (case local_admin_route env call r st of
        (st1, Inl e) \<Rightarrow> (st1, Inl e)
      | (st1, Inr bg) \<Rightarrow>
          (case bind_res (body_str body ''loginId'') (\<lambda>loginId. bind_res (body_str body ''sub'') (\<lambda>sub. Inr (loginId, sub))) of
             Inl e \<Rightarrow> (st1, Inl e)
           | Inr (loginId, sub) \<Rightarrow>
               (case issueEmployeeCode bg now code (as_bg st1) loginId sub of (b, r') \<Rightarrow> (st1\<lparr>as_bg := b\<rparr>, r'))))"

definition disableRoute ::
  "rt_env \<Rightarrow> rt_call \<Rightarrow> http_request \<Rightarrow> (nat \<Rightarrow> int) \<Rightarrow> app_state \<Rightarrow> app_state \<times> (app_error + unit)" where
  "disableRoute env call r now st =
     (case local_admin_route env call r st of
        (st1, Inl e) \<Rightarrow> (st1, Inl e)
      | (st1, Inr bg) \<Rightarrow> (st1\<lparr>as_bg := disable now (as_bg st1)\<rparr>, Inr ()))"

section \<open>The application as a machine\<close>

datatype app_request =
    EventsReq rt_call http_request json
  | MeReq rt_call http_request
  | UserReq rt_call "bool option" http_request
  | CapabilityReq rt_call capability_request
  | CapabilityDone manifest_capability execution_key handler_outcome int
  | ExecutionReq rt_call http_request string string
  | ReadyReq rt_call http_request
  | EnableReq rt_call "nat \<Rightarrow> int" string "string option" json
  | LoginReq rt_call "nat \<Rightarrow> int" string "string option" json
  | EmployeeCodeReq rt_call http_request "nat \<Rightarrow> int" string json
  | DisableReq rt_call http_request "nat \<Rightarrow> int"
  | DirectoryReq directory_op

fun app_step :: "rt_env \<Rightarrow> app_state \<Rightarrow> app_request \<Rightarrow> app_state" where
  "app_step env st (EventsReq call r body) = fst (eventsHandler env call r body st)"
| "app_step env st (MeReq call r) = fst (meHandler env call r st)"
| "app_step env st (UserReq call write r) = fst (requireUser env call write r st)"
| "app_step env st (CapabilityReq call r) = fst (capability_begin env call r st)"
| "app_step env st (CapabilityDone capability key outcome now) = fst (capability_finish env capability key outcome now st)"
| "app_step env st (ExecutionReq call r capabilityId lcid) = fst (executionHandler env call r capabilityId lcid st)"
| "app_step env st (ReadyReq call r) = fst (readyHandler env call r st)"
| "app_step env st (EnableReq call now jti ip body) = fst (enableRoute env call now jti ip body st)"
| "app_step env st (LoginReq call now jti ip body) = fst (loginRoute env call now jti ip body st)"
| "app_step env st (EmployeeCodeReq call r now code body) = fst (employeeCodeRoute env call r now code body st)"
| "app_step env st (DisableReq call r now) = fst (disableRoute env call r now st)"
| "app_step env st (DirectoryReq op) = st\<lparr>as_directory := directory_step (as_directory st) op\<rparr>"

section \<open>What a request can change\<close>

text \<open>
  Authentication leaves the installation's record alone and never forgets a revocation; only the events handler
  changes the record.
\<close>

definition app_ok :: "rt_env \<Rightarrow> app_state \<Rightarrow> bool" where
  "app_ok env st \<longleftrightarrow> jwks_ok (ee_importJWK (rt_eventsEnv env)) (es_jwks (as_events st))"

abbreviation revoked_kids :: "app_state \<Rightarrow> string set" where
  "revoked_kids st \<equiv> jk_revoked (es_jwks (as_events st))"

definition trust_kept :: "rt_env \<Rightarrow> app_state \<Rightarrow> app_state \<Rightarrow> bool" where
  "trust_kept env st st' \<longleftrightarrow>
     (app_ok env st \<longrightarrow>
        app_ok env st' \<and> es_record (as_events st') = es_record (as_events st) \<and>
        es_acks (as_events st') = es_acks (as_events st) \<and> revoked_kids st \<subseteq> revoked_kids st')"

lemma trust_kept_events: "as_events st' = as_events st \<Longrightarrow> trust_kept env st st'"
  by (simp add: trust_kept_def app_ok_def)

lemma trust_kept_trans: "trust_kept env a b \<Longrightarrow> trust_kept env b c \<Longrightarrow> trust_kept env a c"
  by (auto simp: trust_kept_def)

lemma localModeActive_events [simp]: "as_events (fst (localModeActive env call st)) = as_events st"
  by (simp add: localModeActive_def split: prod.splits)

lemma localModeActive_eq: "localModeActive env call st = (st1, active) \<Longrightarrow> as_events st1 = as_events st"
  using localModeActive_events [of env call st] by simp

lemma after_getKey_trust: "trust_kept env st (after_getKey env call token st)"
  using getKey_ok [of "ee_importJWK (rt_eventsEnv env)" "es_jwks (as_events st)"]
  by (auto simp: trust_kept_def app_ok_def after_getKey_def client_getKey_def split: option.splits)

lemma authenticate_local_events [simp]: "as_events (fst (authenticate_local env call input token st)) = as_events st"
  by (auto simp: authenticate_local_def dest: localModeActive_eq split: option.splits prod.splits)

lemma authenticate_sat_trust: "trust_kept env st (fst (authenticate_sat env call input token config st))"
proof -
  obtain st1 active where l: "localModeActive env call st = (st1, active)" by fastforce
  have "as_events (fst (authenticate_sat env call input token config st)) = as_events (after_getKey env call token st1)"
    by (simp add: authenticate_sat_def l split: prod.splits)
  moreover have "trust_kept env st (after_getKey env call token st1)"
    using trust_kept_events [OF localModeActive_eq [OF l]] after_getKey_trust by (rule trust_kept_trans)
  ultimately show ?thesis by (simp add: trust_kept_def app_ok_def)
qed

lemma authenticate_trust: "trust_kept env st (fst (authenticate env call input st))"
  using trust_kept_events authenticate_sat_trust
  by (auto simp: authenticate_def split: option.splits sum.splits)

lemma route_authenticate_trust: "trust_kept env st (fst (route_authenticate env call r consumeJti st))"
  using trust_kept_events [OF refl] authenticate_trust by (auto simp: route_authenticate_def split: sum.splits)

lemma trust_kept_route:
  assumes "as_events st' = as_events (fst (route_authenticate env call r consumeJti st))"
  shows "trust_kept env st st'"
  using route_authenticate_trust trust_kept_events [OF assms] by (rule trust_kept_trans)

text \<open>Every request but an event keeps the trust anchors.\<close>

lemma requireUser_trust: "trust_kept env st (fst (requireUser env call write r st))"
proof (cases "assertInstallationUsable env (hr_pathname r) st")
  case (Inl e)
  then show ?thesis by (simp add: requireUser_def trust_kept_events)
next
  case (Inr u)
  let ?a = "authenticate env call (auth_input_of r None) st"
  have "as_events (fst (requireUser env call write r st)) = as_events (fst ?a)"
    using Inr by (auto simp: requireUser_def dest: localModeActive_eq split: prod.splits sum.splits)
  then have "trust_kept env (fst ?a) (fst (requireUser env call write r st))" by (rule trust_kept_events)
  with authenticate_trust show ?thesis by (rule trust_kept_trans)
qed

lemma capability_trust:
  "trust_kept env st (fst (capability_begin env call c st))"
  "trust_kept env st (fst (executionHandler env call r capabilityId lcid st))"
  "trust_kept env st (fst (readyHandler env call r st))"
  "trust_kept env st (fst (capability_finish env capability key outcome now st))"
     apply (rule trust_kept_route [of _ env call "cr_http c" False st])
     apply (auto simp: capability_begin_def with_capability_state_def split: prod.splits sum.splits) [1]
    apply (rule trust_kept_route [of _ env call r True st])
    apply (auto simp: executionHandler_def split: prod.splits sum.splits) [1]
   apply (rule trust_kept_route [of _ env call r True st])
   apply (auto simp: readyHandler_def split: prod.splits sum.splits) [1]
  apply (rule trust_kept_events)
  apply (auto simp: capability_finish_def with_capability_state_def split: prod.splits) [1]
  done

lemma local_guard_events [simp]: "as_events (fst (local_guard env call pathname st)) = as_events st"
  by (auto simp: local_guard_def dest: localModeActive_eq split: prod.splits)

lemma enable_login_events:
  "as_events (fst (enableRoute env call now jti ip body st)) = as_events st"
  "as_events (fst (loginRoute env call now jti ip body st)) = as_events st"
proof -
  show "as_events (fst (enableRoute env call now jti ip body st)) = as_events st"
    by (auto simp: enableRoute_def split: prod.splits sum.splits)
  obtain st1 g where g: "local_guard env call (units ''/ky-local/login'') st = (st1, g)" by fastforce
  then have "as_events st1 = as_events st" using local_guard_events by (metis fst_conv)
  then show "as_events (fst (loginRoute env call now jti ip body st)) = as_events st"
    by (auto simp: loginRoute_def g split: prod.splits sum.splits)
qed

lemma local_admin_trust: "trust_kept env st (fst (local_admin_route env call r st))"
proof -
  obtain st1 g where g: "local_guard env call (hr_pathname r) st = (st1, g)" by fastforce
  then have ev: "as_events st1 = as_events st" using local_guard_events by (metis fst_conv)
  have "trust_kept env st1 (fst (local_admin_route env call r st))"
    using authenticate_trust [of env st1 call "auth_input_of r None"] trust_kept_events [of st1 st1]
    by (auto simp: local_admin_route_def g split: prod.splits sum.splits)
  with trust_kept_events [OF ev] show ?thesis by (rule trust_kept_trans)
qed

lemma local_admin_routes_trust:
  "trust_kept env st (fst (employeeCodeRoute env call r now code body st))"
  "trust_kept env st (fst (disableRoute env call r now st))"
proof -
  let ?l = "fst (local_admin_route env call r st)"
  have "as_events (fst (employeeCodeRoute env call r now code body st)) = as_events ?l"
    by (auto simp: employeeCodeRoute_def split: prod.splits sum.splits)
  then show "trust_kept env st (fst (employeeCodeRoute env call r now code body st))"
    using trust_kept_trans [OF local_admin_trust trust_kept_events] by blast
  have "as_events (fst (disableRoute env call r now st)) = as_events ?l"
    by (auto simp: disableRoute_def split: prod.splits sum.splits)
  then show "trust_kept env st (fst (disableRoute env call r now st))"
    using trust_kept_trans [OF local_admin_trust trust_kept_events] by blast
qed

subsection \<open>Events\<close>

lemma probe_ok:
  assumes "jwks_ok (ee_importJWK env) j"
  shows "jwks_ok (ee_importJWK env) (fst (probe env call kid probeSat j)) \<and>
         jk_revoked j \<subseteq> jk_revoked (fst (probe env call kid probeSat j))"
proof -
  have get: "jwks_ok (ee_importJWK env) (fst (getKey (ee_importJWK env) now f s k j)) \<and>
      jk_revoked j \<subseteq> jk_revoked (fst (getKey (ee_importJWK env) now f s k j))" for now f s k
    using getKey_ok [OF assms] by blast
  have getI: "jwks_ok (ee_importJWK env) j' \<and> jk_revoked j \<subseteq> jk_revoked j'"
    if "getKey (ee_importJWK env) now f s k j = (j', x)" for now f s k j' x
    using get [of now f s k] that by simp
  show ?thesis
    using assms refresh_ok [OF assms]
    by (auto simp: probe_def split: option.splits prod.splits sum.splits dest!: getI)
qed

lemma revoke_json_ok:
  "jwks_ok imp j \<Longrightarrow> jwks_ok imp (revoke_json kid j) \<and> jk_revoked j \<subseteq> jk_revoked (revoke_json kid j)"
  using revoke_ok [of imp j] by (auto simp: revoke_json_def revoke_def jwks_ok_def split: option.splits)

lemma event_effect_ok:
  assumes ok: "jwks_ok (ee_importJWK env) j" and eff: "event_effect env call event j = Inr (j', kid)"
  shows "jwks_ok (ee_importJWK env) j' \<and> jk_revoked j \<subseteq> jk_revoked j'"
proof (cases "pe_type event")
  case JwksRotated
  then obtain k where "j' = prefetch (ee_importJWK env) (ec_now call) (ec_fetched call) (ec_sched call) k j"
    using eff by (auto simp: event_effect_def bind_res_Inr_iff)
  then show ?thesis using prefetch_ok [OF ok] by simp
next
  case JwksRevoke
  then show ?thesis using eff revoke_json_ok [OF ok] by (auto simp: event_effect_def bind_res_Inr_iff)
next
  case JwksProbe
  then obtain k t where "probe env call k t j = (j', kid)" using eff by (auto simp: event_effect_def bind_res_Inr_iff)
  then show ?thesis using probe_ok [OF ok, of call k t] by simp
qed (use eff ok in \<open>simp_all add: event_effect_def\<close>)

lemma handle_event_ok:
  assumes ok: "jwks_ok (ee_importJWK env) (es_jwks st)"
  shows "jwks_ok (ee_importJWK env) (es_jwks (fst (handle_event env call event st))) \<and>
         jk_revoked (es_jwks st) \<subseteq> jk_revoked (es_jwks (fst (handle_event env call event st)))"
  by (rule handle_event_cases [of st event env call]) (use ok event_effect_ok [OF ok] in auto)

lemma handle_ok:
  assumes "jwks_ok (ee_importJWK env) (es_jwks st)"
  shows "jwks_ok (ee_importJWK env) (es_jwks (fst (handle env call raw st)))"
    and "jk_revoked (es_jwks st) \<subseteq> jk_revoked (es_jwks (fst (handle env call raw st)))"
    and "ir_state (es_record st) = InstDeleted \<Longrightarrow> es_record (fst (handle env call raw st)) = es_record st"
  using assms handle_event_ok [OF assms, of call] handle_event_deleted [of st env call]
  by (auto simp: handle_def split: sum.splits)

definition anchors_kept :: "rt_env \<Rightarrow> app_state \<Rightarrow> app_state \<Rightarrow> bool" where
  "anchors_kept env st st' \<longleftrightarrow>
     (app_ok env st \<longrightarrow>
        app_ok env st' \<and> (installationState st = InstDeleted \<longrightarrow> installationState st' = InstDeleted) \<and>
        revoked_kids st \<subseteq> revoked_kids st')"

lemma trust_anchors: "trust_kept env st st' \<Longrightarrow> anchors_kept env st st'"
  by (simp add: trust_kept_def anchors_kept_def installationState_def)

lemma anchors_kept_trans: "anchors_kept env a b \<Longrightarrow> anchors_kept env b c \<Longrightarrow> anchors_kept env a c"
  by (auto simp: anchors_kept_def)

lemma eventsHandler_anchors: "anchors_kept env st (fst (eventsHandler env call r body st))"
proof -
  obtain st1 i where a: "route_authenticate env call r True st = (st1, i)" by fastforce
  have "anchors_kept env st st1"
    using trust_anchors [OF route_authenticate_trust [of env st call r True]] a by simp
  moreover have "anchors_kept env st1 (fst (eventsHandler env call r body st))"
    using handle_ok [of "rt_eventsEnv env" "as_events st1" "ca_jwks call" body]
    by (auto simp: eventsHandler_def a anchors_kept_def app_ok_def installationState_def split: sum.splits prod.splits)
  ultimately show ?thesis by (rule anchors_kept_trans)
qed

lemma app_step_anchors: "anchors_kept env st (app_step env st req)"
proof (cases req)
  case (EventsReq call r body)
  then show ?thesis by (simp add: eventsHandler_anchors)
next
  case (EnableReq call now jti ip body)
  then show ?thesis by (simp add: trust_anchors trust_kept_events enable_login_events)
next
  case (LoginReq call now jti ip body)
  then show ?thesis by (simp add: trust_anchors trust_kept_events enable_login_events)
next
  case (DirectoryReq op)
  then show ?thesis by (simp add: trust_anchors trust_kept_events)
qed (simp_all add: trust_anchors requireUser_trust capability_trust local_admin_routes_trust meHandler_def route_authenticate_trust)

text \<open>Both anchors are decided once: a key id that was revoked, and the deletion of the installation.\<close>

datatype anchor = RevokedKid string | DeletedInstallation

fun anchored :: "app_state \<Rightarrow> anchor \<Rightarrow> unit option" where
  "anchored st (RevokedKid kid) = (if kid \<in> revoked_kids st then Some () else None)"
| "anchored st DeletedInstallation = (if installationState st = InstDeleted then Some () else None)"

interpretation anchors: write_once "app_ok env" "\<lambda>_. True" anchored "app_step env" for env
proof
  fix st req a v
  assume "app_ok env st"
  then show "app_ok env (app_step env st req)" using app_step_anchors by (auto simp: anchors_kept_def)
  assume "anchored st a = Some v"
  then show "anchored (app_step env st req) a = Some v"
    using \<open>app_ok env st\<close> app_step_anchors [of env st req] by (cases a) (auto simp: anchors_kept_def split: if_splits)
qed

lemma still_revoked:
  assumes "app_ok env st" and "kid \<in> revoked_kids st"
  shows "kid \<in> revoked_kids (foldl (app_step env) st reqs)"
  using anchors.run_keeps [OF assms(1), of reqs "RevokedKid kid" "()"] assms(2) by (simp add: list_all_iff split: if_splits)

lemma still_deleted:
  assumes "app_ok env st" and "installationState st = InstDeleted"
  shows "installationState (foldl (app_step env) st reqs) = InstDeleted"
  using anchors.run_keeps [OF assms(1), of reqs DeletedInstallation "()"] assms(2) by (simp add: list_all_iff split: if_splits)

section \<open>What a verified request rests on\<close>

lemma getKey_not_revoked: "snd (getKey imp now fetched sched kid st) = Inr key \<Longrightarrow> kid \<notin> jk_revoked st"
  by (auto simp: getKey_def)

lemma verifySat_Inr:
  assumes "verifySat lib nowMs storeNow store token options = (store', Inr identity)"
  obtains act claims kid where "verify_claims lib nowMs token options = Inr (act, claims, kid)"
    "identity = toIdentity act claims kid" "so_consumeJti options = Some False \<Longrightarrow> store' = store"
  using assms by (auto simp: verifySat_def Let_def bind_res_Inr_iff split: sum.splits prod.splits if_splits)

lemma toIdentity_fields [simp]:
  "vi_act (toIdentity act claims kid) = act" "vi_kid (toIdentity act claims kid) = kid"
  "vi_claims (toIdentity act claims kid) = claims"
  "vi_jti (toIdentity act claims kid) = (case str_claim claims ''jti'' of None \<Rightarrow> [] | Some j \<Rightarrow> j)"
  by (simp_all add: toIdentity_def Let_def split: sat_act.splits)

text \<open>The facts behind an identity that came from a service access token.\<close>

definition sat_backed :: "rt_env \<Rightarrow> rt_call \<Rightarrow> auth_input \<Rightarrow> verified_identity \<Rightarrow> app_state \<Rightarrow> bool" where
  "sat_backed env call input sat st \<longleftrightarrow>
     vi_kid sat \<notin> revoked_kids st \<and> vi_jti sat = (case str_claim (vi_claims sat) ''jti'' of None \<Rightarrow> [] | Some j \<Rightarrow> j) \<and>
     (\<exists>token key q b.
        readBearerToken (ai_authorization input) = Some token \<and>
        snd (client_getKey env call (vi_kid sat) (es_jwks (as_events st))) = Inr key \<and>
        rt_jwtVerify env token key (ca_now call) = Some (JObj (vi_claims sat)) \<and>
        claims_conform (vi_act sat) (vi_claims sat) \<and>
        normalizePathname (ai_pathname input) = Inr q \<and>
        isEndpointAllowed (SatActor (vi_act sat)) (ai_method input) q
          \<lparr>eo_pathPrefixes = rt_prefixes env,
           eo_tadm = Some (if vi_act sat = ActPlatform then False else bool_of (js_prop (vi_claims sat) ''tadm'')),
           eo_localMode = Some b, eo_testEndpoints = Some (rt_test env)\<rparr>)"

lemma authenticate_sat_backed:
  assumes token: "readBearerToken (ai_authorization input) = Some token"
    and auth: "authenticate_sat env call input token config st = (st', Inr identity)"
  obtains sat where "identity = SatIdentity sat" "sat_backed env call input sat st"
    "ai_consumeJti input = Some False \<Longrightarrow> as_jti st' = as_jti st"
proof -
  obtain st1 active where l: "localModeActive env call st = (st1, active)" by fastforce
  have ev: "as_events st1 = as_events st" using localModeActive_eq [OF l] .
  have jti: "as_jti st1 = as_jti st"
    using l by (auto simp: localModeActive_def split: prod.splits if_splits)
  let ?lib = "sat_lib env call (es_jwks (as_events st))"
  let ?opts = "\<lparr>so_config = config,
      so_request = \<lparr>sr_method = ai_method input, sr_pathname = ai_pathname input, sr_requestId = Some (ai_requestId input)\<rparr>,
      so_pathPrefixes = rt_prefixes env, so_manifestDigest = rt_manifestDigest env,
      so_localMode = Some active, so_testEndpoints = Some (rt_test env), so_consumeJti = ai_consumeJti input\<rparr>"
  obtain store r where v: "verifySat ?lib (ca_now call) (ca_storeNow call) (as_jti st) token ?opts = (store, r)" by fastforce
  have "authenticate_sat env call input token config st =
      ((after_getKey env call token st1)\<lparr>as_jti := store\<rparr>, bind_res r (\<lambda>v. Inr (SatIdentity v)))"
    by (simp add: authenticate_sat_def l ev jti v)
  with auth obtain sat where sat: "r = Inr sat" "identity = SatIdentity sat" and st': "as_jti st' = store"
    by (auto simp: bind_res_Inr_iff)
  from v sat obtain act claims kid where vc: "verify_claims ?lib (ca_now call) token ?opts = Inr (act, claims, kid)"
      "sat = toIdentity act claims kid" "so_consumeJti ?opts = Some False \<Longrightarrow> store = as_jti st"
    by (auto elim: verifySat_Inr)
  from vc(1) obtain key q where
      f: "jwks_getKey ?lib kid = Inr key" "jwtVerify ?lib token key (ca_now call) = Some (JObj claims)" "claims_conform act claims"
        "normalizePathname (ai_pathname input) = Inr q"
        "isEndpointAllowed (SatActor act) (ai_method input) q
           \<lparr>eo_pathPrefixes = rt_prefixes env,
            eo_tadm = Some (if act = ActPlatform then False else bool_of (js_prop claims ''tadm'')),
            eo_localMode = Some active, eo_testEndpoints = Some (rt_test env)\<rparr>"
    by (rule verify_claims_Inr) simp
  have "kid \<notin> revoked_kids st" using f(1) getKey_not_revoked by (simp add: sat_lib_def client_getKey_def)
  moreover have "snd (client_getKey env call kid (es_jwks (as_events st))) = Inr key"
      "rt_jwtVerify env token key (ca_now call) = Some (JObj claims)"
    using f(1,2) by (simp_all add: sat_lib_def)
  ultimately have "sat_backed env call input sat st"
    unfolding sat_backed_def vc(2) toIdentity_fields using token f(3,4,5) by blast
  then show ?thesis using that sat(2) vc(3) st' by simp
qed

lemma authenticate_Inr:
  assumes "authenticate env call input st = (st', Inr identity)"
  obtains
    (sat) sat where "identity = SatIdentity sat" "sat_backed env call input sat st"
      "ai_consumeJti input = Some False \<Longrightarrow> as_jti st' = as_jti st"
  | (local) l where "identity = LocalIdentity l" "snd (localModeActive env call st)" "installationState st = InstEnabled"
proof -
  from assms obtain token header where t: "readBearerToken (ai_authorization input) = Some token" "rt_decode env token = Some header"
    by (auto simp: authenticate_def split: option.splits)
  show ?thesis
  proof (cases "jh_typ header = Some ''ky-local+jwt''")
    case True
    then have "authenticate_local env call input token st = (st', Inr identity)" using assms t by (simp add: authenticate_def)
    moreover obtain st1 active where l: "localModeActive env call st = (st1, active)" by fastforce
    moreover have "installationState st1 = installationState st"
      using localModeActive_eq [OF l] by (simp add: installationState_def)
    ultimately obtain keys opts x where x: "verifyLocalToken (rt_localJose env) (ca_now call) token opts = Inr x"
        "lo_localMode opts = active" "lo_installationState opts = installationState st" "identity = LocalIdentity x"
      by (auto simp: authenticate_local_def bind_res_Inr_iff split: option.splits)
    then have "active" "installationState st = InstEnabled"
      by (auto simp: verifyLocalToken_def split: if_splits)
    then show ?thesis using local x(4) l by simp
  next
    case False
    with assms t obtain config where "authenticate_sat env call input token config st = (st', Inr identity)"
      by (auto simp: authenticate_def split: sum.splits)
    from authenticate_sat_backed [OF t(1) this] sat show ?thesis by blast
  qed
qed

text \<open>A path below the capability endpoints is in the row of agents only.\<close>

lemma capability_path_agent:
  assumes path: "capability_tail q = Some t" and allowed: "isEndpointAllowed act meth q opts" and q: "normalizePathname q = Inr q"
  shows "act = SatActor ActAgent"
proof -
  obtain v where v: "starts_with q v" "v = units ''/ky/v1/capabilities/'' \<or> v = units ''/ky/v2/capabilities/''"
    using path by (auto simp: capability_tail_def split: if_splits)
  then have qv: "q = v @ drop (length v) q" by (metis append_take_drop_id starts_with_def)
  obtain rest where "q = v @ rest" using qv ..
  with v(2) have shape: "\<not> public_endpoint (toUpperCase meth) q" "\<not> starts_with q (units ''/ky-local/'')"
      "\<not> starts_with q (units ''/ky/v1/test/'')" "\<not> platform_endpoint (toUpperCase meth) q" "\<not> me_endpoint (toUpperCase meth) q"
      "reserved_path q"
    by (auto simp: units_def public_endpoint_def starts_with_def platform_endpoint_def me_endpoint_def reserved_path_def
        RESERVED_PATH_PREFIXES_def)
  then have "actor_row act (toUpperCase meth) q opts" using allowed q by (simp add: isEndpointAllowed_def Let_def)
  then show ?thesis
    using shape
    by (cases "(act, toUpperCase meth, q, opts)" rule: actor_row.cases) (simp_all add: matchesBusinessPrefix_def)
qed

section \<open>Claims\<close>

lemma handle_committed:
  assumes "handle env call body es = (es', Inr ack)" and "assertShape body (ee_config env) = Inr event"
    and "es_acks es (pe_eventId event) = None"
  obtains j kid r where "nextState event (es_record es) = Inr r" "event_effect env call event (es_jwks es) = Inr (j, kid)"
    "es_record es' = r" "es_jwks es' = j"
  using assms by (cases rule: handle_event_cases [of es event env call]) (auto simp: handle_def)

lemma eventsHandler_accepted:
  assumes ok: "app_ok env st" and h: "eventsHandler env call r body st = (st1, Inr ack)"
  obtains es es' where "handle (rt_eventsEnv env) (ca_jwks call) body es = (es', Inr ack)" "as_events st1 = es'"
    "es_acks es = es_acks (as_events st)" "es_record es = es_record (as_events st)" "app_ok env st1"
proof -
  obtain st0 i where a: "route_authenticate env call r True st = (st0, i)" by fastforce
  have kept: "trust_kept env st st0" using route_authenticate_trust [of env st call r True] a by simp
  obtain es' where e: "handle (rt_eventsEnv env) (ca_jwks call) body (as_events st0) = (es', Inr ack)" "as_events st1 = es'"
    using h a by (auto simp: eventsHandler_def split: sum.splits prod.splits)
  have "app_ok env st1" using eventsHandler_anchors [of env st call r body] ok h by (simp add: anchors_kept_def)
  with that e kept ok show ?thesis by (auto simp: trust_kept_def)
qed

lemma authenticate_sat_kid:
  assumes auth: "authenticate_sat env call input token config st = (st', Inr identity)"
    and header: "rt_decode env token = Some header" "jh_kid header = Some kid"
  shows "kid \<notin> revoked_kids st"
proof -
  obtain st1 active where l: "localModeActive env call st = (st1, active)" by fastforce
  obtain options store v where
      "verifySat (sat_lib env call (es_jwks (as_events st))) (ca_now call) (ca_storeNow call) (as_jti st1) token options = (store, Inr v)"
    using auth localModeActive_eq [OF l] by (simp add: authenticate_sat_def l bind_res_Inr_iff split: prod.splits) blast
  then obtain act claims kid' where "verify_claims (sat_lib env call (es_jwks (as_events st))) (ca_now call) token options = Inr (act, claims, kid')"
    by (rule verifySat_Inr)
  then show ?thesis
    by (rule verify_claims_Inr) (use header getKey_not_revoked in \<open>auto simp: sat_lib_def client_getKey_def\<close>)
qed

text \<open>C18. A revoked key opens nothing any more: once a platform event that revokes a key id has been acknowledged, no
  request that carries a service access token with this key id is authenticated, whatever requests of any kind
  (further events, calls of capabilities, break-glass operations, directory updates) came in between and
  whatever the key set endpoint offers.\<close>

theorem revoked_key_locked_out:
  assumes ok: "app_ok env st" and accepted: "eventsHandler env call r body st = (st1, Inr ack)"
    and event: "assertShape body (ee_config (rt_eventsEnv env)) = Inr event" "pe_type event = JwksRevoke"
      "optional_prop (pe_payload event) ''kid'' = JStr kid"
    and first: "es_acks (as_events st) (pe_eventId event) = None"
    and token: "readBearerToken (ai_authorization input) = Some token" "rt_decode env token = Some header"
      "jh_typ header \<noteq> Some ''ky-local+jwt''" "jh_kid header = Some kid"
  shows "\<exists>e. snd (authenticate env call' input (foldl (app_step env) st1 reqs)) = Inl e"
proof (cases "snd (authenticate env call' input (foldl (app_step env) st1 reqs))")
  case (Inr identity)
  let ?st = "foldl (app_step env) st1 reqs"
  from ok accepted obtain es es' where es: "handle (rt_eventsEnv env) (ca_jwks call) body es = (es', Inr ack)" "as_events st1 = es'"
      "es_acks es = es_acks (as_events st)" "app_ok env st1"
    by (rule eventsHandler_accepted)
  have "es_acks es (pe_eventId event) = None" using first es(3) by simp
  with es(1) event(1) obtain j k where j: "event_effect (rt_eventsEnv env) (ca_jwks call) event (es_jwks es) = Inr (j, k)" "es_jwks es' = j"
    by (rule handle_committed)
  have "j = revoke kid (es_jwks es)"
    using j(1) event(2,3) by (simp add: event_effect_def payload_prop_def revoke_json_def bind_res_Inr_iff split: if_splits)
  then have "kid \<in> revoked_kids st1" using j(2) es(2) by (simp add: revoke_def)
  then have revoked: "kid \<in> revoked_kids ?st" by (rule still_revoked [OF es(4)])
  obtain st' config where "authenticate_sat env call' input token config ?st = (st', Inr identity)"
    using Inr token by (cases "authenticate env call' input ?st") (auto simp: authenticate_def split: sum.splits)
  from authenticate_sat_kid [OF this token(2,4)] revoked show ?thesis by simp
qed simp

lemma authenticate_directory: "as_directory (fst (authenticate env call input st)) = as_directory st"
  by (auto simp: authenticate_def authenticate_local_def authenticate_sat_def localModeActive_def after_getKey_def
      split: option.splits sum.splits prod.splits)


text \<open>What a business route may rely on after the middleware: the installation is usable, the caller is a person, and
  the endpoint is one that the matrix opens for this person; a person with a service access token has a token
  with the act of a user that was verified with a key that is not revoked, and when the directory gates requests
  it was synchronised at most a day ago, at most two hours ago for a write; a person with a local token is
  admitted only in break-glass mode of an enabled installation.\<close>

theorem user_request_sound:
  assumes "requireUser env call write r st = (st', Inr identity)"
  shows "(rt_v2 env \<noteq> None \<or> installationState st = InstEnabled \<or> list_ex (starts_with (hr_pathname r)) ALWAYS_REACHABLE) \<and>
    (\<exists>active. isEndpointAllowed (ri_actor identity) (hr_method r) (hr_pathname r)
       \<lparr>eo_pathPrefixes = rt_prefixes env, eo_tadm = Some (ri_tadm identity), eo_localMode = Some active,
        eo_testEndpoints = Some (rt_test env)\<rparr>) \<and>
    (case identity of
       SatIdentity sat \<Rightarrow>
         vi_act sat = ActUser \<and> sat_backed env call (auth_input_of r None) sat st \<and>
         (rt_gated env \<longrightarrow>
            (\<exists>c. ds_checkpoint (as_directory st) = Some c \<and> ca_now call - cp_at c \<le> STALENESS_BLOCK_READ_MS \<and>
                 ((case write of Some w \<Rightarrow> w | None \<Rightarrow> hr_method r \<noteq> ''GET'') \<longrightarrow> ca_now call - cp_at c \<le> STALENESS_BLOCK_WRITE_MS)))
     | LocalIdentity l \<Rightarrow> snd (localModeActive env call st) \<and> installationState st = InstEnabled)"
proof -
  have usable: "assertInstallationUsable env (hr_pathname r) st = Inr ()"
    using assms by (cases "assertInstallationUsable env (hr_pathname r) st") (simp_all add: requireUser_def)
  obtain st1 where auth: "authenticate env call (auth_input_of r None) st = (st1, Inr identity)"
    and gate: "\<exists>st2 active. localModeActive env call st1 = (st2, active) \<and> user_gate env call write r active identity st2 = Inr identity"
    using assms usable
    by (auto simp: requireUser_def user_gate_def bind_res_Inr_iff Let_def
        split: prod.splits sum.splits if_splits option.splits request_identity.splits)
  then obtain st2 active where l: "localModeActive env call st1 = (st2, active)"
    and g: "user_gate env call write r active identity st2 = Inr identity" by blast
  have dir: "as_directory st2 = as_directory st"
    using l authenticate_directory [of env call "auth_input_of r None" st] auth by (auto simp: localModeActive_def split: prod.splits if_splits)
  have allowed: "isEndpointAllowed (ri_actor identity) (hr_method r) (hr_pathname r)
       \<lparr>eo_pathPrefixes = rt_prefixes env, eo_tadm = Some (ri_tadm identity), eo_localMode = Some active,
        eo_testEndpoints = Some (rt_test env)\<rparr>" and person: "ri_actor identity \<notin> {SatActor ActAgent, SatActor ActPlatform}"
    using g by (auto simp: user_gate_def bind_res_Inr_iff split: if_splits)
  have state: "rt_v2 env \<noteq> None \<or> installationState st = InstEnabled \<or> list_ex (starts_with (hr_pathname r)) ALWAYS_REACHABLE"
    using usable by (auto simp: assertInstallationUsable_def split: if_splits)
  from auth show ?thesis
  proof (cases rule: authenticate_Inr)
    case (sat v)
    have "vi_act v = ActUser" using person sat(1) by (cases "vi_act v") auto
    moreover have "\<exists>c. ds_checkpoint (as_directory st) = Some c \<and> ca_now call - cp_at c \<le> STALENESS_BLOCK_READ_MS \<and>
                 ((case write of Some w \<Rightarrow> w | None \<Rightarrow> hr_method r \<noteq> ''GET'') \<longrightarrow> ca_now call - cp_at c \<le> STALENESS_BLOCK_WRITE_MS)"
      if "rt_gated env"
      using g that sat(1) dir
      by (auto simp: user_gate_def bind_res_Inr_iff stalenessGate_def staleness_def directoryStalenessGate_def Let_def
          split: option.splits if_splits)
    ultimately show ?thesis using state allowed sat by auto
  next
    case (local l)
    then show ?thesis using state allowed by auto
  qed
qed

lemma invoke_begin_Execute:
  assumes "invoke_begin env iv st = (cs, Inr (Execute c key input))"
  obtains cs1 where "invoke_admit env iv st = (cs1, Inr (c, key, input))" "cs_jti cs = cs_jti cs1"
proof -
  obtain cs1 checked where a: "invoke_admit env iv st = (cs1, Inr checked)" "invoke_open env checked (iv_now iv) cs1 = (cs, Inr (Execute c key input))"
    using assms by (auto simp: invoke_begin_def split: prod.splits sum.splits)
  obtain c' k' i' where checked: "checked = (c', k', i')" by (cases checked)
  have "checked = (c, key, input) \<and> cs_jti cs = cs_jti cs1"
    using a(2) unfolding checked invoke_open_def
    by (auto simp: bind_res_Inr_iff split: sum.splits prod.splits bool.splits if_splits)
  with that a(1) show ?thesis by blast
qed


section \<open>An example deployment\<close>

definition demo_agent_claims :: "(string \<times> json) list" where
  "demo_agent_claims =
     [(''act'', JStr ''agent''), (''iss'', JStr ''ky''), (''aud'', JStr ''crm''), (''tid'', JStr ''t1''), (''iid'', JStr ''i1''),
      (''sub'', JStr ''u''), (''tadm'', JBool False), (''cap'', JStr ''c''), (''lcid'', JStr ''l''),
      (''dig'', JStr (replicate 64 (CHR ''0''))), (''sid'', JStr ''s''), (''rid'', JStr ''req''),
      (''iat'', JNum (IntNum 100)), (''nbf'', JNum (IntNum 100)), (''exp'', JNum (IntNum 160)),
      (''jti'', JStr ''0123456789012345678901'')]"

definition demo_person_claims :: "(string \<times> json) list" where
  "demo_person_claims =
     [(''act'', JStr ''user''), (''iss'', JStr ''ky''), (''aud'', JStr ''crm''), (''tid'', JStr ''t1''), (''iid'', JStr ''i1''),
      (''sub'', JStr ''u''), (''tadm'', JBool False), (''pfx'', JArr [JStr ''/api/'']),
      (''iat'', JNum (IntNum 100)), (''nbf'', JNum (IntNum 100)), (''exp'', JNum (IntNum 160)),
      (''jti'', JStr ''0123456789012345678901'')]"

definition demo_rt :: rt_env where
  "demo_rt =
     \<lparr>rt_config = so_config demo_sat_options, rt_prefixes = \<lparr>pp_user = [units ''/api/''], pp_admin = []\<rparr>,
      rt_manifestDigest = replicate 64 (CHR ''0''), rt_test = False, rt_localKeys = None, rt_breakGlass = None,
      rt_gated = True, rt_v2 = None,
      rt_decode = (\<lambda>t. Some \<lparr>jh_alg = Some ''ES256'', jh_typ = Some ''ky-sat+jwt'', jh_kid = Some ''k1''\<rparr>),
      rt_decodeJwt = (\<lambda>_. None),
      rt_jwtVerify = (\<lambda>t k n. if t = ''p'' then Some (JObj demo_platform_claims) else if t = ''a'' then Some (JObj demo_agent_claims)
                              else if t = ''u'' then Some (JObj demo_person_claims) else None),
      rt_localJose = \<lparr>lj_sign = (\<lambda>_ _ _. []), lj_header = (\<lambda>_. None), lj_verify = (\<lambda>_ _ _. None)\<rparr>,
      rt_eventsEnv = demo_events_env\<lparr>ee_config := so_config demo_sat_options\<rparr>,
      rt_capabilities = demo_capability_env\<rparr>"

definition demo_rt_call :: rt_call where
  "demo_rt_call = \<lparr>ca_bgNow = 0, ca_now = 120000, ca_storeNow = 120000, ca_jwks = demo_call\<rparr>"

definition demo_key_entry :: "(string \<times> json) list" where
  "demo_key_entry = [(''kty'', JStr ''EC''), (''crv'', JStr ''P-256''), (''use'', JStr ''sig''), (''kid'', JStr ''k1'')]"

definition demo_app :: app_state where
  "demo_app =
     \<lparr>as_events = initial_events\<lparr>es_jwks := initial_jwks\<lparr>jk_keys := [(''k1'', ''key'')], jk_lastSuccessAt := Some 0\<rparr>\<rparr>,
      as_jti = Map.empty,
      as_bg = \<lparr>bg_records = Map.empty, bg_session = None, bg_employee = Map.empty, bg_audit = [], bg_hits = Map.empty, bg_alerts = []\<rparr>,
      as_directory = empty_directory\<lparr>ds_checkpoint := Some \<lparr>cp_seq = 1, cp_at = 60000\<rparr>\<rparr>,
      as_executions = []\<rparr>"

definition demo_http :: "string \<Rightarrow> string \<Rightarrow> string \<Rightarrow> http_request" where
  "demo_http m path token =
     \<lparr>hr_method = m, hr_pathname = units path, hr_authorization = Some (''Bearer '' @ token), hr_requestId = ''req''\<rparr>"

definition demo_event_body :: "string \<Rightarrow> json" where
  "demo_event_body t =
     JObj [(''eventId'', JStr ''e1''), (''iid'', JStr ''i1''), (''stateVersion'', JNum (IntNum 1)), (''type'', JStr t),
           (''payload'', JObj [(''kid'', JStr ''k1'')])]"

lemma demo_app_ok: "app_ok demo_rt demo_app"
proof -
  have "trusted_key (\<lambda>_. Some ''key'') ''k1'' ''key''"
    unfolding trusted_key_def by (intro exI [of _ demo_key_entry]) (simp add: demo_key_entry_def js_prop_def)
  then show ?thesis
    by (simp add: app_ok_def jwks_ok_def demo_rt_def demo_events_env_def demo_app_def initial_jwks_def JWKS_negativeCacheMaxEntries_def)
qed

definition demo_sat_request :: "string \<Rightarrow> string \<Rightarrow> bool option \<Rightarrow> sat_options" where
  "demo_sat_request m path consumeJti =
     \<lparr>so_config = rt_config demo_rt,
      so_request = \<lparr>sr_method = m, sr_pathname = units path, sr_requestId = Some ''req''\<rparr>,
      so_pathPrefixes = rt_prefixes demo_rt, so_manifestDigest = rt_manifestDigest demo_rt,
      so_localMode = Some False, so_testEndpoints = Some False, so_consumeJti = consumeJti\<rparr>"

lemma demo_rt_fields [simp]:
  "rt_breakGlass demo_rt = None" "rt_v2 demo_rt = None" "rt_test demo_rt = False" "ca_now demo_rt_call = 120000"
  "ca_storeNow demo_rt_call = 120000"
  "rt_decode demo_rt t = Some \<lparr>jh_alg = Some ''ES256'', jh_typ = Some ''ky-sat+jwt'', jh_kid = Some ''k1''\<rparr>"
  by (simp_all add: demo_rt_def demo_rt_call_def)

lemma demo_local_off [simp]: "localModeActive demo_rt call st = (st, False)"
  by (simp add: localModeActive_def)

lemma demo_getKey: "client_getKey demo_rt demo_rt_call ''k1'' (es_jwks (as_events demo_app)) = (es_jwks (as_events demo_app), Inr ''key'')"
  by (simp add: client_getKey_def getKey_def negativeHit_def fresh_def demo_app_def initial_jwks_def demo_rt_call_def demo_call_def
      JWKS_maxAgeMs_def)

lemma demo_after_getKey: "after_getKey demo_rt demo_rt_call token demo_app = demo_app"
  by (simp add: after_getKey_def asked_kid_def demo_getKey)

lemma demo_bearer: "t \<in> {''p'', ''a'', ''u''} \<Longrightarrow> readBearerToken (Some (''Bearer '' @ t)) = Some t"
  by (auto simp: readBearerToken_def trim_def is_trim_space_def is_white_def token_char_def is_alpha_def is_digit_def Let_def)

lemma demo_usable [simp]: "assertInstallationUsable demo_rt pathname demo_app = Inr ()"
  by (simp add: assertInstallationUsable_def installationState_def demo_app_def initial_events_def)

lemma demo_authenticate:
  assumes "verify_claims (sat_lib demo_rt demo_rt_call (es_jwks (as_events demo_app))) 120000 t (demo_sat_request m path cj) =
      Inr (act, claims, ''k1'')" and "t \<in> {''p'', ''a'', ''u''}"
    and "cj \<noteq> Some False \<Longrightarrow> consume_token 120000 Map.empty act claims = (jti, Inr ())" and "cj = Some False \<Longrightarrow> jti = Map.empty"
  shows "authenticate demo_rt demo_rt_call (auth_input_of (demo_http m path t) cj) demo_app =
    (demo_app\<lparr>as_jti := jti\<rparr>, Inr (SatIdentity (toIdentity act claims ''k1'')))"
proof -
  have jti: "as_jti demo_app = Map.empty" by (simp add: demo_app_def)
  have "verifySat (sat_lib demo_rt demo_rt_call (es_jwks (as_events demo_app))) 120000 120000 Map.empty t (demo_sat_request m path cj) =
      (jti, Inr (toIdentity act claims ''k1''))"
    using assms(1,3,4) by (cases "cj = Some False") (simp_all add: verifySat_def demo_sat_request_def)
  then show ?thesis
    using demo_bearer [OF assms(2)]
    by (simp add: authenticate_def auth_input_of_def demo_http_def effective_config_def authenticate_sat_def demo_after_getKey jti
        flip: demo_sat_request_def)
qed

lemma demo_verified_claims:
  "verify_claims (sat_lib demo_rt demo_rt_call (es_jwks (as_events demo_app))) 120000 ''p'' (demo_sat_request ''POST'' ''/ky/v1/events'' (Some True)) =
     Inr (ActPlatform, demo_platform_claims, ''k1'')"
  "verify_claims (sat_lib demo_rt demo_rt_call (es_jwks (as_events demo_app))) 120000 ''u'' (demo_sat_request ''GET'' ''/api/x'' None) =
     Inr (ActUser, demo_person_claims, ''k1'')"
  "verify_claims (sat_lib demo_rt demo_rt_call (es_jwks (as_events demo_app))) 120000 ''a'' (demo_sat_request ''POST'' ''/ky/v1/capabilities/c'' (Some False)) =
     Inr (ActAgent, demo_agent_claims, ''k1'')"
  by code_simp+

lemma demo_event_shape:
  "assertShape (demo_event_body ''jwks.revoke'') (ee_config (rt_eventsEnv demo_rt)) =
     Inr \<lparr>pe_eventId = ''e1'', pe_stateVersion = 1, pe_type = JwksRevoke, pe_payload = JObj [(''kid'', JStr ''k1'')]\<rparr>"
  "assertShape (demo_event_body ''installation.deleted'') (ee_config (rt_eventsEnv demo_rt)) =
     Inr \<lparr>pe_eventId = ''e1'', pe_stateVersion = 1, pe_type = InstallationDeletedEv, pe_payload = JObj [(''kid'', JStr ''k1'')]\<rparr>"
  by code_simp+

lemma demo_platform_in:
  obtains jti where "route_authenticate demo_rt demo_rt_call (demo_http ''POST'' ''/ky/v1/events'' ''p'') True demo_app =
     (demo_app\<lparr>as_jti := jti\<rparr>, Inr (SatIdentity (toIdentity ActPlatform demo_platform_claims ''k1'')))"
proof -
  have "\<exists>jti. consume_token 120000 Map.empty ActPlatform demo_platform_claims = (jti, Inr ())"
    by (simp add: consume_token_def jti_consume_def purgeExpired_def Let_def)
  then obtain jti where "consume_token 120000 Map.empty ActPlatform demo_platform_claims = (jti, Inr ())" ..
  with demo_authenticate [OF demo_verified_claims(1)] that show ?thesis by (simp add: route_authenticate_def)
qed

lemma demo_event_accepted:
  assumes "snd (handle (rt_eventsEnv demo_rt) demo_call body (as_events demo_app)) = Inr ack"
  obtains st1 where "eventsHandler demo_rt demo_rt_call (demo_http ''POST'' ''/ky/v1/events'' ''p'') body demo_app = (st1, Inr ack)"
proof -
  obtain es where es: "handle (rt_eventsEnv demo_rt) demo_call body (as_events demo_app) = (es, Inr ack)"
    using assms by (metis prod.collapse)
  obtain jti where "route_authenticate demo_rt demo_rt_call (demo_http ''POST'' ''/ky/v1/events'' ''p'') True demo_app =
     (demo_app\<lparr>as_jti := jti\<rparr>, Inr (SatIdentity (toIdentity ActPlatform demo_platform_claims ''k1'')))"
    by (rule demo_platform_in)
  moreover have "ca_jwks demo_rt_call = demo_call" by (simp add: demo_rt_call_def)
  ultimately show ?thesis using that es by (simp add: eventsHandler_def)
qed

lemma demo_handled:
  "snd (handle (rt_eventsEnv demo_rt) demo_call (demo_event_body ''jwks.revoke'') (as_events demo_app)) =
     Inr \<lparr>ak_eventId = ''e1'', ak_stateVersion = 0, ak_verifiedKid = None\<rparr>"
  "snd (handle (rt_eventsEnv demo_rt) demo_call (demo_event_body ''installation.deleted'') (as_events demo_app)) =
     Inr \<lparr>ak_eventId = ''e1'', ak_stateVersion = 1, ak_verifiedKid = None\<rparr>"
  by (simp_all add: handle_def demo_event_shape handle_event_def findAck_def nextState_def event_effect_def payload_prop_def
      demo_app_def initial_events_def Let_def)

lemma revoked_key_locked_out_witness:
  "\<exists>st1. fst (eventsHandler demo_rt demo_rt_call (demo_http ''POST'' ''/ky/v1/events'' ''p'') (demo_event_body ''jwks.revoke'') demo_app) = st1 \<and>
     (\<exists>e. snd (authenticate demo_rt demo_rt_call (auth_input_of (demo_http ''GET'' ''/api/x'' ''u'') None)
        (foldl (app_step demo_rt) st1 [MeReq demo_rt_call (demo_http ''GET'' ''/ky/v1/me'' ''u'')])) = Inl e)"
proof -
  obtain st1 where acc: "eventsHandler demo_rt demo_rt_call (demo_http ''POST'' ''/ky/v1/events'' ''p'') (demo_event_body ''jwks.revoke'') demo_app =
      (st1, Inr \<lparr>ak_eventId = ''e1'', ak_stateVersion = 0, ak_verifiedKid = None\<rparr>)"
    using demo_handled(1) by (rule demo_event_accepted)
  have "\<exists>e. snd (authenticate demo_rt demo_rt_call (auth_input_of (demo_http ''GET'' ''/api/x'' ''u'') None)
        (foldl (app_step demo_rt) st1 [MeReq demo_rt_call (demo_http ''GET'' ''/ky/v1/me'' ''u'')])) = Inl e"
    by (rule revoked_key_locked_out [OF demo_app_ok acc demo_event_shape(1), where kid = "''k1''" and token = "''u''"
        and header = "\<lparr>jh_alg = Some ''ES256'', jh_typ = Some ''ky-sat+jwt'', jh_kid = Some ''k1''\<rparr>"])
      (use demo_bearer [of "''u''"] in
        \<open>simp_all add: js_prop_def demo_app_def initial_events_def auth_input_of_def demo_http_def\<close>)
  with acc show ?thesis by simp
qed


lemma user_request_sound_witness:
  "\<exists>sat. snd (requireUser demo_rt demo_rt_call None (demo_http ''GET'' ''/api/x'' ''u'') demo_app) = Inr (SatIdentity sat) \<and> vi_act sat = ActUser"
proof -
  let ?r = "demo_http ''GET'' ''/api/x'' ''u''"
  let ?sat = "toIdentity ActUser demo_person_claims ''k1''"
  have "authenticate demo_rt demo_rt_call (auth_input_of ?r None) demo_app = (demo_app\<lparr>as_jti := Map.empty\<rparr>, Inr (SatIdentity ?sat))"
    by (rule demo_authenticate [OF demo_verified_claims(2)]) (simp_all add: consume_token_def)
  moreover have "isEndpointAllowed (SatActor ActUser) ''GET'' (units ''/api/x'')
      \<lparr>eo_pathPrefixes = \<lparr>pp_user = [units ''/api/''], pp_admin = []\<rparr>, eo_tadm = Some (vi_tadm ?sat), eo_localMode = Some False,
       eo_testEndpoints = Some False\<rparr>" by code_simp
  moreover have "stalenessGate demo_rt demo_rt_call (demo_app\<lparr>as_jti := Map.empty\<rparr>) =
      Some \<lparr>sg_warn = False, sg_allowWrite = True, sg_allowRead = True, sg_age = Some 60000\<rparr>" by code_simp
  ultimately have "requireUser demo_rt demo_rt_call None ?r demo_app = (demo_app\<lparr>as_jti := Map.empty\<rparr>, Inr (SatIdentity ?sat))"
    by (simp add: requireUser_def user_gate_def demo_http_def check_def Let_def) (simp add: demo_rt_def)
  from user_request_sound [OF this] this show ?thesis by simp
qed

definition demo_capability_request :: capability_request where
  "demo_capability_request =
     \<lparr>cr_http = demo_http ''POST'' ''/ky/v1/capabilities/c'' ''a'', cr_capabilityId = ''c'', cr_idempotencyKey = Some ''l'',
      cr_body = VObj [(units ''input'', VObj [])]\<rparr>"


end
