(* ===== verification/Acs_Cidr.thy ===== *)
theory Acs_Cidr
  imports Agent_Base "HOL-Library.Word"
begin

text \<open>
  The IPv4 networks of the sandbox orchestrator (\<^verbatim>\<open>acs-orchestrator/src/cidr.ts\<close>). An address is a word of 32 bits; the
  JavaScript operators \<open>&\<close>, \<open><<\<close> and \<open>>>>\<close> work on such words. The theory starts with the text functions that the
  parsers of the orchestrator share: decimal numerals and their values.
\<close>

unbundle bit_operations_syntax

section \<open>Text\<close>

definition is_digit :: "char \<Rightarrow> bool" where
  "is_digit c = (48 \<le> (of_char c :: nat) \<and> (of_char c :: nat) \<le> 57)"

definition digit_value :: "char \<Rightarrow> nat" where
  "digit_value c = of_char c - 48"

definition decimal_value :: "string \<Rightarrow> nat" where
  "decimal_value s = foldl (\<lambda>n c. 10 * n + digit_value c) 0 s"

definition digit_char :: "nat \<Rightarrow> char" where
  "digit_char n = char_of (48 + n)"

fun decimal_text :: "nat \<Rightarrow> string" where
  "decimal_text n = (if n < 10 then [digit_char n] else decimal_text (n div 10) @ [digit_char (n mod 10)])"

declare decimal_text.simps [simp del]

text \<open>The regular expression \<open>\d{1,k}\<close> on the whole text.\<close>

definition digits_upto :: "nat \<Rightarrow> string \<Rightarrow> bool" where
  "digits_upto k s = (1 \<le> length s \<and> length s \<le> k \<and> list_all is_digit s)"

lemma digit_char_props:
  assumes "n < 10"
  shows "is_digit (digit_char n)" "digit_value (digit_char n) = n" "\<not> js_space (digit_char n)"
    "digit_char n \<noteq> CHR ''.''" "digit_char n \<noteq> CHR ''/''"
proof -
  have n: "(of_char (digit_char n) :: nat) = 48 + n" using assms by (simp add: digit_char_def)
  then show "is_digit (digit_char n)" "digit_value (digit_char n) = n" "\<not> js_space (digit_char n)"
    using assms by (simp_all add: is_digit_def digit_value_def js_space_def)
  have "(of_char CHR ''.'' :: nat) = 46" "(of_char CHR ''/'' :: nat) = 47" by simp_all
  with n show "digit_char n \<noteq> CHR ''.''" "digit_char n \<noteq> CHR ''/''" by (auto dest!: arg_cong [where f = "of_char :: char \<Rightarrow> nat"])
qed

lemma decimal_value_snoc [simp]: "decimal_value (s @ [c]) = 10 * decimal_value s + digit_value c"
  by (simp add: decimal_value_def)

lemma decimal_text_props:
  "list_all is_digit (decimal_text n) \<and> decimal_value (decimal_text n) = n \<and> decimal_text n \<noteq> [] \<and>
   (\<forall>c \<in> set (decimal_text n). \<not> js_space c \<and> c \<noteq> CHR ''.'' \<and> c \<noteq> CHR ''/'')"
proof (induction n rule: decimal_text.induct)
  case (1 n)
  show ?case
  proof (cases "n < 10")
    case True
    then show ?thesis
      by (subst (1 2 3 4) decimal_text.simps) (simp add: digit_char_props decimal_value_def)
  next
    case False
    have "n mod 10 < 10" by simp
    note d = digit_char_props [OF this]
    from False 1 d show ?thesis by (subst (1 2 3 4) decimal_text.simps) auto
  qed
qed

lemma decimal_text_simps [simp]:
  "list_all is_digit (decimal_text n)" "decimal_value (decimal_text n) = n" "decimal_text n \<noteq> []"
  "CHR ''.'' \<notin> set (decimal_text n)" "CHR ''/'' \<notin> set (decimal_text n)"
  "c \<in> set (decimal_text n) \<Longrightarrow> \<not> js_space c"
  using decimal_text_props by blast+

lemma decimal_text_length: "n < 10 ^ Suc k \<Longrightarrow> length (decimal_text n) \<le> Suc k"
proof (induction k arbitrary: n)
  case 0
  then show ?case by (subst decimal_text.simps) simp
next
  case (Suc k)
  then have "n div 10 < 10 ^ Suc k" by (simp add: div_less_iff_less_mult mult.commute)
  from Suc.IH [OF this] show ?case by (subst decimal_text.simps) simp
qed

lemma js_trim_id:
  assumes "s = [] \<or> \<not> js_space (hd s) \<and> \<not> js_space (last s)"
  shows "js_trim s = s"
proof (cases s)
  case (Cons c t)
  with assms have "dropWhile js_space s = s" "rev s \<noteq> []" by simp_all
  moreover have "\<not> js_space (hd (rev s))" using assms Cons by (simp only: hd_rev) simp
  ultimately show ?thesis unfolding js_trim_def by (cases "rev s") simp_all
qed (simp add: js_trim_def)


section \<open>Addresses and networks\<close>

type_synonym ipv4 = "32 word"

record ipv4_cidr =
  networkInt :: ipv4
  prefixLength :: nat
  canonical :: string

text \<open>The loop of \<open>parseIpv4\<close> over the four parts; \<open>result * 256 + n\<close> is computed without overflow.\<close>

fun parse_octets :: "string list \<Rightarrow> nat \<Rightarrow> nat option" where
  "parse_octets [] result = Some result"
| "parse_octets (part # parts) result =
     (if \<not> digits_upto 3 part then None
      else if decimal_value part > 255 then None
      else parse_octets parts (result * 256 + decimal_value part))"

definition parseIpv4 :: "string \<Rightarrow> ipv4 option" where
  "parseIpv4 s =
     (let parts = split_on CHR ''.'' (js_trim s) in
      if length parts \<noteq> 4 then None else map_option of_nat (parse_octets parts 0))"

definition octet :: "ipv4 \<Rightarrow> nat \<Rightarrow> nat" where
  "octet w shift = unat (drop_bit shift w AND 255)"

definition formatIpv4 :: "ipv4 \<Rightarrow> string" where
  "formatIpv4 w = join_with ''.'' (map (\<lambda>shift. decimal_text (octet w shift)) [24, 16, 8, 0])"

definition cidr_mask :: "nat \<Rightarrow> ipv4" where
  "cidr_mask n = (if n = 0 then 0 else push_bit (32 - n) 0xFFFFFFFF)"

definition cidr_of :: "ipv4 \<Rightarrow> nat \<Rightarrow> ipv4_cidr" where
  "cidr_of ip n =
     (let network = ip AND cidr_mask n in
      \<lparr>networkInt = network, prefixLength = n, canonical = formatIpv4 network @ ''/'' @ decimal_text n\<rparr>)"

text \<open>The first two parts around a slash count; \<open>split\<close> leaves a third one aside.\<close>

definition parseIpv4Cidr :: "string option \<Rightarrow> ipv4_cidr option" where
  "parseIpv4Cidr v =
     (case v of
        None \<Rightarrow> None
      | Some s \<Rightarrow>
          if s = [] then None
          else (case split_on CHR ''/'' (js_trim s) of
                  ipPart # prefixPart # _ \<Rightarrow>
                    if ipPart = [] then None
                    else if \<not> digits_upto 2 prefixPart then None
                    else if decimal_value prefixPart > 32 then None
                    else map_option (\<lambda>ip. cidr_of ip (decimal_value prefixPart)) (parseIpv4 ipPart)
                | _ \<Rightarrow> None))"

datatype cidr_arg = CidrParsed ipv4_cidr | CidrText string | CidrMissing

definition ipv4InCidr :: "string option \<Rightarrow> cidr_arg \<Rightarrow> bool" where
  "ipv4InCidr ip arg =
     (if \<not> truthy ip then False
      else (case (case arg of CidrParsed c \<Rightarrow> Some c | CidrText s \<Rightarrow> parseIpv4Cidr (Some s) | CidrMissing \<Rightarrow> parseIpv4Cidr None) of
              None \<Rightarrow> False
            | Some parsed \<Rightarrow>
                (case parseIpv4 (the ip) of
                   None \<Rightarrow> False
                 | Some w \<Rightarrow> w AND cidr_mask (prefixLength parsed) = networkInt parsed)))"

definition ipv4CidrsOverlap :: "ipv4_cidr \<Rightarrow> ipv4_cidr \<Rightarrow> bool" where
  "ipv4CidrsOverlap l r =
     (let leftNarrower = prefixLength l \<ge> prefixLength r;
          narrower = (if leftNarrower then l else r);
          broader = (if leftNarrower then r else l) in
      ipv4InCidr (Some (formatIpv4 (networkInt narrower))) (CidrParsed broader))"

section \<open>Texts of addresses\<close>

lemma octet_nat: "octet w shift = unat w div 2 ^ shift mod 256"
proof -
  have "drop_bit shift w AND 255 = take_bit 8 (drop_bit shift w)"
    by (simp add: take_bit_eq_mask mask_eq_exp_minus_1)
  then have "octet w shift = take_bit 8 (drop_bit shift (take_bit 32 (unat w)))"
    by (simp only: octet_def unsigned_take_bit_eq unsigned_drop_bit_eq) simp
  also have "take_bit 32 (unat w) = unat w" using unsigned_less [of w] by (intro take_bit_nat_eq_self) simp
  finally show ?thesis by (simp add: take_bit_eq_mod drop_bit_eq_div)
qed

lemma octet_digits:
  "digits_upto 3 (decimal_text (octet w k))" "decimal_value (decimal_text (octet w k)) = octet w k" "octet w k \<le> 255"
proof -
  show le: "octet w k \<le> 255" using mod_less_divisor [of 256] by (simp add: octet_nat less_Suc_eq_le [symmetric])
  then have "length (decimal_text (octet w k)) \<le> 3" using decimal_text_length [of "octet w k" 2] by simp
  then show "digits_upto 3 (decimal_text (octet w k))"
    using decimal_text_props [of "octet w k"] by (cases "decimal_text (octet w k)") (auto simp: digits_upto_def)
  show "decimal_value (decimal_text (octet w k)) = octet w k" using decimal_text_props by blast
qed

lemma octets_sum: "((octet w 24 * 256 + octet w 16) * 256 + octet w 8) * 256 + octet w 0 = unat w"
proof -
  have "unat w < 2 ^ 32" using unsigned_less [of w] by simp
  then have top: "octet w 24 = unat w div 256 div 256 div 256"
    by (simp add: octet_nat div_mult2_eq [symmetric])
  have rest: "octet w 16 = unat w div 256 div 256 mod 256" "octet w 8 = unat w div 256 mod 256" "octet w 0 = unat w mod 256"
    by (simp_all add: octet_nat div_mult2_eq [symmetric])
  show ?thesis unfolding top rest by (simp only: div_mult_mod_eq)
qed

lemma parse_join_octets:
  assumes "\<forall>p \<in> set ps. digits_upto 3 p \<and> CHR ''.'' \<notin> set p \<and> (\<forall>c \<in> set p. \<not> js_space c)" "length ps = 4"
  shows "parseIpv4 (join_with ''.'' ps) = map_option of_nat (parse_octets ps 0)"
proof -
  obtain a b c d where ps: "ps = [a, b, c, d]" using assms(2) by (auto simp: length_Suc_conv numeral_eq_Suc)
  then have ne: "a \<noteq> []" "d \<noteq> []" using assms(1) by (auto simp: digits_upto_def)
  then have "js_trim (join_with ''.'' ps) = join_with ''.'' ps"
    using assms(1) ps by (intro js_trim_id) auto
  moreover have "split_on CHR ''.'' (join_with ''.'' ps) = ps"
    using assms ps by (intro split_join) auto
  ultimately show ?thesis using assms(2) by (simp add: parseIpv4_def)
qed

lemma format_octets:
  "\<forall>p \<in> set (map (\<lambda>shift. decimal_text (octet w shift)) [24, 16, 8, 0]).
     digits_upto 3 p \<and> CHR ''.'' \<notin> set p \<and> CHR ''/'' \<notin> set p \<and> (\<forall>c \<in> set p. \<not> js_space c)"
  using octet_digits by simp

lemma parse_format [simp]: "parseIpv4 (formatIpv4 w) = Some w"
proof -
  have "parseIpv4 (formatIpv4 w) =
      map_option of_nat (parse_octets (map (\<lambda>shift. decimal_text (octet w shift)) [24, 16, 8, 0]) 0)"
    unfolding formatIpv4_def using format_octets [of w] by (intro parse_join_octets) auto
  also have "parse_octets (map (\<lambda>shift. decimal_text (octet w shift)) [24, 16, 8, 0]) 0 = Some (unat w)"
    using octets_sum [of w] octet_digits [of w] by (simp add: not_less)
  finally show ?thesis by simp
qed

lemma format_chars: "c \<in> set (formatIpv4 w) \<Longrightarrow> \<not> js_space c \<and> c \<noteq> CHR ''/''"
proof -
  have "\<not> js_space CHR ''.''" by (simp add: js_space_def)
  then show "c \<in> set (formatIpv4 w) \<Longrightarrow> \<not> js_space c \<and> c \<noteq> CHR ''/''" by (auto simp: formatIpv4_def)
qed

lemma format_nonempty [simp]: "formatIpv4 w \<noteq> []"
  by (simp add: formatIpv4_def)

section \<open>Networks as sets of addresses\<close>

lemma mask_bit: "n \<le> 32 \<Longrightarrow> bit (cidr_mask n) i \<longleftrightarrow> 32 - n \<le> i \<and> i < 32"
proof -
  have "(0xFFFFFFFF :: ipv4) = - 1" by simp
  then have m: "cidr_mask n = (if n = 0 then 0 else push_bit (32 - n) (- 1))" by (simp only: cidr_mask_def)
  show "n \<le> 32 \<Longrightarrow> bit (cidr_mask n) i \<longleftrightarrow> 32 - n \<le> i \<and> i < 32"
    unfolding m by (auto simp: bit_simps)
qed

lemma and_mask: "n \<le> 32 \<Longrightarrow> w AND cidr_mask n = push_bit (32 - n) (drop_bit (32 - n) w)"
  by (rule bit_word_eqI) (auto simp: bit_and_iff mask_bit bit_push_bit_iff bit_drop_bit_eq)

lemma unat_and_mask:
  assumes "n \<le> 32"
  shows "unat (w AND cidr_mask n) = unat w div 2 ^ (32 - n) * 2 ^ (32 - n)"
proof -
  have lt: "unat w < 2 ^ 32" using unsigned_less [of w] by simp
  have "unat w div 2 ^ (32 - n) * 2 ^ (32 - n) < 2 ^ 32" using lt by (meson div_times_less_eq_dividend le_less_trans)
  then have "take_bit 32 (unat w div 2 ^ (32 - n) * 2 ^ (32 - n)) = unat w div 2 ^ (32 - n) * 2 ^ (32 - n)"
    by (rule take_bit_nat_eq_self)
  moreover have "take_bit 32 (unat w) = unat w" using lt by (rule take_bit_nat_eq_self)
  ultimately show ?thesis using assms
    by (simp only: and_mask unsigned_push_bit_eq unsigned_drop_bit_eq) (simp add: push_bit_eq_mult drop_bit_eq_div)
qed

definition addresses :: "ipv4_cidr \<Rightarrow> ipv4 set" where
  "addresses c = {w. w AND cidr_mask (prefixLength c) = networkInt c}"

text \<open>A network that \<open>parseIpv4Cidr\<close> can return: the prefix is at most 32 and the host bits are clear.\<close>

definition cidr_ok :: "ipv4_cidr \<Rightarrow> bool" where
  "cidr_ok c = (prefixLength c \<le> 32 \<and> c = cidr_of (networkInt c) (prefixLength c))"

lemma cidr_of_ok: "n \<le> 32 \<Longrightarrow> cidr_ok (cidr_of ip n)"
  by (simp add: cidr_ok_def cidr_of_def Let_def and.assoc)

lemma parse_cidr_ok: "parseIpv4Cidr v = Some c \<Longrightarrow> cidr_ok c"
  by (auto simp: parseIpv4Cidr_def cidr_of_ok split: option.splits list.splits if_splits)

lemma network_masked: "cidr_ok c \<Longrightarrow> networkInt c AND cidr_mask (prefixLength c) = networkInt c"
  unfolding cidr_ok_def cidr_of_def Let_def by (metis ipv4_cidr.select_convs(1))

lemma addresses_interval:
  assumes "cidr_ok c"
  shows "w \<in> addresses c \<longleftrightarrow>
    unat (networkInt c) \<le> unat w \<and> unat w < unat (networkInt c) + 2 ^ (32 - prefixLength c)"
proof -
  let ?k = "2 ^ (32 - prefixLength c) :: nat"
  have n: "prefixLength c \<le> 32" using assms by (simp add: cidr_ok_def)
  obtain q where q: "unat (networkInt c) = q * ?k"
    using network_masked [OF assms] unat_and_mask [OF n, of "networkInt c"] by metis
  have "w \<in> addresses c \<longleftrightarrow> unat w div ?k * ?k = unat (networkInt c)"
    unfolding addresses_def mem_Collect_eq unat_and_mask [OF n, symmetric] by (rule word_unat_eq_iff)
  also have "\<dots> \<longleftrightarrow> unat w div ?k = q" unfolding q by simp
  also have "\<dots> \<longleftrightarrow> q * ?k \<le> unat w \<and> unat w < q * ?k + ?k"
    by (metis add.commute div_times_less_eq_dividend dividend_less_times_div div_nat_eqI mult.commute mult_Suc zero_less_numeral zero_less_power)
  finally show ?thesis unfolding q .
qed

lemma in_cidr_addresses:
  "ipv4InCidr (Some ip) (CidrParsed c) \<longleftrightarrow> (\<exists>w. parseIpv4 ip = Some w \<and> w \<in> addresses c)"
proof -
  have "parseIpv4 [] = None" by (simp add: parseIpv4_def js_trim_def)
  then show ?thesis by (cases "ip = []") (auto simp: ipv4InCidr_def addresses_def split: option.splits)
qed

lemma in_cidr_text:
  "parseIpv4Cidr (Some s) = Some c \<Longrightarrow> ipv4InCidr (Some ip) (CidrText s) = ipv4InCidr (Some ip) (CidrParsed c)"
  by (simp add: ipv4InCidr_def)

lemma parse_canonical_cidr:
  assumes "cidr_ok c"
  shows "parseIpv4Cidr (Some (canonical c)) = Some c"
proof -
  let ?t = "formatIpv4 (networkInt c)" and ?p = "decimal_text (prefixLength c)"
  have n: "prefixLength c \<le> 32" using assms by (simp add: cidr_ok_def)
  then have digits: "digits_upto 2 ?p"
    using decimal_text_length [of "prefixLength c" 1] by (simp add: digits_upto_def Suc_le_eq)
  have can: "canonical c = ?t @ CHR ''/'' # ?p"
    using assms network_masked [OF assms] unfolding cidr_ok_def cidr_of_def Let_def by (metis append_Cons append_Nil ipv4_cidr.select_convs(3))
  have "js_trim (canonical c) = canonical c"
    unfolding can using format_chars [of _ "networkInt c"] decimal_text_simps(6) [OF last_in_set, of "prefixLength c"]
    by (intro js_trim_id) (simp add: hd_append)
  moreover have "CHR ''/'' \<notin> set ?t" using format_chars by blast
  ultimately have "split_on CHR ''/'' (js_trim (canonical c)) = [?t, ?p]"
    unfolding can by (simp add: split_on_append split_on_single)
  moreover have "cidr_of (networkInt c) (prefixLength c) = c" using assms by (simp add: cidr_ok_def)
  ultimately show ?thesis using digits n can by (simp add: parseIpv4Cidr_def)
qed

lemma nested_prefix:
  assumes "m \<le> n" "n \<le> 32"
  shows "(w AND cidr_mask n) AND cidr_mask m = w AND cidr_mask m"
  using assms by (intro bit_word_eqI) (auto simp: bit_and_iff mask_bit)

lemma overlap_addresses:
  assumes "cidr_ok l" "cidr_ok r"
  shows "ipv4CidrsOverlap l r \<longleftrightarrow> addresses l \<inter> addresses r \<noteq> {}"
proof -
  have half: "networkInt a \<in> addresses b \<longleftrightarrow> addresses a \<inter> addresses b \<noteq> {}"
    if "cidr_ok a" "cidr_ok b" "prefixLength b \<le> prefixLength a" for a b
  proof
    show "networkInt a \<in> addresses b \<Longrightarrow> addresses a \<inter> addresses b \<noteq> {}"
      using network_masked [OF that(1)] by (auto simp: addresses_def)
    assume "addresses a \<inter> addresses b \<noteq> {}"
    then obtain w where "w AND cidr_mask (prefixLength a) = networkInt a" "w AND cidr_mask (prefixLength b) = networkInt b"
      by (auto simp: addresses_def)
    then show "networkInt a \<in> addresses b"
      using nested_prefix [of "prefixLength b" "prefixLength a" w] that by (simp add: addresses_def cidr_ok_def)
  qed
  show ?thesis
    using half [of l r] half [of r l] assms
    by (auto simp: ipv4CidrsOverlap_def Let_def in_cidr_addresses)
qed

section \<open>Claims\<close>

text \<open>A network that the parser accepts means an interval of addresses: an address text is inside exactly when it
  parses to one of the \<open>2 ^ (32 - prefix)\<close> addresses that start at the network address. The canonical text of the
  network parses back to the same network.\<close>

theorem cidr_exact:
  assumes "parseIpv4Cidr (Some s) = Some c"
  shows "(ipv4InCidr (Some ip) (CidrText s) \<longleftrightarrow>
            (\<exists>w. parseIpv4 ip = Some w \<and> unat (networkInt c) \<le> unat w \<and>
                 unat w < unat (networkInt c) + 2 ^ (32 - prefixLength c))) \<and>
         parseIpv4Cidr (Some (canonical c)) = Some c"
  using in_cidr_text [OF assms] in_cidr_addresses addresses_interval [OF parse_cidr_ok [OF assms]]
    parse_canonical_cidr [OF parse_cidr_ok [OF assms]] by simp

lemma demo_ips:
  "parseIpv4 ''172.16.179.5'' = Some 0xAC10B305" "parseIpv4 ''172.16.179.200'' = Some 0xAC10B3C8"
  "parseIpv4 ''10.0.0.0'' = Some 0x0A000000" "parseIpv4 ''10.1.2.3'' = Some 0x0A010203"
  by (simp_all add: parseIpv4_def js_trim_def js_space_def digits_upto_def is_digit_def decimal_value_def digit_value_def)

lemma demo_split:
  "split_on CHR ''/'' (js_trim ''172.16.179.5/24'') = [''172.16.179.5'', ''24'']"
  "split_on CHR ''/'' (js_trim ''10.0.0.0/8'') = [''10.0.0.0'', ''8'']"
  "split_on CHR ''/'' (js_trim ''10.0.0.0/8/24'') = [''10.0.0.0'', ''8'', ''24'']"
  "split_on CHR ''/'' (js_trim ''10.1.2.3/16'') = [''10.1.2.3'', ''16'']"
  by (simp_all add: js_trim_def js_space_def)

lemma demo_prefixes:
  "digits_upto 2 ''24'' \<and> decimal_value ''24'' = 24" "digits_upto 2 ''8'' \<and> decimal_value ''8'' = 8"
  "digits_upto 2 ''16'' \<and> decimal_value ''16'' = 16"
  by (simp_all add: digits_upto_def is_digit_def decimal_value_def digit_value_def)

lemma demo_cidrs:
  "parseIpv4Cidr (Some ''172.16.179.5/24'') = Some (cidr_of 0xAC10B305 24)"
  "parseIpv4Cidr (Some ''10.0.0.0/8'') = Some (cidr_of 0x0A000000 8)"
  "parseIpv4Cidr (Some ''10.0.0.0/8/24'') = Some (cidr_of 0x0A000000 8)"
  "parseIpv4Cidr (Some ''10.1.2.3/16'') = Some (cidr_of 0x0A010203 16)"
  by (simp_all add: parseIpv4Cidr_def demo_split demo_ips demo_prefixes)

theorem cidr_exact_witness:
  "ipv4InCidr (Some ''172.16.179.200'') (CidrText ''172.16.179.5/24'') \<and>
   parseIpv4Cidr (Some (canonical (cidr_of 0xAC10B305 24))) = Some (cidr_of 0xAC10B305 24)"
proof -
  have "unat (networkInt (cidr_of 0xAC10B305 24)) = 0xAC10B300" "prefixLength (cidr_of 0xAC10B305 24) = 24"
    by (simp_all add: cidr_of_def cidr_mask_def)
  then show ?thesis using cidr_exact [OF demo_cidrs(1), of "''172.16.179.200''"] demo_ips by simp
qed

text \<open>Two accepted networks overlap, by the comparison of the narrower network's address with the broader network,
  exactly when some address text lies in both.\<close>

theorem cidrs_overlap_exact:
  assumes "parseIpv4Cidr l = Some c" "parseIpv4Cidr r = Some d"
  shows "ipv4CidrsOverlap c d \<longleftrightarrow> (\<exists>ip. ipv4InCidr (Some ip) (CidrParsed c) \<and> ipv4InCidr (Some ip) (CidrParsed d))"
proof -
  have "(\<exists>ip. ipv4InCidr (Some ip) (CidrParsed c) \<and> ipv4InCidr (Some ip) (CidrParsed d)) \<longleftrightarrow> addresses c \<inter> addresses d \<noteq> {}"
    unfolding in_cidr_addresses using parse_format by fastforce
  then show ?thesis using overlap_addresses parse_cidr_ok assms by simp
qed

theorem cidrs_overlap_exact_witness:
  "\<exists>ip. ipv4InCidr (Some ip) (CidrParsed (cidr_of 0x0A000000 8)) \<and> ipv4InCidr (Some ip) (CidrParsed (cidr_of 0x0A010203 16))"
proof -
  have fields: "networkInt (cidr_of 0x0A000000 8) = 0x0A000000" "networkInt (cidr_of 0x0A010203 16) = 0x0A010000"
    "prefixLength (cidr_of ip n) = n" for ip n by (simp_all add: cidr_of_def cidr_mask_def Let_def)
  have "ipv4CidrsOverlap (cidr_of 0x0A000000 8) (cidr_of 0x0A010203 16)"
    by (simp add: ipv4CidrsOverlap_def in_cidr_addresses fields addresses_def) (simp add: cidr_mask_def)
  then show ?thesis using cidrs_overlap_exact [OF demo_cidrs(2,4)] by blast
qed

text \<open>The parser accepts a text with further parts after the prefix and takes the first two.\<close>

lemma trailing_parts_ignored: "parseIpv4Cidr (Some ''10.0.0.0/8/24'') = parseIpv4Cidr (Some ''10.0.0.0/8'')"
  by (simp add: demo_cidrs)

end
