(* ===== verification/Acs_Sandbox.thy ===== *)
theory Acs_Sandbox
  imports Acs_Cidr
begin

text \<open>
  The sandboxes of the orchestrator as it reads them from the cluster: workload classes, life cycle annotations,
  invocation leases, the decision when an inactive sandbox may go (\<^verbatim>\<open>sandboxLifecyclePolicy.ts\<close>), protection by
  background shells and broken states (\<^verbatim>\<open>sandboxState.ts\<close>) and the reader of a cluster resource
  (\<^verbatim>\<open>sandboxInventoryReader.ts\<close>).

  A resource is a JSON value. \<open>Date.parse\<close>, \<open>JSON.parse\<close>, \<open>String\<close> of values that are not strings and SHA-256 are
  the fields of \<open>js_env\<close>. Where the code reads a record out of a value of type object, an array has none of the
  properties in question and reads as the empty record.
\<close>

section \<open>Values\<close>

record js_env =
  se_date :: "string \<Rightarrow> int option"
  se_json :: "string \<Rightarrow> json option"
  se_String :: "json \<Rightarrow> string"
  se_sha256 :: "string \<Rightarrow> string"

fun record_fields :: "json \<Rightarrow> (string \<times> json) list" where
  "record_fields (JObj fs) = fs"
| "record_fields _ = []"

definition object_entries :: "(string \<times> json) list \<Rightarrow> (string \<times> json) list" where
  "object_entries fs = map (\<lambda>k. (k, js_prop fs k)) (keep_first (map fst fs))"

fun is_plain_object :: "json \<Rightarrow> bool" where
  "is_plain_object (JObj _) = True"
| "is_plain_object _ = False"

definition stringValue :: "json \<Rightarrow> string option" where
  "stringValue v = (case v of JStr s \<Rightarrow> if s = [] then None else Some s | _ \<Rightarrow> None)"

definition any_string :: "json \<Rightarrow> string option" where
  "any_string v = (case v of JStr s \<Rightarrow> Some s | _ \<Rightarrow> None)"

definition js_String :: "js_env \<Rightarrow> json \<Rightarrow> string" where
  "js_String env v = (case v of JStr s \<Rightarrow> s | _ \<Rightarrow> se_String env v)"

text \<open>A time stamp text as the code sees it through \<open>Date.parse\<close>; the empty text counts as missing.\<close>

definition stamp :: "js_env \<Rightarrow> string \<Rightarrow> iso_time" where
  "stamp env s = (if s = [] then Unparsable s else case se_date env s of Some t \<Rightarrow> Iso t | None \<Rightarrow> Unparsable s)"

definition parseDateMs :: "iso_time option \<Rightarrow> int option" where
  "parseDateMs v = Option.bind v date_parse"

text \<open>\<open>new Date(t).toISOString()\<close>: a time outside the range of dates throws.\<close>

datatype range_error = RangeError

definition MAX_DATE_MS :: int where
  "MAX_DATE_MS = 8640000000000000"

definition toISOString :: "int \<Rightarrow> range_error + iso_time" where
  "toISOString t = (if \<bar>t\<bar> \<le> MAX_DATE_MS then Inr (Iso t) else Inl RangeError)"

section \<open>Workloads, leases and life cycle states\<close>

datatype workload_class = WlInteractive | WlTaskboard | WlCron | WlMemory | WlDeploySmoke | WlProbe | WlUnknown

definition WORKLOAD_CLASSES :: "(string \<times> workload_class) list" where
  "WORKLOAD_CLASSES =
     [(''interactive'', WlInteractive), (''taskboard'', WlTaskboard), (''cron'', WlCron), (''memory'', WlMemory),
      (''deploy-smoke'', WlDeploySmoke), (''probe'', WlProbe), (''unknown'', WlUnknown)]"

record workload_descriptor =
  wd_class :: workload_class
  wd_taskKind :: "string option"
  wd_purpose :: "string option"

datatype terminal_state = TsCompleted | TsFailed | TsCancelled | TsTimedOut

definition TERMINAL_STATES :: "(string \<times> terminal_state) list" where
  "TERMINAL_STATES =
     [(''completed'', TsCompleted), (''failed'', TsFailed), (''cancelled'', TsCancelled), (''timed-out'', TsTimedOut)]"

definition FIVE_MINUTES_MS :: int where
  "FIVE_MINUTES_MS = 5 * 60000"

definition FIFTEEN_MINUTES_MS :: int where
  "FIFTEEN_MINUTES_MS = 15 * 60000"

definition MAX_INACTIVE_RETENTION_MS :: int where
  "MAX_INACTIVE_RETENTION_MS = 30 * 60000"

fun terminalRetentionMs :: "workload_class \<Rightarrow> int" where
  "terminalRetentionMs WlTaskboard = FIVE_MINUTES_MS"
| "terminalRetentionMs WlCron = FIVE_MINUTES_MS"
| "terminalRetentionMs WlMemory = FIVE_MINUTES_MS"
| "terminalRetentionMs WlProbe = FIVE_MINUTES_MS"
| "terminalRetentionMs WlInteractive = MAX_INACTIVE_RETENTION_MS"
| "terminalRetentionMs WlDeploySmoke = MAX_INACTIVE_RETENTION_MS"
| "terminalRetentionMs WlUnknown = MAX_INACTIVE_RETENTION_MS"

definition nonTerminalRetentionMs :: "workload_class \<Rightarrow> int" where
  "nonTerminalRetentionMs c =
     (if c = WlProbe then FIVE_MINUTES_MS
      else if c = WlCron \<or> c = WlMemory then FIFTEEN_MINUTES_MS
      else MAX_INACTIVE_RETENTION_MS)"

text \<open>A persisted lease. Its state is kept as the JSON value that was stored.\<close>

record lease_snapshot =
  le_annotationKey :: string
  le_raw :: string
  le_invocationKey :: "string option"
  le_until :: "iso_time option"
  le_state :: json
  le_completedAt :: "iso_time option"
  le_malformed :: bool

record lifecycle_state =
  ls_workloadClass :: "workload_class option"
  ls_workloadDescriptor :: "workload_descriptor option"
  ls_terminalState :: "terminal_state option"
  ls_terminalAt :: "iso_time option"
  ls_terminalOutcome :: "json option"
  ls_retentionDeadline :: "iso_time option"
  ls_deletionGeneration :: "string option"
  ls_leaseUntil :: "iso_time option"
  ls_leases :: "lease_snapshot list option"
  ls_leaseRecoveryPending :: bool

record managed_sandbox = lifecycle_state +
  ms_name :: string
  ms_uid :: "string option"
  ms_workspaceId :: "string option"
  ms_sessionId :: "string option"
  ms_sandboxScopeId :: "string option"
  ms_mountSubPath :: "string option"
  ms_phase :: "string option"
  ms_deletionTimestamp :: "string option"
  ms_networkCleanupFinalizer :: bool
  ms_brokenReason :: "string option"
  ms_pausedConditionChangedAt :: "iso_time option"
  ms_createdAt :: "iso_time option"
  ms_lastActiveAt :: "iso_time option"
  ms_backgroundShellProtectedUntil :: "iso_time option"
  ms_backgroundShellProtectionGeneration :: "string option"
  ms_image :: "string option"
  ms_cpuRequest :: "string option"
  ms_cpuLimit :: "string option"
  ms_memoryRequest :: "string option"
  ms_memoryLimit :: "string option"

definition parseWorkloadDescriptor :: "json \<Rightarrow> workload_descriptor option" where
  "parseWorkloadDescriptor v =
     (case v of
        JObj raw \<Rightarrow>
          (case Option.bind (any_string (js_prop raw ''class'')) (map_of WORKLOAD_CLASSES) of
             None \<Rightarrow> None
           | Some c \<Rightarrow>
               let one_of = (\<lambda>key options. case any_string (js_prop raw key) of
                       Some s \<Rightarrow> if c = WlTaskboard \<and> s \<in> set options then Some s else None | None \<Rightarrow> None) in
               Some \<lparr>wd_class = c, wd_taskKind = one_of ''taskKind'' [''delivery'', ''advisory'', ''integration'', ''remediation''],
                     wd_purpose = one_of ''purpose'' [''work'', ''review'', ''merge'']\<rparr>)
      | _ \<Rightarrow> None)"

definition annotation :: "string \<Rightarrow> string" where
  "annotation name = ''agent-saas.kaiyan.net/'' @ name"

definition workloadDescriptorFromAnnotations ::
  "js_env \<Rightarrow> (string \<times> json) list \<Rightarrow> (string \<times> json) list \<Rightarrow> workload_descriptor" where
  "workloadDescriptorFromAnnotations env labels annotations =
     (case Option.bind (Option.bind (any_string (js_prop annotations (annotation ''workload-descriptor''))) (se_json env)) parseWorkloadDescriptor of
        Some d \<Rightarrow> d
      | None \<Rightarrow>
          \<lparr>wd_class = (case Option.bind (any_string (js_prop labels (annotation ''workload-class''))) (map_of WORKLOAD_CLASSES) of
                         Some c \<Rightarrow> c | None \<Rightarrow> WlUnknown),
           wd_taskKind = None, wd_purpose = None\<rparr>)"

section \<open>Invocation leases\<close>

definition lease_prefix :: string where
  "lease_prefix = ''agent-saas.kaiyan.net/active-invocation-''"

definition activeInvocationLeaseAnnotationKey :: "js_env \<Rightarrow> string \<Rightarrow> string" where
  "activeInvocationLeaseAnnotationKey env invocationKey = lease_prefix @ take 24 (se_sha256 env invocationKey)"

definition malformed_lease :: "string \<Rightarrow> string \<Rightarrow> lease_snapshot" where
  "malformed_lease key raw =
     \<lparr>le_annotationKey = key, le_raw = raw, le_invocationKey = None, le_until = None, le_state = JStr ''unknown'',
      le_completedAt = None, le_malformed = True\<rparr>"

text \<open>A text property that \<open>Date.parse\<close> accepts.\<close>

definition dated :: "js_env \<Rightarrow> json \<Rightarrow> iso_time option" where
  "dated env v = (case v of JStr s \<Rightarrow> map_option Iso (se_date env s) | _ \<Rightarrow> None)"

definition lease_of_record :: "js_env \<Rightarrow> string \<Rightarrow> string \<Rightarrow> (string \<times> json) list \<Rightarrow> lease_snapshot" where
  "lease_of_record env key raw fs =
     (let invocationKey = stringValue (js_prop fs ''invocationKey'');
          untl = dated env (js_prop fs ''until'');
          given = js_prop fs ''state'';
          state = (if given = JUndefined then JStr ''executing''
                   else if js_String env given \<in> {''executing'', ''background_pending'', ''completion_pending''} then given
                   else JStr ''unknown'');
          completedAt = dated env (js_prop fs ''completedAt'') in
      \<lparr>le_annotationKey = key, le_raw = raw, le_invocationKey = invocationKey, le_until = untl, le_state = state,
       le_completedAt = completedAt,
       le_malformed = (state = JStr ''unknown'' \<or> invocationKey = None \<or> untl = None \<or>
                       (state = JStr ''completion_pending'' \<and> completedAt = None))\<rparr>)"

definition parseInvocationLeaseSnapshot :: "js_env \<Rightarrow> string \<Rightarrow> json \<Rightarrow> lease_snapshot" where
  "parseInvocationLeaseSnapshot env key rawValue =
     (case rawValue of
        JStr raw \<Rightarrow>
          (case se_json env raw of
             Some (JObj fs) \<Rightarrow> lease_of_record env key raw fs
           | _ \<Rightarrow> malformed_lease key raw)
      | JUndefined \<Rightarrow> malformed_lease key []
      | JNull \<Rightarrow> malformed_lease key []
      | _ \<Rightarrow> malformed_lease key (se_String env rawValue))"

definition activeInvocationLeaseSnapshots :: "js_env \<Rightarrow> (string \<times> json) list \<Rightarrow> lease_snapshot list" where
  "activeInvocationLeaseSnapshots env annotations =
     map (\<lambda>(k, v). parseInvocationLeaseSnapshot env k v)
       (filter (\<lambda>(k, v). take (length lease_prefix) k = lease_prefix) (object_entries annotations))"

text \<open>The latest end among the leases; the first of several equal ones stays.\<close>

fun latest_until :: "lease_snapshot list \<Rightarrow> int option \<Rightarrow> int option" where
  "latest_until [] best = best"
| "latest_until (l # ls) best =
     (case parseDateMs (le_until l) of
        None \<Rightarrow> latest_until ls best
      | Some at \<Rightarrow>
          if (case best of None \<Rightarrow> False | Some b \<Rightarrow> at \<le> b) then latest_until ls best
          else latest_until ls (Some at))"

definition activeInvocationLeaseUntil :: "js_env \<Rightarrow> (string \<times> json) list \<Rightarrow> iso_time option" where
  "activeInvocationLeaseUntil env annotations =
     map_option Iso (latest_until (activeInvocationLeaseSnapshots env annotations) None)"

definition lifecycleStateFromMetadata :: "js_env \<Rightarrow> (string \<times> json) list \<Rightarrow> (string \<times> json) list \<Rightarrow> lifecycle_state" where
  "lifecycleStateFromMetadata env labels annotations =
     (let descriptor = workloadDescriptorFromAnnotations env labels annotations;
          leases = activeInvocationLeaseSnapshots env annotations;
          note_of = (\<lambda>name. js_prop annotations (annotation name)) in
      \<lparr>ls_workloadClass = Some (wd_class descriptor),
       ls_workloadDescriptor = Some descriptor,
       ls_terminalState = Option.bind (any_string (note_of ''terminal-state'')) (map_of TERMINAL_STATES),
       ls_terminalAt = map_option (stamp env) (any_string (note_of ''terminal-at'')),
       ls_terminalOutcome =
         (case note_of ''terminal-outcome'' of
            JUndefined \<Rightarrow> None
          | JStr s \<Rightarrow> Some (case se_json env s of Some v \<Rightarrow> v | None \<Rightarrow> JStr s)
          | _ \<Rightarrow> Some JUndefined),
       ls_retentionDeadline = map_option (stamp env) (any_string (note_of ''retention-deadline'')),
       ls_deletionGeneration = any_string (note_of ''deletion-generation''),
       ls_leaseUntil = activeInvocationLeaseUntil env annotations,
       ls_leases = (if leases = [] then None else Some leases),
       ls_leaseRecoveryPending = (leases \<noteq> [])\<rparr>)"

definition isActiveInvocationLeaseProtected :: "'a lifecycle_state_scheme \<Rightarrow> int \<Rightarrow> bool" where
  "isActiveInvocationLeaseProtected sandbox nowMs =
     (if ls_leaseRecoveryPending sandbox then True
      else (case parseDateMs (ls_leaseUntil sandbox) of None \<Rightarrow> False | Some t \<Rightarrow> t > nowMs))"

section \<open>When a sandbox may go\<close>

definition terminalDeadlineAt :: "workload_class \<Rightarrow> iso_time option \<Rightarrow> range_error + iso_time option" where
  "terminalDeadlineAt c terminalAt =
     (case parseDateMs terminalAt of
        None \<Rightarrow> Inr None
      | Some at \<Rightarrow> bind_res (toISOString (at + terminalRetentionMs c)) (\<lambda>d. Inr (Some d)))"

datatype lifecycle_decision_name =
    RetainActive | RetainBackgroundProtected | RetainUntilDeadline | RetainKnownActive
  | DeleteInactiveExpired | DeleteTerminalExpired | DeleteRetentionExpired | DeleteProbeResidue | DeleteUnknownExpired

record lifecycle_decision =
  ld_workloadClass :: workload_class
  ld_decision :: lifecycle_decision_name
  ld_delete :: bool
  ld_deadlineAt :: "iso_time option"
  ld_terminalDeadlineAt :: "iso_time option"
  ld_reason :: string

datatype deadline_source = SrcInactive | SrcTerminal | SrcRetention

fun source_text :: "deadline_source \<Rightarrow> string" where
  "source_text SrcInactive = ''inactive''"
| "source_text SrcTerminal = ''terminal''"
| "source_text SrcRetention = ''retention''"

definition workload_of :: "'a lifecycle_state_scheme \<Rightarrow> workload_class" where
  "workload_of s =
     (case nullish (ls_workloadClass s) (map_option wd_class (ls_workloadDescriptor s)) of Some c \<Rightarrow> c | None \<Rightarrow> WlUnknown)"

text \<open>The latest of creation, last activity and terminal transition.\<close>

definition lifecycle_activity :: "managed_sandbox \<Rightarrow> int option" where
  "lifecycle_activity s =
     (let createdAtMs = parseDateMs (ms_createdAt s);
          lastActiveAtMs = nullish (parseDateMs (ms_lastActiveAt s)) createdAtMs;
          terminalAtMs = parseDateMs (ls_terminalAt s) in
      fold (\<lambda>v latest. case latest of None \<Rightarrow> Some v | Some l \<Rightarrow> Some (max l v))
        (List.map_filter id [createdAtMs, lastActiveAtMs, terminalAtMs]) None)"

definition lifecycle_deadlines :: "managed_sandbox \<Rightarrow> iso_time option \<Rightarrow> (deadline_source \<times> int) list" where
  "lifecycle_deadlines s terminalDeadline =
     js_sort (\<lambda>l r. snd l \<le> snd r)
       ((case lifecycle_activity s of None \<Rightarrow> [] | Some t \<Rightarrow> [(SrcInactive, t + nonTerminalRetentionMs (workload_of s))]) @
        (case parseDateMs terminalDeadline of None \<Rightarrow> [] | Some t \<Rightarrow> [(SrcTerminal, t)]) @
        (case parseDateMs (ls_retentionDeadline s) of None \<Rightarrow> [] | Some t \<Rightarrow> [(SrcRetention, t)]))"

definition expired_decision :: "workload_class \<Rightarrow> deadline_source \<Rightarrow> lifecycle_decision_name" where
  "expired_decision c src =
     (if c = WlProbe then DeleteProbeResidue
      else if src = SrcRetention then DeleteRetentionExpired
      else if src = SrcTerminal then DeleteTerminalExpired
      else if c = WlUnknown then DeleteUnknownExpired
      else DeleteInactiveExpired)"

definition retain :: "workload_class \<Rightarrow> lifecycle_decision_name \<Rightarrow> string \<Rightarrow> lifecycle_decision" where
  "retain c d reason =
     \<lparr>ld_workloadClass = c, ld_decision = d, ld_delete = False, ld_deadlineAt = None, ld_terminalDeadlineAt = None, ld_reason = reason\<rparr>"

definition decideSandboxLifecycle :: "managed_sandbox \<Rightarrow> int \<Rightarrow> bool \<Rightarrow> bool \<Rightarrow> range_error + lifecycle_decision" where
  "decideSandboxLifecycle s nowMs active backgroundProtected =
     (let c = workload_of s in
      if active \<or> isActiveInvocationLeaseProtected s nowMs
      then Inr (retain c RetainActive ''active registry or persistent invocation lease'')
      else if backgroundProtected then Inr (retain c RetainBackgroundProtected ''background shell protection'')
      else bind_res (terminalDeadlineAt c (ls_terminalAt s)) (\<lambda>terminalDeadline.
        case lifecycle_deadlines s terminalDeadline of
          [] \<Rightarrow> Inr (retain c RetainKnownActive ''lifecycle timestamps are unavailable'')
        | (src, at) # _ \<Rightarrow>
            let expired = nowMs \<ge> at in
            bind_res (toISOString at) (\<lambda>deadlineAt.
            Inr \<lparr>ld_workloadClass = c, ld_decision = (if expired then expired_decision c src else RetainUntilDeadline),
                 ld_delete = expired, ld_deadlineAt = Some deadlineAt, ld_terminalDeadlineAt = terminalDeadline,
                 ld_reason = source_text src @ '' lifecycle deadline '' @ (if expired then ''expired'' else ''pending'')\<rparr>)))"

section \<open>Requests about the life cycle\<close>

record lifecycle_identity =
  li_workspaceId :: string
  li_sessionId :: string
  li_sandboxScopeId :: string

record lifecycle_update = lifecycle_identity +
  lu_terminalState :: terminal_state
  lu_terminalAt :: iso_time
  lu_outcome :: "json option"
  lu_retentionDeadline :: "iso_time option"
  lu_expectedActivityGeneration :: "string option option"

record deletion_generation_update = lifecycle_identity +
  du_deletionGeneration :: string
  du_previousDeletionGeneration :: "string option"

datatype update_fault =
    BodyNotObject | FieldMissing string | TerminalStateInvalid | TerminalAtInvalid | RetentionDeadlineInvalid
  | ExpectedGenerationInvalid | OutcomeTooLarge | DeletionGenerationInvalid | PreviousGenerationInvalid

definition nonblank :: "json \<Rightarrow> string option" where
  "nonblank v = (case v of JStr s \<Rightarrow> if js_trim s = [] then None else Some (js_trim s) | _ \<Rightarrow> None)"

definition need_field :: "(string \<times> json) list \<Rightarrow> string \<Rightarrow> update_fault + string" where
  "need_field raw k = (case nonblank (js_prop raw k) of None \<Rightarrow> Inl (FieldMissing k) | Some s \<Rightarrow> Inr s)"

definition parseLifecycleIdentity :: "json \<Rightarrow> update_fault + lifecycle_identity" where
  "parseLifecycleIdentity v =
     (case v of
        JObj raw \<Rightarrow>
          bind_res (need_field raw ''workspaceId'') (\<lambda>w.
          bind_res (need_field raw ''sessionId'') (\<lambda>s.
          bind_res (need_field raw ''sandboxScopeId'') (\<lambda>c.
          Inr \<lparr>li_workspaceId = w, li_sessionId = s, li_sandboxScopeId = c\<rparr>)))
      | _ \<Rightarrow> Inl BodyNotObject)"

definition validIso :: "js_env \<Rightarrow> json \<Rightarrow> bool" where
  "validIso env v = (case v of JStr s \<Rightarrow> js_trim s \<noteq> [] \<and> se_date env s \<noteq> None | _ \<Rightarrow> False)"

definition iso_prop :: "js_env \<Rightarrow> json \<Rightarrow> iso_time" where
  "iso_prop env v = (case v of JStr s \<Rightarrow> stamp env s | _ \<Rightarrow> Unparsable [])"

text \<open>\<open>bytes\<close> is the size of a value's JSON text.\<close>

definition parseLifecycleUpdate :: "js_env \<Rightarrow> (json \<Rightarrow> nat) \<Rightarrow> json \<Rightarrow> update_fault + lifecycle_update" where
  "parseLifecycleUpdate env bytes v =
     bind_res (parseLifecycleIdentity v) (\<lambda>identity.
     let raw = record_fields v;
         deadline = js_prop raw ''retentionDeadline'';
         generation = js_prop raw ''expectedActivityGeneration'';
         outcome = js_prop raw ''outcome'' in
     case Option.bind (any_string (js_prop raw ''terminalState'')) (map_of TERMINAL_STATES) of
       None \<Rightarrow> Inl TerminalStateInvalid
     | Some ts \<Rightarrow>
         bind_res (check (validIso env (js_prop raw ''terminalAt'')) TerminalAtInvalid) (\<lambda>_.
         bind_res (check (deadline = JUndefined \<or> validIso env deadline) RetentionDeadlineInvalid) (\<lambda>_.
         bind_res (check (generation \<in> {JUndefined, JNull} \<or> stringValue generation \<noteq> None) ExpectedGenerationInvalid) (\<lambda>_.
         bind_res (check (outcome = JUndefined \<or> bytes outcome \<le> 8 * 1024) OutcomeTooLarge) (\<lambda>_.
         Inr \<lparr>li_workspaceId = li_workspaceId identity, li_sessionId = li_sessionId identity,
              li_sandboxScopeId = li_sandboxScopeId identity, lu_terminalState = ts,
              lu_terminalAt = iso_prop env (js_prop raw ''terminalAt''),
              lu_outcome = (if outcome = JUndefined then None else Some outcome),
              lu_retentionDeadline = (if deadline = JUndefined then None else Some (iso_prop env deadline)),
              lu_expectedActivityGeneration = (if generation = JUndefined then None else Some (stringValue generation))\<rparr>)))))"

definition parseDeletionGenerationUpdate :: "json \<Rightarrow> update_fault + deletion_generation_update" where
  "parseDeletionGenerationUpdate v =
     bind_res (parseLifecycleIdentity v) (\<lambda>identity.
     let raw = record_fields v; previous = js_prop raw ''previousDeletionGeneration'' in
     case nonblank (js_prop raw ''deletionGeneration'') of
       None \<Rightarrow> Inl DeletionGenerationInvalid
     | Some g \<Rightarrow>
         bind_res (check (previous = JUndefined \<or> nonblank previous \<noteq> None) PreviousGenerationInvalid) (\<lambda>_.
         Inr \<lparr>li_workspaceId = li_workspaceId identity, li_sessionId = li_sessionId identity,
              li_sandboxScopeId = li_sandboxScopeId identity, du_deletionGeneration = g,
              du_previousDeletionGeneration = nonblank previous\<rparr>))"

definition parseScopeDeletion :: "json \<Rightarrow> update_fault + deletion_generation_update" where
  "parseScopeDeletion v =
     bind_res (parseDeletionGenerationUpdate v) (\<lambda>u. Inr (u\<lparr>du_previousDeletionGeneration := None\<rparr>))"

section \<open>Reading a resource\<close>

record sandbox_status =
  ss_phase :: "string option"
  ss_raw :: "json"

fun is_object_value :: "json \<Rightarrow> bool" where
  "is_object_value (JObj _) = True"
| "is_object_value (JArr _) = True"
| "is_object_value _ = False"

fun array_items :: "json \<Rightarrow> json list" where
  "array_items (JArr xs) = xs"
| "array_items _ = []"

definition child :: "(string \<times> json) list \<Rightarrow> string \<Rightarrow> (string \<times> json) list" where
  "child fs k = record_fields (js_prop fs k)"

definition isBackgroundShellProtected :: "managed_sandbox \<Rightarrow> int \<Rightarrow> bool" where
  "isBackgroundShellProtected s nowMs =
     (case parseDateMs (ms_backgroundShellProtectedUntil s) of None \<Rightarrow> False | Some t \<Rightarrow> t > nowMs)"

definition backgroundShellProtectionFromStatus :: "js_env \<Rightarrow> sandbox_status \<Rightarrow> int \<Rightarrow> iso_time option" where
  "backgroundShellProtectionFromStatus env status nowMs =
     (let annotations = child (child (record_fields (ss_raw status)) ''metadata'') ''annotations'';
          protectedUntil = map_option (stamp env) (stringValue (js_prop annotations (annotation ''background-shell-protected-until''))) in
      case parseDateMs protectedUntil of
        None \<Rightarrow> None
      | Some t \<Rightarrow> if t > nowMs then protectedUntil else None)"

definition lower_char :: "char \<Rightarrow> char" where
  "lower_char c = (let n = of_char c :: nat in if 65 \<le> n \<and> n \<le> 90 then char_of (n + 32) else c)"

text \<open>The test \<open>/text/i\<close> for a text of small ASCII letters and blanks.\<close>

fun contains_ci :: "string \<Rightarrow> string \<Rightarrow> bool" where
  "contains_ci needle [] = (needle = [])"
| "contains_ci needle (c # s) = (map lower_char (take (length needle) (c # s)) = needle \<or> contains_ci needle s)"

definition paused_condition :: "(string \<times> json) list \<Rightarrow> (string \<times> json) list" where
  "paused_condition statusBody =
     (case List.find (\<lambda>c. is_object_value c \<and> js_prop (record_fields c) ''type'' = JStr ''SandboxPaused'')
             (array_items (js_prop statusBody ''conditions'')) of
        None \<Rightarrow> [] | Some c \<Rightarrow> record_fields c)"

definition brokenSandboxStateReason :: "sandbox_status \<Rightarrow> string option" where
  "brokenSandboxStateReason status =
     (let raw = record_fields (ss_raw status);
          spec = child raw ''spec'';
          statusBody = child raw ''status'';
          podAnnotations = child (child statusBody ''podInfo'') ''annotations'';
          condition = paused_condition statusBody;
          recreating = (js_prop podAnnotations ''ops.alibabacloud.com/recreating'' = JStr ''true'') in
      if ss_phase status = Some ''Failed''
      then (if (case stringValue (js_prop statusBody ''message'') of None \<Rightarrow> False | Some m \<Rightarrow> contains_ci ''pod not found'' m)
            then Some ''failed_pod_not_found''
            else if recreating then Some ''failed_recreating'' else Some ''failed'')
      else if ss_phase status \<noteq> Some ''Paused'' then None
      else if js_prop condition ''reason'' = JStr ''ImageChanged'' \<and> js_prop condition ''status'' = JStr ''False''
      then Some ''image_changed''
      else if js_prop spec ''paused'' = JBool False then Some ''requested_running''
      else None)"

definition brokenPausedStateReason :: "sandbox_status \<Rightarrow> string option" where
  "brokenPausedStateReason status =
     (if ss_phase status \<noteq> Some ''Paused'' then None else brokenSandboxStateReason status)"

definition pausedConditionLastTransition :: "(string \<times> json) list \<Rightarrow> string option" where
  "pausedConditionLastTransition item =
     stringValue (js_prop (paused_condition (child item ''status'')) ''lastTransitionTime'')"

datatype path_fault = PathEmpty | PathNotRelative | PathSegment

definition normalizeMountSubPath :: "string \<Rightarrow> path_fault + string" where
  "normalizeMountSubPath s =
     (let trimmed = js_trim s; parts = split_on CHR ''/'' trimmed in
      if trimmed = [] then Inl PathEmpty
      else if hd trimmed = CHR ''/'' \<or> CHR 0x5C \<in> set trimmed then Inl PathNotRelative
      else if list_ex (\<lambda>p. p \<in> {[], ''.'', ''..''}) parts then Inl PathSegment
      else Inr (join_with ''/'' parts))"

definition primary_container :: "string \<Rightarrow> (string \<times> json) list \<Rightarrow> json option" where
  "primary_container name item =
     List.find (\<lambda>c. is_object_value c \<and>
         (''name'' \<notin> fst ` set (record_fields c) \<or> js_prop (record_fields c) ''name'' = JStr name))
       (array_items (js_prop (child (child (child item ''spec'') ''template'') ''spec'') ''containers''))"

definition NETWORK_CLEANUP_FINALIZER :: string where
  "NETWORK_CLEANUP_FINALIZER = annotation ''network-cleanup''"

definition managedSandboxFromResource :: "js_env \<Rightarrow> string \<Rightarrow> (string \<times> json) list \<Rightarrow> managed_sandbox" where
  "managedSandboxFromResource env containerName item =
     (let metadata = child item ''metadata'';
          annotations = child metadata ''annotations'';
          labels = child metadata ''labels'';
          phase = stringValue (js_prop (child item ''status'') ''phase'');
          primary = primary_container containerName item;
          resources = (case primary of None \<Rightarrow> [] | Some c \<Rightarrow> child (record_fields c) ''resources'');
          requests = child resources ''requests'';
          limits = child resources ''limits'';
          note_of = (\<lambda>name. stringValue (js_prop annotations (annotation name)));
          label_of = (\<lambda>name. stringValue (js_prop labels (annotation name)));
          createdAt = nullish (note_of ''created-at'') (stringValue (js_prop metadata ''creationTimestamp'')) in
      lifecycle_state.extend (lifecycleStateFromMetadata env labels annotations)
        (managed_sandbox.fields
          (case js_prop metadata ''name'' of JStr s \<Rightarrow> s | _ \<Rightarrow> [])
          (stringValue (js_prop metadata ''uid''))
          (nullish (note_of ''workspace-id'') (label_of ''workspace-id''))
          (nullish (note_of ''session-id'') (label_of ''session-id''))
          (nullish (note_of ''sandbox-scope-id'') (label_of ''sandbox-scope-id''))
          (note_of ''mount-subpath'')
          phase
          (stringValue (js_prop metadata ''deletionTimestamp''))
          (JStr NETWORK_CLEANUP_FINALIZER \<in> set (array_items (js_prop metadata ''finalizers'')))
          (brokenSandboxStateReason \<lparr>ss_phase = phase, ss_raw = JObj item\<rparr>)
          (map_option (stamp env) (pausedConditionLastTransition item))
          (map_option (stamp env) createdAt)
          (map_option (stamp env) (nullish (note_of ''last-active-at'') createdAt))
          (map_option (stamp env) (note_of ''background-shell-protected-until''))
          (note_of ''background-shell-protection-generation'')
          (Option.bind primary (\<lambda>c. stringValue (js_prop (record_fields c) ''image'')))
          (stringValue (js_prop requests ''cpu''))
          (stringValue (js_prop limits ''cpu''))
          (stringValue (js_prop requests ''memory''))
          (stringValue (js_prop limits ''memory''))))"

text \<open>The list of the cluster, without resources that have no name.\<close>

definition readManagedSandboxes :: "js_env \<Rightarrow> string \<Rightarrow> (string \<times> json) list list \<Rightarrow> managed_sandbox list" where
  "readManagedSandboxes env containerName items =
     filter (\<lambda>s. ms_name s \<noteq> []) (map (managedSandboxFromResource env containerName) items)"

section \<open>Leases keep a sandbox\<close>

lemma lease_annotation_snapshot:
  assumes "k \<in> fst ` set annotations" "take (length lease_prefix) k = lease_prefix"
  shows "activeInvocationLeaseSnapshots env annotations \<noteq> []"
proof -
  have "(k, js_prop annotations k) \<in> set (object_entries annotations)" using assms(1) by (auto simp: object_entries_def)
  with assms(2) have "filter (\<lambda>(k, v). take (length lease_prefix) k = lease_prefix) (object_entries annotations) \<noteq> []"
    by (auto simp: filter_empty_conv)
  then show ?thesis by (simp add: activeInvocationLeaseSnapshots_def)
qed

lemma resource_lifecycle:
  "lifecycle_state.truncate (managedSandboxFromResource env name item) =
     lifecycleStateFromMetadata env (child (child item ''metadata'') ''labels'') (child (child item ''metadata'') ''annotations'')"
  by (simp add: managedSandboxFromResource_def Let_def lifecycle_state.defs managed_sandbox.defs)

lemma resource_pending:
  "ls_leaseRecoveryPending (managedSandboxFromResource env name item) \<longleftrightarrow>
     activeInvocationLeaseSnapshots env (child (child item ''metadata'') ''annotations'') \<noteq> []"
  by (simp add: managedSandboxFromResource_def Let_def lifecycle_state.defs managed_sandbox.defs lifecycleStateFromMetadata_def)

lemma pending_protected: "ls_leaseRecoveryPending s \<Longrightarrow> isActiveInvocationLeaseProtected s now"
  by (simp add: isActiveInvocationLeaseProtected_def)

section \<open>Deadlines\<close>

definition deadline_times :: "managed_sandbox \<Rightarrow> int set" where
  "deadline_times s =
     {t + nonTerminalRetentionMs (workload_of s) | t. lifecycle_activity s = Some t} \<union>
     {t + terminalRetentionMs (workload_of s) | t. parseDateMs (ls_terminalAt s) = Some t} \<union>
     {t. parseDateMs (ls_retentionDeadline s) = Some t}"

lemma toISOString_Inr [simp]: "toISOString t = Inr d \<longleftrightarrow> d = Iso t \<and> \<bar>t\<bar> \<le> MAX_DATE_MS"
  by (auto simp: toISOString_def)

lemma parse_Iso [simp]: "parseDateMs (Some (Iso t)) = Some t" "parseDateMs None = None"
  by (simp_all add: parseDateMs_def)

lemma terminal_deadline_parse:
  "terminalDeadlineAt c at = Inr d \<Longrightarrow> parseDateMs d = map_option (\<lambda>t. t + terminalRetentionMs c) (parseDateMs at)"
  by (auto simp: terminalDeadlineAt_def bind_res_Inr_iff split: option.splits)

lemma deadlines_set:
  assumes "terminalDeadlineAt (workload_of s) (ls_terminalAt s) = Inr d"
  shows "snd ` set (lifecycle_deadlines s d) = deadline_times s"
  by (auto simp: lifecycle_deadlines_def deadline_times_def terminal_deadline_parse [OF assms] split: option.splits)

lemma deadlines_sorted: "sorted_wrt (\<lambda>l r. snd l \<le> snd r) (lifecycle_deadlines s d)"
  unfolding lifecycle_deadlines_def by (rule sorted_js_sort [where S = UNIV]) auto

lemma decide_delete:
  assumes "decideSandboxLifecycle s nowMs active bg = Inr d"
  shows "ld_delete d \<longleftrightarrow> \<not> active \<and> \<not> isActiveInvocationLeaseProtected s nowMs \<and> \<not> bg \<and> (\<exists>t \<in> deadline_times s. t \<le> nowMs)"
proof (cases "active \<or> isActiveInvocationLeaseProtected s nowMs \<or> bg")
  case True
  then show ?thesis using assms by (auto simp: decideSandboxLifecycle_def Let_def retain_def split: if_splits)
next
  case False
  then obtain td where td: "terminalDeadlineAt (workload_of s) (ls_terminalAt s) = Inr td"
    using assms by (auto simp: decideSandboxLifecycle_def Let_def bind_res_Inr_iff)
  show ?thesis
  proof (cases "lifecycle_deadlines s td")
    case Nil
    then have "deadline_times s = {}" using deadlines_set [OF td] by simp
    then show ?thesis using assms False td Nil by (auto simp: decideSandboxLifecycle_def Let_def retain_def)
  next
    case (Cons p ps)
    obtain src at where p: "p = (src, at)" by fastforce
    have "ld_delete d \<longleftrightarrow> at \<le> nowMs"
      using assms False td Cons p by (auto simp: decideSandboxLifecycle_def Let_def bind_res_Inr_iff)
    moreover have "at \<in> deadline_times s" "\<forall>t \<in> deadline_times s. at \<le> t"
      using deadlines_set [OF td] deadlines_sorted [of s td] Cons p by auto
    ultimately show ?thesis using False by force
  qed
qed

lemma decide_deadline:
  assumes "decideSandboxLifecycle s nowMs False False = Inr d" "\<not> isActiveInvocationLeaseProtected s nowMs" "deadline_times s \<noteq> {}"
  shows "ld_deadlineAt d = Some (Iso (Min (deadline_times s)))"
proof -
  obtain td where td: "terminalDeadlineAt (workload_of s) (ls_terminalAt s) = Inr td"
    using assms by (auto simp: decideSandboxLifecycle_def Let_def bind_res_Inr_iff)
  have set: "snd ` set (lifecycle_deadlines s td) = deadline_times s" by (rule deadlines_set [OF td])
  with assms(3) obtain src at ps where Cons: "lifecycle_deadlines s td = (src, at) # ps"
    by (cases "lifecycle_deadlines s td") auto
  have "finite (deadline_times s)" unfolding set [symmetric] by simp
  moreover have "at \<in> deadline_times s" "\<forall>t \<in> deadline_times s. at \<le> t"
    using set deadlines_sorted [of s td] Cons by auto
  ultimately have "Min (deadline_times s) = at" by (meson Min_eqI)
  then show ?thesis using assms td Cons by (auto simp: decideSandboxLifecycle_def Let_def bind_res_Inr_iff)
qed

lemma activity_covers:
  assumes "parseDateMs (ls_terminalAt s) = Some t"
  obtains a where "lifecycle_activity s = Some a" "t \<le> a"
  using assms by (cases "parseDateMs (ms_createdAt s)"; cases "parseDateMs (ms_lastActiveAt s)")
    (auto simp: lifecycle_activity_def Let_def map_filter_def)

lemma retention_order: "terminalRetentionMs c \<le> nonTerminalRetentionMs c" "nonTerminalRetentionMs c \<le> MAX_INACTIVE_RETENTION_MS"
  by (cases c; simp add: nonTerminalRetentionMs_def FIVE_MINUTES_MS_def FIFTEEN_MINUTES_MS_def MAX_INACTIVE_RETENTION_MS_def)+

section \<open>Claims\<close>

text \<open>C26. The decision about a sandbox is to delete it exactly when it is neither active nor leased nor protected and one
  of its deadlines has passed: the inactive deadline counted from the latest activity, the terminal deadline, or
  the explicit one. The reported deadline is the earliest of them.\<close>

theorem lifecycle_exact:
  assumes "decideSandboxLifecycle s nowMs active backgroundProtected = Inr d"
  shows "(ld_delete d \<longleftrightarrow> \<not> active \<and> \<not> backgroundProtected \<and> \<not> isActiveInvocationLeaseProtected s nowMs \<and>
            (\<exists>t \<in> deadline_times s. t \<le> nowMs)) \<and>
         (\<not> active \<longrightarrow> \<not> backgroundProtected \<longrightarrow> \<not> isActiveInvocationLeaseProtected s nowMs \<longrightarrow> deadline_times s \<noteq> {} \<longrightarrow>
            ld_deadlineAt d = Some (Iso (Min (deadline_times s))))"
proof (cases "active \<or> backgroundProtected")
  case False
  then have "decideSandboxLifecycle s nowMs False False = Inr d" using assms by simp
  from decide_deadline [OF this] decide_delete [OF assms] False show ?thesis by blast
qed (use decide_delete [OF assms] in blast)

definition demo_lifecycle :: lifecycle_state where
  "demo_lifecycle =
     \<lparr>ls_workloadClass = Some WlCron, ls_workloadDescriptor = None, ls_terminalState = None, ls_terminalAt = Some (Iso 1000),
      ls_terminalOutcome = None, ls_retentionDeadline = Some (Iso 9000000), ls_deletionGeneration = None,
      ls_leaseUntil = None, ls_leases = None, ls_leaseRecoveryPending = False\<rparr>"

definition demo_sandbox :: managed_sandbox where
  "demo_sandbox =
     lifecycle_state.extend demo_lifecycle
       (managed_sandbox.fields ''sb'' None None None None None (Some ''Paused'') None False None None
         (Some (Iso 500)) (Some (Iso 800)) None None None None None None None)"

lemma demo_sandbox_sel [simp]:
  "ls_terminalAt demo_sandbox = Some (Iso 1000)" "ls_retentionDeadline demo_sandbox = Some (Iso 9000000)"
  "ls_leaseRecoveryPending demo_sandbox = False" "ls_leaseUntil demo_sandbox = None" "workload_of demo_sandbox = WlCron"
  "lifecycle_activity demo_sandbox = Some 1000" "ms_name demo_sandbox = ''sb''" "ms_phase demo_sandbox = Some ''Paused''"
  "ms_backgroundShellProtectedUntil demo_sandbox = None"
  "ms_cpuRequest demo_sandbox = None" "ms_cpuLimit demo_sandbox = None" "ms_memoryRequest demo_sandbox = None" "ms_memoryLimit demo_sandbox = None"
  by (simp_all add: demo_sandbox_def demo_lifecycle_def lifecycle_state.defs managed_sandbox.defs workload_of_def
      lifecycle_activity_def map_filter_def)

lemma demo_deadlines: "deadline_times demo_sandbox = {901000, 301000, 9000000}"
  by (auto simp: deadline_times_def nonTerminalRetentionMs_def FIFTEEN_MINUTES_MS_def FIVE_MINUTES_MS_def)

lemma demo_free [simp]: "\<not> isActiveInvocationLeaseProtected demo_sandbox t" "\<not> isBackgroundShellProtected demo_sandbox t"
  by (simp_all add: isActiveInvocationLeaseProtected_def isBackgroundShellProtected_def)

lemma demo_decision: "\<exists>d. decideSandboxLifecycle demo_sandbox now False False = Inr d"
  by (auto simp: decideSandboxLifecycle_def Let_def terminalDeadlineAt_def toISOString_def MAX_DATE_MS_def FIVE_MINUTES_MS_def
      lifecycle_deadlines_def js_sort_def nonTerminalRetentionMs_def FIFTEEN_MINUTES_MS_def)

lemma lifecycle_exact_witness:
  "\<exists>d. decideSandboxLifecycle demo_sandbox 400000 False False = Inr d \<and> ld_delete d \<and> ld_deadlineAt d = Some (Iso 301000)"
proof -
  obtain d where d: "decideSandboxLifecycle demo_sandbox 400000 False False = Inr d" using demo_decision by blast
  then show ?thesis using lifecycle_exact [OF d] demo_deadlines by auto
qed

text \<open>Any residue of an invocation lease, well formed or not and however old, keeps the sandbox: a resource with an
  annotation under the lease prefix is decided, and never to be deleted.\<close>

theorem lease_residue_retained:
  assumes "k \<in> fst ` set (child (child item ''metadata'') ''annotations'')" "take (length lease_prefix) k = lease_prefix"
  shows "\<exists>d. decideSandboxLifecycle (managedSandboxFromResource env name item) nowMs active bg = Inr d \<and>
             ld_decision d = RetainActive \<and> \<not> ld_delete d"
  using pending_protected [of "managedSandboxFromResource env name item" nowMs] lease_annotation_snapshot [OF assms]
  by (simp add: resource_pending decideSandboxLifecycle_def Let_def retain_def)

definition demo_js_env :: js_env where
  "demo_js_env = \<lparr>se_date = (\<lambda>_. None), se_json = (\<lambda>_. None), se_String = (\<lambda>_. []), se_sha256 = (\<lambda>_. ''00'')\<rparr>"

lemma lease_residue_retained_witness:
  "\<exists>d. decideSandboxLifecycle (managedSandboxFromResource demo_js_env ''main''
          [(''metadata'', JObj [(''annotations'', JObj [(activeInvocationLeaseAnnotationKey demo_js_env ''call'', JNull)])])])
          99 False False = Inr d \<and> ld_decision d = RetainActive \<and> \<not> ld_delete d"
  by (rule lease_residue_retained [where k = "activeInvocationLeaseAnnotationKey demo_js_env ''call''"])
    (simp_all add: child_def js_prop_def activeInvocationLeaseAnnotationKey_def)

text \<open>The retention of an inactive sandbox is bounded from both sides. Thirty minutes after the latest activity it is
  deleted whatever explicit deadline was asked for; and without an explicit deadline a sandbox that reached a
  terminal state is not deleted before the terminal retention of its class has passed.\<close>

theorem retention_bounds:
  assumes "decideSandboxLifecycle s nowMs False False = Inr d" "\<not> isActiveInvocationLeaseProtected s nowMs"
  shows "(\<forall>t. lifecycle_activity s = Some t \<and> t + MAX_INACTIVE_RETENTION_MS \<le> nowMs \<longrightarrow> ld_delete d) \<and>
         (\<forall>t. parseDateMs (ls_terminalAt s) = Some t \<and> parseDateMs (ls_retentionDeadline s) = None \<and> ld_delete d \<longrightarrow>
              t + terminalRetentionMs (workload_of s) \<le> nowMs)"
proof -
  have del: "ld_delete d \<longleftrightarrow> (\<exists>t \<in> deadline_times s. t \<le> nowMs)" using decide_delete [OF assms(1)] assms(2) by simp
  have "ld_delete d" if "lifecycle_activity s = Some t" "t + MAX_INACTIVE_RETENTION_MS \<le> nowMs" for t
  proof -
    have "t + nonTerminalRetentionMs (workload_of s) \<in> deadline_times s" using that by (auto simp: deadline_times_def)
    then show ?thesis using del that(2) retention_order(2) [of "workload_of s"] by force
  qed
  moreover have "t + terminalRetentionMs (workload_of s) \<le> nowMs"
    if t: "parseDateMs (ls_terminalAt s) = Some t" and none: "parseDateMs (ls_retentionDeadline s) = None" and dd: "ld_delete d" for t
  proof -
    obtain a where a: "lifecycle_activity s = Some a" "t \<le> a" using activity_covers [OF t] .
    obtain u where "u \<in> deadline_times s" "u \<le> nowMs" using del dd by blast
    then show ?thesis using a t none retention_order(1) [of "workload_of s"] by (auto simp: deadline_times_def)
  qed
  ultimately show ?thesis by blast
qed

lemma retention_bounds_witness:
  "\<exists>d. decideSandboxLifecycle demo_sandbox 1801000 False False = Inr d \<and> ld_delete d"
proof -
  obtain d where d: "decideSandboxLifecycle demo_sandbox 1801000 False False = Inr d" using demo_decision by blast
  then show ?thesis using retention_bounds [OF d] by (simp add: MAX_INACTIVE_RETENTION_MS_def)
qed

text \<open>A terminal time at the end of the range of dates makes the decision throw.\<close>

lemma decision_range_error:
  "decideSandboxLifecycle (demo_sandbox\<lparr>ls_terminalAt := Some (Iso MAX_DATE_MS)\<rparr>) now False False = Inl RangeError"
proof -
  have "\<not> isActiveInvocationLeaseProtected (demo_sandbox\<lparr>ls_terminalAt := Some (Iso MAX_DATE_MS)\<rparr>) now"
    using demo_free by (simp add: isActiveInvocationLeaseProtected_def)
  moreover have "workload_of (demo_sandbox\<lparr>ls_terminalAt := Some (Iso MAX_DATE_MS)\<rparr>) = WlCron"
    using demo_sandbox_sel(5) by (simp add: workload_of_def)
  ultimately show ?thesis
    by (simp add: decideSandboxLifecycle_def Let_def terminalDeadlineAt_def toISOString_def MAX_DATE_MS_def FIVE_MINUTES_MS_def)
qed

end
