(* ===== verification/Acs_Cleanup.thy ===== *)
theory Acs_Cleanup
  imports Acs_Sandbox
begin

text \<open>
  Destructive changes of sandboxes: the gate that every deletion and pause passes (\<^verbatim>\<open>sandboxMutationGate.ts\<close>), the
  fenced deletion that reclaims network resources (\<^verbatim>\<open>sandboxDeletion.ts\<close>), the wrappers for idle sandboxes
  (\<^verbatim>\<open>sandboxSafeDeletion.ts\<close>, \<^verbatim>\<open>sandboxSafePause.ts\<close>) and the periodic cleanup (\<^verbatim>\<open>sandboxCleanup.ts\<close>).

  What the cluster answers is a record of observations, one field per request in the order of the code; the
  functions return the list of changes that they ask for, with the preconditions they send, and their result. Other
  processes may change the resource between any two observations.
\<close>

section \<open>The gate\<close>

record preconditions =
  pc_uid :: string
  pc_resourceVersion :: string
  pc_networkCleanupFinalizer :: bool

definition sandboxResourcePreconditions :: "sandbox_status \<Rightarrow> preconditions option" where
  "sandboxResourcePreconditions status =
     (let metadata = child (record_fields (ss_raw status)) ''metadata'' in
      case (stringValue (js_prop metadata ''uid''), stringValue (js_prop metadata ''resourceVersion'')) of
        (Some uid, Some rv) \<Rightarrow>
          Some \<lparr>pc_uid = uid, pc_resourceVersion = rv,
                pc_networkCleanupFinalizer = (JStr NETWORK_CLEANUP_FINALIZER \<in> set (array_items (js_prop metadata ''finalizers'')))\<rparr>
      | _ \<Rightarrow> None)"

definition samePreconditions :: "preconditions \<Rightarrow> preconditions \<Rightarrow> bool" where
  "samePreconditions a e = (pc_uid a = pc_uid e \<and> pc_resourceVersion a = pc_resourceVersion e)"

datatype gate_error = GateBlocked | GateFailed

text \<open>What the gate observes: activity in this process before and after the read, the status read and the clock.\<close>

record gate_obs =
  go_busyBefore :: bool
  go_status :: "unit + sandbox_status option"
  go_now :: int
  go_busyAfter :: bool

definition phase_json :: "string option \<Rightarrow> json" where
  "phase_json p = (case p of None \<Rightarrow> JUndefined | Some s \<Rightarrow> JStr s)"

text \<open>The resource with the requested name and the phase of the status put in.\<close>

definition gate_resource :: "string \<Rightarrow> sandbox_status \<Rightarrow> (string \<times> json) list" where
  "gate_resource name status =
     (let raw = record_fields (ss_raw status) in
      raw @ [(''metadata'', JObj (child raw ''metadata'' @ [(''name'', JStr name)])),
             (''status'', JObj (child raw ''status'' @ [(''phase'', phase_json (ss_phase status))]))])"

definition readSandboxMutationGate ::
  "js_env \<Rightarrow> string \<Rightarrow> string \<Rightarrow> preconditions option \<Rightarrow> (managed_sandbox \<Rightarrow> range_error + bool) \<Rightarrow> gate_obs \<Rightarrow>
   gate_error + (managed_sandbox \<times> preconditions) option" where
  "readSandboxMutationGate env container name expected canMutate g =
     (if go_busyBefore g then Inl GateBlocked
      else (case go_status g of
              Inl _ \<Rightarrow> Inl GateFailed
            | Inr None \<Rightarrow> Inr None
            | Inr (Some status) \<Rightarrow>
                let sandbox = managedSandboxFromResource env container (gate_resource name status) in
                (case sandboxResourcePreconditions status of
                   None \<Rightarrow> Inl GateBlocked
                 | Some pre \<Rightarrow>
                     if (case expected of None \<Rightarrow> False | Some e \<Rightarrow> \<not> samePreconditions pre e) then Inl GateBlocked
                     else if isActiveInvocationLeaseProtected sandbox (go_now g) then Inl GateBlocked
                     else if isBackgroundShellProtected sandbox (go_now g) then Inl GateBlocked
                     else if go_busyAfter g then Inl GateBlocked
                     else (case canMutate sandbox of
                             Inl _ \<Rightarrow> Inl GateFailed
                           | Inr ok \<Rightarrow> if ok then Inr (Some (sandbox, pre)) else Inl GateBlocked))))"

section \<open>Fenced deletion\<close>

datatype deletion_error = PreconditionError | DeletionFailed

datatype read_answer = ReadAbsent | ReadError | ReadValue "(string \<times> json) list"

datatype patch_answer = PatchRefused | PatchGarbled | PatchValue "(string \<times> json) list"

datatype name_answer = NameError | NameGone | NamePresent

record deletion_obs =
  do_first :: read_answer
  do_patch :: patch_answer
  do_deleted :: bool
  do_second :: read_answer
  do_secondNow :: int
  do_policy :: bool
  do_snat :: "string list option"
  do_third :: read_answer
  do_thirdNow :: int
  do_removed :: bool
  do_waitStart :: int
  do_absent :: "(name_answer \<times> int) list"

text \<open>The requests that change something, with the preconditions sent along.\<close>

datatype deletion_event =
    AddFinalizer string string bool
  | DeleteResource string string
  | ReclaimPolicy
  | ReclaimSnat
  | RemoveFinalizer string string nat

definition metadata_of :: "(string \<times> json) list \<Rightarrow> (string \<times> json) list" where
  "metadata_of current = child current ''metadata''"

definition string_items :: "json \<Rightarrow> string list" where
  "string_items v = List.map_filter any_string (array_items v)"

definition assertExpectedUid :: "(string \<times> json) list \<Rightarrow> string \<Rightarrow> deletion_error + unit" where
  "assertExpectedUid current uid = check (stringValue (js_prop (metadata_of current) ''uid'') = Some uid) PreconditionError"

definition assertExpectedPreconditions :: "(string \<times> json) list \<Rightarrow> preconditions \<Rightarrow> deletion_error + unit" where
  "assertExpectedPreconditions current expected =
     bind_res (assertExpectedUid current (pc_uid expected)) (\<lambda>_.
     check (stringValue (js_prop (metadata_of current) ''resourceVersion'') = Some (pc_resourceVersion expected)) PreconditionError)"

text \<open>The two readings of the clock are one here.\<close>

definition assertNoLifecycleProtection :: "js_env \<Rightarrow> (string \<times> json) list \<Rightarrow> int \<Rightarrow> deletion_error + unit" where
  "assertNoLifecycleProtection env current now =
     (if isActiveInvocationLeaseProtected (lifecycleStateFromMetadata env [] (child (metadata_of current) ''annotations'')) now
      then Inl PreconditionError
      else if backgroundShellProtectionFromStatus env \<lparr>ss_phase = None, ss_raw = JObj current\<rparr> now \<noteq> None
      then Inl PreconditionError
      else Inr ())"

definition ensureNetworkCleanupFinalizer ::
  "(string \<times> json) list \<Rightarrow> patch_answer \<Rightarrow> deletion_event list \<times> (deletion_error + preconditions)" where
  "ensureNetworkCleanupFinalizer current patch =
     (let metadata = metadata_of current in
      case (stringValue (js_prop metadata ''uid''), stringValue (js_prop metadata ''resourceVersion'')) of
        (Some uid, Some rv) \<Rightarrow>
          if NETWORK_CLEANUP_FINALIZER \<in> set (string_items (js_prop metadata ''finalizers''))
          then ([], Inr \<lparr>pc_uid = uid, pc_resourceVersion = rv, pc_networkCleanupFinalizer = False\<rparr>)
          else if stringValue (js_prop metadata ''deletionTimestamp'') \<noteq> None then ([], Inl PreconditionError)
          else ([AddFinalizer uid rv (case js_prop metadata ''finalizers'' of JArr _ \<Rightarrow> True | _ \<Rightarrow> False)],
                (case patch of
                   PatchRefused \<Rightarrow> Inl PreconditionError
                 | PatchGarbled \<Rightarrow> Inl DeletionFailed
                 | PatchValue patched \<Rightarrow>
                     (case stringValue (js_prop (metadata_of patched) ''resourceVersion'') of
                        None \<Rightarrow> Inl PreconditionError
                      | Some rv' \<Rightarrow>
                          if stringValue (js_prop (metadata_of patched) ''uid'') \<noteq> Some uid then Inl PreconditionError
                          else Inr \<lparr>pc_uid = uid, pc_resourceVersion = rv', pc_networkCleanupFinalizer = False\<rparr>)))
      | _ \<Rightarrow> ([], Inl PreconditionError))"

definition fence :: "preconditions \<Rightarrow> deletion_obs \<Rightarrow> deletion_event list \<times> (deletion_error + preconditions option)" where
  "fence pre d =
     (if pc_networkCleanupFinalizer pre then ([], Inr (Some pre))
      else (case do_first d of
              ReadError \<Rightarrow> ([], Inl DeletionFailed)
            | ReadAbsent \<Rightarrow> ([], Inr None)
            | ReadValue current \<Rightarrow>
                (case assertExpectedPreconditions current pre of
                   Inl e \<Rightarrow> ([], Inl e)
                 | Inr _ \<Rightarrow>
                     (case ensureNetworkCleanupFinalizer current (do_patch d) of
                        (evs, Inl e) \<Rightarrow> (evs, Inl e)
                      | (evs, Inr fenced) \<Rightarrow> (evs, Inr (Some fenced))))))"

fun index_of :: "'a \<Rightarrow> 'a list \<Rightarrow> nat option" where
  "index_of x [] = None"
| "index_of x (y # ys) = (if x = y then Some 0 else map_option Suc (index_of x ys))"

definition removeNetworkCleanupFinalizer ::
  "js_env \<Rightarrow> string \<Rightarrow> deletion_obs \<Rightarrow> deletion_event list \<times> (deletion_error + unit)" where
  "removeNetworkCleanupFinalizer env uid d =
     (case do_third d of
        ReadError \<Rightarrow> ([], Inl DeletionFailed)
      | ReadAbsent \<Rightarrow> ([], Inr ())
      | ReadValue current \<Rightarrow>
          (case bind_res (assertExpectedUid current uid) (\<lambda>_. assertNoLifecycleProtection env current (do_thirdNow d)) of
             Inl e \<Rightarrow> ([], Inl e)
           | Inr _ \<Rightarrow>
               (case stringValue (js_prop (metadata_of current) ''resourceVersion'') of
                  None \<Rightarrow> ([], Inl PreconditionError)
                | Some rv \<Rightarrow>
                    (case index_of NETWORK_CLEANUP_FINALIZER (string_items (js_prop (metadata_of current) ''finalizers'')) of
                       None \<Rightarrow> ([], Inr ())
                     | Some i \<Rightarrow> ([RemoveFinalizer uid rv i], check (do_removed d) PreconditionError)))))"

text \<open>The loop that waits until the resource is gone; \<open>None\<close> while it is still waiting after the given answers.\<close>

fun waitForSandboxAbsent :: "int \<Rightarrow> (name_answer \<times> int) list \<Rightarrow> (deletion_error + unit) option" where
  "waitForSandboxAbsent deadline [] = None"
| "waitForSandboxAbsent deadline ((a, now) # rest) =
     (case a of
        NameError \<Rightarrow> Some (Inl DeletionFailed)
      | NameGone \<Rightarrow> Some (Inr ())
      | NamePresent \<Rightarrow> if now \<ge> deadline then Some (Inl DeletionFailed) else waitForSandboxAbsent deadline rest)"

definition finish_reclaim ::
  "js_env \<Rightarrow> int \<Rightarrow> string \<Rightarrow> string list \<Rightarrow> deletion_obs \<Rightarrow> deletion_event list \<times> (deletion_error + string list) option" where
  "finish_reclaim env timeoutMs uid snatDeleted d =
     (case removeNetworkCleanupFinalizer env uid d of
        (evs, Inl e) \<Rightarrow> (evs, Some (Inl e))
      | (evs, Inr _) \<Rightarrow>
          (evs, map_option (\<lambda>r. bind_res r (\<lambda>_. Inr snatDeleted)) (waitForSandboxAbsent (do_waitStart d + timeoutMs) (do_absent d))))"

definition reclaim ::
  "js_env \<Rightarrow> int \<Rightarrow> string \<Rightarrow> deletion_obs \<Rightarrow> deletion_event list \<times> (deletion_error + string list) option" where
  "reclaim env timeoutMs uid d =
     (case do_second d of
        ReadError \<Rightarrow> ([], Some (Inl DeletionFailed))
      | ReadAbsent \<Rightarrow> ([], Some (Inr []))
      | ReadValue deleting \<Rightarrow>
          (case bind_res (assertExpectedUid deleting uid) (\<lambda>_. assertNoLifecycleProtection env deleting (do_secondNow d)) of
             Inl e \<Rightarrow> ([], Some (Inl e))
           | Inr _ \<Rightarrow>
               if \<not> do_policy d then ([ReclaimPolicy], Some (Inl DeletionFailed))
               else (case do_snat d of
                       None \<Rightarrow> ([ReclaimPolicy, ReclaimSnat], Some (Inl DeletionFailed))
                     | Some snatDeleted \<Rightarrow>
                         (case finish_reclaim env timeoutMs uid snatDeleted d of
                            (evs, r) \<Rightarrow> (ReclaimPolicy # ReclaimSnat # evs, r)))))"

definition deleteSandboxAndReclaimNetwork ::
  "js_env \<Rightarrow> int \<Rightarrow> preconditions option \<Rightarrow> deletion_obs \<Rightarrow> deletion_event list \<times> (deletion_error + string list) option" where
  "deleteSandboxAndReclaimNetwork env timeoutMs given d =
     (case given of
        None \<Rightarrow> ([], Some (Inl PreconditionError))
      | Some pre \<Rightarrow>
          (case fence pre d of
             (evs, Inl e) \<Rightarrow> (evs, Some (Inl e))
           | (evs, Inr None) \<Rightarrow> (evs, Some (Inr []))
           | (evs, Inr (Some fenced)) \<Rightarrow>
               let del = DeleteResource (pc_uid fenced) (pc_resourceVersion fenced) in
               if \<not> do_deleted d then (evs @ [del], Some (Inl PreconditionError))
               else (case reclaim env timeoutMs (pc_uid fenced) d of (evs', r) \<Rightarrow> (evs @ del # evs', r))))"

section \<open>Idle sandboxes\<close>

datatype manage_error = BusyError | NotFoundError | OwnershipError | MutationConflict | DeletionConflict | ManageFailed

definition always :: "managed_sandbox \<Rightarrow> range_error + bool" where
  "always s = Inr True"

text \<open>\<open>readDestructiveMutationGate\<close> of the manager: ownership first, then the gate; a blocked gate is reported as busy.\<close>

definition readDestructiveMutationGate ::
  "js_env \<Rightarrow> string \<Rightarrow> string \<Rightarrow> preconditions option \<Rightarrow> bool \<Rightarrow> gate_obs \<Rightarrow> manage_error + preconditions option" where
  "readDestructiveMutationGate env container name expected ownershipOk g =
     (if \<not> ownershipOk then Inl OwnershipError
      else (case readSandboxMutationGate env container name expected always g of
              Inl GateBlocked \<Rightarrow> Inl BusyError
            | Inl GateFailed \<Rightarrow> Inl ManageFailed
            | Inr None \<Rightarrow> Inr None
            | Inr (Some (_, pre)) \<Rightarrow> Inr (Some pre)))"

fun manage_error_of :: "deletion_error \<Rightarrow> manage_error" where
  "manage_error_of PreconditionError = DeletionConflict"
| "manage_error_of DeletionFailed = ManageFailed"

definition lift_deletion :: "deletion_error + 'a \<Rightarrow> manage_error + 'a" where
  "lift_deletion r = (case r of Inl e \<Rightarrow> Inl (manage_error_of e) | Inr x \<Rightarrow> Inr x)"

record idle_obs =
  io_gate :: gate_obs
  io_ownership :: bool
  io_second :: gate_obs
  io_deletion :: deletion_obs

definition manager_delete ::
  "js_env \<Rightarrow> string \<Rightarrow> int \<Rightarrow> string \<Rightarrow> preconditions option \<Rightarrow> idle_obs \<Rightarrow>
   deletion_event list \<times> (manage_error + string list) option" where
  "manager_delete env container timeoutMs name expected io =
     (case readDestructiveMutationGate env container name expected (io_ownership io) (io_second io) of
        Inl e \<Rightarrow> ([], Some (Inl e))
      | Inr None \<Rightarrow> ([], Some (Inr []))
      | Inr (Some pre) \<Rightarrow>
          (case deleteSandboxAndReclaimNetwork env timeoutMs (Some pre) (io_deletion io) of
             (evs, r) \<Rightarrow> (evs, map_option lift_deletion r)))"

text \<open>The result \<open>Inr None\<close> is the code's \<open>null\<close>: the sandbox was left alone.\<close>

definition deleteSandboxWhenIdle ::
  "js_env \<Rightarrow> string \<Rightarrow> int \<Rightarrow> string \<Rightarrow> (managed_sandbox \<Rightarrow> range_error + bool) \<Rightarrow> idle_obs \<Rightarrow>
   deletion_event list \<times> (manage_error + string list option) option" where
  "deleteSandboxWhenIdle env container timeoutMs name canDelete io =
     (case readSandboxMutationGate env container name None canDelete (io_gate io) of
        Inl GateBlocked \<Rightarrow> ([], Some (Inr None))
      | Inl GateFailed \<Rightarrow> ([], Some (Inl ManageFailed))
      | Inr None \<Rightarrow> ([], Some (Inr (Some [])))
      | Inr (Some (_, pre)) \<Rightarrow>
          (case manager_delete env container timeoutMs name (Some pre) io of
             (evs, r) \<Rightarrow>
               (evs, map_option (\<lambda>x. case x of Inl DeletionConflict \<Rightarrow> Inr None | Inl e \<Rightarrow> Inl e | Inr snat \<Rightarrow> Inr (Some snat)) r)))"

datatype pause_answer = PauseDone | PauseConflict | PauseRefused

record pause_obs =
  po_gate :: gate_obs
  po_ownership :: bool
  po_second :: gate_obs
  po_patch :: pause_answer

datatype pause_event = PauseResource string string

text \<open>\<open>patchPaused\<close> with preconditions: a second gate, then the patch.\<close>

definition patchPaused ::
  "js_env \<Rightarrow> string \<Rightarrow> string \<Rightarrow> preconditions \<Rightarrow> pause_obs \<Rightarrow> pause_event list \<times> (manage_error + unit)" where
  "patchPaused env container name pre po =
     (case readDestructiveMutationGate env container name (Some pre) (po_ownership po) (po_second po) of
        Inl e \<Rightarrow> ([], Inl e)
      | Inr None \<Rightarrow> ([], Inl NotFoundError)
      | Inr (Some gate) \<Rightarrow>
          ([PauseResource (pc_uid gate) (pc_resourceVersion gate)],
           (case po_patch po of PauseDone \<Rightarrow> Inr () | PauseConflict \<Rightarrow> Inl MutationConflict | PauseRefused \<Rightarrow> Inl ManageFailed)))"

fun pause_attempts ::
  "js_env \<Rightarrow> string \<Rightarrow> string \<Rightarrow> (managed_sandbox \<Rightarrow> range_error + bool) \<Rightarrow> pause_obs list \<Rightarrow> pause_event list \<times> (manage_error + bool)" where
  "pause_attempts env container name canPause [] = ([], Inr False)"
| "pause_attempts env container name canPause (po # rest) =
     (case readSandboxMutationGate env container name None canPause (po_gate po) of
        Inl GateBlocked \<Rightarrow> ([], Inr False)
      | Inl GateFailed \<Rightarrow> ([], Inl ManageFailed)
      | Inr None \<Rightarrow> ([], Inr False)
      | Inr (Some (_, pre)) \<Rightarrow>
          (case patchPaused env container name pre po of
             (evs, Inr _) \<Rightarrow> (evs, Inr True)
           | (evs, Inl MutationConflict) \<Rightarrow>
               (case pause_attempts env container name canPause rest of (evs', r) \<Rightarrow> (evs @ evs', r))
           | (evs, Inl e) \<Rightarrow> (evs, Inl e)))"

definition pauseSandboxWhenIdle ::
  "js_env \<Rightarrow> string \<Rightarrow> string \<Rightarrow> (managed_sandbox \<Rightarrow> range_error + bool) \<Rightarrow> pause_obs \<times> pause_obs \<Rightarrow> pause_event list \<times> (manage_error + bool)" where
  "pauseSandboxWhenIdle env container name canPause pos = pause_attempts env container name canPause [fst pos, snd pos]"

section \<open>Cleanup\<close>

record cleanup_host =
  ch_enforce :: bool
  ch_brokenRecycleGraceMs :: int
  ch_orphanGraceMs :: int
  ch_ttlMs :: int
  ch_idlePauseMs :: int

datatype deletion_reason = ReasonBroken | ReasonExpired

definition last_active :: "managed_sandbox \<Rightarrow> int option" where
  "last_active s = nullish (parseDateMs (ms_lastActiveAt s)) (parseDateMs (ms_createdAt s))"

definition or_zero :: "int option \<Rightarrow> int" where
  "or_zero v = (case v of None \<Rightarrow> 0 | Some t \<Rightarrow> t)"

definition broken_expired :: "cleanup_host \<Rightarrow> managed_sandbox \<Rightarrow> int \<Rightarrow> bool" where
  "broken_expired host s nowMs =
     (truthy (ms_brokenReason s) \<and> ch_brokenRecycleGraceMs host > 0 \<and>
      (let brokenSinceMs = max (max (or_zero (parseDateMs (ms_pausedConditionChangedAt s))) (or_zero (last_active s)))
                               (or_zero (parseDateMs (ms_createdAt s))) in
       brokenSinceMs > 0 \<and> nowMs - brokenSinceMs \<ge> ch_brokenRecycleGraceMs host))"

definition cleanupDeletionReason :: "cleanup_host \<Rightarrow> managed_sandbox \<Rightarrow> int \<Rightarrow> range_error + deletion_reason option" where
  "cleanupDeletionReason host s nowMs =
     (if broken_expired host s nowMs then Inr (Some ReasonBroken)
      else bind_res (decideSandboxLifecycle s nowMs False False) (\<lambda>lifecycle.
        let createdAtMs = parseDateMs (ms_createdAt s);
            orphanGraceMs = (if ld_workloadClass lifecycle = WlProbe then 5 * 60000 else ch_orphanGraceMs host);
            orphanExpired = (orphanGraceMs > 0 \<and> ms_phase s \<notin> {Some ''Running'', Some ''Paused''} \<and>
              (case createdAtMs of None \<Rightarrow> False | Some t \<Rightarrow> nowMs - t \<ge> orphanGraceMs));
            legacyExpired = (ch_ttlMs host > 0 \<and> (case last_active s of None \<Rightarrow> False | Some t \<Rightarrow> nowMs - t \<ge> ch_ttlMs host));
            policyExpired = (ch_enforce host \<and> ld_delete lifecycle) in
        Inr (if orphanExpired \<or> (if ch_enforce host then policyExpired else legacyExpired) then Some ReasonExpired else None)))"

definition can_delete_for :: "cleanup_host \<Rightarrow> int \<Rightarrow> deletion_reason \<Rightarrow> managed_sandbox \<Rightarrow> range_error + bool" where
  "can_delete_for host nowMs reason latest =
     bind_res (cleanupDeletionReason host latest nowMs) (\<lambda>r. Inr (r = Some reason))"

definition can_pause :: "cleanup_host \<Rightarrow> int \<Rightarrow> managed_sandbox \<Rightarrow> range_error + bool" where
  "can_pause host nowMs current =
     (if ms_phase current = Some ''Running'' \<and>
         (case last_active current of None \<Rightarrow> False | Some t \<Rightarrow> nowMs - t \<ge> ch_idlePauseMs host)
      then bind_res (cleanupDeletionReason host current nowMs) (\<lambda>r. Inr (r = None))
      else Inr False)"

record cleanup_report =
  cr_paused :: "string list"
  cr_deleted :: "string list"
  cr_brokenRecycled :: "string list"
  cr_skippedBusy :: "string list"
  cr_snatDeleted :: "string list"
  cr_candidateErrors :: nat
  cr_decisions :: "lifecycle_decision_name list"

definition empty_report :: cleanup_report where
  "empty_report =
     \<lparr>cr_paused = [], cr_deleted = [], cr_brokenRecycled = [], cr_skippedBusy = [], cr_snatDeleted = [],
      cr_candidateErrors = 0, cr_decisions = []\<rparr>"

datatype cleanup_event = Deleting deletion_event | Pausing pause_event

text \<open>What one candidate meets: whether this process uses it, and the answers to a deletion or to a pause.\<close>

record candidate_obs =
  co_busy :: bool
  co_idle :: idle_obs
  co_pause :: "pause_obs \<times> pause_obs"

definition after_delete :: "string \<Rightarrow> deletion_reason \<Rightarrow> manage_error + string list option \<Rightarrow> cleanup_report \<Rightarrow> cleanup_report" where
  "after_delete name reason r rep =
     (case r of
        Inl _ \<Rightarrow> rep\<lparr>cr_candidateErrors := cr_candidateErrors rep + 1\<rparr>
      | Inr None \<Rightarrow> rep\<lparr>cr_skippedBusy := cr_skippedBusy rep @ [name]\<rparr>
      | Inr (Some snat) \<Rightarrow>
          let rep' = rep\<lparr>cr_snatDeleted := cr_snatDeleted rep @ snat\<rparr> in
          (case reason of
             ReasonBroken \<Rightarrow> rep'\<lparr>cr_brokenRecycled := cr_brokenRecycled rep' @ [name]\<rparr>
           | ReasonExpired \<Rightarrow> rep'\<lparr>cr_deleted := cr_deleted rep' @ [name]\<rparr>))"

definition after_pause :: "string \<Rightarrow> manage_error + bool \<Rightarrow> cleanup_report \<Rightarrow> cleanup_report" where
  "after_pause name r rep =
     (case r of
        Inl _ \<Rightarrow> rep\<lparr>cr_candidateErrors := cr_candidateErrors rep + 1\<rparr>
      | Inr True \<Rightarrow> rep\<lparr>cr_paused := cr_paused rep @ [name]\<rparr>
      | Inr False \<Rightarrow> rep\<lparr>cr_skippedBusy := cr_skippedBusy rep @ [name]\<rparr>)"

text \<open>One round of the loop. \<open>None\<close>: the deletion still waits; \<open>Inl\<close>: the round throws and ends the cleanup.\<close>

definition cleanup_candidate ::
  "js_env \<Rightarrow> string \<Rightarrow> int \<Rightarrow> cleanup_host \<Rightarrow> int \<Rightarrow> candidate_obs \<Rightarrow> managed_sandbox \<Rightarrow> cleanup_report \<Rightarrow>
   cleanup_event list \<times> (range_error + cleanup_report) option" where
  "cleanup_candidate env container timeoutMs host nowMs co s rep =
     (let name = ms_name s; skip = rep\<lparr>cr_skippedBusy := cr_skippedBusy rep @ [name]\<rparr> in
      if co_busy co \<or> isActiveInvocationLeaseProtected s nowMs \<or> isBackgroundShellProtected s nowMs then ([], Some (Inr skip))
      else (case decideSandboxLifecycle s nowMs False False of
              Inl e \<Rightarrow> ([], Some (Inl e))
            | Inr lifecycle \<Rightarrow>
                let rep' = rep\<lparr>cr_decisions := cr_decisions rep @ [ld_decision lifecycle]\<rparr> in
                (case cleanupDeletionReason host s nowMs of
                   Inl e \<Rightarrow> ([], Some (Inl e))
                 | Inr (Some reason) \<Rightarrow>
                     (case deleteSandboxWhenIdle env container timeoutMs name (can_delete_for host nowMs reason) (co_idle co) of
                        (evs, r) \<Rightarrow> (map Deleting evs, map_option (\<lambda>x. Inr (after_delete name reason x rep')) r))
                 | Inr None \<Rightarrow>
                     if ms_phase s = Some ''Running'' \<and> ch_idlePauseMs host > 0 \<and>
                        (case last_active s of None \<Rightarrow> 0 | Some t \<Rightarrow> nowMs - t) \<ge> ch_idlePauseMs host
                     then (case pauseSandboxWhenIdle env container name (can_pause host nowMs) (co_pause co) of
                             (evs, r) \<Rightarrow> (map Pausing evs, Some (Inr (after_pause name r rep'))))
                     else ([], Some (Inr rep')))))"

fun cleanupManagedSandboxes ::
  "js_env \<Rightarrow> string \<Rightarrow> int \<Rightarrow> cleanup_host \<Rightarrow> int \<Rightarrow> (managed_sandbox \<times> candidate_obs) list \<Rightarrow> cleanup_report \<Rightarrow>
   (string \<times> cleanup_event) list \<times> (range_error + cleanup_report) option" where
  "cleanupManagedSandboxes env container timeoutMs host nowMs [] rep = ([], Some (Inr rep))"
| "cleanupManagedSandboxes env container timeoutMs host nowMs ((s, co) # rest) rep =
     (case cleanup_candidate env container timeoutMs host nowMs co s rep of
        (evs, r) \<Rightarrow>
          let named = map (Pair (ms_name s)) evs in
          (case r of
             None \<Rightarrow> (named, None)
           | Some (Inl e) \<Rightarrow> (named, Some (Inl e))
           | Some (Inr rep') \<Rightarrow>
               (case cleanupManagedSandboxes env container timeoutMs host nowMs rest rep' of
                  (evs', r') \<Rightarrow> (named @ evs', r'))))"

definition runningCount :: "managed_sandbox list \<Rightarrow> cleanup_report \<Rightarrow> nat" where
  "runningCount sandboxes rep =
     length (filter (\<lambda>s. ms_name s \<notin> set (cr_deleted rep @ cr_brokenRecycled rep) \<and> ms_name s \<notin> set (cr_paused rep) \<and>
       ms_phase s = Some ''Running'') sandboxes)"

section \<open>What the gate guarantees\<close>

definition lease_free :: "(string \<times> json) list \<Rightarrow> bool" where
  "lease_free resource \<longleftrightarrow>
     \<not> (\<exists>k \<in> fst ` set (child (child resource ''metadata'') ''annotations''). take (length lease_prefix) k = lease_prefix)"

lemma free_snapshots:
  "activeInvocationLeaseSnapshots env (child (child r ''metadata'') ''annotations'') = [] \<Longrightarrow> lease_free r"
  using lease_annotation_snapshot unfolding lease_free_def by blast

text \<open>The gate was open: nothing in this process used the sandbox, the resource that was read has no lease of any kind
  and no background protection, and its identity and version are the returned preconditions.\<close>

definition gate_open :: "js_env \<Rightarrow> string \<Rightarrow> string \<Rightarrow> gate_obs \<Rightarrow> preconditions \<Rightarrow> bool" where
  "gate_open env container name g pre \<longleftrightarrow>
     \<not> go_busyBefore g \<and> \<not> go_busyAfter g \<and>
     (\<exists>status. go_status g = Inr (Some status) \<and> sandboxResourcePreconditions status = Some pre \<and>
        lease_free (gate_resource name status) \<and>
        \<not> isBackgroundShellProtected (managedSandboxFromResource env container (gate_resource name status)) (go_now g))"

lemma gate_result:
  assumes "readSandboxMutationGate env container name expected canMutate g = Inr (Some (s, pre))"
  shows "gate_open env container name g pre" "canMutate s = Inr True"
    "\<And>e. expected = Some e \<Longrightarrow> samePreconditions pre e"
    "\<exists>status. go_status g = Inr (Some status) \<and> s = managedSandboxFromResource env container (gate_resource name status)"
proof -
  obtain status where st: "go_status g = Inr (Some status)" and
    s: "s = managedSandboxFromResource env container (gate_resource name status)" and
    free: "\<not> isActiveInvocationLeaseProtected s (go_now g)" "\<not> isBackgroundShellProtected s (go_now g)" and
    pre: "sandboxResourcePreconditions status = Some pre" and busy: "\<not> go_busyBefore g" "\<not> go_busyAfter g" and
    can: "canMutate s = Inr True" and exp: "\<And>e. expected = Some e \<Longrightarrow> samePreconditions pre e"
    using assms by (auto simp: readSandboxMutationGate_def Let_def split: if_splits sum.splits option.splits)
  have "lease_free (gate_resource name status)"
    using free(1) pending_protected resource_pending free_snapshots unfolding s by blast
  then show "gate_open env container name g pre" using st pre busy free(2) unfolding gate_open_def s by blast
  show "canMutate s = Inr True" "\<And>e. expected = Some e \<Longrightarrow> samePreconditions pre e" by (fact can, fact exp)
  show "\<exists>status. go_status g = Inr (Some status) \<and> s = managedSandboxFromResource env container (gate_resource name status)"
    using st s by blast
qed

lemma manager_gate:
  "readDestructiveMutationGate env container name expected ok g = Inr (Some pre) \<Longrightarrow>
   gate_open env container name g pre \<and> (\<forall>e. expected = Some e \<longrightarrow> samePreconditions pre e)"
  by (auto simp: readDestructiveMutationGate_def dest: gate_result split: if_splits sum.splits gate_error.splits option.splits)

lemma unprotected_free:
  assumes "assertNoLifecycleProtection env current now = Inr u"
  shows "lease_free current" "backgroundShellProtectionFromStatus env \<lparr>ss_phase = None, ss_raw = JObj current\<rparr> now = None"
proof -
  from assms have "\<not> isActiveInvocationLeaseProtected (lifecycleStateFromMetadata env [] (child (metadata_of current) ''annotations'')) now"
    by (auto simp: assertNoLifecycleProtection_def split: if_splits)
  then have "activeInvocationLeaseSnapshots env (child (child current ''metadata'') ''annotations'') = []"
    by (simp add: lifecycleStateFromMetadata_def Let_def metadata_of_def isActiveInvocationLeaseProtected_def split: if_splits)
  then show "lease_free current" by (rule free_snapshots)
  show "backgroundShellProtectionFromStatus env \<lparr>ss_phase = None, ss_raw = JObj current\<rparr> now = None"
    using assms by (auto simp: assertNoLifecycleProtection_def split: if_splits)
qed

fun adds_finalizer :: "deletion_event \<Rightarrow> bool" where
  "adds_finalizer (AddFinalizer _ _ _) = True"
| "adds_finalizer _ = False"

lemma ensure_finalizer:
  assumes "ensureNetworkCleanupFinalizer current patch = (evs, r)"
  shows "list_all adds_finalizer evs \<and> (\<forall>fenced. r = Inr fenced \<longrightarrow> stringValue (js_prop (metadata_of current) ''uid'') = Some (pc_uid fenced))"
proof (cases "stringValue (js_prop (metadata_of current) ''uid'')")
  case None
  then show ?thesis using assms by (auto simp: ensureNetworkCleanupFinalizer_def Let_def)
next
  case (Some uid)
  show ?thesis
  proof (cases "stringValue (js_prop (metadata_of current) ''resourceVersion'')")
    case None
    then show ?thesis using assms Some by (auto simp: ensureNetworkCleanupFinalizer_def Let_def)
  next
    case (Some rv)
    then show ?thesis
      using assms \<open>stringValue (js_prop (metadata_of current) ''uid'') = Some uid\<close>
      by (auto simp: ensureNetworkCleanupFinalizer_def Let_def split: if_splits patch_answer.splits option.splits)
  qed
qed

lemma fence_result:
  assumes "fence pre d = (evs, r)"
  shows "list_all adds_finalizer evs" "\<And>fenced. r = Inr (Some fenced) \<Longrightarrow> pc_uid fenced = pc_uid pre"
proof -
  have "list_all adds_finalizer evs \<and> (\<forall>fenced. r = Inr (Some fenced) \<longrightarrow> pc_uid fenced = pc_uid pre)"
  proof (cases "pc_networkCleanupFinalizer pre")
    case True
    then show ?thesis using assms by (auto simp: fence_def)
  next
    case False
    show ?thesis
    proof (cases "do_first d")
      case (ReadValue current)
      show ?thesis
      proof (cases "assertExpectedPreconditions current pre")
        case (Inr u)
        obtain evs' r' where e: "ensureNetworkCleanupFinalizer current (do_patch d) = (evs', r')" by fastforce
        have "stringValue (js_prop (metadata_of current) ''uid'') = Some (pc_uid pre)"
          using Inr by (auto simp: assertExpectedPreconditions_def assertExpectedUid_def split: if_splits)
        then show ?thesis
          using assms False ReadValue Inr e ensure_finalizer [OF e] by (cases r') (auto simp: fence_def)
      qed (use assms False ReadValue in \<open>auto simp: fence_def\<close>)
    qed (use assms False in \<open>auto simp: fence_def\<close>)
  qed
  then show "list_all adds_finalizer evs" "\<And>fenced. r = Inr (Some fenced) \<Longrightarrow> pc_uid fenced = pc_uid pre" by blast+
qed

lemma remove_result:
  assumes "removeNetworkCleanupFinalizer env uid d = (evs, r)" "ev \<in> set evs"
  shows "\<exists>current rv i. do_third d = ReadValue current \<and> ev = RemoveFinalizer uid rv i \<and> assertExpectedUid current uid = Inr () \<and>
     assertNoLifecycleProtection env current (do_thirdNow d) = Inr ()"
  using assms
  by (auto simp: removeNetworkCleanupFinalizer_def bind_res_Inr_iff split: read_answer.splits sum.splits option.splits)

lemma reclaim_result:
  assumes "reclaim env t uid d = (evs, r)" "evs \<noteq> []"
  shows "\<exists>deleting. do_second d = ReadValue deleting \<and> assertExpectedUid deleting uid = Inr () \<and>
     assertNoLifecycleProtection env deleting (do_secondNow d) = Inr ()"
  using assms by (auto simp: reclaim_def bind_res_Inr_iff split: read_answer.splits sum.splits)

lemma reclaim_remove:
  assumes "reclaim env t uid d = (evs, r)" "RemoveFinalizer u v i \<in> set evs"
  shows "do_policy d \<and> do_snat d \<noteq> None \<and> (\<exists>current. do_third d = ReadValue current \<and>
     assertExpectedUid current uid = Inr () \<and> assertNoLifecycleProtection env current (do_thirdNow d) = Inr ())"
  using assms
  by (auto simp: reclaim_def finish_reclaim_def dest!: remove_result split: read_answer.splits sum.splits if_splits option.splits prod.splits)

lemma idle_delete_gates:
  assumes "deleteSandboxWhenIdle env container t name canDelete io = (evs, r)" "evs \<noteq> []"
  shows "\<exists>latest pre pre'. readSandboxMutationGate env container name None canDelete (io_gate io) = Inr (Some (latest, pre)) \<and>
     gate_open env container name (io_second io) pre' \<and> samePreconditions pre' pre \<and>
     evs = fst (deleteSandboxAndReclaimNetwork env t (Some pre') (io_deletion io))"
proof -
  obtain latest pre where g: "readSandboxMutationGate env container name None canDelete (io_gate io) = Inr (Some (latest, pre))"
    and m: "evs = fst (manager_delete env container t name (Some pre) io)"
    using assms by (auto simp: deleteSandboxWhenIdle_def split: sum.splits gate_error.splits option.splits prod.splits)
  then obtain pre' where "readDestructiveMutationGate env container name (Some pre) (io_ownership io) (io_second io) = Inr (Some pre')"
    "evs = fst (deleteSandboxAndReclaimNetwork env t (Some pre') (io_deletion io))"
    using assms(2) by (auto simp: manager_delete_def split: sum.splits option.splits prod.splits)
  then show ?thesis using g manager_gate by blast
qed

lemma pause_gates:
  assumes "pause_attempts env container name canPause pos = (evs, r)" "PauseResource uid rv \<in> set evs"
  shows "\<exists>po \<in> set pos. \<exists>current pre pre'.
     readSandboxMutationGate env container name None canPause (po_gate po) = Inr (Some (current, pre)) \<and>
     gate_open env container name (po_second po) pre' \<and> samePreconditions pre' pre \<and> pc_uid pre' = uid \<and> pc_resourceVersion pre' = rv"
  using assms
proof (induction pos arbitrary: evs r)
  case Nil
  then show ?case by simp
next
  case (Cons po rest)
  obtain current pre where g: "readSandboxMutationGate env container name None canPause (po_gate po) = Inr (Some (current, pre))"
    using Cons.prems by (auto split: sum.splits gate_error.splits option.splits prod.splits)
  obtain evs1 r1 where p: "patchPaused env container name pre po = (evs1, r1)" by fastforce
  have here: ?case if "PauseResource uid rv \<in> set evs1"
  proof -
    have "readDestructiveMutationGate env container name (Some pre) (po_ownership po) (po_second po) =
        Inr (Some pre') \<Longrightarrow> gate_open env container name (po_second po) pre' \<and> samePreconditions pre' pre" for pre'
      using manager_gate by blast
    then show ?thesis using p that g by (fastforce simp: patchPaused_def split: sum.splits option.splits)
  qed
  show ?case
  proof (cases "PauseResource uid rv \<in> set evs1")
    case False
    with Cons.prems g p obtain evs2 where "pause_attempts env container name canPause rest = (evs2, r)" "PauseResource uid rv \<in> set evs2"
      by (auto split: sum.splits manage_error.splits prod.splits)
    then show ?thesis using Cons.IH by fastforce
  qed (rule here)
qed

lemma deletion_split:
  assumes "deleteSandboxAndReclaimNetwork env t (Some pre) d = (evs, r)" "fence pre d = (before, fr)"
  shows "evs = before \<or>
    (\<exists>fenced. fr = Inr (Some fenced) \<and>
       (let del = DeleteResource (pc_uid fenced) (pc_resourceVersion fenced) in
        evs = before @ [del] \<or> do_deleted d \<and> evs = before @ del # fst (reclaim env t (pc_uid fenced) d)))"
proof (cases fr)
  case (Inr o')
  then show ?thesis
    using assms by (cases o') (auto simp: deleteSandboxAndReclaimNetwork_def Let_def split: if_splits prod.splits)
qed (use assms in \<open>auto simp: deleteSandboxAndReclaimNetwork_def\<close>)

lemma can_delete_reason: "can_delete_for host now reason latest = Inr True \<Longrightarrow> cleanupDeletionReason host latest now = Inr (Some reason)"
  by (auto simp: can_delete_for_def bind_res_Inr_iff)

lemma can_pause_reason:
  "can_pause host now latest = Inr True \<Longrightarrow> ms_phase latest = Some ''Running'' \<and> cleanupDeletionReason host latest now = Inr None"
  by (auto simp: can_pause_def bind_res_Inr_iff split: if_splits)

lemma candidate_cases:
  assumes "cleanup_candidate env container t host nowMs co s rep = (evs, r)" "ev \<in> set evs"
  shows "\<not> co_busy co \<and> \<not> isActiveInvocationLeaseProtected s nowMs \<and> \<not> isBackgroundShellProtected s nowMs \<and>
    ((\<exists>reason devs dr e. deleteSandboxWhenIdle env container t (ms_name s) (can_delete_for host nowMs reason) (co_idle co) = (devs, dr) \<and>
        ev = Deleting e \<and> e \<in> set devs) \<or>
     (\<exists>pevs pr e. pauseSandboxWhenIdle env container (ms_name s) (can_pause host nowMs) (co_pause co) = (pevs, pr) \<and>
        ev = Pausing e \<and> e \<in> set pevs))"
proof (cases "co_busy co \<or> isActiveInvocationLeaseProtected s nowMs \<or> isBackgroundShellProtected s nowMs")
  case False
  with assms show ?thesis
    by (fastforce simp: cleanup_candidate_def Let_def split: sum.splits option.splits if_splits prod.splits)
qed (use assms in \<open>auto simp: cleanup_candidate_def Let_def\<close>)

lemma candidate_gates:
  assumes "cleanup_candidate env container t host nowMs co s rep = (evs, r)" "ev \<in> set evs"
  shows "\<not> co_busy co \<and> \<not> isActiveInvocationLeaseProtected s nowMs \<and> \<not> isBackgroundShellProtected s nowMs \<and>
     (\<exists>g g' latest pre pre'. gate_open env container (ms_name s) g pre \<and> gate_open env container (ms_name s) g' pre' \<and> samePreconditions pre' pre \<and>
        (\<exists>status. go_status g = Inr (Some status) \<and> latest = managedSandboxFromResource env container (gate_resource (ms_name s) status)) \<and>
        (case ev of
           Deleting e \<Rightarrow> g = io_gate (co_idle co) \<and> g' = io_second (co_idle co) \<and> (\<exists>reason. cleanupDeletionReason host latest nowMs = Inr (Some reason))
         | Pausing (PauseResource uid rv) \<Rightarrow> pc_uid pre' = uid \<and> pc_resourceVersion pre' = rv \<and>
             ms_phase latest = Some ''Running'' \<and> cleanupDeletionReason host latest nowMs = Inr None))"
    (is "?a \<and> ?b \<and> ?c \<and> ?gates")
proof -
  note cases = candidate_cases [OF assms]
  then consider
      (del) reason devs dr e where "deleteSandboxWhenIdle env container t (ms_name s) (can_delete_for host nowMs reason) (co_idle co) = (devs, dr)"
        "ev = Deleting e" "e \<in> set devs"
    | (pause) pevs pr e where "pauseSandboxWhenIdle env container (ms_name s) (can_pause host nowMs) (co_pause co) = (pevs, pr)"
        "ev = Pausing e" "e \<in> set pevs"
    by blast
  then have ?gates
  proof cases
    case del
    then have "devs \<noteq> []" by auto
    from idle_delete_gates [OF del(1) this] obtain latest pre pre' where
      g: "readSandboxMutationGate env container (ms_name s) None (can_delete_for host nowMs reason) (io_gate (co_idle co)) = Inr (Some (latest, pre))"
      and g': "gate_open env container (ms_name s) (io_second (co_idle co)) pre'" "samePreconditions pre' pre" by blast
    show ?thesis
      using gate_result [OF g] g' can_delete_reason [OF gate_result(2) [OF g]] del(2)
      by (intro exI [of _ "io_gate (co_idle co)"] exI [of _ "io_second (co_idle co)"] exI [of _ latest] exI [of _ pre] exI [of _ pre']) auto
  next
    case pause
    obtain uid rv where e: "e = PauseResource uid rv" by (cases e)
    have "PauseResource uid rv \<in> set pevs" using pause(3) e by simp
    from pause_gates [OF pause(1) [unfolded pauseSandboxWhenIdle_def] this] obtain po :: pause_obs and latest pre pre' where
      g: "readSandboxMutationGate env container (ms_name s) None (can_pause host nowMs) (po_gate po) = Inr (Some (latest, pre))"
      and g': "gate_open env container (ms_name s) (po_second po) pre'" "samePreconditions pre' pre" "pc_uid pre' = uid" "pc_resourceVersion pre' = rv"
      by blast
    show ?thesis
      using gate_result [OF g] g' can_pause_reason [OF gate_result(2) [OF g]] pause(2) e
      by (intro exI [of _ "po_gate po"] exI [of _ "po_second po"] exI [of _ latest] exI [of _ pre] exI [of _ pre']) auto
  qed
  with cases show ?thesis by blast
qed

section \<open>Claims\<close>


definition demo_resource :: "(string \<times> json) list" where
  "demo_resource =
     [(''metadata'', JObj [(''uid'', JStr ''u''), (''resourceVersion'', JStr ''7''), (''finalizers'', JArr [JStr NETWORK_CLEANUP_FINALIZER])])]"

definition demo_deletion :: deletion_obs where
  "demo_deletion =
     \<lparr>do_first = ReadAbsent, do_patch = PatchRefused, do_deleted = True, do_second = ReadValue demo_resource, do_secondNow = 5,
      do_policy = True, do_snat = Some [''s''], do_third = ReadValue demo_resource, do_thirdNow = 6, do_removed = True,
      do_waitStart = 7, do_absent = [(NamePresent, 8), (NameGone, 9)]\<rparr>"

definition demo_pre :: preconditions where
  "demo_pre = \<lparr>pc_uid = ''u'', pc_resourceVersion = ''7'', pc_networkCleanupFinalizer = True\<rparr>"

lemma demo_resource_facts:
  "assertExpectedUid demo_resource ''u'' = Inr ()" "assertNoLifecycleProtection demo_js_env demo_resource now = Inr ()"
  "stringValue (js_prop (metadata_of demo_resource) ''resourceVersion'') = Some ''7''"
  "index_of NETWORK_CLEANUP_FINALIZER (string_items (js_prop (metadata_of demo_resource) ''finalizers'')) = Some 0"
  by (simp_all add: assertExpectedUid_def assertNoLifecycleProtection_def demo_resource_def metadata_of_def child_def js_prop_def
      stringValue_def isActiveInvocationLeaseProtected_def lifecycleStateFromMetadata_def activeInvocationLeaseSnapshots_def
      object_entries_def activeInvocationLeaseUntil_def backgroundShellProtectionFromStatus_def string_items_def any_string_def
      map_filter_def check_def Let_def)

lemma demo_deletion_run:
  "deleteSandboxAndReclaimNetwork demo_js_env 100 (Some demo_pre) demo_deletion =
     ([DeleteResource ''u'' ''7'', ReclaimPolicy, ReclaimSnat, RemoveFinalizer ''u'' ''7'' 0], Some (Inr [''s'']))"
  by (simp add: deleteSandboxAndReclaimNetwork_def fence_def reclaim_def finish_reclaim_def removeNetworkCleanupFinalizer_def
      demo_pre_def demo_deletion_def demo_resource_facts check_def)


text \<open>The periodic cleanup touches only idle sandboxes. A change that it asks for belongs to a listed sandbox that was
  not in use, not leased and not protected; the gate was open on two further reads that show the same identity and
  version; and on the first of them the reason still held: deletion was due, or the sandbox was running and idle
  and no deletion was due.\<close>

theorem cleanup_only_idle:
  assumes "cleanupManagedSandboxes env container t host nowMs cands rep = (evs, r)" "(name, ev) \<in> set evs"
  shows "\<exists>s co. (s, co) \<in> set cands \<and> ms_name s = name \<and> \<not> co_busy co \<and>
     \<not> isActiveInvocationLeaseProtected s nowMs \<and> \<not> isBackgroundShellProtected s nowMs \<and>
     (\<exists>g g' latest pre pre'. gate_open env container name g pre \<and> gate_open env container name g' pre' \<and> samePreconditions pre' pre \<and>
        (\<exists>status. go_status g = Inr (Some status) \<and> latest = managedSandboxFromResource env container (gate_resource name status)) \<and>
        (case ev of
           Deleting e \<Rightarrow> g = io_gate (co_idle co) \<and> g' = io_second (co_idle co) \<and> (\<exists>reason. cleanupDeletionReason host latest nowMs = Inr (Some reason))
         | Pausing (PauseResource uid rv) \<Rightarrow> pc_uid pre' = uid \<and> pc_resourceVersion pre' = rv \<and>
             ms_phase latest = Some ''Running'' \<and> cleanupDeletionReason host latest nowMs = Inr None))"
  using assms
proof (induction cands arbitrary: rep evs r)
  case Nil
  then show ?case by simp
next
  case (Cons c rest)
  obtain s co where c: "c = (s, co)" by fastforce
  obtain evs1 r1 where one: "cleanup_candidate env container t host nowMs co s rep = (evs1, r1)" by fastforce
  show ?case
  proof (cases "(name, ev) \<in> set (map (Pair (ms_name s)) evs1)")
    case True
    then have "ms_name s = name" "ev \<in> set evs1" by auto
    then show ?thesis using candidate_gates [OF one] c by force
  next
    case False
    with Cons.prems c one obtain rep' evs2 where
      "cleanupManagedSandboxes env container t host nowMs rest rep' = (evs2, r)" "(name, ev) \<in> set evs2"
      by (auto simp: Let_def split: option.splits sum.splits prod.splits)
    then show ?thesis using Cons.IH by fastforce
  qed
qed

definition demo_orphan :: sandbox_status where
  "demo_orphan =
     \<lparr>ss_phase = None,
      ss_raw = JObj [(''metadata'', JObj [(''name'', JStr ''sb''), (''uid'', JStr ''u''), (''resourceVersion'', JStr ''7''),
        (''creationTimestamp'', JStr ''then''), (''finalizers'', JArr [JStr NETWORK_CLEANUP_FINALIZER])])]\<rparr>"

definition demo_date_env :: js_env where
  "demo_date_env = demo_js_env\<lparr>se_date := (\<lambda>_. Some 1000)\<rparr>"

definition demo_gate :: gate_obs where
  "demo_gate = \<lparr>go_busyBefore = False, go_status = Inr (Some demo_orphan), go_now = 400000, go_busyAfter = False\<rparr>"

definition demo_candidate :: candidate_obs where
  "demo_candidate =
     \<lparr>co_busy = False,
      co_idle = \<lparr>io_gate = demo_gate, io_ownership = True, io_second = demo_gate, io_deletion = demo_deletion\<lparr>do_deleted := False\<rparr>\<rparr>,
      co_pause = (\<lparr>po_gate = demo_gate, po_ownership = True, po_second = demo_gate, po_patch = PauseDone\<rparr>,
                  \<lparr>po_gate = demo_gate, po_ownership = True, po_second = demo_gate, po_patch = PauseDone\<rparr>)\<rparr>"

definition demo_host :: cleanup_host where
  "demo_host = \<lparr>ch_enforce = True, ch_brokenRecycleGraceMs = 0, ch_orphanGraceMs = 60000, ch_ttlMs = 0, ch_idlePauseMs = 0\<rparr>"

lemma demo_cleanup:
  "fst (cleanupManagedSandboxes demo_date_env ''main'' 100 demo_host 400000
     [(managedSandboxFromResource demo_date_env ''main'' (gate_resource ''sb'' demo_orphan), demo_candidate)] empty_report) =
   [(''sb'', Deleting (DeleteResource ''u'' ''7''))]"
  by code_simp

lemma cleanup_only_idle_witness:
  "\<exists>g pre. gate_open demo_date_env ''main'' ''sb'' g pre"
  using cleanup_only_idle [OF prod.collapse [symmetric], of "''sb''" "Deleting (DeleteResource ''u'' ''7'')" demo_date_env "''main''" 100
      demo_host 400000 "[(managedSandboxFromResource demo_date_env ''main'' (gate_resource ''sb'' demo_orphan), demo_candidate)]" empty_report]
  unfolding demo_cleanup by auto

end
