(* ===== verification/Acs_Capacity.thy ===== *)
theory Acs_Capacity
  imports Complex_Main Acs_Cleanup "HOL-Library.AList"
begin

text \<open>
  Capacity of the sandbox cluster: resource quantities, usage and limits, eviction of paused sandboxes
  (\<^verbatim>\<open>sandboxCapacity.ts\<close>), the table of reservations (\<^verbatim>\<open>capacityReservations.ts\<close>) and admission
  (\<^verbatim>\<open>sandboxCapacityAdmission.ts\<close>). Sums of usage are integers; in the code they are doubles, exact as long as they stay
  below \<open>2 ^ 53\<close>.
\<close>

section \<open>Quantities\<close>

text \<open>
  \<open>round_double\<close> is the rounding of a non-negative number to the nearest double, ties to even, within the range of
  normal doubles: 53 significant bits.
\<close>

fun bit_count :: "nat \<Rightarrow> nat" where
  "bit_count n = (if n = 0 then 0 else Suc (bit_count (n div 2)))"

declare bit_count.simps [simp del]

definition pow2 :: "int \<Rightarrow> rat" where
  "pow2 e = (if e \<ge> 0 then 2 ^ nat e else 1 / 2 ^ nat (- e))"

definition round_half_even :: "rat \<Rightarrow> int" where
  "round_half_even x =
     (let f = \<lfloor>x\<rfloor>; r = x - of_int f in
      if r < 1 / 2 \<or> r = 1 / 2 \<and> even f then f else f + 1)"

definition round_double :: "rat \<Rightarrow> rat" where
  "round_double x =
     (if x \<le> 0 then 0
      else (let (p, q) = quotient_of x;
                d = int (bit_count (nat p)) - int (bit_count (nat q));
                e = (if x \<ge> pow2 d then d - 52 else d - 53) in
            of_int (round_half_even (x / pow2 e)) * pow2 e))"

text \<open>The texts \<open>\d+(?:\.\d+)?\<close> followed by a unit: whole part, fraction and unit.\<close>

definition quantity_parts :: "string \<Rightarrow> (string \<times> string \<times> string) option" where
  "quantity_parts s =
     (let whole = takeWhile is_digit s; rest = dropWhile is_digit s in
      if whole = [] then None
      else (case rest of
              [] \<Rightarrow> Some (whole, [], [])
            | c # rest' \<Rightarrow>
                if c = CHR ''.''
                then (let fraction = takeWhile is_digit rest' in
                      if fraction = [] then None else Some (whole, fraction, dropWhile is_digit rest'))
                else Some (whole, [], rest)))"

definition literal_number :: "string \<Rightarrow> string \<Rightarrow> rat" where
  "literal_number whole fraction = round_double (of_nat (decimal_value (whole @ fraction)) / 10 ^ length fraction)"

datatype capacity_error = UnsupportedQuantity | CapacityExhausted | SortRangeError | EvictionError manage_error

definition parseCpuMillicores :: "string option \<Rightarrow> capacity_error + int" where
  "parseCpuMillicores v =
     (if \<not> truthy v then Inr 0
      else (case quantity_parts (js_trim (the v)) of
              None \<Rightarrow> Inl UnsupportedQuantity
            | Some (whole, fraction, unit) \<Rightarrow>
                let amount = literal_number whole fraction in
                if unit = ''m'' then Inr \<lceil>amount\<rceil>
                else if unit = [] then Inr \<lceil>round_double (amount * 1000)\<rceil>
                else Inl UnsupportedQuantity))"

definition memory_units :: "(string \<times> nat) list" where
  "memory_units =
     [(''Ki'', 1024), (''Mi'', 1024 ^ 2), (''Gi'', 1024 ^ 3), (''Ti'', 1024 ^ 4),
      (''K'', 1000), (''M'', 1000 ^ 2), (''G'', 1000 ^ 3), (''T'', 1000 ^ 4)]"

definition parseMemoryBytes :: "string option \<Rightarrow> capacity_error + int" where
  "parseMemoryBytes v =
     (if \<not> truthy v then Inr 0
      else (case quantity_parts (js_trim (the v)) of
              None \<Rightarrow> Inl UnsupportedQuantity
            | Some (whole, fraction, unit) \<Rightarrow>
                let amount = literal_number whole fraction in
                if unit = [] then Inr \<lceil>amount\<rceil>
                else (case map_of memory_units unit of
                        None \<Rightarrow> Inl UnsupportedQuantity
                      | Some factor \<Rightarrow> Inr \<lceil>round_double (amount * of_nat factor)\<rceil>)))"

section \<open>Usage and limits\<close>

record resource_usage =
  ru_count :: int
  ru_cpuMillicores :: int
  ru_memoryBytes :: int

record capacity_config =
  cc_cpuRequest :: "string option"
  cc_cpuLimit :: "string option"
  cc_memoryRequest :: "string option"
  cc_memoryLimit :: "string option"
  cc_maxRunningSandboxes :: int
  cc_maxAllocatedCpuMillicores :: int
  cc_maxAllocatedMemoryMib :: int
  cc_lifecycleEnabled :: bool

record capacity_snapshot = resource_usage +
  sn_maxCount :: int
  sn_maxCpuMillicores :: int
  sn_maxMemoryBytes :: int
  sn_availableCount :: "int option"
  sn_availableCpuMillicores :: "int option"
  sn_availableMemoryBytes :: "int option"

definition zeroUsage :: resource_usage where
  "zeroUsage = \<lparr>ru_count = 0, ru_cpuMillicores = 0, ru_memoryBytes = 0\<rparr>"

definition addUsage :: "resource_usage \<Rightarrow> resource_usage \<Rightarrow> resource_usage" where
  "addUsage l r =
     \<lparr>ru_count = ru_count l + ru_count r, ru_cpuMillicores = ru_cpuMillicores l + ru_cpuMillicores r,
      ru_memoryBytes = ru_memoryBytes l + ru_memoryBytes r\<rparr>"

definition subtractUsage :: "resource_usage \<Rightarrow> resource_usage \<Rightarrow> resource_usage" where
  "subtractUsage l r =
     \<lparr>ru_count = max 0 (ru_count l - ru_count r), ru_cpuMillicores = max 0 (ru_cpuMillicores l - ru_cpuMillicores r),
      ru_memoryBytes = max 0 (ru_memoryBytes l - ru_memoryBytes r)\<rparr>"

definition usageFromQuantities ::
  "string option \<Rightarrow> string option \<Rightarrow> string option \<Rightarrow> string option \<Rightarrow> capacity_error + resource_usage" where
  "usageFromQuantities cpuRequest cpuLimit memoryRequest memoryLimit =
     bind_res (parseCpuMillicores cpuRequest) (\<lambda>cr.
     bind_res (parseCpuMillicores cpuLimit) (\<lambda>cl.
     bind_res (parseMemoryBytes memoryRequest) (\<lambda>mr.
     bind_res (parseMemoryBytes memoryLimit) (\<lambda>ml.
     Inr \<lparr>ru_count = 1, ru_cpuMillicores = max cr cl, ru_memoryBytes = max mr ml\<rparr>))))"

record sandbox_ref =
  sr_name :: string
  sr_cpuRequest :: "string option"
  sr_cpuLimit :: "string option"
  sr_memoryRequest :: "string option"
  sr_memoryLimit :: "string option"

definition usageForRef :: "capacity_config \<Rightarrow> sandbox_ref \<Rightarrow> capacity_error + resource_usage" where
  "usageForRef config ref =
     usageFromQuantities (nullish (sr_cpuRequest ref) (cc_cpuRequest config)) (nullish (sr_cpuLimit ref) (cc_cpuLimit config))
       (nullish (sr_memoryRequest ref) (cc_memoryRequest config)) (nullish (sr_memoryLimit ref) (cc_memoryLimit config))"

definition defaultSandboxUsage :: "capacity_config \<Rightarrow> capacity_error + resource_usage" where
  "defaultSandboxUsage config =
     usageFromQuantities (cc_cpuRequest config) (cc_cpuLimit config) (cc_memoryRequest config) (cc_memoryLimit config)"

definition usageForSandbox :: "capacity_config \<Rightarrow> managed_sandbox \<Rightarrow> capacity_error + resource_usage" where
  "usageForSandbox config s =
     usageFromQuantities (nullish (ms_cpuRequest s) (cc_cpuRequest config)) (nullish (ms_cpuLimit s) (cc_cpuLimit config))
       (nullish (ms_memoryRequest s) (cc_memoryRequest config)) (nullish (ms_memoryLimit s) (cc_memoryLimit config))"

definition exceeds :: "int \<Rightarrow> int \<Rightarrow> bool" where
  "exceeds limit v = (limit > 0 \<and> v > limit)"

definition available :: "int \<Rightarrow> int \<Rightarrow> int option" where
  "available limit v = (if limit > 0 then Some (max 0 (limit - v)) else None)"

definition maxMemoryBytes :: "capacity_config \<Rightarrow> int" where
  "maxMemoryBytes config = (if cc_maxAllocatedMemoryMib config > 0 then cc_maxAllocatedMemoryMib config * 1024 * 1024 else 0)"

definition snapshotForUsage :: "resource_usage \<Rightarrow> capacity_config \<Rightarrow> capacity_snapshot" where
  "snapshotForUsage u config =
     \<lparr>ru_count = ru_count u, ru_cpuMillicores = ru_cpuMillicores u, ru_memoryBytes = ru_memoryBytes u,
      sn_maxCount = cc_maxRunningSandboxes config, sn_maxCpuMillicores = cc_maxAllocatedCpuMillicores config,
      sn_maxMemoryBytes = maxMemoryBytes config,
      sn_availableCount = available (cc_maxRunningSandboxes config) (ru_count u),
      sn_availableCpuMillicores = available (cc_maxAllocatedCpuMillicores config) (ru_cpuMillicores u),
      sn_availableMemoryBytes = available (maxMemoryBytes config) (ru_memoryBytes u)\<rparr>"

definition capacityExceeded :: "capacity_snapshot \<Rightarrow> bool" where
  "capacityExceeded s =
     (exceeds (sn_maxCount s) (ru_count s) \<or> exceeds (sn_maxCpuMillicores s) (ru_cpuMillicores s) \<or>
      exceeds (sn_maxMemoryBytes s) (ru_memoryBytes s))"

definition canAdmitWithReclaimableUsage ::
  "resource_usage \<Rightarrow> resource_usage \<Rightarrow> resource_usage \<Rightarrow> capacity_config \<Rightarrow> bool" where
  "canAdmitWithReclaimableUsage allocated desired reclaimable config =
     (let nxt = addUsage allocated desired in
      \<not> capacityExceeded (snapshotForUsage nxt config) \<or>
      \<not> capacityExceeded (snapshotForUsage (subtractUsage nxt reclaimable) config))"

fun add_all :: "(managed_sandbox \<Rightarrow> bool) \<Rightarrow> capacity_config \<Rightarrow> managed_sandbox list \<Rightarrow> resource_usage \<Rightarrow> capacity_error + resource_usage" where
  "add_all P config [] u = Inr u"
| "add_all P config (s # ss) u =
     (if P s then bind_res (usageForSandbox config s) (\<lambda>v. add_all P config ss (addUsage u v))
      else add_all P config ss u)"

record capacity_summary =
  su_snapshot :: capacity_snapshot
  su_evictablePausedCount :: nat
  su_executionReady :: bool

definition summarizeSandboxCapacity ::
  "managed_sandbox list \<Rightarrow> resource_usage \<Rightarrow> capacity_config \<Rightarrow> (managed_sandbox \<Rightarrow> bool) \<Rightarrow> capacity_error + capacity_summary" where
  "summarizeSandboxCapacity sandboxes pendingUsage config canEvict =
     (let evictable = (\<lambda>s. ms_phase s = Some ''Paused'' \<and> canEvict s) in
      bind_res (add_all (\<lambda>_. True) config sandboxes pendingUsage) (\<lambda>allocated.
      bind_res (add_all evictable config sandboxes zeroUsage) (\<lambda>reclaimable.
      bind_res (defaultSandboxUsage config) (\<lambda>desired.
      Inr \<lparr>su_snapshot = snapshotForUsage allocated config,
           su_evictablePausedCount = length (filter evictable sandboxes),
           su_executionReady = canAdmitWithReclaimableUsage allocated desired reclaimable config\<rparr>))))"

section \<open>Admission with eviction\<close>

text \<open>The order of candidates: the earlier deadline first, a missing one last; then the longer inactive.\<close>

definition eviction_deadline :: "int \<Rightarrow> managed_sandbox \<Rightarrow> range_error + int option" where
  "eviction_deadline nowMs s =
     bind_res (decideSandboxLifecycle s nowMs False False) (\<lambda>d. Inr (parseDateMs (ld_deadlineAt d)))"

definition deadline_of :: "int \<Rightarrow> managed_sandbox \<Rightarrow> int option" where
  "deadline_of nowMs s = (case eviction_deadline nowMs s of Inl _ \<Rightarrow> None | Inr d \<Rightarrow> d)"

definition evict_before :: "int \<Rightarrow> managed_sandbox \<Rightarrow> managed_sandbox \<Rightarrow> bool" where
  "evict_before nowMs l r =
     (let tie = or_zero (parseDateMs (ms_lastActiveAt l)) \<le> or_zero (parseDateMs (ms_lastActiveAt r)) in
      case (deadline_of nowMs l, deadline_of nowMs r) of
        (Some a, Some b) \<Rightarrow> a < b \<or> a = b \<and> tie
      | (Some a, None) \<Rightarrow> True
      | (None, Some b) \<Rightarrow> False
      | (None, None) \<Rightarrow> tie)"

text \<open>The comparator throws when a deadline lies outside the range of dates, which happens as soon as the sandbox is
  compared with another one.\<close>

definition eviction_candidates ::
  "managed_sandbox list \<Rightarrow> string \<Rightarrow> (managed_sandbox \<Rightarrow> bool) \<Rightarrow> int \<Rightarrow> capacity_error + managed_sandbox list" where
  "eviction_candidates sandboxes currentName canEvict nowMs =
     (let cands = filter (\<lambda>s. ms_name s \<noteq> currentName \<and> ms_phase s = Some ''Paused'' \<and> canEvict s) sandboxes in
      if length cands \<ge> 2 \<and> list_ex (\<lambda>s. eviction_deadline nowMs s = Inl RangeError) cands then Inl SortRangeError
      else Inr (js_sort (evict_before nowMs) cands))"

fun evict_loop ::
  "capacity_config \<Rightarrow> (managed_sandbox \<Rightarrow> manage_error + bool) \<Rightarrow> managed_sandbox list \<Rightarrow> resource_usage \<Rightarrow> string list \<Rightarrow>
   string list \<times> (capacity_error + capacity_snapshot)" where
  "evict_loop config evict [] u evicted = (evicted, Inl CapacityExhausted)"
| "evict_loop config evict (s # rest) u evicted =
     (case evict s of
        Inl e \<Rightarrow> (evicted, Inl (EvictionError e))
      | Inr False \<Rightarrow> evict_loop config evict rest u evicted
      | Inr True \<Rightarrow>
          (case usageForSandbox config s of
             Inl e \<Rightarrow> (evicted, Inl e)
           | Inr v \<Rightarrow>
               let u' = subtractUsage u v; evicted' = evicted @ [ms_name s]; snapshot = snapshotForUsage u' config in
               if \<not> capacityExceeded snapshot then (evicted', Inr snapshot) else evict_loop config evict rest u' evicted'))"

definition enforceSandboxCapacity ::
  "managed_sandbox list \<Rightarrow> string \<Rightarrow> resource_usage \<Rightarrow> resource_usage \<Rightarrow> capacity_config \<Rightarrow> bool \<Rightarrow>
   (managed_sandbox \<Rightarrow> bool) \<Rightarrow> (managed_sandbox \<Rightarrow> manage_error + bool) \<Rightarrow> int \<Rightarrow>
   string list \<times> (capacity_error + capacity_snapshot)" where
  "enforceSandboxCapacity sandboxes currentName desiredUsage pendingUsage config allowEviction canEvict evict nowMs =
     (case add_all (\<lambda>s. ms_name s \<noteq> currentName) config sandboxes (addUsage pendingUsage desiredUsage) of
        Inl e \<Rightarrow> ([], Inl e)
      | Inr u \<Rightarrow>
          let snapshot = snapshotForUsage u config in
          if \<not> capacityExceeded snapshot then ([], Inr snapshot)
          else if allowEviction
          then (case eviction_candidates sandboxes currentName canEvict nowMs of
                  Inl e \<Rightarrow> ([], Inl e)
                | Inr cands \<Rightarrow> evict_loop config evict cands u [])
          else ([], Inl CapacityExhausted))"

section \<open>Reservations\<close>

type_synonym reservations = "(string \<times> resource_usage) list"

definition reserve_set :: "string \<Rightarrow> resource_usage \<Rightarrow> reservations \<Rightarrow> reservations" where
  "reserve_set name u rs = AList.update name u rs"

definition release :: "string \<Rightarrow> reservations \<Rightarrow> reservations" where
  "release name rs = AList.delete name rs"

definition pendingUsage :: "string set \<Rightarrow> string \<Rightarrow> reservations \<Rightarrow> resource_usage" where
  "pendingUsage existingNames currentName rs =
     fold (\<lambda>(name, u) pending. if name \<noteq> currentName \<and> name \<notin> existingNames then addUsage pending u else pending) rs zeroUsage"

text \<open>
  \<open>reserveSandboxCapacity\<close>: what is checked between the listing and the entry in the table. \<open>ao_busy\<close> and \<open>ao_busyLater\<close> say which
  sandboxes this process uses and \<open>ao_evict\<close> is the answer of the manager's deletion, asked only when the protections still allow it.
\<close>

record admission_obs =
  ao_busy :: "string \<Rightarrow> bool"
  ao_busyLater :: "string \<Rightarrow> bool"
  ao_evict :: "string \<Rightarrow> manage_error + bool"
  ao_canEvictNow :: int
  ao_sortNow :: int
  ao_evictNow :: int

definition unlimited :: "capacity_config \<Rightarrow> bool" where
  "unlimited config \<longleftrightarrow>
     cc_maxRunningSandboxes config \<le> 0 \<and> cc_maxAllocatedCpuMillicores config \<le> 0 \<and> cc_maxAllocatedMemoryMib config \<le> 0"

definition evictable_at :: "(string \<Rightarrow> bool) \<Rightarrow> int \<Rightarrow> managed_sandbox \<Rightarrow> bool" where
  "evictable_at busy now s \<longleftrightarrow>
     \<not> busy (ms_name s) \<and> \<not> isActiveInvocationLeaseProtected s now \<and> \<not> isBackgroundShellProtected s now"

definition admission_check ::
  "capacity_config \<Rightarrow> bool \<Rightarrow> admission_obs \<Rightarrow> string \<Rightarrow> resource_usage \<Rightarrow> managed_sandbox list \<Rightarrow> reservations \<Rightarrow>
   string list \<times> (capacity_error + capacity_snapshot)" where
  "admission_check config skipCapacityManagement ao name desired sandboxes rs =
     enforceSandboxCapacity sandboxes name desired (pendingUsage (ms_name ` set sandboxes) name rs) config
       (cc_lifecycleEnabled config \<and> \<not> skipCapacityManagement)
       (evictable_at (ao_busy ao) (ao_canEvictNow ao))
       (\<lambda>s. if evictable_at (ao_busyLater ao) (ao_evictNow ao) s then ao_evict ao (ms_name s) else Inr False)
       (ao_sortNow ao)"

definition reserveSandboxCapacity ::
  "capacity_config \<Rightarrow> bool \<Rightarrow> admission_obs \<Rightarrow> sandbox_ref \<Rightarrow> managed_sandbox list \<Rightarrow> reservations \<Rightarrow>
   reservations \<times> string list \<times> (capacity_error + unit)" where
  "reserveSandboxCapacity config skipCapacityManagement ao ref sandboxes rs =
     (if unlimited config then (rs, [], Inr ())
      else (case usageForRef config ref of
              Inl e \<Rightarrow> (rs, [], Inl e)
            | Inr desired \<Rightarrow>
                (case admission_check config skipCapacityManagement ao (sr_name ref) desired sandboxes rs of
                   (evicted, Inl e) \<Rightarrow> (rs, evicted, Inl e)
                 | (evicted, Inr _) \<Rightarrow> (reserve_set (sr_name ref) desired rs, evicted, Inr ()))))"

section \<open>Sums of usage\<close>

definition usage_parts :: "(resource_usage \<Rightarrow> int) set" where
  "usage_parts = {ru_count, ru_cpuMillicores, ru_memoryBytes}"

lemma usage_parts_simps:
  assumes "f \<in> usage_parts"
  shows "f zeroUsage = 0" "f (addUsage a b) = f a + f b" "f (subtractUsage a b) = max 0 (f a - f b)"
  using assms by (auto simp: usage_parts_def zeroUsage_def addUsage_def subtractUsage_def)

definition fits :: "capacity_config \<Rightarrow> resource_usage \<Rightarrow> bool" where
  "fits config u \<longleftrightarrow> \<not> capacityExceeded (snapshotForUsage u config)"

lemma fits_mono:
  assumes "fits config u" "\<And>f. f \<in> usage_parts \<Longrightarrow> f v \<le> f u"
  shows "fits config v"
proof -
  have "ru_count v \<le> ru_count u" "ru_cpuMillicores v \<le> ru_cpuMillicores u" "ru_memoryBytes v \<le> ru_memoryBytes u"
    using assms(2) by (simp_all add: usage_parts_def)
  then show ?thesis using assms(1) by (auto simp: fits_def capacityExceeded_def snapshotForUsage_def exceeds_def)
qed

lemma pow2_pos [simp]: "pow2 e > 0"
  by (simp add: pow2_def)

lemma round_double_nonneg [simp]: "round_double x \<ge> 0"
proof (cases "x \<le> 0")
  case False
  have "0 \<le> (of_int (round_half_even (x / pow2 e)) * pow2 e :: rat)" for e
    using False by (intro mult_nonneg_nonneg) (simp_all add: round_half_even_def Let_def less_imp_le)
  then show ?thesis using False by (simp add: round_double_def Let_def split: prod.splits)
qed (simp add: round_double_def)

lemma round_double_above [simp]: "- 1 < round_double x"
  using round_double_nonneg [of x] by linarith

lemma parse_nonneg:
  "parseCpuMillicores v = Inr n \<Longrightarrow> 0 \<le> n" "parseMemoryBytes v = Inr n \<Longrightarrow> 0 \<le> n"
  by (auto simp: parseCpuMillicores_def parseMemoryBytes_def literal_number_def Let_def split: if_splits option.splits)

definition usage_ok :: "resource_usage \<Rightarrow> bool" where
  "usage_ok u \<longleftrightarrow> (\<forall>f \<in> usage_parts. 0 \<le> f u)"

lemma usageFromQuantities_ok: "usageFromQuantities a b c d = Inr u \<Longrightarrow> usage_ok u"
  by (auto simp: usageFromQuantities_def bind_res_Inr_iff usage_ok_def usage_parts_def dest: parse_nonneg intro: max.coboundedI1)

lemma usage_ok_sources: "usageForSandbox config s = Inr u \<Longrightarrow> usage_ok u" "usageForRef config r = Inr u \<Longrightarrow> usage_ok u"
  by (simp_all add: usageForSandbox_def usageForRef_def usageFromQuantities_ok)

definition usage_of :: "capacity_config \<Rightarrow> managed_sandbox \<Rightarrow> resource_usage" where
  "usage_of config s = projr (usageForSandbox config s)"

lemma add_all_Inr:
  assumes "add_all P config ss u = Inr r" "f \<in> usage_parts"
  shows "f r = f u + sum_list (map (\<lambda>s. f (usage_of config s)) (filter P ss)) \<and>
    (\<forall>s \<in> set (filter P ss). usageForSandbox config s = Inr (usage_of config s))"
  using assms(1)
proof (induction ss arbitrary: u)
  case (Cons s ss)
  show ?case
  proof (cases "P s")
    case True
    then obtain v where v: "usageForSandbox config s = Inr v" "add_all P config ss (addUsage u v) = Inr r"
      using Cons.prems by (auto simp: bind_res_Inr_iff)
    then have "usage_of config s = v" by (simp add: usage_of_def)
    then show ?thesis using Cons.IH [OF v(2)] v(1) True usage_parts_simps [OF assms(2)] by simp
  qed (use Cons in simp)
qed simp

lemma pending_fold:
  assumes "f \<in> usage_parts"
  shows "f (fold (\<lambda>(name, u) pending. if P name then addUsage pending u else pending) rs a) =
    f a + sum_list (map (f \<circ> snd) (filter (P \<circ> fst) rs))"
  by (induction rs arbitrary: a) (auto simp: usage_parts_simps [OF assms])

lemma pendingUsage_part:
  assumes "f \<in> usage_parts"
  shows "f (pendingUsage X c rs) = sum_list (map (f \<circ> snd) (filter (\<lambda>(n, u). n \<noteq> c \<and> n \<notin> X) rs))"
proof -
  have "filter ((\<lambda>n. n \<noteq> c \<and> n \<notin> X) \<circ> fst) rs = filter (\<lambda>(n, u). n \<noteq> c \<and> n \<notin> X) rs"
    by (intro filter_cong) auto
  then show ?thesis
    using pending_fold [OF assms, of "\<lambda>n. n \<noteq> c \<and> n \<notin> X" rs zeroUsage]
    by (simp add: pendingUsage_def usage_parts_simps [OF assms])
qed

lemma evict_loop_Inr:
  assumes "evict_loop config evict cands u ev0 = (ev, Inr snap)"
  shows "\<exists>ss v. set ss \<subseteq> set cands \<and> (distinct cands \<longrightarrow> distinct ss) \<and> ev = ev0 @ map ms_name ss \<and> (\<forall>s \<in> set ss. evict s = Inr True) \<and>
    (\<forall>s \<in> set ss. usageForSandbox config s = Inr (usage_of config s)) \<and>
    snap = snapshotForUsage v config \<and> fits config v \<and>
    (\<forall>f \<in> usage_parts. f u - sum_list (map (\<lambda>s. f (usage_of config s)) ss) \<le> f v)"
  using assms
proof (induction cands arbitrary: u ev0)
  case (Cons s rest)
  show ?case
  proof (cases "evict s = Inr True")
    case True
    then obtain w where w: "usageForSandbox config s = Inr w" using Cons.prems by (auto split: sum.splits)
    let ?u = "subtractUsage u w"
    have wo: "usage_of config s = w" using w by (simp add: usage_of_def)
    have sub: "f u - f w \<le> f ?u" if "f \<in> usage_parts" for f using usage_parts_simps(3) [OF that] by simp
    show ?thesis
    proof (cases "capacityExceeded (snapshotForUsage ?u config)")
      case False
      then show ?thesis
        using Cons.prems True w wo sub by (intro exI [of _ "[s]"] exI [of _ ?u]) (auto simp: Let_def fits_def)
    next
      case exc: True
      then have "evict_loop config evict rest ?u (ev0 @ [ms_name s]) = (ev, Inr snap)"
        using Cons.prems True w by (simp add: Let_def)
      from Cons.IH [OF this] obtain ss v where ih: "set ss \<subseteq> set rest" "distinct rest \<longrightarrow> distinct ss" "ev = (ev0 @ [ms_name s]) @ map ms_name ss"
          "\<forall>s \<in> set ss. evict s = Inr True" "\<forall>s \<in> set ss. usageForSandbox config s = Inr (usage_of config s)"
          "snap = snapshotForUsage v config" "fits config v"
          "\<forall>f \<in> usage_parts. f ?u - sum_list (map (\<lambda>s. f (usage_of config s)) ss) \<le> f v" by blast
      have "f u - sum_list (map (\<lambda>s. f (usage_of config s)) (s # ss)) \<le> f v" if "f \<in> usage_parts" for f
        using sub [OF that] ih(8) that wo by fastforce
      then show ?thesis using ih True w wo by (intro exI [of _ "s # ss"] exI [of _ v]) auto
    qed
  next
    case False
    then have "evict_loop config evict rest u ev0 = (ev, Inr snap)"
      using Cons.prems by (cases "evict s") (auto split: bool.splits)
    from Cons.IH [OF this] show ?thesis by fastforce
  qed
qed simp

section \<open>The machine of reservations\<close>

text \<open>
  The resources in the cluster with their usage, the table of reservations, the names that are reserved for a
  resource that is still to be created, and the check that holds the gate, with the list it read. Calls of \<open>reserve\<close>
  take turns at the gate; everything else may happen while a check is under way.
\<close>

record capacity_world =
  cw_cluster :: reservations
  cw_reservations :: reservations
  cw_uncreated :: "string set"
  cw_check :: "(sandbox_ref \<times> managed_sandbox list) option"

abbreviation names :: "(string \<times> 'a) list \<Rightarrow> string set" where
  "names xs \<equiv> fst ` set xs"

definition listing :: "capacity_config \<Rightarrow> reservations \<Rightarrow> managed_sandbox list \<Rightarrow> bool" where
  "listing config cluster ss \<longleftrightarrow> map (\<lambda>s. (ms_name s, usageForSandbox config s)) ss = map (\<lambda>(n, u). (n, Inr u)) cluster"

text \<open>
  The steps. A reservation is asked for by the single \<open>ensureRunning\<close> call of a name, for the resources that a resumed
  sandbox has; the manager evicts no name with such a call under way; a resource is created once per
  reservation, with the reserved resources. With \<open>orderly\<close>, no reservation is released for a resource that was
  created after the list of the check under way was read.
\<close>

inductive capacity_step :: "bool \<Rightarrow> capacity_config \<Rightarrow> capacity_world \<Rightarrow> capacity_world \<Rightarrow> bool" for orderly config where
  list_step: "cw_check w = None \<Longrightarrow> listing config (cw_cluster w) ss \<Longrightarrow> sr_name ref \<notin> names (cw_reservations w) \<Longrightarrow>
    (\<And>s. s \<in> set ss \<Longrightarrow> ms_name s = sr_name ref \<Longrightarrow> usageForSandbox config s = usageForRef config ref) \<Longrightarrow>
    capacity_step orderly config w (w\<lparr>cw_check := Some (ref, ss)\<rparr>)"
| admit_step: "cw_check w = Some (ref, ss) \<Longrightarrow>
    reserveSandboxCapacity config skip ao ref ss (cw_reservations w) = (rs, evicted, r) \<Longrightarrow>
    set evicted \<inter> names (cw_reservations w) = {} \<Longrightarrow>
    capacity_step orderly config w
      (w\<lparr>cw_cluster := filter (\<lambda>(n, u). n \<notin> set evicted) (cw_cluster w), cw_reservations := rs,
         cw_uncreated := (if r = Inr () \<and> sr_name ref \<in> names rs \<and> sr_name ref \<notin> ms_name ` set ss
                          then insert (sr_name ref) (cw_uncreated w) else cw_uncreated w),
         cw_check := None\<rparr>)"
| create_step: "n \<in> cw_uncreated w \<Longrightarrow> (n, u) \<in> set (cw_reservations w) \<Longrightarrow> n \<notin> names (cw_cluster w) \<Longrightarrow>
    capacity_step orderly config w (w\<lparr>cw_cluster := cw_cluster w @ [(n, u)], cw_uncreated := cw_uncreated w - {n}\<rparr>)"
| gone_step: "capacity_step orderly config w (w\<lparr>cw_cluster := filter (\<lambda>(m, u). m \<noteq> n) (cw_cluster w)\<rparr>)"
| release_step: "(orderly \<and> n \<in> names (cw_cluster w) \<longrightarrow> (\<forall>ref ss. cw_check w = Some (ref, ss) \<longrightarrow> n \<in> ms_name ` set ss)) \<Longrightarrow>
    capacity_step orderly config w (w\<lparr>cw_reservations := release n (cw_reservations w), cw_uncreated := cw_uncreated w - {n}\<rparr>)"

definition empty_world :: capacity_world where
  "empty_world = \<lparr>cw_cluster = [], cw_reservations = [], cw_uncreated = {}, cw_check = None\<rparr>"

definition reachable_world :: "bool \<Rightarrow> capacity_config \<Rightarrow> capacity_world \<Rightarrow> bool" where
  "reachable_world orderly config w \<longleftrightarrow> (capacity_step orderly config)\<^sup>*\<^sup>* empty_world w"

text \<open>The usage of every name that exists or is reserved.\<close>

definition committed :: "reservations \<Rightarrow> reservations \<Rightarrow> string \<rightharpoonup> resource_usage" where
  "committed cluster rs = map_of (cluster @ rs)"

definition usage_total :: "(resource_usage \<Rightarrow> int) \<Rightarrow> (string \<rightharpoonup> resource_usage) \<Rightarrow> int" where
  "usage_total f m = (\<Sum>n \<in> dom m. f (the (m n)))"

definition map_fits :: "capacity_config \<Rightarrow> (string \<rightharpoonup> resource_usage) \<Rightarrow> bool" where
  "map_fits config m \<longleftrightarrow> (\<exists>u. fits config u \<and> (\<forall>f \<in> usage_parts. usage_total f m \<le> f u))"

lemma total_mono:
  assumes "m \<subseteq>\<^sub>m m'" "finite (dom m')" "\<And>n u. m' n = Some u \<Longrightarrow> usage_ok u" "f \<in> usage_parts"
  shows "usage_total f m \<le> usage_total f m'"
proof -
  have "usage_total f m = (\<Sum>n \<in> dom m. f (the (m' n)))"
    unfolding usage_total_def using assms(1) by (intro sum.cong) (auto simp: map_le_def)
  also have "\<dots> \<le> usage_total f m'"
    unfolding usage_total_def using assms by (intro sum_mono2) (auto simp: map_le_def usage_ok_def dom_def)
  finally show ?thesis .
qed

lemma map_fits_mono:
  "m \<subseteq>\<^sub>m m' \<Longrightarrow> finite (dom m') \<Longrightarrow> (\<And>n u. m' n = Some u \<Longrightarrow> usage_ok u) \<Longrightarrow> map_fits config m' \<Longrightarrow> map_fits config m"
  unfolding map_fits_def using total_mono by (meson order_trans)

lemma total_map_of:
  assumes "distinct (map fst xs)"
  shows "usage_total f (map_of xs) = sum_list (map (f \<circ> snd) xs)"
  using assms
proof (induction xs)
  case (Cons x xs)
  obtain n u where x: "x = (n, u)" by fastforce
  have notin: "n \<notin> dom (map_of xs)" using Cons.prems x by (simp add: dom_map_of_conv_image_fst)
  have "usage_total f (map_of (x # xs)) = f u + (\<Sum>m \<in> dom (map_of xs). f (the (((map_of xs)(n \<mapsto> u)) m)))"
    unfolding usage_total_def x using notin finite_dom_map_of [of xs] by (simp add: dom_map_of_conv_image_fst)
  also have "(\<Sum>m \<in> dom (map_of xs). f (the (((map_of xs)(n \<mapsto> u)) m))) = usage_total f (map_of xs)"
    unfolding usage_total_def using notin by (intro sum.cong) auto
  finally show ?case using Cons x by simp
qed (simp add: usage_total_def)

definition check_ok :: "capacity_config \<Rightarrow> capacity_world \<Rightarrow> sandbox_ref \<Rightarrow> managed_sandbox list \<Rightarrow> bool" where
  "check_ok config w ref ss \<longleftrightarrow>
     distinct (map ms_name ss) \<and> sr_name ref \<notin> names (cw_reservations w) \<and> cw_uncreated w \<inter> ms_name ` set ss = {} \<and>
     (\<forall>s \<in> set ss. \<exists>u. usageForSandbox config s = Inr u) \<and>
     (\<forall>s \<in> set ss. ms_name s = sr_name ref \<longrightarrow> usageForSandbox config s = usageForRef config ref) \<and>
     (\<forall>s \<in> set ss. \<forall>u. (ms_name s, u) \<in> set (cw_reservations w) \<longrightarrow> usageForSandbox config s = Inr u) \<and>
     (\<forall>(n, u) \<in> set (cw_cluster w).
        (\<exists>s \<in> set ss. ms_name s = n \<and> usageForSandbox config s = Inr u) \<or> n \<in> names (cw_reservations w) \<and> n \<notin> ms_name ` set ss)"

definition world_ok :: "capacity_config \<Rightarrow> capacity_world \<Rightarrow> bool" where
  "world_ok config w \<longleftrightarrow>
     distinct (map fst (cw_cluster w)) \<and> distinct (map fst (cw_reservations w)) \<and>
     (\<forall>(n, u) \<in> set (cw_cluster w) \<union> set (cw_reservations w). usage_ok u) \<and>
     (\<forall>n u u'. (n, u) \<in> set (cw_cluster w) \<longrightarrow> (n, u') \<in> set (cw_reservations w) \<longrightarrow> u = u') \<and>
     cw_uncreated w \<subseteq> names (cw_reservations w) \<and> cw_uncreated w \<inter> names (cw_cluster w) = {} \<and>
     map_fits config (committed (cw_cluster w) (cw_reservations w)) \<and>
     (\<forall>ref ss. cw_check w = Some (ref, ss) \<longrightarrow> check_ok config w ref ss)"

lemma world_okD:
  assumes "world_ok config w"
  shows "distinct (map fst (cw_cluster w))" "distinct (map fst (cw_reservations w))"
    "\<And>n u. (n, u) \<in> set (cw_cluster w) \<or> (n, u) \<in> set (cw_reservations w) \<Longrightarrow> usage_ok u"
    "\<And>n u u'. (n, u) \<in> set (cw_cluster w) \<Longrightarrow> (n, u') \<in> set (cw_reservations w) \<Longrightarrow> u = u'"
    "cw_uncreated w \<subseteq> names (cw_reservations w)" "cw_uncreated w \<inter> names (cw_cluster w) = {}"
    "map_fits config (committed (cw_cluster w) (cw_reservations w))"
    "\<And>ref ss. cw_check w = Some (ref, ss) \<Longrightarrow> check_ok config w ref ss"
  using assms by (auto simp: world_ok_def)

lemma committed_Some:
  assumes "distinct (map fst cl)" "distinct (map fst rs)"
    "\<forall>n u u'. (n, u) \<in> set cl \<longrightarrow> (n, u') \<in> set rs \<longrightarrow> u = u'"
  shows "committed cl rs n = Some u \<longleftrightarrow> (n, u) \<in> set cl \<or> (n, u) \<in> set rs"
proof (cases "map_of cl n")
  case None
  then have "\<forall>u. (n, u) \<notin> set cl" by (auto simp: map_of_eq_None_iff image_iff)
  then show ?thesis using None assms(2) by (auto simp: committed_def map_add_def)
next
  case (Some v)
  then have v: "(n, v) \<in> set cl" by (rule map_of_SomeD)
  have "(n, u) \<in> set cl \<longleftrightarrow> u = v" using v assms(1) by (metis map_of_eq_Some_iff option.inject)
  moreover have "(n, u) \<in> set rs \<Longrightarrow> u = v" using v assms(3) by blast
  ultimately show ?thesis using Some by (auto simp: committed_def map_add_def)
qed

lemma committed_finite [simp]: "finite (dom (committed cl rs))"
  by (simp add: committed_def finite_dom_map_of)

lemma committed_world:
  "world_ok config w \<Longrightarrow>
   committed (cw_cluster w) (cw_reservations w) n = Some u \<longleftrightarrow> (n, u) \<in> set (cw_cluster w) \<or> (n, u) \<in> set (cw_reservations w)"
  unfolding world_ok_def by (intro committed_Some) auto

lemma world_fits_less:
  assumes "world_ok config w"
    and "\<And>n u. committed cl rs n = Some u \<Longrightarrow> (n, u) \<in> set (cw_cluster w) \<or> (n, u) \<in> set (cw_reservations w)"
  shows "map_fits config (committed cl rs)"
proof (rule map_fits_mono)
  show "committed cl rs \<subseteq>\<^sub>m committed (cw_cluster w) (cw_reservations w)"
  proof (unfold map_le_def, intro ballI)
    fix n assume "n \<in> dom (committed cl rs)"
    then obtain u where u: "committed cl rs n = Some u" by blast
    then have "committed (cw_cluster w) (cw_reservations w) n = Some u"
      using assms(2) [OF u] committed_world [OF assms(1), of n u] by blast
    with u show "committed cl rs n = committed (cw_cluster w) (cw_reservations w) n" by simp
  qed
  show "map_fits config (committed (cw_cluster w) (cw_reservations w))" using assms(1) by (simp add: world_ok_def)
  show "usage_ok u" if "committed (cw_cluster w) (cw_reservations w) n = Some u" for n u
    using that committed_world [OF assms(1)] world_okD(3) [OF assms(1)] by blast
qed simp

lemma committed_member: "committed cl rs n = Some u \<Longrightarrow> (n, u) \<in> set cl \<or> (n, u) \<in> set rs"
  by (auto simp: committed_def map_add_def split: option.splits dest: map_of_SomeD)

lemma listing_names: "listing config cl ss \<Longrightarrow> map ms_name ss = map fst cl"
proof -
  assume "listing config cl ss"
  then have "map fst (map (\<lambda>s. (ms_name s, usageForSandbox config s)) ss) = map fst (map (\<lambda>(n, u). (n, Inr u :: capacity_error + resource_usage)) cl)"
    by (simp only: listing_def)
  then show ?thesis by (simp add: comp_def case_prod_beta)
qed

lemma listing_set:
  assumes "listing config cl ss"
  shows "s \<in> set ss \<Longrightarrow> \<exists>u. (ms_name s, u) \<in> set cl \<and> usageForSandbox config s = Inr u"
    and "(n, u) \<in> set cl \<Longrightarrow> \<exists>s \<in> set ss. ms_name s = n \<and> usageForSandbox config s = Inr u"
proof -
  have eq: "(\<lambda>s. (ms_name s, usageForSandbox config s)) ` set ss = (\<lambda>(n, u). (n, Inr u)) ` set cl"
    using arg_cong [OF assms [unfolded listing_def], of set] by (simp only: set_map)
  show "\<exists>u. (ms_name s, u) \<in> set cl \<and> usageForSandbox config s = Inr u" if "s \<in> set ss"
  proof -
    have "(ms_name s, usageForSandbox config s) \<in> (\<lambda>(n, u). (n, Inr u)) ` set cl" using that eq by blast
    then show ?thesis by auto
  qed
  show "\<exists>s \<in> set ss. ms_name s = n \<and> usageForSandbox config s = Inr u" if "(n, u) \<in> set cl"
  proof -
    have "(n, Inr u) \<in> (\<lambda>s. (ms_name s, usageForSandbox config s)) ` set ss" unfolding eq using that by force
    then show ?thesis by auto
  qed
qed

lemma world_okI:
  assumes "distinct (map fst (cw_cluster w))" "distinct (map fst (cw_reservations w))"
    and "\<And>n u. (n, u) \<in> set (cw_cluster w) \<or> (n, u) \<in> set (cw_reservations w) \<Longrightarrow> usage_ok u"
    and "\<And>n u u'. (n, u) \<in> set (cw_cluster w) \<Longrightarrow> (n, u') \<in> set (cw_reservations w) \<Longrightarrow> u = u'"
    and "cw_uncreated w \<subseteq> names (cw_reservations w)" "cw_uncreated w \<inter> names (cw_cluster w) = {}"
    and "map_fits config (committed (cw_cluster w) (cw_reservations w))"
    and "\<And>ref ss. cw_check w = Some (ref, ss) \<Longrightarrow> check_ok config w ref ss"
  shows "world_ok config w"
  using assms unfolding world_ok_def by blast

lemma list_step_ok:
  assumes ok: "world_ok config w" and "cw_check w = None" "listing config (cw_cluster w) ss" "sr_name ref \<notin> names (cw_reservations w)"
    "\<And>s. s \<in> set ss \<Longrightarrow> ms_name s = sr_name ref \<Longrightarrow> usageForSandbox config s = usageForRef config ref"
  shows "world_ok config (w\<lparr>cw_check := Some (ref, ss)\<rparr>)"
proof -
  note nm = listing_names [OF assms(3)] and ls = listing_set [OF assms(3)]
  have sets: "ms_name ` set ss = names (cw_cluster w)" using arg_cong [OF nm, of set] by simp
  have "check_ok config (w\<lparr>cw_check := Some (ref, ss)\<rparr>) ref ss"
    unfolding check_ok_def
  proof (intro conjI)
    show "distinct (map ms_name ss)" using nm world_okD(1) [OF ok] by simp
    show "cw_uncreated (w\<lparr>cw_check := Some (ref, ss)\<rparr>) \<inter> ms_name ` set ss = {}" using sets world_okD(6) [OF ok] by simp
    show "\<forall>s \<in> set ss. \<forall>u. (ms_name s, u) \<in> set (cw_reservations (w\<lparr>cw_check := Some (ref, ss)\<rparr>)) \<longrightarrow> usageForSandbox config s = Inr u"
      using ls(1) world_okD(4) [OF ok] by fastforce
    show "\<forall>s \<in> set ss. \<exists>u. usageForSandbox config s = Inr u" using ls(1) by blast
  qed (use assms ls(2) in auto)
  then show ?thesis using world_okD [OF ok] by (intro world_okI) auto
qed

lemma create_step_ok:
  assumes ok: "world_ok config w" and "n \<in> cw_uncreated w" "(n, u) \<in> set (cw_reservations w)" "n \<notin> names (cw_cluster w)"
  shows "world_ok config (w\<lparr>cw_cluster := cw_cluster w @ [(n, u)], cw_uncreated := cw_uncreated w - {n}\<rparr>)" (is "world_ok config ?w")
proof (rule world_okI)
  show "map_fits config (committed (cw_cluster ?w) (cw_reservations ?w))"
    using assms(3) by (intro world_fits_less [OF ok]) (auto dest!: committed_member)
  show "usage_ok v" if "(m, v) \<in> set (cw_cluster ?w) \<or> (m, v) \<in> set (cw_reservations ?w)" for m v
    using that world_okD(3) [OF ok] assms(3) by auto
  show "v = v'" if "(m, v) \<in> set (cw_cluster ?w)" "(m, v') \<in> set (cw_reservations ?w)" for m v v'
    using that world_okD(2,4) [OF ok] assms(3) by (auto dest: eq_key_imp_eq_value)
  show "check_ok config ?w ref ss" if "cw_check ?w = Some (ref, ss)" for ref ss
    using that world_okD(8) [OF ok, of ref ss] assms(2,3) unfolding check_ok_def by (auto simp: image_iff) (metis fst_conv)+
qed (use world_okD [OF ok] assms in auto)

lemma gone_step_ok:
  assumes ok: "world_ok config w"
  shows "world_ok config (w\<lparr>cw_cluster := filter P (cw_cluster w)\<rparr>)" (is "world_ok config ?w")
proof (rule world_okI)
  show "map_fits config (committed (cw_cluster ?w) (cw_reservations ?w))"
    by (intro world_fits_less [OF ok]) (auto dest!: committed_member)
  show "distinct (map fst (cw_cluster ?w))" using world_okD(1) [OF ok] by (simp add: distinct_map_filter)
  show "check_ok config ?w ref ss" if "cw_check ?w = Some (ref, ss)" for ref ss
    using that world_okD(8) [OF ok, of ref ss] unfolding check_ok_def by auto
qed (use world_okD [OF ok] in auto)

lemma release_step_ok:
  assumes ok: "world_ok config w"
    and orderly: "\<And>ref ss. n \<in> names (cw_cluster w) \<Longrightarrow> cw_check w = Some (ref, ss) \<Longrightarrow> n \<in> ms_name ` set ss"
  shows "world_ok config (w\<lparr>cw_reservations := release n (cw_reservations w), cw_uncreated := cw_uncreated w - {n}\<rparr>)" (is "world_ok config ?w")
proof (rule world_okI)
  have rel: "set (cw_reservations ?w) = {(m, u) \<in> set (cw_reservations w). m \<noteq> n}"
    by (auto simp: release_def AList.delete_eq)
  show "map_fits config (committed (cw_cluster ?w) (cw_reservations ?w))"
    using rel by (intro world_fits_less [OF ok]) (auto dest!: committed_member)
  show "distinct (map fst (cw_reservations ?w))" using world_okD(2) [OF ok] by (simp add: release_def distinct_delete)
  show "usage_ok v" if "(m, v) \<in> set (cw_cluster ?w) \<or> (m, v) \<in> set (cw_reservations ?w)" for m v
    using that world_okD(3) [OF ok] unfolding rel by auto
  show "v = v'" if "(m, v) \<in> set (cw_cluster ?w)" "(m, v') \<in> set (cw_reservations ?w)" for m v v'
    using that world_okD(4) [OF ok] unfolding rel by auto
  show "cw_uncreated ?w \<subseteq> names (cw_reservations ?w)" using world_okD(5) [OF ok] unfolding rel by force
  show "check_ok config ?w ref ss" if "cw_check ?w = Some (ref, ss)" for ref ss
  proof -
    have c: "check_ok config w ref ss" and listed: "n \<in> names (cw_cluster w) \<Longrightarrow> n \<in> ms_name ` set ss"
      using that world_okD(8) [OF ok] orderly by auto
    have nm: "names (cw_reservations ?w) = names (cw_reservations w) - {n}" unfolding rel by force
    have "(\<exists>s \<in> set ss. ms_name s = m \<and> usageForSandbox config s = Inr u) \<or> m \<in> names (cw_reservations w) - {n} \<and> m \<notin> ms_name ` set ss"
      if "(m, u) \<in> set (cw_cluster w)" for m u
    proof -
      have "m \<in> names (cw_cluster w)" using that by force
      then show ?thesis using that c listed unfolding check_ok_def by blast
    qed
    then have key: "\<forall>(m, u) \<in> set (cw_cluster w).
        (\<exists>s \<in> set ss. ms_name s = m \<and> usageForSandbox config s = Inr u) \<or> m \<in> names (cw_reservations w) - {n} \<and> m \<notin> ms_name ` set ss"
      by blast
    have sub: "set (cw_reservations ?w) \<subseteq> set (cw_reservations w)" unfolding rel by blast
    show ?thesis
      unfolding check_ok_def nm
    proof (intro conjI)
      show "\<forall>s \<in> set ss. \<forall>u. (ms_name s, u) \<in> set (cw_reservations ?w) \<longrightarrow> usageForSandbox config s = Inr u"
        using c sub unfolding check_ok_def by blast
      show "cw_uncreated ?w \<inter> ms_name ` set ss = {}" using c unfolding check_ok_def by auto
    qed (use c key in \<open>simp_all add: check_ok_def\<close>)
  qed
qed (use world_okD [OF ok] in auto)

lemma clear_check_ok: "world_ok config w \<Longrightarrow> world_ok config (w\<lparr>cw_check := None\<rparr>)"
  by (simp add: world_ok_def)

lemma update_fresh: "n \<notin> names rs \<Longrightarrow> AList.update n u rs = rs @ [(n, u)]"
  by (induction rs) auto

lemma enforce_Inr:
  assumes "enforceSandboxCapacity ss n desired pending config allow canEvict evict now = (evicted, Inr snap)" "distinct ss"
  shows "\<exists>es v. set es \<subseteq> {s \<in> set ss. ms_name s \<noteq> n} \<and> distinct es \<and> evicted = map ms_name es \<and>
    (\<forall>s \<in> set es. ms_phase s = Some ''Paused'' \<and> canEvict s \<and> evict s = Inr True) \<and> snap = snapshotForUsage v config \<and> fits config v \<and>
    (\<forall>f \<in> usage_parts. f pending + f desired + sum_list (map (\<lambda>s. f (usage_of config s)) (filter (\<lambda>s. ms_name s \<noteq> n) ss)) -
       sum_list (map (\<lambda>s. f (usage_of config s)) es) \<le> f v)"
proof -
  obtain u where u: "add_all (\<lambda>s. ms_name s \<noteq> n) config ss (addUsage pending desired) = Inr u"
    using assms(1) by (auto simp: enforceSandboxCapacity_def split: sum.splits)
  have fu: "f u = f pending + f desired + sum_list (map (\<lambda>s. f (usage_of config s)) (filter (\<lambda>s. ms_name s \<noteq> n) ss))"
    if "f \<in> usage_parts" for f using add_all_Inr [OF u that] usage_parts_simps(2) [OF that] by simp
  show ?thesis
  proof (cases "capacityExceeded (snapshotForUsage u config)")
    case False
    then show ?thesis
      using assms(1) u fu by (intro exI [of _ "[]"] exI [of _ u]) (simp add: enforceSandboxCapacity_def Let_def fits_def)
  next
    case True
    obtain cands where c: "eviction_candidates ss n canEvict now = Inr cands" "evict_loop config evict cands u [] = (evicted, Inr snap)"
      using assms(1) u True by (auto simp: enforceSandboxCapacity_def Let_def split: if_splits sum.splits)
    have cs: "set cands \<subseteq> {s \<in> set ss. ms_name s \<noteq> n \<and> ms_phase s = Some ''Paused'' \<and> canEvict s}" "distinct cands"
      using c(1) assms(2) by (auto simp: eviction_candidates_def Let_def split: if_splits)
    from evict_loop_Inr [OF c(2)] obtain es v where e: "set es \<subseteq> set cands" "distinct cands \<longrightarrow> distinct es" "evicted = map ms_name es"
      "\<forall>s \<in> set es. evict s = Inr True" "snap = snapshotForUsage v config" "fits config v"
      "\<forall>f \<in> usage_parts. f u - sum_list (map (\<lambda>s. f (usage_of config s)) es) \<le> f v" by auto
    show ?thesis
    proof (intro exI conjI)
      show "\<forall>f \<in> usage_parts. f pending + f desired + sum_list (map (\<lambda>s. f (usage_of config s)) (filter (\<lambda>s. ms_name s \<noteq> n) ss)) -
          sum_list (map (\<lambda>s. f (usage_of config s)) es) \<le> f v" using e(7) fu by simp
    qed (use e cs in auto)
  qed
qed

lemma sum_list_minus_subset:
  fixes g :: "'a \<Rightarrow> int"
  assumes "distinct xs" "distinct es" "set es \<subseteq> set xs"
  shows "sum_list (map g xs) - sum_list (map g es) = sum_list (map g (filter (\<lambda>x. x \<notin> set es) xs))"
proof -
  have "sum g (set xs) = sum g (set xs - set es) + sum g (set es)" using assms(3) by (intro sum.subset_diff) auto
  moreover have "set (filter (\<lambda>x. x \<notin> set es) xs) = set xs - set es" by auto
  ultimately show ?thesis using assms by (simp add: sum_list_distinct_conv_sum_set)
qed

lemma admitted_fits:
  assumes c: "check_ok config w ref ss" and agree: "\<And>n u u'. (n, u) \<in> set (cw_cluster w) \<Longrightarrow> (n, u') \<in> set (cw_reservations w) \<Longrightarrow> u = u'"
    and rsd: "distinct (map fst (cw_reservations w))"
    and desired: "usageForRef config ref = Inr desired"
    and adm: "admission_check config skip ao (sr_name ref) desired ss (cw_reservations w) = (evicted, Inr snap)"
    and free: "set evicted \<inter> names (cw_reservations w) = {}"
    and rsok: "\<And>n u. (n, u) \<in> set (cw_reservations w) \<Longrightarrow> usage_ok u"
  shows "map_fits config (committed (filter (\<lambda>(n, u). n \<notin> set evicted) (cw_cluster w)) (cw_reservations w @ [(sr_name ref, desired)]))"
proof -
  let ?n = "sr_name ref" and ?rs = "cw_reservations w" and ?cl = "filter (\<lambda>(n, u). n \<notin> set evicted) (cw_cluster w)"
  have dn: "distinct (map ms_name ss)" using c by (simp add: check_ok_def)
  then have ds: "distinct ss" by (simp add: distinct_map)
  have fresh: "?n \<notin> names ?rs" using c by (simp add: check_ok_def)
  from enforce_Inr [OF adm [unfolded admission_check_def] ds] obtain es v where
    es: "set es \<subseteq> {s \<in> set ss. ms_name s \<noteq> ?n}" "distinct es" "evicted = map ms_name es" "fits config v" and
    bound: "\<And>f. f \<in> usage_parts \<Longrightarrow> f (pendingUsage (ms_name ` set ss) ?n ?rs) + f desired +
       sum_list (map (\<lambda>s. f (usage_of config s)) (filter (\<lambda>s. ms_name s \<noteq> ?n) ss)) - sum_list (map (\<lambda>s. f (usage_of config s)) es) \<le> f v"
    by blast
  let ?pend = "filter (\<lambda>(m, u). m \<noteq> ?n \<and> m \<notin> ms_name ` set ss) ?rs"
  let ?rest = "filter (\<lambda>s. s \<notin> set es) (filter (\<lambda>s. ms_name s \<noteq> ?n) ss)"
  let ?q = "(?n, desired) # ?pend @ map (\<lambda>s. (ms_name s, usage_of config s)) ?rest"
  have usage: "usageForSandbox config s = Inr (usage_of config s)" if "s \<in> set ss" for s
    using c that by (auto simp: check_ok_def usage_of_def)
  have dq: "distinct (map fst ?q)"
  proof -
    have "distinct (map fst ?pend)" using rsd by (simp add: distinct_map_filter)
    moreover have "distinct (map ms_name ?rest)" using dn by (simp add: distinct_map_filter)
    ultimately show ?thesis by (auto simp: comp_def)
  qed
  have tot: "usage_total f (map_of ?q) \<le> f v" if f: "f \<in> usage_parts" for f
  proof -
    have "usage_total f (map_of ?q) = f desired + sum_list (map (f \<circ> snd) ?pend) + sum_list (map (\<lambda>s. f (usage_of config s)) ?rest)"
      by (subst total_map_of [OF dq]) (simp add: comp_def)
    also have "sum_list (map (\<lambda>s. f (usage_of config s)) ?rest) =
        sum_list (map (\<lambda>s. f (usage_of config s)) (filter (\<lambda>s. ms_name s \<noteq> ?n) ss)) - sum_list (map (\<lambda>s. f (usage_of config s)) es)"
      using sum_list_minus_subset [of "filter (\<lambda>s. ms_name s \<noteq> ?n) ss" es "\<lambda>s. f (usage_of config s)"] es(1,2) ds by auto
    finally show ?thesis using bound [OF f, unfolded pendingUsage_part [OF f]] by linarith
  qed
  have not_evicted: "s \<notin> set es" if "ms_name s \<notin> set evicted" for s using that es(3) by auto
  have in_rest: "(ms_name s, usage_of config s) \<in> set ?q" if "s \<in> set ss" "ms_name s \<noteq> ?n" "ms_name s \<notin> set evicted" for s
    using that not_evicted by auto
  have member: "(m, u) \<in> set ?q" if mu: "committed ?cl (?rs @ [(?n, desired)]) m = Some u" for m u
  proof -
    consider (cl) "(m, u) \<in> set (cw_cluster w)" "m \<notin> set evicted" | (rs) "(m, u) \<in> set ?rs" | (new) "m = ?n" "u = desired"
      using committed_member [OF mu] by auto
    then show ?thesis
    proof cases
      case cl
      then consider (listed) s where "s \<in> set ss" "ms_name s = m" "usageForSandbox config s = Inr u"
        | (reserved) "m \<in> names ?rs" "m \<notin> ms_name ` set ss"
        using c unfolding check_ok_def by blast
      then show ?thesis
      proof cases
        case listed
        then have "usage_of config s = u" by (simp add: usage_of_def)
        moreover have "u = desired" if "m = ?n" using c listed desired that unfolding check_ok_def by auto
        ultimately show ?thesis using in_rest [OF listed(1)] listed(2) cl(2) by (cases "m = ?n") auto
      next
        case reserved
        then obtain u' where "(m, u') \<in> set ?rs" by auto
        moreover have "m \<noteq> ?n" using fresh reserved(1) by blast
        ultimately show ?thesis using agree [OF cl(1)] reserved(2) by fastforce
      qed
    next
      case rs
      then have ne: "m \<noteq> ?n" using fresh by force
      show ?thesis
      proof (cases "m \<in> ms_name ` set ss")
        case True
        then obtain s where s: "s \<in> set ss" "m = ms_name s" by blast
        have "usageForSandbox config s = Inr u" using c s rs unfolding check_ok_def by blast
        then have "usage_of config s = u" by (simp add: usage_of_def)
        moreover have "m \<notin> set evicted" using free rs by force
        ultimately show ?thesis using in_rest [OF s(1)] s(2) ne by simp
      qed (use rs ne in auto)
    qed simp
  qed
  have ok: "usage_ok u" if "map_of ?q m = Some u" for m u
  proof -
    from that have "(m, u) \<in> set ?q" by (rule map_of_SomeD)
    then show ?thesis using rsok usage_ok_sources(1) [OF usage] usage_ok_sources(2) [OF desired] by auto
  qed
  have le: "committed ?cl (?rs @ [(?n, desired)]) \<subseteq>\<^sub>m map_of ?q"
  proof (unfold map_le_def, intro ballI)
    fix m assume "m \<in> dom (committed ?cl (?rs @ [(?n, desired)]))"
    then obtain u where u: "committed ?cl (?rs @ [(?n, desired)]) m = Some u" by blast
    then show "committed ?cl (?rs @ [(?n, desired)]) m = map_of ?q m" using map_of_is_SomeI [OF dq member [OF u]] by simp
  qed
  have mf: "map_fits config (map_of ?q)" using es(4) tot unfolding map_fits_def by blast
  show ?thesis by (rule map_fits_mono [OF le finite_dom_map_of _ mf]) (rule ok)
qed

lemma admit_step_ok:
  assumes ok: "world_ok config w" and chk: "cw_check w = Some (ref, ss)"
    and res: "reserveSandboxCapacity config skip ao ref ss (cw_reservations w) = (rs, evicted, r)"
    and free: "set evicted \<inter> names (cw_reservations w) = {}"
  shows "world_ok config (w\<lparr>cw_cluster := filter (\<lambda>(n, u). n \<notin> set evicted) (cw_cluster w), cw_reservations := rs,
       cw_uncreated := (if r = Inr () \<and> sr_name ref \<in> names rs \<and> sr_name ref \<notin> ms_name ` set ss
                        then insert (sr_name ref) (cw_uncreated w) else cw_uncreated w),
       cw_check := None\<rparr>)"
proof (cases "rs = cw_reservations w")
  case True
  have c: "check_ok config w ref ss" by (rule world_okD(8) [OF ok chk])
  then have "sr_name ref \<notin> names rs" using True by (simp add: check_ok_def)
  moreover have "world_ok config (w\<lparr>cw_cluster := filter (\<lambda>(n, u). n \<notin> set evicted) (cw_cluster w), cw_check := None\<rparr>)"
    using clear_check_ok [OF gone_step_ok [OF ok]] by simp
  ultimately show ?thesis using True by simp
next
  case False
  let ?n = "sr_name ref" and ?cl = "filter (\<lambda>(n, u). n \<notin> set evicted) (cw_cluster w)"
  have c: "check_ok config w ref ss" by (rule world_okD(8) [OF ok chk])
  then have fresh: "?n \<notin> names (cw_reservations w)" by (simp add: check_ok_def)
  obtain desired snap where d: "usageForRef config ref = Inr desired"
    and adm: "admission_check config skip ao ?n desired ss (cw_reservations w) = (evicted, Inr snap)"
    and rs: "rs = reserve_set ?n desired (cw_reservations w)" and r: "r = Inr ()"
    using res False by (auto simp: reserveSandboxCapacity_def split: if_splits sum.splits prod.splits)
  have rs: "rs = cw_reservations w @ [(?n, desired)]" using rs update_fresh [OF fresh] by (simp add: reserve_set_def)
  have fits: "map_fits config (committed ?cl rs)"
    unfolding rs using world_okD(2,3,4) [OF ok] by (intro admitted_fits [OF c _ _ d adm free]) blast+
  have listed: "\<exists>s \<in> set ss. ms_name s = ?n \<and> usageForSandbox config s = Inr u" if "(?n, u) \<in> set (cw_cluster w)" for u
    using c that fresh unfolding check_ok_def by blast
  have cl_n: "u = desired" if here: "(?n, u) \<in> set (cw_cluster w)" for u
  proof -
    obtain s where "s \<in> set ss" "ms_name s = ?n" "usageForSandbox config s = Inr u" using listed [OF here] by blast
    then show ?thesis using c d unfolding check_ok_def by auto
  qed
  have cl_new: "?n \<notin> names (cw_cluster w)" if "?n \<notin> ms_name ` set ss" using listed that by force
  let ?un = "if r = Inr () \<and> ?n \<in> names rs \<and> ?n \<notin> ms_name ` set ss then insert ?n (cw_uncreated w) else cw_uncreated w"
  let ?w = "w\<lparr>cw_cluster := ?cl, cw_reservations := rs, cw_uncreated := ?un, cw_check := None\<rparr>"
  have sel: "cw_cluster ?w = ?cl" "cw_reservations ?w = rs" "cw_uncreated ?w = ?un" "cw_check ?w = None" by simp_all
  show ?thesis
  proof (rule world_okI, unfold sel)
    show "map_fits config (committed ?cl rs)" by (rule fits)
    show "distinct (map fst ?cl)" using world_okD(1) [OF ok] by (simp add: distinct_map_filter)
    show "distinct (map fst rs)" using world_okD(2) [OF ok] fresh rs by simp
    show "usage_ok u" if "(m, u) \<in> set ?cl \<or> (m, u) \<in> set rs" for m u
      using that world_okD(3) [OF ok] usage_ok_sources(2) [OF d] rs by auto
    show "u = u'" if "(m, u) \<in> set ?cl" "(m, u') \<in> set rs" for m u u'
      using that world_okD(4) [OF ok] cl_n rs by auto
    show "?un \<subseteq> names rs" using world_okD(5) [OF ok] rs by auto
    show "?un \<inter> names ?cl = {}" using world_okD(6) [OF ok] cl_new by auto
  qed simp
qed

lemma capacity_step_ok:
  assumes "capacity_step True config w w'" "world_ok config w"
  shows "world_ok config w'"
  using assms(1)
proof cases
  case (list_step ss ref)
  show ?thesis unfolding list_step(1) by (rule list_step_ok [OF assms(2) list_step(2-4)]) (rule list_step(5))
next
  case (admit_step ref ss skip ao rs evicted r)
  show ?thesis unfolding admit_step(1) by (rule admit_step_ok [OF assms(2) admit_step(2-4)])
next
  case (create_step n u)
  show ?thesis unfolding create_step(1) by (rule create_step_ok [OF assms(2) create_step(2-4)])
next
  case (gone_step n)
  show ?thesis unfolding gone_step by (rule gone_step_ok [OF assms(2)])
next
  case (release_step n)
  show ?thesis unfolding release_step(1) using release_step(2) by (intro release_step_ok [OF assms(2)]) blast
qed

lemma empty_world_ok: "world_ok config empty_world"
proof -
  have "fits config zeroUsage"
    by (simp add: fits_def capacityExceeded_def snapshotForUsage_def exceeds_def zeroUsage_def)
  then have "map_fits config Map.empty"
    unfolding map_fits_def usage_total_def by (auto intro!: exI [of _ zeroUsage] simp: usage_parts_simps)
  then show ?thesis by (simp add: world_ok_def empty_world_def committed_def)
qed

lemma reachable_ok: "reachable_world True config w \<Longrightarrow> world_ok config w"
  unfolding reachable_world_def
  by (induction rule: rtranclp_induct) (auto intro: empty_world_ok capacity_step_ok)

lemma evict_loop_evicted:
  "fst (evict_loop config evict cands u ev0) = ev \<Longrightarrow> set ev \<subseteq> set ev0 \<union> ms_name ` {s \<in> set cands. evict s = Inr True}"
proof (induction cands arbitrary: u ev0)
  case (Cons s rest)
  consider (err) e where "evict s = Inl e" | (no) "evict s = Inr False" | (yes) "evict s = Inr True" by (cases "evict s") auto
  then show ?case
  proof cases
    case yes
    show ?thesis
    proof (cases "usageForSandbox config s")
      case (Inr v)
      show ?thesis
      proof (cases "capacityExceeded (snapshotForUsage (subtractUsage u v) config)")
        case True
        then have "fst (evict_loop config evict rest (subtractUsage u v) (ev0 @ [ms_name s])) = ev"
          using Cons.prems yes Inr by (simp add: Let_def)
        from Cons.IH [OF this] show ?thesis using yes by auto
      qed (use Cons.prems yes Inr in \<open>auto simp: Let_def\<close>)
    qed (use Cons.prems yes in auto)
  qed (use Cons in auto)
qed simp

lemma enforce_evicted:
  assumes "fst (enforceSandboxCapacity ss n desired pending config allow canEvict evict now) = evicted" "m \<in> set evicted"
  shows "allow \<and> (\<exists>s \<in> set ss. ms_name s = m \<and> m \<noteq> n \<and> ms_phase s = Some ''Paused'' \<and> canEvict s \<and> evict s = Inr True)"
proof -
  obtain u cands where u: "allow" "eviction_candidates ss n canEvict now = Inr cands" "fst (evict_loop config evict cands u []) = evicted"
    using assms by (fastforce simp: enforceSandboxCapacity_def Let_def split: sum.splits if_splits)
  have "set cands \<subseteq> {s \<in> set ss. ms_name s \<noteq> n \<and> ms_phase s = Some ''Paused'' \<and> canEvict s}"
    using u(2) by (auto simp: eviction_candidates_def Let_def split: if_splits)
  then show ?thesis using evict_loop_evicted [OF u(3)] u(1) assms(2) by fastforce
qed

section \<open>Claims\<close>


text \<open>Admission evicts only idle paused sandboxes: a name it evicts, whether or not the admission succeeds, is that of
  another listed sandbox in phase \<open>Paused\<close>, without use in this process, lease or background protection both when
  the candidates were chosen and when the eviction was asked for, and eviction was enabled.\<close>

theorem evicts_only_idle:
  assumes "reserveSandboxCapacity config skip ao ref ss rs = (rs', evicted, r)" "m \<in> set evicted"
  shows "cc_lifecycleEnabled config \<and> \<not> skip \<and>
    (\<exists>s \<in> set ss. ms_name s = m \<and> m \<noteq> sr_name ref \<and> ms_phase s = Some ''Paused'' \<and>
       evictable_at (ao_busy ao) (ao_canEvictNow ao) s \<and> evictable_at (ao_busyLater ao) (ao_evictNow ao) s \<and> ao_evict ao m = Inr True)"
proof -
  obtain desired where d: "usageForRef config ref = Inr desired" "\<not> unlimited config"
    using assms by (auto simp: reserveSandboxCapacity_def split: if_splits sum.splits)
  then have "fst (admission_check config skip ao (sr_name ref) desired ss rs) = evicted"
    using assms(1) by (auto simp: reserveSandboxCapacity_def split: sum.splits prod.splits)
  from enforce_evicted [OF this [unfolded admission_check_def] assms(2)] show ?thesis
    by (auto split: if_splits)
qed

definition demo_capacity :: capacity_config where
  "demo_capacity =
     \<lparr>cc_cpuRequest = None, cc_cpuLimit = None, cc_memoryRequest = None, cc_memoryLimit = None,
      cc_maxRunningSandboxes = 1, cc_maxAllocatedCpuMillicores = 0, cc_maxAllocatedMemoryMib = 0, cc_lifecycleEnabled = True\<rparr>"

definition demo_usage :: resource_usage where
  "demo_usage = \<lparr>ru_count = 1, ru_cpuMillicores = 0, ru_memoryBytes = 0\<rparr>"

definition demo_ref :: "string \<Rightarrow> sandbox_ref" where
  "demo_ref n = \<lparr>sr_name = n, sr_cpuRequest = None, sr_cpuLimit = None, sr_memoryRequest = None, sr_memoryLimit = None\<rparr>"

definition demo_admission :: admission_obs where
  "demo_admission =
     \<lparr>ao_busy = (\<lambda>_. False), ao_busyLater = (\<lambda>_. False), ao_evict = (\<lambda>_. Inr True), ao_canEvictNow = 1, ao_sortNow = 1, ao_evictNow = 1\<rparr>"

lemma demo_usages:
  "usageForRef demo_capacity (demo_ref n) = Inr demo_usage" "usageForSandbox demo_capacity demo_sandbox = Inr demo_usage"
  by (simp_all add: usageForRef_def usageForSandbox_def usageFromQuantities_def demo_capacity_def demo_ref_def demo_usage_def
      parseCpuMillicores_def parseMemoryBytes_def)

lemma demo_fits:
  "\<not> capacityExceeded (snapshotForUsage (addUsage zeroUsage demo_usage) demo_capacity)"
  "capacityExceeded (snapshotForUsage (addUsage (addUsage zeroUsage demo_usage) demo_usage) demo_capacity)"
  "\<not> capacityExceeded (snapshotForUsage (subtractUsage (addUsage (addUsage zeroUsage demo_usage) demo_usage) demo_usage) demo_capacity)"
  by (simp_all add: capacityExceeded_def snapshotForUsage_def exceeds_def addUsage_def subtractUsage_def zeroUsage_def demo_usage_def
      demo_capacity_def maxMemoryBytes_def)

lemma demo_limited [simp]: "\<not> unlimited demo_capacity" "cc_lifecycleEnabled demo_capacity"
  by (simp_all add: unlimited_def demo_capacity_def)

lemma demo_names [simp]: "sr_name (demo_ref n) = n"
  by (simp add: demo_ref_def)

lemma demo_reserve_empty: "reserveSandboxCapacity demo_capacity False demo_admission (demo_ref n) [] [] = ([(n, demo_usage)], [], Inr ())"
  using demo_fits(1)
  by (simp add: reserveSandboxCapacity_def demo_usages admission_check_def enforceSandboxCapacity_def pendingUsage_def Let_def reserve_set_def)

lemma demo_reserve_evicting:
  "reserveSandboxCapacity demo_capacity False demo_admission (demo_ref ''b'') [demo_sandbox] [] = ([(''b'', demo_usage)], [''sb''], Inr ())"
  using demo_fits
  by (simp add: reserveSandboxCapacity_def demo_usages admission_check_def enforceSandboxCapacity_def pendingUsage_def Let_def reserve_set_def
      eviction_candidates_def js_sort_def evictable_at_def demo_admission_def)

lemma evicts_only_idle_witness: "evictable_at (\<lambda>_. False) 1 demo_sandbox"
  using evicts_only_idle [OF demo_reserve_evicting, of "''sb''"] by (auto simp: demo_admission_def)

definition demo_world :: capacity_world where
  "demo_world = \<lparr>cw_cluster = [(''sb'', demo_usage)], cw_reservations = [(''sb'', demo_usage)], cw_uncreated = {}, cw_check = None\<rparr>"

lemma demo_admit:
  assumes "cw_check w = Some (demo_ref n, [])" "cw_reservations w = []"
  shows "capacity_step b demo_capacity w
    (w\<lparr>cw_reservations := [(n, demo_usage)], cw_uncreated := insert n (cw_uncreated w), cw_check := None\<rparr>)"
  using admit_step [where w = w and config = demo_capacity and orderly = b and ref = "demo_ref n" and ss = "[]" and skip = False
      and ao = demo_admission and rs = "[(n, demo_usage)]" and evicted = "[]" and r = "Inr ()"] assms
  by (simp add: demo_reserve_empty case_prod_unfold)

lemma demo_first:
  "(capacity_step b demo_capacity)\<^sup>*\<^sup>* empty_world
     \<lparr>cw_cluster = [], cw_reservations = [(''sb'', demo_usage)], cw_uncreated = {''sb''}, cw_check = None\<rparr>"
proof -
  let ?w = "empty_world\<lparr>cw_check := Some (demo_ref ''sb'', [])\<rparr>"
  have "capacity_step b demo_capacity empty_world ?w"
    by (rule list_step) (auto simp: empty_world_def listing_def)
  moreover have "capacity_step b demo_capacity ?w
      \<lparr>cw_cluster = [], cw_reservations = [(''sb'', demo_usage)], cw_uncreated = {''sb''}, cw_check = None\<rparr>"
    using demo_admit [of ?w "''sb''" b] by (simp add: empty_world_def)
  ultimately show ?thesis by (meson rtranclp.rtrancl_refl rtranclp.rtrancl_into_rtrancl)
qed

lemma demo_world_reachable: "reachable_world True demo_capacity demo_world"
proof -
  let ?w = "\<lparr>cw_cluster = [], cw_reservations = [(''sb'', demo_usage)], cw_uncreated = {''sb''}, cw_check = None\<rparr>"
  have "capacity_step True demo_capacity ?w demo_world"
    using create_step [where w = ?w and n = "''sb''" and u = demo_usage and config = demo_capacity and orderly = True]
    by (simp add: demo_world_def)
  then show ?thesis using demo_first unfolding reachable_world_def by (meson rtranclp.rtrancl_into_rtrancl)
qed


text \<open>Without the proviso the limit can be passed. A check reads the list; a sandbox reserved before is created and its
  reservation released while the answer is on its way; the check then counts it neither as a resource nor as a
  reservation and admits one sandbox too many.\<close>

lemma stale_list_overcommits:
  "\<exists>w. reachable_world False demo_capacity w \<and> map fst (cw_cluster w) = [''sb'', ''b''] \<and> cc_maxRunningSandboxes demo_capacity = 1"
proof -
  let ?w0 = "\<lparr>cw_cluster = [], cw_reservations = [(''sb'', demo_usage)], cw_uncreated = {''sb''}, cw_check = None\<rparr>"
  let ?w1 = "?w0\<lparr>cw_check := Some (demo_ref ''b'', [])\<rparr>"
  let ?w2 = "?w1\<lparr>cw_cluster := [(''sb'', demo_usage)], cw_uncreated := {}\<rparr>"
  let ?w3 = "?w2\<lparr>cw_reservations := []\<rparr>"
  let ?w4 = "?w3\<lparr>cw_reservations := [(''b'', demo_usage)], cw_uncreated := {''b''}, cw_check := None\<rparr>"
  let ?w5 = "?w4\<lparr>cw_cluster := [(''sb'', demo_usage), (''b'', demo_usage)], cw_uncreated := {}\<rparr>"
  have "capacity_step False demo_capacity ?w0 ?w1" by (rule list_step) (auto simp: listing_def)
  moreover have "capacity_step False demo_capacity ?w1 ?w2"
    using create_step [where w = ?w1 and n = "''sb''" and u = demo_usage and config = demo_capacity and orderly = False] by simp
  moreover have "capacity_step False demo_capacity ?w2 ?w3"
    using release_step [where w = ?w2 and n = "''sb''" and config = demo_capacity and orderly = False] by (simp add: release_def)
  moreover have "capacity_step False demo_capacity ?w3 ?w4" using demo_admit [of ?w3 "''b''" False] by simp
  moreover have "capacity_step False demo_capacity ?w4 ?w5"
    using create_step [where w = ?w4 and n = "''b''" and u = demo_usage and config = demo_capacity and orderly = False] by simp
  ultimately have "(capacity_step False demo_capacity)\<^sup>*\<^sup>* ?w0 ?w5"
    by (meson rtranclp.rtrancl_refl rtranclp.rtrancl_into_rtrancl)
  then have "reachable_world False demo_capacity ?w5"
    using demo_first unfolding reachable_world_def by (meson rtranclp_trans)
  then show ?thesis by (intro exI [of _ ?w5]) (simp add: demo_capacity_def)
qed

section \<open>Whole quantities are exact\<close>

lemma bit_count_le: "n < 2 ^ k \<Longrightarrow> bit_count n \<le> k"
proof (induction k arbitrary: n)
  case 0
  then show ?case by (simp add: bit_count.simps)
next
  case (Suc k)
  then have "n div 2 < 2 ^ k" by (simp add: div_less_iff_less_mult mult.commute)
  then show ?case using Suc.IH by (subst bit_count.simps) simp
qed

lemma round_half_even_int [simp]: "round_half_even (of_int z) = z"
  by (simp add: round_half_even_def)

lemma divide_pow2:
  assumes "e \<le> 0"
  shows "of_nat n / pow2 e = (of_int (int n * 2 ^ nat (- e)) :: rat)"
  using assms by (cases "e = 0") (simp_all add: pow2_def)

lemma round_double_nat:
  assumes "n < 2 ^ 53"
  shows "round_double (of_nat n) = of_nat n"
proof (cases "n = 0")
  case False
  have q: "quotient_of (of_nat n :: rat) = (int n, 1)" using quotient_of_int [of "int n"] by simp
  have "bit_count (nat 1) = 1" by (simp add: bit_count.simps)
  moreover have "bit_count n \<le> 53" using bit_count_le assms by blast
  ultimately have e: "(if of_nat n \<ge> pow2 (int (bit_count n) - 1) then int (bit_count n) - 1 - 52 else int (bit_count n) - 1 - 53) \<le> 0" (is "?e \<le> 0")
    by simp
  have "round_double (of_nat n) = of_int (round_half_even (of_nat n / pow2 ?e)) * pow2 ?e"
    using False q \<open>bit_count (nat 1) = 1\<close> by (simp add: round_double_def Let_def)
  also have "\<dots> = of_nat n / pow2 ?e * pow2 ?e" unfolding divide_pow2 [OF e] by (simp only: round_half_even_int)
  also have "\<dots> = of_nat n" by (rule nonzero_eq_divide_eq [THEN iffD1, OF _ refl]) (rule pow2_pos [THEN less_imp_neq, symmetric])
  finally show ?thesis .
qed (simp add: round_double_def)

lemma js_trim_decimal:
  assumes "s = [] \<or> \<not> js_space (last s)"
  shows "js_trim (decimal_text n @ s) = decimal_text n @ s"
proof (rule js_trim_id)
  have "\<not> js_space (hd (decimal_text n))" "\<not> js_space (last (decimal_text n))"
    using decimal_text_simps(6) [OF hd_in_set] decimal_text_simps(6) [OF last_in_set] decimal_text_simps(3) by blast+
  then show "decimal_text n @ s = [] \<or> \<not> js_space (hd (decimal_text n @ s)) \<and> \<not> js_space (last (decimal_text n @ s))"
    using assms by (cases s) (simp_all add: hd_append)
qed

lemma quantity_parts_decimal:
  assumes "s = [] \<or> \<not> is_digit (hd s) \<and> hd s \<noteq> CHR ''.''"
  shows "quantity_parts (decimal_text n @ s) = Some (decimal_text n, [], s)"
proof -
  have d: "\<forall>c \<in> set (decimal_text n). is_digit c" using decimal_text_simps(1) by (simp add: list_all_iff)
  then have "takeWhile is_digit (decimal_text n @ s) = decimal_text n" "dropWhile is_digit (decimal_text n @ s) = s"
    using assms by (cases s; simp add: takeWhile_append2 dropWhile_append2 takeWhile_eq_all_conv)+
  then show ?thesis using assms by (cases s) (simp_all only: quantity_parts_def Let_def, simp_all)
qed

text \<open>Whole quantities are read exactly, in spite of the arithmetic in doubles: a number of cores is a thousand
  millicores each, a number of millicores or bytes is itself, and a number with a binary unit is multiplied by it, as
  long as the result is below \<open>2 ^ 53\<close>.\<close>

theorem quantities_exact:
  fixes n :: nat
  assumes "n * 1024 ^ 3 < 2 ^ 53"
  shows "parseCpuMillicores (Some (decimal_text n)) = Inr (1000 * int n) \<and>
    parseCpuMillicores (Some (decimal_text n @ ''m'')) = Inr (int n) \<and>
    parseMemoryBytes (Some (decimal_text n)) = Inr (int n) \<and>
    parseMemoryBytes (Some (decimal_text n @ ''Mi'')) = Inr (int n * 2 ^ 20) \<and>
    parseMemoryBytes (Some (decimal_text n @ ''Gi'')) = Inr (int n * 2 ^ 30)"
proof -
  have lit: "literal_number (decimal_text n) [] = of_nat n"
    using assms round_double_nat [of n] by (simp add: literal_number_def)
  have scaled: "\<lceil>round_double (of_nat n * of_nat k)\<rceil> = int n * int k" if "n * k < 2 ^ 53" for k
  proof -
    have "round_double (of_nat (n * k)) = of_nat (n * k)" using that by (rule round_double_nat)
    then have "\<lceil>round_double (of_nat (n * k))\<rceil> = int (n * k)" by (simp only: ceiling_of_nat)
    then show ?thesis by simp
  qed
  have trim: "js_trim (decimal_text n) = decimal_text n" using js_trim_decimal [of "[]"] by simp
  have parts: "quantity_parts (decimal_text n) = Some (decimal_text n, [], [])" using quantity_parts_decimal [of "[]"] by simp
  have unit: "js_trim (decimal_text n @ u) = decimal_text n @ u \<and> quantity_parts (decimal_text n @ u) = Some (decimal_text n, [], u)"
    if "u \<in> {''m'', ''Mi'', ''Gi''}" for u
    using that js_trim_decimal [of u n] quantity_parts_decimal [of u n] by (auto simp: js_space_def is_digit_def)
  show ?thesis
    using scaled [of 1000] scaled [of "1024 ^ 2"] scaled [of "1024 ^ 3"] assms unit [of "''m''"] unit [of "''Mi''"] unit [of "''Gi''"]
    by (simp add: parseCpuMillicores_def parseMemoryBytes_def trim parts lit memory_units_def mult.commute)
qed

lemma quantities_exact_witness: "parseMemoryBytes (Some (decimal_text 4 @ ''Gi'')) = Inr (4 * 2 ^ 30)"
  using quantities_exact [of 4] by simp

end
