(* ===== verification/Acs_Ownership.thy ===== *)
theory Acs_Ownership
  imports Acs_Cidr "HOL-Library.Sublist"
begin

text \<open>
  Ownership of running work: the records and their validation (\<^verbatim>\<open>ownershipState.ts\<close>, the fence of
  \<^verbatim>\<open>remoteAttemptProtocol.ts\<close>) and the journal that several orchestrator processes share, a cluster object that is
  replaced under its resource version (\<^verbatim>\<open>ownershipJournal.ts\<close>).

  Records are typed values; a stored text that does not decode to such records is one of the unavailable answers of
  the transport. The size of the serialized journal is a parameter.
\<close>

section \<open>Records\<close>

datatype resource_ownership = RReserved | RRunning | RStopRequested | RUnknown | RStopped | RNotStarted | RBackgroundOwned

datatype operation_outcome = OPending | OSuccess | OFailed | OCancelled | OTimedOut

datatype operation_kind = KInvocation | KProvision | KEnsure | KWarmup | KReceiver

record writable_scope =
  ws_storageId :: string
  ws_mountSubPath :: string
  ws_sandboxName :: string
  ws_workspaceId :: string
  ws_sessionId :: string
  ws_sandboxScopeId :: string

record remote_fence =
  rf_operationId :: string
  rf_attemptId :: string
  rf_ownerId :: string
  rf_sandboxUid :: string
  rf_podUid :: string
  rf_startBeforeMs :: int

record ownership_record =
  ow_operationId :: string
  ow_attemptId :: string
  ow_invocationId :: string
  ow_ownerId :: string
  ow_revision :: int
  ow_kind :: operation_kind
  ow_scope :: writable_scope
  ow_resource :: resource_ownership
  ow_outcome :: operation_outcome
  ow_phase :: string
  ow_createdAt :: iso_time
  ow_updatedAt :: iso_time
  ow_sandboxUid :: "string option"
  ow_phaseDeadlineAt :: "iso_time option"
  ow_dispatchedAt :: "iso_time option"
  ow_remoteFence :: "remote_fence option"
  ow_parentOperationId :: "string option"
  ow_reasonCode :: "string option"

datatype ownership_error = OwnershipBlocked "string option" | OwnershipUnavailable

definition LIMIT_RECORDS :: nat where
  "LIMIT_RECORDS = 128"

definition LIMIT_BYTES :: nat where
  "LIMIT_BYTES = 512 * 1024"

definition control_char :: "char \<Rightarrow> bool" where
  "control_char c = ((of_char c :: nat) < 32 \<or> (of_char c :: nat) = 127)"

definition path_segments :: "string \<Rightarrow> string list" where
  "path_segments s = filter (\<lambda>p. p \<noteq> [] \<and> p \<noteq> ''.'') (split_on CHR ''/'' s)"

definition normalizeWritablePath :: "string \<Rightarrow> ownership_error + string" where
  "normalizeWritablePath s =
     (if s = [] \<or> hd s = CHR ''/'' \<or> CHR 0x5C \<in> set s \<or> list_ex control_char s then Inl OwnershipUnavailable
      else if ''..'' \<in> set (split_on CHR ''/'' s) then Inl OwnershipUnavailable
      else (let normalized = join_with ''/'' (path_segments s) in
            if normalized = [] then Inl OwnershipUnavailable else Inr normalized))"

definition starts_with_path :: "string \<Rightarrow> string \<Rightarrow> bool" where
  "starts_with_path a b \<longleftrightarrow> prefix (b @ ''/'') a"

definition scopesOverlap :: "writable_scope \<Rightarrow> writable_scope \<Rightarrow> ownership_error + bool" where
  "scopesOverlap l r =
     (if ws_storageId l \<noteq> ws_storageId r then Inr False
      else bind_res (normalizeWritablePath (ws_mountSubPath l)) (\<lambda>a.
           bind_res (normalizeWritablePath (ws_mountSubPath r)) (\<lambda>b.
           Inr (a = b \<or> starts_with_path a b \<or> starts_with_path b a))))"

definition admissionScopeConflicts :: "ownership_record \<Rightarrow> writable_scope \<Rightarrow> ownership_error + bool" where
  "admissionScopeConflicts record scope =
     bind_res (scopesOverlap (ow_scope record) scope) (\<lambda>overlap.
     Inr (overlap \<and> (ow_kind record = KReceiver \<or> ws_sandboxName (ow_scope record) = ws_sandboxName scope)))"

definition ownershipIsTerminal :: "ownership_record \<Rightarrow> bool" where
  "ownershipIsTerminal r \<longleftrightarrow> ow_resource r = RStopped \<or> ow_resource r = RNotStarted"

definition ownershipObservationFloor :: "ownership_record \<Rightarrow> int option" where
  "ownershipObservationFloor r = nullish (Option.bind (ow_dispatchedAt r) date_parse) (date_parse (ow_updatedAt r))"

definition validIdentifier :: "nat \<Rightarrow> string \<Rightarrow> bool" where
  "validIdentifier maximum s \<longleftrightarrow> s \<noteq> [] \<and> length s \<le> maximum \<and> \<not> list_ex control_char s"

definition valid_fence :: "remote_fence \<Rightarrow> bool" where
  "valid_fence f \<longleftrightarrow>
     list_all (validIdentifier 512) [rf_operationId f, rf_attemptId f, rf_ownerId f, rf_sandboxUid f, rf_podUid f] \<and>
     0 < rf_startBeforeMs f \<and> rf_startBeforeMs f \<le> 2 ^ 53 - 1"

definition sameRemoteFence :: "remote_fence \<Rightarrow> remote_fence \<Rightarrow> bool" where
  "sameRemoteFence a b \<longleftrightarrow> valid_fence a \<and> valid_fence b \<and> a = b"

definition reason_char :: "char \<Rightarrow> bool" where
  "reason_char c = (let n = of_char c :: nat in 97 \<le> n \<and> n \<le> 122 \<or> 48 \<le> n \<and> n \<le> 57 \<or> c \<in> {CHR ''_'', CHR '':'', CHR ''-''})"

definition isRight :: "'a + 'b \<Rightarrow> bool" where
  "isRight r = (case r of Inl _ \<Rightarrow> False | Inr _ \<Rightarrow> True)"

text \<open>The checks of one record.\<close>

definition valid_record :: "ownership_record \<Rightarrow> bool" where
  "valid_record r \<longleftrightarrow>
     list_all (validIdentifier 512) [ow_operationId r, ow_attemptId r, ow_invocationId r, ow_ownerId r, ow_phase r] \<and>
     0 \<le> ow_revision r \<and> ow_revision r \<le> 2 ^ 53 - 1 \<and>
     date_parse (ow_createdAt r) \<noteq> None \<and> date_parse (ow_updatedAt r) \<noteq> None \<and>
     (let s = ow_scope r in
      list_all (validIdentifier 1024)
        [ws_storageId s, ws_mountSubPath s, ws_sandboxName s, ws_workspaceId s, ws_sessionId s, ws_sandboxScopeId s] \<and>
      isRight (normalizeWritablePath (ws_mountSubPath s))) \<and>
     (case ow_reasonCode r of None \<Rightarrow> True | Some c \<Rightarrow> c \<noteq> [] \<and> length c \<le> 128 \<and> list_all reason_char c) \<and>
     (case ow_sandboxUid r of None \<Rightarrow> True | Some u \<Rightarrow> validIdentifier 128 u) \<and>
     (case ow_phaseDeadlineAt r of None \<Rightarrow> True | Some t \<Rightarrow> date_parse t \<noteq> None) \<and>
     (case ow_dispatchedAt r of None \<Rightarrow> True | Some t \<Rightarrow> date_parse t \<noteq> None) \<and>
     (case ow_parentOperationId r of None \<Rightarrow> True | Some p \<Rightarrow> validIdentifier 512 p \<and> p \<noteq> ow_operationId r) \<and>
     (case ow_remoteFence r of None \<Rightarrow> True
      | Some f \<Rightarrow> valid_fence f \<and> rf_operationId f = ow_operationId r \<and> rf_attemptId f = ow_attemptId r \<and>
                  rf_ownerId f = ow_ownerId r \<and> Some (rf_sandboxUid f) = ow_sandboxUid r)"

definition record_by_id :: "ownership_record list \<Rightarrow> string \<Rightarrow> ownership_record option" where
  "record_by_id rs i = map_of (map (\<lambda>r. (ow_operationId r, r)) rs) i"

text \<open>The loop along the parents of a record: a parent seen before is a cycle, a parent of another owner is refused, a
  missing parent ends it. It ends because the ancestors seen grow within the ids of the journal.\<close>

lemma record_by_id_Some: "record_by_id rs i = Some r \<Longrightarrow> r \<in> set rs \<and> ow_operationId r = i"
  unfolding record_by_id_def by (induction rs) (auto split: if_splits)

function ancestry_ok :: "ownership_record list \<Rightarrow> string \<Rightarrow> string list \<Rightarrow> string option \<Rightarrow> bool" where
  "ancestry_ok rs owner ancestors parent =
     (if \<not> truthy parent then True
      else if the parent \<in> set ancestors then False
      else (case record_by_id rs (the parent) of
              None \<Rightarrow> True
            | Some item \<Rightarrow>
                if ow_ownerId item \<noteq> owner then False
                else ancestry_ok rs owner (the parent # ancestors) (ow_parentOperationId item)))"
  by pat_completeness auto

termination
proof (relation "measure (\<lambda>(rs, owner, ancestors, parent). card (ow_operationId ` set rs - set ancestors))", simp, clarsimp)
  fix rs :: "ownership_record list" and ancestors :: "string list" and parent item
  assume a: "the parent \<notin> set ancestors" and r: "record_by_id rs (the parent) = Some item"
  have "the parent \<in> ow_operationId ` set rs" using record_by_id_Some [OF r] by force
  then have "ow_operationId ` set rs - insert (the parent) (set ancestors) \<subset> ow_operationId ` set rs - set ancestors"
    using a by blast
  then show "card (ow_operationId ` set rs - insert (the parent) (set ancestors)) < card (ow_operationId ` set rs - set ancestors)"
    by (intro psubset_card_mono) simp_all
qed

declare ancestry_ok.simps [simp del]

definition validateOwnershipRecords :: "(ownership_record list \<Rightarrow> nat) \<Rightarrow> ownership_record list \<Rightarrow> ownership_error + ownership_record list" where
  "validateOwnershipRecords bytes rs =
     (if length rs > LIMIT_RECORDS \<or> \<not> list_all valid_record rs \<or> \<not> distinct (map ow_operationId rs) then Inl OwnershipUnavailable
      else if \<not> list_all (\<lambda>r. ancestry_ok rs (ow_ownerId r) [ow_operationId r] (ow_parentOperationId r)) rs then Inl OwnershipUnavailable
      else if bytes rs > LIMIT_BYTES then Inl OwnershipUnavailable
      else Inr rs)"

definition writableScope ::
  "(string \<Rightarrow> string) \<Rightarrow> string \<Rightarrow> string option \<Rightarrow> string option \<Rightarrow> string \<Rightarrow> string \<Rightarrow> string \<Rightarrow> string \<Rightarrow> string option \<Rightarrow>
   ownership_error + writable_scope" where
  "writableScope sha256 namespace pvcName hostWorkspaceRoot name mountSubPath workspaceId sessionId sandboxScopeId =
     bind_res (normalizeWritablePath mountSubPath) (\<lambda>path.
     Inr \<lparr>ws_storageId = sha256 (namespace @ '':'' @ the (nullish pvcName (nullish hostWorkspaceRoot (Some ''unconfigured'')))),
          ws_mountSubPath = path, ws_sandboxName = name, ws_workspaceId = workspaceId, ws_sessionId = sessionId,
          ws_sandboxScopeId = the (nullish sandboxScopeId (Some workspaceId))\<rparr>)"

section \<open>The journal\<close>

record journal_client =
  jc_cached :: "ownership_record list"
  jc_available :: bool

datatype journal_read = JournalDown | JournalAbsent | JournalFound string "ownership_record list"

datatype write_answer = WriteDone | WriteConflict | WriteUnknown

definition readSnapshot ::
  "(ownership_record list \<Rightarrow> nat) \<Rightarrow> journal_read \<Rightarrow> journal_client \<Rightarrow> journal_client \<times> (ownership_error + string option \<times> ownership_record list)" where
  "readSnapshot bytes ans c =
     (case ans of
        JournalDown \<Rightarrow> (c\<lparr>jc_available := False\<rparr>, Inl OwnershipUnavailable)
      | JournalAbsent \<Rightarrow> (\<lparr>jc_cached = [], jc_available = True\<rparr>, Inr (None, []))
      | JournalFound v rs \<Rightarrow>
          (if v = [] then (c\<lparr>jc_available := False\<rparr>, Inl OwnershipUnavailable)
           else (case validateOwnershipRecords bytes rs of
                   Inl e \<Rightarrow> (c\<lparr>jc_available := False\<rparr>, Inl OwnershipUnavailable)
                 | Inr rs' \<Rightarrow> (\<lparr>jc_cached = rs', jc_available = True\<rparr>, Inr (Some v, rs')))))"

type_synonym journal_change = "ownership_record list \<Rightarrow> ownership_error + ownership_record list \<times> ownership_record"

definition reserve_change :: "ownership_record \<Rightarrow> (ownership_record \<Rightarrow> bool) \<Rightarrow> journal_change" where
  "reserve_change record conflict records =
     (case List.find (\<lambda>item. ow_operationId item = ow_operationId record) records of
        Some existing \<Rightarrow>
          if ow_attemptId existing \<noteq> ow_attemptId record \<or> ow_ownerId existing \<noteq> ow_ownerId record
          then Inl (OwnershipBlocked (Some (ow_operationId existing)))
          else Inr (records, existing)
      | None \<Rightarrow>
          (case List.find (\<lambda>item. \<not> ownershipIsTerminal item \<and> conflict item) records of
             Some blocking \<Rightarrow> Inl (OwnershipBlocked (Some (ow_operationId blocking)))
           | None \<Rightarrow>
               let retained = filter (\<lambda>item. \<not> ownershipIsTerminal item) records;
                   terminal = filter ownershipIsTerminal records;
                   recent = drop (length terminal - 16) terminal;
                   nxt = retained @ recent @ [record] in
               if length nxt > LIMIT_RECORDS then Inl OwnershipUnavailable else Inr (nxt, record)))"

fun index_where :: "('a \<Rightarrow> bool) \<Rightarrow> 'a list \<Rightarrow> nat option" where
  "index_where P [] = None"
| "index_where P (x # xs) = (if P x then Some 0 else map_option Suc (index_where P xs))"

definition update_change :: "ownership_record \<Rightarrow> int \<Rightarrow> journal_change" where
  "update_change record expectedRevision records =
     (case index_where (\<lambda>item. ow_operationId item = ow_operationId record) records of
        None \<Rightarrow> Inl (OwnershipBlocked (Some (ow_operationId record)))
      | Some index \<Rightarrow>
          let previous = records ! index in
          if ow_ownerId previous \<noteq> ow_ownerId record \<or> ow_attemptId previous \<noteq> ow_attemptId record \<or>
             ow_revision previous \<noteq> expectedRevision \<or> ow_revision record \<noteq> expectedRevision + 1
          then Inl (OwnershipBlocked (Some (ow_operationId record)))
          else if ownershipIsTerminal previous \<and> \<not> ownershipIsTerminal record
          then Inl (OwnershipBlocked (Some (ow_operationId record)))
          else Inr (records[index := record], record))"

text \<open>The part of a round before the write: read, change, validate; the request carries the version that was read.\<close>

definition prepare_write ::
  "(ownership_record list \<Rightarrow> nat) \<Rightarrow> journal_change \<Rightarrow> journal_read \<Rightarrow> journal_client \<Rightarrow>
   journal_client \<times> (ownership_error + string option \<times> ownership_record list \<times> ownership_record)" where
  "prepare_write bytes change ans c =
     (case readSnapshot bytes ans c of
        (c', Inl e) \<Rightarrow> (c', Inl e)
      | (c', Inr (v, records)) \<Rightarrow>
          (c', bind_res (change records) (\<lambda>(nxt, result).
               bind_res (validateOwnershipRecords bytes nxt) (\<lambda>_. Inr (v, nxt, result)))))"

text \<open>The loop of \<open>mutate\<close>: what the cluster answers in each round, and the requests that were sent.\<close>

fun mutate_rounds ::
  "(ownership_record list \<Rightarrow> nat) \<Rightarrow> journal_change \<Rightarrow> (nat \<Rightarrow> journal_read \<times> write_answer) \<Rightarrow> nat \<Rightarrow> nat \<Rightarrow> journal_client \<Rightarrow>
   journal_client \<times> (string option \<times> ownership_record list) list \<times> (ownership_error + ownership_record)" where
  "mutate_rounds bytes change answers retry 0 c = (c, [], Inl OwnershipUnavailable)"
| "mutate_rounds bytes change answers retry (Suc left) c =
     (case prepare_write bytes change (fst (answers retry)) c of
        (c', Inl e) \<Rightarrow> (c', [], Inl e)
      | (c', Inr (v, nxt, result)) \<Rightarrow>
          (case snd (answers retry) of
             WriteDone \<Rightarrow> (\<lparr>jc_cached = nxt, jc_available = True\<rparr>, [(v, nxt)], Inr result)
           | WriteUnknown \<Rightarrow> (c'\<lparr>jc_available := False\<rparr>, [(v, nxt)], Inl OwnershipUnavailable)
           | WriteConflict \<Rightarrow>
               (case mutate_rounds bytes change answers (Suc retry) left c' of
                  (c'', writes, r) \<Rightarrow> (c'', (v, nxt) # writes, r))))"

definition mutate ::
  "(ownership_record list \<Rightarrow> nat) \<Rightarrow> journal_change \<Rightarrow> (nat \<Rightarrow> journal_read \<times> write_answer) \<Rightarrow> journal_client \<Rightarrow>
   journal_client \<times> (string option \<times> ownership_record list) list \<times> (ownership_error + ownership_record)" where
  "mutate bytes change answers c = mutate_rounds bytes change answers 0 5 c"

definition journal_reserve where
  "journal_reserve bytes record conflict = mutate bytes (reserve_change record conflict)"

definition journal_update where
  "journal_update bytes record expectedRevision = mutate bytes (update_change record expectedRevision)"

section \<open>Several processes on one journal\<close>

text \<open>
  The versions that the cluster object went through, the newest first, and the request that each process has
  prepared but not yet sent. \<open>kube\<close> is the write of the cluster: the result may depend on anything, here on a number.
\<close>

type_synonym journal_history = "(string \<times> ownership_record list) list"

type_synonym kube_write = "nat \<Rightarrow> journal_history \<Rightarrow> string option \<Rightarrow> ownership_record list \<Rightarrow> journal_history \<times> write_answer"

record journal_world =
  jw_history :: journal_history
  jw_prepared :: "nat \<Rightarrow> (string option \<times> ownership_record list) option"

datatype journal_op =
    ReserveOp nat ownership_record "ownership_record \<Rightarrow> bool"
  | UpdateOp nat ownership_record int
  | SendOp nat nat

definition current_read :: "journal_history \<Rightarrow> journal_read" where
  "current_read h = (case h of [] \<Rightarrow> JournalAbsent | (v, rs) # _ \<Rightarrow> JournalFound v rs)"

definition prepared_request ::
  "(ownership_record list \<Rightarrow> nat) \<Rightarrow> journal_change \<Rightarrow> journal_history \<Rightarrow> (string option \<times> ownership_record list) option" where
  "prepared_request bytes change h =
     (case snd (prepare_write bytes change (current_read h) \<lparr>jc_cached = [], jc_available = False\<rparr>) of
        Inl e \<Rightarrow> None
      | Inr (v, nxt, result) \<Rightarrow> Some (v, nxt))"

definition journal_step :: "(ownership_record list \<Rightarrow> nat) \<Rightarrow> kube_write \<Rightarrow> journal_world \<Rightarrow> journal_op \<Rightarrow> journal_world" where
  "journal_step bytes kube w op =
     (case op of
        ReserveOp p record conflict \<Rightarrow>
          w\<lparr>jw_prepared := (jw_prepared w)(p := prepared_request bytes (reserve_change record conflict) (jw_history w))\<rparr>
      | UpdateOp p record expected \<Rightarrow>
          w\<lparr>jw_prepared := (jw_prepared w)(p := prepared_request bytes (update_change record expected) (jw_history w))\<rparr>
      | SendOp p k \<Rightarrow>
          (case jw_prepared w p of
             None \<Rightarrow> w
           | Some (v, nxt) \<Rightarrow>
               w\<lparr>jw_history := fst (kube k (jw_history w) v nxt), jw_prepared := (jw_prepared w)(p := None)\<rparr>))"

definition journal_run :: "(ownership_record list \<Rightarrow> nat) \<Rightarrow> kube_write \<Rightarrow> journal_op list \<Rightarrow> journal_world" where
  "journal_run bytes kube ops = foldl (journal_step bytes kube) \<lparr>jw_history = [], jw_prepared = (\<lambda>_. None)\<rparr> ops"

text \<open>
  What the cluster promises (the concurrency control of the Kubernetes API): a write takes effect only if the object still has the
  version of the request, or does not exist when the request creates it; it gets a version never used before and
  the content of the request; a write without effect is not acknowledged.
\<close>

definition cas_writes :: "kube_write \<Rightarrow> bool" where
  "cas_writes kube \<longleftrightarrow>
     (\<forall>k h v body. case kube k h v body of (h', ans) \<Rightarrow>
        h' = h \<and> ans \<noteq> WriteDone \<or>
        (case h of [] \<Rightarrow> v = None | (cv, _) # _ \<Rightarrow> v = Some cv) \<and>
        (\<exists>nv. nv \<noteq> [] \<and> nv \<notin> fst ` set h \<and> h' = (nv, body) # h) \<and> ans \<noteq> WriteConflict)"

section \<open>Atomic changes\<close>

text \<open>The abstract journal: its content changes by whole reservations and updates, one at a time.\<close>

inductive atomic_change :: "ownership_record list \<Rightarrow> ownership_record list \<Rightarrow> bool" where
  reserved: "reserve_change record conflict old = Inr (new, result) \<Longrightarrow> atomic_change old new"
| updated: "update_change record expected old = Inr (new, result) \<Longrightarrow> atomic_change old new"

fun atomic_chain :: "journal_history \<Rightarrow> bool" where
  "atomic_chain [] = True"
| "atomic_chain [(v, rs)] = atomic_change [] rs"
| "atomic_chain ((v, rs) # (v', rs') # h) = (atomic_change rs' rs \<and> atomic_chain ((v', rs') # h))"

definition content_at :: "journal_history \<Rightarrow> string option \<Rightarrow> ownership_record list \<Rightarrow> bool" where
  "content_at h v rs \<longleftrightarrow> (case v of None \<Rightarrow> rs = [] | Some x \<Rightarrow> (x, rs) \<in> set h)"

definition prepared_ok :: "(ownership_record list \<Rightarrow> nat) \<Rightarrow> journal_history \<Rightarrow> string option \<Rightarrow> ownership_record list \<Rightarrow> bool" where
  "prepared_ok bytes h v nxt \<longleftrightarrow>
     validateOwnershipRecords bytes nxt = Inr nxt \<and> (\<exists>old. content_at h v old \<and> atomic_change old nxt)"

definition journal_ok :: "(ownership_record list \<Rightarrow> nat) \<Rightarrow> journal_world \<Rightarrow> bool" where
  "journal_ok bytes w \<longleftrightarrow>
     distinct (map fst (jw_history w)) \<and> atomic_chain (jw_history w) \<and>
     (\<forall>(v, rs) \<in> set (jw_history w). validateOwnershipRecords bytes rs = Inr rs) \<and>
     (\<forall>p v nxt. jw_prepared w p = Some (v, nxt) \<longrightarrow> prepared_ok bytes (jw_history w) v nxt)"

lemma validate_same: "validateOwnershipRecords bytes rs = Inr rs' \<Longrightarrow> rs' = rs"
  by (auto simp: validateOwnershipRecords_def split: if_splits)

lemma prepare_write_Inr:
  assumes "prepare_write bytes change ans c = (c', Inr (v, nxt, result))"
  shows "validateOwnershipRecords bytes nxt = Inr nxt \<and>
    (\<exists>old. change old = Inr (nxt, result) \<and>
       (ans = JournalAbsent \<and> v = None \<and> old = [] \<or> (\<exists>x. ans = JournalFound x old \<and> v = Some x)))"
proof -
  obtain c1 old where r: "readSnapshot bytes ans c = (c1, Inr (v, old))" "change old = Inr (nxt, result)"
    and val: "isRight (validateOwnershipRecords bytes nxt)"
    using assms by (auto simp: prepare_write_def bind_res_Inr_iff isRight_def split: prod.splits sum.splits)
  have "validateOwnershipRecords bytes nxt = Inr nxt"
    using val validate_same by (cases "validateOwnershipRecords bytes nxt") (auto simp: isRight_def)
  moreover have "ans = JournalAbsent \<and> v = None \<and> old = [] \<or> (\<exists>x. ans = JournalFound x old \<and> v = Some x)"
    using r(1) validate_same by (auto simp: readSnapshot_def split: journal_read.splits if_splits sum.splits)
  ultimately show ?thesis using r(2) by blast
qed

lemma prepared_request_ok:
  assumes "prepared_request bytes change h = Some (v, nxt)"
    and "\<And>old result. change old = Inr (nxt, result) \<Longrightarrow> atomic_change old nxt"
  shows "prepared_ok bytes h v nxt"
proof -
  obtain c' result where "prepare_write bytes change (current_read h) \<lparr>jc_cached = [], jc_available = False\<rparr> = (c', Inr (v, nxt, result))"
    using assms(1) by (cases "prepare_write bytes change (current_read h) \<lparr>jc_cached = [], jc_available = False\<rparr>")
      (auto simp: prepared_request_def split: sum.splits)
  from prepare_write_Inr [OF this] assms(2) show ?thesis
    by (auto simp: prepared_ok_def content_at_def current_read_def split: list.splits)
qed

lemma prepared_ok_later: "prepared_ok bytes h v nxt \<Longrightarrow> set h \<subseteq> set h' \<Longrightarrow> prepared_ok bytes h' v nxt"
  unfolding prepared_ok_def content_at_def by (cases v) auto

lemma atomic_chain_Cons:
  assumes "atomic_chain h" "distinct (map fst h)" "content_at h v old" "atomic_change old nxt"
    and "case h of [] \<Rightarrow> v = None | (cv, _) # _ \<Rightarrow> v = Some cv"
  shows "atomic_chain ((nv, nxt) # h)"
proof (cases h)
  case Nil
  then show ?thesis using assms by (simp add: content_at_def)
next
  case (Cons e rest)
  obtain cv cur where e: "e = (cv, cur)" by fastforce
  have "(cv, old) \<in> set h" using assms(3,5) Cons e by (simp add: content_at_def)
  then have "old = cur" using assms(2) Cons e by (force dest: eq_key_imp_eq_value)
  then show ?thesis using assms(1,4) Cons e by simp
qed

lemma cas_cases:
  assumes "cas_writes kube" "kube k h v body = (h', ans)"
  shows "h' = h \<or> (case h of [] \<Rightarrow> v = None | (cv, _) # _ \<Rightarrow> v = Some cv) \<and> (\<exists>nv. nv \<notin> fst ` set h \<and> h' = (nv, body) # h)"
proof -
  show ?thesis using assms(1) [unfolded cas_writes_def, rule_format, where k = k and h = h and v = v and body = body] unfolding assms(2) prod.case by blast
qed

lemma journal_step_ok:
  assumes "cas_writes kube" and ok: "journal_ok bytes w"
  shows "journal_ok bytes (journal_step bytes kube w op)"
proof (cases op)
  case (ReserveOp p rec conflict)
  have "prepared_ok bytes (jw_history w) v nxt"
    if "prepared_request bytes (reserve_change rec conflict) (jw_history w) = Some (v, nxt)" for v nxt
    using prepared_request_ok [OF that] atomic_change.reserved by blast
  then show ?thesis using ok ReserveOp by (simp add: journal_ok_def journal_step_def)
next
  case (UpdateOp p rec expected)
  have "prepared_ok bytes (jw_history w) v nxt"
    if "prepared_request bytes (update_change rec expected) (jw_history w) = Some (v, nxt)" for v nxt
    using prepared_request_ok [OF that] atomic_change.updated by blast
  then show ?thesis using ok UpdateOp by (simp add: journal_ok_def journal_step_def)
next
  case (SendOp p k)
  let ?h = "jw_history w"
  show ?thesis
  proof (cases "jw_prepared w p")
    case (Some req)
    obtain v nxt where req: "req = (v, nxt)" by fastforce
    obtain h' ans where k: "kube k ?h v nxt = (h', ans)" by fastforce
    have pr: "prepared_ok bytes ?h v nxt" using ok Some req by (simp add: journal_ok_def)
    have later: "\<forall>q v nxt. ((jw_prepared w)(p := None)) q = Some (v, nxt) \<longrightarrow> prepared_ok bytes h' v nxt" if "set ?h \<subseteq> set h'"
      using ok prepared_ok_later [OF _ that] by (simp add: journal_ok_def)
    from cas_cases [OF assms(1) k] consider "h' = ?h" | nv where "case ?h of [] \<Rightarrow> v = None | (cv, _) # _ \<Rightarrow> v = Some cv" "nv \<notin> fst ` set ?h" "h' = (nv, nxt) # ?h"
      by blast
    then have "journal_ok bytes (w\<lparr>jw_history := h', jw_prepared := (jw_prepared w)(p := None)\<rparr>)"
    proof cases
      case 1
      then show ?thesis using ok later by (simp add: journal_ok_def)
    next
      case 2
      obtain old where "content_at ?h v old" "atomic_change old nxt" "validateOwnershipRecords bytes nxt = Inr nxt"
        using pr by (auto simp: prepared_ok_def)
      then have "atomic_chain h'" using ok 2 atomic_chain_Cons by (simp add: journal_ok_def)
      then show ?thesis using ok 2 later \<open>validateOwnershipRecords bytes nxt = Inr nxt\<close> by (simp add: journal_ok_def subset_insertI)
    qed
    then show ?thesis using SendOp Some req k by (simp add: journal_step_def)
  qed (use ok SendOp in \<open>simp add: journal_step_def\<close>)
qed

lemma journal_run_ok: "cas_writes kube \<Longrightarrow> journal_ok bytes (journal_run bytes kube ops)"
proof (induction ops rule: rev_induct)
  case Nil
  then show ?case by (simp add: journal_run_def journal_ok_def)
next
  case (snoc op ops)
  then show ?case using journal_step_ok by (simp add: journal_run_def)
qed

section \<open>What a change keeps\<close>

definition same_owner :: "ownership_record \<Rightarrow> ownership_record \<Rightarrow> bool" where
  "same_owner r r' \<longleftrightarrow>
     ow_operationId r' = ow_operationId r \<and> ow_ownerId r' = ow_ownerId r \<and> ow_attemptId r' = ow_attemptId r"

lemma index_where_Some: "index_where P xs = Some i \<Longrightarrow> i < length xs \<and> P (xs ! i)"
  by (induction xs arbitrary: i) (auto split: if_splits)

lemma reserve_keeps:
  assumes "reserve_change rec conflict old = Inr (new, result)"
  shows "r \<in> set old \<Longrightarrow> \<not> ownershipIsTerminal r \<Longrightarrow> r \<in> set new"
    and "r \<in> set new \<Longrightarrow> r \<notin> set old \<Longrightarrow>
      r = rec \<and> ow_operationId rec \<notin> ow_operationId ` set old \<and> (\<forall>x \<in> set old. \<not> ownershipIsTerminal x \<longrightarrow> \<not> conflict x)"
  using assms
  by (auto simp: reserve_change_def Let_def find_None_iff split: option.splits if_splits dest!: in_set_dropD)

lemma update_keeps:
  assumes "update_change rec expected old = Inr (new, result)"
  obtains i where "i < length old" "new = old[i := rec]" "same_owner (old ! i) rec" "ow_revision rec = ow_revision (old ! i) + 1"
    "ownershipIsTerminal (old ! i) \<longrightarrow> ownershipIsTerminal rec"
proof -
  obtain i where i: "index_where (\<lambda>item. ow_operationId item = ow_operationId rec) old = Some i"
    using assms by (auto simp: update_change_def split: option.splits)
  show ?thesis
    using that [of i] index_where_Some [OF i] assms i by (auto simp: update_change_def Let_def same_owner_def split: if_splits)
qed

lemma atomic_keeps:
  assumes "atomic_change old new" "r \<in> set old" "\<not> ownershipIsTerminal r"
  shows "\<exists>r' \<in> set new. same_owner r r' \<and> ow_revision r \<le> ow_revision r'"
  using assms(1)
proof cases
  case (reserved rec conflict result)
  then show ?thesis using reserve_keeps(1) [OF reserved assms(2,3)] by (auto simp: same_owner_def)
next
  case (updated rec expected result)
  then obtain i where i: "i < length old" "new = old[i := rec]" "same_owner (old ! i) rec" "ow_revision rec = ow_revision (old ! i) + 1"
    by (rule update_keeps)
  obtain j where j: "j < length old" "r = old ! j" using assms(2) by (metis in_set_conv_nth)
  show ?thesis
  proof (cases "j = i")
    case True
    then show ?thesis using i j by (intro bexI [of _ rec]) (auto simp: set_update_memI)
  next
    case False
    then have "r \<in> set new" using i j by (metis length_list_update nth_list_update_neq nth_mem)
    then show ?thesis by (auto simp: same_owner_def)
  qed
qed

lemma atomic_terminal:
  assumes "atomic_change old new" "distinct (map ow_operationId old)" "r \<in> set old" "ownershipIsTerminal r" "r' \<in> set new"
    "ow_operationId r' = ow_operationId r"
  shows "ownershipIsTerminal r'"
proof -
  have same: "x = r" if "x \<in> set old" "ow_operationId x = ow_operationId r" for x
    using assms(2,3) that by (auto simp: distinct_map dest: inj_onD)
  from assms(1) show ?thesis
  proof cases
    case (reserved rec conflict result)
    have "r' \<in> set old" using reserve_keeps(2) [OF reserved assms(5)] assms(3,6) by (metis image_eqI)
    then show ?thesis using same assms(4,6) by metis
  next
    case (updated rec expected result)
    then obtain i where i: "i < length old" "new = old[i := rec]" "same_owner (old ! i) rec"
      "ownershipIsTerminal (old ! i) \<longrightarrow> ownershipIsTerminal rec" by (rule update_keeps)
    have "r' = rec \<or> r' \<in> set old" using assms(5) i(2) set_update_subset_insert by fastforce
    then show ?thesis
    proof
      assume "r' = rec"
      then have "old ! i = r" using i(1,3) assms(6) same by (auto simp: same_owner_def)
      then show ?thesis using i(4) assms(4) \<open>r' = rec\<close> by simp
    next
      assume "r' \<in> set old"
      then show ?thesis using same assms(4,6) by metis
    qed
  qed
qed

lemma chain_tail: "atomic_chain (e # h) \<Longrightarrow> atomic_chain h"
  by (cases e; cases h) auto

lemma chain_keeps:
  assumes "atomic_chain (newer @ (v, old) # older)" "r \<in> set old" "\<not> ownershipIsTerminal r"
  shows "(\<exists>(v', c) \<in> set newer. \<exists>r' \<in> set c. same_owner r r' \<and> ownershipIsTerminal r') \<or>
    (\<exists>r' \<in> set (snd (hd (newer @ [(v, old)]))). same_owner r r' \<and> ow_revision r \<le> ow_revision r' \<and> \<not> ownershipIsTerminal r')"
  using assms(1)
proof (induction newer)
  case Nil
  then show ?case using assms(2,3) by (auto simp: same_owner_def)
next
  case (Cons e newer)
  obtain nv new where e: "e = (nv, new)" by fastforce
  obtain pv prev rest where p: "newer @ (v, old) # older = (pv, prev) # rest" by (cases newer) auto
  have hd: "snd (hd (newer @ [(v, old)])) = prev" using p by (cases newer) auto
  have step: "atomic_change prev new" using Cons.prems p e by simp
  have "atomic_chain (newer @ (v, old) # older)" using Cons.prems chain_tail by fastforce
  from Cons.IH [OF this] show ?case
  proof
    assume "\<exists>r' \<in> set (snd (hd (newer @ [(v, old)]))). same_owner r r' \<and> ow_revision r \<le> ow_revision r' \<and> \<not> ownershipIsTerminal r'"
    then obtain r' where r': "r' \<in> set prev" "same_owner r r'" "ow_revision r \<le> ow_revision r'" "\<not> ownershipIsTerminal r'"
      unfolding hd by blast
    from atomic_keeps [OF step r'(1,4)] obtain r'' where r'': "r'' \<in> set new" "same_owner r' r''" "ow_revision r' \<le> ow_revision r''" by blast
    then have "same_owner r r''" "ow_revision r \<le> ow_revision r''" using r' by (auto simp: same_owner_def)
    then show ?thesis using r''(1) e by (cases "ownershipIsTerminal r''") auto
  qed auto
qed

section \<open>Paths\<close>

lemma join_segments:
  assumes "\<forall>p \<in> set ps. p \<noteq> [] \<and> CHR ''/'' \<notin> set p" "\<forall>p \<in> set qs. p \<noteq> [] \<and> CHR ''/'' \<notin> set p" "ps \<noteq> []" "qs \<noteq> []"
  shows "join_with ''/'' ps = join_with ''/'' qs \<or> starts_with_path (join_with ''/'' ps) (join_with ''/'' qs) \<longleftrightarrow> prefix qs ps"
proof
  have sp: "split_on CHR ''/'' (join_with ''/'' ps) = ps" "split_on CHR ''/'' (join_with ''/'' qs) = qs"
    using assms by (auto intro!: split_join)
  assume "join_with ''/'' ps = join_with ''/'' qs \<or> starts_with_path (join_with ''/'' ps) (join_with ''/'' qs)"
  then show "prefix qs ps"
  proof
    assume "join_with ''/'' ps = join_with ''/'' qs"
    then have "ps = qs" using sp by metis
    then show ?thesis by simp
  next
    assume "starts_with_path (join_with ''/'' ps) (join_with ''/'' qs)"
    then obtain t where "join_with ''/'' ps = join_with ''/'' qs @ CHR ''/'' # t" by (auto simp: starts_with_path_def prefix_def)
    then have "ps = qs @ split_on CHR ''/'' t" using sp split_on_append by metis
    then show ?thesis by simp
  qed
next
  assume "prefix qs ps"
  then obtain rs where rs: "ps = qs @ rs" by (auto simp: prefix_def)
  have "join_with ''/'' (qs @ rs) = join_with ''/'' qs @ CHR ''/'' # join_with ''/'' rs" if "rs \<noteq> []"
    using assms(4) that by (induction "''/''" qs rule: join_with.induct) (auto simp: neq_Nil_conv)
  then show "join_with ''/'' ps = join_with ''/'' qs \<or> starts_with_path (join_with ''/'' ps) (join_with ''/'' qs)"
    unfolding rs by (cases "rs = []") (auto simp: starts_with_path_def prefix_def)
qed

lemma normalize_segments:
  assumes "normalizeWritablePath s = Inr p"
  shows "p = join_with ''/'' (path_segments s)" "path_segments s \<noteq> []" "\<forall>q \<in> set (path_segments s). q \<noteq> [] \<and> CHR ''/'' \<notin> set q"
    "''..'' \<notin> set (path_segments s)"
proof -
  have n: "join_with ''/'' (path_segments s) \<noteq> []" "p = join_with ''/'' (path_segments s)" "''..'' \<notin> set (split_on CHR ''/'' s)"
    using assms by (auto simp: normalizeWritablePath_def Let_def split: if_splits)
  show "p = join_with ''/'' (path_segments s)" by (rule n(2))
  show "path_segments s \<noteq> []" using n(1) by auto
  show "\<forall>q \<in> set (path_segments s). q \<noteq> [] \<and> CHR ''/'' \<notin> set q" using split_on_parts by (fastforce simp: path_segments_def)
  show "''..'' \<notin> set (path_segments s)" using n(3) by (auto simp: path_segments_def)
qed

section \<open>Claims\<close>

text \<open>C12. The shared journal is atomic. However the reads, retries and writes of several processes interleave, and whatever
  the cluster answers to them, the contents that the journal goes through are a chain of whole reservations and
  updates, each applied to the content just before it; every content is valid and no version is lost.\<close>

theorem journal_atomic:
  assumes "cas_writes kube"
  shows "atomic_chain (jw_history (journal_run bytes kube ops)) \<and>
    (\<forall>(v, rs) \<in> set (jw_history (journal_run bytes kube ops)). validateOwnershipRecords bytes rs = Inr rs \<and>
       length rs \<le> LIMIT_RECORDS \<and> distinct (map ow_operationId rs))"
proof -
  have "validateOwnershipRecords bytes rs = Inr rs \<Longrightarrow> length rs \<le> LIMIT_RECORDS \<and> distinct (map ow_operationId rs)" for rs
    by (auto simp: validateOwnershipRecords_def split: if_splits)
  then show ?thesis using journal_run_ok [OF assms, of bytes ops] unfolding journal_ok_def by blast
qed

definition demo_kube :: kube_write where
  "demo_kube k h v body =
     (if (case h of [] \<Rightarrow> v = None | (cv, _) # _ \<Rightarrow> v = Some cv)
      then ((CHR ''v'' # concat (map fst h), body) # h, WriteDone) else (h, WriteConflict))"

lemma demo_kube_cas: "cas_writes demo_kube"
proof -
  have short: "length x \<le> length (concat (map fst h))" if "x \<in> fst ` set h" for x and h :: journal_history
    using that by (induction h) (force simp: trans_le_add2)+
  have "CHR ''v'' # concat (map fst h) \<notin> fst ` set h" for h :: journal_history
    using short [of "CHR ''v'' # concat (map fst h)" h] by auto
  then show ?thesis by (simp add: cas_writes_def demo_kube_def)
qed

definition demo_scope :: writable_scope where
  "demo_scope =
     \<lparr>ws_storageId = ''s'', ws_mountSubPath = ''a/b'', ws_sandboxName = ''x'', ws_workspaceId = ''w'', ws_sessionId = ''e'', ws_sandboxScopeId = ''c''\<rparr>"

definition demo_record :: "string \<Rightarrow> ownership_record" where
  "demo_record i =
     \<lparr>ow_operationId = i, ow_attemptId = ''a'', ow_invocationId = ''i'', ow_ownerId = ''o'', ow_revision = 0, ow_kind = KInvocation,
      ow_scope = demo_scope, ow_resource = RReserved, ow_outcome = OPending, ow_phase = ''reserved'', ow_createdAt = Iso 1,
      ow_updatedAt = Iso 1, ow_sandboxUid = None, ow_phaseDeadlineAt = None, ow_dispatchedAt = None, ow_remoteFence = None,
      ow_parentOperationId = None, ow_reasonCode = None\<rparr>"

lemma demo_path: "normalizeWritablePath ''a/b'' = Inr ''a/b''"
  by (simp add: normalizeWritablePath_def path_segments_def control_char_def Let_def)

lemma demo_record_valid: "valid_record (demo_record ''p'')" "valid_record (demo_record ''q'')"
  by (simp_all add: valid_record_def demo_record_def demo_scope_def validIdentifier_def control_char_def demo_path isRight_def Let_def)

lemma demo_validate:
  "validateOwnershipRecords (\<lambda>_. 9) [demo_record ''p''] = Inr [demo_record ''p'']"
  "validateOwnershipRecords (\<lambda>_. 9) [demo_record ''p'', demo_record ''q''] = Inr [demo_record ''p'', demo_record ''q'']"
  using demo_record_valid
  by (simp_all add: validateOwnershipRecords_def LIMIT_RECORDS_def LIMIT_BYTES_def ancestry_ok.simps) (simp_all add: demo_record_def)

lemma demo_reserve:
  "reserve_change (demo_record ''p'') (\<lambda>_. True) [] = Inr ([demo_record ''p''], demo_record ''p'')"
  "reserve_change (demo_record ''q'') (\<lambda>_. False) [demo_record ''p''] = Inr ([demo_record ''p'', demo_record ''q''], demo_record ''q'')"
  by (simp_all add: reserve_change_def LIMIT_RECORDS_def ownershipIsTerminal_def demo_record_def)

definition demo_journal_ops :: "journal_op list" where
  "demo_journal_ops =
     [ReserveOp 0 (demo_record ''p'') (\<lambda>_. True), SendOp 0 0, ReserveOp 1 (demo_record ''q'') (\<lambda>_. False), SendOp 1 0]"

lemma demo_journal:
  "jw_history (journal_run (\<lambda>_. 9) demo_kube demo_journal_ops) =
     [(''vv'', [demo_record ''p'', demo_record ''q'']), (''v'', [demo_record ''p''])]"
  by (simp add: journal_run_def demo_journal_ops_def journal_step_def prepared_request_def prepare_write_def readSnapshot_def current_read_def
      demo_reserve demo_validate demo_kube_def)

lemma journal_atomic_witness: "atomic_change [demo_record ''p''] [demo_record ''p'', demo_record ''q'']"
  using journal_atomic [OF demo_kube_cas, of "\<lambda>_. 9" demo_journal_ops] unfolding demo_journal by simp

text \<open>C13. Unresolved work is never forgotten. A record that is not terminal in some content of the journal is still there in
  the newest content, with the same owner and attempt and a revision not below, and still unresolved, unless its
  own terminal record was written in between; and a terminal record never becomes unresolved again in the next
  content.\<close>

theorem ownership_kept:
  assumes "cas_writes kube" "jw_history (journal_run bytes kube ops) = newer @ (v, old) # older" "r \<in> set old"
  shows "(\<not> ownershipIsTerminal r \<longrightarrow>
      (\<exists>(v', c) \<in> set newer. \<exists>r' \<in> set c. same_owner r r' \<and> ownershipIsTerminal r') \<or>
      (\<exists>r' \<in> set (snd (hd (newer @ [(v, old)]))). same_owner r r' \<and> ow_revision r \<le> ow_revision r' \<and> \<not> ownershipIsTerminal r')) \<and>
    (\<forall>v' new earlier r'. newer = earlier @ [(v', new)] \<and> ownershipIsTerminal r \<and> r' \<in> set new \<and> ow_operationId r' = ow_operationId r \<longrightarrow>
      ownershipIsTerminal r')"
proof -
  have ok: "journal_ok bytes (journal_run bytes kube ops)" by (rule journal_run_ok [OF assms(1)])
  then have chain: "atomic_chain (newer @ (v, old) # older)" using assms(2) by (simp add: journal_ok_def)
  have "validateOwnershipRecords bytes old = Inr old" using ok assms(2) by (auto simp: journal_ok_def)
  then have dist: "distinct (map ow_operationId old)" by (auto simp: validateOwnershipRecords_def split: if_splits)
  have drop: "atomic_chain (xs @ ys) \<Longrightarrow> atomic_chain ys" for xs ys
    by (induction xs) (auto dest: chain_tail)
  have "ownershipIsTerminal r'"
    if "newer = earlier @ [(v', new)]" "ownershipIsTerminal r" "r' \<in> set new" "ow_operationId r' = ow_operationId r" for v' new earlier r'
  proof -
    have "atomic_chain ((v', new) # (v, old) # older)" using chain that(1) drop [of earlier "(v', new) # (v, old) # older"] by (simp del: atomic_chain.simps)
    then have "atomic_change old new" by simp
    from atomic_terminal [OF this dist assms(3) that(2-4)] show ?thesis .
  qed
  then show ?thesis using chain_keeps [OF chain assms(3)] by blast
qed

lemma ownership_kept_witness:
  "\<exists>r' \<in> {demo_record ''p'', demo_record ''q''}. same_owner (demo_record ''p'') r' \<and> \<not> ownershipIsTerminal r'"
proof -
  have "\<not> ownershipIsTerminal (demo_record ''p'')" "\<not> ownershipIsTerminal (demo_record ''q'')"
    by (simp_all add: ownershipIsTerminal_def demo_record_def)
  then show ?thesis
    using ownership_kept [OF demo_kube_cas, of "\<lambda>_. 9" demo_journal_ops "[(''vv'', [demo_record ''p'', demo_record ''q''])]" "''v''"
        "[demo_record ''p'']" "[]" "demo_record ''p''"] demo_journal by auto
qed

text \<open>A reservation is refused while conflicting work is unresolved, and otherwise recorded: it changes the content
  only by adding its own record when no record that is not terminal conflicts, and never drops one of these.\<close>

theorem reserve_exclusive:
  assumes "reserve_change rec conflict old = Inr (new, result)"
  shows "(result = rec \<or> result \<in> set old \<and> same_owner rec result \<and> new = old) \<and> result \<in> set new \<and>
    (\<forall>r \<in> set new - set old. r = rec \<and> (\<forall>x \<in> set old. \<not> ownershipIsTerminal x \<longrightarrow> \<not> conflict x)) \<and>
    (\<forall>r \<in> set old. \<not> ownershipIsTerminal r \<longrightarrow> r \<in> set new)"
proof -
  have "(result = rec \<or> result \<in> set old \<and> same_owner rec result \<and> new = old) \<and> result \<in> set new"
    using assms by (auto simp: reserve_change_def Let_def same_owner_def split: option.splits if_splits dest: find_SomeD)
  then show ?thesis using reserve_keeps [OF assms] by blast
qed

lemma reserve_exclusive_witness: "demo_record ''p'' \<in> set [demo_record ''p'', demo_record ''q'']"
  using reserve_exclusive [OF demo_reserve(2)] by (simp add: ownershipIsTerminal_def demo_record_def)

text \<open>Two writable scopes overlap exactly when they are on the same storage and the directory of one lies in the
  directory of the other, segment by segment; paths that only share leading characters do not overlap.\<close>

theorem scopes_overlap_exact:
  assumes "normalizeWritablePath (ws_mountSubPath l) = Inr a" "normalizeWritablePath (ws_mountSubPath r) = Inr b"
  shows "scopesOverlap l r = Inr (ws_storageId l = ws_storageId r \<and>
     (prefix (path_segments (ws_mountSubPath l)) (path_segments (ws_mountSubPath r)) \<or>
      prefix (path_segments (ws_mountSubPath r)) (path_segments (ws_mountSubPath l))))"
proof -
  note l = normalize_segments [OF assms(1)] and r = normalize_segments [OF assms(2)]
  have "a = b \<or> starts_with_path a b \<longleftrightarrow> prefix (path_segments (ws_mountSubPath r)) (path_segments (ws_mountSubPath l))"
    unfolding l(1) r(1) by (rule join_segments [OF l(3) r(3) l(2) r(2)])
  moreover have "b = a \<or> starts_with_path b a \<longleftrightarrow> prefix (path_segments (ws_mountSubPath l)) (path_segments (ws_mountSubPath r))"
    unfolding l(1) r(1) by (rule join_segments [OF r(3) l(3) r(2) l(2)])
  ultimately show ?thesis using assms by (auto simp: scopesOverlap_def)
qed

lemma scopes_overlap_exact_witness: "scopesOverlap demo_scope (demo_scope\<lparr>ws_mountSubPath := ''a/b/c''\<rparr>) = Inr True"
proof -
  have "normalizeWritablePath ''a/b/c'' = Inr ''a/b/c''"
    by (simp add: normalizeWritablePath_def path_segments_def control_char_def Let_def)
  then show ?thesis
    using scopes_overlap_exact [of demo_scope "''a/b''" "demo_scope\<lparr>ws_mountSubPath := ''a/b/c''\<rparr>" "''a/b/c''"] demo_path
    by (simp add: demo_scope_def path_segments_def)
qed

end
