(* ===== verification/Acs_Drain.thy ===== *)
theory Acs_Drain
  imports Agent_Base
begin

text \<open>
  The drain of an orchestrator process before a deployment (\<^verbatim>\<open>acs-orchestrator/src/deploymentDrain.ts\<close>). The process stops
  admitting work, waits until the accepted work is done, publishes a proof and exits; a deadline or a cancellation
  resumes admission instead. The calls are synchronous, so within one call the count of requests in flight is one
  number. What the process does to its surroundings is recorded as a list of effects.
\<close>

section \<open>State and effects\<close>

datatype drain_state = DrainIdle | Draining | DrainCompleted | DrainTimedOut | DrainCancelled

record drain =
  dr_state :: drain_state
  dr_startedAt :: "int option"
  dr_deadlineAt :: "int option"
  dr_polling :: bool
  dr_lastBlockerLogAt :: int

definition initial_drain :: drain where
  "initial_drain = \<lparr>dr_state = DrainIdle, dr_startedAt = None, dr_deadlineAt = None, dr_polling = False, dr_lastBlockerLogAt = 0\<rparr>"

record drain_snapshot =
  sn_state :: drain_state
  sn_inflight :: nat
  sn_startedAt :: "int option"
  sn_deadlineAt :: "int option"

text \<open>What a call observes: requests in flight, the clock, the configured span, whether publishing works, and whether
  blockers can be described.\<close>

record drain_obs =
  ob_inflight :: nat
  ob_now :: int
  ob_deadlineMs :: int
  ob_publishes :: bool
  ob_describes :: bool

datatype drain_effect = Published drain_snapshot | PublishFailed drain_snapshot | Admission bool | DescribedBlockers | Exited

section \<open>Operations\<close>

definition drain_snapshot_of :: "drain_obs \<Rightarrow> drain \<Rightarrow> drain_snapshot" where
  "drain_snapshot_of ob d =
     \<lparr>sn_state = dr_state d, sn_inflight = ob_inflight ob, sn_startedAt = dr_startedAt d,
      sn_deadlineAt = (if dr_startedAt d = None then None else dr_deadlineAt d)\<rparr>"

definition drain_publish :: "drain_obs \<Rightarrow> drain \<Rightarrow> drain_effect \<times> bool" where
  "drain_publish ob d =
     ((if ob_publishes ob then Published else PublishFailed) (drain_snapshot_of ob d), ob_publishes ob)"

definition drain_begin :: "drain_obs \<Rightarrow> drain \<Rightarrow> drain \<times> drain_effect list" where
  "drain_begin ob d =
     (if dr_state d = Draining \<or> dr_state d = DrainCompleted then (d, [])
      else let d1 = d\<lparr>dr_startedAt := Some (ob_now ob), dr_deadlineAt := Some (ob_now ob + ob_deadlineMs ob),
                      dr_lastBlockerLogAt := ob_now ob, dr_state := Draining\<rparr> in
           case drain_publish ob d1 of
             (e, False) \<Rightarrow> (d1\<lparr>dr_state := DrainIdle\<rparr>, [e])
           | (e, True) \<Rightarrow> (d1\<lparr>dr_polling := True\<rparr>, [e, Admission True]))"

definition drain_resume :: "drain_obs \<Rightarrow> drain_state \<Rightarrow> drain \<Rightarrow> drain \<times> drain_effect list" where
  "drain_resume ob s d =
     (let d1 = d\<lparr>dr_polling := False, dr_state := s\<rparr> in (d1, [Admission False, fst (drain_publish ob d1)]))"

definition drain_tick :: "drain_obs \<Rightarrow> drain \<Rightarrow> drain \<times> drain_effect list" where
  "drain_tick ob d =
     (if dr_state d \<noteq> Draining then (d, [])
      else if ob_inflight ob = 0 then
        let d1 = d\<lparr>dr_state := DrainCompleted\<rparr> in
        (case drain_publish ob d1 of
           (e, False) \<Rightarrow> (d1\<lparr>dr_state := Draining\<rparr>, [e])
         | (e, True) \<Rightarrow> (d1\<lparr>dr_polling := False\<rparr>, [e, Exited]))
      else
        let due = ob_describes ob \<and> ob_now ob - dr_lastBlockerLogAt d \<ge> 60000;
            d1 = (if due then d\<lparr>dr_lastBlockerLogAt := ob_now ob\<rparr> else d);
            described = (if due then [DescribedBlockers] else []) in
        if (case dr_deadlineAt d1 of None \<Rightarrow> False | Some t \<Rightarrow> ob_now ob \<ge> t)
        then (case drain_resume ob DrainTimedOut d1 of (d2, es) \<Rightarrow> (d2, described @ es))
        else (d1, described))"

definition drain_cancel :: "drain_obs \<Rightarrow> drain \<Rightarrow> drain \<times> drain_effect list" where
  "drain_cancel ob d = (if dr_state d = Draining then drain_resume ob DrainCancelled d else (d, []))"

section \<open>Runs\<close>

datatype drain_call = BeginDrain drain_obs | TickDrain drain_obs | CancelDrain drain_obs

fun drain_apply :: "drain \<Rightarrow> drain_call \<Rightarrow> drain \<times> drain_effect list" where
  "drain_apply d (BeginDrain ob) = drain_begin ob d"
| "drain_apply d (TickDrain ob) = drain_tick ob d"
| "drain_apply d (CancelDrain ob) = drain_cancel ob d"

text \<open>The process: its drain, whether admission is closed, and everything that happened so far.\<close>

record drain_process =
  dp_drain :: drain
  dp_closed :: bool
  dp_log :: "drain_effect list"

fun absorb_effect :: "bool \<Rightarrow> drain_effect \<Rightarrow> bool" where
  "absorb_effect closed (Admission b) = b"
| "absorb_effect closed _ = closed"

definition drain_step :: "drain_process \<Rightarrow> drain_call \<Rightarrow> drain_process" where
  "drain_step p call =
     (case drain_apply (dp_drain p) call of
        (d, es) \<Rightarrow> \<lparr>dp_drain = d, dp_closed = foldl absorb_effect (dp_closed p) es, dp_log = dp_log p @ es\<rparr>)"

definition drain_start :: drain_process where
  "drain_start = \<lparr>dp_drain = initial_drain, dp_closed = False, dp_log = []\<rparr>"

text \<open>
  The invariant: admission is closed exactly while draining and after completion, the timer runs exactly while
  draining, a draining process has a deadline, and it has exited exactly when the drain is completed.
\<close>

definition drain_ok :: "drain_process \<Rightarrow> bool" where
  "drain_ok p \<longleftrightarrow>
     (dp_closed p \<longleftrightarrow> dr_state (dp_drain p) \<in> {Draining, DrainCompleted}) \<and>
     (dr_polling (dp_drain p) \<longleftrightarrow> dr_state (dp_drain p) = Draining) \<and>
     (dr_state (dp_drain p) = Draining \<longrightarrow> dr_deadlineAt (dp_drain p) \<noteq> None) \<and>
     (Exited \<in> set (dp_log p) \<longleftrightarrow> dr_state (dp_drain p) = DrainCompleted)"

lemmas drain_defs =
  drain_begin_def drain_tick_def drain_cancel_def drain_resume_def drain_publish_def drain_snapshot_of_def

lemma drain_step_ok: "drain_ok p \<Longrightarrow> drain_ok (drain_step p call)"
  by (cases call) (auto simp: drain_ok_def drain_step_def drain_defs Let_def split: if_splits option.splits)

text \<open>What is decided once: that the drain is completed.\<close>

definition completed_at :: "drain_process \<Rightarrow> unit \<Rightarrow> (int option \<times> drain_effect list) option" where
  "completed_at p _ = (if dr_state (dp_drain p) = DrainCompleted then Some (dr_startedAt (dp_drain p), dp_log p) else None)"

lemma drain_step_completed: "completed_at p u = Some v \<Longrightarrow> completed_at (drain_step p call) u = Some v"
  by (cases call) (auto simp: completed_at_def drain_step_def drain_defs split: if_splits)

interpretation completion: write_once drain_ok "\<lambda>_. True" completed_at drain_step
  by unfold_locales (simp_all add: drain_step_ok drain_step_completed)

lemma drain_start_ok: "drain_ok drain_start"
  by (simp add: drain_ok_def drain_start_def initial_drain_def)

lemma drain_run_ok: "drain_ok (foldl drain_step drain_start calls)"
  by (rule completion.run_inv [OF drain_start_ok]) (simp add: list_all_iff)

text \<open>An exit is the last effect of a tick that saw nothing in flight and published the completed snapshot.\<close>

lemma exit_effect:
  assumes "drain_apply d call = (d', es)" "Exited \<in> set es"
  shows "\<exists>ob. call = TickDrain ob \<and> dr_state d = Draining \<and> dr_state d' = DrainCompleted \<and> ob_inflight ob = 0 \<and>
    (\<exists>sn. es = [Published sn, Exited] \<and> sn_state sn = DrainCompleted \<and> sn_inflight sn = 0)"
  using assms by (cases call) (auto simp: drain_defs Let_def split: if_splits option.splits)

section \<open>Claims\<close>

text \<open>C30. Accepted work is never killed. In every run of begins, ticks and cancellations, admission is closed exactly
  while the process drains or has completed; an exit is caused by a tick that saw no request in flight while
  admission was closed, and follows the published proof of completion directly; and after it nothing else happens.\<close>

theorem drain_exits_clean:
  "(dp_closed (foldl drain_step drain_start calls) \<longleftrightarrow>
      dr_state (dp_drain (foldl drain_step drain_start calls)) \<in> {Draining, DrainCompleted}) \<and>
   (Exited \<in> set (dp_log (foldl drain_step drain_start calls)) \<longrightarrow>
     (\<exists>before ob after sn. calls = before @ TickDrain ob # after \<and> ob_inflight ob = 0 \<and>
        dp_closed (foldl drain_step drain_start before) \<and> sn_state sn = DrainCompleted \<and> sn_inflight sn = 0 \<and>
        Exited \<notin> set (dp_log (foldl drain_step drain_start before)) \<and>
        dp_log (foldl drain_step drain_start calls) = dp_log (foldl drain_step drain_start before) @ [Published sn, Exited]))"
proof -
  have "\<exists>before ob after sn. calls = before @ TickDrain ob # after \<and> ob_inflight ob = 0 \<and>
        dp_closed (foldl drain_step drain_start before) \<and> sn_state sn = DrainCompleted \<and> sn_inflight sn = 0 \<and>
        Exited \<notin> set (dp_log (foldl drain_step drain_start before)) \<and>
        dp_log (foldl drain_step drain_start calls) = dp_log (foldl drain_step drain_start before) @ [Published sn, Exited]"
    if "Exited \<in> set (dp_log (foldl drain_step drain_start calls))" using that
  proof (induction calls rule: rev_induct)
    case Nil
    then show ?case by (simp add: drain_start_def)
  next
    case (snoc call calls)
    let ?p = "foldl drain_step drain_start calls"
    obtain d es where ap: "drain_apply (dp_drain ?p) call = (d, es)" by fastforce
    have log: "dp_log (foldl drain_step drain_start (calls @ [call])) = dp_log ?p @ es" by (simp add: drain_step_def ap)
    show ?case
    proof (cases "Exited \<in> set (dp_log ?p)")
      case True
      then have "completed_at ?p () = Some (dr_startedAt (dp_drain ?p), dp_log ?p)"
        using drain_run_ok [of calls] by (simp add: completed_at_def drain_ok_def)
      from drain_step_completed [OF this, of call]
      have same: "dp_log (foldl drain_step drain_start (calls @ [call])) = dp_log ?p"
        by (simp add: completed_at_def split: if_splits)
      from snoc.IH [OF True] obtain before ob after sn where
        "calls = before @ TickDrain ob # after" "ob_inflight ob = 0" "dp_closed (foldl drain_step drain_start before)"
        "sn_state sn = DrainCompleted" "sn_inflight sn = 0" "Exited \<notin> set (dp_log (foldl drain_step drain_start before))"
        "dp_log ?p = dp_log (foldl drain_step drain_start before) @ [Published sn, Exited]" by blast
      with same show ?thesis
        by (intro exI [of _ before] exI [of _ ob] exI [of _ "after @ [call]"] exI [of _ sn]) simp
    next
      case False
      then have "Exited \<in> set es" using snoc.prems log by simp
      from exit_effect [OF ap this] obtain ob sn where e: "call = TickDrain ob" "dr_state (dp_drain ?p) = Draining"
        "ob_inflight ob = 0" "es = [Published sn, Exited]" "sn_state sn = DrainCompleted" "sn_inflight sn = 0" by blast
      have "dp_closed ?p" using drain_run_ok [of calls] e(2) by (simp add: drain_ok_def)
      with e False log show ?thesis
        by (intro exI [of _ calls] exI [of _ ob] exI [of _ "[]"] exI [of _ sn]) simp
    qed
  qed
  then show ?thesis using drain_run_ok [of calls] by (simp add: drain_ok_def)
qed

definition demo_drain_obs :: "nat \<Rightarrow> int \<Rightarrow> drain_obs" where
  "demo_drain_obs n t = \<lparr>ob_inflight = n, ob_now = t, ob_deadlineMs = 1000, ob_publishes = True, ob_describes = False\<rparr>"

lemma demo_drain_run:
  "dp_log (foldl drain_step drain_start [BeginDrain (demo_drain_obs 2 10), TickDrain (demo_drain_obs 1 500), TickDrain (demo_drain_obs 0 900)]) =
     [Published \<lparr>sn_state = Draining, sn_inflight = 2, sn_startedAt = Some 10, sn_deadlineAt = Some 1010\<rparr>, Admission True,
      Published \<lparr>sn_state = DrainCompleted, sn_inflight = 0, sn_startedAt = Some 10, sn_deadlineAt = Some 1010\<rparr>, Exited]"
  by (simp add: drain_step_def drain_start_def initial_drain_def drain_defs demo_drain_obs_def Let_def)

lemma drain_exits_clean_witness:
  "\<exists>before ob after. [BeginDrain (demo_drain_obs 2 10), TickDrain (demo_drain_obs 1 500), TickDrain (demo_drain_obs 0 900)] =
     before @ TickDrain ob # after \<and> ob_inflight ob = 0"
  using drain_exits_clean [of "[BeginDrain (demo_drain_obs 2 10), TickDrain (demo_drain_obs 1 500), TickDrain (demo_drain_obs 0 900)]"]
  unfolding demo_drain_run by auto

text \<open>A drain does not hold admission beyond its deadline: a tick at or after the deadline ends it, with admission open
  again unless nothing is in flight, when the process completes or, if the proof cannot be published, goes on
  draining.\<close>

theorem drain_deadline:
  assumes "dr_state (dp_drain (foldl drain_step drain_start calls)) = Draining"
    and "\<And>t. dr_deadlineAt (dp_drain (foldl drain_step drain_start calls)) = Some t \<Longrightarrow> t \<le> ob_now ob"
  shows "(let p = drain_step (foldl drain_step drain_start calls) (TickDrain ob) in
     (ob_inflight ob > 0 \<longrightarrow> dr_state (dp_drain p) = DrainTimedOut \<and> \<not> dp_closed p) \<and>
     (ob_inflight ob = 0 \<and> ob_publishes ob \<longrightarrow> dr_state (dp_drain p) = DrainCompleted) \<and>
     (ob_inflight ob = 0 \<and> \<not> ob_publishes ob \<longrightarrow> dp_drain p = dp_drain (foldl drain_step drain_start calls)))"
proof -
  let ?p = "foldl drain_step drain_start calls"
  obtain t where t: "dr_deadlineAt (dp_drain ?p) = Some t" "t \<le> ob_now ob"
    using drain_run_ok [of calls] assms by (auto simp: drain_ok_def)
  have "(dp_drain ?p)\<lparr>dr_state := Draining\<rparr> = dp_drain ?p" using assms(1) by (cases "dp_drain ?p") simp
  then show ?thesis using assms(1) t by (auto simp: Let_def drain_step_def drain_defs)
qed

lemma drain_deadline_witness:
  "\<not> dp_closed (drain_step (foldl drain_step drain_start [BeginDrain (demo_drain_obs 2 10)]) (TickDrain (demo_drain_obs 1 2000)))"
  using drain_deadline [of "[BeginDrain (demo_drain_obs 2 10)]" "demo_drain_obs 1 2000"]
  by (simp add: Let_def drain_step_def drain_start_def initial_drain_def drain_defs demo_drain_obs_def)

end
