(* ===== verification/Taskboard_Model.thy ===== *)
theory Taskboard_Model
  imports Agent_Base
begin

text \<open>
  The data of the task board (\<^verbatim>\<open>server/src/taskboard\<close>, \<^verbatim>\<open>shared/src/types/taskboard.ts\<close>) and its pure decisions
  (\<^verbatim>\<open>workflow/decider.ts\<close> and the helpers of \<^verbatim>\<open>storeExecutionLifecycle.ts\<close>, \<^verbatim>\<open>storeHelpers.ts\<close>, \<^verbatim>\<open>executionFields.ts\<close>). A table
  of the database is a list of rows; \<open>UPDATE ... WHERE\<close> is \<open>sql_update\<close> and its \<open>RETURNING\<close> rows are
  \<open>sql_returning\<close>. Columns that no modelled statement reads or writes are left out, as are the \<open>updated_at\<close>
  stamps except where a query reads them. Error values stand for the codes of the thrown errors.
\<close>

section \<open>Tables\<close>

definition sql_update :: "('r \<Rightarrow> bool) \<Rightarrow> ('r \<Rightarrow> 'r) \<Rightarrow> 'r list \<Rightarrow> 'r list" where
  "sql_update p f rows = map (\<lambda>r. if p r then f r else r) rows"

definition sql_returning :: "('r \<Rightarrow> bool) \<Rightarrow> ('r \<Rightarrow> 'r) \<Rightarrow> 'r list \<Rightarrow> 'r list" where
  "sql_returning p f rows = map f (filter p rows)"

datatype task_status = StBacklog | StTodo | StInProgress | StInReview | StReadyToMerge | StBlocked | StDone | StCanceled

datatype task_kind = TkDelivery | TkAdvisory | TkIntegration | TkRemediation

datatype purpose = PurposeWork | PurposeReview | PurposeMerge

datatype trigger = TriggerInitial | TriggerComment | TriggerResume | TriggerRetry

datatype next_action = ActNone | ActWork | ActReview | ActMerge

datatype execution_status = ExQueued | ExRunning | ExWaitingUser | ExWaitingApproval | ExSucceeded | ExFailed | ExCancelled

datatype board_role = RoleViewer | RoleEditor | RoleMaintainer | RoleOwner

record resume_context =
  rc_decision :: string
  rc_purpose :: purpose
  rc_requestedAt :: int
  rc_requestedBy :: string
  rc_consumedAt :: "int option"
  rc_consumedExecutionId :: "string option"

record task_row =
  tk_id :: string
  tk_boardId :: string
  tk_kind :: task_kind
  tk_status :: task_status
  tk_workflowVersion :: nat
  tk_mergedCommitOid :: "string option"
  tk_providerPullRequestId :: "string option"
  tk_model :: "string option"
  tk_stageModels :: "purpose \<Rightarrow> string option"
  tk_sortOrder :: int
  tk_resumeContext :: "resume_context option"
  tk_workflowEpoch :: int
  tk_nextAction :: next_action
  tk_nextActionRevision :: int
  tk_version :: int
  tk_completedAt :: "int option"
  tk_archivedAt :: "int option"
  tk_deletedAt :: "int option"
  tk_created :: bool

record execution_row =
  ex_id :: string
  ex_taskId :: string
  ex_runId :: string
  ex_sessionId :: string
  ex_status :: execution_status
  ex_purpose :: purpose
  ex_trigger :: trigger
  ex_protocolVersion :: nat
  ex_attemptId :: "string option"
  ex_requestedBy :: string
  ex_error :: "string option"
  ex_transitionedAt :: "int option"
  ex_supersededAt :: "int option"
  ex_fenceEpoch :: int
  ex_terminalReason :: "string option"
  ex_startedAt :: "int option"
  ex_finishedAt :: "int option"
  ex_createdAt :: int
  ex_reconcileLease :: "(string \<times> int) option"

record board_row =
  bo_id :: string
  bo_tenantId :: string
  bo_ownerUserId :: string
  bo_organization :: bool
  bo_members :: "(string \<times> board_role) list"
  bo_archivedAt :: "int option"
  bo_model :: "string option"
  bo_stageModels :: "purpose \<Rightarrow> string option"
  bo_repository :: "(string \<times> string) option"
  bo_onReady :: "(string \<times> int) option"
  bo_maxTransientRetries :: "int option"

record source_row =
  so_id :: string
  so_integrationTaskId :: string
  so_deliveryTaskId :: string
  so_state :: string
  so_mergedCommitOid :: "string option"
  so_providerReceiptId :: "string option"
  so_lastError :: "string option"

record remediation_row =
  ra_id :: string
  ra_sourceId :: string
  ra_round :: nat
  ra_taskId :: string
  ra_state :: string
  ra_resolvedAt :: "int option"

datatype cancellation_status = CxPending | CxProcessing | CxCompleted | CxFailed

record cancellation_row =
  cx_id :: string
  cx_executionId :: string
  cx_runId :: string
  cx_taskId :: string
  cx_reason :: string
  cx_fenceEpoch :: int
  cx_status :: cancellation_status
  cx_attempts :: nat
  cx_lastError :: "string option"
  cx_createdAt :: int
  cx_updatedAt :: int

record comment_row =
  cm_id :: string
  cm_taskId :: string
  cm_body :: string
  cm_authorType :: string
  cm_authorId :: string
  cm_eligible :: bool
  cm_continuationRunId :: "string option"
  cm_createdAt :: int

record change_row =
  ch_taskId :: string
  ch_type :: string
  ch_actorType :: string
  ch_actorId :: string
  ch_executionId :: "string option"
  ch_payload :: "(string \<times> string) list"

record episode_row =
  ep_taskId :: string
  ep_purpose :: purpose
  ep_executionId :: string
  ep_reasonCode :: string
  ep_openedAt :: int
  ep_closedAt :: "int option"

record agent_row =
  ag_integrationTaskId :: string
  ag_repositoryId :: string
  ag_status :: string
  ag_durableSessionId :: "string option"
  ag_reviewHeadOid :: "string option"
  ag_verdict :: "string option"
  ag_reviewExecutionId :: "string option"
  ag_mergeInFlight :: "(string option \<times> string option \<times> string option)"

record lane_row =
  la_repositoryId :: string
  la_activeTaskId :: "string option"
  la_leaseId :: "string option"
  la_epoch :: int

record authorization_row =
  au_integrationTaskId :: string
  au_revokedAt :: "int option"

record merge_operation_row =
  mo_sourceId :: string
  mo_state :: string

record dispatch_row =
  dx_runId :: string
  dx_executionId :: string
  dx_dispatched :: bool
  dx_leaseId :: "string option"
  dx_lastError :: "string option"
  dx_dispatchedAt :: "int option"

record attempt_row =
  at_id :: string
  at_executionId :: string
  at_runId :: string
  at_trigger :: trigger
  at_source :: string
  at_actorUserId :: string

record continuation_row =
  cn_taskId :: string
  cn_runId :: string
  cn_commentId :: string
  cn_completed :: bool
  cn_lastError :: "string option"

record trigger_row =
  tr_boardId :: string
  tr_taskId :: string
  tr_policyRevision :: string
  tr_availableAt :: int
  tr_open :: bool

record board_db =
  db_tasks :: "task_row list"
  db_executions :: "execution_row list"
  db_boards :: "board_row list"
  db_sources :: "source_row list"
  db_remediations :: "remediation_row list"
  db_cancellations :: "cancellation_row list"
  db_comments :: "comment_row list"
  db_changes :: "change_row list"
  db_episodes :: "episode_row list"
  db_agents :: "agent_row list"
  db_lanes :: "lane_row list"
  db_authorizations :: "authorization_row list"
  db_mergeOperations :: "merge_operation_row list"
  db_dispatches :: "dispatch_row list"
  db_attempts :: "attempt_row list"
  db_continuations :: "continuation_row list"
  db_triggers :: "trigger_row list"

datatype taskboard_error =
    NotFound | PermissionDenied | VersionConflict | ValidationError
  | MigrationRequired | TerminalForbidden | IntegrationStateInvalid | MergeRequiresIntegration | ReviewRequiresInReview
  | ResumeRequired | ExecutionRequiresTodo | ExecutionFenced | TransitionInvalid | PullRequestRequired | CommentRequired
  | IntegrationTransitionInvalid | ResumeInvalid | ResumeSourceForbidden | AgentResumeInvalid | RemediationKindInvalid
  | AgentRequired | ProviderResultUnknown | IntegrationCancelRequired | BoardArchived | TaskArchived
  | ExecutionActive | IdempotencyConflict | ModelChanged | OwnerChanged | RepositoryRequired | ReviewTriggerRequired
  | FactMismatch | LeaseMissing | UniqueViolation

section \<open>The decider\<close>

definition terminal_status :: "task_status \<Rightarrow> bool" where
  "terminal_status s \<longleftrightarrow> s = StDone \<or> s = StCanceled"

definition isIrreversibleMerged :: "task_row \<Rightarrow> bool \<Rightarrow> bool" where
  "isIrreversibleMerged task hasMergeFact \<longleftrightarrow> truthy (tk_mergedCommitOid task) \<or> hasMergeFact"

definition purposeForIntegrationAgentStatus :: "task_status \<Rightarrow> purpose option" where
  "purposeForIntegrationAgentStatus s = (if s = StTodo \<or> s = StInProgress then Some PurposeWork else None)"

definition assertIntegrationExecutionMigrated :: "task_row \<Rightarrow> taskboard_error + unit" where
  "assertIntegrationExecutionMigrated task =
     (if tk_kind task = TkIntegration \<and> tk_workflowVersion task \<noteq> 3 then Inl MigrationRequired else Inr ())"

definition assertExecutionRequestAllowed :: "task_row \<Rightarrow> purpose \<Rightarrow> bool \<Rightarrow> bool \<Rightarrow> taskboard_error + unit" where
  "assertExecutionRequestAllowed task purpose allowInitialInProgress hasMergeFact =
     (if terminal_status (tk_status task) \<or> isIrreversibleMerged task hasMergeFact then Inl TerminalForbidden
      else if tk_kind task = TkIntegration then
        bind_res (assertIntegrationExecutionMigrated task) (\<lambda>_.
        if purpose \<noteq> PurposeWork \<or> purposeForIntegrationAgentStatus (tk_status task) = None
        then Inl IntegrationStateInvalid else Inr ())
      else if purpose = PurposeMerge then Inl MergeRequiresIntegration
      else if purpose = PurposeReview then
        (if tk_kind task = TkAdvisory \<or> tk_status task \<noteq> StInReview then Inl ReviewRequiresInReview else Inr ())
      else if tk_status task = StBlocked then Inl ResumeRequired
      else if tk_status task \<noteq> StTodo \<and> \<not> (allowInitialInProgress \<and> tk_status task = StInProgress)
      then Inl ExecutionRequiresTodo else Inr ())"

definition decideTransition :: "task_row \<Rightarrow> purpose \<Rightarrow> task_status \<Rightarrow> bool \<Rightarrow> taskboard_error + task_status" where
  "decideTransition task purpose status hasMergeFact =
     bind_res (assertIntegrationExecutionMigrated task) (\<lambda>_.
     if terminal_status (tk_status task) \<or> isIrreversibleMerged task hasMergeFact then Inl ExecutionFenced
     else if purpose = PurposeWork \<and> tk_status task \<notin> {StInProgress, StTodo} then Inl TransitionInvalid
     else if purpose = PurposeWork \<and> tk_kind task = TkIntegration \<and> (status = StDone \<or> status = StBlocked) then Inr status
     else if purpose = PurposeWork \<and> tk_kind task = TkAdvisory \<and> (status = StTodo \<or> status = StBlocked) then Inr status
     else if purpose = PurposeWork \<and> tk_kind task \<noteq> TkAdvisory \<and> tk_kind task \<noteq> TkIntegration \<and>
       (status = StInReview \<or> status = StBlocked) then Inr status
     else if purpose = PurposeReview \<and> tk_status task = StInReview then
       (if tk_kind task = TkRemediation \<and> status = StReadyToMerge then Inr StDone
        else if status \<in> (if tk_kind task = TkRemediation then {StDone, StTodo, StInReview, StBlocked}
                         else {StReadyToMerge, StTodo, StInReview, StBlocked}) then Inr status
        else Inl TransitionInvalid)
     else Inl TransitionInvalid)"

section \<open>Completion of an execution\<close>

datatype completion_status = CompSucceeded | CompFailed | CompCancelled

fun execution_status_of :: "completion_status \<Rightarrow> execution_status" where
  "execution_status_of CompSucceeded = ExSucceeded"
| "execution_status_of CompFailed = ExFailed"
| "execution_status_of CompCancelled = ExCancelled"

datatype live_status = LiveRunning | LiveWaitingUser | LiveWaitingApproval

fun execution_status_live :: "live_status \<Rightarrow> execution_status" where
  "execution_status_live LiveRunning = ExRunning"
| "execution_status_live LiveWaitingUser = ExWaitingUser"
| "execution_status_live LiveWaitingApproval = ExWaitingApproval"

record claim_input =
  ci_executionId :: string
  ci_runId :: string
  ci_sessionId :: string
  ci_purpose :: "purpose option"
  ci_trigger :: "trigger option"
  ci_protocolVersion :: "nat option"
  ci_attemptId :: "string option"
  ci_configuredModelRef :: "string option"
  ci_executionOwnerUserId :: string
  ci_expectedVersion :: int

record completion_input =
  co_status :: completion_status
  co_commentBody :: string
  co_error :: "string option"
  co_review :: "claim_input option"

definition UNFINISHED_V2_SUCCESS_PROTOCOL_ERROR :: string where
  "UNFINISHED_V2_SUCCESS_PROTOCOL_ERROR =
     ''Taskboard protocol v2 execution cannot succeed before execution.finish persists a transition''"

definition normalizeExecutionCompletion :: "nat \<Rightarrow> bool \<Rightarrow> completion_input \<Rightarrow> completion_input \<times> bool" where
  "normalizeExecutionCompletion protocolVersion hasProtocolTransition input =
     (if hasProtocolTransition \<and> co_status input \<noteq> CompSucceeded
      then (input\<lparr>co_status := CompSucceeded, co_error := None\<rparr>, False)
      else if protocolVersion = 2 \<and> co_status input = CompSucceeded \<and> \<not> hasProtocolTransition
      then (input\<lparr>co_status := CompFailed, co_error := Some UNFINISHED_V2_SUCCESS_PROTOCOL_ERROR\<rparr>, True)
      else (input, False))"

definition unresolvedExecutionRecovery ::
  "purpose \<Rightarrow> completion_status \<Rightarrow> int \<Rightarrow> int \<Rightarrow> bool \<Rightarrow> task_status \<times> bool" where
  "unresolvedExecutionRecovery purpose completionStatus failedCount maxRetries agentFirstIntegration =
     (if agentFirstIntegration then (StInProgress, False)
      else let exhausted = completionStatus = CompFailed \<and> failedCount \<ge> max 0 maxRetries in
        (if exhausted then StBlocked
         else if purpose = PurposeWork then StTodo
         else if purpose = PurposeReview then StInReview else StInProgress, exhausted))"

definition resolveExecutionModelRef ::
  "string option \<Rightarrow> (purpose \<Rightarrow> string option) \<Rightarrow> string option \<Rightarrow> purpose \<Rightarrow> (purpose \<Rightarrow> string option) \<Rightarrow> string option" where
  "resolveExecutionModelRef taskModel boardStageModels boardModel purpose taskStageModels =
     nullish (taskStageModels purpose) (nullish taskModel (nullish (boardStageModels purpose) boardModel))"

definition assertExecutionConfiguration ::
  "string option \<Rightarrow> string option \<Rightarrow> string \<Rightarrow> string \<Rightarrow> taskboard_error + unit" where
  "assertExecutionConfiguration currentModelRef requestedModelRef currentOwner requestedOwner =
     (if currentModelRef \<noteq> requestedModelRef then Inl ModelChanged
      else if currentOwner \<noteq> requestedOwner then Inl OwnerChanged else Inr ())"

definition assertWritableTask :: "task_row \<Rightarrow> int option \<Rightarrow> taskboard_error + unit" where
  "assertWritableTask task boardArchivedAt =
     (if boardArchivedAt \<noteq> None then Inl BoardArchived
      else if tk_archivedAt task \<noteq> None then Inl TaskArchived else Inr ())"

definition optionalText :: "string option \<Rightarrow> string option" where
  "optionalText v = (case v of None \<Rightarrow> None | Some s \<Rightarrow> if js_trim s = [] then None else Some (js_trim s))"

definition active_status :: "execution_status \<Rightarrow> bool" where
  "active_status s \<longleftrightarrow> s \<in> {ExQueued, ExRunning, ExWaitingUser, ExWaitingApproval}"

definition isTerminalExecutionStatus :: "execution_status \<Rightarrow> bool" where
  "isTerminalExecutionStatus s \<longleftrightarrow> s = ExSucceeded \<or> s = ExFailed \<or> s = ExCancelled"

lemma terminal_iff_inactive: "isTerminalExecutionStatus s \<longleftrightarrow> \<not> active_status s"
  by (cases s) (simp_all add: isTerminalExecutionStatus_def active_status_def)

section \<open>Access\<close>

record identity =
  id_tenantId :: string
  id_userId :: string

fun roleRank :: "board_role \<Rightarrow> nat" where
  "roleRank RoleOwner = 4"
| "roleRank RoleMaintainer = 3"
| "roleRank RoleEditor = 2"
| "roleRank RoleViewer = 1"

definition visible_board :: "identity \<Rightarrow> board_row \<Rightarrow> bool" where
  "visible_board who b \<longleftrightarrow> bo_tenantId b = id_tenantId who \<and> (bo_ownerUserId b = id_userId who \<or> bo_organization b)"

definition board_role_of :: "identity \<Rightarrow> board_row \<Rightarrow> board_role" where
  "board_role_of who b =
     (if bo_ownerUserId b = id_userId who then RoleOwner
      else case map_of (bo_members b) (id_userId who) of None \<Rightarrow> RoleViewer | Some r \<Rightarrow> r)"

definition requireBoardAccess :: "board_db \<Rightarrow> identity \<Rightarrow> string \<Rightarrow> board_role \<Rightarrow> taskboard_error + board_row" where
  "requireBoardAccess db who boardId minimum =
     (case List.find (\<lambda>b. bo_id b = boardId \<and> visible_board who b) (db_boards db) of
        None \<Rightarrow> Inl NotFound
      | Some b \<Rightarrow> if roleRank (board_role_of who b) < roleRank minimum then Inl PermissionDenied else Inr b)"

definition loadAccessibleTaskAndBoard :: "board_db \<Rightarrow> identity \<Rightarrow> string \<Rightarrow> taskboard_error + task_row \<times> board_row" where
  "loadAccessibleTaskAndBoard db who taskId =
     (case List.find (\<lambda>t. tk_id t = taskId \<and> tk_deletedAt t = None) (db_tasks db) of
        None \<Rightarrow> Inl NotFound
      | Some t \<Rightarrow>
          (case List.find (\<lambda>b. bo_id b = tk_boardId t \<and> visible_board who b) (db_boards db) of
             None \<Rightarrow> Inl NotFound
           | Some b \<Rightarrow> Inr (t, b)))"

text \<open>\<open>requireTaskWithBoard\<close> also wants the creation of the task to be complete.\<close>

definition requireTaskWithBoard :: "board_db \<Rightarrow> identity \<Rightarrow> string \<Rightarrow> taskboard_error + task_row \<times> board_row" where
  "requireTaskWithBoard db who taskId =
     bind_res (loadAccessibleTaskAndBoard db who taskId) (\<lambda>(t, b). if tk_created t then Inr (t, b) else Inl NotFound)"

section \<open>Lemmas\<close>

lemma sql_update_simps [simp]: "sql_update p f [] = []" "length (sql_update p f rows) = length rows"
  by (simp_all add: sql_update_def)

lemma in_sql_update: "r \<in> set (sql_update p f rows) \<longleftrightarrow> (\<exists>r0 \<in> set rows. r = (if p r0 then f r0 else r0))"
  by (auto simp: sql_update_def)

lemma map_sql_update: "(\<And>r. r \<in> set rows \<Longrightarrow> p r \<Longrightarrow> g (f r) = g r) \<Longrightarrow> map g (sql_update p f rows) = map g rows"
  by (auto simp: sql_update_def)

lemma in_returning: "r \<in> set (sql_returning p f rows) \<longleftrightarrow> (\<exists>r0 \<in> set rows. p r0 \<and> r = f r0)"
  by (auto simp: sql_returning_def)

lemma load_task_found:
  assumes "loadAccessibleTaskAndBoard db who taskId = Inr (t, b)"
  shows "t \<in> set (db_tasks db)" "tk_id t = taskId" "visible_board who b" "bo_id b = tk_boardId t" "b \<in> set (db_boards db)"
  using assms by (auto simp: loadAccessibleTaskAndBoard_def split: option.splits dest!: find_SomeD)

lemma require_task_found:
  assumes "requireTaskWithBoard db who taskId = Inr (t, b)"
  shows "t \<in> set (db_tasks db)" "tk_id t = taskId"
  using assms by (auto simp: requireTaskWithBoard_def bind_res_Inr_iff split: if_splits dest: load_task_found)

text \<open>The workflow of a task: where \<open>decideTransition\<close> leads.\<close>

lemma decide_cases:
  assumes "decideTransition task purpose status merged = Inr nxt"
  shows "\<not> terminal_status (tk_status task)" "\<not> isIrreversibleMerged task merged"
    "nxt = StReadyToMerge \<Longrightarrow> purpose = PurposeReview \<and> tk_status task = StInReview \<and> tk_kind task \<noteq> TkRemediation"
    "nxt = StDone \<Longrightarrow> (purpose = PurposeWork \<and> tk_kind task = TkIntegration) \<or> (purpose = PurposeReview \<and> tk_kind task = TkRemediation)"
    "nxt \<notin> {StBacklog, StInProgress, StCanceled}"
    "purpose = PurposeWork \<and> tk_status task \<in> {StTodo, StInProgress} \<or> purpose = PurposeReview \<and> tk_status task = StInReview"
  using assms
  by (auto simp: decideTransition_def bind_res_Inr_iff split: if_splits)

end
