(* ===== verification/Taskboard_Workflow.thy ===== *)
theory Taskboard_Workflow
  imports Taskboard_Model "HOL-Library.Char_ord" "HOL-Library.List_Lexorder" "HOL-Library.Product_Lexorder"
begin

text \<open>
  The workflow commands of the task board (\<^verbatim>\<open>server/src/taskboard/workflow\<close> and \<open>cancelIntegrationTask\<close> of \<^verbatim>\<open>v2Store.ts\<close>): what
  is known to be merged, fencing of executions, the transition that an agent makes when it finishes, resuming
  blocked work, completing a remediation after a merge, and the outbox of cancellations. A command runs in one
  transaction; an error rolls it back, so it returns no database. Rows are locked in the code, which makes
  transactions on one task run one after the other. Payloads of changes keep the entries that are strings.
\<close>

text \<open>What a transaction takes from outside: \<open>now()\<close>, \<open>clock_timestamp()\<close> and the generated identifiers.\<close>

record tx =
  tx_now :: int
  tx_clock :: int
  tx_uuid :: "nat \<Rightarrow> string"

section \<open>Facts and fences\<close>

definition source_merged :: "source_row \<Rightarrow> bool" where
  "source_merged s \<longleftrightarrow> so_state s = ''merged'' \<or> so_mergedCommitOid s \<noteq> None \<or> so_providerReceiptId s \<noteq> None"

definition loadWorkflowFacts :: "board_db \<Rightarrow> task_row \<Rightarrow> bool" where
  "loadWorkflowFacts db task \<longleftrightarrow>
     truthy (tk_mergedCommitOid task) \<or>
     (\<exists>s \<in> set (db_sources db). so_deliveryTaskId s = tk_id task \<and> source_merged s) \<or>
     (let own = filter (\<lambda>s. so_integrationTaskId s = tk_id task) (db_sources db) in own \<noteq> [] \<and> list_all source_merged own) \<or>
     (\<exists>a \<in> set (db_remediations db). ra_taskId a = tk_id task \<and>
        (\<exists>s \<in> set (db_sources db). so_id s = ra_sourceId a \<and> source_merged s))"

definition appendChange ::
  "string \<Rightarrow> string \<Rightarrow> string \<Rightarrow> string \<Rightarrow> string option \<Rightarrow> (string \<times> string) list \<Rightarrow> board_db \<Rightarrow> board_db" where
  "appendChange taskId changeType actorType actorId executionId payload db =
     db\<lparr>db_changes := db_changes db @
       [\<lparr>ch_taskId = taskId, ch_type = changeType, ch_actorType = actorType, ch_actorId = actorId,
         ch_executionId = executionId, ch_payload = payload\<rparr>]\<rparr>"

text \<open>The entry in the outbox of cancellations; on conflict it is renewed or left alone.\<close>

definition put_cancellation ::
  "tx \<Rightarrow> nat \<Rightarrow> bool \<Rightarrow> string \<Rightarrow> execution_row \<Rightarrow> cancellation_row list \<Rightarrow> cancellation_row list" where
  "put_cancellation tx i renew reason e rows =
     (if \<exists>c \<in> set rows. cx_executionId c = ex_id e then
        (if renew then
           sql_update (\<lambda>c. cx_executionId c = ex_id e)
             (\<lambda>c. c\<lparr>cx_reason := reason, cx_fenceEpoch := ex_fenceEpoch e, cx_status := CxPending, cx_attempts := 0,
                     cx_lastError := None, cx_updatedAt := tx_now tx\<rparr>) rows
         else rows)
      else rows @ [\<lparr>cx_id = tx_uuid tx i, cx_executionId = ex_id e, cx_runId = ex_runId e, cx_taskId = ex_taskId e,
                     cx_reason = reason, cx_fenceEpoch = ex_fenceEpoch e, cx_status = CxPending, cx_attempts = 0,
                     cx_lastError = None, cx_createdAt = tx_now tx, cx_updatedAt = tx_now tx\<rparr>])"

definition fence_hit :: "string list \<Rightarrow> string option \<Rightarrow> execution_row \<Rightarrow> bool" where
  "fence_hit taskIds exceptExecutionId e \<longleftrightarrow>
     ex_taskId e \<in> set taskIds \<and> (case exceptExecutionId of None \<Rightarrow> True | Some x \<Rightarrow> ex_id e \<noteq> x) \<and>
     active_status (ex_status e) \<and> ex_supersededAt e = None"

definition fence_row :: "tx \<Rightarrow> string \<Rightarrow> execution_row \<Rightarrow> execution_row" where
  "fence_row tx reason e =
     e\<lparr>ex_status := ExCancelled, ex_finishedAt := nullish (ex_finishedAt e) (Some (tx_now tx)),
        ex_supersededAt := nullish (ex_supersededAt e) (Some (tx_now tx)), ex_fenceEpoch := ex_fenceEpoch e + 1,
        ex_terminalReason := Some reason, ex_error := nullish (ex_error e) (Some reason)\<rparr>"

definition announce_fenced :: "tx \<Rightarrow> string \<Rightarrow> nat \<times> execution_row \<Rightarrow> board_db \<Rightarrow> board_db" where
  "announce_fenced tx reason ie db =
     (case ie of (i, e) \<Rightarrow>
        appendChange (ex_taskId e) ''execution.superseded'' ''system'' reason (Some (ex_id e))
          [(''runId'', ex_runId e), (''reason'', reason)]
          (db\<lparr>db_cancellations := put_cancellation tx i True reason e (db_cancellations db)\<rparr>))"

definition fenceTaskExecutions :: "tx \<Rightarrow> string list \<Rightarrow> string \<Rightarrow> string option \<Rightarrow> board_db \<Rightarrow> board_db \<times> nat" where
  "fenceTaskExecutions tx taskIds reason exceptExecutionId db =
     (let hit = fence_hit taskIds exceptExecutionId;
          fenced = sql_returning hit (fence_row tx reason) (db_executions db);
          db1 = db\<lparr>db_executions := sql_update hit (fence_row tx reason) (db_executions db)\<rparr> in
      (fold (announce_fenced tx reason) (enumerate 8 fenced) db1, length fenced))"

section \<open>Completing a remediation after a merge\<close>

definition open_attempt :: "string \<Rightarrow> string \<Rightarrow> string option \<Rightarrow> remediation_row \<Rightarrow> bool" where
  "open_attempt sourceId taskId attemptId a \<longleftrightarrow>
     ra_sourceId a = sourceId \<and> ra_taskId a = taskId \<and> ra_state a \<in> {''active'', ''resolved''} \<and>
     (case attemptId of None \<Rightarrow> True | Some x \<Rightarrow> ra_id a = x)"

definition complete_hit :: "string \<Rightarrow> task_row \<Rightarrow> bool" where
  "complete_hit taskId t \<longleftrightarrow> tk_id t = taskId \<and> tk_status t \<noteq> StCanceled \<and> (tk_status t \<noteq> StDone \<or> tk_completedAt t = None)"

definition complete_row :: "tx \<Rightarrow> task_row \<Rightarrow> task_row" where
  "complete_row tx t =
     (let step = (if tk_status t = StDone then 0 else 1) in
      t\<lparr>tk_status := StDone, tk_completedAt := nullish (tk_completedAt t) (Some (tx_now tx)),
         tk_workflowEpoch := tk_workflowEpoch t + step, tk_nextAction := ActNone,
         tk_nextActionRevision := tk_nextActionRevision t + step, tk_version := tk_version t + step\<rparr>)"

definition completeRemediationAfterMerge ::
  "tx \<Rightarrow> string \<Rightarrow> string \<Rightarrow> string \<Rightarrow> string option \<Rightarrow> board_db \<Rightarrow> taskboard_error + board_db \<times> bool" where
  "completeRemediationAfterMerge tx taskId sourceId commandId attemptId db =
     (case List.find (\<lambda>t. tk_id t = taskId) (db_tasks db) of
        None \<Rightarrow> Inr (db, False)
      | Some task \<Rightarrow>
          if tk_kind task \<noteq> TkRemediation then Inl RemediationKindInvalid
          else
            let mine = open_attempt sourceId taskId attemptId in
            if truthy attemptId \<and> filter mine (db_remediations db) = [] then Inr (db, False)
            else
              let taskHit = (\<lambda>t. tk_status task \<noteq> StCanceled \<and> complete_hit taskId t);
                  attemptHit = (\<lambda>a. mine a \<and> (ra_state a \<noteq> ''resolved'' \<or> ra_resolvedAt a = None));
                  changed = (filter taskHit (db_tasks db) \<noteq> [] \<or> filter attemptHit (db_remediations db) \<noteq> []);
                  db1 = db\<lparr>db_tasks := sql_update taskHit (complete_row tx) (db_tasks db),
                           db_remediations := sql_update attemptHit
                             (\<lambda>a. a\<lparr>ra_state := ''resolved'', ra_resolvedAt := nullish (ra_resolvedAt a) (Some (tx_now tx))\<rparr>)
                             (db_remediations db)\<rparr>;
                  known = (\<exists>c \<in> set (db_changes db). ch_taskId c = taskId \<and>
                             ch_type c = ''workflow.remediation_completed_after_merge'' \<and>
                             map_of (ch_payload c) ''commandId'' = Some commandId) in
              Inr (if changed \<and> \<not> known
                   then appendChange taskId ''workflow.remediation_completed_after_merge'' ''system'' commandId None
                          [(''commandId'', commandId), (''sourceId'', sourceId)] db1
                   else db1, changed))"

section \<open>Finishing an execution\<close>

definition EXECUTION_TRANSITIONED_REASON :: string where
  "EXECUTION_TRANSITIONED_REASON = ''execution_transitioned''"

definition recordExecutionFinishComment :: "tx \<Rightarrow> execution_row \<Rightarrow> string \<Rightarrow> board_db \<Rightarrow> taskboard_error + board_db" where
  "recordExecutionFinishComment tx e body db =
     (if js_trim body = [] then Inl CommentRequired
      else Inr (appendChange (ex_taskId e) ''execution.comment'' ''agent'' (ex_runId e) None [(''commentId'', tx_uuid tx 0)]
             (db\<lparr>db_comments := db_comments db @
                [\<lparr>cm_id = tx_uuid tx 0, cm_taskId = ex_taskId e, cm_body = js_trim body, cm_authorType = ''agent'',
                  cm_authorId = ex_runId e, cm_eligible = False, cm_continuationRunId = None, cm_createdAt = tx_now tx\<rparr>]\<rparr>)))"

fun next_action_for :: "task_status \<Rightarrow> next_action" where
  "next_action_for StTodo = ActWork"
| "next_action_for StInReview = ActReview"
| "next_action_for StReadyToMerge = ActMerge"
| "next_action_for _ = ActNone"

definition updateTaskStatus :: "tx \<Rightarrow> string \<Rightarrow> task_status \<Rightarrow> board_db \<Rightarrow> board_db" where
  "updateTaskStatus tx taskId status db =
     db\<lparr>db_tasks := sql_update (\<lambda>t. tk_id t = taskId)
       (\<lambda>t. t\<lparr>tk_status := status, tk_completedAt := (if status = StDone then Some (tx_now tx) else None),
               tk_workflowEpoch := tk_workflowEpoch t + 1, tk_nextAction := next_action_for status,
               tk_nextActionRevision := tk_nextActionRevision t + 1, tk_version := tk_version t + 1\<rparr>) (db_tasks db)\<rparr>"

definition recordBlock :: "tx \<Rightarrow> string \<Rightarrow> execution_row \<Rightarrow> string \<Rightarrow> board_db \<Rightarrow> board_db" where
  "recordBlock tx taskId e reasonCode db =
     db\<lparr>db_episodes := db_episodes db @
       [\<lparr>ep_taskId = taskId, ep_purpose = ex_purpose e, ep_executionId = ex_id e, ep_reasonCode = reasonCode,
         ep_openedAt = tx_now tx, ep_closedAt = None\<rparr>]\<rparr>"

definition assertActiveExecution :: "execution_row \<Rightarrow> taskboard_error + unit" where
  "assertActiveExecution e =
     (if \<not> active_status (ex_status e) \<or> ex_transitionedAt e \<noteq> None \<or> ex_supersededAt e \<noteq> None
      then Inl ExecutionFenced else Inr ())"

definition transition_hit :: "string \<Rightarrow> execution_row \<Rightarrow> bool" where
  "transition_hit executionId e \<longleftrightarrow> ex_id e = executionId \<and> ex_transitionedAt e = None"

definition transition_row :: "tx \<Rightarrow> execution_row \<Rightarrow> execution_row" where
  "transition_row tx e =
     e\<lparr>ex_transitionedAt := Some (tx_now tx), ex_fenceEpoch := ex_fenceEpoch e + 1,
        ex_terminalReason := Some EXECUTION_TRANSITIONED_REASON\<rparr>"

definition markTransitioned :: "tx \<Rightarrow> execution_row \<Rightarrow> board_db \<Rightarrow> taskboard_error + board_db" where
  "markTransitioned tx e db =
     (case sql_returning (transition_hit (ex_id e)) (transition_row tx) (db_executions db) of
        [] \<Rightarrow> Inl ExecutionFenced
      | row # _ \<Rightarrow>
          Inr (db\<lparr>db_executions := sql_update (transition_hit (ex_id e)) (transition_row tx) (db_executions db),
                  db_cancellations := put_cancellation tx 1 False EXECUTION_TRANSITIONED_REASON row (db_cancellations db)\<rparr>))"

definition clear_review :: "string \<Rightarrow> agent_row \<Rightarrow> agent_row" where
  "clear_review status a =
     a\<lparr>ag_status := status, ag_reviewHeadOid := None, ag_verdict := None, ag_reviewExecutionId := None,
        ag_mergeInFlight := (None, None, None)\<rparr>"

text \<open>An integration that is done closes its deliveries, its authorizations and its lane.\<close>

definition closed_delivery :: "board_db \<Rightarrow> string \<Rightarrow> task_row \<Rightarrow> bool" where
  "closed_delivery db integrationTaskId t \<longleftrightarrow>
     \<not> terminal_status (tk_status t) \<and>
     (\<exists>s \<in> set (db_sources db). so_integrationTaskId s = integrationTaskId \<and> so_deliveryTaskId s = tk_id t)"

definition close_integration :: "tx \<Rightarrow> string \<Rightarrow> board_db \<Rightarrow> board_db" where
  "close_integration tx taskId db =
     (let mine = (\<lambda>s. so_integrationTaskId s = taskId \<and> so_state s \<noteq> ''canceled'');
          deliveries = map tk_id (filter (\<lambda>t. \<exists>s \<in> set (db_sources db). mine s \<and> so_deliveryTaskId s = tk_id t) (db_tasks db));
          db1 = fst (fenceTaskExecutions tx deliveries ''integration_completed'' None db) in
      db1\<lparr>db_sources := sql_update mine (\<lambda>s. s\<lparr>so_state := ''merged'', so_lastError := None\<rparr>) (db_sources db1),
          db_tasks := sql_update (closed_delivery db1 taskId)
            (\<lambda>t. t\<lparr>tk_status := StDone, tk_completedAt := nullish (tk_completedAt t) (Some (tx_now tx)),
                    tk_version := tk_version t + 1\<rparr>) (db_tasks db1),
          db_authorizations := sql_update (\<lambda>a. au_integrationTaskId a = taskId \<and> au_revokedAt a = None)
            (\<lambda>a. a\<lparr>au_revokedAt := Some (tx_now tx)\<rparr>) (db_authorizations db1),
          db_lanes := sql_update (\<lambda>l. la_activeTaskId l = Some taskId)
            (\<lambda>l. l\<lparr>la_activeTaskId := None, la_leaseId := None, la_epoch := la_epoch l + 1\<rparr>) (db_lanes db1)\<rparr>)"

definition integration_row :: "tx \<Rightarrow> task_status \<Rightarrow> task_row \<Rightarrow> task_row" where
  "integration_row tx status t =
     t\<lparr>tk_status := status,
        tk_completedAt := (if status = StDone then nullish (tk_completedAt t) (Some (tx_now tx)) else None),
        tk_workflowEpoch := tk_workflowEpoch t + 1, tk_nextAction := ActNone,
        tk_nextActionRevision := tk_nextActionRevision t + 1, tk_version := tk_version t + 1\<rparr>"

definition transitionIntegrationAgent ::
  "tx \<Rightarrow> identity \<Rightarrow> task_row \<Rightarrow> execution_row \<Rightarrow> task_status \<Rightarrow> board_db \<Rightarrow> taskboard_error + board_db" where
  "transitionIntegrationAgent tx who task e status db =
     (if ex_purpose e \<noteq> PurposeWork \<or> (status \<noteq> StDone \<and> status \<noteq> StBlocked) then Inl IntegrationTransitionInvalid
      else
        let db1 = db\<lparr>db_agents := sql_update (\<lambda>a. ag_integrationTaskId a = tk_id task)
                       (clear_review (if status = StDone then ''merged'' else ''active'')) (db_agents db)\<rparr>;
            db2 = (if status = StDone then close_integration tx (tk_id task) db1 else db1);
            db3 = db2\<lparr>db_tasks := sql_update (\<lambda>t. tk_id t = tk_id task) (integration_row tx status) (db_tasks db2)\<rparr>;
            db4 = (if status = StBlocked then recordBlock tx (tk_id task) e ''agent_needs_human'' db3 else db3) in
        bind_res (markTransitioned tx e db4) (\<lambda>db5.
        Inr (appendChange (tk_id task) ''integration.agent.finished'' ''agent'' (id_userId who) None
               [(''executionId'', ex_id e), (''runId'', ex_runId e)] db5)))"

definition enqueueOnReadyTrigger :: "tx \<Rightarrow> board_row \<Rightarrow> string \<Rightarrow> board_db \<Rightarrow> board_db" where
  "enqueueOnReadyTrigger tx b taskId db =
     (case bo_onReady b of
        None \<Rightarrow> db
      | Some (revision, debounceMs) \<Rightarrow>
          if \<exists>r \<in> set (db_triggers db). tr_boardId r = bo_id b \<and> tr_open r then db
          else db\<lparr>db_triggers := db_triggers db @
                 [\<lparr>tr_boardId = bo_id b, tr_taskId = taskId, tr_policyRevision = revision,
                   tr_availableAt = tx_now tx + max 0 debounceMs, tr_open = True\<rparr>]\<rparr>)"

text \<open>The repeated finish of an integration that already made this transition is answered without a change.\<close>

definition finish_replayed :: "board_db \<Rightarrow> task_row \<Rightarrow> execution_row \<Rightarrow> task_status \<Rightarrow> string \<Rightarrow> bool" where
  "finish_replayed db task e targetStatus body \<longleftrightarrow>
     ex_transitionedAt e \<noteq> None \<and> tk_kind task = TkIntegration \<and> tk_workflowVersion task = 3 \<and>
     ex_purpose e = PurposeWork \<and> targetStatus = tk_status task \<and> (targetStatus = StDone \<or> targetStatus = StBlocked) \<and>
     (\<exists>c \<in> set (db_comments db). cm_taskId c = tk_id task \<and> cm_authorType c = ''agent'' \<and>
        cm_authorId c = ex_runId e \<and> cm_body c = js_trim body)"

definition finish_transition ::
  "tx \<Rightarrow> identity \<Rightarrow> task_row \<Rightarrow> board_row \<Rightarrow> execution_row \<Rightarrow> task_status \<Rightarrow> board_db \<Rightarrow> taskboard_error + board_db" where
  "finish_transition tx who task b e targetStatus db =
     (let hasMergeFact = loadWorkflowFacts db task in
      if terminal_status (tk_status task) \<or> hasMergeFact then Inl ExecutionFenced
      else bind_res (decideTransition task (ex_purpose e) targetStatus hasMergeFact) (\<lambda>nextStatus.
        if ex_purpose e = PurposeWork \<and> tk_kind task \<noteq> TkAdvisory \<and> nextStatus = StInReview \<and>
           \<not> truthy (tk_providerPullRequestId task) then Inl PullRequestRequired
        else
          let db1 = updateTaskStatus tx (tk_id task) nextStatus db;
              db2 = (if nextStatus = StBlocked then recordBlock tx (tk_id task) e ''agent_needs_human'' db1 else db1) in
          bind_res (markTransitioned tx e db2) (\<lambda>db3.
          let db4 = appendChange (tk_id task) ''execution.transitioned'' ''agent'' (id_userId who) None
                      [(''executionId'', ex_id e), (''runId'', ex_runId e)] db3 in
          Inr (if ex_purpose e = PurposeReview \<and> nextStatus = StReadyToMerge \<and> tk_kind task = TkDelivery
               then enqueueOnReadyTrigger tx b (tk_id task) db4 else db4))))"

text \<open>
  \<open>finishExecutionV2\<close>. For the target \<open>ready_to_merge\<close> the code first reconciles a pull request that was merged
  outside (\<^verbatim>\<open>deliveryPullRequests.ts\<close>, which asks the provider); this is the transaction that runs when there is none.
\<close>

definition finishExecutionV2 ::
  "tx \<Rightarrow> identity \<Rightarrow> string \<Rightarrow> task_status \<Rightarrow> string \<Rightarrow> board_db \<Rightarrow> taskboard_error + board_db" where
  "finishExecutionV2 tx who runId targetStatus body db =
     (case List.find (\<lambda>e. ex_runId e = runId) (db_executions db) of
        None \<Rightarrow> Inl NotFound
      | Some e \<Rightarrow>
          bind_res (loadAccessibleTaskAndBoard db who (ex_taskId e)) (\<lambda>(task, b).
          if finish_replayed db task e targetStatus body then Inr db
          else
            bind_res (assertActiveExecution e) (\<lambda>_.
            bind_res (assertIntegrationExecutionMigrated task) (\<lambda>_.
            bind_res (recordExecutionFinishComment tx e body db) (\<lambda>db1.
            if tk_kind task = TkIntegration then transitionIntegrationAgent tx who task e targetStatus db1
            else finish_transition tx who task b e targetStatus db1)))))"

section \<open>Resuming blocked work\<close>

definition close_episodes :: "tx \<Rightarrow> string \<Rightarrow> board_db \<Rightarrow> board_db" where
  "close_episodes tx taskId db =
     db\<lparr>db_episodes := sql_update (\<lambda>x. ep_taskId x = taskId \<and> ep_closedAt x = None)
       (\<lambda>x. x\<lparr>ep_closedAt := Some (tx_now tx)\<rparr>) (db_episodes db)\<rparr>"

definition resume_row :: "tx \<Rightarrow> identity \<Rightarrow> string \<Rightarrow> purpose \<Rightarrow> task_status \<Rightarrow> next_action \<Rightarrow> task_row \<Rightarrow> task_row" where
  "resume_row tx who decision purpose status action t =
     t\<lparr>tk_status := status, tk_completedAt := None, tk_workflowEpoch := tk_workflowEpoch t + 1, tk_nextAction := action,
        tk_nextActionRevision := tk_nextActionRevision t + 1,
        tk_resumeContext := Some \<lparr>rc_decision = decision, rc_purpose = purpose, rc_requestedAt = tx_clock tx,
          rc_requestedBy = id_userId who, rc_consumedAt = None, rc_consumedExecutionId = None\<rparr>,
        tk_version := tk_version t + 1\<rparr>"

text \<open>The purpose of the latest open episode.\<close>

definition open_purpose :: "board_db \<Rightarrow> string \<Rightarrow> purpose option" where
  "open_purpose db taskId =
     (case filter (\<lambda>x. ep_taskId x = taskId \<and> ep_closedAt x = None) (db_episodes db) of
        [] \<Rightarrow> None
      | xs \<Rightarrow> Some (ep_purpose (last (sort_key ep_openedAt xs))))"

definition resume_integration :: "tx \<Rightarrow> identity \<Rightarrow> string \<Rightarrow> string \<Rightarrow> board_db \<Rightarrow> taskboard_error + board_db" where
  "resume_integration tx who taskId decision db =
     (let live = (\<lambda>a. ag_integrationTaskId a = taskId \<and> ag_status a \<notin> {''merged'', ''canceled''}) in
      if filter live (db_agents db) = [] then Inl AgentResumeInvalid
      else
        let db1 = db\<lparr>db_agents := sql_update live (clear_review ''active'') (db_agents db),
                    db_tasks := sql_update (\<lambda>t. tk_id t = taskId)
                      (resume_row tx who decision PurposeWork StInProgress ActNone) (db_tasks db)\<rparr> in
        Inr (appendChange taskId ''integration.agent.resumed'' ''user'' (id_userId who) None [(''decision'', decision)]
               (close_episodes tx taskId db1)))"

definition resume_task :: "tx \<Rightarrow> identity \<Rightarrow> task_row \<Rightarrow> string \<Rightarrow> board_db \<Rightarrow> board_db" where
  "resume_task tx who task decision db =
     (let review = (open_purpose db (tk_id task) = Some PurposeReview \<and> tk_kind task \<noteq> TkAdvisory);
          db1 = db\<lparr>db_tasks := sql_update (\<lambda>t. tk_id t = tk_id task)
                  (resume_row tx who decision (if review then PurposeReview else PurposeWork)
                    (if review then StInReview else StTodo) (if review then ActReview else ActWork)) (db_tasks db)\<rparr> in
      appendChange (tk_id task) (if tk_kind task = TkIntegration then ''integration.resume_requested'' else ''task.resume_requested'')
        ''user'' (id_userId who) None [(''decision'', decision)] (close_episodes tx (tk_id task) db1))"

definition resumeBlockedTask ::
  "tx \<Rightarrow> identity \<Rightarrow> string \<Rightarrow> int \<Rightarrow> string \<Rightarrow> string list \<Rightarrow> board_db \<Rightarrow> taskboard_error + board_db" where
  "resumeBlockedTask tx who taskId expectedVersion decision sourceIds db =
     bind_res (loadAccessibleTaskAndBoard db who taskId) (\<lambda>(task, _).
     bind_res (requireBoardAccess db who (tk_boardId task) RoleMaintainer) (\<lambda>_.
     bind_res (assertIntegrationExecutionMigrated task) (\<lambda>_.
     bind_res (check (tk_version task = expectedVersion) VersionConflict) (\<lambda>_.
     bind_res (check (\<not> loadWorkflowFacts db task \<and> tk_status task = StBlocked) ResumeInvalid) (\<lambda>_.
     bind_res (check (js_trim decision \<noteq> []) ValidationError) (\<lambda>_.
     if tk_kind task = TkIntegration \<and> tk_workflowVersion task = 3 then
       (if sourceIds \<noteq> [] then Inl ResumeSourceForbidden else resume_integration tx who taskId (js_trim decision) db)
     else if sourceIds \<noteq> [] then Inl ValidationError
     else Inr (resume_task tx who task (js_trim decision) db)))))))"

section \<open>Cancelling an integration\<close>

definition free_lane :: "string \<Rightarrow> string \<Rightarrow> lane_row list \<Rightarrow> lane_row list" where
  "free_lane repositoryId taskId =
     sql_update (\<lambda>l. la_repositoryId l = repositoryId \<and> la_activeTaskId l = Some taskId)
       (\<lambda>l. l\<lparr>la_activeTaskId := None, la_leaseId := None, la_epoch := la_epoch l + 1\<rparr>)"

definition cancel_agent_integration :: "tx \<Rightarrow> identity \<Rightarrow> string \<Rightarrow> string \<Rightarrow> board_db \<Rightarrow> taskboard_error + board_db" where
  "cancel_agent_integration tx who taskId reason db =
     (case List.find (\<lambda>a. ag_integrationTaskId a = taskId) (db_agents db) of
        None \<Rightarrow> Inl AgentRequired
      | Some agent \<Rightarrow>
          let db1 = fst (fenceTaskExecutions tx [taskId] ''integration_canceled'' None db);
              db2 = db1\<lparr>db_agents := sql_update (\<lambda>a. ag_integrationTaskId a = taskId) (\<lambda>a. a\<lparr>ag_status := ''canceled''\<rparr>) (db_agents db1),
                        db_tasks := sql_update (\<lambda>t. tk_id t = taskId \<and> tk_workflowVersion t = 3)
                          (\<lambda>t. t\<lparr>tk_status := StCanceled, tk_completedAt := None, tk_nextAction := ActNone,
                                  tk_version := tk_version t + 1\<rparr>) (db_tasks db1),
                        db_sources := sql_update (\<lambda>s. so_integrationTaskId s = taskId \<and> so_state s \<noteq> ''merged'' \<and> so_mergedCommitOid s = None)
                          (\<lambda>s. s\<lparr>so_state := ''canceled'', so_lastError := Some reason\<rparr>) (db_sources db1),
                        db_lanes := free_lane (ag_repositoryId agent) taskId (db_lanes db1)\<rparr> in
          Inr (appendChange taskId ''integration.agent.canceled'' ''user'' (id_userId who) None [(''reason'', reason)] db2))"

definition cancel_legacy_integration ::
  "tx \<Rightarrow> identity \<Rightarrow> board_row \<Rightarrow> string \<Rightarrow> string \<Rightarrow> string option \<Rightarrow> board_db \<Rightarrow> taskboard_error + board_db" where
  "cancel_legacy_integration tx who b taskId reason given db =
     (if \<exists>m \<in> set (db_mergeOperations db). mo_state m \<in> {''executing'', ''unknown''} \<and>
         (\<exists>s \<in> set (db_sources db). so_id s = mo_sourceId m \<and> so_integrationTaskId s = taskId) then Inl ProviderResultUnknown
      else
        let db1 = fst (fenceTaskExecutions tx [taskId] ''integration_canceled'' None db);
            db2 = db1\<lparr>db_tasks := sql_update (\<lambda>t. tk_id t = taskId)
                        (\<lambda>t. t\<lparr>tk_status := StCanceled, tk_completedAt := None, tk_version := tk_version t + 1\<rparr>) (db_tasks db1),
                      db_sources := sql_update (\<lambda>s. so_integrationTaskId s = taskId \<and> so_state s \<noteq> ''merged'' \<and>
                          so_mergedCommitOid s = None \<and> so_providerReceiptId s = None)
                        (\<lambda>s. s\<lparr>so_state := ''canceled'', so_lastError := Some reason\<rparr>) (db_sources db1),
                      db_authorizations := sql_update (\<lambda>a. au_integrationTaskId a = taskId \<and> au_revokedAt a = None)
                        (\<lambda>a. a\<lparr>au_revokedAt := Some (tx_now tx)\<rparr>) (db_authorizations db1),
                      db_lanes := (case bo_repository b of None \<Rightarrow> db_lanes db1
                                   | Some (_, repositoryId) \<Rightarrow> if repositoryId = [] then db_lanes db1
                                       else free_lane repositoryId taskId (db_lanes db1))\<rparr> in
        Inr (appendChange taskId ''integration.canceled'' ''user'' (id_userId who) None
               (case given of None \<Rightarrow> [] | Some r \<Rightarrow> [(''reason'', r)]) db2))"

definition cancelIntegrationTask ::
  "tx \<Rightarrow> identity \<Rightarrow> string \<Rightarrow> int \<Rightarrow> string option \<Rightarrow> board_db \<Rightarrow> taskboard_error + board_db" where
  "cancelIntegrationTask tx who taskId expectedVersion reason db =
     bind_res (loadAccessibleTaskAndBoard db who taskId) (\<lambda>(task, b).
     let why = (case optionalText reason of None \<Rightarrow> ''Integration task canceled by user'' | Some r \<Rightarrow> r) in
     if roleRank (board_role_of who b) < roleRank RoleMaintainer then Inl PermissionDenied
     else if tk_kind task \<noteq> TkIntegration then Inl ValidationError
     else if tk_status task = StCanceled then Inr db
     else if tk_version task \<noteq> expectedVersion then Inl VersionConflict
     else if tk_status task = StDone then Inl ValidationError
     else if tk_workflowVersion task = 3 then cancel_agent_integration tx who taskId why db
     else cancel_legacy_integration tx who b taskId why (optionalText reason) db)"

section \<open>The outbox of cancellations\<close>

definition cancellation_due :: "int \<Rightarrow> cancellation_row \<Rightarrow> bool" where
  "cancellation_due now c \<longleftrightarrow>
     (cx_status c \<in> {CxPending, CxFailed} \<or> cx_status c = CxProcessing \<and> cx_updatedAt c < now - 300000) \<and>
     (cx_reason c \<noteq> EXECUTION_TRANSITIONED_REASON \<or> cx_createdAt c \<le> now - 30000)"

definition claimWorkflowCancellations :: "tx \<Rightarrow> int \<Rightarrow> board_db \<Rightarrow> board_db \<times> (string \<times> string \<times> string) list" where
  "claimWorkflowCancellations tx limit db =
     (let due = take (nat (max 1 (min limit 100)))
                  (sort_key (\<lambda>c. (cx_createdAt c, cx_id c)) (filter (cancellation_due (tx_now tx)) (db_cancellations db)));
          picked = (\<lambda>c. cx_id c \<in> cx_id ` set due) in
      (db\<lparr>db_cancellations := sql_update picked
            (\<lambda>c. c\<lparr>cx_status := CxProcessing, cx_attempts := cx_attempts c + 1, cx_lastError := None, cx_updatedAt := tx_now tx\<rparr>)
            (db_cancellations db)\<rparr>,
       map (\<lambda>c. (cx_id c, cx_runId c, cx_reason c)) (filter picked (db_cancellations db))))"

definition loadCancellationForUpdate :: "board_db \<Rightarrow> string \<Rightarrow> (cancellation_row \<times> execution_row) option" where
  "loadCancellationForUpdate db cid =
     (case List.find (\<lambda>c. cx_id c = cid) (db_cancellations db) of
        None \<Rightarrow> None
      | Some c \<Rightarrow>
          if List.find (\<lambda>t. tk_id t = cx_taskId c) (db_tasks db) = None then None
          else (case List.find (\<lambda>e. ex_id e = cx_executionId c) (db_executions db) of
                  None \<Rightarrow> None
                | Some e \<Rightarrow> Some (c, e)))"

definition isTransitionHandoff :: "cancellation_row \<Rightarrow> execution_row \<Rightarrow> bool" where
  "isTransitionHandoff c e \<longleftrightarrow>
     cx_reason c = EXECUTION_TRANSITIONED_REASON \<and> ex_transitionedAt e \<noteq> None \<and>
     ex_terminalReason e = Some EXECUTION_TRANSITIONED_REASON \<and>
     (active_status (ex_status e) \<or> ex_status e = ExFailed \<or> ex_status e = ExCancelled)"

definition handoff_hit :: "string \<Rightarrow> execution_row \<Rightarrow> bool" where
  "handoff_hit executionId e \<longleftrightarrow>
     ex_id e = executionId \<and> ex_transitionedAt e \<noteq> None \<and> ex_terminalReason e = Some EXECUTION_TRANSITIONED_REASON"

definition settle_row :: "tx \<Rightarrow> execution_status \<Rightarrow> string option \<Rightarrow> execution_row \<Rightarrow> execution_row" where
  "settle_row tx status error e =
     e\<lparr>ex_status := status, ex_error := error, ex_terminalReason := None, ex_supersededAt := None,
        ex_finishedAt := nullish (ex_finishedAt e) (Some (tx_now tx))\<rparr>"

definition completeTransitionHandoff :: "tx \<Rightarrow> cancellation_row \<Rightarrow> board_db \<Rightarrow> board_db" where
  "completeTransitionHandoff tx c db =
     (let hit = handoff_hit (cx_executionId c);
          db1 = db\<lparr>db_executions := sql_update hit (\<lambda>e. (settle_row tx ExSucceeded None e)\<lparr>ex_reconcileLease := None\<rparr>) (db_executions db)\<rparr>;
          known = (\<exists>x \<in> set (db_changes db). ch_taskId x = cx_taskId c \<and> ch_type x = ''execution.handoff_completed'' \<and>
                     ch_executionId x = Some (cx_executionId c)) in
      if filter hit (db_executions db) = [] then db
      else if known then db1
      else appendChange (cx_taskId c) ''execution.handoff_completed'' ''system'' (cx_runId c) (Some (cx_executionId c))
             [(''runId'', cx_runId c), (''status'', ''succeeded''), (''reason'', EXECUTION_TRANSITIONED_REASON)] db1)"

definition finishWorkflowCancellation :: "tx \<Rightarrow> string \<Rightarrow> string option \<Rightarrow> board_db \<Rightarrow> board_db" where
  "finishWorkflowCancellation tx cid error db =
     (let held = (\<lambda>c. cx_id c = cid \<and> cx_status c = CxProcessing) in
      if truthy error then
        db\<lparr>db_cancellations := sql_update held
             (\<lambda>c. c\<lparr>cx_status := CxFailed, cx_lastError := error, cx_updatedAt := tx_now tx\<rparr>) (db_cancellations db)\<rparr>
      else
        (case loadCancellationForUpdate db cid of
           None \<Rightarrow> db
         | Some (c, e) \<Rightarrow>
             if cx_status c \<noteq> CxProcessing then db
             else let db1 = (if isTransitionHandoff c e then completeTransitionHandoff tx c db else db) in
                  db1\<lparr>db_cancellations := sql_update held
                        (\<lambda>c. c\<lparr>cx_status := CxCompleted, cx_lastError := None, cx_updatedAt := tx_now tx\<rparr>) (db_cancellations db1)\<rparr>))"

datatype runtime_status = RuntimeCompleted | RuntimeFailed | RuntimeOrphaned

fun runtime_name :: "runtime_status \<Rightarrow> string" where
  "runtime_name RuntimeCompleted = ''completed''"
| "runtime_name RuntimeFailed = ''failed''"
| "runtime_name RuntimeOrphaned = ''orphaned''"

text \<open>The default reason names the status; its text is Chinese in the code.\<close>

definition runtime_reason :: "runtime_status \<Rightarrow> string option \<Rightarrow> string" where
  "runtime_reason status reason = (case optionalText reason of None \<Rightarrow> ''Runtime: '' @ runtime_name status | Some r \<Rightarrow> r)"

definition mark_dispatched :: "tx \<Rightarrow> string \<Rightarrow> board_db \<Rightarrow> board_db" where
  "mark_dispatched tx runId db =
     db\<lparr>db_dispatches := sql_update (\<lambda>x. dx_runId x = runId \<and> \<not> dx_dispatched x)
       (\<lambda>x. x\<lparr>dx_dispatched := True, dx_leaseId := None, dx_lastError := None,
               dx_dispatchedAt := nullish (dx_dispatchedAt x) (Some (tx_now tx))\<rparr>) (db_dispatches db)\<rparr>"

definition reconcileWorkflowCancellationTerminal ::
  "tx \<Rightarrow> string \<Rightarrow> string \<Rightarrow> runtime_status \<Rightarrow> string option \<Rightarrow> board_db \<Rightarrow> taskboard_error + board_db" where
  "reconcileWorkflowCancellationTerminal tx cid runId status reason db =
     (case loadCancellationForUpdate db cid of
        None \<Rightarrow> Inr db
      | Some (c, e) \<Rightarrow>
          if cx_runId c \<noteq> runId then Inl FactMismatch
          else if cx_status c = CxCompleted then Inr db
          else if cx_status c \<noteq> CxProcessing then Inl LeaseMissing
          else
            let handoff = isTransitionHandoff c e;
                fine = (handoff \<or> status = RuntimeCompleted);
                db1 = (if handoff then completeTransitionHandoff tx c db
                       else db\<lparr>db_executions := sql_update (\<lambda>x. ex_id x = cx_executionId c \<and> ex_status x = ExCancelled)
                              (settle_row tx (if fine then ExSucceeded else ExFailed) (if fine then None else Some (runtime_reason status reason)))
                              (db_executions db)\<rparr>);
                db2 = mark_dispatched tx runId db1;
                known = (\<exists>x \<in> set (db_changes db2). ch_taskId x = cx_taskId c \<and> ch_type x = ''execution.terminal_reconciled'' \<and>
                           ch_actorId x = cid);
                db3 = (if known then db2
                       else appendChange (cx_taskId c) ''execution.terminal_reconciled'' ''system'' cid (Some (cx_executionId c))
                              [(''runId'', runId), (''runtimeStatus'', runtime_name status)] db2) in
            Inr (db3\<lparr>db_cancellations := sql_update (\<lambda>x. cx_id x = cid)
                       (\<lambda>x. x\<lparr>cx_status := CxCompleted, cx_lastError := None, cx_updatedAt := tx_now tx\<rparr>) (db_cancellations db3)\<rparr>))"

end
