(* ===== verification/Taskboard_Execution.thy ===== *)
theory Taskboard_Execution
  imports Taskboard_Workflow
begin

text \<open>
  The life of an execution of the task board (\<^verbatim>\<open>server/src/taskboard/storeExecutionLifecycle.ts\<close>, \<^verbatim>\<open>executionCompletion.ts\<close>,
  \<open>finalizeExecutionForArchivedTask\<close> of \<^verbatim>\<open>archiveGuard.ts\<close>): it is claimed for a task, reports its status, is completed by the runtime or
  cancelled by a person. The unique index on active executions is part of the insertion.
\<close>

section \<open>Inserting executions\<close>

text \<open>Primary key, unique run and at most one active execution for each task.\<close>

definition insert_execution :: "execution_row \<Rightarrow> board_db \<Rightarrow> taskboard_error + board_db" where
  "insert_execution e db =
     (if \<exists>x \<in> set (db_executions db). ex_id x = ex_id e \<or> ex_runId x = ex_runId e \<or>
         ex_taskId x = ex_taskId e \<and> active_status (ex_status x) \<and> active_status (ex_status e)
      then Inl UniqueViolation else Inr (db\<lparr>db_executions := db_executions db @ [e]\<rparr>))"

definition queued_execution ::
  "tx \<Rightarrow> string \<Rightarrow> purpose \<Rightarrow> nat \<Rightarrow> string option \<Rightarrow> string \<Rightarrow> claim_input \<Rightarrow> execution_row" where
  "queued_execution tx taskId purpose protocolVersion attemptId requestedBy input =
     \<lparr>ex_id = ci_executionId input, ex_taskId = taskId, ex_runId = ci_runId input, ex_sessionId = ci_sessionId input,
      ex_status = ExQueued, ex_purpose = purpose,
      ex_trigger = (case ci_trigger input of None \<Rightarrow> TriggerInitial | Some t \<Rightarrow> t), ex_protocolVersion = protocolVersion,
      ex_attemptId = attemptId, ex_requestedBy = requestedBy, ex_error = None, ex_transitionedAt = None, ex_supersededAt = None,
      ex_fenceEpoch = 0, ex_terminalReason = None, ex_startedAt = None, ex_finishedAt = None, ex_createdAt = tx_now tx,
      ex_reconcileLease = None\<rparr>"

definition insert_dispatch :: "claim_input \<Rightarrow> board_db \<Rightarrow> board_db" where
  "insert_dispatch input db =
     db\<lparr>db_dispatches := db_dispatches db @
       [\<lparr>dx_runId = ci_runId input, dx_executionId = ci_executionId input, dx_dispatched = False, dx_leaseId = None,
         dx_lastError = None, dx_dispatchedAt = None\<rparr>]\<rparr>"

section \<open>Places in a column\<close>

definition DEFAULT_SORT_GAP :: int where
  "DEFAULT_SORT_GAP = 1024"

definition nextTaskColumnSortOrder :: "board_db \<Rightarrow> identity \<Rightarrow> string \<Rightarrow> string \<Rightarrow> task_status \<Rightarrow> int" where
  "nextTaskColumnSortOrder db who boardId taskId status =
     (let peers = filter (\<lambda>t. tk_boardId t = boardId \<and> tk_id t \<noteq> taskId \<and> tk_status t = status \<and> tk_archivedAt t = None \<and>
                    (\<exists>b \<in> set (db_boards db). bo_id b = boardId \<and> visible_board who b)) (db_tasks db) in
      (if peers = [] then 0 else Max (tk_sortOrder ` set peers)) + DEFAULT_SORT_GAP)"

section \<open>Claiming an execution\<close>

definition has_active_execution :: "board_db \<Rightarrow> string \<Rightarrow> bool" where
  "has_active_execution db taskId \<longleftrightarrow>
     (\<exists>e \<in> set (db_executions db). ex_taskId e = taskId \<and> active_status (ex_status e)) \<or>
     (\<exists>c \<in> set (db_continuations db). cn_taskId c = taskId \<and> \<not> cn_completed c)"

definition claim_purpose :: "task_row \<Rightarrow> claim_input \<Rightarrow> purpose" where
  "claim_purpose task input =
     (case ci_purpose input of
        Some p \<Rightarrow> p
      | None \<Rightarrow>
          (case (if tk_kind task = TkIntegration then purposeForIntegrationAgentStatus (tk_status task) else None) of
             Some p \<Rightarrow> p | None \<Rightarrow> PurposeWork))"

text \<open>An execution with the same id or run answers a repeated request.\<close>

definition claim_duplicate ::
  "board_db \<Rightarrow> identity \<Rightarrow> string \<Rightarrow> purpose \<Rightarrow> claim_input \<Rightarrow> (taskboard_error + execution_row) option" where
  "claim_duplicate db who taskId purpose input =
     (case filter (\<lambda>e. ex_id e = ci_executionId input \<or> ex_runId e = ci_runId input) (db_executions db) of
        [] \<Rightarrow> None
      | [e] \<Rightarrow> Some (if ex_taskId e \<noteq> taskId \<or> ex_purpose e \<noteq> purpose \<or> ex_requestedBy e \<noteq> id_userId who
                     then Inl IdempotencyConflict else Inr e)
      | _ \<Rightarrow> Some (Inl IdempotencyConflict))"

definition claim_checks ::
  "board_db \<Rightarrow> task_row \<Rightarrow> board_row \<Rightarrow> purpose \<Rightarrow> claim_input \<Rightarrow> taskboard_error + unit" where
  "claim_checks db task b purpose input =
     (let facts = loadWorkflowFacts db task in
      bind_res (if terminal_status (tk_status task) \<or> isIrreversibleMerged task facts
                then assertExecutionRequestAllowed task purpose False facts else Inr ()) (\<lambda>_.
      bind_res (check (\<not> has_active_execution db (tk_id task)) ExecutionActive) (\<lambda>_.
      bind_res (assertExecutionRequestAllowed task purpose (ci_trigger input = Some TriggerInitial) facts) (\<lambda>_.
      bind_res (assertExecutionConfiguration
                  (resolveExecutionModelRef (tk_model task) (bo_stageModels b) (bo_model b)
                     (if tk_kind task = TkIntegration then PurposeMerge else purpose) (tk_stageModels task))
                  (ci_configuredModelRef input) (bo_ownerUserId b) (ci_executionOwnerUserId input)) (\<lambda>_.
      bind_res (check (\<not> (tk_kind task \<noteq> TkIntegration \<and> tk_kind task \<noteq> TkAdvisory \<and>
                          (purpose = PurposeWork \<or> purpose = PurposeReview) \<and>
                          (case bo_repository b of None \<Rightarrow> True | Some (provider, _) \<Rightarrow> provider \<noteq> ''github'')))
                  RepositoryRequired) (\<lambda>_.
      check (tk_version task = ci_expectedVersion input) VersionConflict))))))"

definition consume_resume :: "tx \<Rightarrow> purpose \<Rightarrow> string \<Rightarrow> resume_context option \<Rightarrow> resume_context option" where
  "consume_resume tx purpose executionId rc =
     (case rc of
        Some r \<Rightarrow> if rc_consumedAt r = None \<and> rc_purpose r = purpose
                  then Some (r\<lparr>rc_consumedAt := Some (tx_clock tx), rc_consumedExecutionId := Some executionId\<rparr>) else rc
      | None \<Rightarrow> None)"

definition claimed_task :: "tx \<Rightarrow> purpose \<Rightarrow> string \<Rightarrow> int \<Rightarrow> task_row \<Rightarrow> task_row" where
  "claimed_task tx purpose executionId sortOrder t =
     t\<lparr>tk_status := (if purpose = PurposeReview then StInReview else StInProgress), tk_sortOrder := sortOrder,
        tk_completedAt := None, tk_resumeContext := consume_resume tx purpose executionId (tk_resumeContext t),
        tk_version := tk_version t + 1\<rparr>"

definition claim_effects :: "tx \<Rightarrow> identity \<Rightarrow> task_row \<Rightarrow> purpose \<Rightarrow> claim_input \<Rightarrow> board_db \<Rightarrow> taskboard_error + board_db" where
  "claim_effects tx who task purpose input db =
     (let runningStatus = (if purpose = PurposeReview then StInReview else StInProgress);
          sortOrder = (if purpose = PurposeReview \<or> purpose = PurposeMerge then tk_sortOrder task
                       else nextTaskColumnSortOrder db who (tk_boardId task) (tk_id task) runningStatus);
          attemptId = (case ci_attemptId input of None \<Rightarrow> tx_uuid tx 0 | Some a \<Rightarrow> a);
          e = queued_execution tx (tk_id task) purpose (case ci_protocolVersion input of None \<Rightarrow> 2 | Some v \<Rightarrow> v)
                (Some attemptId) (id_userId who) input in
      case insert_execution e db of
        Inl _ \<Rightarrow> Inl ExecutionActive
      | Inr db1 \<Rightarrow>
          let db2 = (insert_dispatch input db1)\<lparr>db_attempts := db_attempts db1 @
                      [\<lparr>at_id = attemptId, at_executionId = ex_id e, at_runId = ex_runId e, at_trigger = ex_trigger e,
                        at_source = (if ci_trigger input = Some TriggerComment then ''comment'' else ''direct''),
                        at_actorUserId = id_userId who\<rparr>]\<rparr>;
              agent = (tk_kind task = TkIntegration \<and> tk_workflowVersion task = 3 \<and> purpose = PurposeWork);
              db3 = db2\<lparr>db_agents := sql_update (\<lambda>a. agent \<and> ag_integrationTaskId a = tk_id task)
                          (\<lambda>a. a\<lparr>ag_durableSessionId := nullish (ag_durableSessionId a) (Some (ci_sessionId input))\<rparr>) (db_agents db2),
                        db_comments := sql_update (\<lambda>c. cm_taskId c = tk_id task \<and> cm_authorType c = ''user'' \<and> cm_eligible c \<and>
                            cm_continuationRunId c = None)
                          (\<lambda>c. c\<lparr>cm_continuationRunId := Some (ci_runId input)\<rparr>) (db_comments db2),
                        db_tasks := sql_update (\<lambda>t. tk_id t = tk_id task)
                          (claimed_task tx purpose (ex_id e) sortOrder) (db_tasks db2)\<rparr> in
          Inr (appendChange (tk_id task) ''execution.claimed'' ''user'' (id_userId who) None
                 [(''executionId'', ex_id e), (''runId'', ex_runId e)] (close_episodes tx (tk_id task) db3)))"

definition claimExecution ::
  "tx \<Rightarrow> identity \<Rightarrow> string \<Rightarrow> claim_input \<Rightarrow> board_db \<Rightarrow> taskboard_error + board_db" where
  "claimExecution tx who taskId input db =
     bind_res (requireTaskWithBoard db who taskId) (\<lambda>(task, b).
     bind_res (check (board_role_of who b \<noteq> RoleViewer) PermissionDenied) (\<lambda>_.
     bind_res (assertWritableTask task (bo_archivedAt b)) (\<lambda>_.
     bind_res (assertIntegrationExecutionMigrated task) (\<lambda>_.
     let purpose = claim_purpose task input in
     case claim_duplicate db who taskId purpose input of
       Some (Inl err) \<Rightarrow> Inl err
     | Some (Inr _) \<Rightarrow> Inr db
     | None \<Rightarrow> bind_res (claim_checks db task b purpose input) (\<lambda>_. claim_effects tx who task purpose input db)))))"

section \<open>Reporting and completing\<close>

definition setExecutionStatus :: "tx \<Rightarrow> string \<Rightarrow> live_status \<Rightarrow> board_db \<Rightarrow> board_db" where
  "setExecutionStatus tx runId status db =
     db\<lparr>db_executions := sql_update (\<lambda>e. ex_runId e = runId \<and> active_status (ex_status e))
       (\<lambda>e. e\<lparr>ex_status := execution_status_live status, ex_startedAt := nullish (ex_startedAt e) (Some (tx_now tx)), ex_reconcileLease := None\<rparr>)
       (db_executions db)\<rparr>"

definition lease_valid :: "tx \<Rightarrow> string \<Rightarrow> execution_row \<Rightarrow> bool" where
  "lease_valid tx leaseId e \<longleftrightarrow> (case ex_reconcileLease e of None \<Rightarrow> False | Some (l, t) \<Rightarrow> l = leaseId \<and> t > tx_clock tx)"

definition setExecutionStatusFromReconcile :: "tx \<Rightarrow> string \<Rightarrow> live_status \<Rightarrow> string \<Rightarrow> board_db \<Rightarrow> board_db" where
  "setExecutionStatusFromReconcile tx runId status leaseId db =
     db\<lparr>db_executions := sql_update (\<lambda>e. ex_runId e = runId \<and> lease_valid tx leaseId e \<and> active_status (ex_status e))
       (\<lambda>e. e\<lparr>ex_status := execution_status_live status, ex_startedAt := nullish (ex_startedAt e) (Some (tx_now tx))\<rparr>) (db_executions db)\<rparr>"

definition hasSuccessfulContinuationSince :: "board_db \<Rightarrow> string \<Rightarrow> int \<Rightarrow> bool" where
  "hasSuccessfulContinuationSince db taskId since \<longleftrightarrow>
     (\<exists>o1 \<in> set (db_continuations db). cn_taskId o1 = taskId \<and> cn_completed o1 \<and>
        (\<exists>c \<in> set (db_comments db). cm_id c = cn_commentId o1 \<and> cm_taskId c = cn_taskId o1 \<and> cm_authorType c = ''user'' \<and>
           cm_continuationRunId c = Some (cn_runId o1) \<and> cm_createdAt c \<ge> since))"

definition applyExecutionTaskCompletion ::
  "identity \<Rightarrow> task_row \<Rightarrow> execution_row \<Rightarrow> completion_input \<Rightarrow> board_db \<Rightarrow> board_db \<times> bool" where
  "applyExecutionTaskCompletion who task e input db =
     (if tk_kind task = TkIntegration \<or> ex_protocolVersion e = 2 \<or> truthy (tk_mergedCommitOid task) \<or>
         terminal_status (tk_status task)
      then (db, co_status input = CompSucceeded)
      else
        let succeeded = (co_status input = CompSucceeded \<or>
              ex_purpose e = PurposeWork \<and> hasSuccessfulContinuationSince db (tk_id task) (ex_createdAt e));
            reviewFailure = (ex_purpose e = PurposeReview \<and> \<not> succeeded);
            targetStatus = (if ex_purpose e = PurposeWork then Some (if succeeded then StInReview else StBlocked)
                            else if reviewFailure then Some StBlocked else None);
            shouldMove = (if ex_purpose e = PurposeWork then tk_status task = StInProgress
                          else reviewFailure \<and> tk_status task \<in> {StInReview, StReadyToMerge, StTodo}) in
        (case targetStatus of
           Some status \<Rightarrow>
             if shouldMove then
               (db\<lparr>db_tasks := sql_update (\<lambda>t. tk_id t = tk_id task)
                  (\<lambda>t. t\<lparr>tk_status := status,
                          tk_sortOrder := nextTaskColumnSortOrder db who (tk_boardId task) (tk_id task) status,
                          tk_completedAt := None, tk_version := tk_version t + 1\<rparr>) (db_tasks db)\<rparr>, succeeded)
             else (db, succeeded)
         | None \<Rightarrow> (db, succeeded)))"

definition enqueueAutomaticReview ::
  "tx \<Rightarrow> task_row \<Rightarrow> execution_row \<Rightarrow> bool \<Rightarrow> claim_input option \<Rightarrow> board_db \<Rightarrow> taskboard_error + board_db" where
  "enqueueAutomaticReview tx task e executionSucceeded review db =
     (case review of
        None \<Rightarrow> Inr db
      | Some r \<Rightarrow>
          if tk_kind task = TkIntegration \<and> tk_workflowVersion task = 3 then Inl ReviewTriggerRequired
          else if ex_purpose e \<noteq> PurposeWork \<or> \<not> executionSucceeded \<or> ci_purpose r \<noteq> Some PurposeReview \<or>
             ci_executionOwnerUserId r \<noteq> ex_requestedBy e then Inl ValidationError
          else if tk_status task \<noteq> StInProgress \<and> tk_status task \<noteq> StInReview then Inr db
          else bind_res (insert_execution (queued_execution tx (tk_id task) PurposeReview
                   (case ci_protocolVersion r of None \<Rightarrow> ex_protocolVersion e | Some v \<Rightarrow> v) None (ci_executionOwnerUserId r) r) db)
                 (\<lambda>db1. Inr (insert_dispatch r db1)))"

text \<open>How often this stage failed before, and how often it may. No row is grouped when there was no failure.\<close>

definition retry_policy :: "board_db \<Rightarrow> task_row \<Rightarrow> board_row \<Rightarrow> purpose \<Rightarrow> int \<times> int" where
  "retry_policy db task b purpose =
     (let prior = filter (\<lambda>e. ex_taskId e = tk_id task \<and> ex_purpose e = purpose \<and> ex_protocolVersion e = 2 \<and>
                    ex_status e = ExFailed) (db_executions db) in
      if prior = [] then (0, 3)
      else (int (length prior), max 0 (case bo_maxTransientRetries b of None \<Rightarrow> 3 | Some n \<Rightarrow> n)))"

definition recovered_task :: "task_status \<Rightarrow> purpose \<Rightarrow> int \<Rightarrow> task_row \<Rightarrow> task_row" where
  "recovered_task status purpose sortOrder t =
     t\<lparr>tk_status := status, tk_sortOrder := sortOrder, tk_completedAt := None, tk_workflowEpoch := tk_workflowEpoch t + 1,
        tk_nextAction := (case status of StTodo \<Rightarrow> ActWork | StInReview \<Rightarrow> ActReview
          | StInProgress \<Rightarrow> (case purpose of PurposeWork \<Rightarrow> ActWork | PurposeReview \<Rightarrow> ActReview | PurposeMerge \<Rightarrow> ActMerge)
          | _ \<Rightarrow> ActNone),
        tk_nextActionRevision := tk_nextActionRevision t + 1, tk_version := tk_version t + 1\<rparr>"

definition recover_task ::
  "identity \<Rightarrow> task_row \<Rightarrow> execution_row \<Rightarrow> task_status \<Rightarrow> board_db \<Rightarrow> board_db" where
  "recover_task who task e status db =
     db\<lparr>db_tasks := sql_update (\<lambda>t. tk_id t = tk_id task)
       (recovered_task status (ex_purpose e)
         (if status = tk_status task then tk_sortOrder task
          else nextTaskColumnSortOrder db who (tk_boardId task) (tk_id task) status)) (db_tasks db)\<rparr>"

definition recover_unfinished ::
  "tx \<Rightarrow> identity \<Rightarrow> task_row \<Rightarrow> board_row \<Rightarrow> execution_row \<Rightarrow> completion_status \<Rightarrow> board_db \<Rightarrow> board_db" where
  "recover_unfinished tx who task b e status db =
     (let (failedCount, maxRetries) = (if status = CompFailed then retry_policy db task b (ex_purpose e) else (0, 3));
          (retryStatus, exhausted) = unresolvedExecutionRecovery (ex_purpose e) status failedCount maxRetries
             (tk_kind task = TkIntegration \<and> tk_workflowVersion task = 3);
          db1 = recover_task who task e retryStatus db in
      if exhausted then recordBlock tx (tk_id task) e ''automatic_retry_exhausted'' db1 else db1)"

text \<open>The comment of the run, when it has none yet (attachments are left out).\<close>

definition deliver_comment :: "tx \<Rightarrow> task_row \<Rightarrow> execution_row \<Rightarrow> completion_input \<Rightarrow> board_db \<Rightarrow> board_db" where
  "deliver_comment tx task e input db =
     (if \<exists>ch \<in> set (db_changes db). ch_taskId ch = tk_id task \<and> ch_type ch = ''execution.comment'' \<and> ch_actorId ch = ex_runId e \<and>
         (\<exists>c \<in> set (db_comments db). map_of (ch_payload ch) ''commentId'' = Some (cm_id c)) then db
      else appendChange (tk_id task) ''execution.comment'' ''agent'' (ex_runId e) None [(''commentId'', tx_uuid tx 0)]
             (db\<lparr>db_comments := db_comments db @
                [\<lparr>cm_id = tx_uuid tx 0, cm_taskId = tk_id task, cm_body = js_trim (co_commentBody input), cm_authorType = ''agent'',
                  cm_authorId = ex_runId e, cm_eligible = False, cm_continuationRunId = None, cm_createdAt = tx_now tx\<rparr>]\<rparr>))"

definition ended_row :: "tx \<Rightarrow> completion_input \<Rightarrow> execution_row \<Rightarrow> execution_row" where
  "ended_row tx input e =
     e\<lparr>ex_status := execution_status_of (co_status input), ex_error := optionalText (co_error input),
        ex_finishedAt := Some (tx_now tx), ex_reconcileLease := None\<rparr>"

definition completed_row :: "tx \<Rightarrow> completion_input \<Rightarrow> execution_row \<Rightarrow> execution_row" where
  "completed_row tx input e =
     (ended_row tx input e)\<lparr>ex_terminalReason :=
        (if ex_terminalReason e = Some EXECUTION_TRANSITIONED_REASON then None else ex_terminalReason e)\<rparr>"

definition absorbed_row :: "tx \<Rightarrow> string \<Rightarrow> execution_row \<Rightarrow> execution_row" where
  "absorbed_row tx migrationError e =
     (let active = active_status (ex_status e) in
      e\<lparr>ex_status := (if active then ExFailed else ex_status e), ex_error := Some migrationError,
         ex_finishedAt := (if active then nullish (ex_finishedAt e) (Some (tx_now tx)) else ex_finishedAt e),
         ex_reconcileLease := None\<rparr>)"

definition MIGRATION_ERROR :: string where
  "MIGRATION_ERROR = ''Integration task requires Agent-first workflow migration''"

definition absorb_legacy :: "tx \<Rightarrow> string \<Rightarrow> board_db \<Rightarrow> board_db" where
  "absorb_legacy tx runId db =
     db\<lparr>db_executions := sql_update (\<lambda>e. ex_runId e = runId) (absorbed_row tx MIGRATION_ERROR) (db_executions db),
        db_dispatches := sql_update (\<lambda>x. dx_runId x = runId)
          (\<lambda>x. x\<lparr>dx_dispatched := True, dx_leaseId := None, dx_lastError := Some MIGRATION_ERROR,
                  dx_dispatchedAt := nullish (dx_dispatchedAt x) (Some (tx_now tx))\<rparr>) (db_dispatches db),
        db_continuations := sql_update (\<lambda>x. cn_runId x = runId)
          (\<lambda>x. x\<lparr>cn_completed := True, cn_lastError := Some MIGRATION_ERROR\<rparr>) (db_continuations db)\<rparr>"

definition release_dispatch :: "bool \<Rightarrow> string \<Rightarrow> board_db \<Rightarrow> board_db" where
  "release_dispatch all runId db =
     db\<lparr>db_dispatches := sql_update (\<lambda>x. dx_runId x = runId \<and> (all \<or> \<not> dx_dispatched x))
       (\<lambda>x. x\<lparr>dx_dispatched := True, dx_leaseId := None\<rparr>) (db_dispatches db)\<rparr>"

definition finalizeExecutionForArchivedTask :: "tx \<Rightarrow> execution_row \<Rightarrow> completion_input \<Rightarrow> board_db \<Rightarrow> board_db" where
  "finalizeExecutionForArchivedTask tx e input db =
     release_dispatch True (ex_runId e)
       (db\<lparr>db_executions := sql_update (\<lambda>x. ex_runId x = ex_runId e) (ended_row tx input) (db_executions db)\<rparr>)"

text \<open>The end of an execution that is still active, on a task that is not archived.\<close>

definition complete_active ::
  "tx \<Rightarrow> identity \<Rightarrow> task_row \<Rightarrow> board_row \<Rightarrow> execution_row \<Rightarrow> bool \<Rightarrow> completion_input \<Rightarrow> bool \<Rightarrow> board_db \<Rightarrow> taskboard_error + board_db" where
  "complete_active tx who task b e hasProtocolTransition input unfinishedStage db =
     (let hasMergeFact = loadWorkflowFacts db task;
          (db1, executionSucceeded) = applyExecutionTaskCompletion who task e input db;
          db2 = (if ex_protocolVersion e = 2 \<and> \<not> hasProtocolTransition \<and> co_status input \<noteq> CompSucceeded \<and>
                    \<not> hasMergeFact \<and> \<not> terminal_status (tk_status task)
                 then recover_unfinished tx who task b e (co_status input) db1 else db1);
          db3 = (if unfinishedStage then db2 else deliver_comment tx task e input db2);
          db4 = db3\<lparr>db_executions := sql_update (\<lambda>x. ex_runId x = ex_runId e) (completed_row tx input) (db_executions db3),
                    db_cancellations := sql_update (\<lambda>c. cx_executionId c = ex_id e \<and> cx_reason c = EXECUTION_TRANSITIONED_REASON \<and>
                        (cx_status c = CxPending \<or> cx_status c = CxFailed))
                      (\<lambda>c. c\<lparr>cx_status := CxCompleted, cx_lastError := None, cx_updatedAt := tx_now tx\<rparr>) (db_cancellations db3)\<rparr>;
          db5 = release_dispatch False (ex_runId e) db4 in
      bind_res (if unfinishedStage then Inr db5
                else enqueueAutomaticReview tx task e executionSucceeded (co_review input) db5) (\<lambda>db6.
      Inr (appendChange (tk_id task) ''execution.completed'' ''system'' (ex_runId e) None [(''executionId'', ex_id e)] db6)))"

text \<open>The identity is that of the owner of the board.\<close>

definition completeExecution ::
  "tx \<Rightarrow> string \<Rightarrow> completion_input \<Rightarrow> string option \<Rightarrow> board_db \<Rightarrow> taskboard_error + board_db" where
  "completeExecution tx runId input reconcileLeaseId db =
     (case List.find (\<lambda>e. ex_runId e = runId) (db_executions db) of
        None \<Rightarrow> Inr db
      | Some e \<Rightarrow>
          (case List.find (\<lambda>t. tk_id t = ex_taskId e) (db_tasks db) of
             None \<Rightarrow> Inr db
           | Some t0 \<Rightarrow>
               (case List.find (\<lambda>b. bo_id b = tk_boardId t0) (db_boards db) of
                  None \<Rightarrow> Inr db
                | Some b0 \<Rightarrow>
                    let who = \<lparr>id_tenantId = bo_tenantId b0, id_userId = bo_ownerUserId b0\<rparr> in
                    bind_res (requireTaskWithBoard db who (ex_taskId e)) (\<lambda>(task, b).
                    if (case reconcileLeaseId of None \<Rightarrow> False | Some l \<Rightarrow> \<not> lease_valid tx l e) then Inr db
                    else if tk_kind task = TkIntegration \<and> tk_workflowVersion task \<noteq> 3 then Inr (absorb_legacy tx runId db)
                    else if isTerminalExecutionStatus (ex_status e) then Inr (release_dispatch False runId db)
                    else
                      let hasProtocolTransition = (ex_protocolVersion e = 2 \<and> ex_transitionedAt e \<noteq> None);
                          (input', unfinishedStage) = normalizeExecutionCompletion (ex_protocolVersion e) hasProtocolTransition input in
                      if tk_archivedAt task \<noteq> None \<or> bo_archivedAt b \<noteq> None
                      then Inr (finalizeExecutionForArchivedTask tx e input' db)
                      else complete_active tx who task b e hasProtocolTransition input' unfinishedStage db))))"

section \<open>Cancelling an execution\<close>

definition cancelExecution ::
  "tx \<Rightarrow> identity \<Rightarrow> string \<Rightarrow> string \<Rightarrow> int \<Rightarrow> string option \<Rightarrow> board_db \<Rightarrow> taskboard_error + board_db" where
  "cancelExecution tx who taskId executionId expectedVersion reason db =
     bind_res (requireTaskWithBoard db who taskId) (\<lambda>(task, b).
     bind_res (check (roleRank RoleMaintainer \<le> roleRank (board_role_of who b)) PermissionDenied) (\<lambda>_.
     bind_res (assertWritableTask task (bo_archivedAt b)) (\<lambda>_.
     bind_res (check (tk_version task = expectedVersion) VersionConflict) (\<lambda>_.
     bind_res (check (tk_kind task \<noteq> TkIntegration) IntegrationCancelRequired) (\<lambda>_.
     case List.find (\<lambda>e. ex_id e = executionId \<and> ex_taskId e = taskId) (db_executions db) of
       None \<Rightarrow> Inl NotFound
     | Some e \<Rightarrow>
         if isTerminalExecutionStatus (ex_status e) then Inr db
         else
           (case fenceTaskExecutions tx [taskId] ''operator_cancelled'' None db of
              (db1, fenced) \<Rightarrow>
                if fenced = 0 then Inl ExecutionFenced
                else
                  let db2 = (if ex_transitionedAt e = None \<and> \<not> terminal_status (tk_status task)
                             then recover_task who task e (fst (unresolvedExecutionRecovery (ex_purpose e) CompCancelled 0 0 False)) db1
                             else db1) in
                  Inr (appendChange taskId ''execution.cancel_requested'' ''user'' (id_userId who) None
                         [(''executionId'', ex_id e), (''runId'', ex_runId e),
                          (''reason'', case optionalText reason of None \<Rightarrow> ''Operator cancelled the Agent execution'' | Some r \<Rightarrow> r)] db2)))))))"

end
