(* ===== verification/Taskboard_Run.thy ===== *)
theory Taskboard_Run
  imports Taskboard_Execution
begin

text \<open>
  The task board as a machine: every command of \<open>Taskboard_Workflow\<close> and \<open>Taskboard_Execution\<close> is a step, in any order and by any
  callers; a command that fails leaves the database as it was. A step is first shown to evolve the database row by
  row (\<open>evolves\<close>), then to keep the invariant \<open>board_ok\<close>. Other commands of the board (editing, continuations,
  reconciliation with the Git provider) are not part of the machine.
\<close>

section \<open>Evolution of rows\<close>

definition finishable :: "execution_row \<Rightarrow> bool" where
  "finishable e \<longleftrightarrow> active_status (ex_status e) \<and> ex_transitionedAt e = None \<and> ex_supersededAt e = None"

definition marked :: "execution_row \<Rightarrow> bool" where
  "marked e \<longleftrightarrow> ex_transitionedAt e \<noteq> None \<or> ex_supersededAt e \<noteq> None"

text \<open>An execution keeps its identity; it never becomes active again, and its transition is final.\<close>

definition exec_le :: "execution_row \<Rightarrow> execution_row \<Rightarrow> bool" where
  "exec_le e e' \<longleftrightarrow>
     ex_id e' = ex_id e \<and> ex_taskId e' = ex_taskId e \<and> ex_runId e' = ex_runId e \<and> ex_purpose e' = ex_purpose e \<and>
     (active_status (ex_status e') \<longrightarrow> active_status (ex_status e)) \<and> (finishable e' \<longrightarrow> finishable e) \<and>
     (ex_transitionedAt e \<noteq> None \<longrightarrow> ex_transitionedAt e' = ex_transitionedAt e)"

text \<open>A task keeps its identity and a terminal status; only with \<open>ready\<close> it may become ready to merge, and only with \<open>closing\<close>
  an integration may become terminal.\<close>

definition task_le :: "bool \<Rightarrow> bool \<Rightarrow> task_row \<Rightarrow> task_row \<Rightarrow> bool" where
  "task_le ready closing t t' \<longleftrightarrow>
     tk_id t' = tk_id t \<and> tk_kind t' = tk_kind t \<and> (terminal_status (tk_status t) \<longrightarrow> tk_status t' = tk_status t) \<and>
     (tk_status t' = StReadyToMerge \<longrightarrow> ready \<or> tk_status t = StReadyToMerge) \<and>
     (tk_kind t = TkIntegration \<and> terminal_status (tk_status t') \<longrightarrow> closing \<or> terminal_status (tk_status t))"

definition source_key :: "source_row \<Rightarrow> string \<times> string \<times> string" where
  "source_key s = (so_id s, so_integrationTaskId s, so_deliveryTaskId s)"

definition evolves :: "bool \<Rightarrow> bool \<Rightarrow> board_db \<Rightarrow> board_db \<Rightarrow> bool" where
  "evolves ready closing db db' \<longleftrightarrow>
     list_all2 exec_le (db_executions db) (db_executions db') \<and>
     list_all2 (task_le ready closing) (db_tasks db) (db_tasks db') \<and>
     map source_key (db_sources db') = map source_key (db_sources db)"

lemma exec_leD:
  assumes "exec_le e e'"
  shows "ex_id e' = ex_id e" "ex_taskId e' = ex_taskId e" "ex_runId e' = ex_runId e" "ex_purpose e' = ex_purpose e"
    "active_status (ex_status e') \<Longrightarrow> active_status (ex_status e)" "finishable e' \<Longrightarrow> finishable e"
    "ex_transitionedAt e \<noteq> None \<Longrightarrow> ex_transitionedAt e' = ex_transitionedAt e"
  using assms unfolding exec_le_def by simp_all

lemma task_leD:
  assumes "task_le ready closing t t'"
  shows "tk_id t' = tk_id t" "tk_kind t' = tk_kind t" "terminal_status (tk_status t) \<Longrightarrow> tk_status t' = tk_status t"
    "tk_status t' = StReadyToMerge \<Longrightarrow> ready \<or> tk_status t = StReadyToMerge"
    "tk_kind t = TkIntegration \<Longrightarrow> terminal_status (tk_status t') \<Longrightarrow> closing \<or> terminal_status (tk_status t)"
  using assms unfolding task_le_def by blast+

lemma exec_le_refl [simp]: "exec_le e e"
  by (simp add: exec_le_def)

lemma exec_le_trans: "exec_le a b \<Longrightarrow> exec_le b c \<Longrightarrow> exec_le a c"
  unfolding exec_le_def by (elim conjE, intro conjI impI) simp_all

lemma task_le_refl [simp]: "task_le ready closing t t"
  by (simp add: task_le_def)

lemma task_le_trans: "task_le ready closing a b \<Longrightarrow> task_le ready closing b c \<Longrightarrow> task_le ready closing a c"
  unfolding task_le_def by (metis (no_types, lifting))

lemma task_le_weaken: "task_le False False a b \<Longrightarrow> task_le ready closing a b"
  unfolding task_le_def by blast

lemma list_all2_after: "list_all2 P xs ys \<Longrightarrow> x \<in> set xs \<Longrightarrow> \<exists>y \<in> set ys. P x y"
  by (induction rule: list_all2_induct) auto

lemma list_all2_before: "list_all2 P xs ys \<Longrightarrow> y \<in> set ys \<Longrightarrow> \<exists>x \<in> set xs. P x y"
  by (induction rule: list_all2_induct) auto

lemma evolves_refl [simp]: "evolves ready closing db db"
  by (simp add: evolves_def list_all2_refl)

lemma evolves_trans [trans]: "evolves ready closing a b \<Longrightarrow> evolves ready closing b c \<Longrightarrow> evolves ready closing a c"
  unfolding evolves_def
  by (elim conjE, intro conjI list_all2_trans [OF exec_le_trans] list_all2_trans [OF task_le_trans]) simp_all

lemma evolves_weaken: "evolves False False a b \<Longrightarrow> evolves ready closing a b"
  unfolding evolves_def by (elim conjE, intro conjI list_all2_mono [OF _ task_le_weaken])

lemma list_all2_update:
  assumes "\<And>r. P r r" "\<And>r. r \<in> set rows \<Longrightarrow> p r \<Longrightarrow> P r (f r)"
  shows "list_all2 P rows (sql_update p f rows)"
  using assms by (auto simp: sql_update_def list.rel_map intro!: list.rel_refl_strong)

lemma evolves_same:
  assumes "db_executions db' = db_executions db" "db_tasks db' = db_tasks db" "db_sources db' = db_sources db"
  shows "evolves ready closing db db'"
  using assms by (simp add: evolves_def list_all2_refl)

lemma evolves_tasks:
  assumes "\<And>t. t \<in> set (db_tasks db) \<Longrightarrow> p t \<Longrightarrow> task_le ready closing t (f t)"
    and "db_executions db' = db_executions db" "db_tasks db' = sql_update p f (db_tasks db)"
    "map source_key (db_sources db') = map source_key (db_sources db)"
  shows "evolves ready closing db db'"
  using assms by (simp add: evolves_def list_all2_refl list_all2_update)

lemma evolves_executions:
  assumes "\<And>e. e \<in> set (db_executions db) \<Longrightarrow> p e \<Longrightarrow> exec_le e (f e)"
    and "db_executions db' = sql_update p f (db_executions db)" "db_tasks db' = db_tasks db" "db_sources db' = db_sources db"
  shows "evolves ready closing db db'"
  using assms by (simp add: evolves_def list_all2_refl list_all2_update)

text \<open>Rows before and after.\<close>

lemma evolves_execution_before:
  assumes "evolves ready closing db db'" "e' \<in> set (db_executions db')"
  obtains e where "e \<in> set (db_executions db)" "exec_le e e'"
proof -
  have "list_all2 exec_le (db_executions db) (db_executions db')" using assms(1) unfolding evolves_def by blast
  from list_all2_before [OF this assms(2)] that show thesis by blast
qed

lemma evolves_execution_after:
  assumes "evolves ready closing db db'" "e \<in> set (db_executions db)"
  obtains e' where "e' \<in> set (db_executions db')" "exec_le e e'"
proof -
  have "list_all2 exec_le (db_executions db) (db_executions db')" using assms(1) unfolding evolves_def by blast
  from list_all2_after [OF this assms(2)] that show thesis by blast
qed

lemma evolves_task_before:
  assumes "evolves ready closing db db'" "t' \<in> set (db_tasks db')"
  obtains t where "t \<in> set (db_tasks db)" "task_le ready closing t t'"
proof -
  have "list_all2 (task_le ready closing) (db_tasks db) (db_tasks db')" using assms(1) unfolding evolves_def by blast
  from list_all2_before [OF this assms(2)] that show thesis by blast
qed

lemma evolves_task_after:
  assumes "evolves ready closing db db'" "t \<in> set (db_tasks db)"
  obtains t' where "t' \<in> set (db_tasks db')" "task_le ready closing t t'"
proof -
  have "list_all2 (task_le ready closing) (db_tasks db) (db_tasks db')" using assms(1) unfolding evolves_def by blast
  from list_all2_after [OF this assms(2)] that show thesis by blast
qed

lemma list_all2_map_eq: "list_all2 P xs ys \<Longrightarrow> (\<And>x y. P x y \<Longrightarrow> f y = f x) \<Longrightarrow> map f ys = map f xs"
  by (induction rule: list_all2_induct) auto

lemma evolves_keys:
  assumes "evolves ready closing db db'"
  shows "map ex_id (db_executions db') = map ex_id (db_executions db)" "map ex_runId (db_executions db') = map ex_runId (db_executions db)"
    "map tk_id (db_tasks db') = map tk_id (db_tasks db)"
  using assms unfolding evolves_def by (blast intro: list_all2_map_eq exec_leD task_leD)+

section \<open>The invariant\<close>

text \<open>Every execution that was fenced or made its transition has one entry in the outbox of cancellations.\<close>

definition outbox_ok :: "board_db \<Rightarrow> bool" where
  "outbox_ok db \<longleftrightarrow>
     distinct (map cx_executionId (db_cancellations db)) \<and>
     (\<forall>e \<in> set (db_executions db). marked e \<longrightarrow> ex_id e \<in> cx_executionId ` set (db_cancellations db))"

definition integration_closed :: "board_db \<Rightarrow> bool" where
  "integration_closed db \<longleftrightarrow>
     (\<forall>t \<in> set (db_tasks db). \<forall>e \<in> set (db_executions db).
        tk_kind t = TkIntegration \<and> terminal_status (tk_status t) \<and> ex_taskId e = tk_id t \<longrightarrow> \<not> finishable e)"

definition one_active :: "board_db \<Rightarrow> bool" where
  "one_active db \<longleftrightarrow>
     (\<forall>e \<in> set (db_executions db). \<forall>x \<in> set (db_executions db).
        active_status (ex_status e) \<and> active_status (ex_status x) \<and> ex_taskId e = ex_taskId x \<longrightarrow> ex_id e = ex_id x)"

definition keys_ok :: "board_db \<Rightarrow> bool" where
  "keys_ok db \<longleftrightarrow>
     distinct (map tk_id (db_tasks db)) \<and> distinct (map ex_id (db_executions db)) \<and> distinct (map ex_runId (db_executions db)) \<and>
     (\<forall>s \<in> set (db_sources db). \<forall>t \<in> set (db_tasks db). so_deliveryTaskId s = tk_id t \<longrightarrow> tk_kind t \<noteq> TkIntegration)"

definition board_ok :: "board_db \<Rightarrow> bool" where
  "board_ok db \<longleftrightarrow> keys_ok db \<and> one_active db \<and> integration_closed db \<and> outbox_ok db"

lemma key_unique: "distinct (map f xs) \<Longrightarrow> x \<in> set xs \<Longrightarrow> y \<in> set xs \<Longrightarrow> f x = f y \<Longrightarrow> x = y"
  by (auto simp: distinct_map inj_on_def)

lemma evolves_one_active:
  assumes ev: "evolves ready closing db db'" and ok: "one_active db"
  shows "one_active db'"
  unfolding one_active_def
proof (intro ballI impI)
  fix e' x'
  assume h: "e' \<in> set (db_executions db')" "x' \<in> set (db_executions db')"
    "active_status (ex_status e') \<and> active_status (ex_status x') \<and> ex_taskId e' = ex_taskId x'"
  obtain e where e: "e \<in> set (db_executions db)" "exec_le e e'" using evolves_execution_before [OF ev h(1)] .
  obtain x where x: "x \<in> set (db_executions db)" "exec_le x x'" using evolves_execution_before [OF ev h(2)] .
  have "active_status (ex_status e)" "active_status (ex_status x)" using h(3) exec_leD(5) [OF e(2)] exec_leD(5) [OF x(2)] by blast+
  moreover have "ex_taskId e = ex_taskId x" using h(3) unfolding exec_leD(2) [OF e(2)] exec_leD(2) [OF x(2)] by blast
  ultimately have "ex_id e = ex_id x" using ok e(1) x(1) unfolding one_active_def by blast
  then show "ex_id e' = ex_id x'" using exec_leD(1) [OF e(2)] exec_leD(1) [OF x(2)] by simp
qed

lemma evolves_keys_ok:
  assumes ev: "evolves ready closing db db'" and ok: "keys_ok db"
  shows "keys_ok db'"
proof -
  have "tk_kind t' \<noteq> TkIntegration"
    if s': "s' \<in> set (db_sources db')" and t': "t' \<in> set (db_tasks db')" and eq: "so_deliveryTaskId s' = tk_id t'" for s' t'
  proof -
    have "source_key ` set (db_sources db') = source_key ` set (db_sources db)"
      using ev unfolding evolves_def list.set_map [symmetric] by simp
    moreover have "source_key s' \<in> source_key ` set (db_sources db')" using s' by (rule imageI)
    ultimately obtain s where s: "s \<in> set (db_sources db)" "source_key s = source_key s'" by auto
    obtain t where t: "t \<in> set (db_tasks db)" "task_le ready closing t t'" using evolves_task_before [OF ev t'] .
    have "so_deliveryTaskId s = tk_id t" using s(2) eq task_leD(1) [OF t(2)] by (simp add: source_key_def)
    then have "tk_kind t \<noteq> TkIntegration" using ok s(1) t(1) unfolding keys_ok_def by blast
    then show ?thesis using task_leD(2) [OF t(2)] by simp
  qed
  then show ?thesis using ok evolves_keys [OF ev] unfolding keys_ok_def by simp
qed

text \<open>An integration that the step does not close stays without finishable executions.\<close>

lemma evolves_integration_closed:
  assumes ev: "evolves ready False db db'" and ok: "integration_closed db"
  shows "integration_closed db'"
  unfolding integration_closed_def
proof (intro ballI impI)
  fix t' e'
  assume h: "t' \<in> set (db_tasks db')" "e' \<in> set (db_executions db')"
    "tk_kind t' = TkIntegration \<and> terminal_status (tk_status t') \<and> ex_taskId e' = tk_id t'"
  obtain t where t: "t \<in> set (db_tasks db)" "task_le ready False t t'" using evolves_task_before [OF ev h(1)] .
  obtain e where e: "e \<in> set (db_executions db)" "exec_le e e'" using evolves_execution_before [OF ev h(2)] .
  have "tk_kind t = TkIntegration" "ex_taskId e = tk_id t" "terminal_status (tk_status t)"
    using h(3) task_leD(1,2,5) [OF t(2)] exec_leD(2) [OF e(2)] by simp_all
  then have "\<not> finishable e" using ok t(1) e(1) unfolding integration_closed_def by blast
  then show "\<not> finishable e'" using exec_leD(6) [OF e(2)] by blast
qed

text \<open>Steps that fence nothing and mark nothing.\<close>

lemma outbox_quiet:
  assumes "outbox_ok db" "map cx_executionId (db_cancellations db') = map cx_executionId (db_cancellations db)"
    and "\<And>e'. e' \<in> set (db_executions db') \<Longrightarrow> marked e' \<Longrightarrow> \<exists>e \<in> set (db_executions db). marked e \<and> ex_id e = ex_id e'"
  shows "outbox_ok db'"
proof -
  have "cx_executionId ` set (db_cancellations db') = cx_executionId ` set (db_cancellations db)"
    using assms(2) by (metis list.set_map)
  with assms show ?thesis unfolding outbox_ok_def by (metis (no_types, lifting))
qed

lemma outbox_same:
  "outbox_ok db \<Longrightarrow> db_executions db' = db_executions db \<Longrightarrow> db_cancellations db' = db_cancellations db \<Longrightarrow> outbox_ok db'"
  by (simp add: outbox_ok_def)

section \<open>Parts of commands\<close>

lemma appendChange_frame [simp]:
  "db_executions (appendChange a b c d e f db) = db_executions db" "db_tasks (appendChange a b c d e f db) = db_tasks db"
  "db_sources (appendChange a b c d e f db) = db_sources db" "db_cancellations (appendChange a b c d e f db) = db_cancellations db"
  "db_lanes (appendChange a b c d e f db) = db_lanes db" "db_agents (appendChange a b c d e f db) = db_agents db"
  by (simp_all add: appendChange_def)

lemma put_cancellation_ids:
  "cx_executionId ` set (put_cancellation tx i renew reason e rows) = insert (ex_id e) (cx_executionId ` set rows)"
  "distinct (map cx_executionId rows) \<Longrightarrow> distinct (map cx_executionId (put_cancellation tx i renew reason e rows))"
proof -
  have upd: "map cx_executionId (sql_update p (\<lambda>c. c\<lparr>cx_reason := reason, cx_fenceEpoch := ex_fenceEpoch e, cx_status := CxPending,
      cx_attempts := 0, cx_lastError := None, cx_updatedAt := tx_now tx\<rparr>) rows) = map cx_executionId rows" for p
    by (rule map_sql_update) simp
  then have "cx_executionId ` set (sql_update p (\<lambda>c. c\<lparr>cx_reason := reason, cx_fenceEpoch := ex_fenceEpoch e, cx_status := CxPending,
      cx_attempts := 0, cx_lastError := None, cx_updatedAt := tx_now tx\<rparr>) rows) = cx_executionId ` set rows" for p
    by (metis list.set_map)
  then show "cx_executionId ` set (put_cancellation tx i renew reason e rows) = insert (ex_id e) (cx_executionId ` set rows)"
    by (auto simp: put_cancellation_def intro: rev_image_eqI)
  show "distinct (map cx_executionId rows) \<Longrightarrow> distinct (map cx_executionId (put_cancellation tx i renew reason e rows))"
    using upd by (auto simp: put_cancellation_def)
qed

lemma announce_frame [simp]:
  "db_executions (fold (announce_fenced tx reason) xs db) = db_executions db"
  "db_tasks (fold (announce_fenced tx reason) xs db) = db_tasks db"
  "db_sources (fold (announce_fenced tx reason) xs db) = db_sources db"
  "db_lanes (fold (announce_fenced tx reason) xs db) = db_lanes db"
  by (induction xs arbitrary: db) (simp_all add: announce_fenced_def split: prod.splits)

lemma announce_ids:
  "cx_executionId ` set (db_cancellations (fold (announce_fenced tx reason) xs db)) =
     cx_executionId ` set (db_cancellations db) \<union> (ex_id \<circ> snd) ` set xs"
  "distinct (map cx_executionId (db_cancellations db)) \<Longrightarrow>
     distinct (map cx_executionId (db_cancellations (fold (announce_fenced tx reason) xs db)))"
proof (induction xs arbitrary: db)
  case (Cons x xs)
  {
    case 1
    show ?case using Cons.IH(1) by (auto simp: announce_fenced_def put_cancellation_ids split: prod.splits)
  next
    case 2
    then show ?case using Cons.IH(2) by (auto simp: announce_fenced_def put_cancellation_ids split: prod.splits)
  }
qed simp_all

lemma fence_frame [simp]:
  "db_tasks (fst (fenceTaskExecutions tx ids reason exc db)) = db_tasks db"
  "db_sources (fst (fenceTaskExecutions tx ids reason exc db)) = db_sources db"
  "db_lanes (fst (fenceTaskExecutions tx ids reason exc db)) = db_lanes db"
  "db_executions (fst (fenceTaskExecutions tx ids reason exc db)) = sql_update (fence_hit ids exc) (fence_row tx reason) (db_executions db)"
  by (simp_all add: fenceTaskExecutions_def Let_def)

lemma fence_row_inactive [simp]: "\<not> active_status (ex_status (fence_row tx reason e))" "\<not> finishable (fence_row tx reason e)"
  by (simp_all add: fence_row_def active_status_def finishable_def)

lemma fence_row_le [simp]: "exec_le e (fence_row tx reason e)"
  unfolding exec_le_def by (simp add: fence_row_def active_status_def finishable_def)

lemma fence_evolves: "evolves ready closing db (fst (fenceTaskExecutions tx ids reason exc db))"
  by (rule evolves_executions) simp_all

lemma fence_ids:
  "cx_executionId ` set (db_cancellations (fst (fenceTaskExecutions tx ids reason exc db))) =
     cx_executionId ` set (db_cancellations db) \<union> ex_id ` {e \<in> set (db_executions db). fence_hit ids exc e}"
proof -
  have ids: "ex_id (fence_row tx reason e) = ex_id e" for e by (simp add: fence_row_def)
  have "(ex_id \<circ> snd) ` set (enumerate n xs) = ex_id ` set xs" for n and xs :: "execution_row list"
    by (metis image_comp list.set_map map_snd_enumerate)
  moreover have "ex_id ` set (sql_returning (fence_hit ids exc) (fence_row tx reason) (db_executions db)) =
      ex_id ` {e \<in> set (db_executions db). fence_hit ids exc e}"
    by (simp add: sql_returning_def image_image ids)
  ultimately show ?thesis by (simp add: fenceTaskExecutions_def Let_def announce_ids)
qed

lemma fence_outbox:
  assumes "outbox_ok db"
  shows "outbox_ok (fst (fenceTaskExecutions tx ids reason exc db))"
proof -
  have "distinct (map cx_executionId (db_cancellations (fst (fenceTaskExecutions tx ids reason exc db))))"
    using assms by (simp add: fenceTaskExecutions_def Let_def announce_ids outbox_ok_def)
  moreover have "ex_id e' \<in> cx_executionId ` set (db_cancellations (fst (fenceTaskExecutions tx ids reason exc db)))"
    if e': "e' \<in> set (sql_update (fence_hit ids exc) (fence_row tx reason) (db_executions db))" and m: "marked e'" for e'
  proof -
    obtain e where e: "e \<in> set (db_executions db)" "e' = (if fence_hit ids exc e then fence_row tx reason e else e)"
      using e' by (auto simp: in_sql_update)
    then have "ex_id e' = ex_id e" by (simp add: fence_row_def)
    then show ?thesis unfolding fence_ids using assms e m by (auto simp: outbox_ok_def split: if_splits)
  qed
  ultimately show ?thesis by (simp add: outbox_ok_def)
qed

lemma fence_clears:
  assumes "e' \<in> set (db_executions (fst (fenceTaskExecutions tx ids reason None db)))" "ex_taskId e' \<in> set ids"
  shows "\<not> finishable e'"
proof -
  obtain e where e: "e' = (if fence_hit ids None e then fence_row tx reason e else e)" using assms(1) by (auto simp: in_sql_update)
  show ?thesis
  proof (cases "fence_hit ids None e")
    case False
    then have "e' = e" using e by simp
    then show ?thesis using False assms(2) by (auto simp: fence_hit_def finishable_def)
  qed (simp add: e)
qed

lemma transition_row_le: "ex_transitionedAt e = None \<Longrightarrow> exec_le e (transition_row tx e)"
  unfolding exec_le_def by (simp add: transition_row_def finishable_def)

lemma mark_result:
  assumes "markTransitioned tx e db = Inr db'"
  shows "db_executions db' = sql_update (transition_hit (ex_id e)) (transition_row tx) (db_executions db)"
    "db_tasks db' = db_tasks db" "db_sources db' = db_sources db" "db_lanes db' = db_lanes db"
    "cx_executionId ` set (db_cancellations db') = insert (ex_id e) (cx_executionId ` set (db_cancellations db))"
    "distinct (map cx_executionId (db_cancellations db)) \<Longrightarrow> distinct (map cx_executionId (db_cancellations db'))"
proof -
  obtain row rest where r: "sql_returning (transition_hit (ex_id e)) (transition_row tx) (db_executions db) = row # rest"
    and db': "db' = db\<lparr>db_executions := sql_update (transition_hit (ex_id e)) (transition_row tx) (db_executions db),
                  db_cancellations := put_cancellation tx 1 False EXECUTION_TRANSITIONED_REASON row (db_cancellations db)\<rparr>"
    using assms by (auto simp: markTransitioned_def split: list.splits)
  have "row \<in> set (sql_returning (transition_hit (ex_id e)) (transition_row tx) (db_executions db))" using r by simp
  then have "ex_id row = ex_id e" by (auto simp: in_returning transition_hit_def transition_row_def)
  then show "cx_executionId ` set (db_cancellations db') = insert (ex_id e) (cx_executionId ` set (db_cancellations db))"
    by (simp add: db' put_cancellation_ids)
  show "distinct (map cx_executionId (db_cancellations db)) \<Longrightarrow> distinct (map cx_executionId (db_cancellations db'))"
    by (simp add: db' put_cancellation_ids)
qed (use assms in \<open>auto simp: markTransitioned_def split: list.splits\<close>)

lemma mark_evolves: "markTransitioned tx e db = Inr db' \<Longrightarrow> evolves ready closing db db'"
  by (rule evolves_executions [where p = "transition_hit (ex_id e)" and f = "transition_row tx"])
    (simp_all add: mark_result transition_hit_def transition_row_le)

lemma mark_outbox:
  assumes "markTransitioned tx e db = Inr db'" "outbox_ok db"
  shows "outbox_ok db'"
proof -
  have "ex_id x' \<in> cx_executionId ` set (db_cancellations db')" if x': "x' \<in> set (db_executions db')" and m: "marked x'" for x'
  proof -
    obtain x where x: "x \<in> set (db_executions db)" "x' = (if transition_hit (ex_id e) x then transition_row tx x else x)"
      using x' by (auto simp: mark_result [OF assms(1)] in_sql_update)
    then show ?thesis
      using assms(2) m unfolding mark_result(5) [OF assms(1)]
      by (auto simp: outbox_ok_def transition_hit_def transition_row_def split: if_splits)
  qed
  then show ?thesis using assms mark_result(6) [OF assms(1)] by (simp add: outbox_ok_def)
qed

section \<open>Commands of the workflow\<close>

text \<open>A step that evolves the database and keeps the outbox.\<close>

definition fine_step :: "bool \<Rightarrow> bool \<Rightarrow> board_db \<Rightarrow> board_db \<Rightarrow> bool" where
  "fine_step ready closing db db' \<longleftrightarrow> evolves ready closing db db' \<and> (outbox_ok db \<longrightarrow> outbox_ok db')"

lemma fine_refl [simp]: "fine_step ready closing db db"
  by (simp add: fine_step_def)

lemma fine_trans [trans]: "fine_step ready closing a b \<Longrightarrow> fine_step ready closing b c \<Longrightarrow> fine_step ready closing a c"
  unfolding fine_step_def by (blast intro: evolves_trans)

lemma fine_weaken: "fine_step False False a b \<Longrightarrow> fine_step ready closing a b"
  unfolding fine_step_def by (blast intro: evolves_weaken)

lemma fine_same:
  assumes "db_executions db' = db_executions db" "db_tasks db' = db_tasks db" "db_sources db' = db_sources db"
    "db_cancellations db' = db_cancellations db"
  shows "fine_step ready closing db db'"
  unfolding fine_step_def using evolves_same [OF assms(1-3)] outbox_same [OF _ assms(1,4)] by blast

lemma fine_tasks:
  assumes "\<And>t. t \<in> set (db_tasks db) \<Longrightarrow> p t \<Longrightarrow> task_le ready closing t (f t)"
    and "db_executions db' = db_executions db" "db_tasks db' = sql_update p f (db_tasks db)"
    "map source_key (db_sources db') = map source_key (db_sources db)" "db_cancellations db' = db_cancellations db"
  shows "fine_step ready closing db db'"
  unfolding fine_step_def using evolves_tasks [OF assms(1-4)] outbox_same [OF _ assms(2,5)] by blast

lemma fine_executions:
  assumes "\<And>e. e \<in> set (db_executions db) \<Longrightarrow> p e \<Longrightarrow> exec_le e (f e)" "\<And>e. p e \<Longrightarrow> marked (f e) \<Longrightarrow> marked e"
    and "db_executions db' = sql_update p f (db_executions db)" "db_tasks db' = db_tasks db" "db_sources db' = db_sources db"
    "map cx_executionId (db_cancellations db') = map cx_executionId (db_cancellations db)"
  shows "fine_step ready closing db db'"
proof -
  have "\<exists>e \<in> set (db_executions db). marked e \<and> ex_id e = ex_id e'" if e': "e' \<in> set (db_executions db')" and m: "marked e'" for e'
  proof -
    obtain e where e: "e \<in> set (db_executions db)" "e' = (if p e then f e else e)" using e' by (auto simp: assms(3) in_sql_update)
    show ?thesis
    proof (cases "p e")
      case True
      then show ?thesis using e m assms(2) exec_leD(1) [OF assms(1) [OF e(1) True]] by auto
    qed (use e m in auto)
  qed
  then show ?thesis unfolding fine_step_def using evolves_executions [OF assms(1,3,4,5)] outbox_quiet [OF _ assms(6)] by blast
qed

lemma fine_fence: "fine_step ready closing db (fst (fenceTaskExecutions tx ids reason exc db))"
  unfolding fine_step_def using fence_evolves fence_outbox by blast

lemma fine_mark: "markTransitioned tx e db = Inr db' \<Longrightarrow> fine_step ready closing db db'"
  unfolding fine_step_def using mark_evolves mark_outbox by blast

lemma fine_cancellations:
  assumes "db_executions db' = db_executions db" "db_tasks db' = db_tasks db" "db_sources db' = db_sources db"
    "map cx_executionId (db_cancellations db') = map cx_executionId (db_cancellations db)"
  shows "fine_step ready closing db db'"
  by (rule fine_executions [where p = "\<lambda>_. False" and f = "\<lambda>e. e"]) (simp_all add: assms sql_update_def)

text \<open>The task that a command loaded is the only row with its id.\<close>

lemma task_row_unique:
  assumes "keys_ok db" "task \<in> set (db_tasks db)" "t \<in> set (db_tasks db)" "tk_id t = tk_id task"
  shows "t = task"
  using assms key_unique [of tk_id "db_tasks db"] unfolding keys_ok_def by metis

lemma terminal_simps [simp]:
  "terminal_status StDone" "terminal_status StCanceled" "\<not> terminal_status StTodo" "\<not> terminal_status StInProgress"
  "\<not> terminal_status StInReview" "\<not> terminal_status StBlocked" "\<not> terminal_status StReadyToMerge"
  by (simp_all add: terminal_status_def)

lemma task_le_update:
  assumes "tk_id t' = tk_id t" "tk_kind t' = tk_kind t" "\<not> terminal_status (tk_status t)"
    "tk_status t' = StReadyToMerge \<Longrightarrow> ready" "tk_kind t = TkIntegration \<Longrightarrow> terminal_status (tk_status t') \<Longrightarrow> closing"
  shows "task_le ready closing t t'"
  unfolding task_le_def using assms by blast

lemma fine_finish_comment:
  "recordExecutionFinishComment tx e body db = Inr db' \<Longrightarrow> fine_step ready closing db db'"
  by (rule fine_same) (auto simp: recordExecutionFinishComment_def split: if_splits)

lemma finish_comment_frame:
  assumes "recordExecutionFinishComment tx e body db = Inr db'"
  shows "db_executions db' = db_executions db" "db_tasks db' = db_tasks db" "db_sources db' = db_sources db"
    "db_cancellations db' = db_cancellations db" "db_remediations db' = db_remediations db"
  using assms by (auto simp: recordExecutionFinishComment_def appendChange_def split: if_splits)

lemma recordBlock_frame [simp]:
  "db_executions (recordBlock tx i e r db) = db_executions db" "db_tasks (recordBlock tx i e r db) = db_tasks db"
  "db_sources (recordBlock tx i e r db) = db_sources db" "db_cancellations (recordBlock tx i e r db) = db_cancellations db"
  "db_lanes (recordBlock tx i e r db) = db_lanes db"
  by (simp_all add: recordBlock_def)

lemma close_episodes_frame [simp]:
  "db_executions (close_episodes tx i db) = db_executions db" "db_tasks (close_episodes tx i db) = db_tasks db"
  "db_sources (close_episodes tx i db) = db_sources db" "db_cancellations (close_episodes tx i db) = db_cancellations db"
  by (simp_all add: close_episodes_def)

text \<open>The transition of a task that is no integration.\<close>

lemma finish_transition_result:
  assumes fin: "finish_transition tx who task b e target db = Inr db'"
  obtains nxt db1 db2 where "decideTransition task (ex_purpose e) target (loadWorkflowFacts db task) = Inr nxt"
    "\<not> terminal_status (tk_status task)"
    "db_tasks db1 = db_tasks (updateTaskStatus tx (tk_id task) nxt db)" "db_executions db1 = db_executions db"
    "db_sources db1 = db_sources db" "db_cancellations db1 = db_cancellations db"
    "markTransitioned tx e db1 = Inr db2" "db_executions db' = db_executions db2" "db_tasks db' = db_tasks db2"
    "db_sources db' = db_sources db2" "db_cancellations db' = db_cancellations db2"
proof -
  obtain nxt where nxt: "decideTransition task (ex_purpose e) target (loadWorkflowFacts db task) = Inr nxt"
    and nt: "\<not> terminal_status (tk_status task)"
    using fin by (auto simp: finish_transition_def Let_def bind_res_Inr_iff split: if_splits)
  let ?u = "updateTaskStatus tx (tk_id task) nxt db"
  let ?db1 = "if nxt = StBlocked then recordBlock tx (tk_id task) e ''agent_needs_human'' ?u else ?u"
  obtain db2 where m: "markTransitioned tx e ?db1 = Inr db2"
    and db': "db' = (let db4 = appendChange (tk_id task) ''execution.transitioned'' ''agent'' (id_userId who) None
                      [(''executionId'', ex_id e), (''runId'', ex_runId e)] db2 in
          (if ex_purpose e = PurposeReview \<and> nxt = StReadyToMerge \<and> tk_kind task = TkDelivery
               then enqueueOnReadyTrigger tx b (tk_id task) db4 else db4))"
    using fin nxt by (auto simp: finish_transition_def Let_def bind_res_Inr_iff split: if_splits)
  have frame: "db_executions (enqueueOnReadyTrigger tx b i d) = db_executions d" "db_tasks (enqueueOnReadyTrigger tx b i d) = db_tasks d"
    "db_sources (enqueueOnReadyTrigger tx b i d) = db_sources d" "db_cancellations (enqueueOnReadyTrigger tx b i d) = db_cancellations d" for i d
    by (simp_all add: enqueueOnReadyTrigger_def split: option.splits prod.splits)
  show thesis
    by (rule that [OF nxt nt _ _ _ _ m]) (simp_all add: db' Let_def frame updateTaskStatus_def)
qed

lemma finish_transition_fine:
  assumes ok: "keys_ok db" and task: "task \<in> set (db_tasks db)" and kind: "tk_kind task \<noteq> TkIntegration"
    and fin: "finish_transition tx who task b e target db = Inr db'"
  shows "fine_step (ex_purpose e = PurposeReview \<and> tk_status task = StInReview) False db db'"
  using fin
proof (rule finish_transition_result)
  fix nxt db1 db2
  assume nxt: "decideTransition task (ex_purpose e) target (loadWorkflowFacts db task) = Inr nxt"
    and nt: "\<not> terminal_status (tk_status task)"
    and d1: "db_tasks db1 = db_tasks (updateTaskStatus tx (tk_id task) nxt db)" "db_executions db1 = db_executions db"
      "db_sources db1 = db_sources db" "db_cancellations db1 = db_cancellations db"
    and m: "markTransitioned tx e db1 = Inr db2"
    and d2: "db_executions db' = db_executions db2" "db_tasks db' = db_tasks db2"
      "db_sources db' = db_sources db2" "db_cancellations db' = db_cancellations db2"
  let ?r = "ex_purpose e = PurposeReview \<and> tk_status task = StInReview"
  have "fine_step ?r False db db1"
  proof (rule fine_tasks [where p = "\<lambda>t. tk_id t = tk_id task"])
    fix t assume t: "t \<in> set (db_tasks db)" "tk_id t = tk_id task"
    have "t = task" using task_row_unique [OF ok task t] .
    then show "task_le ?r False t (t\<lparr>tk_status := nxt, tk_completedAt := (if nxt = StDone then Some (tx_now tx) else None),
               tk_workflowEpoch := tk_workflowEpoch t + 1, tk_nextAction := next_action_for nxt,
               tk_nextActionRevision := tk_nextActionRevision t + 1, tk_version := tk_version t + 1\<rparr>)"
      using nt kind decide_cases(3) [OF nxt] by (intro task_le_update) simp_all
  qed (simp_all add: d1 updateTaskStatus_def)
  also have "fine_step ?r False db1 db2" using m by (rule fine_mark)
  also have "fine_step ?r False db2 db'" by (rule fine_same) (simp_all add: d2)
  finally show ?thesis .
qed

text \<open>An integration that is done closes its deliveries, which are no integrations.\<close>

lemma close_integration_frame:
  "db_executions (close_integration tx i db) = db_executions (fst (fenceTaskExecutions tx
     (map tk_id (filter (\<lambda>t. \<exists>s \<in> set (db_sources db). (so_integrationTaskId s = i \<and> so_state s \<noteq> ''canceled'') \<and> so_deliveryTaskId s = tk_id t)
        (db_tasks db))) ''integration_completed'' None db))"
  "db_cancellations (close_integration tx i db) = db_cancellations (fst (fenceTaskExecutions tx
     (map tk_id (filter (\<lambda>t. \<exists>s \<in> set (db_sources db). (so_integrationTaskId s = i \<and> so_state s \<noteq> ''canceled'') \<and> so_deliveryTaskId s = tk_id t)
        (db_tasks db))) ''integration_completed'' None db))"
  "db_tasks (close_integration tx i db) = sql_update (closed_delivery db i)
     (\<lambda>t. t\<lparr>tk_status := StDone, tk_completedAt := nullish (tk_completedAt t) (Some (tx_now tx)), tk_version := tk_version t + 1\<rparr>) (db_tasks db)"
  "db_sources (close_integration tx i db) =
     sql_update (\<lambda>s. so_integrationTaskId s = i \<and> so_state s \<noteq> ''canceled'') (\<lambda>s. s\<lparr>so_state := ''merged'', so_lastError := None\<rparr>) (db_sources db)"
  "db_lanes (close_integration tx i db) = sql_update (\<lambda>l. la_activeTaskId l = Some i)
            (\<lambda>l. l\<lparr>la_activeTaskId := None, la_leaseId := None, la_epoch := la_epoch l + 1\<rparr>) (db_lanes db)"
  by (simp_all add: close_integration_def Let_def closed_delivery_def [abs_def])

lemma close_integration_fine:
  assumes "keys_ok db"
  shows "fine_step False False db (close_integration tx i db)"
proof -
  let ?ids = "map tk_id (filter (\<lambda>t. \<exists>s \<in> set (db_sources db). (so_integrationTaskId s = i \<and> so_state s \<noteq> ''canceled'') \<and> so_deliveryTaskId s = tk_id t)
        (db_tasks db))"
  let ?f = "fst (fenceTaskExecutions tx ?ids ''integration_completed'' None db)"
  have "fine_step False False db ?f" by (rule fine_fence)
  also have "fine_step False False ?f (close_integration tx i db)"
  proof (rule fine_tasks)
    fix t assume t: "t \<in> set (db_tasks ?f)" "closed_delivery db i t"
    then have "tk_kind t \<noteq> TkIntegration" using assms unfolding closed_delivery_def keys_ok_def by auto
    then show "task_le False False t (t\<lparr>tk_status := StDone, tk_completedAt := nullish (tk_completedAt t) (Some (tx_now tx)),
        tk_version := tk_version t + 1\<rparr>)"
      using t(2) by (intro task_le_update) (simp_all add: closed_delivery_def)
  qed (simp_all add: close_integration_frame map_sql_update source_key_def)
  finally show ?thesis .
qed

lemma integration_closed_single:
  assumes ok: "integration_closed db" and ex: "list_all2 exec_le (db_executions db) (db_executions db')"
    and ts: "db_tasks db' = sql_update p f (db_tasks db)" and p: "\<And>t. p t \<Longrightarrow> tk_id t = i \<and> tk_id (f t) = i"
    and clear: "\<And>x'. x' \<in> set (db_executions db') \<Longrightarrow> ex_taskId x' = i \<Longrightarrow> \<not> finishable x'"
  shows "integration_closed db'"
  unfolding integration_closed_def
proof (intro ballI impI)
  fix t' x'
  assume h: "t' \<in> set (db_tasks db')" "x' \<in> set (db_executions db')"
    "tk_kind t' = TkIntegration \<and> terminal_status (tk_status t') \<and> ex_taskId x' = tk_id t'"
  obtain t where t: "t \<in> set (db_tasks db)" "t' = (if p t then f t else t)" using h(1) by (auto simp: ts in_sql_update)
  obtain x where x: "x \<in> set (db_executions db)" "exec_le x x'" using list_all2_before [OF ex h(2)] by blast
  show "\<not> finishable x'"
  proof (cases "p t")
    case True
    then show ?thesis using clear [OF h(2)] h(3) p [OF True] t(2) by simp
  next
    case False
    then have "t' = t" using t(2) by simp
    then have "\<not> finishable x" using ok t(1) x(1) h(3) exec_leD(2) [OF x(2)] unfolding integration_closed_def by metis
    then show ?thesis using exec_leD(6) [OF x(2)] by blast
  qed
qed

text \<open>When the only active execution of a task makes its transition, none is left that could finish.\<close>

lemma mark_clears:
  assumes ev: "evolves ready closing db db1" and m: "markTransitioned tx e db1 = Inr db2"
    and one: "one_active db" and e: "e \<in> set (db_executions db)" "finishable e"
    and x': "x' \<in> set (db_executions db2)" "ex_taskId x' = ex_taskId e"
  shows "\<not> finishable x'"
proof
  assume fin: "finishable x'"
  obtain y where y: "y \<in> set (db_executions db1)" "x' = (if transition_hit (ex_id e) y then transition_row tx y else y)"
    using x'(1) by (auto simp: mark_result [OF m] in_sql_update)
  have nh: "\<not> transition_hit (ex_id e) y" using y(2) fin by (auto simp: transition_row_def finishable_def)
  then have xy: "x' = y" using y(2) by simp
  obtain z where z: "z \<in> set (db_executions db)" "exec_le z y" using evolves_execution_before [OF ev y(1)] .
  have "active_status (ex_status z)" "ex_taskId z = ex_taskId e"
    using exec_leD(5) [OF z(2)] exec_leD(2) [OF z(2)] fin x'(2) xy by (simp_all add: finishable_def)
  then have "ex_id z = ex_id e" using one z(1) e unfolding one_active_def finishable_def by blast
  then show False using nh exec_leD(1) [OF z(2)] fin xy by (simp add: transition_hit_def finishable_def)
qed

lemma integration_transition_ok:
  assumes ok: "board_ok db" and task: "task \<in> set (db_tasks db)" "tk_kind task = TkIntegration" "ex_taskId e = tk_id task"
    and e: "e \<in> set (db_executions db)" "finishable e"
    and tr: "transitionIntegrationAgent tx who task e target db = Inr db'"
  shows "fine_step False True db db'" "integration_closed db'"
proof -
  have keys: "keys_ok db" and one: "one_active db" and clo: "integration_closed db" using ok by (simp_all add: board_ok_def)
  have target: "target = StDone \<or> target = StBlocked" using tr by (auto simp: transitionIntegrationAgent_def split: if_splits)
  have nt: "\<not> terminal_status (tk_status task)" using clo task e unfolding integration_closed_def by blast
  let ?db1 = "db\<lparr>db_agents := sql_update (\<lambda>a. ag_integrationTaskId a = tk_id task)
                       (clear_review (if target = StDone then ''merged'' else ''active'')) (db_agents db)\<rparr>"
  let ?db2 = "if target = StDone then close_integration tx (tk_id task) ?db1 else ?db1"
  let ?db3 = "?db2\<lparr>db_tasks := sql_update (\<lambda>t. tk_id t = tk_id task) (integration_row tx target) (db_tasks ?db2)\<rparr>"
  let ?db4 = "if target = StBlocked then recordBlock tx (tk_id task) e ''agent_needs_human'' ?db3 else ?db3"
  obtain db5 where m: "markTransitioned tx e ?db4 = Inr db5"
    and d5: "db_executions db' = db_executions db5" "db_tasks db' = db_tasks db5" "db_sources db' = db_sources db5"
      "db_cancellations db' = db_cancellations db5"
    using tr by (auto simp: transitionIntegrationAgent_def Let_def bind_res_Inr_iff split: if_splits)
  have f1: "fine_step False False db ?db1" by (rule fine_same) simp_all
  have keys1: "keys_ok ?db1" using keys by (simp add: keys_ok_def)
  have f2: "fine_step False False ?db1 ?db2" using close_integration_fine [OF keys1, of tx "tk_id task"] by (cases "target = StDone") simp_all
  have f12: "fine_step False False db ?db2" by (rule fine_trans [OF f1 f2])
  have ev12: "evolves False False db ?db2" using f12 by (simp add: fine_step_def)
  have clo2: "integration_closed ?db2" by (rule evolves_integration_closed [OF ev12 clo])
  have keys2: "keys_ok ?db2" by (rule evolves_keys_ok [OF ev12 keys])
  have f3: "fine_step False True ?db2 ?db3"
  proof (rule fine_tasks)
    fix t assume t: "t \<in> set (db_tasks ?db2)" "tk_id t = tk_id task"
    obtain t0 where t0: "t0 \<in> set (db_tasks db)" "task_le False False t0 t" using evolves_task_before [OF ev12 t(1)] .
    have "t0 = task" using task_row_unique [OF keys task(1) t0(1)] t(2) task_leD(1) [OF t0(2)] by simp
    then have "\<not> terminal_status (tk_status t)" using task_leD(5) [OF t0(2)] task(2) nt by blast
    then show "task_le False True t (integration_row tx target t)"
      using target by (intro task_le_update) (auto simp: integration_row_def)
  qed simp_all
  have f4: "fine_step False True ?db3 ?db4" by (rule fine_same) simp_all
  have f5: "fine_step False True ?db4 db5" by (rule fine_mark [OF m])
  have f6: "fine_step False True db5 db'" by (rule fine_same) (simp_all add: d5)
  have f26: "fine_step False True ?db2 db'" using fine_trans [OF fine_trans [OF fine_trans [OF f3 f4] f5] f6] .
  show "fine_step False True db db'" using fine_trans [OF fine_weaken [OF f12] f26] .
  have ev4: "evolves False True db ?db4"
    using fine_trans [OF fine_weaken [OF f12] fine_trans [OF f3 f4]] by (simp only: fine_step_def)
  show "integration_closed db'"
  proof (rule integration_closed_single [OF clo2])
    show "list_all2 exec_le (db_executions ?db2) (db_executions db')" using f26 unfolding fine_step_def evolves_def by blast
    show "db_tasks db' = sql_update (\<lambda>t. tk_id t = tk_id task) (integration_row tx target) (db_tasks ?db2)"
      by (simp add: d5 mark_result [OF m])
    show "tk_id t = tk_id task \<and> tk_id (integration_row tx target t) = tk_id task" if "tk_id t = tk_id task" for t
      using that by (simp add: integration_row_def)
    show "\<not> finishable x'" if "x' \<in> set (db_executions db')" "ex_taskId x' = tk_id task" for x'
      using mark_clears [OF ev4 m one e, of x'] that task(3) d5(1) by simp
  qed
qed

end
