(* ===== verification/Taskboard_Machine.thy ===== *)
theory Taskboard_Machine
  imports Taskboard_Run
begin

text \<open>
  The commands of the task board as steps of one machine, and what holds in every run of it: the invariant \<open>board_ok\<close>,
  that terminal tasks are final, that a run makes at most one transition, that only a review makes a task ready to
  merge, and that a completed integration closes its deliveries.
\<close>

section \<open>Fine steps that keep the invariant\<close>

lemma fine_board_ok:
  assumes "fine_step ready closing db db'" "board_ok db" "integration_closed db'"
  shows "board_ok db'"
  using assms evolves_keys_ok evolves_one_active unfolding board_ok_def fine_step_def by blast

lemma fine_open_board_ok:
  assumes "fine_step ready False db db'" "board_ok db"
  shows "board_ok db'"
  by (rule fine_board_ok [OF assms])
    (use assms evolves_integration_closed in \<open>unfold board_ok_def fine_step_def, blast\<close>)

lemma fine_mono:
  assumes "fine_step ready closing db db'" "ready \<Longrightarrow> ready'" "closing \<Longrightarrow> closing'"
  shows "fine_step ready' closing' db db'"
proof -
  have "list_all2 (task_le ready' closing') (db_tasks db) (db_tasks db')"
  proof (rule list_all2_mono)
    show "list_all2 (task_le ready closing) (db_tasks db) (db_tasks db')" using assms(1) unfolding fine_step_def evolves_def by blast
    show "task_le ready closing t t' \<Longrightarrow> task_le ready' closing' t t'" for t t' using assms(2,3) unfolding task_le_def by blast
  qed
  then show ?thesis using assms(1) unfolding fine_step_def evolves_def by blast
qed

section \<open>Completing a remediation, resuming and cancelling\<close>

lemma complete_remediation_fine:
  assumes ok: "keys_ok db" and run: "completeRemediationAfterMerge tx taskId sourceId commandId attemptId db = Inr (db', changed)"
  shows "fine_step False False db db'"
proof (cases "List.find (\<lambda>t. tk_id t = taskId) (db_tasks db)")
  case None
  then show ?thesis using run by (simp add: completeRemediationAfterMerge_def)
next
  case (Some task)
  have task: "task \<in> set (db_tasks db)" "tk_id task = taskId" using find_SomeD [OF Some] by simp_all
  let ?hit = "\<lambda>t. tk_status task \<noteq> StCanceled \<and> complete_hit taskId t"
  show ?thesis
  proof (cases "db' = db")
    case False
    have kind: "tk_kind task = TkRemediation" using run Some by (auto simp: completeRemediationAfterMerge_def split: if_splits)
    have frame: "db_executions db' = db_executions db" "db_tasks db' = sql_update ?hit (complete_row tx) (db_tasks db)"
      "db_sources db' = db_sources db" "db_cancellations db' = db_cancellations db"
      using run Some False by (auto simp: completeRemediationAfterMerge_def Let_def split: if_splits)
    show ?thesis
    proof (rule fine_tasks [where p = ?hit and f = "complete_row tx"])
      fix t assume t: "t \<in> set (db_tasks db)" "?hit t"
      then have "t = task" using task_row_unique [OF ok task(1) t(1)] task(2) by (simp add: complete_hit_def)
      then show "task_le False False t (complete_row tx t)"
        using kind t(2) by (auto simp: task_le_def complete_row_def complete_hit_def Let_def terminal_status_def)
    qed (simp_all add: frame)
  qed simp
qed

lemma resume_fine:
  assumes ok: "keys_ok db" and run: "resumeBlockedTask tx who taskId version decision sourceIds db = Inr db'"
  shows "fine_step False False db db'"
proof -
  obtain task b where ld: "loadAccessibleTaskAndBoard db who taskId = Inr (task, b)" and blocked: "tk_status task = StBlocked"
    and res: "resume_integration tx who taskId (js_trim decision) db = Inr db' \<or> db' = resume_task tx who task (js_trim decision) db"
    using run by (auto simp: resumeBlockedTask_def bind_res_Inr_iff check_def split: if_splits)
  have task: "task \<in> set (db_tasks db)" "tk_id task = taskId" using load_task_found [OF ld] by simp_all
  have row: "task_le False False t (resume_row tx who decision' p s a t)"
    if t: "t \<in> set (db_tasks db)" "tk_id t = taskId" and s: "s \<in> {StInProgress, StInReview, StTodo}" for t decision' p s a
    using task_row_unique [OF ok task(1) t(1)] t(2) task(2) blocked s by (intro task_le_update) (auto simp: resume_row_def)
  from res show ?thesis
  proof
    assume "resume_integration tx who taskId (js_trim decision) db = Inr db'"
    then have frame: "db_executions db' = db_executions db" "db_sources db' = db_sources db" "db_cancellations db' = db_cancellations db"
      "db_tasks db' = sql_update (\<lambda>t. tk_id t = taskId) (resume_row tx who (js_trim decision) PurposeWork StInProgress ActNone) (db_tasks db)"
      by (auto simp: resume_integration_def Let_def split: if_splits)
    show ?thesis by (rule fine_tasks [OF _ frame(1,4)]) (simp_all add: frame row)
  next
    let ?review = "open_purpose db (tk_id task) = Some PurposeReview \<and> tk_kind task \<noteq> TkAdvisory"
    assume db': "db' = resume_task tx who task (js_trim decision) db"
    have frame: "db_executions db' = db_executions db" "db_sources db' = db_sources db" "db_cancellations db' = db_cancellations db"
      "db_tasks db' = sql_update (\<lambda>t. tk_id t = tk_id task) (resume_row tx who (js_trim decision) (if ?review then PurposeReview else PurposeWork)
                    (if ?review then StInReview else StTodo) (if ?review then ActReview else ActWork)) (db_tasks db)"
      by (simp_all add: db' resume_task_def Let_def)
    show ?thesis by (rule fine_tasks [OF _ frame(1,4)]) (simp_all add: frame row task(2))
  qed
qed

lemma fence_frame_more [simp]:
  "db_agents (fst (fenceTaskExecutions tx ids reason exc db)) = db_agents db"
proof -
  have "db_agents (fold (announce_fenced tx reason) xs d) = db_agents d" for xs d
    by (induction xs arbitrary: d) (simp_all add: announce_fenced_def split: prod.splits)
  then show ?thesis by (simp add: fenceTaskExecutions_def Let_def)
qed

text \<open>Cancelling an integration fences its executions and makes only the integration terminal.\<close>

lemma cancel_rows:
  assumes run: "cancelIntegrationTask tx who taskId version reason db = Inr db'" and new: "db' \<noteq> db"
  obtains task p f where "task \<in> set (db_tasks db)" "tk_id task = taskId" "\<not> terminal_status (tk_status task)" "tk_kind task = TkIntegration"
    "db_tasks db' = sql_update p f (db_tasks db)" "\<And>t. p t \<Longrightarrow> tk_id t = taskId"
    "\<And>t. tk_id (f t) = tk_id t \<and> tk_kind (f t) = tk_kind t \<and> tk_status (f t) = StCanceled"
    "db_executions db' = db_executions (fst (fenceTaskExecutions tx [taskId] ''integration_canceled'' None db))"
    "db_cancellations db' = db_cancellations (fst (fenceTaskExecutions tx [taskId] ''integration_canceled'' None db))"
    "map source_key (db_sources db') = map source_key (db_sources db)"
proof -
  obtain task b why given where ld: "loadAccessibleTaskAndBoard db who taskId = Inr (task, b)"
    and kind: "tk_kind task = TkIntegration" and nt: "\<not> terminal_status (tk_status task)"
    and step: "cancel_agent_integration tx who taskId why db = Inr db' \<or> cancel_legacy_integration tx who b taskId why given db = Inr db'"
    using run new by (auto simp: cancelIntegrationTask_def bind_res_Inr_iff terminal_status_def Let_def split: if_splits)
  have task: "task \<in> set (db_tasks db)" "tk_id task = taskId" using load_task_found [OF ld] by simp_all
  have keys: "map source_key (sql_update q (\<lambda>s. s\<lparr>so_state := x, so_lastError := y\<rparr>) (db_sources db)) = map source_key (db_sources db)" for q x y
    by (rule map_sql_update) (simp add: source_key_def)
  from step show thesis
  proof
    assume "cancel_agent_integration tx who taskId why db = Inr db'"
    then show thesis
      by (intro that [OF task nt kind, of "\<lambda>t. tk_id t = taskId \<and> tk_workflowVersion t = 3"
            "\<lambda>t. t\<lparr>tk_status := StCanceled, tk_completedAt := None, tk_nextAction := ActNone, tk_version := tk_version t + 1\<rparr>"])
        (auto simp: cancel_agent_integration_def Let_def keys split: option.splits)
  next
    assume "cancel_legacy_integration tx who b taskId why given db = Inr db'"
    then show thesis
      by (intro that [OF task nt kind, of "\<lambda>t. tk_id t = taskId"
            "\<lambda>t. t\<lparr>tk_status := StCanceled, tk_completedAt := None, tk_version := tk_version t + 1\<rparr>"])
        (auto simp: cancel_legacy_integration_def Let_def keys split: if_splits)
  qed
qed

lemma cancel_integration_fine:
  assumes ok: "board_ok db" and run: "cancelIntegrationTask tx who taskId version reason db = Inr db'"
  shows "fine_step False True db db'" "integration_closed db'"
proof -
  have both: "fine_step False True db db' \<and> integration_closed db'"
  proof (cases "db' = db")
    case True
    then show ?thesis using ok by (simp add: board_ok_def)
  next
    case False
    have keys: "keys_ok db" and clo: "integration_closed db" using ok by (simp_all add: board_ok_def)
    from run False show ?thesis
    proof (rule cancel_rows)
      fix task p f
      assume task: "task \<in> set (db_tasks db)" "tk_id task = taskId" "\<not> terminal_status (tk_status task)" "tk_kind task = TkIntegration"
        and ts: "db_tasks db' = sql_update p f (db_tasks db)" and p: "\<And>t. p t \<Longrightarrow> tk_id t = taskId"
        and f: "\<And>t. tk_id (f t) = tk_id t \<and> tk_kind (f t) = tk_kind t \<and> tk_status (f t) = StCanceled"
        and ex: "db_executions db' = db_executions (fst (fenceTaskExecutions tx [taskId] ''integration_canceled'' None db))"
        and cx: "db_cancellations db' = db_cancellations (fst (fenceTaskExecutions tx [taskId] ''integration_canceled'' None db))"
        and so: "map source_key (db_sources db') = map source_key (db_sources db)"
      let ?d = "fst (fenceTaskExecutions tx [taskId] ''integration_canceled'' None db)"
      have f1: "fine_step False True db ?d" by (rule fine_fence)
      have f2: "fine_step False True ?d db'"
      proof (rule fine_tasks [where p = p and f = f])
        fix t assume t: "t \<in> set (db_tasks ?d)" "p t"
        have "t = task" using task_row_unique [OF keys task(1), of t] t p [OF t(2)] task(2) by simp
        then show "task_le False True t (f t)" using task(3) f [of t] by (intro task_le_update) simp_all
      qed (simp_all only: ex cx so ts fence_frame)
      have fine: "fine_step False True db db'" by (rule fine_trans [OF f1 f2])
      have "list_all2 exec_le (db_executions db) (db_executions db')" using fine unfolding fine_step_def evolves_def by blast
      from integration_closed_single [OF clo this ts, of taskId] have "integration_closed db'"
        using p f fence_clears [where ids = "[taskId]" and db = db and tx = tx and reason = "''integration_canceled''"]
        unfolding ex by (metis list.set_intros(1))
      with fine show ?thesis by blast
    qed
  qed
  show "fine_step False True db db'" "integration_closed db'" using both by blast+
qed

section \<open>The outbox of cancellations\<close>

lemma claim_cancellations_fine: "fine_step ready closing db (fst (claimWorkflowCancellations tx limit db))"
  by (rule fine_cancellations) (simp_all add: claimWorkflowCancellations_def Let_def map_sql_update)

lemma handoff_fine: "fine_step ready closing db (completeTransitionHandoff tx c db)"
proof -
  let ?f = "\<lambda>e. (settle_row tx ExSucceeded None e)\<lparr>ex_reconcileLease := None\<rparr>"
  have row: "exec_le e (?f e)" "marked e" if "handoff_hit i e" for i e
    using that by (simp_all add: handoff_hit_def exec_le_def settle_row_def active_status_def finishable_def marked_def)
  show ?thesis
  proof (cases "filter (handoff_hit (cx_executionId c)) (db_executions db) = []")
    case False
    show ?thesis
    proof (rule fine_executions [where p = "handoff_hit (cx_executionId c)" and f = ?f])
      show "db_executions (completeTransitionHandoff tx c db) = sql_update (handoff_hit (cx_executionId c)) ?f (db_executions db)"
        using False by (simp add: completeTransitionHandoff_def Let_def)
    qed (simp_all add: row completeTransitionHandoff_def Let_def)
  qed (simp add: completeTransitionHandoff_def Let_def)
qed

lemma finish_cancellation_fine: "fine_step ready closing db (finishWorkflowCancellation tx cid err db)"
proof (cases "truthy err")
  case True
  then show ?thesis
    by (intro fine_cancellations) (simp_all add: finishWorkflowCancellation_def Let_def map_sql_update)
next
  case False
  show ?thesis
  proof (cases "finishWorkflowCancellation tx cid err db = db")
    case ne: False
    then obtain c e where l: "loadCancellationForUpdate db cid = Some (c, e)" and p: "cx_status c = CxProcessing"
      using False by (auto simp: finishWorkflowCancellation_def Let_def split: option.splits if_splits)
    let ?d = "if isTransitionHandoff c e then completeTransitionHandoff tx c db else db"
    have "fine_step ready closing db ?d" by (simp add: handoff_fine)
    also have "fine_step ready closing ?d (finishWorkflowCancellation tx cid err db)"
      using False l p by (intro fine_cancellations) (simp_all add: finishWorkflowCancellation_def Let_def map_sql_update)
    finally show ?thesis .
  qed simp
qed

lemma mark_dispatched_frame [simp]:
  "db_executions (mark_dispatched tx r db) = db_executions db" "db_tasks (mark_dispatched tx r db) = db_tasks db"
  "db_sources (mark_dispatched tx r db) = db_sources db" "db_cancellations (mark_dispatched tx r db) = db_cancellations db"
  by (simp_all add: mark_dispatched_def)

lemma reconcile_fine:
  assumes run: "reconcileWorkflowCancellationTerminal tx cid runId status reason db = Inr db'"
  shows "fine_step ready closing db db'"
proof (cases "db' = db")
  case False
  then obtain c e where l: "loadCancellationForUpdate db cid = Some (c, e)" and g: "cx_runId c = runId" "cx_status c = CxProcessing"
    using run by (auto simp: reconcileWorkflowCancellationTerminal_def split: option.splits if_splits)
  let ?fine = "isTransitionHandoff c e \<or> status = RuntimeCompleted"
  let ?f = "settle_row tx (if ?fine then ExSucceeded else ExFailed) (if ?fine then None else Some (runtime_reason status reason))"
  let ?p = "\<lambda>x. ex_id x = cx_executionId c \<and> ex_status x = ExCancelled"
  let ?d = "if isTransitionHandoff c e then completeTransitionHandoff tx c db
            else db\<lparr>db_executions := sql_update ?p ?f (db_executions db)\<rparr>"
  have row: "exec_le x (?f x)" "marked (?f x) \<Longrightarrow> marked x" if "?p x" for x
    using that by (simp_all add: exec_le_def settle_row_def active_status_def finishable_def marked_def)
  have plain: "fine_step ready closing db (db\<lparr>db_executions := sql_update ?p ?f (db_executions db)\<rparr>)"
    by (rule fine_executions [where p = ?p and f = ?f]) (erule row, erule (1) row, simp_all)
  have "fine_step ready closing db ?d"
    by (rule if_split [where P = "fine_step ready closing db", THEN iffD2]) (use plain handoff_fine in blast)
  also have "fine_step ready closing ?d db'"
    using run l g
    by (intro fine_cancellations)
      (auto simp: reconcileWorkflowCancellationTerminal_def Let_def map_sql_update)
  finally show ?thesis .
qed simp

section \<open>Finishing an execution\<close>

lemma finish_rows:
  assumes run: "finishExecutionV2 tx who runId target body db = Inr db'" and new: "db' \<noteq> db"
  obtains e task b db1 where "e \<in> set (db_executions db)" "ex_runId e = runId" "finishable e" "task \<in> set (db_tasks db)"
    "tk_id task = ex_taskId e" "recordExecutionFinishComment tx e body db = Inr db1"
    "(if tk_kind task = TkIntegration then transitionIntegrationAgent tx who task e target db1
      else finish_transition tx who task b e target db1) = Inr db'"
proof -
  obtain e where fe: "List.find (\<lambda>e. ex_runId e = runId) (db_executions db) = Some e"
    using run by (auto simp: finishExecutionV2_def split: option.splits)
  have e: "e \<in> set (db_executions db)" "ex_runId e = runId" using find_SomeD [OF fe] by simp_all
  obtain task b db1 where ld: "loadAccessibleTaskAndBoard db who (ex_taskId e) = Inr (task, b)"
    and act: "assertActiveExecution e = Inr ()" and cm: "recordExecutionFinishComment tx e body db = Inr db1"
    and step: "(if tk_kind task = TkIntegration then transitionIntegrationAgent tx who task e target db1
      else finish_transition tx who task b e target db1) = Inr db'"
    using run fe new by (auto simp: finishExecutionV2_def bind_res_Inr_iff split: if_splits)
  have fin: "finishable e" using act by (auto simp: assertActiveExecution_def finishable_def split: if_splits)
  show thesis by (rule that [OF e fin load_task_found(1,2) [OF ld] cm step])
qed

lemma comment_board_ok:
  "recordExecutionFinishComment tx e body db = Inr db1 \<Longrightarrow> board_ok db \<Longrightarrow> board_ok db1"
  by (rule fine_open_board_ok [OF fine_finish_comment])

lemma finish_fine:
  assumes ok: "board_ok db" and run: "finishExecutionV2 tx who runId target body db = Inr db'"
  shows "fine_step True True db db'" "integration_closed db'"
proof -
  have both: "fine_step True True db db' \<and> integration_closed db'"
  proof (cases "db' = db")
    case True
    then show ?thesis using ok by (simp add: board_ok_def)
  next
    case False
    from run False show ?thesis
    proof (rule finish_rows)
      fix e task b db1
      assume e: "e \<in> set (db_executions db)" "finishable e" and task: "task \<in> set (db_tasks db)" "tk_id task = ex_taskId e"
        and cm: "recordExecutionFinishComment tx e body db = Inr db1"
        and step: "(if tk_kind task = TkIntegration then transitionIntegrationAgent tx who task e target db1
          else finish_transition tx who task b e target db1) = Inr db'"
      have ok1: "board_ok db1" by (rule comment_board_ok [OF cm ok])
      have in1: "e \<in> set (db_executions db1)" "task \<in> set (db_tasks db1)" using e(1) task(1) finish_comment_frame [OF cm] by simp_all
      have f1: "fine_step True True db db1" by (rule fine_finish_comment [OF cm])
      show ?thesis
      proof (cases "tk_kind task = TkIntegration")
        case True
        have tr: "transitionIntegrationAgent tx who task e target db1 = Inr db'" using step True by simp
        note ti = integration_transition_ok [OF ok1 in1(2) True task(2) [symmetric] in1(1) e(2) tr]
        have "fine_step True True db1 db'" by (rule fine_mono [OF ti(1)]) simp_all
        from fine_trans [OF f1 this] ti(2) show ?thesis by blast
      next
        case False
        have tr: "finish_transition tx who task b e target db1 = Inr db'" using step False by simp
        have "keys_ok db1" using ok1 by (simp add: board_ok_def)
        from finish_transition_fine [OF this in1(2) False tr]
        have f2: "fine_step (ex_purpose e = PurposeReview \<and> tk_status task = StInReview) False db1 db'" .
        have "fine_step True True db1 db'" by (rule fine_mono [OF f2]) simp_all
        from fine_trans [OF f1 this] fine_open_board_ok [OF f2 ok1] show ?thesis by (simp add: board_ok_def)
      qed
    qed
  qed
  show "fine_step True True db db'" "integration_closed db'" using both by blast+
qed

text \<open>A finish that changes the board makes the transition of its run.\<close>

lemma mark_present:
  assumes "markTransitioned tx e db = Inr db'"
  shows "\<exists>x \<in> set (db_executions db'). ex_id x = ex_id e \<and> ex_transitionedAt x = Some (tx_now tx)"
proof -
  have "filter (transition_hit (ex_id e)) (db_executions db) \<noteq> []"
    using assms by (auto simp: markTransitioned_def sql_returning_def)
  then obtain x where "x \<in> set (db_executions db)" "transition_hit (ex_id e) x" by (auto simp: filter_empty_conv)
  then show ?thesis unfolding mark_result(1) [OF assms] in_sql_update
    by (intro bexI [of _ "transition_row tx x"]) (auto simp: transition_row_def transition_hit_def in_sql_update)
qed

section \<open>Reports and completions\<close>

lemma report_fine: "fine_step ready closing db (setExecutionStatus tx runId status db)"
proof -
  have row: "exec_le e (e\<lparr>ex_status := execution_status_live status, ex_startedAt := nullish (ex_startedAt e) (Some (tx_now tx)),
      ex_reconcileLease := None\<rparr>)" if "active_status (ex_status e)" for e
    using that by (simp add: exec_le_def finishable_def)
  show ?thesis unfolding setExecutionStatus_def
    by (rule fine_executions [OF row, where p = "\<lambda>e. ex_runId e = runId \<and> active_status (ex_status e)"]) (simp_all add: marked_def)
qed

lemma report_reconcile_fine: "fine_step ready closing db (setExecutionStatusFromReconcile tx runId status lease db)"
proof -
  have row: "exec_le e (e\<lparr>ex_status := execution_status_live status, ex_startedAt := nullish (ex_startedAt e) (Some (tx_now tx))\<rparr>)"
    if "active_status (ex_status e)" for e
    using that by (simp add: exec_le_def finishable_def)
  show ?thesis unfolding setExecutionStatusFromReconcile_def
    by (rule fine_executions [OF row, where p = "\<lambda>e. ex_runId e = runId \<and> lease_valid tx lease e \<and> active_status (ex_status e)"])
      (simp_all add: marked_def)
qed

lemma recover_task_fine:
  assumes "keys_ok db" "task \<in> set (db_tasks db)" "\<not> terminal_status (tk_status task)"
    "status \<in> {StTodo, StInProgress, StInReview, StBlocked}"
  shows "fine_step ready closing db (recover_task who task e status db)"
  unfolding recover_task_def
proof (rule fine_tasks)
  fix t assume t: "t \<in> set (db_tasks db)" "tk_id t = tk_id task"
  have "t = task" using task_row_unique [OF assms(1,2) t] .
  then show "task_le ready closing t (recovered_task status (ex_purpose e) (if status = tk_status task then tk_sortOrder task
      else nextTaskColumnSortOrder db who (tk_boardId task) (tk_id task) status) t)"
    using assms(3,4) by (intro task_le_update) (auto simp: recovered_task_def)
qed simp_all

lemma recovery_status: "fst (unresolvedExecutionRecovery p st n m agent) \<in> {StTodo, StInProgress, StInReview, StBlocked}"
  by (cases p) (simp_all add: unresolvedExecutionRecovery_def Let_def)

lemma recover_unfinished_fine:
  assumes "keys_ok db" "task \<in> set (db_tasks db)" "\<not> terminal_status (tk_status task)"
  shows "fine_step ready closing db (recover_unfinished tx who task b e status db)"
proof -
  let ?pol = "if status = CompFailed then retry_policy db task b (ex_purpose e) else (0, 3)"
  let ?rec = "unresolvedExecutionRecovery (ex_purpose e) status (fst ?pol) (snd ?pol) (tk_kind task = TkIntegration \<and> tk_workflowVersion task = 3)"
  let ?d = "recover_task who task e (fst ?rec) db"
  have eq: "recover_unfinished tx who task b e status db = (if snd ?rec then recordBlock tx (tk_id task) e ''automatic_retry_exhausted'' ?d else ?d)"
    unfolding recover_unfinished_def Let_def by (simp only: split_beta)
  have "fine_step ready closing db ?d" by (rule recover_task_fine [OF assms recovery_status])
  also have "fine_step ready closing ?d (recover_unfinished tx who task b e status db)"
    unfolding eq by (rule fine_same) simp_all
  finally show ?thesis .
qed

lemma apply_completion_fine:
  assumes "keys_ok db" "task \<in> set (db_tasks db)"
  shows "fine_step ready closing db (fst (applyExecutionTaskCompletion who task e input db))"
proof (cases "fst (applyExecutionTaskCompletion who task e input db) = db")
  case False
  then obtain s o1 where s: "s \<in> {StInReview, StBlocked}" and nt: "\<not> terminal_status (tk_status task)"
    and eq: "fst (applyExecutionTaskCompletion who task e input db) = db\<lparr>db_tasks := sql_update (\<lambda>t. tk_id t = tk_id task)
        (\<lambda>t. t\<lparr>tk_status := s, tk_sortOrder := o1, tk_completedAt := None, tk_version := tk_version t + 1\<rparr>) (db_tasks db)\<rparr>"
    by (auto simp: applyExecutionTaskCompletion_def Let_def split: if_splits)
  show ?thesis unfolding eq
  proof (rule fine_tasks)
    fix t assume t: "t \<in> set (db_tasks db)" "tk_id t = tk_id task"
    have "t = task" using task_row_unique [OF assms t] .
    then show "task_le ready closing t (t\<lparr>tk_status := s, tk_sortOrder := o1, tk_completedAt := None, tk_version := tk_version t + 1\<rparr>)"
      using s nt by (intro task_le_update) auto
  qed simp_all
qed simp

lemma deliver_comment_frame [simp]:
  "db_executions (deliver_comment tx task e input db) = db_executions db" "db_tasks (deliver_comment tx task e input db) = db_tasks db"
  "db_sources (deliver_comment tx task e input db) = db_sources db"
  "db_cancellations (deliver_comment tx task e input db) = db_cancellations db"
  by (simp_all add: deliver_comment_def)

lemma dispatch_frame [simp]:
  "db_executions (release_dispatch al r db) = db_executions db" "db_tasks (release_dispatch al r db) = db_tasks db"
  "db_sources (release_dispatch al r db) = db_sources db" "db_cancellations (release_dispatch al r db) = db_cancellations db"
  "db_executions (insert_dispatch i db) = db_executions db" "db_tasks (insert_dispatch i db) = db_tasks db"
  "db_sources (insert_dispatch i db) = db_sources db" "db_cancellations (insert_dispatch i db) = db_cancellations db"
  by (simp_all add: release_dispatch_def insert_dispatch_def)

lemma completed_row_le:
  "exec_le x (completed_row tx input x)" "exec_le x (ended_row tx input x)" "exec_le x (absorbed_row tx m x)"
  "marked (completed_row tx input x) = marked x" "marked (ended_row tx input x) = marked x" "marked (absorbed_row tx m x) = marked x"
proof -
  have no: "\<not> active_status (execution_status_of s)" for s by (cases s) (simp_all add: active_status_def)
  have nf: "\<not> active_status ExFailed" by (simp add: active_status_def)
  show "exec_le x (completed_row tx input x)" "exec_le x (ended_row tx input x)"
    unfolding exec_le_def by (simp_all add: completed_row_def ended_row_def finishable_def no)
  show "exec_le x (absorbed_row tx m x)" unfolding exec_le_def by (simp add: absorbed_row_def finishable_def Let_def nf)
qed (simp_all add: completed_row_def ended_row_def absorbed_row_def marked_def Let_def)

section \<open>Steps that also insert\<close>

text \<open>What later databases keep of the rows of earlier ones.\<close>

definition extends :: "bool \<Rightarrow> board_db \<Rightarrow> board_db \<Rightarrow> bool" where
  "extends ready db db' \<longleftrightarrow>
     (\<forall>e \<in> set (db_executions db). \<exists>e' \<in> set (db_executions db'). exec_le e e') \<and>
     (\<forall>t \<in> set (db_tasks db). \<exists>t' \<in> set (db_tasks db'). task_le ready True t t') \<and>
     map tk_id (db_tasks db') = map tk_id (db_tasks db)"

definition good_step :: "bool \<Rightarrow> board_db \<Rightarrow> board_db \<Rightarrow> bool" where
  "good_step ready db db' \<longleftrightarrow> board_ok db' \<and> extends ready db db'"

lemma extends_refl [simp]: "extends ready db db"
  unfolding extends_def by (meson exec_le_refl task_le_refl)

lemma extends_trans: "extends ready a b \<Longrightarrow> extends ready b c \<Longrightarrow> extends ready a c"
  unfolding extends_def by (metis (no_types, lifting) exec_le_trans task_le_trans)

lemma fine_extends: "fine_step ready closing db db' \<Longrightarrow> extends ready db db'"
proof -
  assume "fine_step ready closing db db'"
  then have ev: "evolves ready True db db'" using fine_mono [of ready closing db db' ready True] by (simp add: fine_step_def)
  show ?thesis unfolding extends_def
    using evolves_execution_after [OF ev] evolves_task_after [OF ev] evolves_keys(3) [OF ev] by metis
qed

lemma good_same [simp]: "board_ok db \<Longrightarrow> good_step ready db db"
  by (simp add: good_step_def)

lemma good_trans: "good_step ready a b \<Longrightarrow> good_step ready b c \<Longrightarrow> good_step ready a c"
  unfolding good_step_def using extends_trans by blast

lemma good_fine: "fine_step ready False db db' \<Longrightarrow> board_ok db \<Longrightarrow> good_step ready db db'"
  unfolding good_step_def using fine_open_board_ok fine_extends by blast

lemma good_closing: "fine_step ready True db db' \<Longrightarrow> integration_closed db' \<Longrightarrow> board_ok db \<Longrightarrow> good_step ready db db'"
  unfolding good_step_def using fine_board_ok fine_extends by blast

lemma insert_good:
  assumes ok: "board_ok db" and ins: "insert_execution e db = Inr db'" and fresh: "\<not> marked e"
    and open1: "\<And>t. t \<in> set (db_tasks db) \<Longrightarrow> tk_id t = ex_taskId e \<Longrightarrow> tk_kind t = TkIntegration \<Longrightarrow> \<not> terminal_status (tk_status t)"
  shows "good_step ready db db'" "db_executions db' = db_executions db @ [e]" "db_tasks db' = db_tasks db"
    "db_sources db' = db_sources db" "db_cancellations db' = db_cancellations db"
proof -
  have db': "db' = db\<lparr>db_executions := db_executions db @ [e]\<rparr>"
    and new: "ex_id e \<notin> ex_id ` set (db_executions db)" "ex_runId e \<notin> ex_runId ` set (db_executions db)"
    and lone: "\<And>x. x \<in> set (db_executions db) \<Longrightarrow> ex_taskId x = ex_taskId e \<Longrightarrow> active_status (ex_status e) \<Longrightarrow> \<not> active_status (ex_status x)"
    using ins by (auto simp: insert_execution_def image_iff split: if_splits)
  show frame: "db_executions db' = db_executions db @ [e]" "db_tasks db' = db_tasks db"
    "db_sources db' = db_sources db" "db_cancellations db' = db_cancellations db" by (simp_all add: db')
  have "keys_ok db'" using ok new by (simp add: board_ok_def keys_ok_def frame)
  moreover have "one_active db'"
    using ok lone unfolding board_ok_def one_active_def frame set_append by fastforce
  moreover have "integration_closed db'"
    using ok open1 unfolding board_ok_def integration_closed_def frame set_append by fastforce
  moreover have "outbox_ok db'" using ok fresh by (auto simp: board_ok_def outbox_ok_def frame)
  moreover have "extends ready db db'"
    unfolding extends_def frame set_append by (meson UnI1 exec_le_refl task_le_refl)
  ultimately show "good_step ready db db'" unfolding good_step_def board_ok_def by blast
qed

lemma queued_unmarked [simp]: "\<not> marked (queued_execution tx i p v a r input)" "ex_taskId (queued_execution tx i p v a r input) = i"
  by (simp_all add: queued_execution_def marked_def)

section \<open>Claiming\<close>

lemma claim_checks_open:
  assumes "claim_checks db task b purpose input = Inr ()"
  shows "\<not> terminal_status (tk_status task)" "\<not> has_active_execution db (tk_id task)"
    "assertExecutionRequestAllowed task purpose (ci_trigger input = Some TriggerInitial) (loadWorkflowFacts db task) = Inr ()"
    "tk_version task = ci_expectedVersion input"
proof -
  show a: "assertExecutionRequestAllowed task purpose (ci_trigger input = Some TriggerInitial) (loadWorkflowFacts db task) = Inr ()"
    and "\<not> has_active_execution db (tk_id task)" "tk_version task = ci_expectedVersion input"
    using assms by (auto simp: claim_checks_def Let_def bind_res_Inr_iff check_def split: if_splits)
  show "\<not> terminal_status (tk_status task)"
    using a by (auto simp: assertExecutionRequestAllowed_def split: if_splits)
qed

lemma claim_effects_good:
  assumes ok: "board_ok db" and task: "task \<in> set (db_tasks db)" "\<not> terminal_status (tk_status task)"
    and run: "claim_effects tx who task purpose input db = Inr db'"
  shows "good_step ready db db'"
proof -
  obtain e db1 so where ins: "insert_execution e db = Inr db1" and fresh: "\<not> marked e" "ex_taskId e = tk_id task"
    and frame: "db_executions db' = db_executions db1" "db_sources db' = db_sources db1" "db_cancellations db' = db_cancellations db1"
      "db_tasks db' = sql_update (\<lambda>t. tk_id t = tk_id task) (claimed_task tx purpose (ex_id e) so) (db_tasks db1)"
    using run by (auto simp: claim_effects_def Let_def split: sum.splits)
  have keys: "keys_ok db" using ok by (simp add: board_ok_def)
  have same: "t = task" if "t \<in> set (db_tasks db)" "tk_id t = tk_id task" for t by (rule task_row_unique [OF keys task(1) that])
  have opn: "\<not> terminal_status (tk_status t)" if "t \<in> set (db_tasks db)" "tk_id t = ex_taskId e" for t
    using same [OF that(1)] that(2) fresh(2) task(2) by simp
  note g = insert_good [OF ok ins fresh(1) opn]
  have g1: "good_step ready db db1" by (rule g(1))
  have "fine_step ready False db1 db'"
  proof (rule fine_tasks)
    fix t assume t: "t \<in> set (db_tasks db1)" "tk_id t = tk_id task"
    have "t \<in> set (db_tasks db)" using t(1) g(3) by simp
    from same [OF this t(2)] have "\<not> terminal_status (tk_status t)" using task(2) by simp
    then show "task_le ready False t (claimed_task tx purpose (ex_id e) so t)"
      by (intro task_le_update) (auto simp: claimed_task_def split: if_splits)
  qed (simp_all add: frame)
  then have "good_step ready db1 db'" using g1 good_fine unfolding good_step_def by blast
  with g1 show ?thesis by (rule good_trans)
qed

lemma claim_good:
  assumes ok: "board_ok db" and run: "claimExecution tx who taskId input db = Inr db'"
  shows "good_step ready db db'"
proof (cases "db' = db")
  case False
  obtain task b where ld: "requireTaskWithBoard db who taskId = Inr (task, b)"
    and rest: "(case claim_duplicate db who taskId (claim_purpose task input) input of
       Some (Inl err) \<Rightarrow> Inl err
     | Some (Inr _) \<Rightarrow> Inr db
     | None \<Rightarrow> bind_res (claim_checks db task b (claim_purpose task input) input)
         (\<lambda>_. claim_effects tx who task (claim_purpose task input) input db)) = Inr db'"
    using run by (auto simp: claimExecution_def Let_def bind_res_Inr_iff split: if_splits)
  have chk: "claim_checks db task b (claim_purpose task input) input = Inr ()"
    and eff: "claim_effects tx who task (claim_purpose task input) input db = Inr db'"
    using rest False by (auto simp: bind_res_Inr_iff split: option.splits sum.splits)
  show ?thesis by (rule claim_effects_good [OF ok require_task_found(1) [OF ld] claim_checks_open(1) [OF chk] eff])
qed (use ok in simp)

section \<open>Completing and cancelling an execution\<close>

lemma review_good:
  assumes ok: "board_ok db" and task: "t0 \<in> set (db_tasks db0)" and ev: "evolves False False db0 db" and keys: "keys_ok db0"
    and run: "enqueueAutomaticReview tx t0 e succeeded review db = Inr db'"
  shows "good_step ready db db'"
proof (cases "db' = db")
  case False
  then obtain r x db1 where st: "\<not> terminal_status (tk_status t0)" and ins: "insert_execution x db = Inr db1"
    and x: "\<not> marked x" "ex_taskId x = tk_id t0" and db': "db' = insert_dispatch r db1"
    using run by (cases review) (auto simp: enqueueAutomaticReview_def bind_res_Inr_iff terminal_status_def split: if_splits)
  have opn: "\<not> terminal_status (tk_status t)" if t: "t \<in> set (db_tasks db)" "tk_id t = ex_taskId x" "tk_kind t = TkIntegration" for t
  proof -
    obtain t1 where t1: "t1 \<in> set (db_tasks db0)" "task_le False False t1 t" using evolves_task_before [OF ev t(1)] .
    have "t1 = t0" using task_row_unique [OF keys task t1(1)] t(2) x(2) task_leD(1) [OF t1(2)] by simp
    then show ?thesis using task_leD(2,5) [OF t1(2)] t(3) st by auto
  qed
  have g: "good_step ready db db1" by (rule insert_good(1) [OF ok ins x(1) opn])
  have "good_step ready db1 db'" unfolding db' by (rule good_fine [OF fine_same]) (use g in \<open>simp_all add: good_step_def\<close>)
  with g show ?thesis by (rule good_trans)
qed (use ok in simp)

lemma complete_active_good:
  assumes ok: "board_ok db" and task: "task \<in> set (db_tasks db)"
    and run: "complete_active tx who task b e tr input unfinished db = Inr db'"
  shows "good_step ready db db'"
proof -
  have keys: "keys_ok db" using ok by (simp add: board_ok_def)
  define db1 where "db1 = fst (applyExecutionTaskCompletion who task e input db)"
  define sc where "sc = snd (applyExecutionTaskCompletion who task e input db)"
  define rc where "rc \<longleftrightarrow> ex_protocolVersion e = 2 \<and> \<not> tr \<and> co_status input \<noteq> CompSucceeded \<and>
                    \<not> loadWorkflowFacts db task \<and> \<not> terminal_status (tk_status task)"
  define db2 where "db2 = (if rc then recover_unfinished tx who task b e (co_status input) db1 else db1)"
  define db3 where "db3 = (if unfinished then db2 else deliver_comment tx task e input db2)"
  define db5 where "db5 = release_dispatch False (ex_runId e) (db3\<lparr>db_executions := sql_update (\<lambda>x. ex_runId x = ex_runId e) (completed_row tx input) (db_executions db3),
                    db_cancellations := sql_update (\<lambda>c. cx_executionId c = ex_id e \<and> cx_reason c = EXECUTION_TRANSITIONED_REASON \<and>
                        (cx_status c = CxPending \<or> cx_status c = CxFailed))
                      (\<lambda>c. c\<lparr>cx_status := CxCompleted, cx_lastError := None, cx_updatedAt := tx_now tx\<rparr>) (db_cancellations db3)\<rparr>)"
  have eq: "complete_active tx who task b e tr input unfinished db =
      bind_res (if unfinished then Inr db5 else enqueueAutomaticReview tx task e sc (co_review input) db5) (\<lambda>db6.
      Inr (appendChange (tk_id task) ''execution.completed'' ''system'' (ex_runId e) None [(''executionId'', ex_id e)] db6))"
    unfolding complete_active_def Let_def split_beta db5_def db3_def db2_def db1_def sc_def rc_def ..
  obtain db6 where db6: "(if unfinished then Inr db5 else enqueueAutomaticReview tx task e sc (co_review input) db5) = Inr db6"
    and db': "db' = appendChange (tk_id task) ''execution.completed'' ''system'' (ex_runId e) None [(''executionId'', ex_id e)] db6"
    using run unfolding eq by (auto simp: bind_res_Inr_iff)
  have f1: "fine_step False False db db1" unfolding db1_def by (rule apply_completion_fine [OF keys task])
  have f2: "fine_step False False db1 db2"
  proof (cases rc)
    case True
    then have "db1 = db" by (simp add: db1_def rc_def applyExecutionTaskCompletion_def)
    then show ?thesis using recover_unfinished_fine [OF keys task] True by (simp add: db2_def rc_def)
  qed (simp add: db2_def)
  have f3: "fine_step False False db2 db3" unfolding db3_def by (rule fine_same) simp_all
  have f5: "fine_step False False db3 db5" unfolding db5_def
    by (rule fine_executions [where p = "\<lambda>x. ex_runId x = ex_runId e" and f = "completed_row tx input"])
      (simp_all add: completed_row_le map_sql_update)
  have f: "fine_step False False db db5" using fine_trans [OF fine_trans [OF fine_trans [OF f1 f2] f3] f5] .
  have g5: "good_step ready db db5" by (rule good_fine [OF fine_mono [OF f] ok]) simp_all
  then have ok5: "board_ok db5" by (simp add: good_step_def)
  have ev: "evolves False False db db5" using f by (simp add: fine_step_def)
  have g6: "good_step ready db5 db6"
  proof (cases unfinished)
    case True
    then show ?thesis using db6 ok5 by simp
  next
    case False
    then have "enqueueAutomaticReview tx task e sc (co_review input) db5 = Inr db6" using db6 by simp
    then show ?thesis by (rule review_good [OF ok5 task ev keys])
  qed
  have "good_step ready db6 db'" unfolding db' by (rule good_fine [OF fine_same]) (use g6 in \<open>simp_all add: good_step_def\<close>)
  then show ?thesis using good_trans [OF good_trans [OF g5 g6]] by blast
qed

lemma complete_good:
  assumes ok: "board_ok db" and run: "completeExecution tx runId input lease db = Inr db'"
  shows "good_step ready db db'"
proof (cases "db' = db")
  case False
  obtain e t0 b0 where fe: "List.find (\<lambda>e. ex_runId e = runId) (db_executions db) = Some e"
    and ft: "List.find (\<lambda>t. tk_id t = ex_taskId e) (db_tasks db) = Some t0"
    and fb: "List.find (\<lambda>b. bo_id b = tk_boardId t0) (db_boards db) = Some b0"
    using run False by (auto simp: completeExecution_def split: option.splits)
  let ?who = "\<lparr>id_tenantId = bo_tenantId b0, id_userId = bo_ownerUserId b0\<rparr>"
  let ?tr = "ex_protocolVersion e = 2 \<and> ex_transitionedAt e \<noteq> None"
  let ?n = "normalizeExecutionCompletion (ex_protocolVersion e) ?tr input"
  obtain task b where ld: "requireTaskWithBoard db ?who (ex_taskId e) = Inr (task, b)"
    and cases: "db' = absorb_legacy tx runId db \<or> db' = release_dispatch False runId db \<or>
      db' = finalizeExecutionForArchivedTask tx e (fst ?n) db \<or>
      complete_active tx ?who task b e ?tr (fst ?n) (snd ?n) db = Inr db'"
    using run False fe ft fb by (auto simp: completeExecution_def Let_def bind_res_Inr_iff split_beta split: if_splits)
  have task: "task \<in> set (db_tasks db)" using require_task_found [OF ld] by simp
  have a: "fine_step ready False db (absorb_legacy tx runId db)" unfolding absorb_legacy_def
    by (rule fine_executions [where p = "\<lambda>e. ex_runId e = runId" and f = "absorbed_row tx MIGRATION_ERROR"]) (simp_all add: completed_row_le)
  have r: "fine_step ready False db (release_dispatch False runId db)" by (rule fine_same) simp_all
  have z: "fine_step ready False db (finalizeExecutionForArchivedTask tx e (fst ?n) db)" unfolding finalizeExecutionForArchivedTask_def
    by (rule fine_executions [where p = "\<lambda>x. ex_runId x = ex_runId e" and f = "ended_row tx (fst ?n)"]) (simp_all add: completed_row_le)
  from cases show ?thesis
    using good_fine [OF a ok] good_fine [OF r ok] good_fine [OF z ok] complete_active_good [OF ok task] by blast
qed (use ok in simp)

lemma guard_iff: "(if b then r else Inl err) = Inr y \<longleftrightarrow> b \<and> r = Inr y"
  by simp

lemma guarded_result:
  "(case x of None \<Rightarrow> Inl e1 | Some e \<Rightarrow> if p e then Inr d else if z then Inl e2 else Inr (g e)) = Inr y \<Longrightarrow> y \<noteq> d \<Longrightarrow>
     \<exists>e. x = Some e \<and> \<not> p e \<and> y = g e"
  by (auto split: option.splits if_splits)

lemma cancel_execution_good:
  assumes ok: "board_ok db" and run: "cancelExecution tx who taskId executionId version reason db = Inr db'"
  shows "good_step ready db db'"
proof (cases "db' = db")
  case False
  let ?d = "fst (fenceTaskExecutions tx [taskId] ''operator_cancelled'' None db)"
  let ?d2 = "\<lambda>task e. if ex_transitionedAt e = None \<and> \<not> terminal_status (tk_status task)
       then recover_task who task e (fst (unresolvedExecutionRecovery (ex_purpose e) CompCancelled 0 0 False)) ?d else ?d"
  obtain task b where ld: "requireTaskWithBoard db who taskId = Inr (task, b)"
    using run by (auto simp: cancelExecution_def bind_res_Inr_iff)
  have rest: "(case List.find (\<lambda>e. ex_id e = executionId \<and> ex_taskId e = taskId) (db_executions db) of
       None \<Rightarrow> Inl NotFound
     | Some e \<Rightarrow>
         if isTerminalExecutionStatus (ex_status e) then Inr db
         else if snd (fenceTaskExecutions tx [taskId] ''operator_cancelled'' None db) = 0 then Inl ExecutionFenced
         else Inr (appendChange taskId ''execution.cancel_requested'' ''user'' (id_userId who) None
                [(''executionId'', ex_id e), (''runId'', ex_runId e),
                 (''reason'', case optionalText reason of None \<Rightarrow> ''Operator cancelled the Agent execution'' | Some r \<Rightarrow> r)] (?d2 task e))) = Inr db'"
    using run unfolding cancelExecution_def ld bind_res_simps Let_def split_beta fst_conv snd_conv bind_check guard_iff
      bind_res_Inr_iff [of "assertWritableTask x y" for x y] by (elim conjE exE)
  obtain e why where db': "db' = appendChange taskId ''execution.cancel_requested'' ''user'' (id_userId who) None why (?d2 task e)"
    using guarded_result [OF rest False] by (elim exE conjE) (rule that)
  have task: "task \<in> set (db_tasks db)" using require_task_found [OF ld] by simp
  have f1: "fine_step ready False db ?d" by (rule fine_fence)
  have keys: "keys_ok ?d" using f1 ok evolves_keys_ok unfolding fine_step_def board_ok_def by blast
  have td: "task \<in> set (db_tasks ?d)" using task by simp
  have f2: "fine_step ready False ?d (?d2 task e)"
  proof (cases "ex_transitionedAt e = None \<and> \<not> terminal_status (tk_status task)")
    case True
    then have "\<not> terminal_status (tk_status task)" by blast
    from recover_task_fine [OF keys td this recovery_status] True show ?thesis by simp
  next
    case False
    then have "?d2 task e = ?d" by (rule if_not_P)
    then show ?thesis by simp
  qed
  have f3: "fine_step ready False (?d2 task e) db'" unfolding db' by (rule fine_same) simp_all
  show ?thesis by (rule good_fine [OF fine_trans [OF fine_trans [OF f1 f2] f3] ok])
qed (use ok in simp)

section \<open>The machine\<close>

datatype board_op =
    OpClaim identity string claim_input
  | OpReport string live_status
  | OpReportReconcile string live_status string
  | OpComplete string completion_input "string option"
  | OpCancelExecution identity string string int "string option"
  | OpFinish identity string task_status string
  | OpResume identity string int string "string list"
  | OpCancelIntegration identity string int "string option"
  | OpCompleteRemediation string string string "string option"
  | OpClaimCancellations int
  | OpFinishCancellation string "string option"
  | OpReconcileCancellation string string runtime_status "string option"

fun board_apply :: "tx \<Rightarrow> board_op \<Rightarrow> board_db \<Rightarrow> taskboard_error + board_db" where
  "board_apply tx (OpClaim who i input) db = claimExecution tx who i input db"
| "board_apply tx (OpReport r status) db = Inr (setExecutionStatus tx r status db)"
| "board_apply tx (OpReportReconcile r status lease) db = Inr (setExecutionStatusFromReconcile tx r status lease db)"
| "board_apply tx (OpComplete r input lease) db = completeExecution tx r input lease db"
| "board_apply tx (OpCancelExecution who i e version reason) db = cancelExecution tx who i e version reason db"
| "board_apply tx (OpFinish who r status body) db = finishExecutionV2 tx who r status body db"
| "board_apply tx (OpResume who i version decision sources) db = resumeBlockedTask tx who i version decision sources db"
| "board_apply tx (OpCancelIntegration who i version reason) db = cancelIntegrationTask tx who i version reason db"
| "board_apply tx (OpCompleteRemediation i source command attempt) db =
     bind_res (completeRemediationAfterMerge tx i source command attempt db) (\<lambda>r. Inr (fst r))"
| "board_apply tx (OpClaimCancellations limit) db = Inr (fst (claimWorkflowCancellations tx limit db))"
| "board_apply tx (OpFinishCancellation c err) db = Inr (finishWorkflowCancellation tx c err db)"
| "board_apply tx (OpReconcileCancellation c r status reason) db = reconcileWorkflowCancellationTerminal tx c r status reason db"

text \<open>A command that fails is rolled back.\<close>

definition board_step :: "board_db \<Rightarrow> tx \<times> board_op \<Rightarrow> board_db" where
  "board_step db s = (case board_apply (fst s) (snd s) db of Inl _ \<Rightarrow> db | Inr db' \<Rightarrow> db')"

fun is_finish :: "board_op \<Rightarrow> bool" where
  "is_finish (OpFinish _ _ _ _) = True"
| "is_finish _ = False"

lemma board_apply_good:
  assumes ok: "board_ok db" and run: "board_apply tx op db = Inr db'"
  shows "good_step (is_finish op) db db'"
proof -
  have keys: "keys_ok db" using ok by (simp add: board_ok_def)
  show ?thesis
  proof (cases op)
    case (OpClaim who i input)
    then show ?thesis using run claim_good [OF ok] by simp
  next
    case (OpReport r s)
    then show ?thesis using run good_fine [OF report_fine ok] by auto
  next
    case (OpReportReconcile r s l)
    then show ?thesis using run good_fine [OF report_reconcile_fine ok] by auto
  next
    case (OpComplete r input l)
    then show ?thesis using run complete_good [OF ok] by simp
  next
    case (OpCancelExecution who i e v r)
    then show ?thesis using run cancel_execution_good [OF ok] by simp
  next
    case (OpFinish who r s body)
    then have fin: "finishExecutionV2 tx who r s body db = Inr db'" using run by simp
    show ?thesis using good_closing [OF finish_fine [OF ok fin] ok] OpFinish by simp
  next
    case (OpResume who i v d ss)
    then show ?thesis using run good_fine [OF resume_fine [OF keys] ok] by simp
  next
    case (OpCancelIntegration who i v r)
    then have can: "cancelIntegrationTask tx who i v r db = Inr db'" using run by simp
    show ?thesis using good_closing [OF cancel_integration_fine [OF ok can] ok] OpCancelIntegration by simp
  next
    case (OpCompleteRemediation i s c a)
    then obtain ch where "completeRemediationAfterMerge tx i s c a db = Inr (db', ch)" using run by (auto simp: bind_res_Inr_iff)
    then show ?thesis using good_fine [OF complete_remediation_fine [OF keys] ok] OpCompleteRemediation by simp
  next
    case (OpClaimCancellations l)
    then show ?thesis using run good_fine [OF claim_cancellations_fine ok] by auto
  next
    case (OpFinishCancellation c err)
    then show ?thesis using run good_fine [OF finish_cancellation_fine ok] by auto
  next
    case (OpReconcileCancellation c r s reason)
    then show ?thesis using run good_fine [OF reconcile_fine ok] by simp
  qed
qed

lemma good_weaken: "good_step ready db db' \<Longrightarrow> good_step True db db'"
  unfolding good_step_def extends_def task_le_def by (metis (no_types, lifting))

lemma board_step_good: "board_ok db \<Longrightarrow> good_step True db (board_step db s)"
  using board_apply_good [of db "fst s" "snd s"] good_weaken
  by (auto simp: board_step_def split: sum.splits)

section \<open>What is decided once\<close>

definition transition_of :: "board_db \<Rightarrow> string \<Rightarrow> (string \<times> string \<times> int) option" where
  "transition_of db i =
     (case List.find (\<lambda>e. ex_id e = i) (db_executions db) of
        None \<Rightarrow> None
      | Some e \<Rightarrow> (case ex_transitionedAt e of None \<Rightarrow> None | Some t \<Rightarrow> Some (ex_runId e, ex_taskId e, t)))"

definition final_status :: "board_db \<Rightarrow> string \<Rightarrow> task_status option" where
  "final_status db i =
     (case List.find (\<lambda>t. tk_id t = i) (db_tasks db) of
        None \<Rightarrow> None
      | Some t \<Rightarrow> if terminal_status (tk_status t) then Some (tk_status t) else None)"

lemma find_key: "distinct (map f xs) \<Longrightarrow> x \<in> set xs \<Longrightarrow> List.find (\<lambda>y. f y = f x) xs = Some x"
  by (induction xs) (auto simp: image_iff)

lemma transition_of_iff:
  assumes "board_ok db"
  shows "transition_of db i = Some (r, k, t) \<longleftrightarrow>
    (\<exists>e \<in> set (db_executions db). ex_id e = i \<and> ex_runId e = r \<and> ex_taskId e = k \<and> ex_transitionedAt e = Some t)"
proof -
  have d: "distinct (map ex_id (db_executions db))" using assms by (simp add: board_ok_def keys_ok_def)
  show ?thesis
    using find_key [OF d] by (auto simp: transition_of_def split: option.splits dest: find_SomeD)
qed

lemma final_status_iff:
  assumes "board_ok db"
  shows "final_status db i = Some s \<longleftrightarrow> (\<exists>t \<in> set (db_tasks db). tk_id t = i \<and> tk_status t = s \<and> terminal_status s)"
proof -
  have d: "distinct (map tk_id (db_tasks db))" using assms by (simp add: board_ok_def keys_ok_def)
  show ?thesis
    using find_key [OF d] by (auto simp: final_status_def split: option.splits if_splits dest: find_SomeD)
qed

interpretation transitions: write_once board_ok "\<lambda>_. True" transition_of board_step
proof unfold_locales
  fix db s assume "board_ok db"
  then show "board_ok (board_step db s)" using board_step_good [of db s] by (simp add: good_step_def)
next
  fix db s i v assume ok: "board_ok db" and v: "transition_of db i = Some v"
  have g: "good_step True db (board_step db s)" by (rule board_step_good [OF ok])
  obtain r k t where vt: "v = (r, k, t)" by (cases v)
  obtain e where e: "e \<in> set (db_executions db)" "ex_id e = i" "ex_runId e = r" "ex_taskId e = k" "ex_transitionedAt e = Some t"
    using v unfolding vt transition_of_iff [OF ok] by blast
  obtain e' where e': "e' \<in> set (db_executions (board_step db s))" "exec_le e e'" using g e(1) unfolding good_step_def extends_def by blast
  have "ex_transitionedAt e' = Some t" using exec_leD(7) [OF e'(2)] e(5) by simp
  moreover have "board_ok (board_step db s)" using g by (simp add: good_step_def)
  ultimately show "transition_of (board_step db s) i = Some v"
    using e' e exec_leD(1-3) [OF e'(2)] by (simp add: vt transition_of_iff) (use e'(1) in blast)
qed

interpretation finals: write_once board_ok "\<lambda>_. True" final_status board_step
proof unfold_locales
  fix db s assume "board_ok db"
  then show "board_ok (board_step db s)" using board_step_good [of db s] by (simp add: good_step_def)
next
  fix db s i v assume ok: "board_ok db" and v: "final_status db i = Some v"
  have g: "good_step True db (board_step db s)" by (rule board_step_good [OF ok])
  obtain t where t: "t \<in> set (db_tasks db)" "tk_id t = i" "tk_status t = v" "terminal_status v"
    using v unfolding final_status_iff [OF ok] by blast
  obtain t' where t': "t' \<in> set (db_tasks (board_step db s))" "task_le True True t t'" using g t(1) unfolding good_step_def extends_def by blast
  have "board_ok (board_step db s)" using g by (simp add: good_step_def)
  then show "final_status (board_step db s) i = Some v"
    using t' t task_leD(1,3) [OF t'(2)] by (auto simp: final_status_iff)
qed

end
