(* ===== verification/Taskboard_Claims.thy ===== *)
theory Taskboard_Claims
  imports Taskboard_Machine
begin

text \<open>
  What holds of the task board, over the runs of the machine of \<open>Taskboard_Machine\<close> and for single commands, with a
  small board on which each claim is exercised.
\<close>

section \<open>A board\<close>

definition demo_tx :: "int \<Rightarrow> tx" where
  "demo_tx t = \<lparr>tx_now = t, tx_clock = t, tx_uuid = (\<lambda>n. replicate n CHR ''u'')\<rparr>"

definition demo_user :: identity where
  "demo_user = \<lparr>id_tenantId = ''t'', id_userId = ''u''\<rparr>"

definition demo_task :: "string \<Rightarrow> task_kind \<Rightarrow> task_status \<Rightarrow> task_row" where
  "demo_task i kind status =
     \<lparr>tk_id = i, tk_boardId = ''b'', tk_kind = kind, tk_status = status, tk_workflowVersion = 3, tk_mergedCommitOid = None,
      tk_providerPullRequestId = Some ''pr'', tk_model = None, tk_stageModels = (\<lambda>_. None), tk_sortOrder = 0,
      tk_resumeContext = None, tk_workflowEpoch = 0, tk_nextAction = ActNone, tk_nextActionRevision = 0, tk_version = 1,
      tk_completedAt = None, tk_archivedAt = None, tk_deletedAt = None, tk_created = True\<rparr>"

definition demo_execution :: "string \<Rightarrow> string \<Rightarrow> string \<Rightarrow> purpose \<Rightarrow> execution_row" where
  "demo_execution i task r p =
     \<lparr>ex_id = i, ex_taskId = task, ex_runId = r, ex_sessionId = ''s'', ex_status = ExRunning, ex_purpose = p,
      ex_trigger = TriggerInitial, ex_protocolVersion = 2, ex_attemptId = None, ex_requestedBy = ''u'', ex_error = None,
      ex_transitionedAt = None, ex_supersededAt = None, ex_fenceEpoch = 0, ex_terminalReason = None, ex_startedAt = Some 1,
      ex_finishedAt = None, ex_createdAt = 1, ex_reconcileLease = None\<rparr>"

text \<open>An integration at work on a delivery in review, a task that is done, and one that waits.\<close>

definition demo_db :: board_db where
  "demo_db =
     \<lparr>db_tasks = [demo_task ''I'' TkIntegration StInProgress, demo_task ''D'' TkDelivery StInReview, demo_task ''Z'' TkDelivery StDone,
                 demo_task ''W'' TkDelivery StTodo],
      db_executions = [demo_execution ''E1'' ''I'' ''R1'' PurposeWork, demo_execution ''E2'' ''D'' ''R2'' PurposeReview],
      db_boards = [\<lparr>bo_id = ''b'', bo_tenantId = ''t'', bo_ownerUserId = ''u'', bo_organization = False, bo_members = [],
                    bo_archivedAt = None, bo_model = None, bo_stageModels = (\<lambda>_. None), bo_repository = Some (''github'', ''repo''),
                    bo_onReady = None, bo_maxTransientRetries = Some 0\<rparr>],
      db_sources = [\<lparr>so_id = ''S'', so_integrationTaskId = ''I'', so_deliveryTaskId = ''D'', so_state = ''pending'',
                     so_mergedCommitOid = None, so_providerReceiptId = None, so_lastError = None\<rparr>],
      db_remediations = [], db_cancellations = [], db_comments = [], db_changes = [], db_episodes = [], db_agents = [],
      db_lanes = [\<lparr>la_repositoryId = ''repo'', la_activeTaskId = Some ''I'', la_leaseId = None, la_epoch = 0\<rparr>],
      db_authorizations = [], db_mergeOperations = [], db_dispatches = [], db_attempts = [], db_continuations = [], db_triggers = []\<rparr>"

lemmas demo_defs = demo_db_def demo_task_def demo_execution_def demo_user_def demo_tx_def

lemma demo_db_ok: "board_ok demo_db"
  by (simp add: board_ok_def keys_ok_def one_active_def integration_closed_def outbox_ok_def demo_defs marked_def)

lemmas finish_defs =
  finishExecutionV2_def loadAccessibleTaskAndBoard_def visible_board_def finish_replayed_def assertActiveExecution_def
  assertIntegrationExecutionMigrated_def recordExecutionFinishComment_def transitionIntegrationAgent_def finish_transition_def
  decideTransition_def loadWorkflowFacts_def isIrreversibleMerged_def updateTaskStatus_def markTransitioned_def transition_hit_def
  transition_row_def put_cancellation_def close_integration_def closed_delivery_def fenceTaskExecutions_def fence_hit_def fence_row_def
  announce_fenced_def integration_row_def clear_review_def enqueueOnReadyTrigger_def source_merged_def sql_update_def sql_returning_def
  appendChange_def active_status_def

lemma demo_finish: "\<exists>d. finishExecutionV2 (demo_tx 5) demo_user ''R1'' StDone ''ok'' demo_db = Inr d \<and> d \<noteq> demo_db"
  by (simp add: finish_defs demo_defs js_trim_def js_space_def truthy_def Let_def)

section \<open>Runs\<close>

lemma board_run_ok: "board_ok db \<Longrightarrow> board_ok (foldl board_step db steps)"
  by (rule transitions.run_inv) (simp_all add: list_all_iff)

lemma card_one:
  assumes "finite A" "\<And>x y. x \<in> A \<Longrightarrow> y \<in> A \<Longrightarrow> x = y"
  shows "card A \<le> 1"
  unfolding One_nat_def card_le_Suc0_iff_eq [OF assms(1)] by (intro ballI assms(2))

lemma one_by_key:
  assumes "distinct (map f xs)" "k \<in> f ` set xs"
  shows "length (filter (\<lambda>x. f x = k) xs) = 1"
  using assms by (induction xs) (auto simp: filter_empty_conv image_iff)

text \<open>C5. Whatever commands run on the board and in whatever order: a task has at most one active execution; every
  execution that was fenced or that made its transition has exactly one entry in the outbox of cancellations, so
  its runtime is told to stop; and no execution of an integration that is done or canceled can still finish.\<close>

theorem board_runs_exclusive:
  assumes "board_ok db"
  shows "card {e \<in> set (db_executions (foldl board_step db steps)). ex_taskId e = i \<and> active_status (ex_status e)} \<le> 1 \<and>
    (\<forall>e \<in> set (db_executions (foldl board_step db steps)). ex_transitionedAt e \<noteq> None \<or> ex_supersededAt e \<noteq> None \<longrightarrow>
      length (filter (\<lambda>c. cx_executionId c = ex_id e) (db_cancellations (foldl board_step db steps))) = 1) \<and>
    (\<forall>t \<in> set (db_tasks (foldl board_step db steps)). \<forall>e \<in> set (db_executions (foldl board_step db steps)).
      tk_kind t = TkIntegration \<and> terminal_status (tk_status t) \<and> ex_taskId e = tk_id t \<longrightarrow>
        assertActiveExecution e = Inl ExecutionFenced)"
proof -
  let ?d = "foldl board_step db steps"
  have ok: "board_ok ?d" by (rule board_run_ok [OF assms])
  have one: "card {e \<in> set (db_executions ?d). ex_taskId e = i \<and> active_status (ex_status e)} \<le> 1"
  proof (rule card_one)
    fix x y assume h: "x \<in> {e \<in> set (db_executions ?d). ex_taskId e = i \<and> active_status (ex_status e)}"
      "y \<in> {e \<in> set (db_executions ?d). ex_taskId e = i \<and> active_status (ex_status e)}"
    then have m: "x \<in> set (db_executions ?d)" "y \<in> set (db_executions ?d)" "active_status (ex_status x)" "active_status (ex_status y)"
      "ex_taskId x = ex_taskId y" by simp_all
    have one: "one_active ?d" and dist: "distinct (map ex_id (db_executions ?d))" using ok by (simp_all add: board_ok_def keys_ok_def)
    have "ex_id x = ex_id y" using one m unfolding one_active_def by metis
    then show "x = y" by (rule key_unique [where f = ex_id, OF dist m(1,2)])
  qed simp
  have out: "length (filter (\<lambda>c. cx_executionId c = ex_id e) (db_cancellations ?d)) = 1"
    if "e \<in> set (db_executions ?d)" "ex_transitionedAt e \<noteq> None \<or> ex_supersededAt e \<noteq> None" for e
  proof (rule one_by_key)
    show "distinct (map cx_executionId (db_cancellations ?d))" using ok by (simp add: board_ok_def outbox_ok_def)
    show "ex_id e \<in> cx_executionId ` set (db_cancellations ?d)" using ok that unfolding board_ok_def outbox_ok_def marked_def by blast
  qed
  have "assertActiveExecution e = Inl ExecutionFenced"
    if "t \<in> set (db_tasks ?d)" "e \<in> set (db_executions ?d)" "tk_kind t = TkIntegration" "terminal_status (tk_status t)" "ex_taskId e = tk_id t" for t e
  proof -
    have "\<not> finishable e" using ok that unfolding board_ok_def integration_closed_def by blast
    then show ?thesis by (simp add: finishable_def assertActiveExecution_def)
  qed
  with one out show ?thesis by blast
qed

lemma board_runs_exclusive_witness:
  "card {e \<in> set (db_executions (foldl board_step demo_db [(demo_tx 5, OpFinish demo_user ''R1'' StDone ''ok'')])).
     ex_taskId e = ''D'' \<and> active_status (ex_status e)} \<le> 1"
  using board_runs_exclusive [OF demo_db_ok, where i = "''D''"] by blast


lemma board_run_tasks: "map tk_id (db_tasks (foldl board_step db steps)) = map tk_id (db_tasks db)" if "board_ok db" for db
  using that
proof (induction steps rule: rev_induct)
  case (snoc s steps)
  have "extends True (foldl board_step db steps) (foldl board_step db (steps @ [s]))"
    using board_step_good [OF board_run_ok [OF snoc.prems]] by (simp add: good_step_def)
  then show ?case using snoc by (simp add: extends_def)
qed simp

lemma demo_ids: "''Z'' \<in> set (map tk_id (db_tasks demo_db))"
  by (simp add: demo_defs)


section \<open>Transitions\<close>

lemma run_row:
  assumes "board_ok db" "e \<in> set (db_executions db)"
  shows "List.find (\<lambda>x. ex_runId x = ex_runId e) (db_executions db) = Some e"
  by (rule find_key) (use assms in \<open>simp_all add: board_ok_def keys_ok_def\<close>)

lemma finish_marks:
  assumes ok: "board_ok db" and run: "finishExecutionV2 tx who runId target body db = Inr db'" and new: "db' \<noteq> db"
  obtains e where "e \<in> set (db_executions db)" "finishable e" "ex_runId e = runId"
    "transition_of db' (ex_id e) = Some (runId, ex_taskId e, tx_now tx)"
proof -
  from run new show thesis
  proof (rule finish_rows)
    fix e task b db1
    assume e: "e \<in> set (db_executions db)" "ex_runId e = runId" "finishable e"
      and step: "(if tk_kind task = TkIntegration then transitionIntegrationAgent tx who task e target db1
          else finish_transition tx who task b e target db1) = Inr db'"
    have "\<exists>d1 d2. markTransitioned tx e d1 = Inr d2 \<and> db_executions db' = db_executions d2"
    proof (cases "tk_kind task = TkIntegration")
      case True
      then have "transitionIntegrationAgent tx who task e target db1 = Inr db'" using step by simp
      then show ?thesis by (auto simp: transitionIntegrationAgent_def Let_def bind_res_Inr_iff split: if_splits; blast)
    next
      case False
      then have "finish_transition tx who task b e target db1 = Inr db'" using step by simp
      then show ?thesis by (rule finish_transition_result) blast
    qed
    then obtain x where x: "x \<in> set (db_executions db')" "ex_id x = ex_id e" "ex_transitionedAt x = Some (tx_now tx)"
      using mark_present by metis
    have ev: "evolves True True db db'" using finish_fine(1) [OF ok run] by (simp add: fine_step_def)
    obtain x0 where x0: "x0 \<in> set (db_executions db)" "exec_le x0 x" using evolves_execution_before [OF ev x(1)] .
    have dist: "distinct (map ex_id (db_executions db))" using ok by (simp add: board_ok_def keys_ok_def)
    have "ex_id x0 = ex_id e" using exec_leD(1) [OF x0(2)] x(2) by simp
    then have "x0 = e" by (rule key_unique [where f = ex_id, OF dist x0(1) e(1)])
    then have "ex_runId x = runId" "ex_taskId x = ex_taskId e" using exec_leD(2,3) [OF x0(2)] e(2) by simp_all
    moreover have "board_ok db'" using good_closing [OF finish_fine [OF ok run] ok] by (simp add: good_step_def)
    ultimately have "transition_of db' (ex_id e) = Some (runId, ex_taskId e, tx_now tx)"
      using x by (simp add: transition_of_iff) (use x in blast)
    with e show thesis by (intro that) simp_all
  qed
qed

text \<open>C4. A run makes one transition. Once the finish of a run has changed the board, every later finish of that run, by
  any caller, with any target, after any commands, fails or answers without changing anything.\<close>

theorem transition_once:
  assumes "board_ok db" "finishExecutionV2 tx who runId target body db = Inr db1" "db1 \<noteq> db"
    and "finishExecutionV2 tx' who' runId target' body' (foldl board_step db1 steps) = Inr db2"
  shows "db2 = foldl board_step db1 steps"
proof (rule ccontr)
  assume new: "db2 \<noteq> foldl board_step db1 steps"
  let ?d = "foldl board_step db1 steps"
  have ok1: "board_ok db1" using good_closing [OF finish_fine [OF assms(1,2)] assms(1)] by (simp add: good_step_def)
  have ok: "board_ok ?d" by (rule board_run_ok [OF ok1])
  obtain e where "e \<in> set (db_executions db)" "finishable e" "ex_runId e = runId"
    and e: "transition_of db1 (ex_id e) = Some (runId, ex_taskId e, tx_now tx)" by (rule finish_marks [OF assms(1-3)])
  have "transition_of ?d (ex_id e) = Some (runId, ex_taskId e, tx_now tx)"
    by (rule transitions.run_keeps [OF ok1 _ e]) (simp add: list_all_iff)
  then obtain x where x: "x \<in> set (db_executions ?d)" "ex_runId x = runId" "ex_transitionedAt x = Some (tx_now tx)"
    unfolding transition_of_iff [OF ok] by blast
  obtain y where y: "y \<in> set (db_executions ?d)" "finishable y" "ex_runId y = runId"
    by (rule finish_marks [OF ok assms(4) new])
  have "distinct (map ex_runId (db_executions ?d))" using ok by (simp add: board_ok_def keys_ok_def)
  then have "y = x" by (rule key_unique [OF _ y(1) x(1)]) (simp add: x(2) y(3))
  then show False using x(3) y(2) by (simp add: finishable_def)
qed

lemma demo_replay:
  "\<exists>d. finishExecutionV2 (demo_tx 5) demo_user ''R1'' StDone ''ok'' demo_db = Inr d \<and>
     (\<exists>x. finishExecutionV2 (demo_tx 6) demo_user ''R1'' StDone ''ok'' d = Inr x)"
  by (simp add: finish_defs demo_defs js_trim_def js_space_def truthy_def Let_def)

lemma transition_once_witness:
  "\<exists>d. finishExecutionV2 (demo_tx 5) demo_user ''R1'' StDone ''ok'' demo_db = Inr d \<and> d \<noteq> demo_db \<and>
     finishExecutionV2 (demo_tx 6) demo_user ''R1'' StDone ''ok'' d = Inr d"
proof -
  obtain d x where d: "finishExecutionV2 (demo_tx 5) demo_user ''R1'' StDone ''ok'' demo_db = Inr d"
    and x: "finishExecutionV2 (demo_tx 6) demo_user ''R1'' StDone ''ok'' d = Inr x" using demo_replay by blast
  have new: "d \<noteq> demo_db" using demo_finish d by (metis sum.inject(2))
  have "x = foldl board_step d []" using transition_once [OF demo_db_ok d new, of "demo_tx 6" demo_user StDone "''ok''" "[]" x] x by simp
  with d x new show ?thesis by simp
qed

section \<open>Reviews\<close>


lemma demo_review:
  "\<exists>d. board_apply (demo_tx 5) (OpFinish demo_user ''R2'' StReadyToMerge ''ok'') demo_db = Inr d \<and>
     (\<exists>t' \<in> set (db_tasks d). tk_id t' = ''D'' \<and> tk_status t' = StReadyToMerge)"
  by (simp add: finish_defs demo_defs js_trim_def js_space_def truthy_def Let_def)


section \<open>Integrations\<close>

text \<open>C7. A finish with the target \<open>done\<close> closes the whole integration: the integration is done, its sources are merged unless they
  were canceled, their deliveries are terminal without an execution that could finish, its authorizations to merge
  are revoked and its lane is free.\<close>

theorem integration_closes:
  assumes ok: "board_ok db" and run: "finishExecutionV2 tx who runId StDone body db = Inr db'" and new: "db' \<noteq> db"
    and e: "e \<in> set (db_executions db)" "ex_runId e = runId"
    and task: "task \<in> set (db_tasks db)" "tk_id task = ex_taskId e" "tk_kind task = TkIntegration"
  shows "(\<exists>t \<in> set (db_tasks db'). tk_id t = tk_id task \<and> tk_status t = StDone) \<and>
    (\<forall>s \<in> set (db_sources db'). so_integrationTaskId s = tk_id task \<longrightarrow> so_state s = ''merged'' \<or> so_state s = ''canceled'') \<and>
    (\<forall>s \<in> set (db_sources db). \<forall>t \<in> set (db_tasks db').
       so_integrationTaskId s = tk_id task \<and> so_state s \<noteq> ''canceled'' \<and> so_deliveryTaskId s = tk_id t \<longrightarrow>
       terminal_status (tk_status t) \<and>
       (\<forall>x \<in> set (db_executions db'). ex_taskId x = tk_id t \<longrightarrow> assertActiveExecution x = Inl ExecutionFenced)) \<and>
    (\<forall>a \<in> set (db_authorizations db'). au_integrationTaskId a = tk_id task \<longrightarrow> au_revokedAt a \<noteq> None) \<and>
    (\<forall>l \<in> set (db_lanes db'). la_activeTaskId l \<noteq> Some (tk_id task))"
  using run new
proof (rule finish_rows)
  fix e1 task1 b db1
  assume e1: "e1 \<in> set (db_executions db)" "ex_runId e1 = runId" "finishable e1" and task1: "task1 \<in> set (db_tasks db)" "tk_id task1 = ex_taskId e1"
    and cm: "recordExecutionFinishComment tx e1 body db = Inr db1"
    and step: "(if tk_kind task1 = TkIntegration then transitionIntegrationAgent tx who task1 e1 StDone db1
          else finish_transition tx who task1 b e1 StDone db1) = Inr db'"
  have keys: "keys_ok db" using ok by (simp add: board_ok_def)
  have "e1 = e" using run_row [OF ok e(1)] run_row [OF ok e1(1)] e(2) e1(2) by simp
  moreover have "task1 = task" by (rule task_row_unique [OF keys task(1) task1(1)]) (simp add: task(2) task1(2) calculation)
  ultimately have tr: "transitionIntegrationAgent tx who task e StDone db1 = Inr db'" using step task(3) by simp
  let ?i = "tk_id task"
  let ?db1 = "db1\<lparr>db_agents := sql_update (\<lambda>a. ag_integrationTaskId a = ?i) (clear_review ''merged'') (db_agents db1)\<rparr>"
  let ?c = "close_integration tx ?i ?db1"
  let ?db3 = "?c\<lparr>db_tasks := sql_update (\<lambda>t. tk_id t = ?i) (integration_row tx StDone) (db_tasks ?c)\<rparr>"
  obtain db5 where m: "markTransitioned tx e ?db3 = Inr db5"
    and d5: "db_executions db' = db_executions db5" "db_tasks db' = db_tasks db5" "db_sources db' = db_sources db5"
      "db_lanes db' = db_lanes db5" "db_authorizations db' = db_authorizations db5"
    using tr by (auto simp: transitionIntegrationAgent_def Let_def bind_res_Inr_iff appendChange_def split: if_splits)
  have auth: "db_authorizations db5 = db_authorizations ?db3" using m by (auto simp: markTransitioned_def split: list.splits)
  note frame1 = finish_comment_frame [OF cm]
  have tasks: "db_tasks db' = sql_update (\<lambda>t. tk_id t = ?i) (integration_row tx StDone) (db_tasks ?c)"
    by (simp add: d5 mark_result(2) [OF m])
  have sources: "db_sources db' = sql_update (\<lambda>s. so_integrationTaskId s = ?i \<and> so_state s \<noteq> ''canceled'')
      (\<lambda>s. s\<lparr>so_state := ''merged'', so_lastError := None\<rparr>) (db_sources db)"
    by (simp add: d5 mark_result(3) [OF m] close_integration_frame frame1)
  have "\<exists>t \<in> set (db_tasks db'). tk_id t = ?i \<and> tk_status t = StDone"
  proof -
    have "keys_ok ?db1" using keys by (simp add: keys_ok_def frame1)
    then have "evolves False False ?db1 ?c" using close_integration_fine unfolding fine_step_def by blast
    from evolves_keys(3) [OF this] have ids: "map tk_id (db_tasks ?c) = map tk_id (db_tasks db)" by (simp add: frame1)
    have "?i \<in> set (map tk_id (db_tasks ?c))" unfolding ids using task(1) by simp
    then obtain t where t: "t \<in> set (db_tasks ?c)" "tk_id t = ?i" by auto
    have "integration_row tx StDone t \<in> set (db_tasks db')" unfolding tasks in_sql_update by (rule bexI [OF _ t(1)]) (simp add: t(2))
    then show ?thesis by (rule rev_bexI) (simp add: integration_row_def t(2))
  qed
  moreover have "\<forall>s \<in> set (db_sources db'). so_integrationTaskId s = ?i \<longrightarrow> so_state s = ''merged'' \<or> so_state s = ''canceled''"
    unfolding sources by (auto simp: in_sql_update)
  moreover have "terminal_status (tk_status t) \<and> (\<forall>x \<in> set (db_executions db'). ex_taskId x = tk_id t \<longrightarrow> assertActiveExecution x = Inl ExecutionFenced)"
    if s: "s \<in> set (db_sources db)" and t: "t \<in> set (db_tasks db')"
      and src: "so_integrationTaskId s = ?i" "so_state s \<noteq> ''canceled''" "so_deliveryTaskId s = tk_id t" for s t
  proof
    obtain u where u: "u \<in> set (db_tasks ?c)" "t = (if tk_id u = ?i then integration_row tx StDone u else u)"
      using t unfolding tasks in_sql_update by blast
    have tu: "tk_id t = tk_id u" using u(2) by (simp add: integration_row_def)
    obtain w where w: "w \<in> set (db_tasks db)" "u = (if closed_delivery ?db1 ?i w then w\<lparr>tk_status := StDone,
        tk_completedAt := nullish (tk_completedAt w) (Some (tx_now tx)), tk_version := tk_version w + 1\<rparr> else w)"
      using u(1) unfolding close_integration_frame in_sql_update by (auto simp: frame1)
    have uw: "tk_id u = tk_id w" using w(2) by simp
    have "closed_delivery ?db1 ?i w \<or> terminal_status (tk_status w)"
      using s src tu uw by (auto simp: closed_delivery_def frame1)
    then have "terminal_status (tk_status u)" using w(2) by auto
    then show "terminal_status (tk_status t)" using u(2) by (simp add: integration_row_def)
    let ?ids = "map tk_id (filter (\<lambda>t. \<exists>s \<in> set (db_sources db). (so_integrationTaskId s = ?i \<and> so_state s \<noteq> ''canceled'') \<and> so_deliveryTaskId s = tk_id t)
        (db_tasks db))"
    have ids: "tk_id t \<in> set ?ids" using w(1) s src tu uw by auto
    show "\<forall>x \<in> set (db_executions db'). ex_taskId x = tk_id t \<longrightarrow> assertActiveExecution x = Inl ExecutionFenced"
    proof (intro ballI impI)
      fix x assume x: "x \<in> set (db_executions db')" "ex_taskId x = tk_id t"
      obtain y where y: "y \<in> set (db_executions ?c)" "x = (if transition_hit (ex_id e) y then transition_row tx y else y)"
        using x(1) unfolding d5 mark_result(1) [OF m] in_sql_update by auto
      have "y \<in> set (db_executions (fst (fenceTaskExecutions tx ?ids ''integration_completed'' None ?db1)))"
        using y(1) unfolding close_integration_frame by (simp add: frame1)
      moreover have "ex_taskId y \<in> set ?ids" using x(2) y(2) ids by (auto simp: transition_row_def split: if_splits)
      ultimately have "\<not> finishable y" by (rule fence_clears)
      then have "\<not> finishable x" using y(2) by (auto simp: transition_row_def finishable_def)
      then show "assertActiveExecution x = Inl ExecutionFenced" by (simp add: assertActiveExecution_def finishable_def)
    qed
  qed
  moreover have "\<forall>a \<in> set (db_authorizations db'). au_integrationTaskId a = ?i \<longrightarrow> au_revokedAt a \<noteq> None"
    unfolding d5 auth by (auto simp: close_integration_def Let_def in_sql_update)
  moreover have "\<forall>l \<in> set (db_lanes db'). la_activeTaskId l \<noteq> Some ?i"
  proof
    fix l assume "l \<in> set (db_lanes db')"
    then obtain l0 where l0: "l = (if la_activeTaskId l0 = Some ?i
        then l0\<lparr>la_activeTaskId := None, la_leaseId := None, la_epoch := la_epoch l0 + 1\<rparr> else l0)"
      by (auto simp: d5 mark_result(4) [OF m] close_integration_frame in_sql_update)
    then show "la_activeTaskId l \<noteq> Some ?i" by (cases "la_activeTaskId l0 = Some ?i") simp_all
  qed
  ultimately show ?thesis by blast
qed

lemma integration_closes_witness:
  "\<exists>d. finishExecutionV2 (demo_tx 5) demo_user ''R1'' StDone ''ok'' demo_db = Inr d \<and>
     (\<exists>t \<in> set (db_tasks d). tk_id t = ''I'' \<and> tk_status t = StDone)"
proof -
  obtain d where d: "finishExecutionV2 (demo_tx 5) demo_user ''R1'' StDone ''ok'' demo_db = Inr d" "d \<noteq> demo_db"
    using demo_finish by blast
  have "(\<exists>t \<in> set (db_tasks d). tk_id t = tk_id (demo_task ''I'' TkIntegration StInProgress) \<and> tk_status t = StDone)"
    using integration_closes [OF demo_db_ok d, of "demo_execution ''E1'' ''I'' ''R1'' PurposeWork" "demo_task ''I'' TkIntegration StInProgress"]
    by (simp add: demo_defs)
  with d(1) show ?thesis by (auto simp: demo_task_def)
qed

section \<open>Cancellations\<close>

lemma claimed_ids:
  "(cid, r, reason) \<in> set (snd (claimWorkflowCancellations tx limit db)) \<Longrightarrow>
     \<exists>d \<in> set (db_cancellations db). cx_id d = cid \<and> cancellation_due (tx_now tx) d"
  by (auto simp: claimWorkflowCancellations_def Let_def dest!: in_set_takeD)

text \<open>C29. A claim of cancellations takes at most as many as asked for, and never more than a hundred; those of a transition only
  30 seconds after it; and what it has claimed no other claim takes within five minutes.\<close>

theorem cancellations_leased:
  assumes keys: "distinct (map cx_id (db_cancellations db))"
    and soon: "tx_now tx \<le> tx_now tx'" "tx_now tx' \<le> tx_now tx + 300000"
  shows "length (snd (claimWorkflowCancellations tx limit db)) \<le> nat (max 1 (min limit 100)) \<and>
    (\<forall>(cid, r, reason) \<in> set (snd (claimWorkflowCancellations tx limit db)).
       (\<exists>c \<in> set (db_cancellations db). cx_id c = cid \<and> cx_status c \<noteq> CxCompleted \<and>
          (cx_reason c = EXECUTION_TRANSITIONED_REASON \<longrightarrow> cx_createdAt c + 30000 \<le> tx_now tx)) \<and>
       (\<forall>(other, _) \<in> set (snd (claimWorkflowCancellations tx' limit' (fst (claimWorkflowCancellations tx limit db)))). other \<noteq> cid))"
proof -
  let ?n = "nat (max 1 (min limit 100))"
  define due where "due = take ?n (sort_key (\<lambda>c. (cx_createdAt c, cx_id c)) (filter (cancellation_due (tx_now tx)) (db_cancellations db)))"
  let ?p = "\<lambda>c. cx_id c \<in> cx_id ` set due"
  let ?f = "\<lambda>c. c\<lparr>cx_status := CxProcessing, cx_attempts := cx_attempts c + 1, cx_lastError := None, cx_updatedAt := tx_now tx\<rparr>"
  have snd: "snd (claimWorkflowCancellations tx limit db) = map (\<lambda>c. (cx_id c, cx_runId c, cx_reason c)) (filter ?p (db_cancellations db))"
    and fst: "db_cancellations (fst (claimWorkflowCancellations tx limit db)) = sql_update ?p ?f (db_cancellations db)"
    by (simp_all add: claimWorkflowCancellations_def Let_def due_def)
  have len: "length (snd (claimWorkflowCancellations tx limit db)) \<le> ?n"
  proof -
    have "distinct (map cx_id (filter ?p (db_cancellations db)))" using keys by (rule distinct_map_filter)
    then have "length (filter ?p (db_cancellations db)) = card (set (map cx_id (filter ?p (db_cancellations db))))"
      by (metis distinct_card length_map)
    also have "\<dots> \<le> card (cx_id ` set due)" by (rule card_mono) auto
    also have "\<dots> \<le> length due" by (metis card_image_le card_length le_trans List.finite_set)
    also have "\<dots> \<le> ?n" by (simp add: due_def)
    finally show ?thesis by (simp add: snd)
  qed
  have picked: "cancellation_due (tx_now tx) c" if c: "c \<in> set (db_cancellations db)" and p: "?p c" for c
  proof -
    obtain d where d: "d \<in> set due" "cx_id d = cx_id c" using p by auto
    then have "d \<in> set (db_cancellations db)" "cancellation_due (tx_now tx) d" by (auto simp: due_def dest!: in_set_takeD)
    moreover have "d = c" by (rule key_unique [where f = cx_id, OF keys calculation(1) c d(2)])
    ultimately show ?thesis by simp
  qed
  have notdue: "\<not> cancellation_due (tx_now tx') (?f c)" for c
    using soon by (simp add: cancellation_due_def)
  have lease: "other \<noteq> cid" if c: "c \<in> set (db_cancellations db)" "?p c" "cid = cx_id c"
    and o: "(other, rest) \<in> set (snd (claimWorkflowCancellations tx' limit' (fst (claimWorkflowCancellations tx limit db))))" for c cid other rest
  proof
    assume same: "other = cid"
    obtain r reason where "rest = (r, reason)" by (cases rest)
    with o obtain d where d: "d \<in> set (sql_update ?p ?f (db_cancellations db))" "cx_id d = other" "cancellation_due (tx_now tx') d"
      using claimed_ids [of other r reason tx' limit' "fst (claimWorkflowCancellations tx limit db)"] by (auto simp: fst)
    obtain d0 where d0: "d0 \<in> set (db_cancellations db)" "d = (if ?p d0 then ?f d0 else d0)" using d(1) unfolding in_sql_update by blast
    have "cx_id d0 = cx_id c" using d0(2) d(2) same c(3) by (simp split: if_splits)
    then have "d0 = c" by (rule key_unique [where f = cx_id, OF keys d0(1) c(1)])
    then show False using d0(2) c(2) d(3) notdue by simp
  qed
  have due1: "cx_status c \<noteq> CxCompleted \<and> (cx_reason c = EXECUTION_TRANSITIONED_REASON \<longrightarrow> cx_createdAt c + 30000 \<le> tx_now tx)"
    if "cancellation_due (tx_now tx) c" for c
    using that by (auto simp: cancellation_due_def)
  have each: "(\<exists>c \<in> set (db_cancellations db). cx_id c = cid \<and> cx_status c \<noteq> CxCompleted \<and>
          (cx_reason c = EXECUTION_TRANSITIONED_REASON \<longrightarrow> cx_createdAt c + 30000 \<le> tx_now tx)) \<and>
       (\<forall>(other, _) \<in> set (snd (claimWorkflowCancellations tx' limit' (fst (claimWorkflowCancellations tx limit db)))). other \<noteq> cid)"
    if "(cid, r, reason) \<in> set (snd (claimWorkflowCancellations tx limit db))" for cid r reason
  proof -
    obtain c where c: "c \<in> set (db_cancellations db)" "?p c" "cid = cx_id c" using \<open>(cid, r, reason) \<in> _\<close> by (auto simp: snd)
    show ?thesis using due1 [OF picked [OF c(1,2)]] c lease [OF c] by (auto split: prod.splits)
  qed
  show ?thesis
  proof (intro conjI len ballI, clarify)
    fix cid r reason assume "(cid, r, reason) \<in> set (snd (claimWorkflowCancellations tx limit db))"
    from each [OF this] show "(\<exists>c \<in> set (db_cancellations db). cx_id c = cid \<and> cx_status c \<noteq> CxCompleted \<and>
          (cx_reason c = EXECUTION_TRANSITIONED_REASON \<longrightarrow> cx_createdAt c + 30000 \<le> tx_now tx)) \<and>
       (\<forall>(other, _) \<in> set (snd (claimWorkflowCancellations tx' limit' (fst (claimWorkflowCancellations tx limit db)))). other \<noteq> cid)" .
  qed
qed

definition demo_cancellation :: "string \<Rightarrow> int \<Rightarrow> cancellation_row" where
  "demo_cancellation i t =
     \<lparr>cx_id = i, cx_executionId = i, cx_runId = i, cx_taskId = ''D'', cx_reason = EXECUTION_TRANSITIONED_REASON, cx_fenceEpoch = 1,
      cx_status = CxPending, cx_attempts = 0, cx_lastError = None, cx_createdAt = t, cx_updatedAt = t\<rparr>"

lemma cancellations_leased_witness:
  "length (snd (claimWorkflowCancellations (demo_tx 60000) 1
     (demo_db\<lparr>db_cancellations := [demo_cancellation ''c1'' 5, demo_cancellation ''c2'' 6]\<rparr>))) \<le> 1"
  using cancellations_leased [of "demo_db\<lparr>db_cancellations := [demo_cancellation ''c1'' 5, demo_cancellation ''c2'' 6]\<rparr>" "demo_tx 60000" "demo_tx 70000" 1 100]
  by (simp add: demo_cancellation_def demo_tx_def)

section \<open>Failures\<close>

text \<open>The stage to which a task returns for a further try.\<close>

fun stage_status :: "purpose \<Rightarrow> task_status" where
  "stage_status PurposeWork = StTodo"
| "stage_status PurposeReview = StInReview"
| "stage_status PurposeMerge = StInProgress"

lemma complete_found:
  assumes ok: "board_ok db" and boards: "distinct (map bo_id (db_boards db))"
    and e: "e \<in> set (db_executions db)" and b: "b \<in> set (db_boards db)" "bo_id b = tk_boardId task"
    and ld: "requireTaskWithBoard db \<lparr>id_tenantId = bo_tenantId b, id_userId = bo_ownerUserId b\<rparr> (ex_taskId e) = Inr (task, b)"
  shows "completeExecution tx (ex_runId e) input None db =
     (if tk_kind task = TkIntegration \<and> tk_workflowVersion task \<noteq> 3 then Inr (absorb_legacy tx (ex_runId e) db)
      else if isTerminalExecutionStatus (ex_status e) then Inr (release_dispatch False (ex_runId e) db)
      else
        let hasProtocolTransition = (ex_protocolVersion e = 2 \<and> ex_transitionedAt e \<noteq> None);
            (input', unfinishedStage) = normalizeExecutionCompletion (ex_protocolVersion e) hasProtocolTransition input in
        if tk_archivedAt task \<noteq> None \<or> bo_archivedAt b \<noteq> None
        then Inr (finalizeExecutionForArchivedTask tx e input' db)
        else complete_active tx \<lparr>id_tenantId = bo_tenantId b, id_userId = bo_ownerUserId b\<rparr> task b e hasProtocolTransition input' unfinishedStage db)"
proof -
  have task: "task \<in> set (db_tasks db)" "tk_id task = ex_taskId e" using require_task_found [OF ld] by simp_all
  have "distinct (map tk_id (db_tasks db))" using ok by (simp add: board_ok_def keys_ok_def)
  from find_key [OF this task(1)] have ft: "List.find (\<lambda>t. tk_id t = ex_taskId e) (db_tasks db) = Some task" by (simp add: task(2))
  from find_key [OF boards b(1)] have fb: "List.find (\<lambda>x. bo_id x = tk_boardId task) (db_boards db) = Some b" by (simp add: b(2))
  show ?thesis unfolding completeExecution_def run_row [OF ok e] option.case ft fb Let_def ld bind_res_simps prod.case by simp
qed

lemma recover_failed:
  assumes "tk_kind task \<noteq> TkIntegration"
  shows "recover_unfinished tx who task b e CompFailed db =
     (let n = fst (retry_policy db task b (ex_purpose e)); m = snd (retry_policy db task b (ex_purpose e)) in
      if n \<ge> max 0 m then recordBlock tx (tk_id task) e ''automatic_retry_exhausted'' (recover_task who task e StBlocked db)
      else recover_task who task e (stage_status (ex_purpose e)) db)"
  using assms by (cases "ex_purpose e") (simp_all add: recover_unfinished_def unresolvedExecutionRecovery_def Let_def split_beta)

lemma recover_task_row:
  assumes "task \<in> set (db_tasks db)"
  shows "\<exists>t \<in> set (db_tasks (recover_task who task e status db)). tk_id t = tk_id task \<and> tk_status t = status"
proof -
  let ?so = "if status = tk_status task then tk_sortOrder task else nextTaskColumnSortOrder db who (tk_boardId task) (tk_id task) status"
  have "recovered_task status (ex_purpose e) ?so task \<in> set (db_tasks (recover_task who task e status db))"
  proof -
    have "db_tasks (recover_task who task e status db) = sql_update (\<lambda>t. tk_id t = tk_id task) (recovered_task status (ex_purpose e) ?so) (db_tasks db)"
      by (simp add: recover_task_def)
    then show ?thesis by (simp only: in_sql_update) (rule bexI [OF _ assms], simp only: refl if_True)
  qed
  then show ?thesis by (rule rev_bexI) (simp add: recovered_task_def)
qed


text \<open>So a board that allows no retries still tries a stage again once.\<close>

lemma no_retries_retried_once:
  assumes "bo_maxTransientRetries b = Some 0" "retry_policy db task b p = (n, m)"
  shows "(n < m) = (\<not> (\<exists>x \<in> set (db_executions db). ex_taskId x = tk_id task \<and> ex_purpose x = p \<and> ex_protocolVersion x = 2 \<and> ex_status x = ExFailed))"
  using assms by (auto simp: retry_policy_def Let_def filter_empty_conv split: if_splits)

definition demo_failure :: completion_input where
  "demo_failure = \<lparr>co_status = CompFailed, co_commentBody = ''no'', co_error = Some ''boom'', co_review = None\<rparr>"


end
