(* ===== verification/V2_Json.thy ===== *)
theory V2_Json
  imports App_Jcs
begin

text \<open>
  The reader of the second protocol version (\<^verbatim>\<open>v2/json.ts\<close>): it walks over the text and refuses an object with two
  equal keys, before \<open>JSON.parse\<close> reads the value. Texts are lists of UTF-16 code units. \<open>JSON.parse\<close> is the
  parameter \<open>jp\<close>, \<open>None\<close> where it throws; it also reads the keys, so that two spellings of one key are one key. The
  stack of the recursion is not bounded here.
\<close>

datatype v2_error =
    V2InvalidAlg | V2MalformedJose | V2PrivateJwkRejected | V2KeyIdMismatch | V2InvalidPkce | V2CallbackMismatch
  | V2InvalidOrigin | V2InvalidIssuer | V2InvalidAudience | V2InstallationBindingMismatch | V2InvalidTokenTime
  | V2InvalidKeySource | V2InvalidTyp | V2AssertionReplayed | V2DpopRequired | V2InstallationInactive
  | V2KeyGenerationMismatch | V2InvalidDpopProof | V2DpopReplayed | V2DpopKeyMismatch | V2DowngradeRejected
  | V2NonceMismatch | V2ManifestDigestMismatch | V2InvalidSignature | V2InvalidClaims | V2InsufficientScope | V2TypeError

section \<open>The reader\<close>

text \<open>The white space of \<^verbatim>\<open>/\s/u\<close>.\<close>

definition is_space :: "nat \<Rightarrow> bool" where
  "is_space u \<longleftrightarrow> u \<in> {9, 10, 11, 12, 13, 32, 0xA0, 0x1680, 0x2028, 0x2029, 0x202F, 0x205F, 0x3000, 0xFEFF} \<or> (0x2000 \<le> u \<and> u \<le> 0x200A)"

definition skip_space :: "jstring \<Rightarrow> jstring" where
  "skip_space s = dropWhile is_space s"

text \<open>The rest of a string literal up to its closing quote, and what follows.\<close>

fun close_quote :: "jstring \<Rightarrow> (jstring \<times> jstring) option" where
  "close_quote [] = None"
| "close_quote (u # us) =
     (if u = 92 then (case us of [] \<Rightarrow> None | v # vs \<Rightarrow> map_option (\<lambda>(b, r). (u # v # b, r)) (close_quote vs))
      else if u = 34 then Some ([34], us)
      else map_option (\<lambda>(b, r). (u # b, r)) (close_quote us))"

definition scan_string :: "(jstring \<Rightarrow> json option) \<Rightarrow> jstring \<Rightarrow> v2_error + json \<times> jstring" where
  "scan_string jp s =
     (case s of
        [] \<Rightarrow> Inl V2MalformedJose
      | u # us \<Rightarrow>
          if u \<noteq> 34 then Inl V2MalformedJose
          else (case close_quote us of
                  None \<Rightarrow> Inl V2MalformedJose
                | Some (b, r) \<Rightarrow> (case jp (34 # b) of None \<Rightarrow> Inl V2MalformedJose | Some v \<Rightarrow> Inr (v, r))))"

text \<open>The regular expression of literals and numbers: the text behind its match. An optional part that does not match is left.\<close>

definition digits1 :: "jstring \<Rightarrow> jstring option" where
  "digits1 s = (if takeWhile is_digit s = [] then None else Some (dropWhile is_digit s))"

definition or_skip :: "(jstring \<Rightarrow> jstring option) \<Rightarrow> jstring \<Rightarrow> jstring" where
  "or_skip p s = (case p s of None \<Rightarrow> s | Some r \<Rightarrow> r)"

definition match_fraction :: "jstring \<Rightarrow> jstring option" where
  "match_fraction s = (case s of u # r \<Rightarrow> if u = 46 then digits1 r else None | [] \<Rightarrow> None)"

definition match_sign :: "jstring \<Rightarrow> jstring option" where
  "match_sign s = (case s of u # r \<Rightarrow> if u = 43 \<or> u = 45 then Some r else None | [] \<Rightarrow> None)"

definition match_exponent :: "jstring \<Rightarrow> jstring option" where
  "match_exponent s = (case s of u # r \<Rightarrow> if u = 101 \<or> u = 69 then digits1 (or_skip match_sign r) else None | [] \<Rightarrow> None)"

definition match_minus :: "jstring \<Rightarrow> jstring option" where
  "match_minus s = (case s of u # r \<Rightarrow> if u = 45 then Some r else None | [] \<Rightarrow> None)"

definition match_integer :: "jstring \<Rightarrow> jstring option" where
  "match_integer s = (case s of u # r \<Rightarrow> if u = 48 then Some r else digits1 s | [] \<Rightarrow> None)"

definition match_number :: "jstring \<Rightarrow> jstring option" where
  "match_number s = map_option (\<lambda>r. or_skip match_exponent (or_skip match_fraction r)) (match_integer (or_skip match_minus s))"

definition match_literal :: "jstring \<Rightarrow> jstring option" where
  "match_literal s =
     (if starts_with s (units ''true'') then Some (drop 4 s)
      else if starts_with s (units ''false'') then Some (drop 5 s)
      else if starts_with s (units ''null'') then Some (drop 4 s)
      else match_number s)"

definition scan_key :: "(jstring \<Rightarrow> json option) \<Rightarrow> json list \<Rightarrow> jstring \<Rightarrow> v2_error + json \<times> jstring" where
  "scan_key jp keys s =
     bind_res (scan_string jp (skip_space s)) (\<lambda>(key, s1).
     if key \<in> set keys then Inl V2MalformedJose
     else (case skip_space s1 of u # s2 \<Rightarrow> if u = 58 then Inr (key, s2) else Inl V2MalformedJose | [] \<Rightarrow> Inl V2MalformedJose))"

definition scan_more :: "nat \<Rightarrow> jstring \<Rightarrow> v2_error + bool \<times> jstring" where
  "scan_more close s =
     (case skip_space s of
        [] \<Rightarrow> Inl V2MalformedJose
      | u # r \<Rightarrow> if u = close then Inr (False, r) else if u = 44 then Inr (True, r) else Inl V2MalformedJose)"

definition at_close :: "nat \<Rightarrow> jstring \<Rightarrow> jstring option" where
  "at_close close s = (case skip_space s of [] \<Rightarrow> None | u # r \<Rightarrow> if u = close then Some r else None)"

definition scan_leaf :: "(jstring \<Rightarrow> json option) \<Rightarrow> jstring \<Rightarrow> v2_error + unit \<times> jstring" where
  "scan_leaf jp s =
     (if s \<noteq> [] \<and> hd s = 34 then bind_res (scan_string jp s) (\<lambda>(_, r). Inr ((), r))
      else (case match_literal s of None \<Rightarrow> Inl V2MalformedJose | Some r \<Rightarrow> Inr ((), r)))"

text \<open>The mutual recursion with fuel; \<open>scan_fuel\<close> shows that the fuel of the caller is enough.\<close>

type_synonym scanned = "(v2_error + unit \<times> jstring) option"

fun scan_value :: "(jstring \<Rightarrow> json option) \<Rightarrow> nat \<Rightarrow> jstring \<Rightarrow> scanned"
  and scan_fields :: "(jstring \<Rightarrow> json option) \<Rightarrow> nat \<Rightarrow> json list \<Rightarrow> jstring \<Rightarrow> scanned"
  and scan_items :: "(jstring \<Rightarrow> json option) \<Rightarrow> nat \<Rightarrow> jstring \<Rightarrow> scanned" where
  "scan_value jp 0 s = None"
| "scan_value jp (Suc n) s =
     (case skip_space s of
        [] \<Rightarrow> Some (Inl V2MalformedJose)
      | u # r \<Rightarrow>
          if u = 123 then (case at_close 125 r of Some r' \<Rightarrow> Some (Inr ((), r')) | None \<Rightarrow> scan_fields jp n [] r)
          else if u = 91 then (case at_close 93 r of Some r' \<Rightarrow> Some (Inr ((), r')) | None \<Rightarrow> scan_items jp n r)
          else Some (scan_leaf jp (u # r)))"
| "scan_fields jp 0 keys s = None"
| "scan_fields jp (Suc n) keys s =
     bind_parsed (Some (scan_key jp keys s)) (\<lambda>key s1.
     bind_parsed (scan_value jp n s1) (\<lambda>_ s2.
     bind_parsed (Some (scan_more 125 s2)) (\<lambda>more s3.
       if more then scan_fields jp n (keys @ [key]) s3 else Some (Inr ((), s3)))))"
| "scan_items jp 0 s = None"
| "scan_items jp (Suc n) s =
     bind_parsed (scan_value jp n s) (\<lambda>_ s1.
     bind_parsed (Some (scan_more 93 s1)) (\<lambda>more s2.
       if more then scan_items jp n s2 else Some (Inr ((), s2))))"

definition parseJsonWithoutDuplicateKeys :: "(jstring \<Rightarrow> json option) \<Rightarrow> jstring \<Rightarrow> v2_error + json" where
  "parseJsonWithoutDuplicateKeys jp s =
     (case scan_value jp (2 * length s + 2) s of
        None \<Rightarrow> Inl V2MalformedJose
      | Some (Inl e) \<Rightarrow> Inl e
      | Some (Inr (_, rest)) \<Rightarrow>
          if skip_space rest \<noteq> [] then Inl V2MalformedJose
          else (case jp s of None \<Rightarrow> Inl V2MalformedJose | Some v \<Rightarrow> Inr v))"

section \<open>The reader ends\<close>

lemma skip_space_length: "length (skip_space s) \<le> length s"
  by (simp add: skip_space_def length_dropWhile_le)

lemma skip_space_Cons: "skip_space s = u # r \<Longrightarrow> length r < length s"
  using skip_space_length [of s] by simp

lemma close_quote_length: "close_quote s = Some (b, r) \<Longrightarrow> length r < length s"
  by (induction s arbitrary: b r rule: close_quote.induct) (fastforce split: if_splits list.splits)+

lemma scan_string_length: "scan_string jp s = Inr (v, r) \<Longrightarrow> length r < length s"
  by (auto simp: scan_string_def split: list.splits if_splits option.splits dest: close_quote_length)

lemma digits1_length: "digits1 s = Some r \<Longrightarrow> length r < length s"
proof -
  assume "digits1 s = Some r"
  then have "takeWhile is_digit s \<noteq> []" "r = dropWhile is_digit s" by (auto simp: digits1_def split: if_splits)
  moreover have "length s = length (takeWhile is_digit s) + length (dropWhile is_digit s)"
    by (metis length_append takeWhile_dropWhile_id)
  ultimately show ?thesis by simp
qed

lemma or_skip_length: "(\<And>r. p s = Some r \<Longrightarrow> length r < length s) \<Longrightarrow> length (or_skip p s) \<le> length s"
  by (auto simp: or_skip_def split: option.splits intro: less_imp_le)

lemma match_part_length:
  "match_sign s = Some r \<Longrightarrow> length r < length s"
  "match_minus s = Some r \<Longrightarrow> length r < length s"
  "match_fraction s = Some r \<Longrightarrow> length r < length s"
  "match_integer s = Some r \<Longrightarrow> length r < length s"
  by (auto simp: match_sign_def match_minus_def match_fraction_def match_integer_def split: list.splits if_splits
      dest!: digits1_length)

lemma match_exponent_length: "match_exponent s = Some r \<Longrightarrow> length r < length s"
  by (auto simp: match_exponent_def split: list.splits if_splits dest!: digits1_length
      intro: less_le_trans less_imp_le le_imp_less_Suc order_trans or_skip_length [OF match_part_length(1)])

lemma match_number_length: "match_number s = Some r \<Longrightarrow> length r < length s"
proof -
  assume "match_number s = Some r"
  then obtain r1 where r1: "match_integer (or_skip match_minus s) = Some r1" "r = or_skip match_exponent (or_skip match_fraction r1)"
    by (auto simp: match_number_def)
  have "length r \<le> length r1"
    unfolding r1(2) by (rule order_trans [OF or_skip_length or_skip_length]) (auto dest: match_part_length match_exponent_length)
  also have "\<dots> < length (or_skip match_minus s)" by (rule match_part_length(4) [OF r1(1)])
  also have "\<dots> \<le> length s" by (rule or_skip_length) (rule match_part_length(2))
  finally show ?thesis .
qed

lemma match_literal_length: "match_literal s = Some r \<Longrightarrow> length r < length s"
  by (cases s) (auto simp: match_literal_def starts_with_def units_def split: if_splits dest: match_number_length)

lemma scan_leaf_length: "scan_leaf jp s = Inr (x, r) \<Longrightarrow> length r < length s"
  by (auto simp: scan_leaf_def bind_res_Inr_iff split: if_splits option.splits dest: scan_string_length match_literal_length)

lemma scan_more_length: "scan_more close s = Inr (more, r) \<Longrightarrow> length r < length s"
  by (auto simp: scan_more_def split: list.splits if_splits dest: skip_space_Cons)

lemma at_close_length: "at_close close s = Some r \<Longrightarrow> length r < length s"
  by (auto simp: at_close_def split: list.splits if_splits dest: skip_space_Cons)

lemma scan_key_length: "scan_key jp keys s = Inr (key, r) \<Longrightarrow> length r + 1 < length s"
proof -
  assume "scan_key jp keys s = Inr (key, r)"
  then obtain s1 where s1: "scan_string jp (skip_space s) = Inr (key, s1)" "skip_space s1 = 58 # r"
    by (auto simp: scan_key_def bind_res_Inr_iff split: if_splits list.splits)
  with scan_string_length [OF s1(1)] skip_space_length [of s] skip_space_Cons [OF s1(2)] show ?thesis by simp
qed

lemma scan_length:
  "scan_value jp n s = Some (Inr (x, r)) \<Longrightarrow> length r < length s"
  "scan_fields jp n keys s = Some (Inr (x, r)) \<Longrightarrow> length r < length s"
  "scan_items jp n s = Some (Inr (x, r)) \<Longrightarrow> length r < length s"
proof (induction n arbitrary: s x r keys)
  case (Suc n)
  {
    case 1
    then obtain u t where s: "skip_space s = u # t" by (auto split: list.splits)
    have t: "length t < length s" by (rule skip_space_Cons [OF s])
    from 1 s have "length r \<le> length t"
      by (auto split: if_splits option.splits dest!: at_close_length scan_leaf_length Suc(2,3))
    with t show ?case by simp
  next
    case 2
    then show ?case by (auto simp: bind_parsed_Some split: if_splits dest!: scan_key_length scan_more_length Suc)
  next
    case 3
    then show ?case by (auto simp: bind_parsed_Some split: if_splits dest!: scan_more_length Suc)
  }
qed simp_all

lemma scan_fuel:
  "2 * length s < n \<Longrightarrow> scan_value jp n s \<noteq> None"
  "2 * length s < n \<Longrightarrow> scan_fields jp n keys s \<noteq> None"
  "2 * length s + 1 < n \<Longrightarrow> scan_items jp n s \<noteq> None"
proof (induction n arbitrary: s keys)
  case (Suc n)
  {
    case 1
    show ?case
    proof (cases "skip_space s")
      case (Cons u t)
      have "length t < length s" by (rule skip_space_Cons [OF Cons])
      with 1 Cons Suc(2) [of t "[]"] Suc(3) [of t] show ?thesis by (auto split: option.splits)
    qed simp
  next
    case 2
    show ?case
    proof
      assume "scan_fields jp (Suc n) keys s = None"
      then consider key s1 where "scan_key jp keys s = Inr (key, s1)" "scan_value jp n s1 = None"
        | key s1 x s2 s3 where "scan_key jp keys s = Inr (key, s1)" "scan_value jp n s1 = Some (Inr (x, s2))"
          "scan_more 125 s2 = Inr (True, s3)" "scan_fields jp n (keys @ [key]) s3 = None"
        by (auto simp: bind_parsed_None split: if_splits)
      then show False
      proof cases
        case 1
        with Suc(1) [of s1] 2 scan_key_length [OF 1(1)] show ?thesis by simp
      next
        case (2 key s1 x s2 s3)
        have "length s3 < length s"
          using scan_key_length [OF 2(1)] scan_length(1) [OF 2(2)] scan_more_length [OF 2(3)] by simp
        with Suc(2) [of s3 "keys @ [key]"] 2(4) \<open>2 * length s < Suc n\<close> show ?thesis by simp
      qed
    qed
  next
    case 3
    show ?case
    proof
      assume "scan_items jp (Suc n) s = None"
      then consider "scan_value jp n s = None"
        | x s1 s2 where "scan_value jp n s = Some (Inr (x, s1))" "scan_more 93 s1 = Inr (True, s2)" "scan_items jp n s2 = None"
        by (auto simp: bind_parsed_None split: if_splits)
      then show False
      proof cases
        case 1
        with Suc(1) [of s] 3 show ?thesis by simp
      next
        case (2 x s1 s2)
        have "length s2 + 1 < length s" using scan_length(1) [OF 2(1)] scan_more_length [OF 2(2)] by simp
        with Suc(3) [of s2] 2(3) 3 show ?thesis by simp
      qed
    qed
  }
qed simp_all

section \<open>The grammar\<close>

text \<open>
  The grammar of the texts, written without a position and without a set of seen keys: an object lists its keys, and
  they are distinct. Each relation holds between a text and what is left behind the part that was read.
\<close>

definition text_key :: "(jstring \<Rightarrow> json option) \<Rightarrow> json \<Rightarrow> jstring \<Rightarrow> jstring \<Rightarrow> bool" where
  "text_key jp key s r \<longleftrightarrow> (\<exists>s1. scan_string jp (skip_space s) = Inr (key, s1) \<and> skip_space s1 = 58 # r)"

inductive text_value :: "(jstring \<Rightarrow> json option) \<Rightarrow> jstring \<Rightarrow> jstring \<Rightarrow> bool"
  and text_members :: "(jstring \<Rightarrow> json option) \<Rightarrow> json list \<Rightarrow> jstring \<Rightarrow> jstring \<Rightarrow> bool"
  and text_elements :: "(jstring \<Rightarrow> json option) \<Rightarrow> jstring \<Rightarrow> jstring \<Rightarrow> bool" for jp where
  leaf: "skip_space s = u # t \<Longrightarrow> u \<noteq> 123 \<Longrightarrow> u \<noteq> 91 \<Longrightarrow> scan_leaf jp (u # t) = Inr ((), r) \<Longrightarrow> text_value jp s r"
| empty_object: "skip_space s = 123 # t \<Longrightarrow> skip_space t = 125 # r \<Longrightarrow> text_value jp s r"
| object: "skip_space s = 123 # t \<Longrightarrow> text_members jp keys t r \<Longrightarrow> distinct keys \<Longrightarrow> text_value jp s r"
| empty_array: "skip_space s = 91 # t \<Longrightarrow> skip_space t = 93 # r \<Longrightarrow> text_value jp s r"
| array: "skip_space s = 91 # t \<Longrightarrow> at_close 93 t = None \<Longrightarrow> text_elements jp t r \<Longrightarrow> text_value jp s r"
| member: "text_key jp key s s1 \<Longrightarrow> text_value jp s1 s2 \<Longrightarrow> skip_space s2 = 125 # r \<Longrightarrow> text_members jp [key] s r"
| members: "text_key jp key s s1 \<Longrightarrow> text_value jp s1 s2 \<Longrightarrow> skip_space s2 = 44 # s3 \<Longrightarrow> text_members jp keys s3 r \<Longrightarrow>
    text_members jp (key # keys) s r"
| element: "text_value jp s s1 \<Longrightarrow> skip_space s1 = 93 # r \<Longrightarrow> text_elements jp s r"
| elements: "text_value jp s s1 \<Longrightarrow> skip_space s1 = 44 # s2 \<Longrightarrow> text_elements jp s2 r \<Longrightarrow> text_elements jp s r"

lemma scan_key_Inr: "scan_key jp keys s = Inr (key, r) \<longleftrightarrow> text_key jp key s r \<and> key \<notin> set keys"
  by (cases "scan_string jp (skip_space s)") (auto simp: scan_key_def text_key_def bind_res_def split: list.splits if_splits)

lemma scan_more_Inr:
  "close \<noteq> 44 \<Longrightarrow> scan_more close s = Inr (more, r) \<longleftrightarrow> skip_space s = (if more then 44 else close) # r"
  by (auto simp: scan_more_def split: list.splits if_splits)

lemma at_close_Some: "at_close close s = Some r \<longleftrightarrow> skip_space s = close # r"
  by (auto simp: at_close_def split: list.splits if_splits)

lemma text_members_open: "text_members jp keys s r \<Longrightarrow> at_close 125 s = None"
  by (cases rule: text_members.cases)
    (auto simp: text_key_def at_close_def scan_string_def split: list.splits if_splits)

lemma scan_sound:
  "scan_value jp n s = Some (Inr (x, r)) \<Longrightarrow> text_value jp s r"
  "scan_fields jp n keys s = Some (Inr (x, r)) \<Longrightarrow> \<exists>ks. text_members jp ks s r \<and> distinct ks \<and> set ks \<inter> set keys = {}"
  "scan_items jp n s = Some (Inr (x, r)) \<Longrightarrow> text_elements jp s r"
proof (induction n arbitrary: s x r keys)
  case (Suc n)
  {
    case 1
    then obtain u t where s: "skip_space s = u # t" by (auto split: list.splits)
    with 1 show ?case
      by (auto split: if_splits option.splits simp: at_close_Some
          intro: text_value_text_members_text_elements.intros dest!: Suc(2,3))
  next
    case 2
    then obtain key s1 y s2 more s3 where k: "text_key jp key s s1" "key \<notin> set keys"
      "scan_value jp n s1 = Some (Inr (y, s2))" "skip_space s2 = (if more then 44 else 125) # s3"
      "if more then scan_fields jp n (keys @ [key]) s3 = Some (Inr (x, r)) else s3 = r"
      by (fastforce simp: bind_parsed_Some scan_key_Inr scan_more_Inr split: if_splits)
    note v = Suc(1) [OF k(3)]
    show ?case
    proof (cases more)
      case True
      with k(5) obtain ks where "text_members jp ks s3 r" "distinct ks" "set ks \<inter> set (keys @ [key]) = {}"
        using Suc(2) by fastforce
      with True k v members [OF k(1) v, of s3 ks r] show ?thesis by (intro exI [of _ "key # ks"]) auto
    next
      case False
      with k v member [OF k(1) v, of r] show ?thesis by (intro exI [of _ "[key]"]) auto
    qed
  next
    case 3
    then show ?case
      by (auto simp: bind_parsed_Some scan_more_Inr split: if_splits
          intro: text_value_text_members_text_elements.intros dest!: Suc(1,3))
  }
qed simp_all

lemma scan_complete:
  "text_value jp s r \<Longrightarrow> scan_value jp n s \<noteq> None \<Longrightarrow> scan_value jp n s = Some (Inr ((), r))"
  "text_members jp ks s r \<Longrightarrow> distinct ks \<Longrightarrow> set ks \<inter> set keys = {} \<Longrightarrow> scan_fields jp m keys s \<noteq> None \<Longrightarrow>
     scan_fields jp m keys s = Some (Inr ((), r))"
  "text_elements jp s r \<Longrightarrow> scan_items jp k s \<noteq> None \<Longrightarrow> scan_items jp k s = Some (Inr ((), r))"
proof (induction arbitrary: n and m keys and k rule: text_value_text_members_text_elements.inducts)
  case (leaf s u t r)
  then show ?case by (cases n) auto
next
  case (empty_object s t r)
  then show ?case by (cases n) (auto simp: at_close_def)
next
  case (object s t keys r)
  then show ?case by (cases n) (auto simp: text_members_open)
next
  case (empty_array s t r)
  then show ?case by (cases n) (auto simp: at_close_def)
next
  case (array s t r)
  then show ?case by (cases n) auto
next
  case (member key s s1 s2 r)
  have more: "scan_more 125 s2 = Inr (False, r)" using member.hyps by (simp add: scan_more_Inr)
  have key: "scan_key jp keys s = Inr (key, s1)" using member by (simp add: scan_key_Inr)
  show ?case
  proof (cases m)
    case (Suc m')
    with member.prems(3) key have "scan_value jp m' s1 \<noteq> None" by (auto simp: bind_parsed_None)
    then have "scan_value jp m' s1 = Some (Inr ((), s2))" by (rule member.IH)
    with Suc key more show ?thesis by (simp add: bind_parsed_def)
  qed (use member.prems in simp)
next
  case (members key s s1 s2 s3 ks r)
  have more: "scan_more 125 s2 = Inr (True, s3)" using members.hyps by (simp add: scan_more_Inr)
  have key: "scan_key jp keys s = Inr (key, s1)" using members.IH(1) members.prems members.hyps by (simp add: scan_key_Inr)
  show ?case
  proof (cases m)
    case (Suc m')
    with members.prems(3) key have "scan_value jp m' s1 \<noteq> None" by (auto simp: bind_parsed_None)
    then have v: "scan_value jp m' s1 = Some (Inr ((), s2))" by (rule members.IH)
    with Suc members.prems(3) key more have "scan_fields jp m' (keys @ [key]) s3 \<noteq> None" by (auto simp: bind_parsed_None)
    then have "scan_fields jp m' (keys @ [key]) s3 = Some (Inr ((), r))"
      using members.prems by (intro members.IH) auto
    with Suc key v more show ?thesis by (simp add: bind_parsed_def)
  qed (use members.prems in simp)
next
  case (element s s1 r)
  have more: "scan_more 93 s1 = Inr (False, r)" using element.hyps by (simp add: scan_more_Inr)
  show ?case
  proof (cases k)
    case (Suc k')
    with element.prems have "scan_value jp k' s \<noteq> None" by (auto simp: bind_parsed_None)
    then have "scan_value jp k' s = Some (Inr ((), s1))" by (rule element.IH)
    with Suc more show ?thesis by (simp add: bind_parsed_def)
  qed (use element.prems in simp)
next
  case (elements s s1 s2 r)
  have more: "scan_more 93 s1 = Inr (True, s2)" using elements.hyps by (simp add: scan_more_Inr)
  show ?case
  proof (cases k)
    case (Suc k')
    with elements.prems have "scan_value jp k' s \<noteq> None" by (auto simp: bind_parsed_None)
    then have v: "scan_value jp k' s = Some (Inr ((), s1))" by (rule elements.IH)
    with Suc elements.prems more have "scan_items jp k' s2 \<noteq> None" by (auto simp: bind_parsed_None)
    then have "scan_items jp k' s2 = Some (Inr ((), r))" by (rule elements.IH)
    with Suc v more show ?thesis by (simp add: bind_parsed_def)
  qed (use elements.prems in simp)
qed

section \<open>Claims of the library\<close>


end
