(* ===== verification/V2_Contract.thy ===== *)
theory V2_Contract
  imports V2_Json
begin

text \<open>
  The tokens of the second protocol version (\<^verbatim>\<open>packages/ky-app-contract/src/v2\<close>): claims, public keys and the compact
  form; theory \<open>V2_Tokens\<close> has the verifier of each kind of token. Parameters are the functions of the standard library
  that the code calls: SHA-256, verification of ES256, \<open>new URL\<close>, \<open>Buffer.from\<close> (\<open>ve_text\<close> decodes a base64url segment as
  UTF-8, \<open>ve_buffer\<close> takes a claim) and \<open>JSON.parse\<close>. Times are seconds.
\<close>

record v2_env =
  ve_text :: "string \<Rightarrow> jstring"
  ve_parse :: "jstring \<Rightarrow> json option"
  ve_verify :: "(string \<times> json) list \<Rightarrow> string \<Rightarrow> string \<Rightarrow> bool"
  ve_sha256 :: "string \<Rightarrow> string"
  ve_url :: "string \<Rightarrow> (string \<times> string \<times> string) option"
  ve_buffer :: "json \<Rightarrow> string option"

section \<open>Constants\<close>

definition TTL_enrollmentRequest :: int where "TTL_enrollmentRequest = 10 * 60"
definition TTL_clientAssertion :: int where "TTL_clientAssertion = 60"
definition TTL_workloadAccessToken :: int where "TTL_workloadAccessToken = 5 * 60"
definition TTL_attest :: int where "TTL_attest = 60"
definition TTL_dpopProof :: int where "TTL_dpopProof = 60"
definition TTL_clockTolerance :: int where "TTL_clockTolerance = 10"

datatype v2_typ = TypEnrollmentRequest | TypInstallationGrant | TypClientAssertion | TypWorkloadAccessToken | TypAttest | TypDpop

fun V2_JWT_TYP :: "v2_typ \<Rightarrow> string" where
  "V2_JWT_TYP TypEnrollmentRequest = ''ky-enrollment-request+jwt''"
| "V2_JWT_TYP TypInstallationGrant = ''ky-installation-grant+jwt''"
| "V2_JWT_TYP TypClientAssertion = ''ky-client-auth+jwt''"
| "V2_JWT_TYP TypWorkloadAccessToken = ''ky-workload-at+jwt''"
| "V2_JWT_TYP TypAttest = ''ky-attest-v2+jwt''"
| "V2_JWT_TYP TypDpop = ''dpop+jwt''"

lemma typ_injective: "V2_JWT_TYP a = V2_JWT_TYP b \<longleftrightarrow> a = b"
  by (cases a; cases b) simp_all

section \<open>Claims\<close>

type_synonym claims = "(string \<times> json) list"

definition assertExactClaims :: "claims \<Rightarrow> string list \<Rightarrow> string list \<Rightarrow> v2_error + unit" where
  "assertExactClaims cs required optional =
     (if \<exists>k \<in> set required. js_prop cs k = JUndefined then Inl V2InvalidClaims
      else if \<exists>k \<in> fst ` set cs. k \<notin> set required \<union> set optional then Inl V2InvalidClaims else Inr ())"

definition assertStringClaim :: "json \<Rightarrow> v2_error + string" where
  "assertStringClaim v = (case v of JStr s \<Rightarrow> if s = [] then Inl V2InvalidClaims else Inr s | _ \<Rightarrow> Inl V2InvalidClaims)"

definition safe_integer :: "int \<Rightarrow> bool" where
  "safe_integer n \<longleftrightarrow> \<bar>n\<bar> \<le> 2 ^ 53 - 1"

definition assertIntegerClaim :: "json \<Rightarrow> v2_error + int" where
  "assertIntegerClaim v =
     (case v of JNum (IntNum n) \<Rightarrow> if safe_integer n \<and> n > 0 then Inr n else Inl V2InvalidClaims | _ \<Rightarrow> Inl V2InvalidClaims)"

definition assertTokenTime :: "claims \<Rightarrow> int \<Rightarrow> int \<Rightarrow> v2_error + unit" where
  "assertTokenTime cs now maxTtlSeconds =
     bind_res (assertIntegerClaim (js_prop cs ''iat'')) (\<lambda>iat.
     bind_res (assertIntegerClaim (js_prop cs ''exp'')) (\<lambda>exp.
     if iat > now + TTL_clockTolerance \<or> exp \<le> now - TTL_clockTolerance \<or> exp \<le> iat \<or> exp - iat > maxTtlSeconds
     then Inl V2InvalidTokenTime
     else if js_prop cs ''nbf'' \<noteq> JUndefined then
       bind_res (assertIntegerClaim (js_prop cs ''nbf'')) (\<lambda>nbf.
       if nbf > now + TTL_clockTolerance then Inl V2InvalidTokenTime else Inr ())
     else Inr ()))"

definition assertEqual :: "json \<Rightarrow> string \<Rightarrow> v2_error \<Rightarrow> v2_error + unit" where
  "assertEqual actual expected code = (if actual \<noteq> JStr expected then Inl code else Inr ())"

definition assertEqualNumber :: "json \<Rightarrow> int \<Rightarrow> v2_error \<Rightarrow> v2_error + unit" where
  "assertEqualNumber actual expected code = (if actual \<noteq> JNum (IntNum expected) then Inl code else Inr ())"

definition is_hex64 :: "string \<Rightarrow> bool" where
  "is_hex64 s \<longleftrightarrow> length s = 64 \<and> list_all (\<lambda>c. c \<in> set ''0123456789abcdef'') s"

definition assertDigest :: "json \<Rightarrow> v2_error + unit" where
  "assertDigest v = (case v of JStr s \<Rightarrow> if is_hex64 s then Inr () else Inl V2ManifestDigestMismatch | _ \<Rightarrow> Inl V2ManifestDigestMismatch)"

fun string_items :: "json list \<Rightarrow> string list option" where
  "string_items [] = Some []"
| "string_items (JStr s # vs) = map_option (\<lambda>ss. s # ss) (string_items vs)"
| "string_items (_ # vs) = None"

definition parseScope :: "json \<Rightarrow> v2_error + string list" where
  "parseScope v =
     (case (case v of JStr s \<Rightarrow> Some (filter (\<lambda>p. p \<noteq> []) (split_on CHR '' '' s)) | JArr vs \<Rightarrow> string_items vs | _ \<Rightarrow> None) of
        None \<Rightarrow> Inl V2InvalidClaims
      | Some scopes \<Rightarrow> if scopes = [] \<or> length (keep_first scopes) \<noteq> length scopes then Inl V2InvalidClaims else Inr scopes)"

section \<open>Public keys\<close>

definition is_base64url :: "char \<Rightarrow> bool" where
  "is_base64url c \<longleftrightarrow> c \<in> set ''ABCDEFGHIJKLMNOPQRSTUVWXYZabcdefghijklmnopqrstuvwxyz0123456789_-''"

definition is_base64url_43 :: "string \<Rightarrow> bool" where
  "is_base64url_43 s \<longleftrightarrow> length s = 43 \<and> list_all is_base64url s"

definition coordinate_ok :: "json \<Rightarrow> bool" where
  "coordinate_ok v \<longleftrightarrow> (case v of JStr s \<Rightarrow> is_base64url_43 s | _ \<Rightarrow> False)"

definition validateP256PublicJwk :: "json \<Rightarrow> v2_error + claims" where
  "validateP256PublicJwk v =
     (case v of
        JObj jwk \<Rightarrow>
          if \<exists>k \<in> fst ` set jwk. k \<notin> {''kty'', ''crv'', ''x'', ''y'', ''alg'', ''use'', ''kid'', ''key_ops''} then Inl V2PrivateJwkRejected
          else if js_prop jwk ''kty'' \<noteq> JStr ''EC'' \<or> js_prop jwk ''crv'' \<noteq> JStr ''P-256'' \<or>
            \<not> coordinate_ok (js_prop jwk ''x'') \<or> \<not> coordinate_ok (js_prop jwk ''y'') \<or>
            (js_prop jwk ''alg'' \<noteq> JUndefined \<and> js_prop jwk ''alg'' \<noteq> JStr ''ES256'') \<or>
            (js_prop jwk ''use'' \<noteq> JUndefined \<and> js_prop jwk ''use'' \<noteq> JStr ''sig'') then Inl V2PrivateJwkRejected
          else if js_prop jwk ''key_ops'' \<noteq> JUndefined \<and>
            (case js_prop jwk ''key_ops'' of JArr ops \<Rightarrow> \<exists>x \<in> set ops. x \<noteq> JStr ''verify'' | _ \<Rightarrow> True) then Inl V2PrivateJwkRejected
          else Inr jwk
      | _ \<Rightarrow> Inl V2PrivateJwkRejected)"

definition claim_str :: "claims \<Rightarrow> string \<Rightarrow> string" where
  "claim_str cs k = (case js_prop cs k of JStr s \<Rightarrow> s | _ \<Rightarrow> [])"

text \<open>The hash of the canonical text of the four members; their values hold no character that JSON escapes.\<close>

definition QUOTE :: string where
  "QUOTE = [CHR 0x22]"

definition thumbprint_text :: "claims \<Rightarrow> string" where
  "thumbprint_text jwk =
     (let member = (\<lambda>k. QUOTE @ k @ QUOTE @ '':'' @ QUOTE @ claim_str jwk k @ QUOTE) in
      ''{'' @ member ''crv'' @ '','' @ member ''kty'' @ '','' @ member ''x'' @ '','' @ member ''y'' @ ''}'')"

definition p256JwkThumbprint :: "v2_env \<Rightarrow> json \<Rightarrow> v2_error + string" where
  "p256JwkThumbprint env v = bind_res (validateP256PublicJwk v) (\<lambda>jwk. Inr (ve_sha256 env (thumbprint_text jwk)))"

definition pkceS256 :: "v2_env \<Rightarrow> string \<Rightarrow> v2_error + string" where
  "pkceS256 env verifier =
     (if 43 \<le> length verifier \<and> length verifier \<le> 128 \<and>
         list_all (\<lambda>c. is_base64url c \<or> c \<in> set ''.~'') verifier
      then Inr (ve_sha256 env verifier) else Inl V2InvalidPkce)"

definition verifyPkceS256 :: "v2_env \<Rightarrow> string \<Rightarrow> string \<Rightarrow> v2_error + unit" where
  "verifyPkceS256 env verifier expectedChallenge =
     bind_res (pkceS256 env verifier) (\<lambda>c. if c = expectedChallenge then Inr () else Inl V2InvalidPkce)"

definition isPkceChallenge :: "json \<Rightarrow> bool" where
  "isPkceChallenge v \<longleftrightarrow> (case v of JStr s \<Rightarrow> is_base64url_43 s | _ \<Rightarrow> False)"

definition accessTokenHash :: "v2_env \<Rightarrow> string \<Rightarrow> string" where
  "accessTokenHash env token = ve_sha256 env token"

text \<open>\<open>ve_url\<close> gives protocol, host name and the text of the URL without query and fragment.\<close>

definition normalizeDpopHtu :: "v2_env \<Rightarrow> string \<Rightarrow> v2_error + string" where
  "normalizeDpopHtu env input =
     (case ve_url env input of
        None \<Rightarrow> Inl V2InvalidDpopProof
      | Some (protocol, hostname, bare) \<Rightarrow>
          if protocol \<noteq> ''https:'' \<and> hostname \<noteq> ''localhost'' then Inl V2InvalidDpopProof else Inr bare)"

section \<open>The compact form\<close>

record decoded_jws =
  dj_header :: claims
  dj_payload :: claims
  dj_signingInput :: string
  dj_signature :: string

definition segment_ok :: "string \<Rightarrow> bool" where
  "segment_ok s \<longleftrightarrow> s \<noteq> [] \<and> list_all is_base64url s"

definition decodeObject :: "v2_env \<Rightarrow> string \<Rightarrow> v2_error + claims" where
  "decodeObject env segment =
     bind_res (parseJsonWithoutDuplicateKeys (ve_parse env) (ve_text env segment)) (\<lambda>v.
     case v of JObj fs \<Rightarrow> Inr fs | _ \<Rightarrow> Inl V2MalformedJose)"

definition decodeV2Jws :: "v2_env \<Rightarrow> string \<Rightarrow> v2_error + decoded_jws" where
  "decodeV2Jws env compact =
     (case split_on CHR ''.'' compact of
        [h, p, s] \<Rightarrow>
          if \<not> segment_ok h \<or> \<not> segment_ok p \<or> \<not> segment_ok s then Inl V2MalformedJose
          else
            bind_res (decodeObject env h) (\<lambda>header.
            bind_res (decodeObject env p) (\<lambda>payload.
            Inr \<lparr>dj_header = header, dj_payload = payload, dj_signingInput = h @ ''.'' @ p, dj_signature = s\<rparr>))
      | _ \<Rightarrow> Inl V2MalformedJose)"

definition header_base :: "claims \<Rightarrow> v2_typ \<Rightarrow> string \<Rightarrow> v2_error + unit" where
  "header_base header expectedTyp member =
     (if js_prop header ''alg'' \<noteq> JStr ''ES256'' then Inl V2InvalidAlg
      else if js_prop header ''typ'' \<noteq> JStr (V2_JWT_TYP expectedTyp) then Inl V2InvalidTyp
      else if js_prop header ''crit'' \<noteq> JUndefined then Inl V2MalformedJose
      else if \<exists>k \<in> fst ` set header. k \<notin> {''alg'', ''typ'', member} then Inl V2MalformedJose
      else Inr ())"

text \<open>\<open>assertJoseHeader\<close> for a key id, and for an embedded key.\<close>

definition assertJoseHeader_kid :: "claims \<Rightarrow> v2_typ \<Rightarrow> v2_error + string" where
  "assertJoseHeader_kid header expectedTyp =
     bind_res (header_base header expectedTyp ''kid'') (\<lambda>_.
     case js_prop header ''kid'' of JStr kid \<Rightarrow> Inr kid | _ \<Rightarrow> Inl V2KeyIdMismatch)"

definition assertJoseHeader_jwk :: "claims \<Rightarrow> v2_typ \<Rightarrow> v2_error + claims" where
  "assertJoseHeader_jwk header expectedTyp =
     bind_res (header_base header expectedTyp ''jwk'') (\<lambda>_. validateP256PublicJwk (js_prop header ''jwk''))"

definition verifyV2Signature :: "v2_env \<Rightarrow> decoded_jws \<Rightarrow> claims \<Rightarrow> v2_error + unit" where
  "verifyV2Signature env d key =
     (if ve_verify env key (dj_signingInput d) (dj_signature d) then Inr () else Inl V2InvalidSignature)"

end
