(* ===== verification/V2_Tokens.thy ===== *)
theory V2_Tokens
  imports V2_Contract
begin

text \<open>
  The verifiers of the second protocol version (\<^verbatim>\<open>v2/enrollment.ts\<close>, \<^verbatim>\<open>v2/workload.ts\<close>): enrollment requests, installation
  grants, attestations, client assertions, workload access tokens and DPoP proofs. An accepted token was signed by
  the expected key, for this use only, inside its time window and for this very binding.
\<close>

section \<open>Enrollment requests\<close>

definition ENROLLMENT_CLAIMS :: "string list" where
  "ENROLLMENT_CLAIMS =
     [''iss'', ''sub'', ''aud'', ''iat'', ''exp'', ''jti'', ''tid'', ''iid'', ''sid'', ''deployment_id'', ''origin'', ''callback_uri'',
      ''nonce'', ''code_challenge_method'', ''code_challenge'', ''key_id'', ''public_jwk'', ''scope'']"

record enrollment_options =
  eo_platformIssuer :: string
  eo_tenantId :: string
  eo_installationId :: string
  eo_systemId :: string
  eo_deploymentId :: string
  eo_origin :: string
  eo_callbackUrl :: string
  eo_nonce :: string
  eo_now :: int

definition replay_key :: "string \<Rightarrow> claims \<Rightarrow> string" where
  "replay_key keyId cs = keyId @ '':'' @ claim_str cs ''jti''"

definition verifyEnrollmentRequest ::
  "v2_env \<Rightarrow> string \<Rightarrow> enrollment_options \<Rightarrow> v2_error + claims \<times> string \<times> string" where
  "verifyEnrollmentRequest env compact o1 =
     bind_res (decodeV2Jws env compact) (\<lambda>d.
     bind_res (assertJoseHeader_kid (dj_header d) TypEnrollmentRequest) (\<lambda>kid.
     let cs = dj_payload d in
     bind_res (check (js_prop cs ''code_challenge_method'' \<noteq> JUndefined \<and> js_prop cs ''code_challenge'' \<noteq> JUndefined) V2InvalidPkce) (\<lambda>_.
     bind_res (assertExactClaims cs ENROLLMENT_CLAIMS []) (\<lambda>_.
     bind_res (validateP256PublicJwk (js_prop cs ''public_jwk'')) (\<lambda>jwk.
     bind_res (p256JwkThumbprint env (JObj jwk)) (\<lambda>keyId.
     bind_res (check (kid = keyId \<and> js_prop cs ''key_id'' = JStr keyId) V2KeyIdMismatch) (\<lambda>_.
     bind_res (verifyV2Signature env d jwk) (\<lambda>_.
     bind_res (assertTokenTime cs (eo_now o1) TTL_enrollmentRequest) (\<lambda>_.
     bind_res (assertStringClaim (js_prop cs ''iss'')) (\<lambda>_.
     bind_res (assertStringClaim (js_prop cs ''sub'')) (\<lambda>_.
     bind_res (assertStringClaim (js_prop cs ''aud'')) (\<lambda>_.
     bind_res (assertStringClaim (js_prop cs ''jti'')) (\<lambda>_.
     bind_res (assertStringClaim (js_prop cs ''nonce'')) (\<lambda>_.
     bind_res (assertEqual (js_prop cs ''iss'') (eo_deploymentId o1) V2InvalidIssuer) (\<lambda>_.
     bind_res (assertEqual (js_prop cs ''sub'') (eo_installationId o1) V2InstallationBindingMismatch) (\<lambda>_.
     bind_res (assertEqual (js_prop cs ''aud'') (eo_platformIssuer o1) V2InvalidAudience) (\<lambda>_.
     bind_res (assertEqual (js_prop cs ''tid'') (eo_tenantId o1) V2InstallationBindingMismatch) (\<lambda>_.
     bind_res (assertEqual (js_prop cs ''iid'') (eo_installationId o1) V2InstallationBindingMismatch) (\<lambda>_.
     bind_res (assertEqual (js_prop cs ''sid'') (eo_systemId o1) V2InstallationBindingMismatch) (\<lambda>_.
     bind_res (assertEqual (js_prop cs ''deployment_id'') (eo_deploymentId o1) V2InstallationBindingMismatch) (\<lambda>_.
     bind_res (assertEqual (js_prop cs ''origin'') (eo_origin o1) V2InvalidOrigin) (\<lambda>_.
     bind_res (assertEqual (js_prop cs ''callback_uri'') (eo_callbackUrl o1) V2CallbackMismatch) (\<lambda>_.
     bind_res (assertEqual (js_prop cs ''nonce'') (eo_nonce o1) V2NonceMismatch) (\<lambda>_.
     bind_res (check (js_prop cs ''code_challenge_method'' = JStr ''S256'' \<and> isPkceChallenge (js_prop cs ''code_challenge'')) V2InvalidPkce) (\<lambda>_.
     bind_res (parseScope (js_prop cs ''scope'')) (\<lambda>_.
     Inr (cs, keyId, replay_key keyId cs)))))))))))))))))))))))))))"

section \<open>Installation grants\<close>

definition GRANT_CLAIMS :: "string list" where
  "GRANT_CLAIMS =
     [''iss'', ''sub'', ''aud'', ''iat'', ''exp'', ''jti'', ''tid'', ''iid'', ''sid'', ''client_id'', ''origin'', ''key_id'', ''scope'',
      ''registered_digest'', ''generation'']"

record grant_options =
  go_platformPublicJwk :: json
  go_platformKeyId :: string
  go_platformIssuer :: string
  go_deploymentId :: string
  go_tenantId :: string
  go_installationId :: string
  go_systemId :: string
  go_origin :: string
  go_keyId :: string
  go_now :: int

definition generation_ok :: "json \<Rightarrow> bool" where
  "generation_ok v \<longleftrightarrow> (case v of JNum (IntNum n) \<Rightarrow> safe_integer n \<and> n \<ge> 1 | _ \<Rightarrow> False)"

definition verifyInstallationGrant :: "v2_env \<Rightarrow> string \<Rightarrow> grant_options \<Rightarrow> v2_error + claims" where
  "verifyInstallationGrant env compact o1 =
     bind_res (decodeV2Jws env compact) (\<lambda>d.
     bind_res (assertJoseHeader_kid (dj_header d) TypInstallationGrant) (\<lambda>kid.
     bind_res (check (kid = go_platformKeyId o1) V2InvalidKeySource) (\<lambda>_.
     bind_res (validateP256PublicJwk (go_platformPublicJwk o1)) (\<lambda>jwk.
     bind_res (verifyV2Signature env d jwk) (\<lambda>_.
     let cs = dj_payload d in
     bind_res (assertExactClaims cs GRANT_CLAIMS []) (\<lambda>_.
     bind_res (assertTokenTime cs (go_now o1) TTL_clientAssertion) (\<lambda>_.
     bind_res (assertEqual (js_prop cs ''iss'') (go_platformIssuer o1) V2InvalidIssuer) (\<lambda>_.
     bind_res (assertEqual (js_prop cs ''aud'') (go_deploymentId o1) V2InvalidAudience) (\<lambda>_.
     bind_res (assertEqual (js_prop cs ''tid'') (go_tenantId o1) V2InstallationBindingMismatch) (\<lambda>_.
     bind_res (assertEqual (js_prop cs ''iid'') (go_installationId o1) V2InstallationBindingMismatch) (\<lambda>_.
     bind_res (assertEqual (js_prop cs ''sub'') (go_installationId o1) V2InstallationBindingMismatch) (\<lambda>_.
     bind_res (assertEqual (js_prop cs ''sid'') (go_systemId o1) V2InstallationBindingMismatch) (\<lambda>_.
     bind_res (assertEqual (js_prop cs ''client_id'') (go_deploymentId o1) V2InstallationBindingMismatch) (\<lambda>_.
     bind_res (assertEqual (js_prop cs ''origin'') (go_origin o1) V2InvalidOrigin) (\<lambda>_.
     bind_res (assertEqual (js_prop cs ''key_id'') (go_keyId o1) V2KeyIdMismatch) (\<lambda>_.
     bind_res (assertDigest (js_prop cs ''registered_digest'')) (\<lambda>_.
     bind_res (parseScope (js_prop cs ''scope'')) (\<lambda>_.
     bind_res (check (generation_ok (js_prop cs ''generation'')) V2KeyGenerationMismatch) (\<lambda>_.
     Inr cs)))))))))))))))))))"

section \<open>Attestations\<close>

definition ATTEST_CLAIMS :: "string list" where
  "ATTEST_CLAIMS =
     [''iss'', ''sub'', ''aud'', ''iat'', ''exp'', ''jti'', ''tid'', ''iid'', ''sid'', ''deployment_id'', ''key_id'', ''generation'',
      ''nonce'', ''manifest_digest'', ''ready'']"

record attest_options =
  ao_deploymentPublicJwk :: json
  ao_deploymentId :: string
  ao_keyId :: string
  ao_platformAudience :: string
  ao_tenantId :: string
  ao_installationId :: string
  ao_systemId :: string
  ao_generation :: int
  ao_nonce :: string
  ao_manifestDigest :: string
  ao_now :: int

definition verifyV2Attestation :: "v2_env \<Rightarrow> string \<Rightarrow> attest_options \<Rightarrow> v2_error + claims" where
  "verifyV2Attestation env compact o1 =
     bind_res (decodeV2Jws env compact) (\<lambda>d.
     bind_res (check (js_prop (dj_header d) ''typ'' \<noteq> JStr ''ky-attest+jwt'' \<and> js_prop (dj_header d) ''alg'' \<noteq> JStr ''HS256'')
                 V2DowngradeRejected) (\<lambda>_.
     bind_res (assertJoseHeader_kid (dj_header d) TypAttest) (\<lambda>kid.
     bind_res (check (kid = ao_keyId o1) V2KeyIdMismatch) (\<lambda>_.
     bind_res (validateP256PublicJwk (ao_deploymentPublicJwk o1)) (\<lambda>jwk.
     bind_res (verifyV2Signature env d jwk) (\<lambda>_.
     let cs = dj_payload d in
     bind_res (assertExactClaims cs ATTEST_CLAIMS []) (\<lambda>_.
     bind_res (assertTokenTime cs (ao_now o1) TTL_attest) (\<lambda>_.
     bind_res (assertEqual (js_prop cs ''iss'') (ao_deploymentId o1) V2InvalidIssuer) (\<lambda>_.
     bind_res (assertEqual (js_prop cs ''aud'') (ao_platformAudience o1) V2InvalidAudience) (\<lambda>_.
     bind_res (assertEqual (js_prop cs ''tid'') (ao_tenantId o1) V2InstallationBindingMismatch) (\<lambda>_.
     bind_res (assertEqual (js_prop cs ''iid'') (ao_installationId o1) V2InstallationBindingMismatch) (\<lambda>_.
     bind_res (assertEqual (js_prop cs ''sub'') (ao_installationId o1) V2InstallationBindingMismatch) (\<lambda>_.
     bind_res (assertEqual (js_prop cs ''sid'') (ao_systemId o1) V2InstallationBindingMismatch) (\<lambda>_.
     bind_res (assertEqual (js_prop cs ''deployment_id'') (ao_deploymentId o1) V2InstallationBindingMismatch) (\<lambda>_.
     bind_res (assertEqual (js_prop cs ''key_id'') (ao_keyId o1) V2KeyIdMismatch) (\<lambda>_.
     bind_res (assertEqualNumber (js_prop cs ''generation'') (ao_generation o1) V2KeyGenerationMismatch) (\<lambda>_.
     bind_res (assertEqual (js_prop cs ''nonce'') (ao_nonce o1) V2NonceMismatch) (\<lambda>_.
     bind_res (assertDigest (js_prop cs ''manifest_digest'')) (\<lambda>_.
     bind_res (assertEqual (js_prop cs ''manifest_digest'') (ao_manifestDigest o1) V2ManifestDigestMismatch) (\<lambda>_.
     bind_res (check (js_prop cs ''ready'' = JBool True) V2InstallationInactive) (\<lambda>_.
     Inr cs)))))))))))))))))))))"

section \<open>Client assertions\<close>

definition CLIENT_ASSERTION_CLAIMS :: "string list" where
  "CLIENT_ASSERTION_CLAIMS = [''iss'', ''sub'', ''aud'', ''iat'', ''exp'', ''jti'', ''iid'', ''key_id'']"

record assertion_options =
  co_deploymentPublicJwk :: json
  co_deploymentId :: string
  co_installationId :: string
  co_keyId :: string
  co_tokenEndpoint :: string
  co_now :: int

definition verifyClientAssertion :: "v2_env \<Rightarrow> string \<Rightarrow> assertion_options \<Rightarrow> v2_error + claims \<times> string" where
  "verifyClientAssertion env compact o1 =
     bind_res (decodeV2Jws env compact) (\<lambda>d.
     bind_res (assertJoseHeader_kid (dj_header d) TypClientAssertion) (\<lambda>kid.
     bind_res (check (kid = co_keyId o1) V2KeyIdMismatch) (\<lambda>_.
     bind_res (validateP256PublicJwk (co_deploymentPublicJwk o1)) (\<lambda>jwk.
     bind_res (verifyV2Signature env d jwk) (\<lambda>_.
     let cs = dj_payload d in
     bind_res (assertExactClaims cs CLIENT_ASSERTION_CLAIMS []) (\<lambda>_.
     bind_res (assertTokenTime cs (co_now o1) TTL_clientAssertion) (\<lambda>_.
     bind_res (assertEqual (js_prop cs ''iss'') (co_deploymentId o1) V2InvalidIssuer) (\<lambda>_.
     bind_res (assertEqual (js_prop cs ''sub'') (co_deploymentId o1) V2InvalidIssuer) (\<lambda>_.
     bind_res (assertEqual (js_prop cs ''aud'') (co_tokenEndpoint o1) V2InvalidAudience) (\<lambda>_.
     bind_res (assertEqual (js_prop cs ''iid'') (co_installationId o1) V2InstallationBindingMismatch) (\<lambda>_.
     bind_res (assertEqual (js_prop cs ''key_id'') (co_keyId o1) V2KeyIdMismatch) (\<lambda>_.
     bind_res (assertStringClaim (js_prop cs ''jti'')) (\<lambda>_.
     Inr (cs, replay_key (co_keyId o1) cs))))))))))))))"

section \<open>Workload access tokens\<close>

definition V2_WORKLOAD_AUDIENCE :: string where
  "V2_WORKLOAD_AUDIENCE = ''ky-app-platform-api''"

definition WORKLOAD_CLAIMS :: "string list" where
  "WORKLOAD_CLAIMS =
     [''iss'', ''sub'', ''aud'', ''iat'', ''nbf'', ''exp'', ''jti'', ''tid'', ''iid'', ''sid'', ''client_id'', ''scope'', ''cnf'', ''generation'']"

datatype installation_status = StatusEnabled | StatusDisabled | StatusRevoked

record workload_options =
  wo_platformPublicJwk :: json
  wo_platformKeyId :: string
  wo_platformIssuer :: string
  wo_tenantId :: string
  wo_installationId :: string
  wo_systemId :: string
  wo_deploymentId :: string
  wo_keyId :: string
  wo_generation :: int
  wo_requiredScope :: "string option"
  wo_installationStatus :: "installation_status option"
  wo_authorizationScheme :: "string option"
  wo_now :: int

definition cnf_matches :: "json \<Rightarrow> string \<Rightarrow> bool" where
  "cnf_matches v keyId \<longleftrightarrow> (case v of JObj fs \<Rightarrow> js_prop fs ''jkt'' = JStr keyId | _ \<Rightarrow> False)"

definition verifyWorkloadAccessToken :: "v2_env \<Rightarrow> string \<Rightarrow> workload_options \<Rightarrow> v2_error + claims" where
  "verifyWorkloadAccessToken env compact o1 =
     bind_res (check (wo_authorizationScheme o1 \<in> {None, Some ''DPoP''}) V2DpopRequired) (\<lambda>_.
     bind_res (decodeV2Jws env compact) (\<lambda>d.
     bind_res (assertJoseHeader_kid (dj_header d) TypWorkloadAccessToken) (\<lambda>kid.
     bind_res (check (kid = wo_platformKeyId o1) V2InvalidKeySource) (\<lambda>_.
     bind_res (validateP256PublicJwk (wo_platformPublicJwk o1)) (\<lambda>jwk.
     bind_res (verifyV2Signature env d jwk) (\<lambda>_.
     let cs = dj_payload d in
     bind_res (assertExactClaims cs WORKLOAD_CLAIMS []) (\<lambda>_.
     bind_res (assertTokenTime cs (wo_now o1) TTL_workloadAccessToken) (\<lambda>_.
     bind_res (assertEqual (js_prop cs ''iss'') (wo_platformIssuer o1) V2InvalidIssuer) (\<lambda>_.
     bind_res (assertEqual (js_prop cs ''aud'') V2_WORKLOAD_AUDIENCE V2InvalidAudience) (\<lambda>_.
     bind_res (assertEqual (js_prop cs ''tid'') (wo_tenantId o1) V2InstallationBindingMismatch) (\<lambda>_.
     bind_res (assertEqual (js_prop cs ''iid'') (wo_installationId o1) V2InstallationBindingMismatch) (\<lambda>_.
     bind_res (assertEqual (js_prop cs ''sub'') (wo_installationId o1) V2InstallationBindingMismatch) (\<lambda>_.
     bind_res (assertEqual (js_prop cs ''sid'') (wo_systemId o1) V2InstallationBindingMismatch) (\<lambda>_.
     bind_res (assertEqual (js_prop cs ''client_id'') (wo_deploymentId o1) V2InstallationBindingMismatch) (\<lambda>_.
     bind_res (check (cnf_matches (js_prop cs ''cnf'') (wo_keyId o1)) V2DpopKeyMismatch) (\<lambda>_.
     bind_res (assertEqualNumber (js_prop cs ''generation'') (wo_generation o1) V2KeyGenerationMismatch) (\<lambda>_.
     bind_res (check (wo_installationStatus o1 \<in> {None, Some StatusEnabled}) V2InstallationInactive) (\<lambda>_.
     bind_res (parseScope (js_prop cs ''scope'')) (\<lambda>scopes.
     bind_res (check (\<not> truthy (wo_requiredScope o1) \<or> the (wo_requiredScope o1) \<in> set scopes) V2InsufficientScope) (\<lambda>_.
     Inr cs))))))))))))))))))))"

section \<open>DPoP proofs\<close>

definition assertReplayReservation :: "bool \<Rightarrow> bool \<Rightarrow> v2_error + unit" where
  "assertReplayReservation reserved clientAssertion =
     (if reserved then Inr () else Inl (if clientAssertion then V2AssertionReplayed else V2DpopReplayed))"

record dpop_options =
  do_method :: string
  do_requestUrl :: string
  do_now :: int
  do_accessToken :: "string option"
  do_expectedKeyId :: "string option"
  do_nonce :: "string option"

text \<open>\<open>toUpperCase\<close> on the letters of a method.\<close>

definition upper_char :: "char \<Rightarrow> char" where
  "upper_char c = (let n = of_char c :: nat in if 97 \<le> n \<and> n \<le> 122 then char_of (n - 32) else c)"

definition js_truthy :: "json \<Rightarrow> bool" where
  "js_truthy v \<longleftrightarrow>
     (case v of JUndefined \<Rightarrow> False | JNull \<Rightarrow> False | JBool b \<Rightarrow> b | JNum (IntNum n) \<Rightarrow> n \<noteq> 0 | JStr s \<Rightarrow> s \<noteq> [] | _ \<Rightarrow> True)"

text \<open>Numbers that are not integers count as true; \<open>NaN\<close> is no JSON. \<open>Buffer.from\<close> throws for most values that are no string.\<close>

definition ath_matches :: "v2_env \<Rightarrow> json \<Rightarrow> string \<Rightarrow> v2_error + unit" where
  "ath_matches env ath token =
     (if \<not> js_truthy ath then Inl V2InvalidDpopProof
      else case (case ath of JStr s \<Rightarrow> Some s | v \<Rightarrow> ve_buffer env v) of
        None \<Rightarrow> Inl V2TypeError
      | Some bytes \<Rightarrow> if bytes = accessTokenHash env token then Inr () else Inl V2InvalidDpopProof)"

definition verifyDpopProof :: "v2_env \<Rightarrow> string \<Rightarrow> dpop_options \<Rightarrow> v2_error + claims \<times> string \<times> string" where
  "verifyDpopProof env compact o1 =
     bind_res (decodeV2Jws env compact) (\<lambda>d.
     bind_res (assertJoseHeader_jwk (dj_header d) TypDpop) (\<lambda>jwk.
     bind_res (verifyV2Signature env d jwk) (\<lambda>_.
     let cs = dj_payload d in
     bind_res (assertExactClaims cs [''htm'', ''htu'', ''iat'', ''jti''] [''ath'', ''nonce'']) (\<lambda>_.
     bind_res (assertStringClaim (js_prop cs ''jti'')) (\<lambda>_.
     bind_res (assertStringClaim (js_prop cs ''htm'')) (\<lambda>htm.
     bind_res (assertStringClaim (js_prop cs ''htu'')) (\<lambda>htu.
     bind_res (assertIntegerClaim (js_prop cs ''iat'')) (\<lambda>iat.
     bind_res (check (\<bar>do_now o1 - iat\<bar> \<le> TTL_dpopProof) V2InvalidTokenTime) (\<lambda>_.
     bind_res (check (htm = map upper_char (do_method o1)) V2InvalidDpopProof) (\<lambda>_.
     bind_res (check (CHR ''?'' \<notin> set htu \<and> CHR ''#'' \<notin> set htu) V2InvalidDpopProof) (\<lambda>_.
     bind_res (normalizeDpopHtu env htu) (\<lambda>claimed.
     bind_res (normalizeDpopHtu env (do_requestUrl o1)) (\<lambda>requested.
     bind_res (check (claimed = requested) V2InvalidDpopProof) (\<lambda>_.
     bind_res (p256JwkThumbprint env (JObj jwk)) (\<lambda>keyId.
     bind_res (check (\<not> truthy (do_expectedKeyId o1) \<or> do_expectedKeyId o1 = Some keyId) V2DpopKeyMismatch) (\<lambda>_.
     bind_res (case do_accessToken o1 of
                 Some token \<Rightarrow> ath_matches env (js_prop cs ''ath'') token
               | None \<Rightarrow> check (js_prop cs ''ath'' = JUndefined) V2InvalidDpopProof) (\<lambda>_.
     bind_res (case do_nonce o1 of None \<Rightarrow> Inr () | Some n \<Rightarrow> check (js_prop cs ''nonce'' = JStr n) V2NonceMismatch) (\<lambda>_.
     Inr (cs, keyId, replay_key keyId cs)))))))))))))))))))"

section \<open>What acceptance means\<close>

lemma equal_Inr [simp]: "assertEqual v s err = Inr u \<longleftrightarrow> v = JStr s"
  by (simp add: assertEqual_def)

lemma equal_number_Inr [simp]: "assertEqualNumber v n err = Inr u \<longleftrightarrow> v = JNum (IntNum n)"
  by (simp add: assertEqualNumber_def)

lemma string_claim_Inr: "assertStringClaim v = Inr s \<longleftrightarrow> v = JStr s \<and> s \<noteq> []"
  by (auto simp: assertStringClaim_def split: json.splits)

lemma integer_claim_Inr: "assertIntegerClaim v = Inr n \<longleftrightarrow> v = JNum (IntNum n) \<and> safe_integer n \<and> 0 < n"
  by (auto simp: assertIntegerClaim_def split: json.splits js_number.splits)

lemma signature_Inr [simp]: "verifyV2Signature env d key = Inr u \<longleftrightarrow> ve_verify env key (dj_signingInput d) (dj_signature d)"
  by (simp add: verifyV2Signature_def)

lemma header_typ:
  assumes "header_base h t member = Inr u"
  shows "js_prop h ''typ'' = JStr (V2_JWT_TYP t)" "js_prop h ''alg'' = JStr ''ES256''"
  using assms by (auto simp: header_base_def split: if_splits)

lemma kid_Inr:
  assumes "assertJoseHeader_kid h t = Inr kid"
  shows "js_prop h ''kid'' = JStr kid" "js_prop h ''typ'' = JStr (V2_JWT_TYP t)" "js_prop h ''alg'' = JStr ''ES256''"
  using assms by (auto simp: assertJoseHeader_kid_def bind_res_Inr_iff split: json.splits dest: header_typ)

lemma jwk_Inr:
  assumes "assertJoseHeader_jwk h t = Inr jwk"
  shows "validateP256PublicJwk (js_prop h ''jwk'') = Inr jwk" "js_prop h ''typ'' = JStr (V2_JWT_TYP t)"
  using assms by (auto simp: assertJoseHeader_jwk_def bind_res_Inr_iff dest: header_typ)

lemma jwk_validate_same: "validateP256PublicJwk v = Inr jwk \<Longrightarrow> v = JObj jwk"
  by (auto simp: validateP256PublicJwk_def split: json.splits if_splits)

text \<open>Only public members pass: no key that was accepted holds a private one.\<close>

lemma validate_public: "validateP256PublicJwk v = Inr jwk \<Longrightarrow> ''d'' \<notin> fst ` set jwk"
proof -
  assume a: "validateP256PublicJwk v = Inr jwk"
  then have "fst ` set jwk \<subseteq> {''kty'', ''crv'', ''x'', ''y'', ''alg'', ''use'', ''kid'', ''key_ops''}"
    by (auto simp: validateP256PublicJwk_def split: json.splits if_splits)
  then show ?thesis by blast
qed

text \<open>The window in which a token is accepted.\<close>

definition in_window :: "claims \<Rightarrow> int \<Rightarrow> int \<Rightarrow> bool" where
  "in_window cs now ttl \<longleftrightarrow>
     (\<exists>iat ex. js_prop cs ''iat'' = JNum (IntNum iat) \<and> js_prop cs ''exp'' = JNum (IntNum ex) \<and>
        iat - 10 \<le> now \<and> now < ex + 10 \<and> iat < ex \<and> ex \<le> iat + ttl)"

lemma token_time_Inr: "assertTokenTime cs now ttl = Inr u \<Longrightarrow> in_window cs now ttl"
  by (auto simp: assertTokenTime_def bind_res_Inr_iff integer_claim_Inr in_window_def TTL_clockTolerance_def split: if_splits)

text \<open>So a token lives at most its time to live and twice the tolerance.\<close>

lemma window_bounded: "in_window cs now ttl \<Longrightarrow> in_window cs now' ttl \<Longrightarrow> now' - now < ttl + 20"
  by (auto simp: in_window_def)

lemma scope_Inr: "parseScope v = Inr scopes \<Longrightarrow> scopes \<noteq> [] \<and> distinct scopes"
proof -
  have "length (keep_first xs) = length xs \<Longrightarrow> distinct xs" for xs :: "string list"
    by (metis card_distinct distinct_card distinct_keep_first set_keep_first)
  then show "parseScope v = Inr scopes \<Longrightarrow> scopes \<noteq> [] \<and> distinct scopes"
    by (auto simp: parseScope_def split: option.splits if_splits)
qed

definition has_typ :: "v2_env \<Rightarrow> string \<Rightarrow> v2_typ \<Rightarrow> bool" where
  "has_typ env compact t \<longleftrightarrow> (\<exists>d. decodeV2Jws env compact = Inr d \<and> js_prop (dj_header d) ''typ'' = JStr (V2_JWT_TYP t))"

lemma has_typ_unique: "has_typ env compact t \<Longrightarrow> has_typ env compact t' \<Longrightarrow> t = t'"
  by (auto simp: has_typ_def typ_injective)

lemma enrollment_typ: "verifyEnrollmentRequest env compact o1 = Inr r \<Longrightarrow> has_typ env compact TypEnrollmentRequest"
  unfolding verifyEnrollmentRequest_def Let_def has_typ_def
  by (subst (asm) bind_res_Inr_iff, elim exE conjE, subst (asm) bind_res_Inr_iff) (auto dest: kid_Inr)

lemma grant_typ: "verifyInstallationGrant env compact o1 = Inr r \<Longrightarrow> has_typ env compact TypInstallationGrant"
  unfolding verifyInstallationGrant_def Let_def has_typ_def
  by (subst (asm) bind_res_Inr_iff, elim exE conjE, subst (asm) bind_res_Inr_iff) (auto dest: kid_Inr)

lemma attest_typ: "verifyV2Attestation env compact o1 = Inr r \<Longrightarrow> has_typ env compact TypAttest"
  unfolding verifyV2Attestation_def Let_def has_typ_def
  by (subst (asm) bind_res_Inr_iff, elim exE conjE, subst (asm) bind_res_Inr_iff, elim exE conjE, subst (asm) bind_res_Inr_iff)
    (auto dest: kid_Inr)

lemma assertion_typ: "verifyClientAssertion env compact o1 = Inr r \<Longrightarrow> has_typ env compact TypClientAssertion"
  unfolding verifyClientAssertion_def Let_def has_typ_def
  by (subst (asm) bind_res_Inr_iff, elim exE conjE, subst (asm) bind_res_Inr_iff) (auto dest: kid_Inr)

lemma workload_typ: "verifyWorkloadAccessToken env compact o1 = Inr r \<Longrightarrow> has_typ env compact TypWorkloadAccessToken"
  unfolding verifyWorkloadAccessToken_def Let_def has_typ_def
  by (subst (asm) bind_res_Inr_iff, elim exE conjE, subst (asm) bind_res_Inr_iff, elim exE conjE, subst (asm) bind_res_Inr_iff)
    (auto dest: kid_Inr)

lemma dpop_typ: "verifyDpopProof env compact o1 = Inr r \<Longrightarrow> has_typ env compact TypDpop"
  unfolding verifyDpopProof_def Let_def has_typ_def
  by (subst (asm) bind_res_Inr_iff, elim exE conjE, subst (asm) bind_res_Inr_iff) (auto dest: jwk_Inr)

text \<open>The verifiers by the kind of token they accept.\<close>

fun accepts :: "v2_env \<Rightarrow> string \<Rightarrow> v2_typ \<Rightarrow> bool" where
  "accepts env c TypEnrollmentRequest = (\<exists>o1 r. verifyEnrollmentRequest env c o1 = Inr r)"
| "accepts env c TypInstallationGrant = (\<exists>o1 r. verifyInstallationGrant env c o1 = Inr r)"
| "accepts env c TypClientAssertion = (\<exists>o1 r. verifyClientAssertion env c o1 = Inr r)"
| "accepts env c TypWorkloadAccessToken = (\<exists>o1 r. verifyWorkloadAccessToken env c o1 = Inr r)"
| "accepts env c TypAttest = (\<exists>o1 r. verifyV2Attestation env c o1 = Inr r)"
| "accepts env c TypDpop = (\<exists>o1 r. verifyDpopProof env c o1 = Inr r)"

lemma accepts_typ: "accepts env c t \<Longrightarrow> has_typ env c t"
  by (cases t) (auto dest: enrollment_typ grant_typ attest_typ assertion_typ workload_typ dpop_typ)

text \<open>The text of the claims was signed by the key, and read without two equal keys.\<close>

definition signed_by :: "v2_env \<Rightarrow> string \<Rightarrow> claims \<Rightarrow> claims \<Rightarrow> bool" where
  "signed_by env compact key cs \<longleftrightarrow>
     (\<exists>h p s. split_on CHR ''.'' compact = [h, p, s] \<and> ve_verify env key (h @ ''.'' @ p) s \<and>
        parseJsonWithoutDuplicateKeys (ve_parse env) (ve_text env p) = Inr (JObj cs))"

lemma decode_object_Inr:
  "decodeObject env seg = Inr fs \<longleftrightarrow> parseJsonWithoutDuplicateKeys (ve_parse env) (ve_text env seg) = Inr (JObj fs)"
proof -
  have "(case v of JObj fs \<Rightarrow> Inr fs | _ \<Rightarrow> Inl V2MalformedJose) = Inr fs \<longleftrightarrow> v = JObj fs" for v
    by (cases v) simp_all
  then show ?thesis by (auto simp: decodeObject_def bind_res_Inr_iff)
qed

lemma decode_signed:
  assumes "decodeV2Jws env compact = Inr d" "ve_verify env key (dj_signingInput d) (dj_signature d)"
  shows "signed_by env compact key (dj_payload d)"
  using assms by (auto simp: decodeV2Jws_def signed_by_def bind_res_Inr_iff decode_object_Inr split: list.splits if_splits)

lemma grant_inverts:
  assumes "verifyInstallationGrant env compact o1 = Inr cs"
  obtains jwk where "validateP256PublicJwk (go_platformPublicJwk o1) = Inr jwk" "signed_by env compact jwk cs"
    "in_window cs (go_now o1) TTL_clientAssertion"
    "js_prop cs ''iss'' = JStr (go_platformIssuer o1)" "js_prop cs ''aud'' = JStr (go_deploymentId o1)"
    "js_prop cs ''tid'' = JStr (go_tenantId o1)" "js_prop cs ''iid'' = JStr (go_installationId o1)"
    "js_prop cs ''sid'' = JStr (go_systemId o1)" "js_prop cs ''client_id'' = JStr (go_deploymentId o1)"
    "js_prop cs ''origin'' = JStr (go_origin o1)" "js_prop cs ''key_id'' = JStr (go_keyId o1)"
    "generation_ok (js_prop cs ''generation'')"
  using assms unfolding verifyInstallationGrant_def Let_def
  by (auto simp: bind_res_Inr_iff split: if_splits dest!: token_time_Inr dest: decode_signed)

lemma workload_inverts:
  assumes "verifyWorkloadAccessToken env compact o1 = Inr cs"
  obtains jwk scopes where "validateP256PublicJwk (wo_platformPublicJwk o1) = Inr jwk" "signed_by env compact jwk cs"
    "in_window cs (wo_now o1) TTL_workloadAccessToken"
    "js_prop cs ''aud'' = JStr V2_WORKLOAD_AUDIENCE"
    "js_prop cs ''tid'' = JStr (wo_tenantId o1)" "js_prop cs ''iid'' = JStr (wo_installationId o1)"
    "js_prop cs ''client_id'' = JStr (wo_deploymentId o1)"
    "cnf_matches (js_prop cs ''cnf'') (wo_keyId o1)" "js_prop cs ''generation'' = JNum (IntNum (wo_generation o1))"
    "wo_authorizationScheme o1 \<in> {None, Some ''DPoP''}" "wo_installationStatus o1 \<in> {None, Some StatusEnabled}"
    "parseScope (js_prop cs ''scope'') = Inr scopes" "\<not> truthy (wo_requiredScope o1) \<or> the (wo_requiredScope o1) \<in> set scopes"
  using assms unfolding verifyWorkloadAccessToken_def Let_def
  by (auto simp: bind_res_Inr_iff split: if_splits dest!: token_time_Inr dest: decode_signed)

lemma thumbprint_Inr:
  "p256JwkThumbprint env v = Inr k \<longleftrightarrow> (\<exists>jwk. validateP256PublicJwk v = Inr jwk \<and> k = ve_sha256 env (thumbprint_text jwk))"
  by (auto simp: p256JwkThumbprint_def bind_res_Inr_iff)

text \<open>The claim \<open>ath\<close> is the hash of the token: its text, or the bytes that \<open>Buffer.from\<close> makes of it.\<close>

definition hash_claim :: "v2_env \<Rightarrow> json \<Rightarrow> string \<Rightarrow> bool" where
  "hash_claim env v h \<longleftrightarrow> v = JStr h \<or> (\<forall>s. v \<noteq> JStr s) \<and> ve_buffer env v = Some h"

lemma ath_matches_Inr: "ath_matches env v token = Inr u \<Longrightarrow> hash_claim env v (accessTokenHash env token)"
  by (cases v) (auto simp: ath_matches_def hash_claim_def split: if_splits option.splits)

lemma dpop_inverts:
  assumes "verifyDpopProof env compact o1 = Inr (cs, keyId, rk)"
  obtains jwk iat htm htu bare where "signed_by env compact jwk cs" "keyId = ve_sha256 env (thumbprint_text jwk)"
    "js_prop cs ''iat'' = JNum (IntNum iat)" "\<bar>do_now o1 - iat\<bar> \<le> TTL_dpopProof"
    "js_prop cs ''htm'' = JStr htm" "htm = map upper_char (do_method o1)"
    "js_prop cs ''htu'' = JStr htu" "normalizeDpopHtu env htu = Inr bare" "normalizeDpopHtu env (do_requestUrl o1) = Inr bare"
    "\<not> truthy (do_expectedKeyId o1) \<or> do_expectedKeyId o1 = Some keyId"
    "\<And>token. do_accessToken o1 = Some token \<Longrightarrow> hash_claim env (js_prop cs ''ath'') (accessTokenHash env token)"
    "rk = replay_key keyId cs"
proof -
  from assms obtain d jwk iat htm htu bare where d: "decodeV2Jws env compact = Inr d" "cs = dj_payload d"
    "assertJoseHeader_jwk (dj_header d) TypDpop = Inr jwk" "ve_verify env jwk (dj_signingInput d) (dj_signature d)"
    "p256JwkThumbprint env (JObj jwk) = Inr keyId"
    "js_prop cs ''iat'' = JNum (IntNum iat)" "\<bar>do_now o1 - iat\<bar> \<le> TTL_dpopProof"
    "js_prop cs ''htm'' = JStr htm" "htm = map upper_char (do_method o1)"
    "js_prop cs ''htu'' = JStr htu" "normalizeDpopHtu env htu = Inr bare" "normalizeDpopHtu env (do_requestUrl o1) = Inr bare"
    "\<not> truthy (do_expectedKeyId o1) \<or> do_expectedKeyId o1 = Some keyId"
    "(case do_accessToken o1 of Some token \<Rightarrow> ath_matches env (js_prop cs ''ath'') token
      | None \<Rightarrow> check (js_prop cs ''ath'' = JUndefined) V2InvalidDpopProof) = Inr ()"
    "rk = replay_key keyId cs"
    unfolding verifyDpopProof_def Let_def
    by (auto simp: bind_res_Inr_iff string_claim_Inr integer_claim_Inr split: if_splits)
  have "keyId = ve_sha256 env (thumbprint_text jwk)"
    using d(5) by (auto simp: thumbprint_Inr dest: jwk_validate_same)
  moreover have "hash_claim env (js_prop cs ''ath'') (accessTokenHash env token)" if "do_accessToken o1 = Some token" for token
    using d(14) that by (auto dest: ath_matches_Inr)
  ultimately show thesis using that decode_signed [OF d(1,4)] d by blast
qed

end
