(* ===== verification/V2_Binding.thy ===== *)
theory V2_Binding
  imports Agent_Base
begin

text \<open>
  Installation bindings and their runtimes (\<^verbatim>\<open>packages/ky-app-server/src/identity\<close>): the binding provider in memory
  (\<^verbatim>\<open>memory.ts\<close>) and in a database (\<^verbatim>\<open>pgBindingProvider.ts\<close>), and the manager that swaps the runtime of an installation
  when its generation changes (\<^verbatim>\<open>runtimeManager.ts\<close>). The calls of the manager overlap at every \<open>await\<close>: a call is a
  thread, and a step of a thread runs its code up to the next \<open>await\<close>. What a runtime answers is part of the schedule.
\<close>

section \<open>Bindings\<close>

datatype binding_state = BActivating | BConnected | BDegraded | BRevoked

text \<open>
  The granted scopes come from the claim \<open>scope\<close> of a grant, which may be a list or a text; the code treats both as a
  list, so that \<open>includes\<close> on a text is the search for a substring and \<open>every\<close> throws.
\<close>

datatype granted_scopes = ScopeList "string list" | ScopeText string

fun substring :: "string \<Rightarrow> string \<Rightarrow> bool" where
  "substring p [] = (p = [])"
| "substring p (c # s) = (take (length p) (c # s) = p \<or> substring p s)"

fun scopes_length :: "granted_scopes \<Rightarrow> nat" where
  "scopes_length (ScopeList l) = length l"
| "scopes_length (ScopeText s) = length s"

fun scopes_include :: "granted_scopes \<Rightarrow> string \<Rightarrow> bool" where
  "scopes_include (ScopeList l) scope = (scope \<in> set l)"
| "scopes_include (ScopeText s) scope = substring scope s"

record installation_binding =
  ib_installationId :: string
  ib_tenantId :: string
  ib_systemId :: string
  ib_deploymentId :: string
  ib_origin :: string
  ib_platformIssuer :: string
  ib_platformApiBaseUrl :: string
  ib_keyId :: string
  ib_grantedScopes :: granted_scopes
  ib_registeredDigest :: "string option"
  ib_generation :: int
  ib_state :: binding_state
  ib_updatedAt :: string

datatype binding_error = BindingGenerationConflict | BindingNotFound

datatype binding_change = ChangeStaged installation_binding | ChangeActivated installation_binding | ChangeRevoked string int

text \<open>The bindings in force, the staged ones, and the changes that were sent to the listeners.\<close>

record provider_state =
  ps_bindings :: "string \<Rightarrow> installation_binding option"
  ps_staged :: "string \<Rightarrow> installation_binding option"
  ps_changes :: "binding_change list"

definition no_bindings :: provider_state where
  "no_bindings = \<lparr>ps_bindings = Map.empty, ps_staged = Map.empty, ps_changes = []\<rparr>"

definition provider_get :: "provider_state \<Rightarrow> string \<Rightarrow> installation_binding option" where
  "provider_get p iid = ps_bindings p iid"

definition emit_change :: "binding_change \<Rightarrow> provider_state \<Rightarrow> provider_state" where
  "emit_change c p = p\<lparr>ps_changes := ps_changes p @ [c]\<rparr>"

type_synonym 'a provided = "(binding_error + 'a) \<times> provider_state"

section \<open>The provider in memory\<close>

definition mem_stage :: "installation_binding \<Rightarrow> provider_state \<Rightarrow> unit provided" where
  "mem_stage b p =
     (let iid = ib_installationId b; staged = b\<lparr>ib_state := BActivating\<rparr> in
      if (case ps_bindings p iid of None \<Rightarrow> False | Some current \<Rightarrow> ib_generation b \<le> ib_generation current) \<or>
         (case ps_staged p iid of None \<Rightarrow> False | Some pending \<Rightarrow> ib_generation b < ib_generation pending)
      then (Inl BindingGenerationConflict, p)
      else (Inr (), emit_change (ChangeStaged staged) (p\<lparr>ps_staged := (ps_staged p)(iid \<mapsto> staged)\<rparr>)))"

definition mem_activate :: "string \<Rightarrow> string \<Rightarrow> int \<Rightarrow> provider_state \<Rightarrow> unit provided" where
  "mem_activate now iid expectedGeneration p =
     (case ps_staged p iid of
        None \<Rightarrow> (Inl BindingGenerationConflict, p)
      | Some current \<Rightarrow>
          if ib_generation current \<noteq> expectedGeneration then (Inl BindingGenerationConflict, p)
          else (let active = current\<lparr>ib_state := BConnected, ib_updatedAt := now\<rparr> in
                (Inr (), emit_change (ChangeActivated active)
                   (p\<lparr>ps_bindings := (ps_bindings p)(iid \<mapsto> active), ps_staged := (ps_staged p)(iid := None)\<rparr>))))"

definition mem_require :: "string \<Rightarrow> int \<Rightarrow> provider_state \<Rightarrow> binding_error + installation_binding" where
  "mem_require iid generation p =
     (case ps_bindings p iid of
        None \<Rightarrow> Inl BindingNotFound
      | Some current \<Rightarrow> if ib_generation current \<noteq> generation then Inl BindingGenerationConflict else Inr current)"

definition mem_revoke :: "string \<Rightarrow> string \<Rightarrow> int \<Rightarrow> provider_state \<Rightarrow> unit provided" where
  "mem_revoke now iid expectedGeneration p =
     (case mem_require iid expectedGeneration p of
        Inl e \<Rightarrow> (Inl e, p)
      | Inr current \<Rightarrow>
          (Inr (), emit_change (ChangeRevoked iid expectedGeneration)
             (p\<lparr>ps_bindings := (ps_bindings p)(iid \<mapsto> current\<lparr>ib_state := BRevoked, ib_updatedAt := now\<rparr>)\<rparr>)))"

section \<open>The provider in a database\<close>

text \<open>
  The two tables by installation. The condition of the upsert of \<open>stage\<close> is evaluated only for a staged row that is
  already there; without one the row is inserted. \<open>activate\<close> deletes the staged row in any case, and the row count
  tells whether the binding was written.
\<close>

definition pg_stage :: "installation_binding \<Rightarrow> provider_state \<Rightarrow> unit provided" where
  "pg_stage b p =
     (let iid = ib_installationId b; row = b\<lparr>ib_state := BActivating\<rparr>;
          written = (Inr (), emit_change (ChangeStaged row) (p\<lparr>ps_staged := (ps_staged p)(iid \<mapsto> row)\<rparr>)) in
      case ps_staged p iid of
        None \<Rightarrow> written
      | Some pending \<Rightarrow>
          if ib_generation pending \<le> ib_generation b \<and>
             \<not> (case ps_bindings p iid of None \<Rightarrow> False | Some active \<Rightarrow> ib_generation active \<ge> ib_generation b)
          then written else (Inl BindingGenerationConflict, p))"

definition pg_activate :: "string \<Rightarrow> string \<Rightarrow> int \<Rightarrow> provider_state \<Rightarrow> unit provided" where
  "pg_activate now iid expectedGeneration p =
     (case ps_staged p iid of
        None \<Rightarrow> (Inl BindingGenerationConflict, p)
      | Some candidate \<Rightarrow>
          if ib_generation candidate \<noteq> expectedGeneration then (Inl BindingGenerationConflict, p)
          else (let p' = p\<lparr>ps_staged := (ps_staged p)(iid := None)\<rparr>;
                    row = candidate\<lparr>ib_state := BConnected, ib_updatedAt := now\<rparr> in
                if (case ps_bindings p iid of None \<Rightarrow> True | Some active \<Rightarrow> ib_generation active < ib_generation candidate)
                then (Inr (), emit_change (ChangeActivated row) (p'\<lparr>ps_bindings := (ps_bindings p)(iid \<mapsto> row)\<rparr>))
                else (Inl BindingGenerationConflict, p')))"

definition pg_revoke :: "string \<Rightarrow> string \<Rightarrow> int \<Rightarrow> provider_state \<Rightarrow> unit provided" where
  "pg_revoke now iid expectedGeneration p =
     (case ps_bindings p iid of
        None \<Rightarrow> (Inl BindingGenerationConflict, p)
      | Some current \<Rightarrow>
          if ib_generation current = expectedGeneration \<and> ib_state current \<noteq> BRevoked
          then (Inr (), emit_change (ChangeRevoked iid expectedGeneration)
                  (p\<lparr>ps_bindings := (ps_bindings p)(iid \<mapsto> current\<lparr>ib_state := BRevoked, ib_updatedAt := now\<rparr>)\<rparr>))
          else (Inl BindingGenerationConflict, p))"

text \<open>The interface of the manager.\<close>

record binding_provider =
  bp_stage :: "installation_binding \<Rightarrow> provider_state \<Rightarrow> unit provided"
  bp_activate :: "string \<Rightarrow> string \<Rightarrow> int \<Rightarrow> provider_state \<Rightarrow> unit provided"
  bp_revoke :: "string \<Rightarrow> string \<Rightarrow> int \<Rightarrow> provider_state \<Rightarrow> unit provided"

definition memory_provider :: binding_provider where
  "memory_provider = \<lparr>bp_stage = mem_stage, bp_activate = mem_activate, bp_revoke = mem_revoke\<rparr>"

definition pg_provider :: binding_provider where
  "pg_provider = \<lparr>bp_stage = pg_stage, bp_activate = pg_activate, bp_revoke = pg_revoke\<rparr>"

section \<open>The runtime manager\<close>

definition same_ids :: "installation_binding \<Rightarrow> installation_binding \<Rightarrow> bool" where
  "same_ids left right \<longleftrightarrow>
     ib_installationId left = ib_installationId right \<and> ib_tenantId left = ib_tenantId right \<and>
     ib_systemId left = ib_systemId right \<and> ib_deploymentId left = ib_deploymentId right \<and>
     ib_origin left = ib_origin right \<and> ib_platformIssuer left = ib_platformIssuer right \<and>
     ib_platformApiBaseUrl left = ib_platformApiBaseUrl right \<and> ib_keyId left = ib_keyId right \<and>
     ib_registeredDigest left = ib_registeredDigest right \<and> ib_generation left = ib_generation right"

text \<open>\<open>None\<close> where the comparison throws.\<close>

definition sameBindingIdentity :: "installation_binding \<Rightarrow> installation_binding \<Rightarrow> bool option" where
  "sameBindingIdentity left right =
     (if same_ids left right \<and> scopes_length (ib_grantedScopes left) = scopes_length (ib_grantedScopes right)
      then (case ib_grantedScopes left of
              ScopeText t \<Rightarrow> None
            | ScopeList l \<Rightarrow> Some (list_all (scopes_include (ib_grantedScopes right)) l))
      else Some False)"

text \<open>
  A runtime is the number of its factory call. \<open>ms_started\<close> and \<open>ms_drained\<close> record whose \<open>start\<close> resolved and on whom
  \<open>drain\<close> was called.
\<close>

record manager_state =
  ms_provider :: provider_state
  ms_active :: "string \<Rightarrow> (int \<times> nat) option"
  ms_next :: nat
  ms_started :: "nat list"
  ms_drained :: "nat list"

definition idle_manager :: manager_state where
  "idle_manager = \<lparr>ms_provider = no_bindings, ms_active = Map.empty, ms_next = 0, ms_started = [], ms_drained = []\<rparr>"

datatype answer = Resolved | Rejected

text \<open>Where a call stands: at an \<open>await\<close>, with what it holds.\<close>

datatype thread =
    InstallCalled installation_binding
  | InstallRead installation_binding "installation_binding option"
  | RestoreFactory installation_binding
  | RestoreValidate installation_binding nat
  | RestoreStart installation_binding nat
  | StagedAt installation_binding
  | ValidateAt installation_binding nat
  | StartAt installation_binding nat
  | ActivatedAt installation_binding nat "(int \<times> nat) option"
  | DrainOldAt installation_binding nat
  | DrainCandidateAt
  | RevokeCalled string int
  | RevokedAt string int
  | DrainRevokedAt
  | Finished bool

definition set_active :: "string \<Rightarrow> int \<Rightarrow> nat \<Rightarrow> manager_state \<Rightarrow> manager_state" where
  "set_active iid generation rt m = m\<lparr>ms_active := (ms_active m)(iid \<mapsto> (generation, rt))\<rparr>"

definition call_drain :: "nat \<Rightarrow> manager_state \<Rightarrow> manager_state" where
  "call_drain rt m = m\<lparr>ms_drained := rt # ms_drained m\<rparr>"

definition call_start :: "nat \<Rightarrow> manager_state \<Rightarrow> manager_state" where
  "call_start rt m = m\<lparr>ms_started := rt # ms_started m\<rparr>"

definition fresh_runtime :: "manager_state \<Rightarrow> nat \<times> manager_state" where
  "fresh_runtime m = (ms_next m, m\<lparr>ms_next := Suc (ms_next m)\<rparr>)"

text \<open>The \<open>catch\<close> blocks: the candidate is drained, whatever it answers, and the error is thrown again.\<close>

definition drain_candidate :: "nat \<Rightarrow> manager_state \<Rightarrow> manager_state \<times> thread" where
  "drain_candidate rt m = (call_drain rt m, DrainCandidateAt)"

definition read_step :: "binding_provider \<Rightarrow> installation_binding \<Rightarrow> installation_binding option \<Rightarrow> manager_state \<Rightarrow> manager_state \<times> thread" where
  "read_step pv b stored m =
     (let staging = (case bp_stage pv b (ms_provider m) of
          (Inl e, p) \<Rightarrow> (m\<lparr>ms_provider := p\<rparr>, Finished False)
        | (Inr u, p) \<Rightarrow> (m\<lparr>ms_provider := p\<rparr>, StagedAt b)) in
      case stored of
        None \<Rightarrow> staging
      | Some s \<Rightarrow>
          if ib_state s = BConnected then
            (case sameBindingIdentity s b of
               None \<Rightarrow> (m, Finished False)
             | Some True \<Rightarrow>
                 if map_option fst (ms_active m (ib_installationId b)) = Some (ib_generation b) then (m, Finished True)
                 else (m, RestoreFactory b)
             | Some False \<Rightarrow> staging)
          else staging)"

definition start_step :: "binding_provider \<Rightarrow> string \<Rightarrow> installation_binding \<Rightarrow> nat \<Rightarrow> manager_state \<Rightarrow> manager_state \<times> thread" where
  "start_step pv now b rt m =
     (let iid = ib_installationId b; old = ms_active m iid;
          m1 = set_active iid (ib_generation b) rt (call_start rt m) in
      case bp_activate pv now iid (ib_generation b) (ms_provider m1) of
        (Inl e, p) \<Rightarrow> drain_candidate rt (m1\<lparr>ms_provider := p\<rparr>)
      | (Inr u, p) \<Rightarrow> (m1\<lparr>ms_provider := p\<rparr>, ActivatedAt b rt old))"

fun thread_step :: "binding_provider \<Rightarrow> string \<Rightarrow> answer \<Rightarrow> manager_state \<Rightarrow> thread \<Rightarrow> manager_state \<times> thread" where
  "thread_step pv now a m (InstallCalled b) = (m, InstallRead b (provider_get (ms_provider m) (ib_installationId b)))"
| "thread_step pv now a m (InstallRead b stored) = read_step pv b stored m"
| "thread_step pv now a m (RestoreFactory b) =
     (if a = Rejected then (m, Finished False) else (let (rt, m') = fresh_runtime m in (m', RestoreValidate b rt)))"
| "thread_step pv now a m (RestoreValidate b rt) = (if a = Rejected then drain_candidate rt m else (m, RestoreStart b rt))"
| "thread_step pv now a m (RestoreStart b rt) =
     (if a = Rejected then drain_candidate rt m
      else (set_active (ib_installationId b) (ib_generation b) rt (call_start rt m), Finished True))"
| "thread_step pv now a m (StagedAt b) =
     (if a = Rejected then (m, Finished False) else (let (rt, m') = fresh_runtime m in (m', ValidateAt b rt)))"
| "thread_step pv now a m (ValidateAt b rt) = (if a = Rejected then drain_candidate rt m else (m, StartAt b rt))"
| "thread_step pv now a m (StartAt b rt) = (if a = Rejected then drain_candidate rt m else start_step pv now b rt m)"
| "thread_step pv now a m (ActivatedAt b rt old) =
     (case old of None \<Rightarrow> (m, Finished True) | Some (g, r) \<Rightarrow> (call_drain r m, DrainOldAt b rt))"
| "thread_step pv now a m (DrainOldAt b rt) = (if a = Rejected then drain_candidate rt m else (m, Finished True))"
| "thread_step pv now a m DrainCandidateAt = (m, Finished False)"
| "thread_step pv now a m (RevokeCalled iid generation) =
     (case bp_revoke pv now iid generation (ms_provider m) of
        (Inl e, p) \<Rightarrow> (m\<lparr>ms_provider := p\<rparr>, Finished False)
      | (Inr u, p) \<Rightarrow> (m\<lparr>ms_provider := p\<rparr>, RevokedAt iid generation))"
| "thread_step pv now a m (RevokedAt iid generation) =
     (case ms_active m iid of
        Some (g, rt) \<Rightarrow>
          if g = generation then (call_drain rt (m\<lparr>ms_active := (ms_active m)(iid := None)\<rparr>), DrainRevokedAt)
          else (m, Finished True)
      | None \<Rightarrow> (m, Finished True))"
| "thread_step pv now a m DrainRevokedAt = (m, Finished (a = Resolved))"
| "thread_step pv now a m (Finished ok) = (m, Finished ok)"

definition manager_generation :: "manager_state \<Rightarrow> string \<Rightarrow> int option" where
  "manager_generation m iid = map_option fst (ms_active m iid)"

text \<open>A schedule: which call makes the next step, at what time, and how the promise that it awaits is settled.\<close>

record tick = tk_thread :: nat  tk_now :: string  tk_answer :: answer

definition machine_step :: "binding_provider \<Rightarrow> manager_state \<times> thread list \<Rightarrow> tick \<Rightarrow> manager_state \<times> thread list" where
  "machine_step pv s t =
     (case s of (m, ths) \<Rightarrow>
        if tk_thread t < length ths
        then (case thread_step pv (tk_now t) (tk_answer t) m (ths ! tk_thread t) of (m', th) \<Rightarrow> (m', ths[tk_thread t := th]))
        else (m, ths))"

definition machine_run :: "binding_provider \<Rightarrow> manager_state \<times> thread list \<Rightarrow> tick list \<Rightarrow> manager_state \<times> thread list" where
  "machine_run pv s ticks = foldl (machine_step pv) s ticks"

text \<open>One call that nothing overlaps with.\<close>

definition alone :: "binding_provider \<Rightarrow> string \<Rightarrow> manager_state \<times> thread \<Rightarrow> answer list \<Rightarrow> manager_state \<times> thread" where
  "alone pv now s answers = foldl (\<lambda>(m, th) a. thread_step pv now a m th) s answers"

section \<open>What every provider promises\<close>

text \<open>
  Bindings only advance: an installation keeps its binding or gets one of a higher generation, and a binding that was
  revoked is not used again.
\<close>

definition succeeds :: "installation_binding \<Rightarrow> installation_binding \<Rightarrow> bool" where
  "succeeds b b' \<longleftrightarrow>
     ib_generation b < ib_generation b' \<or>
     ib_generation b' = ib_generation b \<and> (ib_state b = BRevoked \<longrightarrow> ib_state b' = BRevoked)"

definition advances :: "provider_state \<Rightarrow> provider_state \<Rightarrow> bool" where
  "advances p p' \<longleftrightarrow>
     (\<forall>iid b. ps_bindings p iid = Some b \<longrightarrow> (\<exists>b'. ps_bindings p' iid = Some b' \<and> succeeds b b'))"

lemma succeeds_refl: "succeeds b b"
  by (simp add: succeeds_def)

lemma succeeds_trans: "succeeds b b' \<Longrightarrow> succeeds b' b'' \<Longrightarrow> succeeds b b''"
  by (auto simp: succeeds_def)

lemma advances_same: "ps_bindings p' = ps_bindings p \<Longrightarrow> advances p p'"
  by (simp add: advances_def succeeds_refl)

lemma binding_advances_trans: "advances p p' \<Longrightarrow> advances p' p'' \<Longrightarrow> advances p p''"
  unfolding advances_def by (blast intro: succeeds_trans)

lemma advances_update:
  assumes "ps_bindings p' = (ps_bindings p)(iid \<mapsto> c)"
    and "\<And>b. ps_bindings p iid = Some b \<Longrightarrow> succeeds b c"
  shows "advances p p'"
  using assms by (simp add: advances_def succeeds_refl)

lemma read_step_provider:
  "ms_provider (fst (read_step pv b stored m)) \<in> {ms_provider m, snd (bp_stage pv b (ms_provider m))}"
  by (auto simp: read_step_def Let_def split: option.splits prod.splits sum.splits bool.splits)

lemma start_step_provider:
  "ms_provider (fst (start_step pv now b rt m)) = snd (bp_activate pv now (ib_installationId b) (ib_generation b) (ms_provider m))"
  by (simp add: start_step_def Let_def drain_candidate_def call_drain_def call_start_def set_active_def split: prod.splits sum.splits)

text \<open>A step of a call uses the provider at most once.\<close>

lemma thread_provider:
  "ms_provider (fst (thread_step pv now a m th)) = ms_provider m \<or>
   (\<exists>b. ms_provider (fst (thread_step pv now a m th)) = snd (bp_stage pv b (ms_provider m))) \<or>
   (\<exists>iid g. ms_provider (fst (thread_step pv now a m th)) = snd (bp_activate pv now iid g (ms_provider m))) \<or>
   (\<exists>iid g. ms_provider (fst (thread_step pv now a m th)) = snd (bp_revoke pv now iid g (ms_provider m)))"
proof (cases th)
  case (InstallRead b stored)
  with read_step_provider [of pv b stored m] show ?thesis by auto
next
  case (StartAt b rt)
  have "ms_provider (fst (drain_candidate rt m)) = ms_provider m" by (simp add: drain_candidate_def call_drain_def)
  with StartAt start_step_provider [of pv now b rt m] show ?thesis by auto
next
  case (RevokeCalled iid g)
  have "ms_provider (fst (thread_step pv now a m th)) = snd (bp_revoke pv now iid g (ms_provider m))"
    by (simp add: RevokeCalled split: prod.splits sum.splits)
  then show ?thesis by blast
qed (simp_all add: drain_candidate_def call_drain_def call_start_def set_active_def fresh_runtime_def split: option.splits prod.splits)

locale lawful_provider =
  fixes pv :: binding_provider and inv :: "provider_state \<Rightarrow> bool"
  assumes start_inv: "inv no_bindings"
    and stage_inv: "inv p \<Longrightarrow> inv (snd (bp_stage pv b p))"
    and activate_inv: "inv p \<Longrightarrow> inv (snd (bp_activate pv now iid g p))"
    and revoke_inv: "inv p \<Longrightarrow> inv (snd (bp_revoke pv now iid g p))"
    and stage_advances: "inv p \<Longrightarrow> advances p (snd (bp_stage pv b p))"
    and activate_advances: "inv p \<Longrightarrow> advances p (snd (bp_activate pv now iid g p))"
    and revoke_advances: "inv p \<Longrightarrow> advances p (snd (bp_revoke pv now iid g p))"
begin

lemma thread_advances:
  assumes "inv (ms_provider m)"
  shows "inv (ms_provider (fst (thread_step pv now a m th))) \<and> advances (ms_provider m) (ms_provider (fst (thread_step pv now a m th)))"
proof -
  note laws = stage_inv [OF assms] stage_advances [OF assms] activate_inv [OF assms] activate_advances [OF assms]
    revoke_inv [OF assms] revoke_advances [OF assms] assms advances_same
  show ?thesis using thread_provider [of pv now a m th] laws by (elim disjE exE) simp_all
qed

lemma machine_advances:
  assumes "inv (ms_provider (fst s))"
  shows "inv (ms_provider (fst (machine_run pv s ticks))) \<and> advances (ms_provider (fst s)) (ms_provider (fst (machine_run pv s ticks)))"
  using assms
proof (induction ticks arbitrary: s)
  case Nil
  then show ?case by (simp add: machine_run_def advances_same)
next
  case (Cons t ts)
  obtain m ths where s: "s = (m, ths)" by (cases s)
  define s1 where "s1 = machine_step pv s t"
  have "inv (ms_provider (fst s1)) \<and> advances (ms_provider m) (ms_provider (fst s1))"
    using Cons.prems thread_advances [of m "tk_now t" "tk_answer t" "ths ! tk_thread t"]
    by (auto simp: s s1_def machine_step_def advances_same split: prod.splits)
  with Cons.IH [of s1] show ?case
    by (auto simp: s machine_run_def s1_def intro: binding_advances_trans)
qed

lemma run_advances:
  "advances (ms_provider (fst (machine_run pv (idle_manager, ths) early)))
     (ms_provider (fst (machine_run pv (idle_manager, ths) (early @ late))))"
proof -
  define s where "s = machine_run pv (idle_manager, ths) early"
  have "inv (ms_provider (fst s))"
    using machine_advances [of "(idle_manager, ths)" early] start_inv by (simp add: s_def idle_manager_def)
  with machine_advances [of s late] show ?thesis by (simp add: s_def machine_run_def)
qed

end

text \<open>In memory a staged binding has a higher generation than the binding in force; the database compares on activation.\<close>

definition mem_inv :: "provider_state \<Rightarrow> bool" where
  "mem_inv p \<longleftrightarrow>
     (\<forall>iid b. ps_staged p iid = Some b \<longrightarrow> (\<forall>c. ps_bindings p iid = Some c \<longrightarrow> ib_generation c < ib_generation b))"

interpretation memory: lawful_provider memory_provider mem_inv
proof
  show "mem_inv no_bindings" by (simp add: mem_inv_def no_bindings_def)
next
  fix p b now iid g assume p: "mem_inv p"
  show "mem_inv (snd (bp_stage memory_provider b p))"
    using p by (auto simp: memory_provider_def mem_stage_def mem_inv_def Let_def emit_change_def split: option.splits)
  show "mem_inv (snd (bp_activate memory_provider now iid g p))"
    using p by (auto simp: memory_provider_def mem_activate_def mem_inv_def Let_def emit_change_def split: option.splits)
  show "mem_inv (snd (bp_revoke memory_provider now iid g p))"
    using p
    by (auto simp: memory_provider_def mem_revoke_def mem_require_def mem_inv_def emit_change_def split: option.splits sum.splits if_splits)
  show "advances p (snd (bp_stage memory_provider b p))"
    by (rule advances_same) (simp add: memory_provider_def mem_stage_def Let_def emit_change_def split: option.splits)
  show "advances p (snd (bp_activate memory_provider now iid g p))"
    using p
    by (auto simp: memory_provider_def mem_activate_def mem_inv_def Let_def emit_change_def split: option.splits
        simp: succeeds_def intro: advances_same advances_update)
  show "advances p (snd (bp_revoke memory_provider now iid g p))"
    by (auto simp: memory_provider_def mem_revoke_def mem_require_def emit_change_def split: option.splits sum.splits
        simp: succeeds_def intro: advances_same advances_update)
qed

interpretation pg: lawful_provider pg_provider "\<lambda>_. True"
proof
  fix p b now iid g
  show "advances p (snd (bp_stage pg_provider b p))"
    by (rule advances_same) (simp add: pg_provider_def pg_stage_def Let_def emit_change_def split: option.splits)
  show "advances p (snd (bp_activate pg_provider now iid g p))"
    by (auto simp: pg_provider_def pg_activate_def Let_def emit_change_def split: option.splits
        simp: succeeds_def intro: advances_same advances_update)
  show "advances p (snd (bp_revoke pg_provider now iid g p))"
    by (auto simp: pg_provider_def pg_revoke_def emit_change_def split: option.splits simp: succeeds_def intro: advances_same advances_update)
qed simp_all

section \<open>Only started runtimes are active\<close>

definition active_started :: "manager_state \<Rightarrow> bool" where
  "active_started m \<longleftrightarrow> (\<forall>iid g rt. ms_active m iid = Some (g, rt) \<longrightarrow> rt \<in> set (ms_started m))"

lemma read_step_active:
  "ms_active (fst (read_step pv b stored m)) = ms_active m \<and> ms_started (fst (read_step pv b stored m)) = ms_started m"
  by (simp add: read_step_def Let_def split: option.splits prod.splits sum.splits bool.splits)

lemma start_step_active:
  "ms_active (fst (start_step pv now b rt m)) = (ms_active m)(ib_installationId b \<mapsto> (ib_generation b, rt)) \<and>
   ms_started (fst (start_step pv now b rt m)) = rt # ms_started m"
  by (simp add: start_step_def Let_def drain_candidate_def call_drain_def call_start_def set_active_def split: prod.splits sum.splits)

lemma thread_active_started:
  assumes "active_started m"
  shows "active_started (fst (thread_step pv now a m th))"
proof (cases th)
  case (InstallRead b stored)
  with assms read_step_active [of pv b stored m] show ?thesis by (simp add: active_started_def)
next
  case (StartAt b rt)
  with assms start_step_active [of pv now b rt m] show ?thesis
    by (auto simp: active_started_def drain_candidate_def call_drain_def)
qed (use assms in \<open>auto simp: active_started_def drain_candidate_def call_drain_def call_start_def set_active_def
    fresh_runtime_def split: option.splits prod.splits sum.splits if_splits\<close>)

lemma machine_active_started:
  "active_started (fst s) \<Longrightarrow> active_started (fst (machine_run pv s ticks))"
proof (induction ticks arbitrary: s)
  case (Cons t ts)
  obtain m ths where s: "s = (m, ths)" by (cases s)
  have "active_started (fst (machine_step pv s t))"
    using Cons.prems thread_active_started [of m pv "tk_now t" "tk_answer t" "ths ! tk_thread t"]
    by (auto simp: s machine_step_def split: prod.splits)
  with Cons.IH show ?case by (simp add: machine_run_def)
qed (simp add: machine_run_def)

section \<open>An install that nothing overlaps with\<close>

definition kept :: "manager_state \<Rightarrow> manager_state \<Rightarrow> bool" where
  "kept m m' \<longleftrightarrow> ms_active m' = ms_active m \<and> ps_bindings (ms_provider m') = ps_bindings (ms_provider m)"

definition serves :: "manager_state \<Rightarrow> installation_binding \<Rightarrow> bool" where
  "serves m b \<longleftrightarrow>
     manager_generation m (ib_installationId b) = Some (ib_generation b) \<and>
     (\<exists>c. ps_bindings (ms_provider m) (ib_installationId b) = Some c \<and> ib_state c = BConnected \<and> same_ids c b)"

definition others_kept :: "string \<Rightarrow> manager_state \<Rightarrow> manager_state \<Rightarrow> bool" where
  "others_kept iid m m' \<longleftrightarrow>
     (\<forall>k. k \<noteq> iid \<longrightarrow> ms_active m' k = ms_active m k \<and> ps_bindings (ms_provider m') k = ps_bindings (ms_provider m) k)"

definition staged_for :: "manager_state \<Rightarrow> installation_binding \<Rightarrow> bool" where
  "staged_for m b \<longleftrightarrow> ps_staged (ms_provider m) (ib_installationId b) = Some (b\<lparr>ib_state := BActivating\<rparr>)"

definition stored_same :: "manager_state \<Rightarrow> installation_binding \<Rightarrow> bool" where
  "stored_same m b \<longleftrightarrow>
     (\<exists>c. ps_bindings (ms_provider m) (ib_installationId b) = Some c \<and> ib_state c = BConnected \<and> same_ids c b)"

text \<open>Where an install stands when only its own steps have run since it was called in state \<open>m\<close>.\<close>

fun lone :: "manager_state \<Rightarrow> installation_binding \<Rightarrow> manager_state \<Rightarrow> thread \<Rightarrow> bool" where
  "lone m b m' (InstallCalled b') = (b' = b \<and> kept m m')"
| "lone m b m' (InstallRead b' stored) = (b' = b \<and> kept m m' \<and> stored = ps_bindings (ms_provider m) (ib_installationId b))"
| "lone m b m' (RestoreFactory b') = (b' = b \<and> kept m m' \<and> stored_same m b)"
| "lone m b m' (RestoreValidate b' rt) = (b' = b \<and> kept m m' \<and> stored_same m b)"
| "lone m b m' (RestoreStart b' rt) = (b' = b \<and> kept m m' \<and> stored_same m b)"
| "lone m b m' (StagedAt b') = (b' = b \<and> kept m m' \<and> staged_for m' b)"
| "lone m b m' (ValidateAt b' rt) = (b' = b \<and> kept m m' \<and> staged_for m' b)"
| "lone m b m' (StartAt b' rt) = (b' = b \<and> kept m m' \<and> staged_for m' b)"
| "lone m b m' (ActivatedAt b' rt old) = (b' = b \<and> serves m' b \<and> others_kept (ib_installationId b) m m')"
| "lone m b m' (DrainOldAt b' rt) = (b' = b \<and> serves m' b \<and> others_kept (ib_installationId b) m m')"
| "lone m b m' DrainCandidateAt = (kept m m' \<or> serves m' b \<and> others_kept (ib_installationId b) m m')"
| "lone m b m' (Finished True) = (serves m' b \<and> others_kept (ib_installationId b) m m')"
| "lone m b m' (Finished False) = (kept m m' \<or> serves m' b \<and> others_kept (ib_installationId b) m m')"
| "lone m b m' _ = False"

lemma same_identity_activated: "same_ids (b\<lparr>ib_state := st, ib_updatedAt := now\<rparr>) b" "same_ids (b\<lparr>ib_state := st\<rparr>) b"
  by (simp_all add: same_ids_def)

lemma same_identity_ids: "sameBindingIdentity s b = Some True \<Longrightarrow> same_ids s b"
  by (simp add: sameBindingIdentity_def split: if_splits)

lemma read_step_lone:
  assumes "kept m m'" "stored = ps_bindings (ms_provider m) (ib_installationId b)" "read_step memory_provider b stored m' = (m2, th)"
  shows "lone m b m2 th"
proof -
  show ?thesis using assms
    by (auto simp: read_step_def Let_def memory_provider_def mem_stage_def emit_change_def kept_def staged_for_def stored_same_def
        serves_def others_kept_def manager_generation_def same_identity_ids
        split: option.splits prod.splits sum.splits if_splits bool.splits)
qed

lemma start_step_lone:
  assumes "kept m m'" "staged_for m' b" "start_step memory_provider now b rt m' = (m2, th)"
  shows "lone m b m2 th"
  using assms
  by (auto simp: start_step_def Let_def memory_provider_def mem_activate_def emit_change_def kept_def staged_for_def serves_def
      others_kept_def manager_generation_def set_active_def call_start_def same_identity_activated)

lemma restored_lone:
  assumes "kept m m'" "stored_same m b"
  shows "lone m b (set_active (ib_installationId b) (ib_generation b) rt (call_start rt m')) (Finished True)"
  using assms by (auto simp: kept_def stored_same_def serves_def others_kept_def manager_generation_def set_active_def call_start_def)

lemma kept_calls [simp]:
  "kept m (call_drain rt m') = kept m m'" "serves (call_drain rt m') b = serves m' b"
  "others_kept iid m (call_drain rt m') = others_kept iid m m'"
  "kept m (m'\<lparr>ms_next := n\<rparr>) = kept m m'" "staged_for (m'\<lparr>ms_next := n\<rparr>) b = staged_for m' b"
  by (simp_all add: kept_def serves_def others_kept_def staged_for_def manager_generation_def call_drain_def)

lemma lone_step:
  assumes "lone m b m' th" "thread_step memory_provider now a m' th = (m2, th2)"
  shows "lone m b m2 th2"
proof (cases th)
  case (InstallCalled b')
  with assms show ?thesis by (auto simp: provider_get_def kept_def)
next
  case (InstallRead b' stored)
  with assms show ?thesis by (auto intro: read_step_lone)
next
  case (RestoreStart b' rt)
  with assms restored_lone [of m m' b rt] show ?thesis by (auto simp: drain_candidate_def split: if_splits)
next
  case (StartAt b' rt)
  with assms show ?thesis by (auto simp: drain_candidate_def split: if_splits intro: start_step_lone)
next
  case (Finished ok)
  with assms show ?thesis by simp
qed (use assms in \<open>auto simp: drain_candidate_def fresh_runtime_def split: if_splits option.splits\<close>)

lemma lone_alone: "lone m b m' th \<Longrightarrow> alone memory_provider now (m', th) answers = (m2, th2) \<Longrightarrow> lone m b m2 th2"
proof (induction answers arbitrary: m' th)
  case (Cons a as)
  obtain m1 th1 where s: "thread_step memory_provider now a m' th = (m1, th1)" by fastforce
  from Cons.IH [OF lone_step [OF Cons.prems(1) s]] Cons.prems(2) s show ?case by (simp add: alone_def)
qed (simp add: alone_def)

lemma lone_outcome: "lone m b m' th \<Longrightarrow> kept m m' \<or> serves m' b \<and> others_kept (ib_installationId b) m m'"
  by (cases "(m, b, m', th)" rule: lone.cases) auto

section \<open>Where the swap is not atomic\<close>

definition demo_binding :: "int \<Rightarrow> installation_binding" where
  "demo_binding g =
     \<lparr>ib_installationId = ''i'', ib_tenantId = ''t'', ib_systemId = ''s'', ib_deploymentId = ''d'', ib_origin = ''o'',
      ib_platformIssuer = ''p'', ib_platformApiBaseUrl = ''u'', ib_keyId = ''k'', ib_grantedScopes = ScopeList [''x''],
      ib_registeredDigest = None, ib_generation = g, ib_state = BActivating, ib_updatedAt = ''0''\<rparr>"

definition installed :: "binding_provider \<Rightarrow> int \<Rightarrow> manager_state" where
  "installed pv g = fst (alone pv ''1'' (idle_manager, InstallCalled (demo_binding g)) (replicate 7 Resolved))"

definition ticks_of :: "nat list \<Rightarrow> tick list" where
  "ticks_of is = map (\<lambda>i. \<lparr>tk_thread = i, tk_now = ''1'', tk_answer = Resolved\<rparr>) is"

text \<open>
  With the database, an older grant that is installed once more is staged, because no row is staged. Its runtime takes
  the place of the one that serves; then the activation fails, and the runtime that is active is the drained candidate.
\<close>

lemma stale_install_replaces_runtime:
  "case alone pg_provider ''2'' (installed pg_provider 2, InstallCalled (demo_binding 1)) (replicate 7 Resolved) of
     (m, th) \<Rightarrow> th = Finished False \<and> ms_active m ''i'' = Some (1, 1) \<and> ms_drained m = [1] \<and>
       map_option ib_generation (ps_bindings (ms_provider m) ''i'') = Some 2"
  by code_simp

text \<open>In memory the same happens when a newer generation is staged while a runtime starts.\<close>

lemma overlapping_install_loses_runtime:
  "case machine_run memory_provider (installed memory_provider 1, [InstallCalled (demo_binding 2), InstallCalled (demo_binding 3)])
          (ticks_of [0, 0, 0, 0, 1, 1, 0, 0]) of
     (m, ths) \<Rightarrow> ths ! 0 = Finished False \<and> ms_active m ''i'' = Some (2, 1) \<and> ms_drained m = [1] \<and>
       map_option ib_generation (ps_bindings (ms_provider m) ''i'') = Some 1"
  by code_simp

text \<open>A runtime that is being restored becomes active although its binding was revoked in between.\<close>

lemma revoked_binding_restored:
  "case machine_run memory_provider
          ((installed memory_provider 1)\<lparr>ms_active := Map.empty\<rparr>, [InstallCalled (demo_binding 1), RevokeCalled ''i'' 1])
          (ticks_of [0, 0, 1, 1, 0, 0, 0]) of
     (m, ths) \<Rightarrow> ths = [Finished True, Finished True] \<and> ms_active m ''i'' = Some (1, 1) \<and>
       map_option ib_state (ps_bindings (ms_provider m) ''i'') = Some BRevoked"
  by code_simp

text \<open>Restoring a generation that another replica installed leaves the old runtime of this one running.\<close>

lemma restore_leaves_old_runtime:
  "case alone memory_provider ''2''
          ((installed memory_provider 1)\<lparr>ms_provider := ms_provider (installed memory_provider 2)\<rparr>, InstallCalled (demo_binding 2))
          (replicate 7 Resolved) of
     (m, th) \<Rightarrow> th = Finished True \<and> ms_active m ''i'' = Some (2, 1) \<and> ms_started m = [1, 0] \<and> ms_drained m = []"
  by code_simp

end
