(* ===== verification/V2_Enrollment.thy ===== *)
theory V2_Enrollment
  imports V2_Tokens V2_Binding "HOL-Library.AList"
begin

text \<open>
  Enrollment of an installation (\<^verbatim>\<open>packages/ky-app-server/src/enrollment\<close>): the stores of attempts and of short-lived
  secrets (\<^verbatim>\<open>memory.ts\<close>), and the two calls of the service (\<^verbatim>\<open>service.ts\<close>), the challenge and the callback, with the
  signing helpers (\<^verbatim>\<open>identity/jws.ts\<close>, \<^verbatim>\<open>workload/proof.ts\<close>). The answers of the platform, the key service and the
  runtime manager are parameters. Store times are milliseconds.
\<close>

section \<open>Attempts\<close>

datatype attempt_status = AttemptPending | AttemptExchanging | AttemptConsumed | AttemptExpired | AttemptFailed

record enrollment_attempt =
  ea_operationId :: string
  ea_installationId :: string
  ea_tenantId :: string
  ea_systemId :: string
  ea_stateHash :: string
  ea_verifierRef :: string
  ea_keyId :: string
  ea_deploymentId :: string
  ea_publicJwk :: claims
  ea_status :: attempt_status
  ea_expiresAt :: int

text \<open>A \<open>Map\<close> with its order of insertion.\<close>

type_synonym attempts = "(string \<times> enrollment_attempt) list"

definition attempt_create :: "enrollment_attempt \<Rightarrow> attempts \<Rightarrow> enrollment_attempt \<times> attempts" where
  "attempt_create a s =
     (case map_of s (ea_operationId a) of
        Some current \<Rightarrow> (current, s)
      | None \<Rightarrow> (a, AList.update (ea_operationId a) a s))"

definition attempt_get :: "string \<Rightarrow> attempts \<Rightarrow> enrollment_attempt option" where
  "attempt_get operationId s = map_of s operationId"

definition getByStateHash :: "string \<Rightarrow> attempts \<Rightarrow> enrollment_attempt option" where
  "getByStateHash h s = List.find (\<lambda>a. ea_stateHash a = h) (map snd s)"

definition beginExchange :: "string \<Rightarrow> int \<Rightarrow> attempts \<Rightarrow> bool \<times> attempts" where
  "beginExchange operationId now s =
     (case map_of s operationId of
        None \<Rightarrow> (False, s)
      | Some current \<Rightarrow>
          if (ea_status current \<noteq> AttemptPending \<and> ea_status current \<noteq> AttemptExchanging) \<or> ea_expiresAt current \<le> now
          then (False, s)
          else (True, AList.update operationId (current\<lparr>ea_status := AttemptExchanging\<rparr>) s))"

definition attempt_finish :: "string \<Rightarrow> attempt_status \<Rightarrow> attempts \<Rightarrow> bool \<times> attempts" where
  "attempt_finish operationId status s =
     (case map_of s operationId of
        None \<Rightarrow> (False, s)
      | Some current \<Rightarrow>
          if ea_status current \<noteq> AttemptExchanging then (False, s)
          else (True, AList.update operationId (current\<lparr>ea_status := status\<rparr>) s))"

section \<open>Secrets\<close>

text \<open>The JSON text of a secret, as the fields that it holds.\<close>

record exchange_secret =
  es_verifier :: string
  es_state :: string
  es_assertion :: "string option"
  es_dpop :: "string option"

type_synonym secrets = "string \<Rightarrow> (exchange_secret \<times> int) option"

definition secret_put :: "string \<Rightarrow> exchange_secret \<Rightarrow> int \<Rightarrow> secrets \<Rightarrow> secrets" where
  "secret_put ref v expiresAt s = s(ref \<mapsto> (v, expiresAt))"

definition secret_get :: "int \<Rightarrow> string \<Rightarrow> secrets \<Rightarrow> exchange_secret option" where
  "secret_get now ref s = (case s ref of None \<Rightarrow> None | Some (v, expiresAt) \<Rightarrow> if expiresAt > now then Some v else None)"

definition secret_set :: "string \<Rightarrow> exchange_secret \<Rightarrow> int \<Rightarrow> secrets \<Rightarrow> bool \<times> secrets" where
  "secret_set ref v expiresAt s = (if s ref = None then (False, s) else (True, s(ref \<mapsto> (v, expiresAt))))"

definition secret_delete :: "string \<Rightarrow> secrets \<Rightarrow> secrets" where
  "secret_delete ref s = s(ref := None)"

section \<open>Signing\<close>

text \<open>
  \<open>se_encode\<close> is the base64url form of \<open>JSON.stringify\<close>, \<open>se_sign\<close> the key service with its answer in base64url,
  \<open>se_sha256Hex\<close> the hash in hexadecimal.
\<close>

record sign_env =
  se_encode :: "claims \<Rightarrow> string"
  se_sign :: "string \<Rightarrow> string \<Rightarrow> string"
  se_sha256Hex :: "string \<Rightarrow> string"
  se_uri :: "string \<Rightarrow> string"

definition signDeploymentJws :: "sign_env \<Rightarrow> string \<Rightarrow> claims \<Rightarrow> claims \<Rightarrow> string" where
  "signDeploymentJws se keyRef header payload =
     (let signingInput = se_encode se header @ ''.'' @ se_encode se payload in signingInput @ ''.'' @ se_sign se keyRef signingInput)"

definition publicOnlyJwk :: "claims \<Rightarrow> claims" where
  "publicOnlyJwk jwk =
     [(''kty'', JStr ''EC''), (''crv'', JStr ''P-256''), (''x'', js_prop jwk ''x''), (''y'', js_prop jwk ''y''),
      (''alg'', JStr ''ES256''), (''use'', JStr ''sig'')]"

record deployment_key =
  dk_deploymentId :: string
  dk_keyId :: string
  dk_keyRef :: string
  dk_publicJwk :: claims

text \<open>\<open>createDpopProof\<close>; times are milliseconds, and \<open>jti\<close> is the random identifier.\<close>

definition createDpopProof ::
  "v2_env \<Rightarrow> sign_env \<Rightarrow> deployment_key \<Rightarrow> string \<Rightarrow> string \<Rightarrow> string option \<Rightarrow> int \<Rightarrow> string \<Rightarrow> v2_error + string" where
  "createDpopProof env se key meth url accessToken now jti =
     bind_res (normalizeDpopHtu env url) (\<lambda>htu.
     Inr (signDeploymentJws se (dk_keyRef key)
       [(''alg'', JStr ''ES256''), (''typ'', JStr (V2_JWT_TYP TypDpop)), (''jwk'', JObj (publicOnlyJwk (dk_publicJwk key)))]
       ([(''htm'', JStr (map upper_char meth)), (''htu'', JStr htu), (''iat'', JNum (IntNum (now div 1000))), (''jti'', JStr jti)] @
        (if truthy accessToken then [(''ath'', JStr (accessTokenHash env (the accessToken)))] else []))))"

text \<open>The client assertion of the service, of the workload client and of the key rotation.\<close>

definition clientAssertion :: "sign_env \<Rightarrow> deployment_key \<Rightarrow> string \<Rightarrow> string \<Rightarrow> int \<Rightarrow> string \<Rightarrow> string" where
  "clientAssertion se key iid audience now jti =
     signDeploymentJws se (dk_keyRef key)
       [(''alg'', JStr ''ES256''), (''typ'', JStr (V2_JWT_TYP TypClientAssertion)), (''kid'', JStr (dk_keyId key))]
       [(''iss'', JStr (dk_deploymentId key)), (''sub'', JStr (dk_deploymentId key)), (''aud'', JStr audience),
        (''iat'', JNum (IntNum (now div 1000))), (''exp'', JNum (IntNum (now div 1000 + TTL_clientAssertion))),
        (''jti'', JStr jti), (''iid'', JStr iid), (''key_id'', JStr (dk_keyId key))]"

section \<open>The challenge\<close>

datatype enrollment_error =
    EnrollmentDisabled | EnrollmentBindingMismatch | PlatformRejected | OperationConflict | OperationExpired
  | InvalidOrExpiredState | PkceVerifierUnavailable | StateMismatch | KeyUnavailable | DeploymentKeyChanged | SecretRefNotFound
  | TokenExchange "int option" | InvalidTokenResponse | GrantMissingKid | PlatformKeyUnresolved | Contract v2_error
  | InstallFailed | InvalidActivationToken | ActivationFailed "int option" | AttemptConflict

record enrollment_service =
  sv_systemId :: string
  sv_origin :: string
  sv_platformIssuer :: string
  sv_platformApiBaseUrl :: string
  sv_activation :: bool

record challenge_input =
  ci_operationId :: string
  ci_nonce :: string
  ci_platformIssuer :: string
  ci_installationId :: string
  ci_tenantId :: string
  ci_systemId :: string
  ci_origin :: string
  ci_callbackUrl :: string

text \<open>What the environment answers to one challenge: switch, verifier, key, random values, and the clock where it is read.\<close>

record challenge_answers =
  ca_enabled :: bool
  ca_verified :: bool
  ca_current :: "deployment_key option"
  ca_verifier :: string
  ca_state :: string
  ca_ref :: string
  ca_created :: int
  ca_read :: int
  ca_signed :: int
  ca_jti :: string

definition V2_CALLBACK_PATH :: string where
  "V2_CALLBACK_PATH = ''/ky/v2/enrollment/callback''"

definition V2_SCOPES :: "string list" where
  "V2_SCOPES = [''installation.activate'', ''directory.snapshot'', ''directory.changes'', ''installation.keys.rotate'']"

type_synonym enrollment_stores = "attempts \<times> secrets"

text \<open>Verifier, state, expiry and reference of a challenge.\<close>

type_synonym prepared = "string \<times> string \<times> int \<times> string"

definition attempt_conflicts :: "enrollment_attempt \<Rightarrow> challenge_input \<Rightarrow> deployment_key \<Rightarrow> bool" where
  "attempt_conflicts a i key \<longleftrightarrow>
     ea_installationId a \<noteq> ci_installationId i \<or> ea_tenantId a \<noteq> ci_tenantId i \<or> ea_systemId a \<noteq> ci_systemId i \<or>
     ea_keyId a \<noteq> dk_keyId key \<or> ea_status a \<noteq> AttemptPending"

definition reuse_secret :: "int \<Rightarrow> enrollment_attempt \<Rightarrow> secrets \<Rightarrow> enrollment_error + prepared" where
  "reuse_secret now a s =
     (case secret_get now (ea_verifierRef a) s of
        None \<Rightarrow> Inl OperationExpired
      | Some v \<Rightarrow> Inr (es_verifier v, es_state v, ea_expiresAt a, ea_verifierRef a))"

text \<open>The code up to the creation of the attempt. Other calls may run before \<open>challenge_issue\<close> goes on.\<close>

definition challenge_lookup ::
  "enrollment_service \<Rightarrow> challenge_answers \<Rightarrow> challenge_input \<Rightarrow> enrollment_stores \<Rightarrow>
     (enrollment_error + deployment_key \<times> prepared) \<times> enrollment_stores" where
  "challenge_lookup sv an i st =
     (case st of (att, sec) \<Rightarrow>
        if \<not> ca_enabled an then (Inl EnrollmentDisabled, st)
        else if ci_platformIssuer i \<noteq> sv_platformIssuer sv \<or> ci_systemId i \<noteq> sv_systemId sv \<or> ci_origin i \<noteq> sv_origin sv \<or>
          ci_callbackUrl i \<noteq> sv_origin sv @ V2_CALLBACK_PATH then (Inl EnrollmentBindingMismatch, st)
        else if \<not> ca_verified an then (Inl PlatformRejected, st)
        else case ca_current an of
          None \<Rightarrow> (Inl KeyUnavailable, st)
        | Some key \<Rightarrow>
            (case attempt_get (ci_operationId i) att of
               Some existing \<Rightarrow>
                 if attempt_conflicts existing i key then (Inl OperationConflict, st)
                 else (bind_res (reuse_secret (ca_read an) existing sec) (\<lambda>p. Inr (key, p)), st)
             | None \<Rightarrow>
                 let expiresAt = ca_created an + TTL_enrollmentRequest * 1000;
                     v = \<lparr>es_verifier = ca_verifier an, es_state = ca_state an, es_assertion = None, es_dpop = None\<rparr> in
                 (Inr (key, ca_verifier an, ca_state an, expiresAt, ca_ref an), att, secret_put (ca_ref an) v expiresAt sec)))"

definition request_claims :: "v2_env \<Rightarrow> challenge_input \<Rightarrow> deployment_key \<Rightarrow> string \<Rightarrow> int \<Rightarrow> int \<Rightarrow> string \<Rightarrow> claims" where
  "request_claims env i key verifier expiresAt signed jti =
     [(''iss'', JStr (dk_deploymentId key)), (''sub'', JStr (ci_installationId i)), (''aud'', JStr (ci_platformIssuer i)),
      (''iat'', JNum (IntNum (signed div 1000))), (''exp'', JNum (IntNum (expiresAt div 1000))), (''jti'', JStr jti),
      (''tid'', JStr (ci_tenantId i)), (''iid'', JStr (ci_installationId i)), (''sid'', JStr (ci_systemId i)),
      (''deployment_id'', JStr (dk_deploymentId key)), (''origin'', JStr (ci_origin i)), (''callback_uri'', JStr (ci_callbackUrl i)),
      (''nonce'', JStr (ci_nonce i)), (''code_challenge_method'', JStr ''S256''),
      (''code_challenge'', JStr (ve_sha256 env verifier)), (''key_id'', JStr (dk_keyId key)),
      (''public_jwk'', JObj (publicOnlyJwk (dk_publicJwk key))), (''scope'', JArr (map JStr V2_SCOPES))]"

definition enrollmentRequest :: "v2_env \<Rightarrow> sign_env \<Rightarrow> challenge_input \<Rightarrow> deployment_key \<Rightarrow> string \<Rightarrow> int \<Rightarrow> int \<Rightarrow> string \<Rightarrow> string" where
  "enrollmentRequest env se i key verifier expiresAt signed jti =
     signDeploymentJws se (dk_keyRef key)
       [(''alg'', JStr ''ES256''), (''typ'', JStr (V2_JWT_TYP TypEnrollmentRequest)), (''kid'', JStr (dk_keyId key))]
       (request_claims env i key verifier expiresAt signed jti)"

text \<open>The rest: a call that lost the race for the attempt gives up its own secret and takes the stored one.\<close>

definition challenge_issue ::
  "v2_env \<Rightarrow> sign_env \<Rightarrow> challenge_answers \<Rightarrow> challenge_input \<Rightarrow> deployment_key \<Rightarrow> prepared \<Rightarrow> enrollment_stores \<Rightarrow>
     (enrollment_error + string \<times> string) \<times> enrollment_stores" where
  "challenge_issue env se an i key p st =
     (case (p, st) of ((verifier, state, expiresAt, ref), (att, sec)) \<Rightarrow>
        case attempt_create
          \<lparr>ea_operationId = ci_operationId i, ea_installationId = ci_installationId i, ea_tenantId = ci_tenantId i,
           ea_systemId = ci_systemId i, ea_stateHash = se_sha256Hex se state, ea_verifierRef = ref, ea_keyId = dk_keyId key,
           ea_deploymentId = dk_deploymentId key, ea_publicJwk = publicOnlyJwk (dk_publicJwk key),
           ea_status = AttemptPending, ea_expiresAt = expiresAt\<rparr> att of
          (a, att') \<Rightarrow>
            let lost = ea_verifierRef a \<noteq> ref; sec' = (if lost then secret_delete ref sec else sec);
                taken = (if \<not> lost then Inr (verifier, state, expiresAt, ref)
                         else if attempt_conflicts a i key then Inl OperationConflict
                         else reuse_secret (ca_read an) a sec') in
            (bind_res taken (\<lambda>(verifier', state', expiresAt', ref').
               if ea_stateHash a \<noteq> se_sha256Hex se state' then Inl OperationConflict
               else Inr (enrollmentRequest env se i key verifier' expiresAt' (ca_signed an) (ca_jti an), state')),
             att', sec'))"

definition challenge ::
  "v2_env \<Rightarrow> sign_env \<Rightarrow> enrollment_service \<Rightarrow> challenge_answers \<Rightarrow> challenge_input \<Rightarrow> enrollment_stores \<Rightarrow>
     (enrollment_error + string \<times> string) \<times> enrollment_stores" where
  "challenge env se sv an i st =
     (case challenge_lookup sv an i st of
        (Inl e, st') \<Rightarrow> (Inl e, st')
      | (Inr (key, p), st') \<Rightarrow> challenge_issue env se an i key p st')"

section \<open>The callback\<close>

text \<open>A response with status and JSON body; no response and a body that is no JSON are \<open>None\<close>.\<close>

record http_answer =
  ha_status :: int
  ha_body :: "json option"

definition http_ok :: "int \<Rightarrow> bool" where
  "http_ok status \<longleftrightarrow> 200 \<le> status \<and> status \<le> 299"

record callback_answers =
  cb_begin :: int
  cb_read :: int
  cb_current :: "deployment_key option"
  cb_assertion_now :: int
  cb_assertion_jti :: string
  cb_proof_now :: int
  cb_proof_jti :: string
  cb_exchange :: "http_answer option"
  cb_resolve :: "string \<Rightarrow> string \<Rightarrow> json option"
  cb_grant_now :: int
  cb_updatedAt :: string
  cb_install :: "installation_binding \<Rightarrow> bool"
  cb_activation_now :: int
  cb_activation_jti :: string
  cb_activate :: "http_answer option"

definition token_endpoint :: "string \<Rightarrow> string" where
  "token_endpoint base = base @ ''/api/app-contract/v2/oauth/token''"

definition callback_begin :: "sign_env \<Rightarrow> int \<Rightarrow> string \<Rightarrow> attempts \<Rightarrow> enrollment_attempt option \<times> attempts" where
  "callback_begin se now state att =
     (case getByStateHash (se_sha256Hex se state) att of
        None \<Rightarrow> (None, att)
      | Some a \<Rightarrow> (case beginExchange (ea_operationId a) now att of (ok, att') \<Rightarrow> (if ok then Some a else None, att')))"

text \<open>The secret with the assertion and the proof of the exchange: those of an earlier try, or new ones that are stored.\<close>

definition exchange_proofs ::
  "v2_env \<Rightarrow> sign_env \<Rightarrow> enrollment_service \<Rightarrow> callback_answers \<Rightarrow> enrollment_attempt \<Rightarrow> deployment_key \<Rightarrow> exchange_secret \<Rightarrow>
     v2_error + exchange_secret" where
  "exchange_proofs env se sv an a key s =
     (let endpoint = token_endpoint (sv_platformApiBaseUrl sv);
          assertion = (case es_assertion s of
            Some t \<Rightarrow> t
          | None \<Rightarrow> clientAssertion se key (ea_installationId a) endpoint (cb_assertion_now an) (cb_assertion_jti an)) in
      bind_res (case es_dpop s of
                  Some t \<Rightarrow> Inr t
                | None \<Rightarrow> createDpopProof env se key ''POST'' endpoint None (cb_proof_now an) (cb_proof_jti an)) (\<lambda>dpop.
      Inr (s\<lparr>es_assertion := Some assertion, es_dpop := Some dpop\<rparr>)))"

definition callback_prepare ::
  "v2_env \<Rightarrow> sign_env \<Rightarrow> enrollment_service \<Rightarrow> callback_answers \<Rightarrow> string \<Rightarrow> enrollment_attempt \<Rightarrow> secrets \<Rightarrow>
     (enrollment_error + deployment_key) \<times> secrets" where
  "callback_prepare env se sv an stateHash a sec =
     (case secret_get (cb_read an) (ea_verifierRef a) sec of
        None \<Rightarrow> (Inl PkceVerifierUnavailable, sec)
      | Some s \<Rightarrow>
          if se_sha256Hex se (es_state s) \<noteq> stateHash then (Inl StateMismatch, sec)
          else case cb_current an of
            None \<Rightarrow> (Inl KeyUnavailable, sec)
          | Some key \<Rightarrow>
              if dk_keyId key \<noteq> ea_keyId a \<or> dk_deploymentId key \<noteq> ea_deploymentId a then (Inl DeploymentKeyChanged, sec)
              else case exchange_proofs env se sv an a key s of
                Inl e \<Rightarrow> (Inl (Contract e), sec)
              | Inr s' \<Rightarrow>
                  if truthy (es_assertion s) \<and> truthy (es_dpop s) then (Inr key, sec)
                  else (case secret_set (ea_verifierRef a) s' (ea_expiresAt a) sec of
                          (ok, sec') \<Rightarrow> (if ok then Inr key else Inl SecretRefNotFound, sec')))"

definition js_nullish :: "json \<Rightarrow> json \<Rightarrow> json" where
  "js_nullish v w = (if v = JUndefined \<or> v = JNull then w else v)"

text \<open>The properties of a body; \<open>null\<close> throws.\<close>

definition body_fields :: "json option \<Rightarrow> enrollment_error + claims" where
  "body_fields v = (case v of Some (JObj fs) \<Rightarrow> Inr fs | None \<Rightarrow> Inl InvalidTokenResponse | Some JNull \<Rightarrow> Inl InvalidTokenResponse | _ \<Rightarrow> Inr [])"

definition contract :: "v2_error + 'a \<Rightarrow> enrollment_error + 'a" where
  "contract r = (case r of Inl e \<Rightarrow> Inl (Contract e) | Inr x \<Rightarrow> Inr x)"

definition claim_int :: "claims \<Rightarrow> string \<Rightarrow> int" where
  "claim_int cs k = (case js_prop cs k of JNum (IntNum n) \<Rightarrow> n | _ \<Rightarrow> 0)"

definition granted :: "claims \<Rightarrow> granted_scopes" where
  "granted cs = (case js_prop cs ''scope'' of JArr vs \<Rightarrow> ScopeList (the (string_items vs)) | v \<Rightarrow> ScopeText (claim_str cs ''scope''))"

definition grant_binding :: "enrollment_service \<Rightarrow> string \<Rightarrow> claims \<Rightarrow> installation_binding" where
  "grant_binding sv updatedAt cs =
     \<lparr>ib_installationId = claim_str cs ''iid'', ib_tenantId = claim_str cs ''tid'', ib_systemId = claim_str cs ''sid'',
      ib_deploymentId = claim_str cs ''client_id'', ib_origin = claim_str cs ''origin'', ib_platformIssuer = claim_str cs ''iss'',
      ib_platformApiBaseUrl = sv_platformApiBaseUrl sv, ib_keyId = claim_str cs ''key_id'', ib_grantedScopes = granted cs,
      ib_registeredDigest = Some (claim_str cs ''registered_digest''), ib_generation = claim_int cs ''generation'',
      ib_state = BActivating, ib_updatedAt = updatedAt\<rparr>"

definition grant_options_of :: "enrollment_service \<Rightarrow> enrollment_attempt \<Rightarrow> json \<Rightarrow> string \<Rightarrow> int \<Rightarrow> grant_options" where
  "grant_options_of sv a jwk kid now =
     \<lparr>go_platformPublicJwk = jwk, go_platformKeyId = kid, go_platformIssuer = sv_platformIssuer sv,
      go_deploymentId = ea_deploymentId a, go_tenantId = ea_tenantId a, go_installationId = ea_installationId a,
      go_systemId = ea_systemId a, go_origin = sv_origin sv, go_keyId = ea_keyId a, go_now = now\<rparr>"

text \<open>The answer of the token endpoint: its body and the binding of the verified grant.\<close>

definition callback_grant ::
  "v2_env \<Rightarrow> enrollment_service \<Rightarrow> callback_answers \<Rightarrow> enrollment_attempt \<Rightarrow> enrollment_error + claims \<times> installation_binding" where
  "callback_grant env sv an a =
     (case cb_exchange an of
        None \<Rightarrow> Inl (TokenExchange None)
      | Some r \<Rightarrow>
          if \<not> http_ok (ha_status r) then Inl (TokenExchange (Some (ha_status r)))
          else bind_res (body_fields (ha_body r)) (\<lambda>body.
            case js_nullish (js_prop body ''installation_grant'') (js_prop body ''installationGrant'') of
              JStr installationGrant \<Rightarrow>
                bind_res (contract (decodeV2Jws env installationGrant)) (\<lambda>d.
                case js_prop (dj_header d) ''kid'' of
                  JStr kid \<Rightarrow>
                    (case cb_resolve an (sv_platformIssuer sv) kid of
                       None \<Rightarrow> Inl PlatformKeyUnresolved
                     | Some jwk \<Rightarrow>
                         bind_res (contract (verifyInstallationGrant env installationGrant
                           (grant_options_of sv a jwk kid (cb_grant_now an div 1000)))) (\<lambda>cs.
                         Inr (body, grant_binding sv (cb_updatedAt an) cs)))
                | _ \<Rightarrow> Inl GrantMissingKid)
            | _ \<Rightarrow> Inl InvalidTokenResponse))"

definition callback_activate ::
  "v2_env \<Rightarrow> sign_env \<Rightarrow> enrollment_service \<Rightarrow> callback_answers \<Rightarrow> enrollment_attempt \<Rightarrow> deployment_key \<Rightarrow> claims \<Rightarrow>
     enrollment_error + unit" where
  "callback_activate env se sv an a key body =
     (if \<not> sv_activation sv then Inr ()
      else case (js_prop body ''access_token'', js_prop body ''token_type'') of
        (JStr token, JStr tt) \<Rightarrow>
          if tt \<noteq> ''DPoP'' then Inl InvalidActivationToken
          else bind_res (contract (createDpopProof env se key ''POST''
              (sv_platformApiBaseUrl sv @ ''/api/app-contract/v2/installations/'' @ se_uri se (ea_installationId a) @ ''/activate'')
              (Some token) (cb_activation_now an) (cb_activation_jti an))) (\<lambda>_.
            case cb_activate an of
              None \<Rightarrow> Inl (ActivationFailed None)
            | Some r \<Rightarrow> if http_ok (ha_status r) then Inr () else Inl (ActivationFailed (Some (ha_status r))))
      | _ \<Rightarrow> Inl InvalidActivationToken)"

text \<open>Only a definitive refusal of the exchange ends the attempt; after any other error it can be tried again.\<close>

definition definitiveFailure :: "enrollment_error \<Rightarrow> bool" where
  "definitiveFailure e = (case e of TokenExchange (Some status) \<Rightarrow> 400 \<le> status \<and> status < 500 | _ \<Rightarrow> False)"

definition callback_fail :: "enrollment_error \<Rightarrow> enrollment_attempt \<Rightarrow> enrollment_stores \<Rightarrow> enrollment_stores" where
  "callback_fail e a st =
     (case st of (att, sec) \<Rightarrow>
        if definitiveFailure e
        then (snd (attempt_finish (ea_operationId a) AttemptFailed att), secret_delete (ea_verifierRef a) sec)
        else st)"

text \<open>The stores after the call, and the bindings whose installation was asked for.\<close>

type_synonym callback_result = "(enrollment_error + installation_binding) \<times> enrollment_stores \<times> installation_binding list"

definition callback_exchange ::
  "v2_env \<Rightarrow> sign_env \<Rightarrow> enrollment_service \<Rightarrow> callback_answers \<Rightarrow> enrollment_attempt \<Rightarrow> deployment_key \<Rightarrow> enrollment_stores \<Rightarrow>
     callback_result" where
  "callback_exchange env se sv an a key st =
     (case callback_grant env sv an a of
        Inl e \<Rightarrow> (Inl e, callback_fail e a st, [])
      | Inr (body, b) \<Rightarrow>
          if \<not> cb_install an b then (Inl InstallFailed, st, [b])
          else case callback_activate env se sv an a key body of
            Inl e \<Rightarrow> (Inl e, st, [b])
          | Inr _ \<Rightarrow>
              (case attempt_finish (ea_operationId a) AttemptConsumed (fst st) of
                 (ok, att') \<Rightarrow>
                   if ok then (Inr (b\<lparr>ib_state := BConnected\<rparr>), (att', secret_delete (ea_verifierRef a) (snd st)), [b])
                   else (Inl AttemptConflict, st, [b])))"

definition callback ::
  "v2_env \<Rightarrow> sign_env \<Rightarrow> enrollment_service \<Rightarrow> callback_answers \<Rightarrow> string \<Rightarrow> enrollment_stores \<Rightarrow> callback_result" where
  "callback env se sv an state st =
     (case callback_begin se (cb_begin an) state (fst st) of
        (None, att) \<Rightarrow> (Inl InvalidOrExpiredState, (att, snd st), [])
      | (Some a, att) \<Rightarrow>
          (case callback_prepare env se sv an (se_sha256Hex se state) a (snd st) of
             (Inl e, sec) \<Rightarrow> (Inl e, callback_fail e a (att, sec), [])
           | (Inr key, sec) \<Rightarrow> callback_exchange env se sv an a key (att, sec)))"

section \<open>Attempts are settled once\<close>

datatype attempt_op = OpCreate enrollment_attempt | OpBegin string int | OpFinish string bool

definition attempt_step :: "attempts \<Rightarrow> attempt_op \<Rightarrow> attempts" where
  "attempt_step s op =
     (case op of
        OpCreate a \<Rightarrow> snd (attempt_create a s)
      | OpBegin i now \<Rightarrow> snd (beginExchange i now s)
      | OpFinish i consumed \<Rightarrow> snd (attempt_finish i (if consumed then AttemptConsumed else AttemptFailed) s))"

definition attempts_ok :: "attempts \<Rightarrow> bool" where
  "attempts_ok s \<longleftrightarrow> distinct (map fst s) \<and> list_all (\<lambda>(k, a). k = ea_operationId a) s"

definition settled :: "attempts \<Rightarrow> string \<Rightarrow> attempt_status option" where
  "settled s i =
     (case map_of s i of
        None \<Rightarrow> None
      | Some a \<Rightarrow> if ea_status a \<in> {AttemptPending, AttemptExchanging} then None else Some (ea_status a))"

text \<open>What never changes in an attempt: everything but its status.\<close>

definition attempt_facts :: "attempts \<Rightarrow> string \<Rightarrow> enrollment_attempt option" where
  "attempt_facts s i = map_option (\<lambda>a. a\<lparr>ea_status := AttemptPending\<rparr>) (map_of s i)"

lemma map_of_update: "map_of (AList.update k v s) = (map_of s)(k \<mapsto> v)"
  by (rule ext) (simp add: update_conv)

lemma in_update: "(k', a') \<in> set (AList.update k a s) \<Longrightarrow> (k', a') = (k, a) \<or> (k', a') \<in> set s"
  by (induction s) (auto split: if_splits)

lemma ok_update:
  assumes "attempts_ok s" "ea_operationId a = k"
  shows "attempts_ok (AList.update k a s)"
  using assms by (auto simp: attempts_ok_def distinct_update list_all_iff dest!: in_update)

lemma ok_lookup: "attempts_ok s \<Longrightarrow> map_of s k = Some a \<Longrightarrow> ea_operationId a = k"
  by (auto simp: attempts_ok_def list_all_iff dest: map_of_SomeD)

lemma attempt_step_ok:
  assumes "attempts_ok s"
  shows "attempts_ok (attempt_step s op)"
  using assms ok_lookup [OF assms]
  by (auto simp: attempt_step_def attempt_create_def beginExchange_def attempt_finish_def
      split: attempt_op.splits option.splits if_splits intro: ok_update)

interpretation settled: write_once attempts_ok "\<lambda>_. True" settled attempt_step
proof
  fix s op k v assume "attempts_ok s" "settled s k = Some v"
  then show "settled (attempt_step s op) k = Some v"
    by (auto simp: settled_def attempt_step_def attempt_create_def beginExchange_def attempt_finish_def map_of_update
        split: attempt_op.splits option.splits if_splits)
qed (rule attempt_step_ok)

interpretation facts: write_once attempts_ok "\<lambda>_. True" attempt_facts attempt_step
proof
  fix s op k v assume "attempts_ok s" "attempt_facts s k = Some v"
  then show "attempt_facts (attempt_step s op) k = Some v"
    by (auto simp: attempt_facts_def attempt_step_def attempt_create_def beginExchange_def attempt_finish_def map_of_update
        split: attempt_op.splits option.splits if_splits)
qed (rule attempt_step_ok)

lemma all_admissible [simp]: "list_all (\<lambda>_. True) xs"
  by (simp add: list_all_iff)

lemma finish_settles:
  "attempt_finish i status s = (True, s') \<Longrightarrow> status \<in> {AttemptConsumed, AttemptFailed} \<Longrightarrow> settled s' i = Some status"
  by (auto simp: attempt_finish_def settled_def map_of_update split: option.splits if_splits)

lemma settled_refuses:
  "settled s i = Some v \<Longrightarrow> \<not> fst (attempt_finish i status s) \<and> \<not> fst (beginExchange i now s)"
  by (auto simp: settled_def attempt_finish_def beginExchange_def split: option.splits if_splits)

section \<open>Challenges\<close>

text \<open>A challenge that succeeds answers with the state of the stored attempt.\<close>

lemma issue_facts:
  assumes "challenge_issue env se an i key p st = (Inr (request, state), st')"
  shows "\<exists>a. attempt_facts (fst st') (ci_operationId i) = Some a \<and> ea_stateHash a = se_sha256Hex se state"
proof -
  obtain verifier st0 expiresAt ref att sec where s: "p = (verifier, st0, expiresAt, ref)" "st = (att, sec)"
    by (cases p, cases st) auto
  from assms show ?thesis
    by (auto simp: s challenge_issue_def attempt_create_def Let_def attempt_facts_def map_of_update bind_res_Inr_iff
        split: option.splits if_splits prod.splits)
qed

end
