(* ===== verification/V2_Workload.thy ===== *)
theory V2_Workload
  imports V2_Enrollment
begin

text \<open>
  The client of the platform API (\<^verbatim>\<open>packages/ky-app-server/src/workload/client.ts\<close>) with its cache of access tokens, and the
  rotation of the deployment key (\<^verbatim>\<open>identity/keyRotation.ts\<close>). The answers of the platform and of the key service, and the
  readings of the clock, are parameters. Times are milliseconds.
\<close>

section \<open>The client\<close>

record token_entry =
  te_token :: string
  te_expiresAt :: int

type_synonym token_cache = "string \<Rightarrow> token_entry option"

datatype workload_error =
    InstallationInactive | InsufficientScope | KeyGenerationMismatch | KeyServiceFailed | TokenRequest "int option"
  | TokenBody | TokenMissingKid | TokenKeyUnresolved | TokenRefused v2_error | RequestFailed

text \<open>The answers to one authorized request: of the token endpoint, if it is asked, and of the API.\<close>

record authorized_answers =
  aa_cache_now :: int
  aa_token_key :: "deployment_key option"
  aa_proof_now :: int
  aa_proof_jti :: string
  aa_token :: "http_answer option"
  aa_resolve :: "string \<Rightarrow> string \<Rightarrow> json option"
  aa_verify_now :: int
  aa_key :: "deployment_key option"
  aa_request_now :: int
  aa_request_jti :: string
  aa_response :: "(int \<times> string) option"

text \<open>The key of the cache; \<open>String\<close> of the generation is the parameter \<open>num\<close>.\<close>

definition cache_key :: "(int \<Rightarrow> string) \<Rightarrow> installation_binding \<Rightarrow> string \<Rightarrow> string" where
  "cache_key num b scope = ib_installationId b @ '':'' @ ib_keyId b @ '':'' @ scope @ '':'' @ num (ib_generation b)"

definition workload_options_of :: "installation_binding \<Rightarrow> string \<Rightarrow> json \<Rightarrow> string \<Rightarrow> int \<Rightarrow> workload_options" where
  "workload_options_of b scope jwk kid now =
     \<lparr>wo_platformPublicJwk = jwk, wo_platformKeyId = kid, wo_platformIssuer = ib_platformIssuer b, wo_tenantId = ib_tenantId b,
      wo_installationId = ib_installationId b, wo_systemId = ib_systemId b, wo_deploymentId = ib_deploymentId b,
      wo_keyId = ib_keyId b, wo_generation = ib_generation b, wo_requiredScope = Some scope, wo_installationStatus = None,
      wo_authorizationScheme = Some ''DPoP'', wo_now = now\<rparr>"

definition token_refused :: "v2_error + 'a \<Rightarrow> workload_error + 'a" where
  "token_refused r = (case r of Inl e \<Rightarrow> Inl (TokenRefused e) | Inr x \<Rightarrow> Inr x)"

text \<open>The answer of the token endpoint, verified for this binding.\<close>

definition token_answer ::
  "v2_env \<Rightarrow> installation_binding \<Rightarrow> string \<Rightarrow> authorized_answers \<Rightarrow> workload_error + token_entry" where
  "token_answer env b scope an =
     (case aa_token an of
        None \<Rightarrow> Inl (TokenRequest None)
      | Some r \<Rightarrow>
          if \<not> http_ok (ha_status r) then Inl (TokenRequest (Some (ha_status r)))
          else case body_fields (ha_body r) of
            Inl _ \<Rightarrow> Inl TokenBody
          | Inr body \<Rightarrow>
              (case js_nullish (js_prop body ''access_token'') (js_prop body ''accessToken'') of
                 JStr accessToken \<Rightarrow>
                   bind_res (token_refused (decodeV2Jws env accessToken)) (\<lambda>d.
                   case js_prop (dj_header d) ''kid'' of
                     JStr kid \<Rightarrow>
                       (case aa_resolve an (ib_platformIssuer b) kid of
                          None \<Rightarrow> Inl TokenKeyUnresolved
                        | Some jwk \<Rightarrow>
                            bind_res (token_refused (verifyWorkloadAccessToken env accessToken
                              (workload_options_of b scope jwk kid (aa_verify_now an div 1000)))) (\<lambda>cs.
                            Inr \<lparr>te_token = accessToken, te_expiresAt = claim_int cs ''exp'' * 1000\<rparr>))
                   | _ \<Rightarrow> Inl TokenMissingKid)
               | _ \<Rightarrow> Inl TokenBody))"

definition workload_token ::
  "v2_env \<Rightarrow> sign_env \<Rightarrow> (int \<Rightarrow> string) \<Rightarrow> installation_binding \<Rightarrow> string \<Rightarrow> bool \<Rightarrow> authorized_answers \<Rightarrow> token_cache \<Rightarrow>
     (workload_error + string) \<times> token_cache" where
  "workload_token env se num b scope force an cache =
     (if ib_state b \<noteq> BConnected \<and> ib_state b \<noteq> BActivating then (Inl InstallationInactive, cache)
      else if \<not> scopes_include (ib_grantedScopes b) scope then (Inl InsufficientScope, cache)
      else
        let key = cache_key num b scope;
            fetch_token =
              (case aa_token_key an of
                 None \<Rightarrow> (Inl KeyServiceFailed, cache)
               | Some current \<Rightarrow>
                   if dk_keyId current \<noteq> ib_keyId b \<or> dk_deploymentId current \<noteq> ib_deploymentId b
                   then (Inl KeyGenerationMismatch, cache)
                   else case createDpopProof env se current ''POST'' (token_endpoint (ib_platformApiBaseUrl b)) None (aa_proof_now an)
                     (aa_proof_jti an) of
                     Inl e \<Rightarrow> (Inl (TokenRefused e), cache)
                   | Inr _ \<Rightarrow>
                       (case token_answer env b scope an of
                          Inl e \<Rightarrow> (Inl e, cache)
                        | Inr entry \<Rightarrow> (Inr (te_token entry), cache(key \<mapsto> entry)))) in
        case cache key of
          Some cached \<Rightarrow>
            if \<not> force \<and> te_expiresAt cached - aa_cache_now an > 60000 then (Inr (te_token cached), cache) else fetch_token
        | None \<Rightarrow> fetch_token)"

text \<open>
  An authorized request: the token and the proof that are sent, with the status of the response and its error header.
\<close>

definition authorized ::
  "v2_env \<Rightarrow> sign_env \<Rightarrow> (int \<Rightarrow> string) \<Rightarrow> installation_binding \<Rightarrow> string \<Rightarrow> string \<Rightarrow> string \<Rightarrow> bool \<Rightarrow> authorized_answers \<Rightarrow>
     token_cache \<Rightarrow> (workload_error + (string \<times> string) \<times> int \<times> string) \<times> token_cache" where
  "authorized env se num b scope url meth force an cache =
     (case workload_token env se num b scope force an cache of
        (Inl e, cache') \<Rightarrow> (Inl e, cache')
      | (Inr token, cache') \<Rightarrow>
          (case aa_key an of
             None \<Rightarrow> (Inl KeyServiceFailed, cache')
           | Some current \<Rightarrow>
               if dk_keyId current \<noteq> ib_keyId b then (Inl KeyGenerationMismatch, cache')
               else case createDpopProof env se current meth url (Some token) (aa_request_now an) (aa_request_jti an) of
                 Inl e \<Rightarrow> (Inl (TokenRefused e), cache')
               | Inr proof \<Rightarrow>
                   (case aa_response an of
                      None \<Rightarrow> (Inl RequestFailed, cache')
                    | Some (status, reason) \<Rightarrow> (Inr ((token, proof), status, reason), cache'))))"

text \<open>\<open>request\<close> with the tokens and proofs of the requests that were answered, in their order.\<close>

definition workload_request ::
  "v2_env \<Rightarrow> sign_env \<Rightarrow> (int \<Rightarrow> string) \<Rightarrow> installation_binding \<Rightarrow> string \<Rightarrow> string \<Rightarrow> string \<Rightarrow> bool \<Rightarrow>
     authorized_answers \<Rightarrow> authorized_answers \<Rightarrow> token_cache \<Rightarrow> (workload_error + int) \<times> (string \<times> string) list \<times> token_cache" where
  "workload_request env se num b scope url meth mutation first second cache =
     (case authorized env se num b scope url meth False first cache of
        (Inl e, c1) \<Rightarrow> (Inl e, [], c1)
      | (Inr (sent, status, reason), c1) \<Rightarrow>
          if status \<noteq> 401 \<or> mutation then (Inr status, [sent], c1)
          else if \<not> substring ''invalid_dpop_proof'' reason \<and> \<not> substring ''invalid_token'' reason then (Inr status, [sent], c1)
          else (case authorized env se num b scope url meth True second c1 of
                  (Inl e, c2) \<Rightarrow> (Inl e, [sent], c2)
                | (Inr (sent', status', _), c2) \<Rightarrow> (Inr status', [sent, sent'], c2)))"

definition cache_clear :: "string \<Rightarrow> token_cache \<Rightarrow> token_cache" where
  "cache_clear iid cache = (\<lambda>k. if take (length iid + 1) k = iid @ '':'' then None else cache k)"

section \<open>Rotation of the deployment key\<close>

datatype rotation_error =
    RotationInactive | RotationKeyMismatch | RotationCandidateInvalid | RotationProofs | ObservationsFailed | KeyPrepare "workload_error + int"
  | KeyCommit "workload_error + int" | KeyStoreCommit | RuntimeInstall | KeyFinalize "workload_error + int"

text \<open>The key store, the binding of the installation, and the token cache.\<close>

record rotation_state =
  rs_key :: deployment_key
  rs_binding :: "installation_binding option"
  rs_cache :: token_cache

record rotation_answers =
  ra_next :: deployment_key
  ra_now :: int
  ra_jti :: string
  ra_prepare :: authorized_answers
  ra_observed :: bool
  ra_commit :: authorized_answers
  ra_committed :: bool
  ra_updatedAt :: string
  ra_install :: bool
  ra_activated :: bool
  ra_finalize :: authorized_answers

text \<open>
  One request of the rotation, a mutation that is not sent again: both reads of the key store give its current key. The
  bodies of the requests do not matter to the client.
\<close>

definition rotation_request ::
  "v2_env \<Rightarrow> sign_env \<Rightarrow> (int \<Rightarrow> string) \<Rightarrow> installation_binding \<Rightarrow> string \<Rightarrow> authorized_answers \<Rightarrow> rotation_state \<Rightarrow>
     (workload_error + int) \<times> token_cache" where
  "rotation_request env se num b url an s =
     (let an' = an\<lparr>aa_token_key := Some (rs_key s), aa_key := Some (rs_key s)\<rparr> in
      case workload_request env se num b ''installation.keys.rotate'' url ''POST'' True an' an' (rs_cache s) of
        (r, _, cache) \<Rightarrow> (r, cache))"

definition request_ok :: "workload_error + int \<Rightarrow> bool" where
  "request_ok r \<longleftrightarrow> (case r of Inl _ \<Rightarrow> False | Inr status \<Rightarrow> http_ok status)"

text \<open>The proofs of the next key: its client assertion and its DPoP proof for the token endpoint.\<close>

definition nextProofs :: "v2_env \<Rightarrow> sign_env \<Rightarrow> deployment_key \<Rightarrow> string \<Rightarrow> string \<Rightarrow> int \<Rightarrow> string \<Rightarrow> v2_error + string \<times> string" where
  "nextProofs env se key iid endpoint now jti =
     bind_res (createDpopProof env se key ''POST'' endpoint None now jti) (\<lambda>dpop.
     Inr (clientAssertion se key iid endpoint now jti, dpop))"

definition keys_url :: "sign_env \<Rightarrow> installation_binding \<Rightarrow> string \<Rightarrow> string" where
  "keys_url se b op =
     ib_platformApiBaseUrl b @ ''/api/app-contract/v2/installations/'' @ se_uri se (ib_installationId b) @ ''/keys/'' @ op"

text \<open>
  What follows the platform's commit: the key store switches first, then the runtime is installed. An installation that
  fails may have activated the binding before (\<open>ra_activated\<close>).
\<close>

definition rotate_switch ::
  "v2_env \<Rightarrow> sign_env \<Rightarrow> (int \<Rightarrow> string) \<Rightarrow> rotation_answers \<Rightarrow> installation_binding \<Rightarrow> rotation_state \<Rightarrow>
     (rotation_error + installation_binding) \<times> rotation_state" where
  "rotate_switch env se num an b s =
     (if \<not> ra_committed an then (Inl KeyStoreCommit, s)
      else
        let next = ra_next an; s1 = s\<lparr>rs_key := next\<rparr>;
            rotated = b\<lparr>ib_keyId := dk_keyId next, ib_generation := ib_generation b + 1, ib_updatedAt := ra_updatedAt an\<rparr> in
        let active = rotated\<lparr>ib_state := BConnected\<rparr>; s2 = s1\<lparr>rs_binding := Some active\<rparr> in
        if \<not> ra_install an then (Inl RuntimeInstall, if ra_activated an then s2 else s1)
        else
          case rotation_request env se num active (keys_url se b ''commit'') (ra_finalize an) s2 of
            (r, cache) \<Rightarrow>
              if request_ok r then (Inr active, s2\<lparr>rs_cache := cache_clear (ib_installationId b) cache\<rparr>)
              else (Inl (KeyFinalize r), s2\<lparr>rs_cache := cache\<rparr>))"

definition rotate_key ::
  "v2_env \<Rightarrow> sign_env \<Rightarrow> (int \<Rightarrow> string) \<Rightarrow> rotation_answers \<Rightarrow> rotation_state \<Rightarrow>
     (rotation_error + installation_binding) \<times> rotation_state" where
  "rotate_key env se num an s =
     (case rs_binding s of
        None \<Rightarrow> (Inl RotationInactive, s)
      | Some b \<Rightarrow>
          if ib_state b \<noteq> BConnected then (Inl RotationInactive, s)
          else if dk_keyId (rs_key s) \<noteq> ib_keyId b \<or> dk_deploymentId (rs_key s) \<noteq> ib_deploymentId b then (Inl RotationKeyMismatch, s)
          else if dk_deploymentId (ra_next an) \<noteq> dk_deploymentId (rs_key s) \<or> dk_keyId (ra_next an) = dk_keyId (rs_key s)
          then (Inl RotationCandidateInvalid, s)
          else case nextProofs env se (ra_next an) (ib_installationId b) (token_endpoint (ib_platformApiBaseUrl b)) (ra_now an) (ra_jti an) of
            Inl e \<Rightarrow> (Inl RotationProofs, s)
          | Inr _ \<Rightarrow>
              (case rotation_request env se num b (keys_url se b ''prepare'') (ra_prepare an) s of
                 (r, cache) \<Rightarrow>
                   let s1 = s\<lparr>rs_cache := cache\<rparr> in
                   if \<not> request_ok r then (Inl (KeyPrepare r), s1)
                   else if \<not> ra_observed an then (Inl ObservationsFailed, s1)
                   else (case rotation_request env se num b (keys_url se b ''commit'') (ra_commit an) s1 of
                           (r2, cache2) \<Rightarrow>
                             let s2 = s1\<lparr>rs_cache := cache2\<rparr> in
                             if \<not> request_ok r2 then (Inl (KeyCommit r2), s2)
                             else rotate_switch env se num an b s2)))"

section \<open>The cache holds verified tokens\<close>

text \<open>Identifiers and scope without a colon, which is what separates the parts of a cache key.\<close>

definition plain_ids :: "(int \<Rightarrow> string) \<Rightarrow> installation_binding \<Rightarrow> string \<Rightarrow> bool" where
  "plain_ids num b scope \<longleftrightarrow>
     CHR '':'' \<notin> set (ib_installationId b) \<and> CHR '':'' \<notin> set (ib_keyId b) \<and> CHR '':'' \<notin> set scope \<and>
     CHR '':'' \<notin> set (num (ib_generation b))"

lemma cache_key_join: "cache_key num b scope = join_with '':'' [ib_installationId b, ib_keyId b, scope, num (ib_generation b)]"
  by (simp add: cache_key_def)

lemma cache_key_unique:
  assumes "cache_key num b scope = cache_key num b' scope'" "plain_ids num b scope" "plain_ids num b' scope'" "inj num"
  shows "ib_installationId b' = ib_installationId b \<and> ib_keyId b' = ib_keyId b \<and> scope' = scope \<and> ib_generation b' = ib_generation b"
proof -
  have "split_on CHR '':'' (cache_key num b scope) = [ib_installationId b, ib_keyId b, scope, num (ib_generation b)]"
    if "plain_ids num b scope" for b scope
    using that unfolding cache_key_join by (subst split_join) (auto simp: plain_ids_def)
  from this [of b scope] this [of b' scope'] assms show ?thesis by (auto dest: injD)
qed

text \<open>A token that was verified for the installation, key, generation and scope of a binding, and when it ends.\<close>

definition verified_for :: "v2_env \<Rightarrow> installation_binding \<Rightarrow> string \<Rightarrow> string \<Rightarrow> int \<Rightarrow> bool" where
  "verified_for env b scope token ends \<longleftrightarrow>
     (\<exists>b' jwk kid now cs.
        ib_installationId b' = ib_installationId b \<and> ib_keyId b' = ib_keyId b \<and> ib_generation b' = ib_generation b \<and>
        verifyWorkloadAccessToken env token (workload_options_of b' scope jwk kid now) = Inr cs \<and> ends = claim_int cs ''exp'' * 1000)"

definition cache_sound :: "v2_env \<Rightarrow> (int \<Rightarrow> string) \<Rightarrow> token_cache \<Rightarrow> bool" where
  "cache_sound env num cache \<longleftrightarrow>
     (\<forall>k e. cache k = Some e \<longrightarrow>
        (\<exists>b scope. k = cache_key num b scope \<and> plain_ids num b scope \<and> verified_for env b scope (te_token e) (te_expiresAt e)))"

lemma verified_forI:
  "verifyWorkloadAccessToken env token (workload_options_of b scope jwk kid now) = Inr cs \<Longrightarrow>
     verified_for env b scope token (claim_int cs ''exp'' * 1000)"
  unfolding verified_for_def by blast

lemma cache_sound_empty: "cache_sound env num Map.empty"
  by (simp add: cache_sound_def)

lemma token_answer_verified:
  assumes "token_answer env b scope an = Inr e"
  shows "verified_for env b scope (te_token e) (te_expiresAt e)"
  using assms
  by (auto simp: token_answer_def bind_res_Inr_iff token_refused_def
      split: option.splits if_splits sum.splits json.splits intro: verified_forI)

lemma cached_verified:
  assumes "cache_sound env num cache" "cache (cache_key num b scope) = Some e" "plain_ids num b scope" "inj num"
  shows "verified_for env b scope (te_token e) (te_expiresAt e)"
proof -
  from assms(1,2) obtain b' scope' where k: "cache_key num b scope = cache_key num b' scope'" "plain_ids num b' scope'"
    "verified_for env b' scope' (te_token e) (te_expiresAt e)"
    unfolding cache_sound_def by blast
  with cache_key_unique [OF k(1) assms(3) k(2) assms(4)] show ?thesis by (simp add: verified_for_def)
qed

lemma workload_token_kept:
  assumes "cache_sound env num cache" "plain_ids num b scope" "workload_token env se num b scope force an cache = (r, cache')"
  shows "cache_sound env num cache'"
proof -
  have "cache' = cache \<or> (\<exists>e. token_answer env b scope an = Inr e \<and> cache' = cache(cache_key num b scope \<mapsto> e))"
    using assms(3) by (auto simp: workload_token_def Let_def split: if_splits option.splits sum.splits)
  then show ?thesis
  proof (elim disjE exE conjE)
    fix e assume e: "token_answer env b scope an = Inr e" "cache' = cache(cache_key num b scope \<mapsto> e)"
    show ?thesis unfolding cache_sound_def
    proof (intro allI impI)
      fix k e' assume k: "cache' k = Some e'"
      show "\<exists>b scope. k = cache_key num b scope \<and> plain_ids num b scope \<and> verified_for env b scope (te_token e') (te_expiresAt e')"
      proof (cases "k = cache_key num b scope")
        case True
        with k e assms(2) token_answer_verified [OF e(1)] show ?thesis by auto
      next
        case False
        with k e assms(1) show ?thesis by (simp add: cache_sound_def)
      qed
    qed
  qed (use assms(1) in simp)
qed

text \<open>A token that is used is fresh from the platform, or it has more than a minute left.\<close>

lemma workload_token_sound:
  assumes "cache_sound env num cache" "plain_ids num b scope" "inj num"
    and "workload_token env se num b scope force an cache = (Inr token, cache')"
  shows "(\<exists>ends. verified_for env b scope token ends \<and>
      (token_answer env b scope an = Inr \<lparr>te_token = token, te_expiresAt = ends\<rparr> \<or> \<not> force \<and> ends - aa_cache_now an > 60000)) \<and>
    scopes_include (ib_grantedScopes b) scope \<and> ib_state b \<in> {BConnected, BActivating}"
proof -
  have "(\<exists>e. token_answer env b scope an = Inr e \<and> te_token e = token) \<or>
      (\<exists>e. cache (cache_key num b scope) = Some e \<and> te_token e = token \<and> \<not> force \<and> te_expiresAt e - aa_cache_now an > 60000)"
    and "scopes_include (ib_grantedScopes b) scope \<and> ib_state b \<in> {BConnected, BActivating}"
    using assms(4) by (auto simp: workload_token_def Let_def split: if_splits option.splits sum.splits)
  moreover have "\<exists>ends. verified_for env b scope token ends \<and>
      token_answer env b scope an = Inr \<lparr>te_token = token, te_expiresAt = ends\<rparr>"
    if "token_answer env b scope an = Inr e" "te_token e = token" for e
    using token_answer_verified [OF that(1)] that by (intro exI [of _ "te_expiresAt e"]) auto
  moreover have "verified_for env b scope (te_token e) (te_expiresAt e)" if "cache (cache_key num b scope) = Some e" for e
    by (rule cached_verified [OF assms(1) that assms(2,3)])
  ultimately show ?thesis by blast
qed

text \<open>A rotation that stops before the key store switches changes neither the key nor the binding.\<close>

definition switched :: "rotation_answers \<Rightarrow> rotation_state \<Rightarrow> rotation_state \<Rightarrow> rotation_error + installation_binding \<Rightarrow> bool" where
  "switched an s s' r \<longleftrightarrow>
     rs_key s' = ra_next an \<and>
     (\<exists>b b'. rs_binding s = Some b \<and> rs_binding s' = Some b' \<and> ib_keyId b' = dk_keyId (ra_next an) \<and>
        ib_generation b' = ib_generation b + 1 \<and> ib_state b' = BConnected \<and> (\<forall>b''. r = Inr b'' \<longrightarrow> b'' = b'))"

lemma rotate_switch_outcomes:
  assumes "rotate_switch env se num an b s = (r, s')" "rs_binding s = Some b"
  shows "rs_key s' = rs_key s \<and> rs_binding s' = rs_binding s \<and> (\<forall>b. r \<noteq> Inr b) \<or> switched an s s' r \<or>
    rs_key s' = ra_next an \<and> rs_binding s' = rs_binding s \<and> r = Inl RuntimeInstall"
  using assms by (auto simp: rotate_switch_def switched_def Let_def split: if_splits prod.splits)

lemma rotate_before_switch:
  assumes "rotate_key env se num an s = (r, s')"
  shows "rs_key s' = rs_key s \<and> rs_binding s' = rs_binding s \<and> (\<forall>b. r \<noteq> Inr b) \<or>
    (\<exists>b cache. rs_binding s = Some b \<and> rotate_switch env se num an b (s\<lparr>rs_cache := cache\<rparr>) = (r, s'))"
  using assms unfolding rotate_key_def Let_def
  by (auto split: option.split_asm if_split_asm sum.split_asm prod.split_asm)

lemma rotate_outcomes:
  assumes "rotate_key env se num an s = (r, s')"
  shows "rs_key s' = rs_key s \<and> rs_binding s' = rs_binding s \<and> (\<forall>b. r \<noteq> Inr b) \<or> switched an s s' r \<or>
    rs_key s' = ra_next an \<and> rs_binding s' = rs_binding s \<and> r = Inl RuntimeInstall"
  using rotate_before_switch [OF assms]
proof (elim disjE exE conjE)
  fix b cache assume b: "rs_binding s = Some b" "rotate_switch env se num an b (s\<lparr>rs_cache := cache\<rparr>) = (r, s')"
  have "switched an (s\<lparr>rs_cache := cache\<rparr>) s' r = switched an s s' r" by (simp add: switched_def)
  with rotate_switch_outcomes [OF b(2)] b(1) show ?thesis by simp
qed simp

text \<open>
  In the last case the key store and the binding are out of step, and every later rotation and every request of the
  client that needs a token fails, until the runtime is installed by someone else.
\<close>

lemma failed_install_blocks:
  assumes "rs_binding s = Some b" "ib_state b = BConnected" "dk_keyId (rs_key s) \<noteq> ib_keyId b"
  shows "rotate_key env se num an s = (Inl RotationKeyMismatch, s) \<and>
    (\<forall>scope url meth force an cache. aa_key an = Some (rs_key s) \<longrightarrow> aa_token_key an = Some (rs_key s) \<longrightarrow>
       (\<exists>e cache'. authorized env se num b scope url meth force an cache = (Inl e, cache')))"
  using assms by (auto simp: rotate_key_def authorized_def Let_def split: sum.splits prod.splits option.splits)

text \<open>A grant whose scope is a text passes the verifier; the client then finds every substring of it granted.\<close>

lemma text_scope_substring:
  "parseScope (JStr ''installation.keys.rotate'') = Inr [''installation.keys.rotate''] \<and>
   scopes_include (granted [(''scope'', JStr ''installation.keys.rotate'')]) ''keys''"
  by code_simp

end
