(* ===== verification/V2_Claims.thy ===== *)
theory V2_Claims
  imports V2_Workload
begin

text \<open>
  The properties of the second protocol version. The names of hypotheses about the platform's libraries are
  \<open>encodes\<close> (\<open>JSON.stringify\<close> and base64url are read back), \<open>signs\<close> (ES256 signatures verify) and \<open>usable_key\<close> (the public
  key of the deployment is a P-256 point whose thumbprint is the key id).
\<close>

section \<open>What is signed is read back\<close>

definition encodes :: "v2_env \<Rightarrow> sign_env \<Rightarrow> claims \<Rightarrow> bool" where
  "encodes env se cs \<longleftrightarrow>
     segment_ok (se_encode se cs) \<and>
     parseJsonWithoutDuplicateKeys (ve_parse env) (ve_text env (se_encode se cs)) = Inr (JObj cs)"

definition signs :: "v2_env \<Rightarrow> sign_env \<Rightarrow> deployment_key \<Rightarrow> bool" where
  "signs env se key \<longleftrightarrow>
     (\<forall>input. segment_ok (se_sign se (dk_keyRef key) input) \<and>
        ve_verify env (publicOnlyJwk (dk_publicJwk key)) input (se_sign se (dk_keyRef key) input))"

definition usable_key :: "v2_env \<Rightarrow> deployment_key \<Rightarrow> bool" where
  "usable_key env key \<longleftrightarrow>
     coordinate_ok (js_prop (dk_publicJwk key) ''x'') \<and> coordinate_ok (js_prop (dk_publicJwk key) ''y'') \<and>
     dk_keyId key = ve_sha256 env (thumbprint_text (publicOnlyJwk (dk_publicJwk key)))"

lemma segment_no_dot: "segment_ok s \<Longrightarrow> CHR ''.'' \<notin> set s"
proof -
  have "\<not> is_base64url CHR ''.''" by code_simp
  then show "segment_ok s \<Longrightarrow> CHR ''.'' \<notin> set s" by (auto simp: segment_ok_def list_all_iff)
qed

lemma decode_of_signed:
  assumes "encodes env se h" "encodes env se p" "segment_ok (se_sign se ref (se_encode se h @ ''.'' @ se_encode se p))"
  shows "decodeV2Jws env (signDeploymentJws se ref h p) =
    Inr \<lparr>dj_header = h, dj_payload = p, dj_signingInput = se_encode se h @ ''.'' @ se_encode se p,
         dj_signature = se_sign se ref (se_encode se h @ ''.'' @ se_encode se p)\<rparr>"
proof -
  let ?s = "se_sign se ref (se_encode se h @ ''.'' @ se_encode se p)"
  have ok: "segment_ok (se_encode se h)" "segment_ok (se_encode se p)" using assms by (simp_all add: encodes_def)
  have "split_on CHR ''.'' (se_encode se h @ CHR ''.'' # se_encode se p @ CHR ''.'' # ?s) = [se_encode se h, se_encode se p, ?s]"
    using segment_no_dot [OF assms(3)] by (simp add: split_on_append split_on_single segment_no_dot ok)
  then show ?thesis
    using assms ok by (simp add: decodeV2Jws_def signDeploymentJws_def Let_def encodes_def decodeObject_def)
qed

lemma public_only_valid:
  assumes "usable_key env key"
  shows "validateP256PublicJwk (JObj (publicOnlyJwk (dk_publicJwk key))) = Inr (publicOnlyJwk (dk_publicJwk key))"
  using assms by (simp add: usable_key_def validateP256PublicJwk_def publicOnlyJwk_def js_prop_def)

lemma thumbprint_key:
  assumes "usable_key env key"
  shows "p256JwkThumbprint env (JObj (publicOnlyJwk (dk_publicJwk key))) = Inr (dk_keyId key)"
  using assms by (simp add: p256JwkThumbprint_def public_only_valid) (simp add: usable_key_def)

lemma signs_parts:
  assumes "signs env se key"
  shows "segment_ok (se_sign se (dk_keyRef key) input)"
    "ve_verify env (publicOnlyJwk (dk_publicJwk key)) input (se_sign se (dk_keyRef key) input)"
  using assms by (simp_all add: signs_def)

lemma upper_upper: "upper_char (upper_char c) = upper_char c"
proof -
  have "of_char c < (256::nat)" by simp
  then show ?thesis by (auto simp: upper_char_def Let_def)
qed

lemma token_time_ok:
  assumes "js_prop cs ''iat'' = JNum (IntNum iat)" "js_prop cs ''exp'' = JNum (IntNum ex)" "js_prop cs ''nbf'' = JUndefined"
    and "0 < iat" "iat < ex" "ex \<le> iat + ttl" "iat - 10 \<le> now" "now < ex + 10" "ex \<le> 2 ^ 53 - 1"
  shows "assertTokenTime cs now ttl = Inr ()"
  using assms by (simp add: assertTokenTime_def assertIntegerClaim_def safe_integer_def TTL_clockTolerance_def)

section \<open>Requests, assertions and proofs are accepted\<close>

definition request_options :: "challenge_input \<Rightarrow> deployment_key \<Rightarrow> int \<Rightarrow> enrollment_options" where
  "request_options i key now =
     \<lparr>eo_platformIssuer = ci_platformIssuer i, eo_tenantId = ci_tenantId i, eo_installationId = ci_installationId i,
      eo_systemId = ci_systemId i, eo_deploymentId = dk_deploymentId key, eo_origin = ci_origin i,
      eo_callbackUrl = ci_callbackUrl i, eo_nonce = ci_nonce i, eo_now = now\<rparr>"

definition kid_header :: "v2_typ \<Rightarrow> deployment_key \<Rightarrow> claims" where
  "kid_header t key = [(''alg'', JStr ''ES256''), (''typ'', JStr (V2_JWT_TYP t)), (''kid'', JStr (dk_keyId key))]"

lemma kid_header_ok: "assertJoseHeader_kid (kid_header t key) t = Inr (dk_keyId key)"
  by (cases t) (simp_all add: assertJoseHeader_kid_def header_base_def kid_header_def js_prop_def)

lemma scopes_parse: "parseScope (JArr (map JStr V2_SCOPES)) = Inr V2_SCOPES"
  by code_simp

lemma request_exact: "assertExactClaims (request_claims env i key verifier expiresAt signed jti) ENROLLMENT_CLAIMS [] = Inr ()"
  by (simp add: assertExactClaims_def ENROLLMENT_CLAIMS_def request_claims_def js_prop_def)

lemma request_props:
  assumes cs: "cs = request_claims env i key verifier expiresAt signed jti"
  shows "js_prop cs ''iss'' = JStr (dk_deploymentId key)" "js_prop cs ''sub'' = JStr (ci_installationId i)"
    "js_prop cs ''aud'' = JStr (ci_platformIssuer i)" "js_prop cs ''iat'' = JNum (IntNum (signed div 1000))"
    "js_prop cs ''exp'' = JNum (IntNum (expiresAt div 1000))" "js_prop cs ''jti'' = JStr jti"
    "js_prop cs ''tid'' = JStr (ci_tenantId i)" "js_prop cs ''iid'' = JStr (ci_installationId i)"
    "js_prop cs ''sid'' = JStr (ci_systemId i)" "js_prop cs ''deployment_id'' = JStr (dk_deploymentId key)"
    "js_prop cs ''origin'' = JStr (ci_origin i)" "js_prop cs ''callback_uri'' = JStr (ci_callbackUrl i)"
    "js_prop cs ''nonce'' = JStr (ci_nonce i)" "js_prop cs ''code_challenge_method'' = JStr ''S256''"
    "js_prop cs ''code_challenge'' = JStr (ve_sha256 env verifier)" "js_prop cs ''key_id'' = JStr (dk_keyId key)"
    "js_prop cs ''public_jwk'' = JObj (publicOnlyJwk (dk_publicJwk key))" "js_prop cs ''scope'' = JArr (map JStr V2_SCOPES)"
    "js_prop cs ''nbf'' = JUndefined"
  by (simp_all add: cs request_claims_def js_prop_def)

definition request_in_time :: "int \<Rightarrow> int \<Rightarrow> int \<Rightarrow> bool" where
  "request_in_time signed expiresAt now \<longleftrightarrow>
     0 < signed div 1000 \<and> signed div 1000 < expiresAt div 1000 \<and> expiresAt div 1000 \<le> signed div 1000 + TTL_enrollmentRequest \<and>
     expiresAt div 1000 \<le> 2 ^ 53 - 1 \<and> signed div 1000 - 10 \<le> now \<and> now < expiresAt div 1000 + 10"

lemma claim_str_prop: "js_prop cs k = JStr s \<Longrightarrow> claim_str cs k = s"
  by (simp add: claim_str_def)

text \<open>C35. A request that a challenge signs is accepted by the platform's verifier, with its claims, its key id and the
  replay key, when it is checked for the same input in its time.
\<close>

theorem enrollment_roundtrip:
  assumes "usable_key env key" "signs env se key" "encodes env se (kid_header TypEnrollmentRequest key)"
    and "encodes env se (request_claims env i key verifier expiresAt signed jti)"
    and "is_base64url_43 (ve_sha256 env verifier)"
    and "[] \<notin> {dk_deploymentId key, ci_installationId i, ci_platformIssuer i, ci_nonce i, jti}"
    and "request_in_time signed expiresAt now"
  shows "verifyEnrollmentRequest env (enrollmentRequest env se i key verifier expiresAt signed jti) (request_options i key now) =
    Inr (request_claims env i key verifier expiresAt signed jti, dk_keyId key, dk_keyId key @ '':'' @ jti)"
proof -
  let ?cs = "request_claims env i key verifier expiresAt signed jti"
  have request: "enrollmentRequest env se i key verifier expiresAt signed jti =
      signDeploymentJws se (dk_keyRef key) (kid_header TypEnrollmentRequest key) ?cs"
    by (simp add: enrollmentRequest_def kid_header_def)
  note decode = decode_of_signed [OF assms(3,4) signs_parts(1) [OF assms(2)]]
  note props = request_props [OF refl, of env i key verifier expiresAt signed jti]
  have time: "assertTokenTime ?cs now TTL_enrollmentRequest = Inr ()"
    using assms(7) by (intro token_time_ok [OF props(4,5,19)]) (simp_all add: request_in_time_def)
  have "dk_deploymentId key \<noteq> []" "ci_installationId i \<noteq> []" "ci_platformIssuer i \<noteq> []" "ci_nonce i \<noteq> []" "jti \<noteq> []"
    using assms(6) by auto
  then show ?thesis
    using assms(5)
    by (simp add: verifyEnrollmentRequest_def request decode kid_header_ok request_exact
        public_only_valid [OF assms(1)] thumbprint_key [OF assms(1)] verifyV2Signature_def signs_parts(2) [OF assms(2)]
        time request_options_def assertStringClaim_def props assertEqual_def isPkceChallenge_def scopes_parse replay_key_def
        claim_str_prop)
qed

definition assertion_options_of :: "deployment_key \<Rightarrow> string \<Rightarrow> string \<Rightarrow> int \<Rightarrow> assertion_options" where
  "assertion_options_of key iid endpoint now =
     \<lparr>co_deploymentPublicJwk = JObj (publicOnlyJwk (dk_publicJwk key)), co_deploymentId = dk_deploymentId key,
      co_installationId = iid, co_keyId = dk_keyId key, co_tokenEndpoint = endpoint, co_now = now\<rparr>"

definition assertion_claims :: "deployment_key \<Rightarrow> string \<Rightarrow> string \<Rightarrow> int \<Rightarrow> string \<Rightarrow> claims" where
  "assertion_claims key iid audience now jti =
     [(''iss'', JStr (dk_deploymentId key)), (''sub'', JStr (dk_deploymentId key)), (''aud'', JStr audience),
      (''iat'', JNum (IntNum (now div 1000))), (''exp'', JNum (IntNum (now div 1000 + TTL_clientAssertion))),
      (''jti'', JStr jti), (''iid'', JStr iid), (''key_id'', JStr (dk_keyId key))]"

lemma assertion_props:
  assumes "cs = assertion_claims key iid audience now jti"
  shows "js_prop cs ''iss'' = JStr (dk_deploymentId key)" "js_prop cs ''sub'' = JStr (dk_deploymentId key)"
    "js_prop cs ''aud'' = JStr audience" "js_prop cs ''iat'' = JNum (IntNum (now div 1000))"
    "js_prop cs ''exp'' = JNum (IntNum (now div 1000 + TTL_clientAssertion))" "js_prop cs ''jti'' = JStr jti"
    "js_prop cs ''iid'' = JStr iid" "js_prop cs ''key_id'' = JStr (dk_keyId key)" "js_prop cs ''nbf'' = JUndefined"
  by (simp_all add: assms assertion_claims_def js_prop_def)

text \<open>
  The client assertion of a deployment is accepted at the token endpoint that it names, for the installation that it
  names, within its minute and the tolerance of the clocks.
\<close>

lemma assertion_roundtrip:
  assumes "usable_key env key" "signs env se key" "encodes env se (kid_header TypClientAssertion key)"
    and "encodes env se (assertion_claims key iid endpoint now jti)" "jti \<noteq> []"
    and "0 < now div 1000" "now div 1000 + 60 \<le> 2 ^ 53 - 1" "now div 1000 - 10 \<le> at_verifier" "at_verifier < now div 1000 + 70"
  shows "verifyClientAssertion env (clientAssertion se key iid endpoint now jti) (assertion_options_of key iid endpoint at_verifier) =
    Inr (assertion_claims key iid endpoint now jti, dk_keyId key @ '':'' @ jti)"
proof -
  let ?cs = "assertion_claims key iid endpoint now jti"
  have assertion: "clientAssertion se key iid endpoint now jti = signDeploymentJws se (dk_keyRef key) (kid_header TypClientAssertion key) ?cs"
    by (simp add: clientAssertion_def kid_header_def assertion_claims_def)
  note decode = decode_of_signed [OF assms(3,4) signs_parts(1) [OF assms(2)]]
  note props = assertion_props [OF refl, of key iid endpoint now jti]
  have time: "assertTokenTime ?cs at_verifier TTL_clientAssertion = Inr ()"
    using assms(6-9) by (intro token_time_ok [OF props(4,5,9)]) (simp_all add: TTL_clientAssertion_def)
  have exact: "assertExactClaims ?cs CLIENT_ASSERTION_CLAIMS [] = Inr ()"
    by (simp add: assertExactClaims_def CLIENT_ASSERTION_CLAIMS_def assertion_claims_def js_prop_def)
  show ?thesis
    using assms(5)
    by (simp add: verifyClientAssertion_def assertion decode kid_header_ok exact assertion_options_of_def
        public_only_valid [OF assms(1)] verifyV2Signature_def signs_parts(2) [OF assms(2)] time assertStringClaim_def props
        assertEqual_def replay_key_def claim_str_prop)
qed

definition proof_claims :: "v2_env \<Rightarrow> string \<Rightarrow> string \<Rightarrow> string option \<Rightarrow> int \<Rightarrow> string \<Rightarrow> claims" where
  "proof_claims env meth htu accessToken now jti =
     [(''htm'', JStr (map upper_char meth)), (''htu'', JStr htu), (''iat'', JNum (IntNum (now div 1000))), (''jti'', JStr jti)] @
     (if truthy accessToken then [(''ath'', JStr (accessTokenHash env (the accessToken)))] else [])"

definition jwk_header :: "deployment_key \<Rightarrow> claims" where
  "jwk_header key =
     [(''alg'', JStr ''ES256''), (''typ'', JStr (V2_JWT_TYP TypDpop)), (''jwk'', JObj (publicOnlyJwk (dk_publicJwk key)))]"

lemma jwk_header_ok: "usable_key env key \<Longrightarrow> assertJoseHeader_jwk (jwk_header key) TypDpop = Inr (publicOnlyJwk (dk_publicJwk key))"
  using public_only_valid [of env key] by (simp add: assertJoseHeader_jwk_def header_base_def jwk_header_def js_prop_def)

lemma proof_props:
  assumes "cs = proof_claims env meth htu accessToken now jti"
  shows "js_prop cs ''htm'' = JStr (map upper_char meth)" "js_prop cs ''htu'' = JStr htu"
    "js_prop cs ''iat'' = JNum (IntNum (now div 1000))" "js_prop cs ''jti'' = JStr jti"
    "js_prop cs ''ath'' = (if truthy accessToken then JStr (accessTokenHash env (the accessToken)) else JUndefined)"
  by (simp_all add: assms proof_claims_def js_prop_def)

definition proof_options :: "deployment_key \<Rightarrow> string \<Rightarrow> string \<Rightarrow> string option \<Rightarrow> int \<Rightarrow> dpop_options" where
  "proof_options key meth url accessToken now =
     \<lparr>do_method = meth, do_requestUrl = url, do_now = now, do_accessToken = accessToken, do_expectedKeyId = Some (dk_keyId key),
      do_nonce = None\<rparr>"

text \<open>
  A proof that the deployment makes for a method, a URL and a token is accepted for them within a minute, for the key
  of the deployment. The URL without query and fragment is in normal form, and the hash of a token is not empty.
\<close>

lemma proof_roundtrip:
  assumes "createDpopProof env se key meth url accessToken now jti = Inr compact"
    and "normalizeDpopHtu env url = Inr htu" "normalizeDpopHtu env htu = Inr htu" "CHR ''?'' \<notin> set htu" "CHR ''#'' \<notin> set htu"
    and "usable_key env key" "signs env se key" "encodes env se (jwk_header key)"
    and "encodes env se (proof_claims env meth htu accessToken now jti)"
    and "[] \<notin> {meth, htu, jti}" "accessToken \<noteq> Some []" "\<And>token. accessTokenHash env token \<noteq> []"
    and "0 < now div 1000" "now div 1000 \<le> 2 ^ 53 - 1" "\<bar>at_verifier - now div 1000\<bar> \<le> 60"
  shows "verifyDpopProof env compact (proof_options key meth url accessToken at_verifier) =
    Inr (proof_claims env meth htu accessToken now jti, dk_keyId key, dk_keyId key @ '':'' @ jti)"
proof -
  let ?cs = "proof_claims env meth htu accessToken now jti"
  have proof_jws: "compact = signDeploymentJws se (dk_keyRef key) (jwk_header key) ?cs"
    using assms(1,2) by (simp add: createDpopProof_def jwk_header_def proof_claims_def)
  note decode = decode_of_signed [OF assms(8,9) signs_parts(1) [OF assms(7)]]
  note props = proof_props [OF refl, of env meth htu accessToken now jti]
  have exact: "assertExactClaims ?cs [''htm'', ''htu'', ''iat'', ''jti''] [''ath'', ''nonce''] = Inr ()"
    by (simp add: assertExactClaims_def proof_claims_def js_prop_def)
  have ath: "(case accessToken of Some token \<Rightarrow> ath_matches env (js_prop ?cs ''ath'') token
      | None \<Rightarrow> check (js_prop ?cs ''ath'' = JUndefined) V2InvalidDpopProof) = Inr ()"
  proof (cases accessToken)
    case (Some token)
    then have "js_prop ?cs ''ath'' = JStr (accessTokenHash env token)" using assms(11) props(5) by simp
    with Some assms(12) show ?thesis by (simp add: ath_matches_def js_truthy_def)
  next
    case None
    then have "js_prop ?cs ''ath'' = JUndefined" using props(5) by simp
    with None show ?thesis by (simp add: check_def)
  qed
  have "meth \<noteq> []" "htu \<noteq> []" "jti \<noteq> []" using assms(10) by auto
  then show ?thesis
    using assms(3-5,13-15)
    by (simp add: verifyDpopProof_def proof_jws decode jwk_header_ok [OF assms(6)] verifyV2Signature_def signs_parts(2) [OF assms(7)]
        exact proof_options_def assertStringClaim_def assertIntegerClaim_def safe_integer_def props(1-4) assms(2) TTL_dpopProof_def
        thumbprint_key [OF assms(6)] ath replay_key_def claim_str_prop upper_upper o_def abs_minus_commute)
qed

section \<open>Tokens\<close>

text \<open>C33. A token is accepted by the verifier of one purpose at most, whatever those who check it expect: the six kinds of
  tokens cannot stand for each other.
\<close>

theorem token_purposes_exclusive:
  assumes "accepts env compact t" and "accepts env compact t'"
  shows "t = t'"
  using accepts_typ [OF assms(1)] accepts_typ [OF assms(2)] by (rule has_typ_unique)

text \<open>C14. When a resource server accepts a workload token and a proof for it, the proof was signed over this token, method and
  URL within the last minute by the very key that the platform bound the token to, and the token was signed by the
  platform for this tenant, installation and deployment, for the current generation, within its window, with the scope
  that the request needs.
\<close>

theorem proof_of_possession:
  assumes "verifyWorkloadAccessToken env token wo = Inr cs" "verifyDpopProof env proof dpo = Inr (pc, keyId, rk)"
    and "do_accessToken dpo = Some token" "do_expectedKeyId dpo = Some (wo_keyId wo)" "wo_keyId wo \<noteq> []"
  shows "\<exists>pjwk jwk scopes iat.
    validateP256PublicJwk (wo_platformPublicJwk wo) = Inr pjwk \<and> signed_by env token pjwk cs \<and>
    in_window cs (wo_now wo) TTL_workloadAccessToken \<and>
    js_prop cs ''tid'' = JStr (wo_tenantId wo) \<and> js_prop cs ''iid'' = JStr (wo_installationId wo) \<and>
    js_prop cs ''client_id'' = JStr (wo_deploymentId wo) \<and> js_prop cs ''generation'' = JNum (IntNum (wo_generation wo)) \<and>
    parseScope (js_prop cs ''scope'') = Inr scopes \<and> (\<not> truthy (wo_requiredScope wo) \<or> the (wo_requiredScope wo) \<in> set scopes) \<and>
    cnf_matches (js_prop cs ''cnf'') keyId \<and> signed_by env proof jwk pc \<and> ve_sha256 env (thumbprint_text jwk) = keyId \<and>
    hash_claim env (js_prop pc ''ath'') (accessTokenHash env token) \<and>
    js_prop pc ''htm'' = JStr (map upper_char (do_method dpo)) \<and>
    js_prop pc ''iat'' = JNum (IntNum iat) \<and> \<bar>do_now dpo - iat\<bar> \<le> TTL_dpopProof"
proof (rule workload_inverts [OF assms(1)], rule dpop_inverts [OF assms(2)], goal_cases)
  case (1 pjwk scopes jwk iat htm htu bare)
  then show ?case using assms(3-5) by (intro exI [of _ pjwk] exI [of _ jwk] exI [of _ scopes] exI [of _ iat]) simp
qed

section \<open>Installations\<close>



section \<open>Requests to the platform\<close>

lemma authorized_sound:
  assumes "cache_sound env num cache" "plain_ids num b scope" "inj num"
    and "authorized env se num b scope url meth force an cache = (r, cache')"
  shows "cache_sound env num cache' \<and>
    (\<forall>token dp status reason. r = Inr ((token, dp), status, reason) \<longrightarrow>
       (\<exists>ends key. verified_for env b scope token ends \<and> dk_keyId key = ib_keyId b \<and>
          createDpopProof env se key meth url (Some token) (aa_request_now an) (aa_request_jti an) = Inr dp))"
proof -
  obtain t c where t: "workload_token env se num b scope force an cache = (t, c)" by fastforce
  have "cache' = c"
    using assms(4) t by (auto simp: authorized_def split: sum.splits option.splits if_splits prod.splits)
  moreover have "cache_sound env num c" by (rule workload_token_kept [OF assms(1,2) t])
  moreover have "\<exists>ends key. verified_for env b scope token ends \<and> dk_keyId key = ib_keyId b \<and>
      createDpopProof env se key meth url (Some token) (aa_request_now an) (aa_request_jti an) = Inr dp"
    if "r = Inr ((token, dp), status, reason)" for token dp status reason
  proof -
    from assms(4) t that obtain key where "t = Inr token" "dk_keyId key = ib_keyId b"
      "createDpopProof env se key meth url (Some token) (aa_request_now an) (aa_request_jti an) = Inr dp"
      by (auto simp: authorized_def split: sum.splits option.splits if_splits prod.splits)
    with workload_token_sound [OF assms(1-3), of se force an token c] t show ?thesis by auto
  qed
  ultimately show ?thesis by blast
qed

text \<open>C34. Every request of the client carries a token that was verified for the installation, the key, the generation and the
  scope of its binding, and a proof for this token made with the key of the binding; at most two requests are sent, for a
  mutation at most one, and the cache keeps only verified tokens.
\<close>

theorem sent_tokens_verified:
  assumes "cache_sound env num cache" "plain_ids num b scope" "inj num"
    and "workload_request env se num b scope url meth mutation first second cache = (r, sent, cache')"
  shows "cache_sound env num cache' \<and> length sent \<le> (if mutation then 1 else 2) \<and>
    (\<forall>(token, dp) \<in> set sent. \<exists>ends key now jti. verified_for env b scope token ends \<and> dk_keyId key = ib_keyId b \<and>
       createDpopProof env se key meth url (Some token) now jti = Inr dp)"
proof -
  obtain r1 c1 where a1: "authorized env se num b scope url meth False first cache = (r1, c1)" by fastforce
  obtain r2 c2 where a2: "authorized env se num b scope url meth True second c1 = (r2, c2)" by fastforce
  note s1 = authorized_sound [OF assms(1-3) a1]
  note s2 = authorized_sound [OF conjunct1 [OF s1] assms(2,3) a2]
  have "cache' \<in> {c1, c2}" "length sent \<le> (if mutation then 1 else 2)"
    "\<forall>x \<in> set sent. (\<exists>y. r1 = Inr (x, y)) \<or> (\<exists>y. r2 = Inr (x, y))"
    using assms(4) a1 a2 by (auto simp: workload_request_def split: sum.splits prod.splits if_splits)
  with s1 s2 show ?thesis by (auto split: prod.splits) (metis surj_pair)+
qed

section \<open>Enrollment\<close>

lemma begin_Some:
  assumes "attempts_ok att" "callback_begin se now state att = (Some a, att')"
  shows "getByStateHash (se_sha256Hex se state) att = Some a" "ea_status a \<in> {AttemptPending, AttemptExchanging}"
    "now < ea_expiresAt a"
proof -
  from assms(2) have g: "getByStateHash (se_sha256Hex se state) att = Some a"
    and b: "fst (beginExchange (ea_operationId a) now att)"
    by (auto simp: callback_begin_def split: option.splits prod.splits if_splits)
  from g obtain k where "(k, a) \<in> set att" by (auto simp: getByStateHash_def dest!: find_SomeD)
  with assms(1) have "map_of att (ea_operationId a) = Some a" by (auto simp: attempts_ok_def list_all_iff)
  with g b show "getByStateHash (se_sha256Hex se state) att = Some a" "ea_status a \<in> {AttemptPending, AttemptExchanging}"
    "now < ea_expiresAt a"
    by (auto simp: beginExchange_def split: if_splits)
qed

lemma contract_Inr [simp]: "contract r = Inr x \<longleftrightarrow> r = Inr x"
  by (simp add: contract_def split: sum.split)

lemma json_str_Inr: "(case v of JStr s \<Rightarrow> f s | _ \<Rightarrow> Inl e) = Inr y \<longleftrightarrow> (\<exists>s. v = JStr s \<and> f s = Inr y)"
  by (cases v) simp_all

lemma callback_grant_Inr:
  assumes "callback_grant env sv an a = Inr (body, b)"
  obtains grant kid k cs where "cb_resolve an (sv_platformIssuer sv) kid = Some k"
    "verifyInstallationGrant env grant (grant_options_of sv a k kid (cb_grant_now an div 1000)) = Inr cs"
    "b = grant_binding sv (cb_updatedAt an) cs"
  using assms
  by (auto simp: callback_grant_def bind_res_Inr_iff json_str_Inr split: option.split_asm if_split_asm)

text \<open>What a callback that succeeds relied on: the attempt, the verified grant, the installation.\<close>

lemma callback_Inr:
  assumes "callback env se sv an state st = (Inr b, st', insts)"
  obtains a att key sec body b0 att2 where "callback_begin se (cb_begin an) state (fst st) = (Some a, att)"
    "callback_prepare env se sv an (se_sha256Hex se state) a (snd st) = (Inr key, sec)"
    "callback_grant env sv an a = Inr (body, b0)" "cb_install an b0" "insts = [b0]" "b = b0\<lparr>ib_state := BConnected\<rparr>"
    "attempt_finish (ea_operationId a) AttemptConsumed att = (True, att2)" "st' = (att2, secret_delete (ea_verifierRef a) sec)"
  using assms
  by (auto simp: callback_def callback_exchange_def split: prod.splits option.splits sum.splits if_splits)

text \<open>C15. A callback returns a binding only for the attempt that its state belongs to, while this attempt is open and in
  time; the binding names the installation, tenant, system, deployment and key of the attempt, and comes from a grant that
  the key of the platform signed within the last minute. It was installed before the callback returns, the attempt is
  consumed for good, and the secret of the exchange is gone.
\<close>

theorem callback_binds:
  assumes "attempts_ok (fst st)" and "callback env se sv an state st = (Inr b, st', insts)"
  shows "\<exists>a grant kid k jwk cs.
    getByStateHash (se_sha256Hex se state) (fst st) = Some a \<and> ea_status a \<in> {AttemptPending, AttemptExchanging} \<and>
    cb_begin an < ea_expiresAt a \<and>
    ib_installationId b = ea_installationId a \<and> ib_tenantId b = ea_tenantId a \<and> ib_systemId b = ea_systemId a \<and>
    ib_deploymentId b = ea_deploymentId a \<and> ib_keyId b = ea_keyId a \<and>
    ib_origin b = sv_origin sv \<and> ib_platformIssuer b = sv_platformIssuer sv \<and>
    cb_resolve an (sv_platformIssuer sv) kid = Some k \<and> validateP256PublicJwk k = Inr jwk \<and> signed_by env grant jwk cs \<and>
    in_window cs (cb_grant_now an div 1000) TTL_clientAssertion \<and> ib_generation b = claim_int cs ''generation'' \<and>
    insts = [b\<lparr>ib_state := BActivating\<rparr>] \<and> cb_install an (b\<lparr>ib_state := BActivating\<rparr>) \<and> ib_state b = BConnected \<and>
    settled (fst st') (ea_operationId a) = Some AttemptConsumed \<and> snd st' (ea_verifierRef a) = None"
proof (rule callback_Inr [OF assms(2)], goal_cases)
  case (1 a att key sec body b0 att2)
  obtain grant kid k cs where k: "cb_resolve an (sv_platformIssuer sv) kid = Some k"
    "verifyInstallationGrant env grant (grant_options_of sv a k kid (cb_grant_now an div 1000)) = Inr cs"
    "b0 = grant_binding sv (cb_updatedAt an) cs"
    by (rule callback_grant_Inr [OF 1(3)])
  obtain jwk where g: "validateP256PublicJwk k = Inr jwk" "signed_by env grant jwk cs"
    "in_window cs (cb_grant_now an div 1000) TTL_clientAssertion"
    "js_prop cs ''iss'' = JStr (sv_platformIssuer sv)" "js_prop cs ''tid'' = JStr (ea_tenantId a)"
    "js_prop cs ''iid'' = JStr (ea_installationId a)" "js_prop cs ''sid'' = JStr (ea_systemId a)"
    "js_prop cs ''client_id'' = JStr (ea_deploymentId a)" "js_prop cs ''origin'' = JStr (sv_origin sv)"
    "js_prop cs ''key_id'' = JStr (ea_keyId a)"
    by (rule grant_inverts [OF k(2)]) (simp add: grant_options_of_def)
  have again: "b0 = b0\<lparr>ib_state := BActivating\<rparr>" using k(3) by (simp add: grant_binding_def)
  have "settled att2 (ea_operationId a) = Some AttemptConsumed" by (rule finish_settles [OF 1(7)]) simp
  then show ?case
    using begin_Some [OF assms(1) 1(1)] 1(4-6,8) k g again
    by (intro exI [of _ a] exI [of _ grant] exI [of _ kid] exI [of _ k] exI [of _ jwk] exI [of _ cs])
      (simp add: claim_str_prop grant_binding_def secret_delete_def)
qed

text \<open>
  A call that fails leaves the attempt open, so that it can be tried again with the same assertion and proof, unless the
  platform refused the exchange with a status from 400 to 499: then the attempt has failed and its secret is gone.
\<close>

lemma callback_fail_effect:
  "callback_fail e a st = (if definitiveFailure e
     then (snd (attempt_finish (ea_operationId a) AttemptFailed (fst st)), secret_delete (ea_verifierRef a) (snd st)) else st)"
  by (cases st) (simp add: callback_fail_def)

text \<open>
  However the calls for one operation overlap, the challenges that succeed answer with the same state up to collisions of
  the hash: the first attempt stored for an operation is the only one.
\<close>

theorem challenge_single_state:
  assumes "attempts_ok (fst st1)" "challenge_issue env se an i key p st = (Inr (request, state), st1)"
    and "fst st2 = foldl attempt_step (fst st1) ops" "ci_operationId i' = ci_operationId i"
    and "challenge_issue env se an' i' key' p' st2 = (Inr (request', state'), st3)"
  shows "se_sha256Hex se state = se_sha256Hex se state'"
proof -
  obtain a where a: "attempt_facts (fst st1) (ci_operationId i) = Some a" "ea_stateHash a = se_sha256Hex se state"
    using issue_facts [OF assms(2)] by blast
  have kept: "attempt_facts (fst st2) (ci_operationId i) = Some a"
    using facts.run_keeps [OF assms(1) _ a(1), of ops] assms(3) by simp
  obtain a' where a': "attempt_facts (fst st3) (ci_operationId i) = Some a'" "ea_stateHash a' = se_sha256Hex se state'"
    using issue_facts [OF assms(5)] assms(4) by auto
  have "fst st3 = fst st2"
    using kept assms(4,5)
    by (auto simp: challenge_issue_def attempt_create_def attempt_facts_def Let_def split: prod.splits option.splits)
  with kept a' a(2) show ?thesis by simp
qed

section \<open>A concrete platform\<close>

text \<open>
  Documents are numbered, a document is encoded by its number, every signature is the text \<open>s\<close>, and every hash is the
  same text of the right length.
\<close>

definition demo_hash :: string where
  "demo_hash = replicate 43 CHR ''A''"

definition demo_key :: deployment_key where
  "demo_key =
     \<lparr>dk_deploymentId = ''d'', dk_keyId = demo_hash, dk_keyRef = ''r'',
      dk_publicJwk = [(''x'', JStr demo_hash), (''y'', JStr demo_hash)]\<rparr>"

definition demo_jwk :: json where
  "demo_jwk = JObj (publicOnlyJwk (dk_publicJwk demo_key))"

definition demo_env0 :: v2_env where
  "demo_env0 =
     \<lparr>ve_text = units, ve_parse = (\<lambda>_. None), ve_verify = (\<lambda>_ _ s. s = ''s''), ve_sha256 = (\<lambda>_. demo_hash),
      ve_url = (\<lambda>u. Some (''https:'', ''h'', u)), ve_buffer = (\<lambda>_. None)\<rparr>"

definition demo_input :: challenge_input where
  "demo_input =
     \<lparr>ci_operationId = ''op'', ci_nonce = ''n'', ci_platformIssuer = ''p'', ci_installationId = ''i'', ci_tenantId = ''t'',
      ci_systemId = ''s'', ci_origin = ''o'', ci_callbackUrl = ''o/ky/v2/enrollment/callback''\<rparr>"

definition demo_grant_claims :: claims where
  "demo_grant_claims =
     [(''iss'', JStr ''p''), (''sub'', JStr ''i''), (''aud'', JStr ''d''), (''iat'', JNum (IntNum 1000)),
      (''exp'', JNum (IntNum 1060)), (''jti'', JStr ''j''), (''tid'', JStr ''t''), (''iid'', JStr ''i''), (''sid'', JStr ''s''),
      (''client_id'', JStr ''d''), (''origin'', JStr ''o''), (''key_id'', JStr demo_hash), (''scope'', JArr [JStr ''x'']),
      (''registered_digest'', JStr (replicate 64 CHR ''0'')), (''generation'', JNum (IntNum 1))]"

definition demo_workload_claims :: claims where
  "demo_workload_claims =
     [(''iss'', JStr ''p''), (''sub'', JStr ''i''), (''aud'', JStr ''ky-app-platform-api''), (''iat'', JNum (IntNum 1000)),
      (''nbf'', JNum (IntNum 1000)), (''exp'', JNum (IntNum 1300)), (''jti'', JStr ''j''), (''tid'', JStr ''t''),
      (''iid'', JStr ''i''), (''sid'', JStr ''s''), (''client_id'', JStr ''d''), (''scope'', JArr [JStr ''x'']),
      (''cnf'', JObj [(''jkt'', JStr demo_hash)]), (''generation'', JNum (IntNum 1))]"

definition demo_platform_header :: "v2_typ \<Rightarrow> claims" where
  "demo_platform_header t = [(''alg'', JStr ''ES256''), (''typ'', JStr (V2_JWT_TYP t)), (''kid'', JStr ''pk'')]"

definition demo_documents :: "(string \<times> claims) list" where
  "demo_documents =
     [(''1'', kid_header TypEnrollmentRequest demo_key),
      (''2'', request_claims demo_env0 demo_input demo_key ''v'' 1600000 1000000 ''j''),
      (''3'', demo_platform_header TypInstallationGrant), (''4'', demo_grant_claims),
      (''5'', demo_platform_header TypWorkloadAccessToken), (''6'', demo_workload_claims),
      (''7'', jwk_header demo_key), (''8'', proof_claims demo_env0 ''GET'' ''h/x'' (Some ''5.6.s'') 1000000 ''j'')]"

definition demo_env :: v2_env where
  "demo_env = demo_env0\<lparr>ve_parse :=
     (\<lambda>t. map_option (\<lambda>d. JObj (snd d)) (List.find (\<lambda>d. units (fst d) = t) demo_documents))\<rparr>"

definition demo_sign :: sign_env where
  "demo_sign =
     \<lparr>se_encode = (\<lambda>cs. case List.find (\<lambda>d. snd d = cs) demo_documents of Some d \<Rightarrow> fst d | None \<Rightarrow> ''0''),
      se_sign = (\<lambda>_ _. ''s''), se_sha256Hex = (\<lambda>s. s), se_uri = (\<lambda>s. s)\<rparr>"

definition demo_grant_options :: grant_options where
  "demo_grant_options =
     \<lparr>go_platformPublicJwk = demo_jwk, go_platformKeyId = ''pk'', go_platformIssuer = ''p'', go_deploymentId = ''d'',
      go_tenantId = ''t'', go_installationId = ''i'', go_systemId = ''s'', go_origin = ''o'', go_keyId = demo_hash, go_now = 1001\<rparr>"

definition demo_workload_options :: workload_options where
  "demo_workload_options =
     \<lparr>wo_platformPublicJwk = demo_jwk, wo_platformKeyId = ''pk'', wo_platformIssuer = ''p'', wo_tenantId = ''t'',
      wo_installationId = ''i'', wo_systemId = ''s'', wo_deploymentId = ''d'', wo_keyId = demo_hash, wo_generation = 1,
      wo_requiredScope = Some ''x'', wo_installationStatus = None, wo_authorizationScheme = Some ''DPoP'', wo_now = 1001\<rparr>"

lemma digit_text:
  assumes "48 \<le> u" "u \<le> 57" "jp [u] = Some v"
  shows "parseJsonWithoutDuplicateKeys jp [u] = Inr v"
proof -
  have "skip_space [u] = [u]" "match_literal [u] = Some []" "u \<noteq> 123" "u \<noteq> 91" "u \<noteq> 34"
    using assms(1,2)
    by (auto simp: skip_space_def is_space_def match_literal_def starts_with_def units_def match_number_def match_integer_def
        match_minus_def match_fraction_def match_exponent_def or_skip_def digits1_def is_digit_def)
  then have "scan_value jp (2 * length [u] + 2) [u] = Some (Inr ((), []))"
    by (simp add: scan_leaf_def eval_nat_numeral)
  with assms(3) show ?thesis by (simp add: parseJsonWithoutDuplicateKeys_def skip_space_def)
qed

lemma demo_units:
  "units ''1'' = [49]" "units ''2'' = [50]" "units ''3'' = [51]" "units ''4'' = [52]" "units ''5'' = [53]" "units ''6'' = [54]"
  "units ''7'' = [55]" "units ''8'' = [56]"
  by (simp_all add: units_def)

lemma demo_parse:
  "parseJsonWithoutDuplicateKeys (ve_parse demo_env) [49] = Inr (JObj (kid_header TypEnrollmentRequest demo_key))"
  "parseJsonWithoutDuplicateKeys (ve_parse demo_env) [50] =
     Inr (JObj (request_claims demo_env0 demo_input demo_key ''v'' 1600000 1000000 ''j''))"
  "parseJsonWithoutDuplicateKeys (ve_parse demo_env) [51] = Inr (JObj (demo_platform_header TypInstallationGrant))"
  "parseJsonWithoutDuplicateKeys (ve_parse demo_env) [52] = Inr (JObj demo_grant_claims)"
  "parseJsonWithoutDuplicateKeys (ve_parse demo_env) [53] = Inr (JObj (demo_platform_header TypWorkloadAccessToken))"
  "parseJsonWithoutDuplicateKeys (ve_parse demo_env) [54] = Inr (JObj demo_workload_claims)"
  "parseJsonWithoutDuplicateKeys (ve_parse demo_env) [55] = Inr (JObj (jwk_header demo_key))"
  "parseJsonWithoutDuplicateKeys (ve_parse demo_env) [56] =
     Inr (JObj (proof_claims demo_env0 ''GET'' ''h/x'' (Some ''5.6.s'') 1000000 ''j''))"
  by (rule digit_text; simp add: demo_env_def demo_documents_def demo_units)+

lemma demo_env_simps [simp]:
  "ve_text demo_env = units" "ve_verify demo_env k m sg = (sg = ''s'')" "ve_sha256 demo_env t = demo_hash"
  "ve_url demo_env u = Some (''https:'', ''h'', u)"
  by (simp_all add: demo_env_def demo_env0_def)

lemma v2_demo_usable: "usable_key demo_env demo_key"
proof -
  have "is_base64url CHR ''A''" by code_simp
  then show ?thesis
    by (simp add: usable_key_def demo_key_def js_prop_def coordinate_ok_def is_base64url_43_def demo_hash_def list_all_iff)
qed

lemma demo_jwk_valid: "validateP256PublicJwk demo_jwk = Inr (publicOnlyJwk (dk_publicJwk demo_key))"
  using public_only_valid [OF v2_demo_usable] by (simp add: demo_jwk_def)

lemma demo_decode:
  "decodeV2Jws demo_env ''3.4.s'' = Inr \<lparr>dj_header = demo_platform_header TypInstallationGrant, dj_payload = demo_grant_claims,
     dj_signingInput = ''3.4'', dj_signature = ''s''\<rparr>"
  "decodeV2Jws demo_env ''5.6.s'' = Inr \<lparr>dj_header = demo_platform_header TypWorkloadAccessToken,
     dj_payload = demo_workload_claims, dj_signingInput = ''5.6'', dj_signature = ''s''\<rparr>"
  "decodeV2Jws demo_env ''7.8.s'' = Inr \<lparr>dj_header = jwk_header demo_key,
     dj_payload = proof_claims demo_env0 ''GET'' ''h/x'' (Some ''5.6.s'') 1000000 ''j'', dj_signingInput = ''7.8'', dj_signature = ''s''\<rparr>"
proof -
  have "segment_ok ''3''" "segment_ok ''4''" "segment_ok ''5''" "segment_ok ''6''" "segment_ok ''7''" "segment_ok ''8''"
    "segment_ok ''s''"
    by code_simp+
  then show "decodeV2Jws demo_env ''3.4.s'' = Inr \<lparr>dj_header = demo_platform_header TypInstallationGrant,
      dj_payload = demo_grant_claims, dj_signingInput = ''3.4'', dj_signature = ''s''\<rparr>"
    "decodeV2Jws demo_env ''5.6.s'' = Inr \<lparr>dj_header = demo_platform_header TypWorkloadAccessToken,
      dj_payload = demo_workload_claims, dj_signingInput = ''5.6'', dj_signature = ''s''\<rparr>"
    "decodeV2Jws demo_env ''7.8.s'' = Inr \<lparr>dj_header = jwk_header demo_key,
      dj_payload = proof_claims demo_env0 ''GET'' ''h/x'' (Some ''5.6.s'') 1000000 ''j'', dj_signingInput = ''7.8'',
      dj_signature = ''s''\<rparr>"
    by (simp_all add: decodeV2Jws_def decodeObject_def demo_units demo_parse)
qed

lemma platform_header_ok: "assertJoseHeader_kid (demo_platform_header t) t = Inr ''pk''"
  by (cases t) (simp_all add: assertJoseHeader_kid_def header_base_def demo_platform_header_def js_prop_def)

lemma demo_scope: "parseScope (JArr [JStr ''x'']) = Inr [''x'']"
  by code_simp

lemma demo_grant: "verifyInstallationGrant demo_env ''3.4.s'' demo_grant_options = Inr demo_grant_claims"
proof -
  have "assertExactClaims demo_grant_claims GRANT_CLAIMS [] = Inr ()"
    by (simp add: assertExactClaims_def GRANT_CLAIMS_def demo_grant_claims_def js_prop_def)
  moreover have "assertTokenTime demo_grant_claims 1001 TTL_clientAssertion = Inr ()"
    by (rule token_time_ok [where iat = 1000 and ex = 1060]) (simp_all add: demo_grant_claims_def js_prop_def TTL_clientAssertion_def)
  moreover have "is_hex64 (replicate 64 CHR ''0'')" by (simp add: is_hex64_def list_all_iff)
  ultimately show ?thesis
    by (simp add: verifyInstallationGrant_def demo_decode platform_header_ok demo_grant_options_def demo_jwk_valid verifyV2Signature_def)
      (simp add: demo_grant_claims_def js_prop_def assertEqual_def assertDigest_def demo_scope generation_ok_def safe_integer_def)
qed

lemma demo_workload: "verifyWorkloadAccessToken demo_env ''5.6.s'' demo_workload_options = Inr demo_workload_claims"
proof -
  have "assertExactClaims demo_workload_claims WORKLOAD_CLAIMS [] = Inr ()"
    by (simp add: assertExactClaims_def WORKLOAD_CLAIMS_def demo_workload_claims_def js_prop_def)
  moreover have "assertTokenTime demo_workload_claims 1001 TTL_workloadAccessToken = Inr ()"
    by (simp add: assertTokenTime_def assertIntegerClaim_def safe_integer_def demo_workload_claims_def js_prop_def
        TTL_workloadAccessToken_def TTL_clockTolerance_def)
  ultimately show ?thesis
    by (simp add: verifyWorkloadAccessToken_def demo_decode platform_header_ok demo_workload_options_def demo_jwk_valid verifyV2Signature_def)
      (simp add: demo_workload_claims_def js_prop_def assertEqual_def assertEqualNumber_def V2_WORKLOAD_AUDIENCE_def demo_scope
        cnf_matches_def)
qed

lemma demo_hash_ne: "demo_hash \<noteq> []"
  by (simp add: demo_hash_def)

lemma demo_proof:
  "verifyDpopProof demo_env ''7.8.s'' (proof_options demo_key ''GET'' ''h/x'' (Some ''5.6.s'') 1001) =
     Inr (proof_claims demo_env0 ''GET'' ''h/x'' (Some ''5.6.s'') 1000000 ''j'', demo_hash, demo_hash @ '':j'')"
proof -
  let ?cs = "proof_claims demo_env0 ''GET'' ''h/x'' (Some ''5.6.s'') 1000000 ''j''"
  have "assertExactClaims ?cs [''htm'', ''htu'', ''iat'', ''jti''] [''ath'', ''nonce''] = Inr ()"
    by (simp add: assertExactClaims_def proof_claims_def js_prop_def)
  moreover have "map upper_char ''GET'' = ''GET''" by code_simp
  moreover have "js_prop ?cs ''ath'' = JStr demo_hash"
    using proof_props(5) [OF refl, of demo_env0 "''GET''" "''h/x''" "Some ''5.6.s''" 1000000 "''j''"]
    by (simp add: accessTokenHash_def demo_env0_def)
  moreover have "dk_keyId demo_key = demo_hash" by (simp add: demo_key_def)
  ultimately show ?thesis
    by (simp add: verifyDpopProof_def demo_decode jwk_header_ok [OF v2_demo_usable] verifyV2Signature_def proof_options_def
        proof_props(1-4) [OF refl] assertStringClaim_def assertIntegerClaim_def safe_integer_def TTL_dpopProof_def
        normalizeDpopHtu_def thumbprint_key [OF v2_demo_usable] ath_matches_def js_truthy_def accessTokenHash_def demo_hash_ne
        replay_key_def claim_str_prop [OF proof_props(4) [OF refl]])
qed

lemma token_purposes_exclusive_witness:
  "accepts demo_env ''3.4.s'' TypInstallationGrant \<and> \<not> accepts demo_env ''3.4.s'' TypAttest"
proof -
  have "accepts demo_env ''3.4.s'' TypInstallationGrant" using demo_grant by auto
  then show ?thesis using token_purposes_exclusive [of demo_env "''3.4.s''" TypInstallationGrant TypAttest] by auto
qed

lemma proof_of_possession_witness:
  "\<exists>jwk. signed_by demo_env ''7.8.s'' jwk (proof_claims demo_env0 ''GET'' ''h/x'' (Some ''5.6.s'') 1000000 ''j'') \<and>
     ve_sha256 demo_env (thumbprint_text jwk) = demo_hash \<and> cnf_matches (js_prop demo_workload_claims ''cnf'') demo_hash"
proof -
  have "do_accessToken (proof_options demo_key ''GET'' ''h/x'' (Some ''5.6.s'') 1001) = Some ''5.6.s''"
    "do_expectedKeyId (proof_options demo_key ''GET'' ''h/x'' (Some ''5.6.s'') 1001) = Some (wo_keyId demo_workload_options)"
    "wo_keyId demo_workload_options \<noteq> []"
    by (simp_all add: proof_options_def demo_workload_options_def demo_key_def demo_hash_ne)
  from proof_of_possession [OF demo_workload demo_proof this] show ?thesis by blast
qed

lemma v2_demo_signs: "signs demo_env demo_sign demo_key"
proof -
  have "segment_ok ''s''" by code_simp
  then show ?thesis by (simp add: signs_def demo_sign_def)
qed

lemma demo_encodes:
  "encodes demo_env demo_sign (kid_header TypEnrollmentRequest demo_key)"
  "encodes demo_env demo_sign (request_claims demo_env demo_input demo_key ''v'' 1600000 1000000 ''j'')"
proof -
  have segments: "segment_ok ''1''" "segment_ok ''2''" by code_simp+
  have same: "request_claims demo_env demo_input demo_key ''v'' 1600000 1000000 ''j'' =
      request_claims demo_env0 demo_input demo_key ''v'' 1600000 1000000 ''j''"
    by (simp add: request_claims_def demo_env0_def)
  have differ: "kid_header TypEnrollmentRequest demo_key \<noteq> request_claims demo_env0 demo_input demo_key ''v'' 1600000 1000000 ''j''"
    by (simp add: kid_header_def request_claims_def)
  show "encodes demo_env demo_sign (kid_header TypEnrollmentRequest demo_key)"
    by (simp add: encodes_def demo_sign_def demo_documents_def segments demo_units demo_parse)
  show "encodes demo_env demo_sign (request_claims demo_env demo_input demo_key ''v'' 1600000 1000000 ''j'')"
    by (simp add: same encodes_def demo_sign_def demo_documents_def segments demo_units demo_parse differ)
qed

lemma enrollment_roundtrip_witness:
  "verifyEnrollmentRequest demo_env (enrollmentRequest demo_env demo_sign demo_input demo_key ''v'' 1600000 1000000 ''j'')
     (request_options demo_input demo_key 1001) =
   Inr (request_claims demo_env demo_input demo_key ''v'' 1600000 1000000 ''j'', demo_hash, demo_hash @ '':j'')"
proof -
  have hash: "is_base64url_43 (ve_sha256 demo_env ''v'')"
    using v2_demo_usable by (simp add: usable_key_def demo_key_def js_prop_def coordinate_ok_def)
  have times: "request_in_time 1000000 1600000 1001" by (simp add: request_in_time_def TTL_enrollmentRequest_def)
  have "[] \<notin> {dk_deploymentId demo_key, ci_installationId demo_input, ci_platformIssuer demo_input, ci_nonce demo_input, ''j''}"
    by (simp add: demo_key_def demo_input_def)
  from enrollment_roundtrip [OF v2_demo_usable v2_demo_signs demo_encodes hash this times] show ?thesis by (simp add: demo_key_def)
qed



definition demo_service :: enrollment_service where
  "demo_service =
     \<lparr>sv_systemId = ''s'', sv_origin = ''o'', sv_platformIssuer = ''p'', sv_platformApiBaseUrl = ''u'', sv_activation = False\<rparr>"

definition demo_attempt :: enrollment_attempt where
  "demo_attempt =
     \<lparr>ea_operationId = ''op'', ea_installationId = ''i'', ea_tenantId = ''t'', ea_systemId = ''s'', ea_stateHash = ''st'',
      ea_verifierRef = ''ref'', ea_keyId = demo_hash, ea_deploymentId = ''d'', ea_publicJwk = [], ea_status = AttemptPending,
      ea_expiresAt = 2000000\<rparr>"

definition demo_stores :: enrollment_stores where
  "demo_stores = ([(''op'', demo_attempt)],
     [''ref'' \<mapsto> (\<lparr>es_verifier = ''v'', es_state = ''st'', es_assertion = Some ''a'', es_dpop = Some ''b''\<rparr>, 2000000)])"

definition demo_answers :: callback_answers where
  "demo_answers =
     \<lparr>cb_begin = 1000000, cb_read = 1000000, cb_current = Some demo_key, cb_assertion_now = 1000000, cb_assertion_jti = ''j'',
      cb_proof_now = 1000000, cb_proof_jti = ''j'',
      cb_exchange = Some \<lparr>ha_status = 200, ha_body = Some (JObj [(''installation_grant'', JStr ''3.4.s'')])\<rparr>,
      cb_resolve = (\<lambda>_ _. Some demo_jwk), cb_grant_now = 1001000, cb_updatedAt = ''1'', cb_install = (\<lambda>_. True),
      cb_activation_now = 0, cb_activation_jti = ''j'', cb_activate = None\<rparr>"

lemma demo_callback:
  "\<exists>b st insts. callback demo_env demo_sign demo_service demo_answers ''st'' demo_stores = (Inr b, st, insts)"
proof -
  have opened: "callback_begin demo_sign 1000000 ''st'' [(''op'', demo_attempt)] =
      (Some demo_attempt, [(''op'', demo_attempt\<lparr>ea_status := AttemptExchanging\<rparr>)])"
    by (simp add: callback_begin_def getByStateHash_def beginExchange_def demo_attempt_def demo_sign_def)
  have options: "grant_options_of demo_service demo_attempt demo_jwk ''pk'' 1001 = demo_grant_options"
    by (simp add: grant_options_of_def demo_grant_options_def demo_service_def demo_attempt_def)
  have kid: "js_prop (demo_platform_header TypInstallationGrant) ''kid'' = JStr ''pk''"
    by (simp add: demo_platform_header_def js_prop_def)
  have grant: "callback_grant demo_env demo_service demo_answers demo_attempt =
      Inr ([(''installation_grant'', JStr ''3.4.s'')], grant_binding demo_service ''1'' demo_grant_claims)"
    by (simp add: callback_grant_def demo_answers_def http_ok_def body_fields_def js_nullish_def js_prop_def [of "[(''installation_grant'', _)]"]
        demo_decode contract_def kid options demo_grant)
  have prepare: "callback_prepare demo_env demo_sign demo_service demo_answers ''st'' demo_attempt (snd demo_stores) = (Inr demo_key, snd demo_stores)"
    by (simp add: callback_prepare_def secret_get_def demo_stores_def demo_attempt_def demo_answers_def demo_sign_def demo_key_def
        exchange_proofs_def Let_def)
  have "cb_begin demo_answers = 1000000" "fst demo_stores = [(''op'', demo_attempt)]" "se_sha256Hex demo_sign ''st'' = ''st''"
    "cb_install demo_answers = (\<lambda>_. True)" "ea_operationId demo_attempt = ''op''" "sv_activation demo_service = False"
    by (simp_all add: demo_answers_def demo_stores_def demo_sign_def demo_attempt_def demo_service_def)
  then show ?thesis
    by (simp add: callback_def opened prepare callback_exchange_def grant callback_activate_def attempt_finish_def)
qed

lemma callback_binds_witness:
  "\<exists>b st insts. callback demo_env demo_sign demo_service demo_answers ''st'' demo_stores = (Inr b, st, insts) \<and>
     ib_installationId b = ''i'' \<and> ib_keyId b = demo_hash \<and> settled (fst st) ''op'' = Some AttemptConsumed"
proof -
  obtain b st insts where c: "callback demo_env demo_sign demo_service demo_answers ''st'' demo_stores = (Inr b, st, insts)"
    using demo_callback by blast
  have ok: "attempts_ok (fst demo_stores)" by (simp add: attempts_ok_def demo_stores_def demo_attempt_def)
  have "getByStateHash (se_sha256Hex demo_sign ''st'') (fst demo_stores) = Some demo_attempt"
    by (simp add: getByStateHash_def demo_stores_def demo_sign_def demo_attempt_def)
  with callback_binds [OF ok c] c show ?thesis by (auto simp: demo_attempt_def)
qed

definition unary :: "int \<Rightarrow> string" where
  "unary n = (if 0 \<le> n then replicate (nat n) CHR ''1'' else CHR ''-'' # replicate (nat (- n)) CHR ''1'')"

lemma unary_inj: "inj unary"
proof (rule injI)
  fix m n assume "unary m = unary n"
  moreover have "CHR ''-'' \<in> set (unary k) \<longleftrightarrow> k < 0" "length (unary k) = (if 0 \<le> k then nat k else Suc (nat (- k)))" for k
    by (auto simp: unary_def)
  ultimately have "m < 0 \<longleftrightarrow> n < 0" "(if 0 \<le> m then nat m else Suc (nat (- m))) = (if 0 \<le> n then nat n else Suc (nat (- n)))"
    by metis+
  then show "m = n" by (auto split: if_splits)
qed

definition demo_installed :: installation_binding where
  "demo_installed = (demo_binding 1)\<lparr>ib_keyId := demo_hash, ib_state := BConnected\<rparr>"

definition demo_authorized :: authorized_answers where
  "demo_authorized =
     \<lparr>aa_cache_now = 1000000, aa_token_key = Some demo_key, aa_proof_now = 1000000, aa_proof_jti = ''j'',
      aa_token = Some \<lparr>ha_status = 200, ha_body = Some (JObj [(''access_token'', JStr ''5.6.s'')])\<rparr>,
      aa_resolve = (\<lambda>_ _. Some demo_jwk), aa_verify_now = 1001000, aa_key = Some demo_key, aa_request_now = 1000000,
      aa_request_jti = ''j'', aa_response = Some (200, [])\<rparr>"

lemma demo_token:
  "token_answer demo_env demo_installed ''x'' demo_authorized =
     Inr \<lparr>te_token = ''5.6.s'', te_expiresAt = 1300000\<rparr>"
proof -
  have options: "workload_options_of demo_installed ''x'' demo_jwk ''pk'' 1001 = demo_workload_options"
    by (simp add: workload_options_of_def demo_workload_options_def demo_installed_def demo_binding_def)
  have kid: "js_prop (demo_platform_header TypWorkloadAccessToken) ''kid'' = JStr ''pk''"
    by (simp add: demo_platform_header_def js_prop_def)
  have "claim_int demo_workload_claims ''exp'' = 1300" by (simp add: claim_int_def demo_workload_claims_def js_prop_def)
  then show ?thesis
    by (simp add: token_answer_def demo_authorized_def http_ok_def body_fields_def js_nullish_def js_prop_def [of "[(''access_token'', _)]"]
        demo_decode token_refused_def kid options demo_workload)
qed

lemma sent_tokens_verified_witness:
  "\<exists>r dp cache'. workload_request demo_env demo_sign unary demo_installed ''x'' ''h/x'' ''GET'' False demo_authorized demo_authorized
       Map.empty = (r, [(''5.6.s'', dp)], cache') \<and> (\<exists>ends. verified_for demo_env demo_installed ''x'' ''5.6.s'' ends)"
proof -
  have plain: "plain_ids unary demo_installed ''x''"
    by (simp add: plain_ids_def demo_installed_def demo_binding_def demo_hash_def unary_def)
  have answers: "aa_token_key demo_authorized = Some demo_key" "aa_key demo_authorized = Some demo_key"
    "aa_response demo_authorized = Some (200, [])"
    by (simp_all add: demo_authorized_def)
  have "dk_keyId demo_key = ib_keyId demo_installed" "dk_deploymentId demo_key = ib_deploymentId demo_installed"
    "ib_state demo_installed = BConnected" "ib_grantedScopes demo_installed = ScopeList [''x'']"
    by (simp_all add: demo_installed_def demo_key_def demo_binding_def)
  then obtain r dp cache' where
    w: "workload_request demo_env demo_sign unary demo_installed ''x'' ''h/x'' ''GET'' False demo_authorized demo_authorized Map.empty =
      (r, [(''5.6.s'', dp)], cache')"
    by (simp add: workload_request_def authorized_def workload_token_def demo_token createDpopProof_def normalizeDpopHtu_def Let_def
        answers)
  from sent_tokens_verified [OF cache_sound_empty plain unary_inj w] w show ?thesis by auto
qed

end
