(* ===== verification/Spec2Isabelle.thy ===== *)
theory Spec2Isabelle
  imports Governance_Runtime Chat_Queue Hand_Journal App_Runtime Acs_Capacity Acs_Ownership Acs_Drain Taskboard_Claims V2_Claims
begin

text \<open>
  A verification library for the core logic of the agent platform. The platform runs agents for tenants
  (\<^verbatim>\<open>server\<close>), decides what a principal may do (\<^verbatim>\<open>server/src/governance\<close>), shows runs and queued messages to
  clients through shared reducers (\<^verbatim>\<open>shared/src/lib\<close>), executes commands through hand servers
  (\<^verbatim>\<open>hand-server\<close>) in sandboxes that an orchestrator provisions and reclaims (\<^verbatim>\<open>acs-orchestrator\<close>), connects
  installed business applications through a contract package and a server kit
  (\<^verbatim>\<open>packages/ky-app-contract\<close>, \<^verbatim>\<open>packages/ky-app-server\<close>), and lets agents work through the tasks of boards
  (\<^verbatim>\<open>server/src/taskboard\<close>). The parts that carry the logic are modelled function by
  function; definitions keep the names of the code.

  \<^bold>\<open>Theories.\<close>
  \<^item> \<open>Agent_Base\<close>: JavaScript values, results, lists and maps that all parts share, and the two locales for
    interfaces: \<open>monotone_projection\<close> (an invariant state that absorbs observations and only moves forward) and
    \<open>write_once\<close> (what is decided for a key stays decided). Every stateful component interprets one of them.
  \<^item> \<open>Governance_Access\<close>: the access evaluator with its seven policy layers (locales \<open>policy_contract\<close> for one layer
    and \<open>access_chain\<close> for the chain). A decision to allow implies isolation, authority, entitlement and
    assignment; one denial is final.
  \<^item> \<open>Governance_Runtime\<close>: who a human principal is, when a credential may be used, when a run may start.
  \<^item> \<open>Run_Liveness\<close>, \<open>Chat_Queue\<close>: the reducers of \<^verbatim>\<open>runLiveness.ts\<close> and \<^verbatim>\<open>chatQueue.ts\<close>. Projections are well formed,
    fenced, and never move backwards between snapshots.
  \<^item> \<open>Hand_Journal\<close>: the journal of invocations (\<^verbatim>\<open>invocationStore.ts\<close>) over a file system. The first terminal result
    wins, a cancelled invocation never starts, reconciliation after a restart settles what was running.
  \<^item> \<open>App_Path\<close>, \<open>App_Claims\<close>: path normalization and prefixes, the claims matrix and the endpoint matrix.
  \<^item> \<open>App_Jcs\<close>, \<open>App_Schema\<close>: canonical JSON with its strict parser, the validator of capability schemas. The recursive
    parser takes fuel; twice the length of the text plus two is proved to be enough. The validator is proved
    equal to a reference predicate.
  \<^item> \<open>Sat_Auth\<close>, \<open>Local_Token\<close>, \<open>Jwks_Client\<close>: service access tokens, local tokens and the key set client. JOSE functions
    and hashes are parameters.
  \<^item> \<open>Break_Glass\<close>: the emergency login with its factors, locks, limiter, sessions, employee codes and audit.
  \<^item> \<open>Install_Events\<close>: platform events and the life cycle of an installation, a refinement of an abstract machine that
    applies each change once.
  \<^item> \<open>App_Directory\<close>: the local copy of the organisation directory, a refinement of an abstract view; a round of
    synchronisation ends because the limiter allows 60 requests a minute (fuel 61).
  \<^item> \<open>App_Capabilities\<close>: invocation of capabilities over the execution store, as a machine of overlapping invocations:
    executed at most once, answered the same to everyone, bound to the approved input.
  \<^item> \<open>App_Runtime\<close>: the adapter that joins these components, and the properties of their composition: a revoked key
    opens nothing, a deleted installation serves nobody, a capability runs only for a verified agent.

  \<^item> \<open>V2_Json\<close>, \<open>V2_Contract\<close>, \<open>V2_Tokens\<close>: the second version of the application protocol
    (\<^verbatim>\<open>packages/ky-app-contract/src/v2\<close>). The reader that refuses repeated keys, proved equal to a grammar (twice the
    length of the text plus two is enough fuel); claims, public keys and the compact form; the verifiers of its six
    kinds of tokens, with what acceptance implies.
  \<^item> \<open>V2_Binding\<close>: installation bindings in memory and in the database, two interpretations of the locale
    \<open>lawful_provider\<close>, and the manager of their runtimes as a machine of overlapping calls (\<^verbatim>\<open>runtimeManager.ts\<close>).
  \<^item> \<open>V2_Enrollment\<close>, \<open>V2_Workload\<close>: challenge and callback over the stores of attempts and secrets (\<^verbatim>\<open>service.ts\<close>), the
    client with its token cache (\<^verbatim>\<open>workload/client.ts\<close>) and the rotation of the deployment key (\<^verbatim>\<open>keyRotation.ts\<close>).
  \<^item> \<open>V2_Claims\<close>: the properties of the second version: tokens are bound to purpose, key, request and installation;
    what is signed is accepted; generations only advance; an enrollment yields the binding that was asked for.

  \<^item> \<open>Acs_Cidr\<close>, \<open>Acs_Sandbox\<close>, \<open>Acs_Cleanup\<close>, \<open>Acs_Capacity\<close>: the sandboxes of the orchestrator. Networks on 32-bit words; what a
    resource of the cluster means, its leases and deadlines; the gate before every destructive change, fenced
    deletion and the cleanup pass over the answers of the cluster; accounting of resources and admission as a
    machine in which anything else may happen during a check. Leased sandboxes are kept, only idle ones are
    touched, and the limits hold when reservations are released in order.
  \<^item> \<open>Acs_Ownership\<close>: the journal of unresolved operations in a config map, written by compare and swap from several
    processes. It refines a chain of atomic changes, and unresolved work is never forgotten.
  \<^item> \<open>Acs_Drain\<close>: the drain before a deployment (\<^verbatim>\<open>deploymentDrain.ts\<close>). It exits only with nothing in flight and its proof
    published, and opens again at its deadline.
  \<^item> \<open>Taskboard_Model\<close>, \<open>Taskboard_Workflow\<close>, \<open>Taskboard_Execution\<close>: the task board (\<^verbatim>\<open>server/src/taskboard\<close>). Its tables are lists of
    rows and a SQL statement is a function on them, so one command is one transaction. The decider, the commands
    that finish, resume and cancel work, the life of an execution, and the outbox that tells the runtime to stop.
  \<^item> \<open>Taskboard_Run\<close>, \<open>Taskboard_Machine\<close>, \<open>Taskboard_Claims\<close>: these commands as one machine in which they come in any order.
    \<open>Taskboard_Run\<close> shows row by row what a step may change and states the invariant, \<open>Taskboard_Machine\<close> shows it for
    every command, \<open>Taskboard_Claims\<close> holds the properties: one active execution for each task, one transition for
    each run, final statuses, the review before a merge, the end of an integration, retries and leases.

  \<^bold>\<open>Conventions.\<close> Errors are values of a sum type, with the error codes of the code and without their messages.
  Operations pass their state explicitly. A call that reads the clock at several places takes a function from
  these places to readings. A call that waits is one step, except where overlap matters: there its parts
  are separate steps (\<open>App_Capabilities\<close>,
    \<open>Jwks_Client\<close>, \<open>Break_Glass\<close>, \<open>Install_Events\<close>, \<open>V2_Binding\<close>), and theorems outside the claims
  record what goes wrong in the code when calls overlap. Strings that the code inspects by code unit are lists of
  code units (\<open>jstring\<close>), others are HOL strings.

  \<^bold>\<open>Not modelled.\<close> The agent loop, the web channel and the HTTP routes of the server (I/O around stores in
  PostgreSQL), the other SQL stores (the in-memory ones stand for their contracts), billing in SQL, of the task
  board its editing, listing, continuations by comment, scheduling of integrations and the Git provider, the
  user interfaces, release scripts, the orchestrator's process supervision and cloud calls, and the encrypted SQL
  stores of the second application protocol. In the callback of \<open>V2_Enrollment\<close> the outcome of installing a runtime is an
  answer of the environment; what the manager does is the subject of \<open>V2_Binding\<close>. Third-party code (JOSE, Argon2, Hono, Ajv) is a
  parameter or left out.
\<close>

end
